(* ===== verification/PyStr.thy ===== *)
theory PyStr
  imports Prelude
begin

text \<open>
  Python strings as lists of characters. A character is a code point of Latin-1 (0 to 255), for
  which the Unicode classes used by \<open>str.lower\<close>, \<open>str.isdigit\<close>, the regular-expression
  classes and word boundaries are written out exactly. Everything is executable.
\<close>

section \<open>Character classes\<close>

definition code :: "char \<Rightarrow> nat" where
  "code c = of_char c"

text \<open>Decimal digits: what \<open>\d\<close> matches and what \<open>int\<close> accepts.\<close>

definition is_dec :: "char \<Rightarrow> bool" where
  "is_dec c \<longleftrightarrow> 48 \<le> code c \<and> code c \<le> 57"

text \<open>\<open>str.isdigit\<close> is also true of the superscripts two, three and one.\<close>

definition is_digit_char :: "char \<Rightarrow> bool" where
  "is_digit_char c \<longleftrightarrow> is_dec c \<or> code c = 178 \<or> code c = 179 \<or> code c = 185"

definition is_space :: "char \<Rightarrow> bool" where
  "is_space c \<longleftrightarrow> (let n = code c in
     9 \<le> n \<and> n \<le> 13 \<or> 28 \<le> n \<and> n \<le> 32 \<or> n = 133 \<or> n = 160)"

definition is_alpha :: "char \<Rightarrow> bool" where
  "is_alpha c \<longleftrightarrow> (let n = code c in
     65 \<le> n \<and> n \<le> 90 \<or> 97 \<le> n \<and> n \<le> 122 \<or> n = 170 \<or> n = 181 \<or> n = 186 \<or>
     192 \<le> n \<and> n \<noteq> 215 \<and> n \<noteq> 247)"

definition is_alnum :: "char \<Rightarrow> bool" where
  "is_alnum c \<longleftrightarrow> is_alpha c \<or> is_digit_char c \<or> 188 \<le> code c \<and> code c \<le> 190"

definition is_word :: "char \<Rightarrow> bool" where
  "is_word c \<longleftrightarrow> is_alnum c \<or> code c = 95"

definition lower_char :: "char \<Rightarrow> char" where
  "lower_char c = (let n = code c in
     if 65 \<le> n \<and> n \<le> 90 \<or> 192 \<le> n \<and> n \<le> 222 \<and> n \<noteq> 215 then char_of (n + 32) else c)"

definition lower :: "string \<Rightarrow> string" where
  "lower s = map lower_char s"

lemma code_char_of [simp]: "n < 256 \<Longrightarrow> code (char_of n) = n"
  by (simp add: code_def)

lemma code_lt [simp]: "code c < 256"
  by (simp add: code_def)

lemma lower_char_idem [simp]: "lower_char (lower_char c) = lower_char c"
proof (cases "65 \<le> code c \<and> code c \<le> 90 \<or> 192 \<le> code c \<and> code c \<le> 222 \<and> code c \<noteq> 215")
  case True
  then have "code (char_of (code c + 32) :: char) = code c + 32"
    by (intro code_char_of) linarith
  with True show ?thesis by (auto simp: lower_char_def Let_def)
next
  case False
  then show ?thesis by (auto simp: lower_char_def Let_def)
qed

lemma lower_idem [simp]: "lower (lower s) = lower s"
  by (simp add: lower_def)

lemma length_lower [simp]: "length (lower s) = length s"
  by (simp add: lower_def)

lemma lower_append: "lower (s @ t) = lower s @ lower t"
  by (simp add: lower_def)

section \<open>Substrings, splitting, stripping\<close>

text \<open>\<open>n in h\<close>\<close>

fun contains :: "string \<Rightarrow> string \<Rightarrow> bool" where
  "contains n [] = (n = [])"
| "contains n (x # xs) = (prefix n (x # xs) \<or> contains n xs)"

lemma contains_iff_sublist: "contains n h \<longleftrightarrow> sublist n h"
  by (induction h) (auto simp: sublist_Cons_right)

lemma contains_trans: "contains a b \<Longrightarrow> contains b c \<Longrightarrow> contains a c"
  by (simp add: contains_iff_sublist)

lemma contains_refl [simp]: "contains s s"
  by (simp add: contains_iff_sublist)

lemma contains_appendI: "contains n h \<Longrightarrow> contains n (a @ h @ b)"
  by (simp add: contains_iff_sublist sublist_trans_append)

text \<open>\<open>s.split(c)\<close> for a one-character separator.\<close>

fun split_on :: "char \<Rightarrow> string \<Rightarrow> string list" where
  "split_on c [] = [[]]"
| "split_on c (x # xs) =
     (if x = c then [] # split_on c xs
      else (case split_on c xs of [] \<Rightarrow> [[x]] | y # ys \<Rightarrow> (x # y) # ys))"

fun join_on :: "string \<Rightarrow> string list \<Rightarrow> string" where
  "join_on sep [] = []"
| "join_on sep [x] = x"
| "join_on sep (x # y # ys) = x @ sep @ join_on sep (y # ys)"

lemma split_on_not_Nil [simp]: "split_on c s \<noteq> []"
  by (induction s) (auto split: list.splits)

lemma join_Cons: "ys \<noteq> [] \<Longrightarrow> join_on sep (x # ys) = x @ sep @ join_on sep ys"
  by (cases ys) auto

lemma join_on_push: "ys \<noteq> [] \<Longrightarrow> join_on sep ((a # y) # ys) = a # join_on sep (y # ys)"
  by (cases ys) auto

lemma join_split_on: "join_on [c] (split_on c s) = s"
proof (induction s)
  case Nil
  then show ?case by simp
next
  case (Cons x xs)
  obtain y ys where ys: "split_on c xs = y # ys" by (cases "split_on c xs") auto
  with Cons show ?case by (cases ys) (auto simp: join_Cons)
qed

lemma split_on_no_sep: "p \<in> set (split_on c s) \<Longrightarrow> c \<notin> set p"
proof (induction s arbitrary: p)
  case Nil
  then show ?case by simp
next
  case (Cons x xs)
  obtain y ys where ys: "split_on c xs = y # ys" by (cases "split_on c xs") auto
  from Cons.prems ys consider "p \<in> set (split_on c xs)" | "p = []" | "p = x # y" "x \<noteq> c"
    by (auto split: if_splits)
  then show ?case
  proof cases
    case 3
    then show ?thesis using Cons.IH [of y] ys by auto
  qed (use Cons.IH in auto)
qed

lemma split_on_join:
  "ps \<noteq> [] \<Longrightarrow> \<forall>p \<in> set ps. c \<notin> set p \<Longrightarrow> split_on c (join_on [c] ps) = ps"
proof (induction ps)
  case Nil
  then show ?case by simp
next
  case (Cons p ps)
  have one: "c \<notin> set p \<Longrightarrow> split_on c (p @ c # t) = p # split_on c t" for t
    by (induction p) auto
  have none: "c \<notin> set p \<Longrightarrow> split_on c p = [p]"
    by (induction p) auto
  show ?case
  proof (cases "ps = []")
    case True
    with Cons.prems none show ?thesis by simp
  next
    case False
    with Cons one show ?thesis by (simp add: join_Cons)
  qed
qed

text \<open>\<open>s.split(sep)\<close> for a longer separator: non-overlapping, from the left.\<close>

function split_str :: "string \<Rightarrow> string \<Rightarrow> string list" where
  "split_str sep s =
     (if sep = [] then [s]
      else if prefix sep s then [] # split_str sep (drop (length sep) s)
      else (case s of [] \<Rightarrow> [[]]
            | x # xs \<Rightarrow> (case split_str sep xs of [] \<Rightarrow> [[x]] | y # ys \<Rightarrow> (x # y) # ys)))"
  by pat_completeness auto
termination
  by (relation "measure (\<lambda>(sep, s). length s)")
    (auto dest!: prefix_length_le simp: Suc_le_eq intro!: diff_less)

declare split_str.simps [simp del]

lemma split_str_not_Nil [simp]: "split_str sep s \<noteq> []"
  by (subst split_str.simps) (auto split: list.splits)

text \<open>\<open>s.split(sep)[-1]\<close>\<close>

definition after_last :: "string \<Rightarrow> string \<Rightarrow> string" where
  "after_last sep s = last (split_str sep s)"

definition strip :: "string \<Rightarrow> string" where
  "strip s = rev (dropWhile is_space (rev (dropWhile is_space s)))"

definition rstrip_char :: "char \<Rightarrow> string \<Rightarrow> string" where
  "rstrip_char c s = rev (dropWhile (\<lambda>x. x = c) (rev s))"

definition lstrip_char :: "char \<Rightarrow> string \<Rightarrow> string" where
  "lstrip_char c s = dropWhile (\<lambda>x. x = c) s"

lemma contains_strip: "contains (strip s) s"
proof -
  have suf: "\<exists>a. s = a @ dropWhile is_space s" for s
    by (metis takeWhile_dropWhile_id)
  obtain a where a: "s = a @ dropWhile is_space s" using suf by blast
  obtain b where "rev (dropWhile is_space s) = b @ dropWhile is_space (rev (dropWhile is_space s))"
    using suf by blast
  then have "dropWhile is_space s = strip s @ rev b"
    by (metis rev_append rev_rev_ident strip_def)
  with a have "s = a @ strip s @ rev b" by simp
  then show ?thesis by (metis contains_appendI contains_refl)
qed

section \<open>Decimal numbers\<close>

fun dec_value_from :: "nat \<Rightarrow> string \<Rightarrow> nat" where
  "dec_value_from a [] = a"
| "dec_value_from a (c # cs) = dec_value_from (10 * a + (code c - 48)) cs"

definition dec_value :: "string \<Rightarrow> nat" where
  "dec_value s = dec_value_from 0 s"

definition isdigit :: "string \<Rightarrow> bool" where
  "isdigit s \<longleftrightarrow> s \<noteq> [] \<and> list_all is_digit_char s"

text \<open>
  \<open>int(s)\<close> on a string of digit characters, the only strings the program passes to it. The
  superscripts accepted by \<open>isdigit\<close> are refused, and so is a string of more than 4300 digits,
  the limit of the standard library (\<open>sys.int_info.default_max_str_digits\<close>).
\<close>

definition max_str_digits :: nat where
  "max_str_digits = 4300"

definition int_of_digits :: "string \<Rightarrow> int result" where
  "int_of_digits s =
     (if s \<noteq> [] \<and> list_all is_dec s \<and> length s \<le> max_str_digits
      then Inr (int (dec_value s)) else Inl ValueError)"

text \<open>\<open>int(s)\<close> on any string: blanks around it, a sign, and single underscores between digits.\<close>

definition py_int :: "string \<Rightarrow> int result" where
  "py_int s =
     (let t = strip s;
          signed = (t \<noteq> [] \<and> hd t \<in> {CHR ''+'', CHR ''-''});
          groups = split_on (CHR ''_'') (if signed then tl t else t);
          digits = concat groups in
      if list_all (\<lambda>g. g \<noteq> [] \<and> list_all is_dec g) groups \<and> length digits \<le> max_str_digits
      then Inr ((if signed \<and> hd t = CHR ''-'' then - 1 else 1) * int (dec_value digits)) else Inl ValueError)"

fun show_nat :: "nat \<Rightarrow> string" where
  "show_nat n = (if n < 10 then [char_of (48 + n)] else show_nat (n div 10) @ [char_of (48 + n mod 10)])"

declare show_nat.simps [simp del]

lemma dec_value_from_append:
  "dec_value_from a (s @ t) = dec_value_from (dec_value_from a s) t"
  by (induction s arbitrary: a) auto

lemma dec_value_show_nat: "dec_value (show_nat n) = n"
proof (induction n rule: show_nat.induct)
  case (1 n)
  show ?case
  proof (cases "n < 10")
    case True
    then show ?thesis by (subst show_nat.simps) (simp add: dec_value_def)
  next
    case False
    with 1 show ?thesis
      by (subst show_nat.simps) (simp add: dec_value_def dec_value_from_append)
  qed
qed

lemma show_nat_dec: "c \<in> set (show_nat n) \<Longrightarrow> is_dec c"
proof (induction n rule: show_nat.induct)
  case (1 n)
  then show ?case
    by (subst (asm) show_nat.simps) (auto simp: is_dec_def split: if_splits)
qed

lemma show_nat_inject [simp]: "show_nat m = show_nat n \<longleftrightarrow> m = n"
  by (metis dec_value_show_nat)

lemma show_nat_not_Nil [simp]: "show_nat n \<noteq> []"
  by (subst show_nat.simps) auto

lemma int_of_digits_nonneg: "int_of_digits s = Inr v \<Longrightarrow> 0 \<le> v"
  by (auto simp: int_of_digits_def split: if_splits)

end
