(* ===== verification/PyRegex.thy ===== *)
theory PyRegex
  imports PyStr
begin

text \<open>
  The fragment of \<open>re\<close> the program uses: classes, sequence, ordered alternative, greedy and lazy
  repetition, capture groups and word boundaries, matched by backtracking. \<open>rmatch\<close> lists every
  way to match at a position in the order in which the backtracking engine tries them, so its
  head is the match the engine reports. A position is the text already passed (reversed), the
  text ahead, and the groups captured so far. \<open>rspec\<close> is the relational meaning of a pattern;
  \<open>rmatch\<close> is sound and complete for it.
\<close>

section \<open>Patterns and the backtracking matcher\<close>

datatype rx =
    REps
  | RCls "char \<Rightarrow> bool"
  | RSeq rx rx
  | RAlt rx rx
  | RStar bool rx
  | RGrp nat rx
  | RBound

type_synonym groups = "(nat \<times> string) list"
type_synonym rstate = "string \<times> string \<times> groups"

definition word_edge :: "string \<Rightarrow> bool" where
  "word_edge s \<longleftrightarrow> (case s of [] \<Rightarrow> False | c # _ \<Rightarrow> is_word c)"

fun rmatch :: "rx \<Rightarrow> rstate \<Rightarrow> rstate list" where
  "rmatch REps st = [st]"
| "rmatch (RCls p) (pre, s, g) =
     (case s of [] \<Rightarrow> [] | c # s' \<Rightarrow> if p c then [(c # pre, s', g)] else [])"
| "rmatch (RSeq r1 r2) st = concat (map (rmatch r2) (rmatch r1 st))"
| "rmatch (RAlt r1 r2) st = rmatch r1 st @ rmatch r2 st"
| "rmatch (RStar greedy r) (pre, s, g) =
     (let more = concat (map (\<lambda>st'. if length (fst (snd st')) < length s
                                    then rmatch (RStar greedy r) st' else [])
                   (rmatch r (pre, s, g)))
      in if greedy then more @ [(pre, s, g)] else (pre, s, g) # more)"
| "rmatch (RGrp n r) (pre, s, g) =
     map (\<lambda>(pre', s', g'). (pre', s', (n, take (length s - length s') s) # g')) (rmatch r (pre, s, g))"
| "rmatch RBound (pre, s, g) = (if word_edge pre \<noteq> word_edge s then [(pre, s, g)] else [])"

lemma in_rmatch_star_iff:
  "st' \<in> set (rmatch (RStar k r) (pre, s, g)) \<longleftrightarrow>
   st' = (pre, s, g) \<or>
   (\<exists>st1 \<in> set (rmatch r (pre, s, g)). length (fst (snd st1)) < length s \<and>
      st' \<in> set (rmatch (RStar k r) st1))"
  by (auto simp: Let_def split: if_splits)

declare rmatch.simps(5) [simp del]

text \<open>\<open>re.search\<close>: the first position from the left at which the pattern matches.\<close>

fun rsearch_from :: "rx \<Rightarrow> string \<Rightarrow> string \<Rightarrow> rstate option" where
  "rsearch_from r pre [] = (case rmatch r (pre, [], []) of [] \<Rightarrow> None | x # _ \<Rightarrow> Some x)"
| "rsearch_from r pre (c # s) =
     (case rmatch r (pre, c # s, []) of [] \<Rightarrow> rsearch_from r (c # pre) s | x # _ \<Rightarrow> Some x)"

definition re_search :: "rx \<Rightarrow> string \<Rightarrow> groups option" where
  "re_search r s = map_option (\<lambda>(_, _, g). g) (rsearch_from r [] s)"

definition group :: "nat \<Rightarrow> groups \<Rightarrow> string" where
  "group n g = (case map_of g n of Some w \<Rightarrow> w | None \<Rightarrow> [])"

text \<open>Abbreviations for the usual constructs.\<close>

definition rplus :: "rx \<Rightarrow> rx" where "rplus r = RSeq r (RStar True r)"
definition ropt :: "rx \<Rightarrow> rx" where "ropt r = RAlt r REps"

fun rlit :: "string \<Rightarrow> rx" where
  "rlit [] = REps"
| "rlit (c # cs) = RSeq (RCls (\<lambda>x. x = c)) (rlit cs)"

section \<open>Relational meaning\<close>

inductive rspec :: "rx \<Rightarrow> string \<times> string \<Rightarrow> string \<times> string \<Rightarrow> bool" where
  eps: "rspec REps a a"
| cls: "p c \<Longrightarrow> rspec (RCls p) (pre, c # s) (c # pre, s)"
| seq: "rspec r1 a b \<Longrightarrow> rspec r2 b c \<Longrightarrow> rspec (RSeq r1 r2) a c"
| altL: "rspec r1 a b \<Longrightarrow> rspec (RAlt r1 r2) a b"
| altR: "rspec r2 a b \<Longrightarrow> rspec (RAlt r1 r2) a b"
| star0: "rspec (RStar k r) a a"
| starS: "rspec r a b \<Longrightarrow> rspec (RStar k r) b c \<Longrightarrow> rspec (RStar k r) a c"
| grp: "rspec r a b \<Longrightarrow> rspec (RGrp n r) a b"
| bound: "word_edge pre \<noteq> word_edge s \<Longrightarrow> rspec RBound (pre, s) (pre, s)"

inductive_simps rspec_eps_iff [simp]: "rspec REps a b"
inductive_simps rspec_cls_iff [simp]: "rspec (RCls p) a b"
inductive_simps rspec_seq_iff: "rspec (RSeq r1 r2) a b"
inductive_simps rspec_alt_iff: "rspec (RAlt r1 r2) a b"
inductive_simps rspec_grp_iff [simp]: "rspec (RGrp n r) a b"
inductive_simps rspec_bound_iff: "rspec RBound a b"

lemma rspec_consumes: "rspec r a b \<Longrightarrow> \<exists>w. snd a = w @ snd b \<and> fst b = rev w @ fst a"
  by (induction rule: rspec.induct) force+

definition pos :: "rstate \<Rightarrow> string \<times> string" where
  "pos st = (fst st, fst (snd st))"

lemma pos_simp [simp]: "pos (pre, s, g) = (pre, s)"
  by (simp add: pos_def)

theorem rmatch_sound: "st' \<in> set (rmatch r st) \<Longrightarrow> rspec r (pos st) (pos st')"
proof (induction r st arbitrary: st' rule: rmatch.induct)
  case (3 r1 r2 st)
  then obtain st1 where st1: "st1 \<in> set (rmatch r1 st)" "st' \<in> set (rmatch r2 st1)" by auto
  show ?case
    by (rule rspec.seq [OF "3.IH"(1) [OF st1(1)] "3.IH"(2) [OF st1]])
next
  case (5 greedy r pre s g)
  from "5.prems" consider "st' = (pre, s, g)"
    | st1 where "st1 \<in> set (rmatch r (pre, s, g))" "length (fst (snd st1)) < length s"
        "st' \<in> set (rmatch (RStar greedy r) st1)"
    by (auto simp: in_rmatch_star_iff)
  then show ?case
  proof cases
    case 1
    then show ?thesis by (auto intro: rspec.star0)
  next
    case 2
    show ?thesis
      using rspec.starS [OF "5.IH"(1) [OF 2(1)] "5.IH"(2) [OF 2(1) 2(2) 2(3)]] .
  qed
qed (auto intro: rspec.intros simp: rspec_bound_iff split: list.splits if_splits)

text \<open>The matcher is complete, although it never repeats a body that consumed nothing.\<close>

lemma rmatch_star_more:
  assumes "st1 \<in> set (rmatch r (pre, s, g))" and "length (fst (snd st1)) < length s"
    and "st' \<in> set (rmatch (RStar k r) st1)"
  shows "st' \<in> set (rmatch (RStar k r) (pre, s, g))"
  using assms by (auto simp: in_rmatch_star_iff)

theorem rmatch_complete: "rspec r a b \<Longrightarrow> \<exists>st' \<in> set (rmatch r (fst a, snd a, g)). pos st' = b"
proof (induction arbitrary: g rule: rspec.induct)
  case (seq r1 a b r2 c)
  then obtain st1 where st1: "st1 \<in> set (rmatch r1 (fst a, snd a, g))" "pos st1 = b" by blast
  then obtain g1 where "st1 = (fst b, snd b, g1)" by (metis fst_conv pos_def prod.collapse snd_conv)
  with st1 seq.IH(2) [of g1] show ?case by force
next
  case (altL r1 a b r2)
  from altL.IH [of g] show ?case by auto
next
  case (altR r2 a b r1)
  from altR.IH [of g] show ?case by auto
next
  case (star0 k r a)
  have "(fst a, snd a, g) \<in> set (rmatch (RStar k r) (fst a, snd a, g))"
    by (simp add: in_rmatch_star_iff)
  then show ?case by (force simp: pos_def)
next
  case (starS r a b k c)
  then obtain st1 where st1: "st1 \<in> set (rmatch r (fst a, snd a, g))" "pos st1 = b" by blast
  then obtain g1 where g1: "st1 = (fst b, snd b, g1)" by (metis fst_conv pos_def prod.collapse snd_conv)
  show ?case
  proof (cases "snd b = snd a")
    case True
    then have "b = a" using rspec_consumes [OF starS.hyps(1)] by (cases a; cases b) auto
    then show ?thesis using starS.IH(2) by blast
  next
    case False
    obtain w where w: "snd a = w @ snd b" using rspec_consumes [OF starS.hyps(1)] by blast
    with False have "length (fst (snd st1)) < length (snd a)" using g1 by auto
    moreover obtain st' where "st' \<in> set (rmatch (RStar k r) st1)" "pos st' = c"
      using starS.IH(2) [of g1] g1 by auto
    ultimately show ?thesis using st1(1) by (blast intro: rmatch_star_more)
  qed
next
  case (grp r a b n)
  from grp.IH [of g] show ?case by (force simp: image_iff split: prod.splits)
qed (auto split: list.splits)

section \<open>Captured groups\<close>

text \<open>\<open>accepts r w\<close>: the pattern can consume the word \<open>w\<close> somewhere.\<close>

definition accepts :: "rx \<Rightarrow> string \<Rightarrow> bool" where
  "accepts r w \<longleftrightarrow> (\<exists>pre s. rspec r (pre, w @ s) (rev w @ pre, s))"

fun grps :: "rx \<Rightarrow> (nat \<times> rx) list" where
  "grps (RSeq r1 r2) = grps r1 @ grps r2"
| "grps (RAlt r1 r2) = grps r1 @ grps r2"
| "grps (RStar k r) = grps r"
| "grps (RGrp n r) = (n, r) # grps r"
| "grps _ = []"

lemma rmatch_consumes:
  "st' \<in> set (rmatch r (pre, s, g)) \<Longrightarrow>
   \<exists>w. s = w @ fst (snd st') \<and> fst st' = rev w @ pre"
  using rspec_consumes [OF rmatch_sound] by (fastforce simp: pos_def)

lemma rmatch_groups:
  "st' \<in> set (rmatch r st) \<Longrightarrow> (n, w) \<in> set (snd (snd st')) \<Longrightarrow>
   (n, w) \<in> set (snd (snd st)) \<or>
   (\<exists>r'. (n, r') \<in> set (grps r) \<and> accepts r' w) \<and> sublist w (rev (fst st) @ fst (snd st))"
proof (induction r st arbitrary: st' rule: rmatch.induct)
  case (3 r1 r2 st)
  then obtain st1 where st1: "st1 \<in> set (rmatch r1 st)" "st' \<in> set (rmatch r2 st1)" by auto
  then have "rev (fst st1) @ fst (snd st1) = rev (fst st) @ fst (snd st)"
    using rmatch_consumes [of st1 r1 "fst st" "fst (snd st)" "snd (snd st)"] by auto
  then show ?case
    using "3.IH"(1) [OF st1(1)] "3.IH"(2) [OF st1(1) st1(2) "3.prems"(2)] by auto
next
  case (5 greedy r pre s g)
  from "5.prems"(1) consider "st' = (pre, s, g)"
    | st1 where "st1 \<in> set (rmatch r (pre, s, g))" "length (fst (snd st1)) < length s"
        "st' \<in> set (rmatch (RStar greedy r) st1)"
    by (auto simp: in_rmatch_star_iff)
  then show ?case
  proof cases
    case 1
    then show ?thesis using "5.prems"(2) by simp
  next
    case 2
    then have "rev (fst st1) @ fst (snd st1) = rev pre @ s"
      using rmatch_consumes [of st1 r pre s g] by auto
    then show ?thesis
      using "5.IH"(1) [OF 2(1)] "5.IH"(2) [OF 2(1) 2(2) 2(3) "5.prems"(2)] by auto
  qed
next
  case (6 m r pre s g)
  then obtain pre' s' g' where st1: "(pre', s', g') \<in> set (rmatch r (pre, s, g))"
    and st': "st' = (pre', s', (m, take (length s - length s') s) # g')"
    by auto
  from rmatch_consumes [OF st1] obtain v where v: "s = v @ s'" "pre' = rev v @ pre" by auto
  have "accepts r v"
    unfolding accepts_def using rmatch_sound [OF st1] v
    by (intro exI [of _ pre] exI [of _ s']) simp
  moreover have "sublist v (rev pre @ s)" using v(1) by (simp add: sublist_trans_append)
  ultimately show ?case using "6.IH" [OF st1] "6.prems"(2) st' v(1) by auto
next
  case (4 r1 r2 st)
  from "4.prems"(1) consider "st' \<in> set (rmatch r1 st)" | "st' \<in> set (rmatch r2 st)" by auto
  then show ?case using "4.IH" "4.prems"(2) by cases fastforce+
qed (auto split: list.splits if_splits)

text \<open>A group outside alternatives and repetitions is set by every match.\<close>

fun sets_group :: "nat \<Rightarrow> rx \<Rightarrow> bool" where
  "sets_group n (RSeq r1 r2) \<longleftrightarrow> sets_group n r1 \<or> sets_group n r2"
| "sets_group n (RGrp m r) \<longleftrightarrow> m = n \<or> sets_group n r"
| "sets_group n _ \<longleftrightarrow> False"

lemma rmatch_keeps: "st' \<in> set (rmatch r st) \<Longrightarrow> fst ` set (snd (snd st)) \<subseteq> fst ` set (snd (snd st'))"
proof (induction r st arbitrary: st' rule: rmatch.induct)
  case (5 greedy r pre s g)
  from "5.prems"(1) consider "st' = (pre, s, g)"
    | st1 where "st1 \<in> set (rmatch r (pre, s, g))" "length (fst (snd st1)) < length s"
        "st' \<in> set (rmatch (RStar greedy r) st1)"
    by (auto simp: in_rmatch_star_iff)
  then show ?case
  proof cases
    case 2
    show ?thesis using subset_trans [OF "5.IH"(1) [OF 2(1)] "5.IH"(2) [OF 2(1) 2(2) 2(3)]] .
  qed simp
next
  case (3 r1 r2 st)
  then obtain st1 where st1: "st1 \<in> set (rmatch r1 st)" "st' \<in> set (rmatch r2 st1)" by auto
  show ?case using subset_trans [OF "3.IH"(1) [OF st1(1)] "3.IH"(2) [OF st1]] .
next
  case (4 r1 r2 st)
  from "4.prems" consider "st' \<in> set (rmatch r1 st)" | "st' \<in> set (rmatch r2 st)" by auto
  then show ?case using "4.IH" by cases
next
  case (6 n r pre s g)
  then obtain st1 where "st1 \<in> set (rmatch r (pre, s, g))"
    "snd (snd st') = (n, take (length s - length (fst (snd st1))) s) # snd (snd st1)"
    by auto
  with "6.IH" show ?case by fastforce
qed (auto split: list.splits if_splits)

lemma rmatch_sets_group:
  "sets_group n r \<Longrightarrow> st' \<in> set (rmatch r st) \<Longrightarrow> n \<in> fst ` set (snd (snd st'))"
proof (induction n r arbitrary: st st' rule: sets_group.induct)
  case (1 n r1 r2)
  then obtain st1 where "st1 \<in> set (rmatch r1 st)" "st' \<in> set (rmatch r2 st1)" by auto
  moreover from 1 have "sets_group n r1 \<or> sets_group n r2" by simp
  ultimately show ?case using "1.IH" rmatch_keeps by blast
next
  case (2 n m r)
  obtain pre s g where st: "st = (pre, s, g)" by (cases st)
  with "2.prems" obtain st1 where st1: "st1 \<in> set (rmatch r (pre, s, g))"
    "snd (snd st') = (m, take (length s - length (fst (snd st1))) s) # snd (snd st1)"
    by auto
  with "2.IH" [of st1 "(pre, s, g)"] "2.prems"(1) show ?case by auto
qed auto

lemma rsearch_from_Some:
  "rsearch_from r pre s = Some st \<Longrightarrow>
   \<exists>pre0 s0. rev pre0 @ s0 = rev pre @ s \<and> st \<in> set (rmatch r (pre0, s0, []))"
proof (induction r pre s rule: rsearch_from.induct)
  case (1 r pre)
  then show ?case by (intro exI [of _ pre] exI [of _ "[]"]) (auto split: list.splits)
next
  case (2 r pre c s)
  show ?case
  proof (cases "rmatch r (pre, c # s, [])")
    case Nil
    with 2 show ?thesis by fastforce
  next
    case (Cons x xs)
    with 2 show ?thesis by (intro exI [of _ pre] exI [of _ "c # s"]) auto
  qed
qed

text \<open>What a search reports: each group is set, is part of the text, and is accepted by its
  sub-pattern.\<close>

lemma re_search_group:
  assumes "re_search r s = Some g" and "sets_group n r"
  shows "(\<exists>r'. (n, r') \<in> set (grps r) \<and> accepts r' (group n g)) \<and> contains (group n g) s"
proof -
  from assms(1) obtain st where st: "rsearch_from r [] s = Some st" and g: "g = snd (snd st)"
    by (auto simp: re_search_def)
  from rsearch_from_Some [OF st] obtain pre0 s0
    where p: "rev pre0 @ s0 = s" and m: "st \<in> set (rmatch r (pre0, s0, []))" by auto
  from rmatch_sets_group [OF assms(2) m] g have "n \<in> fst ` set g" by simp
  then obtain w where w: "map_of g n = Some w" by (metis imageE map_of_eq_None_iff not_None_eq)
  with g have "(n, w) \<in> set (snd (snd st))" by (simp add: map_of_SomeD)
  from rmatch_groups [OF m this] p w show ?thesis
    by (auto simp: group_def contains_iff_sublist)
qed

text \<open>Words consumed by a repeated class.\<close>

lemma rspec_star_cls:
  "rspec (RStar k (RCls p)) a b \<Longrightarrow> snd a = w @ snd b \<Longrightarrow> list_all p w"
proof (induction "RStar k (RCls p)" a b arbitrary: w rule: rspec.induct)
  case (starS a b c)
  from rspec_consumes [OF starS.hyps(2)] obtain v where "snd b = v @ snd c" by blast
  with starS show ?case by (auto simp: Cons_eq_append_conv)
qed auto

lemma accepts_star_cls: "accepts (RStar k (RCls p)) w \<Longrightarrow> list_all p w"
  unfolding accepts_def using rspec_star_cls by fastforce

lemma accepts_plus_cls: "accepts (rplus (RCls p)) w \<Longrightarrow> w \<noteq> [] \<and> list_all p w"
  unfolding accepts_def rplus_def
proof (elim exE)
  fix pre s
  assume "rspec (RSeq (RCls p) (RStar True (RCls p))) (pre, w @ s) (rev w @ pre, s)"
  then obtain c s1 where c: "w @ s = c # s1" "p c"
    and st: "rspec (RStar True (RCls p)) (c # pre, s1) (rev w @ pre, s)"
    by (auto simp: rspec_seq_iff)
  from rspec_consumes [OF st] obtain v where v: "s1 = v @ s" by auto
  with c have "w = c # v" by simp
  with c v rspec_star_cls [OF st, of v] show "w \<noteq> [] \<and> list_all p w" by simp
qed

text \<open>A pattern all of whose classes lie in \<open>P\<close> consumes characters of \<open>P\<close> only.\<close>

fun rx_within :: "(char \<Rightarrow> bool) \<Rightarrow> rx \<Rightarrow> bool" where
  "rx_within P (RCls p) \<longleftrightarrow> (\<forall>c. p c \<longrightarrow> P c)"
| "rx_within P (RSeq r1 r2) \<longleftrightarrow> rx_within P r1 \<and> rx_within P r2"
| "rx_within P (RAlt r1 r2) \<longleftrightarrow> rx_within P r1 \<and> rx_within P r2"
| "rx_within P (RStar k r) \<longleftrightarrow> rx_within P r"
| "rx_within P (RGrp n r) \<longleftrightarrow> rx_within P r"
| "rx_within P _ \<longleftrightarrow> True"

lemma rspec_within:
  "rspec r a b \<Longrightarrow> rx_within P r \<Longrightarrow> snd a = w @ snd b \<Longrightarrow> list_all P w"
proof (induction arbitrary: w rule: rspec.induct)
  case (seq r1 a b r2 c)
  from rspec_consumes [OF seq.hyps(1)] rspec_consumes [OF seq.hyps(2)]
  obtain u v where "snd a = u @ snd b" "snd b = v @ snd c" by blast
  with seq show ?case by (auto simp: append_assoc [symmetric] simp del: append_assoc)
next
  case (starS r a b k c)
  from rspec_consumes [OF starS.hyps(1)] rspec_consumes [OF starS.hyps(2)]
  obtain u v where "snd a = u @ snd b" "snd b = v @ snd c" by blast
  with starS show ?case by (auto simp: append_assoc [symmetric] simp del: append_assoc)
qed (auto simp: Cons_eq_append_conv)

lemma accepts_within: "accepts r w \<Longrightarrow> rx_within P r \<Longrightarrow> list_all P w"
  unfolding accepts_def using rspec_within by fastforce

section \<open>Iterating over matches\<close>

text \<open>\<open>re.finditer\<close> for a pattern that consumes at least one character.\<close>

function re_finditer_from :: "rx \<Rightarrow> string \<Rightarrow> string \<Rightarrow> groups list" where
  "re_finditer_from r pre s =
     (case rsearch_from r pre s of
        None \<Rightarrow> []
      | Some (pre', s', g) \<Rightarrow> if length s' < length s then g # re_finditer_from r pre' s' else [g])"
  by pat_completeness auto
termination
  by (relation "measure (\<lambda>(r, pre, s). length s)") auto

declare re_finditer_from.simps [simp del]

definition re_finditer :: "rx \<Rightarrow> string \<Rightarrow> groups list" where
  "re_finditer r s = re_finditer_from r [] s"

lemma rsearch_from_pos:
  assumes "rsearch_from r pre s = Some st"
  shows "rev (fst st) @ fst (snd st) = rev pre @ s"
proof -
  from rsearch_from_Some [OF assms] obtain pre0 s0
    where p: "rev pre0 @ s0 = rev pre @ s" and m: "st \<in> set (rmatch r (pre0, s0, []))" by blast
  from rmatch_consumes [OF m] p show ?thesis by auto
qed

lemma re_finditer_from_group:
  "g \<in> set (re_finditer_from r pre s) \<Longrightarrow> sets_group n r \<Longrightarrow>
   (\<exists>r'. (n, r') \<in> set (grps r) \<and> accepts r' (group n g)) \<and> sublist (group n g) (rev pre @ s)"
proof (induction r pre s rule: re_finditer_from.induct)
  case (1 r pre s)
  from "1.prems"(1) obtain pre' s' g0 where st: "rsearch_from r pre s = Some (pre', s', g0)"
    by (cases "rsearch_from r pre s") (auto simp: re_finditer_from.simps [of r pre s])
  from rsearch_from_Some [OF st] obtain pre0 q0
    where p: "rev pre0 @ q0 = rev pre @ s" and m: "(pre', s', g0) \<in> set (rmatch r (pre0, q0, []))"
    by blast
  from rmatch_sets_group [OF "1.prems"(2) m] have "n \<in> fst ` set g0" by simp
  then obtain w where w: "map_of g0 n = Some w" by (metis imageE map_of_eq_None_iff not_None_eq)
  with rmatch_groups [OF m, of n w] p have g0: "(\<exists>r'. (n, r') \<in> set (grps r) \<and> accepts r' (group n g0)) \<and>
      sublist (group n g0) (rev pre @ s)"
    by (auto simp: group_def dest: map_of_SomeD)
  from "1.prems"(1) st have "g = g0 \<or> (length s' < length s \<and> g \<in> set (re_finditer_from r pre' s'))"
    by (auto simp: re_finditer_from.simps [of r pre s] split: if_splits)
  then show ?case
    using g0 "1.IH" [OF st refl refl] "1.prems"(2) rsearch_from_pos [OF st] by auto
qed

lemma re_finditer_group:
  "g \<in> set (re_finditer r s) \<Longrightarrow> sets_group n r \<Longrightarrow>
   (\<exists>r'. (n, r') \<in> set (grps r) \<and> accepts r' (group n g)) \<and> contains (group n g) s"
  using re_finditer_from_group [of g r "[]" s n] by (simp add: re_finditer_def contains_iff_sublist)

end
