(* ===== verification/IpAddr.thy ===== *)
theory IpAddr
  imports PyStr
begin

text \<open>
  The textual forms accepted by \<open>ipaddress.ip_address\<close> of the Python standard library, which
  the normalizers use as their test for an attacker address: dotted-quad IPv4 (no leading
  zeros, as of Python 3.9.5) and IPv6 with at most one \<open>::\<close>, an optional IPv4 tail and an
  optional scope.
\<close>

section \<open>IPv4\<close>

definition octet_ok :: "string \<Rightarrow> bool" where
  "octet_ok s \<longleftrightarrow> s \<noteq> [] \<and> list_all is_dec s \<and> length s \<le> 3 \<and>
     \<not> (s \<noteq> ''0'' \<and> hd s = CHR ''0'') \<and> dec_value s \<le> 255"

definition ipv4_ok :: "string \<Rightarrow> bool" where
  "ipv4_ok s \<longleftrightarrow> (let os = split_on (CHR ''.'') s in length os = 4 \<and> list_all octet_ok os)"

section \<open>IPv6\<close>

definition hex_digit :: "char \<Rightarrow> bool" where
  "hex_digit c \<longleftrightarrow> is_dec c \<or> 65 \<le> code c \<and> code c \<le> 70 \<or> 97 \<le> code c \<and> code c \<le> 102"

definition hextet_ok :: "string \<Rightarrow> bool" where
  "hextet_ok s \<longleftrightarrow> s \<noteq> [] \<and> list_all hex_digit s \<and> length s \<le> 4"

text \<open>\<open>_split_scope_id\<close>: the address before a percent sign, or nothing when the scope is bad.\<close>

definition split_scope :: "string \<Rightarrow> string option" where
  "split_scope s = (case split_on (CHR ''%'') s of
       [a] \<Rightarrow> Some a
     | [a, sc] \<Rightarrow> if sc = [] then None else Some a
     | _ \<Rightarrow> None)"

text \<open>An IPv4 tail stands for two hextets, which are well formed by construction.\<close>

definition expand_tail :: "string list \<Rightarrow> string list option" where
  "expand_tail ps =
     (if CHR ''.'' \<in> set (last ps)
      then (if ipv4_ok (last ps) then Some (butlast ps @ [''0'', ''0'']) else None)
      else Some ps)"

definition inner_empty :: "string list \<Rightarrow> nat list" where
  "inner_empty ps = filter (\<lambda>i. ps ! i = []) [1 ..< length ps - 1]"

definition ipv6_parts_ok :: "string list \<Rightarrow> bool" where
  "ipv6_parts_ok ps =
     (case inner_empty ps of
        [] \<Rightarrow> length ps = 8 \<and> list_all hextet_ok ps
      | [k] \<Rightarrow>
          (let hi = (if hd ps = [] then k - 1 else k);
               lo = (if last ps = [] then length ps - k - 2 else length ps - k - 1)
           in (hd ps = [] \<longrightarrow> hi = 0) \<and> (last ps = [] \<longrightarrow> lo = 0) \<and> hi + lo \<le> 7 \<and>
              list_all hextet_ok (take hi ps) \<and> list_all hextet_ok (drop (length ps - lo) ps))
      | _ \<Rightarrow> False)"

definition ipv6_ok :: "string \<Rightarrow> bool" where
  "ipv6_ok s =
     (CHR ''/'' \<notin> set s \<and>
      (case split_scope s of
         None \<Rightarrow> False
       | Some a \<Rightarrow>
           (let ps = split_on (CHR '':'') a in
            a \<noteq> [] \<and> 3 \<le> length ps \<and>
            (case expand_tail ps of None \<Rightarrow> False | Some qs \<Rightarrow> length qs \<le> 9 \<and> ipv6_parts_ok qs))))"

definition ip_address_ok :: "string \<Rightarrow> bool" where
  "ip_address_ok s \<longleftrightarrow> ipv4_ok s \<or> ipv6_ok s"

section \<open>Facts\<close>

lemma ip_address_ok_not_unknown [simp]: "\<not> ip_address_ok ''unknown''"
  by code_simp

text \<open>A valid dotted quad is four numbers of at most 255, in canonical decimal.\<close>

lemma octet_value_le: "octet_ok s \<Longrightarrow> dec_value s \<le> 255"
  by (simp add: octet_ok_def)

definition ipv4_value :: "string \<Rightarrow> nat" where
  "ipv4_value s = foldl (\<lambda>a o'. 256 * a + dec_value o') 0 (split_on (CHR ''.'') s)"

lemma ipv4_value_bound:
  assumes "ipv4_ok s"
  shows "ipv4_value s < 2 ^ 32"
proof -
  obtain a b c d where "split_on (CHR ''.'') s = [a, b, c, d]"
    and ok: "octet_ok a" "octet_ok b" "octet_ok c" "octet_ok d"
    using assms by (auto simp: ipv4_ok_def Let_def numeral_eq_Suc length_Suc_conv)
  then have "ipv4_value s = 256 * (256 * (256 * dec_value a + dec_value b) + dec_value c) + dec_value d"
    by (simp add: ipv4_value_def)
  with ok [THEN octet_value_le] show ?thesis by simp
qed

end
