(* ===== verification/Docs.thy ===== *)
theory Docs
  imports PyStr
begin

text \<open>
  Documents of the honeypot collections: a timestamp, if the logger wrote one, and fields whose
  values are None, booleans, integers or strings. \<open>doc_get\<close> is \<open>dict.get\<close>, \<open>py_or\<close> the
  \<open>or\<close> operator, and the coercions raise what the Python operation raises on a value of another
  type.
\<close>

datatype pyval = PNone | PBool bool | PInt int | PStr string

record log_doc =
  ldoc_id :: nat
  ldoc_time :: "int option"
  ldoc_fields :: "(string \<times> pyval) list"

definition doc_get :: "log_doc \<Rightarrow> string \<Rightarrow> pyval" where
  "doc_get d k = (case map_of (ldoc_fields d) k of Some v \<Rightarrow> v | None \<Rightarrow> PNone)"

definition doc_get_default :: "log_doc \<Rightarrow> string \<Rightarrow> pyval \<Rightarrow> pyval" where
  "doc_get_default d k v = (case map_of (ldoc_fields d) k of Some w \<Rightarrow> w | None \<Rightarrow> v)"

fun truthy :: "pyval \<Rightarrow> bool" where
  "truthy PNone = False"
| "truthy (PBool b) = b"
| "truthy (PInt i) = (i \<noteq> 0)"
| "truthy (PStr s) = (s \<noteq> [])"

definition py_or :: "pyval \<Rightarrow> pyval \<Rightarrow> pyval" where
  "py_or a b = (if truthy a then a else b)"

text \<open>Python's equality of a value with an integer: booleans are the integers 0 and 1.\<close>

fun eq_int :: "pyval \<Rightarrow> int \<Rightarrow> bool" where
  "eq_int (PInt i) n = (i = n)"
| "eq_int (PBool b) n = ((if b then 1 else 0) = n)"
| "eq_int _ n = False"

definition in_ints :: "pyval \<Rightarrow> int list \<Rightarrow> bool" where
  "in_ints v ns = list_ex (eq_int v) ns"

text \<open>A string operation on a value: \<open>e\<close> is what it raises on a value of another type.\<close>

definition as_str :: "py_exn \<Rightarrow> pyval \<Rightarrow> string result" where
  "as_str e v = (case v of PStr s \<Rightarrow> Inr s | _ \<Rightarrow> Inl e)"

definition show_int :: "int \<Rightarrow> string" where
  "show_int i = (if i < 0 then CHR ''-'' # show_nat (nat (- i)) else show_nat (nat i))"

text \<open>\<open>str(v)\<close>\<close>

fun str_of :: "pyval \<Rightarrow> string" where
  "str_of PNone = ''None''"
| "str_of (PBool b) = (if b then ''True'' else ''False'')"
| "str_of (PInt i) = show_int i"
| "str_of (PStr s) = s"

lemma as_str_Inr_iff [simp]: "as_str e v = Inr s \<longleftrightarrow> v = PStr s"
  by (cases v) (auto simp: as_str_def)

lemma as_str_PStr [simp]: "as_str e (PStr s) = Inr s"
  by (simp add: as_str_def)

lemma py_or_str_cases: "py_or a (PStr s) = PStr t \<Longrightarrow> t = s \<or> a = PStr t"
  by (auto simp: py_or_def split: if_splits)

end
