(* ===== verification/NormBackfill.thy ===== *)
theory NormBackfill
  imports PyRegex IpAddr Docs
begin

text \<open>
  \<open>Code/normalizer/normalized_logs.py\<close>: the backfill that turns the documents of the five
  honeypot collections into uniform records. The regular expressions are the patterns of the
  source, run by the matcher of \<open>PyRegex\<close>; \<open>ip_to_ports\<close>, a \<open>defaultdict(set)\<close>, is a map
  whose read inserts the empty entry. A run that raises stops the script: the records inserted
  so far stay, which is why the main loop returns its state beside the exception.
\<close>

section \<open>Constants\<close>

definition HONEYPOT_IPS :: "string list" where
  "HONEYPOT_IPS = [''192.168.186.136'', ''192.168.186.137'', ''192.168.186.138'', ''192.168.186.139'']"

definition LOCAL_BINDS :: "string list" where
  "LOCAL_BINDS = [''0.0.0.0'', ''127.0.0.1'']"

definition sources :: "(string \<times> string) list" where
  "sources =
     [(''cowrie_logs'', ''cowrie''), (''honeypy_logs'', ''honeypy''),
      (''honeytrap_logs'', ''honeytrap''), (''conpot_logs'', ''conpot''),
      (''nodepot_logs'', ''nodepot-lite'')]"

definition own_ip :: "string \<Rightarrow> bool" where
  "own_ip ip \<longleftrightarrow> ip \<in> set (HONEYPOT_IPS @ LOCAL_BINDS)"

section \<open>Addresses\<close>

definition ipv4_mapped_to_ipv4 :: "string \<Rightarrow> string" where
  "ipv4_mapped_to_ipv4 ip =
     (if prefix ''::ffff:'' ip
      then (let cand = after_last ''::ffff:'' ip in if ip_address_ok cand then cand else ip)
      else ip)"

text \<open>On a value that is no string, the mapping is the identity and the test is false.\<close>

definition mapped_val :: "pyval \<Rightarrow> pyval" where
  "mapped_val v = (case v of PStr s \<Rightarrow> PStr (ipv4_mapped_to_ipv4 s) | _ \<Rightarrow> v)"

definition is_valid_ip :: "pyval \<Rightarrow> bool" where
  "is_valid_ip v = (case v of PStr s \<Rightarrow> ip_address_ok (ipv4_mapped_to_ipv4 s) | _ \<Rightarrow> False)"

section \<open>Address and port from free text\<close>

definition r_dec :: rx where "r_dec = RCls is_dec"
definition r_dots :: rx where "r_dots = rplus (RCls (\<lambda>c. is_dec c \<or> c = CHR ''.''))"
definition r_sp :: rx where "r_sp = RCls is_space"
definition r_d13 :: rx where "r_d13 = RSeq r_dec (ropt (RSeq r_dec (ropt r_dec)))"
definition r_dot13 :: rx where "r_dot13 = RSeq (RCls (\<lambda>c. c = CHR ''.'')) r_d13"
definition r_quad :: rx where "r_quad = RSeq r_d13 (RSeq r_dot13 (RSeq r_dot13 r_dot13))"

definition re_cowrie :: rx where
  "re_cowrie = RSeq (rlit ''New connection:'') (RSeq (rplus r_sp)
     (RSeq (RGrp 1 r_dots) (RSeq (rlit '':'') (RSeq (RGrp 2 (rplus r_dec)) (RSeq (rplus r_sp)
     (RSeq (rlit ''('') (RSeq (RGrp 3 r_dots) (RSeq (rlit '':'') (RSeq (RGrp 4 (rplus r_dec)) (rlit '')''))))))))))"

definition re_ftp :: rx where
  "re_ftp = RSeq (rlit ''FTP connection from'') (RSeq (rplus r_sp)
     (RSeq (RGrp 1 r_dots) (RSeq (rlit '':'') (RGrp 2 (rplus r_dec)))))"

definition re_tuple :: rx where
  "re_tuple = RSeq (rlit [CHR ''('', CHR 0x27]) (RSeq (RGrp 1 r_quad) (RSeq (rlit [CHR 0x27])
     (RSeq (RStar True r_sp) (RSeq (rlit '','') (RSeq (RStar True r_sp)
     (RSeq (RGrp 2 (rplus r_dec)) (rlit '')'')))))))"

definition re_generic :: rx where
  "re_generic = RSeq RBound (RSeq (RGrp 1 r_quad) (RSeq (rlit '':'') (RSeq (RGrp 2 (rplus r_dec)) RBound)))"

definition re_ip :: rx where "re_ip = RGrp 1 r_quad"

definition re_port :: rx where
  "re_port = RSeq (rlit ''port'') (RSeq (rplus r_sp) (RGrp 1 (rplus r_dec)))"

text \<open>One candidate: taken if it is a valid address of neither a honeypot nor a local bind.\<close>

definition candidate :: "string \<Rightarrow> string \<Rightarrow> (string \<times> pyval) result \<Rightarrow> (string \<times> pyval) result" where
  "candidate ip p otherwise =
     (let ip = ipv4_mapped_to_ipv4 ip in
      if \<not> own_ip ip \<and> is_valid_ip (PStr ip)
      then bindE (int_of_digits p) (\<lambda>n. Inr (ip, PInt n)) else otherwise)"

definition parse_any_ip_port :: "string \<Rightarrow> (string \<times> pyval) result" where
  "parse_any_ip_port text =
     (let step5 = (\<lambda>_::unit. case re_search re_ip text of
             Some g \<Rightarrow>
               (let ip = ipv4_mapped_to_ipv4 (group 1 g) in
                if \<not> own_ip ip \<and> is_valid_ip (PStr ip)
                then (case re_search re_port (lower text) of
                        Some h \<Rightarrow> bindE (int_of_digits (group 1 h)) (\<lambda>n. Inr (ip, PInt n))
                      | None \<Rightarrow> Inr (ip, PNone))
                else Inr (''unknown'', PNone))
           | None \<Rightarrow> Inr (''unknown'', PNone));
          step4 = (\<lambda>_::unit. case re_search re_generic text of
             Some g \<Rightarrow> candidate (group 1 g) (group 2 g) (step5 ()) | None \<Rightarrow> step5 ());
          step3 = (\<lambda>_::unit. case re_search re_tuple text of
             Some g \<Rightarrow> candidate (group 1 g) (group 2 g) (step4 ()) | None \<Rightarrow> step4 ());
          step2 = (\<lambda>_::unit. case re_search re_ftp text of
             Some g \<Rightarrow> candidate (group 1 g) (group 2 g) (step3 ()) | None \<Rightarrow> step3 ())
      in case re_search re_cowrie text of
           Some g \<Rightarrow> candidate (group 1 g) (group 2 g) (candidate (group 3 g) (group 4 g) (step2 ()))
         | None \<Rightarrow> step2 ())"

text \<open>\<open>re.search\<close> raises TypeError on a value that is no string; \<open>text or ""\<close> comes first.\<close>

definition parse_any_val :: "pyval \<Rightarrow> (string \<times> pyval) result" where
  "parse_any_val v = bindE (as_str TypeError (py_or v (PStr []))) parse_any_ip_port"

section \<open>Protocol\<close>

definition detect_protocol :: "pyval \<Rightarrow> pyval \<Rightarrow> string result" where
  "detect_protocol text port =
     bindE (as_str AttributeError (py_or text (PStr []))) (\<lambda>s. let t = lower s in Inr (
       if contains ''ssh'' t \<or> in_ints port [22, 2222] then ''ssh''
       else if contains ''http'' t \<or> in_ints port [80, 8080, 8800, 9999] then ''http''
       else if contains ''ftp'' t \<or> in_ints port [21, 2244] then ''ftp''
       else if contains ''modbus'' t \<or> in_ints port [502, 5020] then ''modbus''
       else if contains ''bacnet'' t \<or> in_ints port [47808] then ''bacnet''
       else if eq_int port 23 \<or> contains ''telnet'' t then ''telnet''
       else ''unknown''))"

section \<open>Tags\<close>

type_synonym port_map = "string \<Rightarrow> int list option"

definition ports_of :: "port_map \<Rightarrow> string \<Rightarrow> int list" where
  "ports_of m ip = (case m ip of Some ps \<Rightarrow> ps | None \<Rightarrow> [])"

text \<open>Reading \<open>ip_to_ports[ip]\<close> inserts the empty set for a new address; \<open>add\<close> is set
  insertion. The list of an address has no duplicates and stands for the set of its ports.\<close>

definition touch :: "string \<Rightarrow> port_map \<Rightarrow> port_map" where
  "touch ip m = m(ip \<mapsto> ports_of m ip)"

definition add_port :: "string \<Rightarrow> int \<Rightarrow> port_map \<Rightarrow> port_map" where
  "add_port ip p m = m(ip \<mapsto> List.insert p (ports_of m ip))"

definition re_netcat :: rx where
  "re_netcat = RSeq RBound (RSeq (RGrp 1 (RAlt (rlit ''netcat'') (rlit ''nc''))) RBound)"

definition text_tags :: "string \<Rightarrow> string list" where
  "text_tags t =
     (if contains ''nmap'' t \<or> contains ''masscan'' t then [''nmap''] else []) @
     (if re_search re_netcat t \<noteq> None then [''netcat''] else []) @
     (if contains ''libssh'' t then [''libssh''] else []) @
     (if contains ''failed login'' t \<or> contains ''authentication failed'' t then [''ssh_brute''] else []) @
     (if contains ''login attempt'' t \<or> contains ''user root'' t then [''login_attempt''] else []) @
     (if contains ''upload'' t \<or> contains ''multipart/form-data'' t \<or> contains ''file saved'' t
      then [''upload''] else []) @
     (if contains ''select'' t \<and> contains ''--'' t \<or> contains ''union select'' t \<or> contains '' or 1=1'' t
      then [''sqli''] else []) @
     (if contains ''../'' t \<or> contains ''/etc/passwd'' t then [''dir_traversal''] else [])"

definition tag_rules :: "pyval \<Rightarrow> string \<Rightarrow> port_map \<Rightarrow> (string list \<times> port_map) result" where
  "tag_rules text ip m =
     bindE (as_str AttributeError (py_or text (PStr []))) (\<lambda>s. Inr (
       if ip \<noteq> ''unknown''
       then (text_tags (lower s) @ (if 10 < length (ports_of m ip) then [''port_scan''] else []), touch ip m)
       else (text_tags (lower s), m)))"

section \<open>Records\<close>

record norm_rec =
  n_timestamp :: int
  n_source :: string
  n_ip :: string
  n_port :: pyval
  n_protocol :: string
  n_raw :: pyval
  n_tags :: "string list"

definition finalize_record ::
  "int \<Rightarrow> string \<Rightarrow> string \<Rightarrow> pyval \<Rightarrow> string \<Rightarrow> pyval \<Rightarrow> string list \<Rightarrow> port_map \<Rightarrow>
   (norm_rec \<times> port_map) result" where
  "finalize_record ts src ip port proto raw extra m =
     bindE (tag_rules raw ip m) (\<lambda>(tags, m').
       let tags = tags @ filter (\<lambda>t. t \<notin> set tags) extra;
           tags = (if ip \<in> set HONEYPOT_IPS then tags @ [''internal_honeypot''] else tags)
       in Inr (\<lparr>n_timestamp = ts, n_source = src, n_ip = ip,
                n_port = (if port \<noteq> PNone then port else PStr ''unknown''),
                n_protocol = proto, n_raw = raw, n_tags = tags\<rparr>, m'))"

text \<open>\<open>int(port) if isinstance(port, int) or (isinstance(port, str) and port.isdigit()) else
  "unknown"\<close>\<close>

definition port_or_unknown :: "pyval \<Rightarrow> pyval result" where
  "port_or_unknown port =
     (case port of
        PInt i \<Rightarrow> Inr (PInt i)
      | PBool b \<Rightarrow> Inr (PInt (if b then 1 else 0))
      | PStr s \<Rightarrow> if isdigit s then bindE (int_of_digits s) (\<lambda>n. Inr (PInt n)) else Inr (PStr ''unknown'')
      | PNone \<Rightarrow> Inr (PStr ''unknown''))"

definition ip_or_unknown :: "pyval \<Rightarrow> string" where
  "ip_or_unknown v = (case v of PStr s \<Rightarrow> if is_valid_ip v then s else ''unknown'' | _ \<Rightarrow> ''unknown'')"

definition stamp :: "int \<Rightarrow> log_doc \<Rightarrow> int" where
  "stamp now d = (case ldoc_time d of Some t \<Rightarrow> t | None \<Rightarrow> now)"

section \<open>One normalizer per source\<close>

type_synonym norm_result = "(norm_rec \<times> port_map) result"

definition fld_lower :: "log_doc \<Rightarrow> string \<Rightarrow> string result" where
  "fld_lower d k = bindE (as_str AttributeError (py_or (doc_get d k) (PStr []))) (\<lambda>s. Inr (lower s))"

definition nodepot_ip :: "pyval \<Rightarrow> string \<Rightarrow> string" where
  "nodepot_ip ip_struct ip_parsed =
     (if is_valid_ip ip_struct then ip_or_unknown ip_struct
      else if is_valid_ip (PStr ip_parsed) then ip_parsed else ''unknown'')"

definition nodepot_extra :: "string \<Rightarrow> string \<Rightarrow> string \<Rightarrow> string list" where
  "nodepot_extra uri event_type raw =
     (if contains ''upload'' event_type \<or> contains ''upload'' uri \<or>
         contains ''multipart/form-data'' (lower raw) then [''upload''] else []) @
     (if contains ''login'' event_type \<or> contains ''login attempt'' (lower raw)
      then [''login_attempt''] else []) @
     (if list_ex (\<lambda>k. contains k uri)
           [''admin'', ''upload'', ''shell'', ''config'', ''.php'', ''.asp'', ''.jspx'', ''.aspx'']
      then [''suspicious_uri''] else [])"

definition normalize_nodepot :: "int \<Rightarrow> log_doc \<Rightarrow> port_map \<Rightarrow> norm_result" where
  "normalize_nodepot now d m =
     (let raw = py_or (doc_get d ''raw_log'') (PStr []) in
      bindE (fld_lower d ''uri'') (\<lambda>uri.
      bindE (fld_lower d ''event_type'') (\<lambda>event_type.
      let ts = stamp now d;
          ip_struct = mapped_val (doc_get_default d ''ip'' (PStr ''unknown'')) in
      bindE (parse_any_val raw) (\<lambda>(ip_parsed, _).
      bindE (as_str AttributeError raw) (\<lambda>raw_s.
      finalize_record ts ''nodepot-lite'' (nodepot_ip ip_struct ip_parsed) (PInt 80) ''http''
        (if raw_s \<noteq> [] then raw else PStr (event_type @ '' '' @ uri))
        (nodepot_extra uri event_type raw_s) m)))))"

text \<open>HoneyPy and Honeytrap read the structured address first and fall back on the text when it is
  no address or one of the deployment's own.\<close>

definition struct_or_text :: "pyval \<Rightarrow> pyval \<Rightarrow> pyval \<Rightarrow> (pyval \<times> pyval) result" where
  "struct_or_text ip port raw =
     (if \<not> is_valid_ip ip \<or> (\<exists>s \<in> set (HONEYPOT_IPS @ LOCAL_BINDS). ip = PStr s)
      then bindE (parse_any_val raw) (\<lambda>(i, p). Inr (PStr i, p))
      else Inr (ip, port))"

definition normalize_honeypy :: "int \<Rightarrow> log_doc \<Rightarrow> port_map \<Rightarrow> norm_result" where
  "normalize_honeypy now d m =
     (let ip = mapped_val (py_or (py_or (doc_get d ''src_ip'') (doc_get d ''ip'')) (PStr ''unknown''));
          port = py_or (doc_get d ''src_port'') (doc_get d ''port'');
          raw = py_or (py_or (doc_get d ''raw_log'') (doc_get d ''message'')) (PStr []);
          ts = stamp now d in
      bindE (struct_or_text ip port raw) (\<lambda>(ip, port).
      bindE (if in_ints port [21, 2244] then Inr ''ftp''
             else bindE (as_str AttributeError (py_or raw (PStr []))) (\<lambda>s.
                  if contains ''ftp'' (lower s) then Inr ''ftp'' else detect_protocol raw port)) (\<lambda>proto.
      bindE (port_or_unknown port) (\<lambda>port'.
      finalize_record ts ''honeypy'' (ip_or_unknown ip) port' proto raw
        (if proto = ''ftp'' then [''ftp_connection''] else []) m))))"

text \<open>None is the heartbeat document that the caller skips.\<close>

definition normalize_honeytrap :: "int \<Rightarrow> log_doc \<Rightarrow> port_map \<Rightarrow> (norm_rec \<times> port_map) option result" where
  "normalize_honeytrap now d m =
     (let ip = mapped_val (py_or (py_or (py_or (doc_get d ''src_ip'') (doc_get d ''remote_host''))
                                  (doc_get d ''ip'')) (PStr ''unknown''));
          port = py_or (py_or (doc_get d ''src_port'') (doc_get d ''remote_port'')) (doc_get d ''port'');
          raw = py_or (py_or (doc_get d ''raw_log'') (doc_get d ''message'')) (PStr []);
          ts = stamp now d in
      bindE (as_str AttributeError (py_or raw (PStr []))) (\<lambda>s.
      if contains ''heartbeat'' (lower s) then Inr None
      else
        bindE (struct_or_text ip port raw) (\<lambda>(ip, port).
        bindE (detect_protocol raw port) (\<lambda>proto.
        bindE (port_or_unknown port) (\<lambda>port'.
        bindE (finalize_record ts ''honeytrap'' (ip_or_unknown ip) port' proto raw [] m) (\<lambda>r.
        Inr (Some r)))))))"

definition normalize_conpot :: "int \<Rightarrow> log_doc \<Rightarrow> port_map \<Rightarrow> norm_result" where
  "normalize_conpot now d m =
     (let raw = str_of (doc_get_default d ''raw_log'' (PStr []));
          ts = stamp now d in
      if list_ex (\<lambda>k. contains k (lower raw))
           [''server started on'', ''serving tcp/ip'', ''responding to external done/disable signal'']
      then bindE (detect_protocol (PStr raw) PNone) (\<lambda>proto.
           finalize_record ts ''conpot'' ''unknown'' (PStr ''unknown'') proto (PStr raw) [] m)
      else bindE (parse_any_ip_port raw) (\<lambda>(ip, port).
           bindE (detect_protocol (PStr raw) port) (\<lambda>proto.
           finalize_record ts ''conpot'' ip port proto (PStr raw) [] m)))"

text \<open>The remaining branch of the main loop, taken by the Cowrie collection; it alone records the
  ports an address connected to.\<close>

definition normalize_default :: "int \<Rightarrow> string \<Rightarrow> log_doc \<Rightarrow> port_map \<Rightarrow> norm_result" where
  "normalize_default now src d m =
     (let raw = str_of (doc_get_default d ''raw_log'' (PStr []));
          ts = stamp now d in
      bindE (parse_any_ip_port raw) (\<lambda>(ip, port).
      let m = (case port of PInt p \<Rightarrow> if ip \<noteq> ''unknown'' then add_port ip p m else m | _ \<Rightarrow> m) in
      bindE (detect_protocol (PStr raw) port) (\<lambda>proto.
      finalize_record ts src (if is_valid_ip (PStr ip) then ip else ''unknown'')
        (if port \<noteq> PNone then port else PStr ''unknown'') proto (PStr raw) [] m)))"

section \<open>The backfill\<close>

definition normalize_doc :: "int \<Rightarrow> string \<Rightarrow> log_doc \<Rightarrow> port_map \<Rightarrow> (norm_rec \<times> port_map) option result" where
  "normalize_doc now src d m =
     (if src = ''nodepot-lite'' then bindE (normalize_nodepot now d m) (\<lambda>r. Inr (Some r))
      else if src = ''honeypy'' then bindE (normalize_honeypy now d m) (\<lambda>r. Inr (Some r))
      else if src = ''honeytrap'' then normalize_honeytrap now d m
      else if src = ''conpot'' then bindE (normalize_conpot now d m) (\<lambda>r. Inr (Some r))
      else bindE (normalize_default now src d m) (\<lambda>r. Inr (Some r)))"

record backfill =
  bf_ports :: port_map
  bf_out :: "norm_rec list"
  bf_inserted :: nat

definition backfill_init :: backfill where
  "backfill_init = \<lparr>bf_ports = (\<lambda>_. None), bf_out = [], bf_inserted = 0\<rparr>"

text \<open>The documents of all collections in the order of the two loops, each with its source tag.
  \<open>clock\<close> gives the time at which a document is processed. The second component of the result
  is the exception that ended the script, if one did.\<close>

fun backfill_run :: "(nat \<Rightarrow> int) \<Rightarrow> (string \<times> log_doc) list \<Rightarrow> backfill \<Rightarrow> backfill \<times> py_exn option" where
  "backfill_run clock [] b = (b, None)"
| "backfill_run clock ((src, d) # ds) b =
     (case normalize_doc (clock (ldoc_id d)) src d (bf_ports b) of
        Inl e \<Rightarrow> (b, Some e)
      | Inr None \<Rightarrow> backfill_run clock ds b
      | Inr (Some (r, m)) \<Rightarrow>
          backfill_run clock ds
            (b\<lparr>bf_ports := m, bf_out := bf_out b @ [r], bf_inserted := bf_inserted b + 1\<rparr>))"

definition backfill :: "(nat \<Rightarrow> int) \<Rightarrow> (string \<Rightarrow> log_doc list) \<Rightarrow> backfill \<times> py_exn option" where
  "backfill clock db =
     backfill_run clock (concat (map (\<lambda>(coll, src). map (\<lambda>d. (src, d)) (db coll)) sources)) backfill_init"

end
