(* ===== verification/NormFacts.thy ===== *)
theory NormFacts
  imports NormBackfill
begin

text \<open>
  What the backfill normalizer guarantees: where the address and port of a record come from, when
  parsing raises, which tags a record carries, and what the port map holds after any run.
\<close>

section \<open>Words matched by the patterns\<close>

definition dot_or_dec :: "char \<Rightarrow> bool" where
  "dot_or_dec c \<longleftrightarrow> is_dec c \<or> c = CHR ''.''"

lemma within_dots [simp]: "rx_within dot_or_dec r_dots" "rx_within dot_or_dec r_quad"
  by (simp_all add: r_dots_def rplus_def r_quad_def r_dot13_def r_d13_def r_dec_def ropt_def dot_or_dec_def)

lemma mapped_dots [simp]:
  assumes "list_all dot_or_dec w"
  shows "ipv4_mapped_to_ipv4 w = w"
proof -
  have "\<not> prefix ''::ffff:'' w"
    using assms by (cases w) (auto simp: dot_or_dec_def is_dec_def code_def)
  then show ?thesis by (simp add: ipv4_mapped_to_ipv4_def)
qed

lemmas pattern_defs = re_cowrie_def re_ftp_def re_tuple_def re_generic_def re_ip_def re_port_def

lemma grps_rlit [simp]: "grps (rlit s) = []"
  by (induction s) auto

lemma grps_basic [simp]: "grps r_dots = []" "grps r_quad = []" "grps r_sp = []" "grps (rplus r_sp) = []"
  "grps (rplus r_dec) = []"
  by (simp_all add: r_dots_def rplus_def r_quad_def r_dot13_def r_d13_def r_dec_def ropt_def r_sp_def)

lemma digits_word: "accepts (rplus r_dec) w \<Longrightarrow> w \<noteq> [] \<and> list_all is_dec w"
  by (simp add: r_dec_def accepts_plus_cls)

definition ip_word :: "string \<Rightarrow> string \<Rightarrow> bool" where
  "ip_word line w \<longleftrightarrow> list_all dot_or_dec w \<and> contains w line"

definition port_word :: "string \<Rightarrow> string \<Rightarrow> bool" where
  "port_word line w \<longleftrightarrow> w \<noteq> [] \<and> list_all is_dec w \<and> contains w line"

lemma re_cowrie_groups:
  assumes "re_search re_cowrie s = Some g"
  shows "ip_word s (group 1 g)" "port_word s (group 2 g)" "ip_word s (group 3 g)" "port_word s (group 4 g)"
  using re_search_group [OF assms, of 1] re_search_group [OF assms, of 2]
    re_search_group [OF assms, of 3] re_search_group [OF assms, of 4]
  by (auto simp: re_cowrie_def ip_word_def port_word_def dest: digits_word accepts_within [OF _ within_dots(1)])

lemma re_ftp_groups:
  assumes "re_search re_ftp s = Some g"
  shows "ip_word s (group 1 g)" "port_word s (group 2 g)"
  using re_search_group [OF assms, of 1] re_search_group [OF assms, of 2]
  by (auto simp: re_ftp_def ip_word_def port_word_def dest: digits_word accepts_within [OF _ within_dots(1)])

lemma re_tuple_groups:
  assumes "re_search re_tuple s = Some g"
  shows "ip_word s (group 1 g)" "port_word s (group 2 g)"
  using re_search_group [OF assms, of 1] re_search_group [OF assms, of 2]
  by (auto simp: re_tuple_def ip_word_def port_word_def dest: digits_word accepts_within [OF _ within_dots(2)])

lemma re_generic_groups:
  assumes "re_search re_generic s = Some g"
  shows "ip_word s (group 1 g)" "port_word s (group 2 g)"
  using re_search_group [OF assms, of 1] re_search_group [OF assms, of 2]
  by (auto simp: re_generic_def ip_word_def port_word_def dest: digits_word accepts_within [OF _ within_dots(2)])

lemma re_ip_group:
  assumes "re_search re_ip s = Some g"
  shows "ip_word s (group 1 g)"
  using re_search_group [OF assms, of 1]
  by (auto simp: re_ip_def ip_word_def dest: accepts_within [OF _ within_dots(2)])

lemma re_port_group:
  assumes "re_search re_port s = Some g"
  shows "port_word s (group 1 g)"
  using re_search_group [OF assms, of 1]
  by (auto simp: re_port_def port_word_def dest: digits_word)

section \<open>Parsing\<close>

text \<open>Nothing found, or an address of the text that is valid and not the deployment's own.\<close>

definition found_in :: "string \<Rightarrow> string \<times> pyval \<Rightarrow> bool" where
  "found_in line r \<longleftrightarrow>
     r = (''unknown'', PNone) \<or>
     ip_address_ok (fst r) \<and> \<not> own_ip (fst r) \<and> contains (fst r) line \<and>
     (snd r = PNone \<or> (\<exists>n \<ge> 0. snd r = PInt n))"

definition parse_ok :: "string \<Rightarrow> (string \<times> pyval) result \<Rightarrow> bool" where
  "parse_ok line m \<longleftrightarrow>
     (case m of Inr r \<Rightarrow> found_in line r | Inl e \<Rightarrow> e = ValueError \<and> max_str_digits < length line)"

lemma contains_length: "contains a b \<Longrightarrow> length a \<le> length b"
  by (simp add: contains_iff_sublist sublist_length_le)

lemma int_of_port_word:
  assumes "port_word line w"
  shows "(\<exists>n \<ge> 0. int_of_digits w = Inr n) \<or> (int_of_digits w = Inl ValueError \<and> max_str_digits < length line)"
  using assms contains_length [of w line] by (auto simp: int_of_digits_def port_word_def)

lemma candidate_ok:
  assumes "ip_word line ip" and "port_word line p" and "parse_ok line k"
  shows "parse_ok line (candidate ip p k)"
  using assms int_of_port_word [OF assms(2)]
  by (auto simp: candidate_def Let_def parse_ok_def found_in_def ip_word_def is_valid_ip_def)

lemma parse_any_ip_port_ok: "parse_ok line (parse_any_ip_port line)"
proof -
  have port: "port_word line w \<or> max_str_digits < length line \<longrightarrow> True" for w by simp
  have step5: "parse_ok line (case re_search re_ip line of
             Some g \<Rightarrow>
               (let ip = ipv4_mapped_to_ipv4 (group 1 g) in
                if \<not> own_ip ip \<and> is_valid_ip (PStr ip)
                then (case re_search re_port (lower line) of
                        Some h \<Rightarrow> bindE (int_of_digits (group 1 h)) (\<lambda>n. Inr (ip, PInt n))
                      | None \<Rightarrow> Inr (ip, PNone))
                else Inr (''unknown'', PNone))
           | None \<Rightarrow> Inr (''unknown'', PNone))"
    using re_ip_group [of line] re_port_group [of "lower line", THEN int_of_port_word]
    by (fastforce simp: parse_ok_def found_in_def Let_def ip_word_def is_valid_ip_def split: option.splits)
  show ?thesis
    unfolding parse_any_ip_port_def Let_def
    using step5 re_cowrie_groups [of line] re_ftp_groups [of line] re_tuple_groups [of line]
      re_generic_groups [of line]
    by (auto split: option.splits intro!: candidate_ok simp: Let_def)
qed

lemma parse_any_ip_port_found: "parse_any_ip_port line = Inr r \<Longrightarrow> found_in line r"
  using parse_any_ip_port_ok [of line] by (simp add: parse_ok_def)

lemma parse_any_ip_port_ip:
  assumes "parse_any_ip_port line = Inr (ip, port)"
  shows "(ip = ''unknown'' \<or> ip_address_ok ip) \<and> \<not> own_ip ip"
  using parse_any_ip_port_found [OF assms]
  by (auto simp: found_in_def own_ip_def HONEYPOT_IPS_def LOCAL_BINDS_def)

text \<open>C37. The text parser of the backfill never invents an attacker: it reports nothing
  (\<open>"unknown"\<close> and no port), or an address that occurs in the log line, that the standard library
  accepts, that is neither a honeypot of the deployment nor a local bind, with no port or a
  non-negative one.\<close>

theorem parse_any_ip_port_sound:
  assumes "parse_any_ip_port line = Inr (ip, port)"
  shows "ip = ''unknown'' \<and> port = PNone \<or>
         ip_address_ok ip \<and> ip \<notin> set HONEYPOT_IPS \<and> ip \<notin> set LOCAL_BINDS \<and> contains ip line \<and>
         (port = PNone \<or> (\<exists>n \<ge> 0. port = PInt n))"
  using parse_any_ip_port_found [OF assms] by (auto simp: found_in_def own_ip_def)

theorem parse_any_ip_port_sound_witness:
  "parse_any_ip_port ''a 8.8.4.4:53'' = Inr (''8.8.4.4'', PInt 53) \<and>
   (''8.8.4.4'' = ''unknown'' \<and> PInt 53 = PNone \<or>
    ip_address_ok ''8.8.4.4'' \<and> ''8.8.4.4'' \<notin> set HONEYPOT_IPS \<and> ''8.8.4.4'' \<notin> set LOCAL_BINDS \<and>
    contains ''8.8.4.4'' ''a 8.8.4.4:53'' \<and> (PInt 53 = PNone \<or> (\<exists>n \<ge> 0. PInt 53 = PInt n)))"
proof -
  have h: "parse_any_ip_port ''a 8.8.4.4:53'' = Inr (''8.8.4.4'', PInt 53)" by code_simp
  from h parse_any_ip_port_sound [OF h] show ?thesis by blast
qed

text \<open>On a log line of at most 4300 characters the parser always returns; on a longer one it may
  raise, and then only the ValueError of converting a port of more digits than \<open>int\<close> accepts.\<close>

lemma parse_any_ip_port_returns:
  "case parse_any_ip_port line of Inr r \<Rightarrow> True | Inl e \<Rightarrow> e = ValueError \<and> 4300 < length line"
  using parse_any_ip_port_ok [of line] by (auto simp: parse_ok_def max_str_digits_def split: sum.splits)

section \<open>Records\<close>

lemma finalize_recordE:
  assumes "finalize_record ts src ip port proto raw extra m = Inr (r, m')"
  obtains s where "py_or raw (PStr []) = PStr s" "n_source r = src" "n_ip r = ip" "n_raw r = raw"
    "n_port r = (if port \<noteq> PNone then port else PStr ''unknown'')"
    "m' = (if ip \<noteq> ''unknown'' then touch ip m else m)"
    "set (n_tags r) = set (text_tags (lower s)) \<union> set extra \<union>
       (if ip \<noteq> ''unknown'' \<and> 10 < length (ports_of m ip) then {''port_scan''} else {}) \<union>
       (if ip \<in> set HONEYPOT_IPS then {''internal_honeypot''} else {})"
proof -
  from assms obtain s where "py_or raw (PStr []) = PStr s" by (auto simp: finalize_record_def tag_rules_def)
  with assms show ?thesis
    by (intro that [of s]) (auto simp: finalize_record_def tag_rules_def Let_def split: if_splits)
qed

lemma text_tags_range:
  "set (text_tags t) \<subseteq> {''nmap'', ''netcat'', ''libssh'', ''ssh_brute'', ''login_attempt'', ''upload'',
     ''sqli'', ''dir_traversal''}"
  by (auto simp: text_tags_def)

text \<open>The address of a record is the literal \<open>unknown\<close> or valid; only Nodepot's structured address
  may be one of the deployment's own.\<close>

definition ip_ok :: "string \<Rightarrow> bool" where
  "ip_ok ip \<longleftrightarrow> ip = ''unknown'' \<or> is_valid_ip (PStr ip)"

lemma own_ip_unknown [simp]: "\<not> own_ip ''unknown''"
  by (simp add: own_ip_def HONEYPOT_IPS_def LOCAL_BINDS_def)

lemma mapped_valid: "ip_address_ok ip \<Longrightarrow> is_valid_ip (PStr ip)"
  by (auto simp: is_valid_ip_def ipv4_mapped_to_ipv4_def Let_def)

lemma parse_any_val_ip:
  assumes "parse_any_val v = Inr (ip, port)"
  shows "ip_ok ip \<and> \<not> own_ip ip"
proof -
  from assms obtain s where "parse_any_ip_port s = Inr (ip, port)" by (auto simp: parse_any_val_def)
  from parse_any_ip_port_ip [OF this] show ?thesis by (auto simp: ip_ok_def mapped_valid)
qed

lemma ip_or_unknown_ok [simp]: "ip_ok (ip_or_unknown v)"
  by (auto simp: ip_or_unknown_def ip_ok_def split: pyval.splits)

lemma struct_or_text_ip:
  assumes "struct_or_text ip port raw = Inr (ip', port')"
  shows "\<not> own_ip (ip_or_unknown ip')"
proof (cases "\<not> is_valid_ip ip \<or> (\<exists>s \<in> set (HONEYPOT_IPS @ LOCAL_BINDS). ip = PStr s)")
  case True
  with assms obtain i where i: "parse_any_val raw = Inr (i, port')" "ip' = PStr i"
    by (auto simp: struct_or_text_def split: if_splits)
  from parse_any_val_ip [OF i(1)] i(2) show ?thesis by (auto simp: ip_or_unknown_def)
next
  case False
  with assms have "\<not> own_ip s" if "ip' = PStr s" for s
    using that by (auto simp: struct_or_text_def own_ip_def split: if_splits)
  then show ?thesis by (auto simp: ip_or_unknown_def split: pyval.splits)
qed

text \<open>What every record of a source satisfies; \<open>own\<close> says whether the source may carry one of
  the deployment's own addresses.\<close>

definition port_ok :: "pyval \<Rightarrow> bool" where
  "port_ok v \<longleftrightarrow> v = PStr ''unknown'' \<or> (\<exists>n. v = PInt n)"

definition rec_ok :: "bool \<Rightarrow> port_map \<Rightarrow> norm_rec \<Rightarrow> bool" where
  "rec_ok own m r \<longleftrightarrow>
     ip_ok (n_ip r) \<and> port_ok (n_port r) \<and> (own_ip (n_ip r) \<longrightarrow> own) \<and>
     (''internal_honeypot'' \<in> set (n_tags r) \<longleftrightarrow> n_ip r \<in> set HONEYPOT_IPS) \<and>
     (''port_scan'' \<in> set (n_tags r) \<longleftrightarrow> n_ip r \<noteq> ''unknown'' \<and> 10 < length (ports_of m (n_ip r)))"

lemma finalize_rec_ok:
  assumes "finalize_record ts src ip port proto raw extra m = Inr (r, m')"
    and "ip_ok ip" and "port = PNone \<or> port_ok port" and "own_ip ip \<longrightarrow> own"
    and "''internal_honeypot'' \<notin> set extra" and "''port_scan'' \<notin> set extra"
  shows "rec_ok own m r \<and> n_source r = src \<and> m' = (if n_ip r \<noteq> ''unknown'' then touch (n_ip r) m else m)"
proof -
  from assms(1) show ?thesis
  proof (rule finalize_recordE)
    fix s
    assume a: "n_source r = src" "n_ip r = ip" "n_port r = (if port \<noteq> PNone then port else PStr ''unknown'')"
      "m' = (if ip \<noteq> ''unknown'' then touch ip m else m)"
      and t: "set (n_tags r) = set (text_tags (lower s)) \<union> set extra \<union>
       (if ip \<noteq> ''unknown'' \<and> 10 < length (ports_of m ip) then {''port_scan''} else {}) \<union>
       (if ip \<in> set HONEYPOT_IPS then {''internal_honeypot''} else {})"
    have "''port_scan'' \<notin> set (text_tags (lower s))" "''internal_honeypot'' \<notin> set (text_tags (lower s))"
      using text_tags_range [of "lower s"] by auto
    with assms(5,6) t have "(''internal_honeypot'' \<in> set (n_tags r)) = (ip \<in> set HONEYPOT_IPS)"
      "(''port_scan'' \<in> set (n_tags r)) = (ip \<noteq> ''unknown'' \<and> 10 < length (ports_of m ip))"
      by auto
    with a assms(2-4) show ?thesis by (auto simp: rec_ok_def port_ok_def)
  qed
qed

lemma port_or_unknown_ok: "port_or_unknown p = Inr q \<Longrightarrow> port_ok q"
  by (auto simp: port_or_unknown_def port_ok_def split: pyval.splits if_splits)

lemma parse_port_ok: "parse_any_ip_port line = Inr (ip, port) \<Longrightarrow> port = PNone \<or> port_ok port"
  using parse_any_ip_port_found [of line] by (auto simp: found_in_def port_ok_def)

lemma nodepot_extra_range: "set (nodepot_extra u e t) \<subseteq> {''upload'', ''login_attempt'', ''suspicious_uri''}"
  by (auto simp: nodepot_extra_def)

lemma nodepot_ip_ok: "ip_ok (nodepot_ip v p)"
  by (simp add: nodepot_ip_def ip_ok_def [of p] ip_ok_def [of "''unknown''"])

lemma normalize_nodepot_ok:
  assumes "normalize_nodepot now d m = Inr (r, m')"
  shows "rec_ok True m r \<and> n_source r = ''nodepot-lite'' \<and>
         m' = (if n_ip r \<noteq> ''unknown'' then touch (n_ip r) m else m)"
proof -
  from assms obtain v p raw u e t where
    f: "finalize_record (stamp now d) ''nodepot-lite'' (nodepot_ip v p) (PInt 80) ''http'' raw
          (nodepot_extra u e t) m = Inr (r, m')"
    by (auto simp: normalize_nodepot_def Let_def)
  show ?thesis
    by (rule finalize_rec_ok [OF f nodepot_ip_ok])
      (use nodepot_extra_range [of u e t] in \<open>auto simp: port_ok_def\<close>)
qed

lemma normalize_honeypy_ok:
  assumes "normalize_honeypy now d m = Inr (r, m')"
  shows "rec_ok False m r \<and> n_source r = ''honeypy'' \<and>
         m' = (if n_ip r \<noteq> ''unknown'' then touch (n_ip r) m else m)"
proof -
  from assms obtain ip ip' port port' port'' raw raw' proto where
    s: "struct_or_text ip port raw = Inr (ip', port')" and p: "port_or_unknown port' = Inr port''"
    and f: "finalize_record (stamp now d) ''honeypy'' (ip_or_unknown ip') port'' proto raw'
              (if proto = ''ftp'' then [''ftp_connection''] else []) m = Inr (r, m')"
    by (auto simp: normalize_honeypy_def Let_def)
  show ?thesis
    by (rule finalize_rec_ok [OF f]) (use struct_or_text_ip [OF s] port_or_unknown_ok [OF p] in auto)
qed

lemma normalize_honeytrap_ok:
  assumes "normalize_honeytrap now d m = Inr (Some (r, m'))"
  shows "rec_ok False m r \<and> n_source r = ''honeytrap'' \<and>
         m' = (if n_ip r \<noteq> ''unknown'' then touch (n_ip r) m else m)"
proof -
  from assms obtain ip ip' port port' port'' raw raw' proto where
    s: "struct_or_text ip port raw = Inr (ip', port')" and p: "port_or_unknown port' = Inr port''"
    and f: "finalize_record (stamp now d) ''honeytrap'' (ip_or_unknown ip') port'' proto raw' [] m = Inr (r, m')"
    by (auto simp: normalize_honeytrap_def Let_def split: if_splits)
  show ?thesis
    by (rule finalize_rec_ok [OF f]) (use struct_or_text_ip [OF s] port_or_unknown_ok [OF p] in auto)
qed

lemma normalize_conpot_ok:
  assumes "normalize_conpot now d m = Inr (r, m')"
  shows "rec_ok False m r \<and> n_source r = ''conpot'' \<and>
         m' = (if n_ip r \<noteq> ''unknown'' then touch (n_ip r) m else m)"
proof -
  from assms obtain ip port proto raw where
    f: "finalize_record (stamp now d) ''conpot'' ip port proto raw [] m = Inr (r, m')"
    and ok: "ip_ok ip \<and> \<not> own_ip ip \<and> (port = PNone \<or> port_ok port)"
    by (fastforce simp: normalize_conpot_def Let_def ip_ok_def port_ok_def mapped_valid
          dest: parse_any_ip_port_ip parse_port_ok split: if_splits)
  show ?thesis by (rule finalize_rec_ok [OF f]) (use ok in auto)
qed

text \<open>The Cowrie branch adds the port it found before the record is built.\<close>

definition cowrie_port :: "log_doc \<Rightarrow> (string \<times> int) option" where
  "cowrie_port d = (case parse_any_ip_port (str_of (doc_get_default d ''raw_log'' (PStr []))) of
       Inr (ip, PInt p) \<Rightarrow> if ip \<noteq> ''unknown'' then Some (ip, p) else None
     | _ \<Rightarrow> None)"

definition note_port :: "log_doc \<Rightarrow> port_map \<Rightarrow> port_map" where
  "note_port d m = (case cowrie_port d of Some (ip, p) \<Rightarrow> add_port ip p m | None \<Rightarrow> m)"

lemma normalize_default_ok:
  assumes "normalize_default now src d m = Inr (r, m')"
  shows "rec_ok False (note_port d m) r \<and> n_source r = src \<and>
         m' = (if n_ip r \<noteq> ''unknown'' then touch (n_ip r) (note_port d m) else note_port d m)"
proof -
  let ?raw = "str_of (doc_get_default d ''raw_log'' (PStr []))"
  from assms obtain ip port where p: "parse_any_ip_port ?raw = Inr (ip, port)"
    by (auto simp: normalize_default_def Let_def)
  have m: "(case port of PInt q \<Rightarrow> if ip \<noteq> ''unknown'' then add_port ip q m else m | _ \<Rightarrow> m) = note_port d m"
    using p by (auto simp: note_port_def cowrie_port_def split: pyval.splits)
  from assms p m obtain proto where
    f: "finalize_record (stamp now d) src (if is_valid_ip (PStr ip) then ip else ''unknown'')
          (if port \<noteq> PNone then port else PStr ''unknown'') proto (PStr ?raw) [] (note_port d m) = Inr (r, m')"
    by (auto simp: normalize_default_def Let_def)
  show ?thesis
    by (rule finalize_rec_ok [OF f])
      (use parse_any_ip_port_ip [OF p] parse_port_ok [OF p] in \<open>auto simp: ip_ok_def port_ok_def\<close>)
qed

text \<open>All sources together.\<close>

definition records_ports :: "string \<Rightarrow> bool" where
  "records_ports src \<longleftrightarrow> src \<notin> {''nodepot-lite'', ''honeypy'', ''honeytrap'', ''conpot''}"

definition ports_before :: "string \<Rightarrow> log_doc \<Rightarrow> port_map \<Rightarrow> port_map" where
  "ports_before src d m = (if records_ports src then note_port d m else m)"

lemma normalize_doc_ok:
  assumes "normalize_doc now src d m = Inr (Some (r, m'))"
  shows "rec_ok (src = ''nodepot-lite'') (ports_before src d m) r \<and> n_source r = src \<and>
         m' = (if n_ip r \<noteq> ''unknown'' then touch (n_ip r) (ports_before src d m) else ports_before src d m)"
proof -
  consider (n) "src = ''nodepot-lite''" | (h) "src = ''honeypy''" | (t) "src = ''honeytrap''" | (c) "src = ''conpot''"
    | (r) "records_ports src" by (auto simp: records_ports_def)
  then show ?thesis
  proof cases
    case n
    with assms have "normalize_nodepot now d m = Inr (r, m')" by (auto simp: normalize_doc_def)
    from normalize_nodepot_ok [OF this] n show ?thesis by (simp add: ports_before_def records_ports_def)
  next
    case h
    with assms have "normalize_honeypy now d m = Inr (r, m')" by (auto simp: normalize_doc_def)
    from normalize_honeypy_ok [OF this] h show ?thesis by (simp add: ports_before_def records_ports_def)
  next
    case t
    with assms have "normalize_honeytrap now d m = Inr (Some (r, m'))" by (auto simp: normalize_doc_def)
    from normalize_honeytrap_ok [OF this] t show ?thesis by (simp add: ports_before_def records_ports_def)
  next
    case c
    with assms have "normalize_conpot now d m = Inr (r, m')" by (auto simp: normalize_doc_def)
    from normalize_conpot_ok [OF this] c show ?thesis by (simp add: ports_before_def records_ports_def)
  next
    case r
    with assms have "normalize_default now src d m = Inr (r, m')"
      by (auto simp: normalize_doc_def records_ports_def)
    from normalize_default_ok [OF this] r show ?thesis by (simp add: ports_before_def records_ports_def)
  qed
qed

section \<open>Whole runs\<close>

text \<open>The ports of an address among processed documents: what \<open>ip_to_ports\<close> is meant to hold.\<close>

definition ports_seen :: "(string \<times> log_doc) list \<Rightarrow> string \<Rightarrow> int set" where
  "ports_seen ds ip = {p. \<exists>(src, d) \<in> set ds. records_ports src \<and> cowrie_port d = Some (ip, p)}"

definition map_holds :: "port_map \<Rightarrow> (string \<times> log_doc) list \<Rightarrow> bool" where
  "map_holds m ds \<longleftrightarrow> (\<forall>ip. set (ports_of m ip) = ports_seen ds ip \<and> distinct (ports_of m ip))"

lemma map_holdsD: "map_holds m ds \<Longrightarrow> length (ports_of m ip) = card (ports_seen ds ip)"
  by (metis distinct_card map_holds_def)

lemma ports_of_touch [simp]: "ports_of (touch ip m) x = ports_of m x"
  by (simp add: ports_of_def touch_def)

lemma ports_of_add [simp]:
  "ports_of (add_port ip p m) x = (if x = ip then List.insert p (ports_of m x) else ports_of m x)"
  by (simp add: ports_of_def add_port_def)

lemma map_holds_init: "map_holds (\<lambda>_. None) []"
  by (simp add: map_holds_def ports_of_def ports_seen_def)

lemma map_holds_touch [simp]: "map_holds (touch ip m) ds = map_holds m ds"
  by (simp add: map_holds_def)

lemma map_holds_step:
  assumes "map_holds m ds"
  shows "map_holds (ports_before src d m) (ds @ [(src, d)])"
proof -
  have "ports_seen (ds @ [(src, d)]) ip =
      ports_seen ds ip \<union> (if records_ports src then {p. cowrie_port d = Some (ip, p)} else {})" for ip
    by (auto simp: ports_seen_def)
  with assms show ?thesis
    by (auto simp: map_holds_def ports_before_def note_port_def split: option.splits)
qed

lemma normalize_doc_skip: "normalize_doc now src d m = Inr None \<Longrightarrow> src = ''honeytrap''"
  by (auto simp: normalize_doc_def split: if_splits)

lemma map_holds_skip: "map_holds m ds \<Longrightarrow> map_holds m (ds @ [(''honeytrap'', d)])"
  using map_holds_step [of m ds "''honeytrap''" d] by (simp add: ports_before_def records_ports_def)

text \<open>One document of the run at a time.\<close>

lemma backfill_run_simps:
  "normalize_doc (clock (ldoc_id d)) src d (bf_ports b) = Inl e \<Longrightarrow>
   backfill_run clock ((src, d) # ds) b = (b, Some e)"
  "normalize_doc (clock (ldoc_id d)) src d (bf_ports b) = Inr None \<Longrightarrow>
   backfill_run clock ((src, d) # ds) b = backfill_run clock ds b"
  "normalize_doc (clock (ldoc_id d)) src d (bf_ports b) = Inr (Some (r, m)) \<Longrightarrow>
   backfill_run clock ((src, d) # ds) b =
   backfill_run clock ds (b\<lparr>bf_ports := m, bf_out := bf_out b @ [r], bf_inserted := bf_inserted b + 1\<rparr>)"
  by simp_all

declare backfill_run.simps(2) [simp del]

lemma normalize_doc_cases:
  obtains (Raise) e where "normalize_doc now src d m = Inl e"
  | (Skip) "normalize_doc now src d m = Inr None"
  | (Emit) r m' where "normalize_doc now src d m = Inr (Some (r, m'))"
  by (metis not_None_eq old.sum.exhaust surj_pair)

lemma backfill_run_holds:
  assumes "map_holds (bf_ports b) ds0" and "backfill_run clock ds b = (b', None)"
  shows "map_holds (bf_ports b') (ds0 @ ds)"
  using assms
proof (induction ds arbitrary: b ds0)
  case Nil
  then show ?case by simp
next
  case (Cons x ds)
  obtain src d where x: "x = (src, d)" by (cases x)
  show ?case
  proof (cases rule: normalize_doc_cases [of "clock (ldoc_id d)" src d "bf_ports b"])
    case (Raise e)
    with Cons.prems(2) x show ?thesis by (simp add: backfill_run_simps(1))
  next
    case Skip
    with Cons.prems(2) x have "backfill_run clock ds b = (b', None)" by (simp add: backfill_run_simps(2))
    moreover from Skip normalize_doc_skip have "src = ''honeytrap''" by blast
    ultimately show ?thesis using Cons.IH [OF map_holds_skip [OF Cons.prems(1), of d]] x by simp
  next
    case (Emit r m)
    from normalize_doc_ok [OF Emit]
    have "m = (if n_ip r \<noteq> ''unknown'' then touch (n_ip r) (ports_before src d (bf_ports b))
               else ports_before src d (bf_ports b))" by blast
    with map_holds_step [OF Cons.prems(1)] have "map_holds m (ds0 @ [(src, d)])" by simp
    with Cons.IH [of "b\<lparr>bf_ports := m, bf_out := bf_out b @ [r], bf_inserted := bf_inserted b + 1\<rparr>" "ds0 @ [(src, d)]"]
      Cons.prems(2) Emit x
    show ?thesis by (simp add: backfill_run_simps(3))
  qed
qed

text \<open>At the end of a backfill that did not raise, \<open>ip_to_ports\<close> holds, for every address,
  exactly the ports of that address in the Cowrie documents (the only ones that record ports),
  each once.\<close>

theorem backfill_ports_exact:
  assumes "backfill_run clock ds backfill_init = (b, None)"
  shows "set (ports_of (bf_ports b) ip) = ports_seen ds ip \<and> distinct (ports_of (bf_ports b) ip)"
  using backfill_run_holds [OF _ assms, of "[]"] map_holds_init by (simp add: backfill_init_def map_holds_def)

definition demo_doc :: log_doc where
  "demo_doc = \<lparr>ldoc_id = 0, ldoc_time = Some 5, ldoc_fields = [(''raw_log'', PStr ''at 8.8.4.4:53'')]\<rparr>"

lemma demo_run:
  "backfill_run (\<lambda>_. 0) [(''cowrie'', demo_doc)] backfill_init =
   (\<lparr>bf_ports = (\<lambda>_. None)(''8.8.4.4'' \<mapsto> [53]),
     bf_out = [\<lparr>n_timestamp = 5, n_source = ''cowrie'', n_ip = ''8.8.4.4'', n_port = PInt 53,
               n_protocol = ''unknown'', n_raw = PStr ''at 8.8.4.4:53'', n_tags = []\<rparr>],
     bf_inserted = 1\<rparr>, None)"
proof -
  have p: "parse_any_ip_port ''at 8.8.4.4:53'' = Inr (''8.8.4.4'', PInt 53)" by code_simp
  have d: "detect_protocol (PStr ''at 8.8.4.4:53'') (PInt 53) = Inr ''unknown''" by code_simp
  have t: "text_tags (lower ''at 8.8.4.4:53'') = []" by code_simp
  have v: "is_valid_ip (PStr ''8.8.4.4'')" by code_simp
  show ?thesis
    by (simp add: demo_doc_def backfill_init_def normalize_doc_def normalize_default_def p d v Let_def stamp_def
          doc_get_default_def finalize_record_def tag_rules_def py_or_def t HONEYPOT_IPS_def
          add_port_def ports_of_def touch_def fun_eq_iff backfill_run.simps)
qed

theorem backfill_ports_exact_witness:
  "\<exists>b. backfill_run (\<lambda>_. 0) [(''cowrie'', demo_doc)] backfill_init = (b, None) \<and>
       set (ports_of (bf_ports b) ''8.8.4.4'') = ports_seen [(''cowrie'', demo_doc)] ''8.8.4.4'' \<and>
       distinct (ports_of (bf_ports b) ''8.8.4.4'')"
  using backfill_ports_exact [OF demo_run, of "''8.8.4.4''"] demo_run by blast

text \<open>C38. A record is tagged \<open>port_scan\<close> exactly when its address is known and more than ten
  different ports of it occur in the Cowrie documents processed so far, its own document included.\<close>

theorem port_scan_tag_iff:
  assumes "backfill_run clock ds backfill_init = (b, None)"
    and "normalize_doc now src d (bf_ports b) = Inr (Some (r, m))"
  shows "''port_scan'' \<in> set (n_tags r) \<longleftrightarrow>
         n_ip r \<noteq> ''unknown'' \<and> 10 < card (ports_seen (ds @ [(src, d)]) (n_ip r))"
proof -
  from backfill_run_holds [OF _ assms(1), of "[]"] map_holds_init
  have "map_holds (bf_ports b) ds" by (simp add: backfill_init_def)
  from map_holds_step [OF this] have "map_holds (ports_before src d (bf_ports b)) (ds @ [(src, d)])" .
  with normalize_doc_ok [OF assms(2)] show ?thesis by (simp add: rec_ok_def map_holdsD)
qed

theorem port_scan_tag_iff_witness:
  "\<exists>b r m. backfill_run (\<lambda>_. 0) [] backfill_init = (b, None) \<and>
     normalize_doc 0 ''cowrie'' demo_doc (bf_ports b) = Inr (Some (r, m)) \<and>
     (''port_scan'' \<in> set (n_tags r) \<longleftrightarrow>
      n_ip r \<noteq> ''unknown'' \<and> 10 < card (ports_seen ([] @ [(''cowrie'', demo_doc)]) (n_ip r)))"
proof -
  have r: "backfill_run (\<lambda>_. 0) [] backfill_init = (backfill_init, None)" by simp
  obtain x m where "normalize_doc 0 ''cowrie'' demo_doc (bf_ports backfill_init) = Inr (Some (x, m))"
    using demo_run by (cases rule: normalize_doc_cases [of 0 "''cowrie''" demo_doc "bf_ports backfill_init"])
      (auto simp: backfill_run.simps backfill_init_def)
  with port_scan_tag_iff [OF r this] r show ?thesis by blast
qed

text \<open>Every record of a run, finished or not.\<close>

lemma backfill_run_out:
  assumes "backfill_run clock ds b = (b', e)"
  shows "\<exists>new. bf_out b' = bf_out b @ new \<and> bf_inserted b' = bf_inserted b + length new \<and>
           (\<forall>r \<in> set new. \<exists>m. rec_ok (n_source r = ''nodepot-lite'') m r)"
  using assms
proof (induction ds arbitrary: b)
  case Nil
  then show ?case by (intro exI [of _ "[]"]) simp
next
  case (Cons x ds)
  obtain src d where x: "x = (src, d)" by (cases x)
  show ?case
  proof (cases rule: normalize_doc_cases [of "clock (ldoc_id d)" src d "bf_ports b"])
    case (Raise e')
    with Cons.prems x show ?thesis by (intro exI [of _ "[]"]) (simp add: backfill_run_simps(1))
  next
    case Skip
    with Cons x show ?thesis by (simp add: backfill_run_simps(2))
  next
    case (Emit r m)
    from normalize_doc_ok [OF Emit] have "\<exists>m. rec_ok (n_source r = ''nodepot-lite'') m r" by blast
    moreover from Cons.prems Emit x
    have "backfill_run clock ds (b\<lparr>bf_ports := m, bf_out := bf_out b @ [r], bf_inserted := bf_inserted b + 1\<rparr>) = (b', e)"
      by (simp add: backfill_run_simps(3))
    from Cons.IH [OF this] obtain new where
      "bf_out b' = bf_out b @ r # new" "bf_inserted b' = bf_inserted b + 1 + length new"
      "\<forall>r \<in> set new. \<exists>m. rec_ok (n_source r = ''nodepot-lite'') m r"
      by auto
    ultimately show ?thesis by (intro exI [of _ "r # new"]) auto
  qed
qed

text \<open>C40. Every record the backfill inserts, even in a run that an exception ends, has the address
  \<open>unknown\<close> or a valid one and a port that is an integer or \<open>unknown\<close>; it carries
  \<open>internal_honeypot\<close> exactly when its address is a honeypot's, which only a Nodepot record can
  have; and the counter is the number of records.\<close>

theorem backfill_records_wf:
  "bf_inserted (fst (backfill clock db)) = length (bf_out (fst (backfill clock db))) \<and>
   list_all (\<lambda>r. (n_ip r = ''unknown'' \<or> is_valid_ip (PStr (n_ip r))) \<and>
                 (n_port r = PStr ''unknown'' \<or> (\<exists>n. n_port r = PInt n)) \<and>
                 (''internal_honeypot'' \<in> set (n_tags r) \<longleftrightarrow> n_ip r \<in> set HONEYPOT_IPS) \<and>
                 (n_ip r \<notin> set HONEYPOT_IPS \<or> n_source r = ''nodepot-lite''))
     (bf_out (fst (backfill clock db)))"
proof -
  obtain b' e where be: "backfill clock db = (b', e)" by (cases "backfill clock db")
  from backfill_run_out [OF be [unfolded backfill_def]] obtain new where
    "bf_out b' = new" "bf_inserted b' = length new"
    "\<forall>r \<in> set new. \<exists>m. rec_ok (n_source r = ''nodepot-lite'') m r"
    by (auto simp: backfill_init_def)
  with be show ?thesis
    by (auto simp: list_all_iff rec_ok_def ip_ok_def port_ok_def own_ip_def)
qed

definition demo_own_db :: "string \<Rightarrow> log_doc list" where
  "demo_own_db c = (if c = ''nodepot_logs''
     then [\<lparr>ldoc_id = 0, ldoc_time = Some 5, ldoc_fields = [(''ip'', PStr ''192.168.186.136'')]\<rparr>] else [])"

theorem backfill_records_wf_witness:
  "map n_source (bf_out (fst (backfill (\<lambda>_. 0) demo_own_db))) = [''nodepot-lite''] \<and>
   bf_inserted (fst (backfill (\<lambda>_. 0) demo_own_db)) = 1 \<and>
   list_all (\<lambda>r. ''internal_honeypot'' \<in> set (n_tags r)) (bf_out (fst (backfill (\<lambda>_. 0) demo_own_db)))"
proof -
  have "map n_source (bf_out (fst (backfill (\<lambda>_. 0) demo_own_db))) = [''nodepot-lite'']" by code_simp
  moreover have "list_all (\<lambda>r. n_ip r \<in> set HONEYPOT_IPS) (bf_out (fst (backfill (\<lambda>_. 0) demo_own_db)))"
    by code_simp
  moreover from calculation(1) have "length (bf_out (fst (backfill (\<lambda>_. 0) demo_own_db))) = 1"
    by (metis length_map length_Cons list.size(3) One_nat_def)
  ultimately show ?thesis
    using backfill_records_wf [of "\<lambda>_. 0" demo_own_db] by (auto simp: list_all_iff)
qed

text \<open>The digit test before \<open>int\<close> is too weak: \<open>str.isdigit\<close> accepts a superscript two, which
  \<open>int\<close> refuses, so one HoneyPy document whose port field holds it ends the whole backfill with
  a ValueError before the document's record is inserted.\<close>

lemma superscript_port_stops_backfill:
  "backfill_run (\<lambda>_. 0)
     [(''honeypy'', \<lparr>ldoc_id = 0, ldoc_time = None,
        ldoc_fields = [(''src_ip'', PStr ''8.8.4.4''), (''src_port'', PStr [CHR 0xB2])]\<rparr>)] backfill_init
   = (backfill_init, Some ValueError)"
proof -
  have "case normalize_honeypy 0 \<lparr>ldoc_id = 0, ldoc_time = None,
        ldoc_fields = [(''src_ip'', PStr ''8.8.4.4''), (''src_port'', PStr [CHR 0xB2])]\<rparr> (\<lambda>_. None) of
          Inl e \<Rightarrow> e = ValueError | Inr _ \<Rightarrow> False"
    by code_simp
  then have "normalize_honeypy 0 \<lparr>ldoc_id = 0, ldoc_time = None,
        ldoc_fields = [(''src_ip'', PStr ''8.8.4.4''), (''src_port'', PStr [CHR 0xB2])]\<rparr> (\<lambda>_. None) = Inl ValueError"
    by (simp split: sum.splits)
  then show ?thesis by (simp add: normalize_doc_def backfill_init_def backfill_run.simps)
qed

end
