(* ===== verification/NormLoop.thy ===== *)
theory NormLoop
  imports PyRegex IpAddr Docs
begin

text \<open>
  \<open>Code/normalizer/normalizer_loop.py\<close>: the polling normalizer. Each cycle asks every collection
  for the documents after the last one seen, in the order of their ids, and inserts a record for
  each that names an address or a port. \<open>last_ids\<close> lives in memory only.
\<close>

section \<open>Constants\<close>

definition loop_HONEYPOT_IPS :: "string list" where
  "loop_HONEYPOT_IPS = [''192.168.186.135'', ''192.168.186.136'', ''192.168.186.137'',
     ''192.168.186.138'', ''192.168.186.139'']"

definition loop_sources :: "(string \<times> string) list" where
  "loop_sources =
     [(''cowrie_logs'', ''cowrie''), (''honeypy_logs'', ''honeypy''),
      (''honeytrap_logs'', ''honeytrap''), (''conpot_logs'', ''conpot''),
      (''nodepot_logs'', ''nodepot-lite'')]"

section \<open>Address and port\<close>

definition loop_is_valid_ip :: "string \<Rightarrow> bool" where
  "loop_is_valid_ip ip_str = ip_address_ok ip_str"

definition l_dec :: rx where "l_dec = RCls is_dec"
definition l_dots :: rx where "l_dots = rplus (RCls (\<lambda>c. is_dec c \<or> c = CHR ''.''))"

definition re_new_connection :: rx where
  "re_new_connection = RSeq (rlit ''New connection: '') (RSeq (RGrp 1 l_dots) (RSeq (rlit '':'')
     (RSeq (RGrp 2 (rplus l_dec)) (RSeq (rlit '' ('') (RSeq (RGrp 3 l_dots) (RSeq (rlit '':'')
     (RSeq (RGrp 4 (rplus l_dec)) (rlit '')''))))))))"

definition re_pair :: rx where
  "re_pair = RSeq (RGrp 1 l_dots) (RSeq (rlit '':'') (RGrp 2 (rplus l_dec)))"

text \<open>\<open>.\<close> matches every character but the newline.\<close>

definition re_bracket :: rx where
  "re_bracket = RSeq (rlit ''['') (RSeq (RStar False (RCls (\<lambda>c. code c \<noteq> 10))) (RSeq (rlit '','')
     (RSeq (rplus l_dec) (RSeq (rlit '','') (RSeq (RGrp 1 l_dots) (rlit '']''))))))"

definition re_loop_port :: rx where
  "re_loop_port = RSeq (rlit ''port '') (RGrp 1 (rplus l_dec))"

definition takes_ip :: "string \<Rightarrow> bool" where
  "takes_ip ip \<longleftrightarrow> ip \<notin> set loop_HONEYPOT_IPS \<and> loop_is_valid_ip ip"

text \<open>The last resort: a bracketed address and a port, each or neither. Here an address of the
  deployment itself is not excluded.\<close>

definition extract_fallback :: "string \<Rightarrow> (string \<times> pyval) result" where
  "extract_fallback log_str =
     (let ip = (case re_search re_bracket log_str of
                  Some g \<Rightarrow> if loop_is_valid_ip (group 1 g) then group 1 g else ''unknown''
                | None \<Rightarrow> ''unknown'') in
      case re_search re_loop_port (lower log_str) of
        Some g \<Rightarrow> bindE (int_of_digits (group 1 g)) (\<lambda>n. Inr (ip, PInt n))
      | None \<Rightarrow> Inr (ip, PStr ''unknown''))"

definition extract_ip_port :: "string \<Rightarrow> (string \<times> pyval) result" where
  "extract_ip_port log_str =
     (let rest = (\<lambda>_::unit. case find (\<lambda>g. takes_ip (group 1 g)) (re_finditer re_pair log_str) of
                    Some g \<Rightarrow> bindE (int_of_digits (group 2 g)) (\<lambda>n. Inr (group 1 g, PInt n))
                  | None \<Rightarrow> extract_fallback log_str)
      in case re_search re_new_connection log_str of
           Some g \<Rightarrow>
             if takes_ip (group 1 g)
             then bindE (int_of_digits (group 2 g)) (\<lambda>n. Inr (group 1 g, PInt n))
             else if takes_ip (group 3 g)
             then bindE (int_of_digits (group 4 g)) (\<lambda>n. Inr (group 3 g, PInt n))
             else rest ()
         | None \<Rightarrow> rest ())"

section \<open>Protocol and tags\<close>

definition loop_detect_protocol :: "string \<Rightarrow> pyval \<Rightarrow> string" where
  "loop_detect_protocol log_str port =
     (let l = lower log_str in
      if contains ''ssh'' l \<or> eq_int port 22 \<or> eq_int port 2222 then ''ssh''
      else if contains ''http'' l \<or> in_ints port [80, 8080, 8808, 9999] then ''http''
      else if contains ''ftp'' l \<or> eq_int port 21 \<or> eq_int port 2244 then ''ftp''
      else if contains ''modbus'' l \<or> in_ints port [502, 5020] then ''modbus''
      else if eq_int port 2223 then ''telnet''
      else ''unknown'')"

type_synonym seen_ports = "string \<Rightarrow> int list option"

definition seen_of :: "seen_ports \<Rightarrow> string \<Rightarrow> int list" where
  "seen_of m ip = (case m ip of Some ps \<Rightarrow> ps | None \<Rightarrow> [])"

definition loop_text_tags :: "string \<Rightarrow> string list" where
  "loop_text_tags l =
     (if contains ''nmap'' l \<or> contains ''masscan'' l then [''nmap''] else []) @
     (if contains ''netcat'' l \<or> contains ''nc'' l then [''netcat''] else []) @
     (if contains ''libssh'' l then [''libssh''] else []) @
     (if contains ''failed login'' l \<or> contains ''authentication failed'' l then [''ssh_brute''] else []) @
     (if contains ''user root'' l \<or> contains ''login attempt'' l then [''login_attempt''] else []) @
     (if contains ''upload'' l \<or> contains ''file saved'' l then [''upload''] else []) @
     (if contains ''sqli'' l \<or> contains ''select'' l \<and> contains ''--'' l then [''sqli''] else []) @
     (if contains ''../'' l \<or> contains ''etc/passwd'' l then [''dir_traversal''] else [])"

text \<open>The tags, and the port map with the entry that reading it creates.\<close>

definition generate_tags :: "string \<Rightarrow> string \<Rightarrow> seen_ports \<Rightarrow> string list \<times> seen_ports" where
  "generate_tags log_str ip m =
     (if ip \<noteq> ''unknown''
      then (loop_text_tags (lower log_str) @ (if 10 < length (seen_of m ip) then [''port_scan''] else []),
            m(ip \<mapsto> seen_of m ip))
      else (loop_text_tags (lower log_str), m))"

section \<open>The polling loop\<close>

record loop_rec =
  l_timestamp :: int
  l_source :: string
  l_ip :: string
  l_port :: pyval
  l_protocol :: string
  l_raw :: string
  l_tags :: "string list"

record loop_state =
  last_ids :: "string \<Rightarrow> nat option"
  loop_ports :: seen_ports
  loop_out :: "loop_rec list"

definition loop_init :: loop_state where
  "loop_init = \<lparr>last_ids = (\<lambda>_. None), loop_ports = (\<lambda>_. None), loop_out = []\<rparr>"

text \<open>The body of the inner loop: one document of a collection.\<close>

definition normalize_log :: "(nat \<Rightarrow> int) \<Rightarrow> string \<Rightarrow> string \<Rightarrow> log_doc \<Rightarrow> loop_state \<Rightarrow> loop_state \<times> py_exn option" where
  "normalize_log clock coll source_tag log s =
     (let s = s\<lparr>last_ids := (last_ids s)(coll \<mapsto> ldoc_id log)\<rparr>;
          raw_log = str_of (doc_get_default log ''raw_log'' (PStr []));
          timestamp = (case ldoc_time log of Some t \<Rightarrow> t | None \<Rightarrow> clock (ldoc_id log))
      in case extract_ip_port raw_log of
           Inl e \<Rightarrow> (s, Some e)
         | Inr (ip, port) \<Rightarrow>
             if ip = ''unknown'' \<and> port = PStr ''unknown'' then (s, None)
             else
               (let protocol = loop_detect_protocol raw_log port;
                    (tags, m) = generate_tags raw_log ip (loop_ports s);
                    m = (case port of
                           PInt p \<Rightarrow> if ip \<noteq> ''unknown'' then m(ip \<mapsto> List.insert p (seen_of m ip)) else m
                         | _ \<Rightarrow> m)
                in (s\<lparr>loop_ports := m,
                      loop_out := loop_out s @ [\<lparr>l_timestamp = timestamp, l_source = source_tag, l_ip = ip,
                         l_port = port, l_protocol = protocol, l_raw = raw_log, l_tags = tags\<rparr>]\<rparr>, None)))"

text \<open>The cursor of \<open>find({"_id": {"$gt": last}}).sort("_id", 1)\<close> is a parameter \<open>find_after\<close>:
  from a last id and a collection it yields documents. A raise ends the loop.\<close>

type_synonym 'c finder = "nat option \<Rightarrow> 'c \<Rightarrow> log_doc list"

fun drain :: "(nat \<Rightarrow> int) \<Rightarrow> string \<Rightarrow> string \<Rightarrow> log_doc list \<Rightarrow> loop_state \<Rightarrow> loop_state \<times> py_exn option" where
  "drain clock coll src [] s = (s, None)"
| "drain clock coll src (d # ds) s =
     (case normalize_log clock coll src d s of
        (s', Some e) \<Rightarrow> (s', Some e)
      | (s', None) \<Rightarrow> drain clock coll src ds s')"

fun poll :: "'c finder \<Rightarrow> (nat \<Rightarrow> int) \<Rightarrow> (string \<Rightarrow> 'c) \<Rightarrow> (string \<times> string) list \<Rightarrow> loop_state \<Rightarrow>
    loop_state \<times> py_exn option" where
  "poll find_after clock db [] s = (s, None)"
| "poll find_after clock db ((coll, src) # cs) s =
     (case drain clock coll src (find_after (last_ids s coll) (db coll)) s of
        (s', Some e) \<Rightarrow> (s', Some e)
      | (s', None) \<Rightarrow> poll find_after clock db cs s')"

text \<open>Successive cycles of the loop, each on the contents the collections have by then.\<close>

fun cycles :: "'c finder \<Rightarrow> (nat \<Rightarrow> int) \<Rightarrow> (string \<Rightarrow> 'c) list \<Rightarrow> loop_state \<Rightarrow> loop_state \<times> py_exn option" where
  "cycles find_after clock [] s = (s, None)"
| "cycles find_after clock (db # dbs) s =
     (case poll find_after clock db loop_sources s of
        (s', Some e) \<Rightarrow> (s', Some e)
      | (s', None) \<Rightarrow> cycles find_after clock dbs s')"

end
