(* ===== verification/NormLoopFacts.thy ===== *)
theory NormLoopFacts
  imports NormLoop
begin

text \<open>
  Facts on the polling normalizer: the database cursor as an interface, the exactly-once
  processing of documents over any schedule of polls, what extraction reports, and how the tags
  relate to those of the backfill.
\<close>

section \<open>The cursor\<close>

text \<open>
  What the loop relies on of \<open>find({"_id": {"$gt": last}}).sort("_id", 1)\<close>: on a collection with
  unique ids, the documents after the given id, in strictly increasing order of their ids.
\<close>

definition grown :: "log_doc set \<Rightarrow> log_doc set \<Rightarrow> bool" where
  "grown A B \<longleftrightarrow> A \<subseteq> B \<and> (\<forall>d \<in> A. \<forall>d' \<in> B - A. ldoc_id d < ldoc_id d')"

definition last_id_of :: "log_doc list \<Rightarrow> nat option" where
  "last_id_of ds = (if ds = [] then None else Some (ldoc_id (last ds)))"

locale id_cursor =
  fixes find_after :: "'c finder"
    and contents :: "'c \<Rightarrow> log_doc set"
    and wf_coll :: "'c \<Rightarrow> bool"
  assumes cursor_sorted: "wf_coll c \<Longrightarrow> sorted_wrt (<) (map ldoc_id (find_after l c))"
    and cursor_set: "wf_coll c \<Longrightarrow>
      set (find_after l c) = {d \<in> contents c. case l of None \<Rightarrow> True | Some n \<Rightarrow> n < ldoc_id d}"
begin

lemma inj_ids:
  assumes "wf_coll c"
  shows "inj_on ldoc_id (contents c)"
proof -
  have s: "sorted_wrt (<) (map ldoc_id (find_after None c))" by (rule cursor_sorted [OF assms])
  have c: "set (find_after None c) = contents c" using cursor_set [OF assms, of None] by simp
  from s have "distinct (map ldoc_id (find_after None c))" by (simp add: strict_sorted_iff)
  with c show ?thesis by (simp add: distinct_map)
qed

lemma cursor_unique:
  assumes "wf_coll c" "sorted_wrt (<) (map ldoc_id ds)" "set ds = contents c"
  shows "ds = find_after None c"
proof (rule map_sorted_distinct_set_unique)
  show "set ds = set (find_after None c)" using assms(3) cursor_set [OF assms(1), of None] by simp
  then show "inj_on ldoc_id (set ds \<union> set (find_after None c))" using inj_ids [OF assms(1)] assms(3) by simp
  show "sorted (map ldoc_id ds)" "distinct (map ldoc_id ds)" using assms(2) by (simp_all add: strict_sorted_iff)
  show "sorted (map ldoc_id (find_after None c))" "distinct (map ldoc_id (find_after None c))"
    using cursor_sorted [OF assms(1), of None] by (simp_all add: strict_sorted_iff)
qed

lemma sorted_last_max:
  "sorted_wrt (<) (map f ds) \<Longrightarrow> d \<in> set ds \<Longrightarrow> f d \<le> (f (last ds) :: nat)"
  by (induction ds rule: rev_induct) (auto simp: sorted_wrt_append less_imp_le)

text \<open>Reading a grown collection from the last id yields exactly the new documents.\<close>

lemma cursor_resume:
  assumes wf: "wf_coll c" "wf_coll c'" and g: "grown (contents c) (contents c')"
  shows "find_after None c' = find_after None c @ find_after (last_id_of (find_after None c)) c'"
proof -
  have set0: "set (find_after None c) = contents c" "set (find_after None c') = contents c'"
    using cursor_set [OF wf(1), of None] cursor_set [OF wf(2), of None] by auto
  have new: "set (find_after (last_id_of (find_after None c)) c') = contents c' - contents c"
  proof (cases "find_after None c" rule: rev_cases)
    case Nil
    then have "contents c = {}" using set0 by simp
    with Nil show ?thesis using cursor_set [OF wf(2), of None] by (simp add: last_id_of_def)
  next
    case (snoc ds d)
    then have h: "last_id_of (find_after None c) = Some (ldoc_id d)" by (simp add: last_id_of_def split: list.splits)
    have "ldoc_id x \<le> ldoc_id d" if "x \<in> contents c" for x
      using sorted_last_max [OF cursor_sorted [OF wf(1), of None]] that set0 snoc by fastforce
    moreover have "d \<in> contents c" using set0 snoc by auto
    ultimately have "{x \<in> contents c'. ldoc_id d < ldoc_id x} = contents c' - contents c"
      using g by (fastforce simp: grown_def)
    then show ?thesis using cursor_set [OF wf(2), of "Some (ldoc_id d)"] h by simp
  qed
  have "sorted_wrt (<) (map ldoc_id (find_after None c @ find_after (last_id_of (find_after None c)) c'))"
    using cursor_sorted [OF wf(1)] cursor_sorted [OF wf(2)] g new set0
    by (auto simp: sorted_wrt_append grown_def)
  moreover have "set (find_after None c @ find_after (last_id_of (find_after None c)) c') = contents c'"
    using g new set0 by (auto simp: grown_def)
  ultimately show ?thesis using cursor_unique [OF wf(2)] by metis
qed

end

section \<open>One document\<close>

text \<open>A record without its tags is a function of its document.\<close>

definition untagged :: "loop_rec \<Rightarrow> loop_rec" where
  "untagged r = r\<lparr>l_tags := []\<rparr>"

definition base_rec :: "(nat \<Rightarrow> int) \<Rightarrow> string \<Rightarrow> log_doc \<Rightarrow> loop_rec option" where
  "base_rec clock src d =
     (let raw = str_of (doc_get_default d ''raw_log'' (PStr [])) in
      case extract_ip_port raw of
        Inl e \<Rightarrow> None
      | Inr (ip, port) \<Rightarrow>
          if ip = ''unknown'' \<and> port = PStr ''unknown'' then None
          else Some \<lparr>l_timestamp = (case ldoc_time d of Some t \<Rightarrow> t | None \<Rightarrow> clock (ldoc_id d)), l_source = src,
                      l_ip = ip, l_port = port, l_protocol = loop_detect_protocol raw port,
                      l_raw = raw, l_tags = []\<rparr>)"

lemma normalize_log_effect:
  assumes "normalize_log clock coll src d s = (s', None)"
  shows "last_ids s' = (last_ids s)(coll \<mapsto> ldoc_id d) \<and>
         (\<exists>new. loop_out s' = loop_out s @ new \<and>
                map untagged new = (case base_rec clock src d of None \<Rightarrow> [] | Some r \<Rightarrow> [r]))"
proof -
  let ?raw = "str_of (doc_get_default d ''raw_log'' (PStr []))"
  from assms obtain ip port where e: "extract_ip_port ?raw = Inr (ip, port)"
    by (auto simp: normalize_log_def Let_def split: sum.splits)
  obtain tags m where t: "generate_tags ?raw ip (loop_ports s) = (tags, m)" by fastforce
  show ?thesis
  proof (cases "ip = ''unknown'' \<and> port = PStr ''unknown''")
    case True
    with assms e show ?thesis by (auto simp: normalize_log_def base_rec_def Let_def)
  next
    case False
    from assms e t False show ?thesis
      by (auto simp: normalize_log_def base_rec_def Let_def untagged_def split: if_splits)
  qed
qed

definition of_source :: "string \<Rightarrow> loop_state \<Rightarrow> loop_rec list" where
  "of_source src s = filter (\<lambda>r. l_source r = src) (map untagged (loop_out s))"

lemma base_rec_source: "base_rec clock src d = Some r \<Longrightarrow> l_source r = src"
  by (auto simp: base_rec_def Let_def split: sum.splits if_splits)

definition base_recs :: "(nat \<Rightarrow> int) \<Rightarrow> string \<Rightarrow> log_doc list \<Rightarrow> loop_rec list" where
  "base_recs clock src ds = List.map_filter (base_rec clock src) ds"

lemma base_recs_append: "base_recs clock src (xs @ ys) = base_recs clock src xs @ base_recs clock src ys"
  by (simp add: base_recs_def map_filter_def)

lemma normalize_log_of_source:
  assumes "normalize_log clock coll src d s = (s', None)"
  shows "of_source src' s' = of_source src' s @ (if src' = src then base_recs clock src [d] else [])"
proof -
  from normalize_log_effect [OF assms] obtain new where
    "loop_out s' = loop_out s @ new" "map untagged new = (case base_rec clock src d of None \<Rightarrow> [] | Some r \<Rightarrow> [r])"
    by blast
  then show ?thesis
    by (auto simp: of_source_def base_recs_def map_filter_def dest: base_rec_source split: option.splits)
qed

lemma drain_effect:
  "drain clock coll src ds s = (s', None) \<Longrightarrow>
   last_ids s' = (if ds = [] then last_ids s else (last_ids s)(coll \<mapsto> ldoc_id (last ds))) \<and>
   of_source src' s' = of_source src' s @ (if src' = src then base_recs clock src ds else [])"
proof (induction ds arbitrary: s)
  case Nil
  then show ?case by (simp add: base_recs_def map_filter_def)
next
  case (Cons d ds)
  obtain s1 e where n: "normalize_log clock coll src d s = (s1, e)" by fastforce
  with Cons.prems have e: "e = None" and dr: "drain clock coll src ds s1 = (s', None)"
    by (auto split: option.splits)
  from Cons.IH [OF dr] normalize_log_effect [OF n [unfolded e]] normalize_log_of_source [OF n [unfolded e]]
    base_recs_append [of clock src "[d]" ds]
  show ?case by auto
qed

section \<open>Polls and cycles\<close>

lemma poll_effect:
  assumes "poll find_after clock db cs s = (s', None)"
    and "distinct (map fst cs)" and "distinct (map snd cs)"
  shows "(\<forall>(coll, src) \<in> set cs. let new = find_after (last_ids s coll) (db coll) in
            last_ids s' coll = (if new = [] then last_ids s coll else Some (ldoc_id (last new))) \<and>
            of_source src s' = of_source src s @ base_recs clock src new) \<and>
         (\<forall>coll. coll \<notin> fst ` set cs \<longrightarrow> last_ids s' coll = last_ids s coll) \<and>
         (\<forall>src. src \<notin> snd ` set cs \<longrightarrow> of_source src s' = of_source src s)"
  using assms
proof (induction cs arbitrary: s)
  case Nil
  then show ?case by simp
next
  case (Cons x cs)
  obtain coll src where x: "x = (coll, src)" by (cases x)
  let ?new = "find_after (last_ids s coll) (db coll)"
  obtain s1 e where dr: "drain clock coll src ?new s = (s1, e)" by fastforce
  with Cons.prems(1) x have e: "e = None" and po: "poll find_after clock db cs s1 = (s', None)"
    by (auto split: option.splits)
  from drain_effect [OF dr [unfolded e]]
  have l1: "last_ids s1 = (if ?new = [] then last_ids s else (last_ids s)(coll \<mapsto> ldoc_id (last ?new)))"
    and o1: "\<And>t. of_source t s1 = of_source t s @ (if t = src then base_recs clock src ?new else [])"
    by blast+
  have ids: "last_ids s1 c = last_ids s c" if "c \<noteq> coll" for c using l1 that by simp
  have IH: "(\<forall>(coll, src) \<in> set cs. let new = find_after (last_ids s1 coll) (db coll) in
            last_ids s' coll = (if new = [] then last_ids s1 coll else Some (ldoc_id (last new))) \<and>
            of_source src s' = of_source src s1 @ base_recs clock src new) \<and>
         (\<forall>coll. coll \<notin> fst ` set cs \<longrightarrow> last_ids s' coll = last_ids s1 coll) \<and>
         (\<forall>src. src \<notin> snd ` set cs \<longrightarrow> of_source src s' = of_source src s1)"
    using Cons.IH [OF po] Cons.prems(2,3) x by simp
  have tail: "let new = find_after (last_ids s c) (db c) in
            last_ids s' c = (if new = [] then last_ids s c else Some (ldoc_id (last new))) \<and>
            of_source t s' = of_source t s @ base_recs clock t new" if "(c, t) \<in> set cs" for c t
  proof -
    from that Cons.prems(2,3) x have "c \<noteq> coll" "t \<noteq> src" by force+
    with IH that ids o1 show ?thesis by (auto simp: Let_def)
  qed
  have head: "last_ids s' coll = last_ids s1 coll" "of_source src s' = of_source src s1"
    using IH Cons.prems(2,3) x by auto
  show ?case using tail head l1 o1 IH ids x by (auto simp: Let_def)
qed

definition read_off :: "(nat \<Rightarrow> int) \<Rightarrow> (string \<Rightarrow> log_doc list) \<Rightarrow> loop_state \<Rightarrow> bool" where
  "read_off clock done s \<longleftrightarrow>
     (\<forall>(coll, src) \<in> set loop_sources. last_ids s coll = last_id_of (done coll) \<and>
        of_source src s = base_recs clock src (done coll))"

lemma poll_read_off:
  assumes "poll find_after clock db loop_sources s = (s', None)" and "read_off clock done s"
  shows "read_off clock (\<lambda>coll. done coll @ find_after (last_id_of (done coll)) (db coll)) s'"
proof -
  have "distinct (map fst loop_sources)" "distinct (map snd loop_sources)"
    by (simp_all add: loop_sources_def)
  from poll_effect [OF assms(1) this] assms(2) show ?thesis
    unfolding read_off_def by (fastforce simp: Let_def base_recs_append last_id_of_def)
qed

lemma cycles_Cons_None:
  "cycles find_after clock (db # dbs) s = (s', None) \<Longrightarrow>
   \<exists>s1. poll find_after clock db loop_sources s = (s1, None) \<and> cycles find_after clock dbs s1 = (s', None)"
  by (auto split: prod.splits option.splits)

context id_cursor
begin

lemma cycles_read_off:
  assumes "cycles find_after clock dbs s = (s', None)"
    and "read_off clock (\<lambda>coll. find_after None (db coll)) s"
    and "\<forall>x \<in> set (db # dbs). \<forall>coll. wf_coll (x coll)"
    and "successively (\<lambda>x y. \<forall>coll. grown (contents (x coll)) (contents (y coll))) (db # dbs)"
  shows "read_off clock (\<lambda>coll. find_after None (last (db # dbs) coll)) s'"
  using assms
proof (induction dbs arbitrary: db s)
  case Nil
  then show ?case by simp
next
  case (Cons y dbs)
  from cycles_Cons_None [OF Cons.prems(1)] obtain s1 where
    po: "poll find_after clock y loop_sources s = (s1, None)" and cy: "cycles find_after clock dbs s1 = (s', None)"
    by blast
  have step: "find_after None (y coll) = find_after None (db coll) @ find_after (last_id_of (find_after None (db coll))) (y coll)"
    for coll using cursor_resume [of "db coll" "y coll"] Cons.prems(3,4) by simp
  from poll_read_off [OF po Cons.prems(2)] step
  have "read_off clock (\<lambda>coll. find_after None (y coll)) s1" by simp
  from Cons.IH [OF cy this] Cons.prems(3,4) show ?case by simp
qed

lemma cycles_exactly_once:
  assumes "cycles find_after clock dbs loop_init = (s, None)" and "dbs \<noteq> []"
    and "\<forall>x \<in> set dbs. \<forall>coll. wf_coll (x coll)"
    and "successively (\<lambda>x y. \<forall>coll. grown (contents (x coll)) (contents (y coll))) dbs"
    and "(coll, src) \<in> set loop_sources"
  shows "of_source src s = base_recs clock src (find_after None (last dbs coll))"
proof -
  obtain y ys where dbs: "dbs = y # ys" using assms(2) by (cases dbs) auto
  from cycles_Cons_None [OF assms(1) [unfolded dbs]] obtain s1 where
    po: "poll find_after clock y loop_sources loop_init = (s1, None)" and cy: "cycles find_after clock ys s1 = (s, None)"
    by blast
  have "read_off clock (\<lambda>_. []) loop_init"
    by (auto simp: read_off_def loop_init_def last_id_of_def of_source_def base_recs_def map_filter_def)
  from poll_read_off [OF po this] have "read_off clock (\<lambda>coll. find_after None (y coll)) s1"
    by (simp add: last_id_of_def)
  from cycles_read_off [OF cy this] assms(3,4,5) dbs show ?thesis by (auto simp: read_off_def)
qed

end

text \<open>A collection as the list of its documents.\<close>

definition list_find_after :: "nat option \<Rightarrow> log_doc list \<Rightarrow> log_doc list" where
  "list_find_after l c =
     filter (\<lambda>d. case l of None \<Rightarrow> True | Some n \<Rightarrow> n < ldoc_id d) (sort_key ldoc_id c)"

definition unique_ids :: "log_doc list \<Rightarrow> bool" where
  "unique_ids c \<longleftrightarrow> distinct (map ldoc_id c)"

interpretation list_cursor: id_cursor list_find_after set unique_ids
proof unfold_locales
  fix c l
  assume "unique_ids c"
  then have "distinct (map ldoc_id (sort_key ldoc_id c))"
    by (simp add: unique_ids_def distinct_map)
  then have "sorted_wrt (<) (map ldoc_id (sort_key ldoc_id c))"
    by (simp add: strict_sorted_iff)
  then show "sorted_wrt (<) (map ldoc_id (list_find_after l c))"
    by (auto simp: list_find_after_def sorted_wrt_map intro: sorted_wrt_filter)
next
  fix c l
  show "set (list_find_after l c) = {d \<in> set c. case l of None \<Rightarrow> True | Some n \<Rightarrow> n < ldoc_id d}"
    by (auto simp: list_find_after_def)
qed

text \<open>C1. Exactly once: for any cursor that behaves as documented and any number of cycles in which no exception
  is raised, when the collections only grow between them and by documents with larger ids than all
  before, the records of a source in the output are, in the order of the ids, one for each document of
  its collection in which an address or a port is found; a document with neither gives no record.\<close>

theorem loop_exactly_once:
  assumes "id_cursor find_after contents wf_coll"
    and "cycles find_after clock dbs loop_init = (s, None)" and "dbs \<noteq> []"
    and "\<forall>x \<in> set dbs. \<forall>coll. wf_coll (x coll)"
    and "successively (\<lambda>x y. \<forall>coll. grown (contents (x coll)) (contents (y coll))) dbs"
    and "(coll, src) \<in> set loop_sources"
  shows "filter (\<lambda>r. l_source r = src) (map untagged (loop_out s)) =
         List.map_filter (base_rec clock src) (find_after None (last dbs coll))"
  using id_cursor.cycles_exactly_once [OF assms] by (simp add: of_source_def base_recs_def)

definition demo_log :: "nat \<Rightarrow> log_doc" where
  "demo_log n = \<lparr>ldoc_id = n, ldoc_time = Some 5, ldoc_fields = [(''raw_log'', PStr ''8.8.4.4:53'')]\<rparr>"

definition demo_dbs :: "(string \<Rightarrow> log_doc list) list" where
  "demo_dbs = [(\<lambda>c. if c = ''cowrie_logs'' then [demo_log 1] else []),
               (\<lambda>c. if c = ''cowrie_logs'' then [demo_log 1, demo_log 2] else [])]"

lemma loop_exactly_once_demo:
  "\<exists>s. cycles list_find_after (\<lambda>_. 0) demo_dbs loop_init = (s, None) \<and> length (loop_out s) = 2"
proof -
  have x: "extract_ip_port ''8.8.4.4:53'' = Inr (''8.8.4.4'', PInt 53)" by code_simp
  obtain s e where c: "cycles list_find_after (\<lambda>_. 0) demo_dbs loop_init = (s, e)" by fastforce
  then have "e = None" "length (loop_out s) = 2"
    by (auto simp: demo_dbs_def loop_sources_def loop_init_def list_find_after_def demo_log_def
          normalize_log_def doc_get_default_def x Let_def split: prod.splits)
  with c show ?thesis by simp
qed

theorem loop_exactly_once_witness:
  "\<exists>s. cycles list_find_after (\<lambda>_. 0) demo_dbs loop_init = (s, None) \<and> length (loop_out s) = 2 \<and>
     filter (\<lambda>r. l_source r = ''cowrie'') (map untagged (loop_out s)) =
     List.map_filter (base_rec (\<lambda>_. 0) ''cowrie'') (list_find_after None (last demo_dbs ''cowrie_logs''))"
proof -
  obtain s where c: "cycles list_find_after (\<lambda>_. 0) demo_dbs loop_init = (s, None)" and n: "length (loop_out s) = 2"
    using loop_exactly_once_demo by blast
  have wf: "\<forall>x \<in> set demo_dbs. \<forall>coll. unique_ids (x coll)"
    by (auto simp: demo_dbs_def unique_ids_def demo_log_def)
  have gr: "successively (\<lambda>x y. \<forall>coll. grown (set (x coll)) (set (y coll))) demo_dbs"
    by (auto simp: demo_dbs_def grown_def demo_log_def)
  from loop_exactly_once [OF list_cursor.id_cursor_axioms c _ wf gr, of "''cowrie_logs''" "''cowrie''"]
  show ?thesis using c n by (auto simp: demo_dbs_def loop_sources_def)
qed

section \<open>Extraction\<close>

lemma loop_grps [simp]: "grps l_dots = []" "grps (rplus l_dec) = []" "grps (rlit w) = []"
  by (simp_all add: l_dots_def l_dec_def rplus_def) (induction w, auto)

definition loop_hit :: "string \<Rightarrow> string \<times> pyval \<Rightarrow> bool" where
  "loop_hit line r \<longleftrightarrow>
     (fst r = ''unknown'' \<or> loop_is_valid_ip (fst r) \<and> contains (fst r) line) \<and>
     (snd r = PStr ''unknown'' \<or> (\<exists>n \<ge> 0. snd r = PInt n))"

definition loop_ok :: "string \<Rightarrow> (string \<times> pyval) result \<Rightarrow> bool" where
  "loop_ok line m \<longleftrightarrow>
     (case m of Inr r \<Rightarrow> loop_hit line r | Inl e \<Rightarrow> e = ValueError \<and> max_str_digits < length line)"

lemma contains_len: "contains a b \<Longrightarrow> length a \<le> length b"
  by (simp add: contains_iff_sublist sublist_length_le)

lemma loop_port_ok:
  assumes "accepts (rplus l_dec) w" and "contains w line'" and "length line' = length line"
    and "loop_is_valid_ip ip \<and> contains ip line \<or> ip = ''unknown''"
  shows "loop_ok line (bindE (int_of_digits w) (\<lambda>n. Inr (ip, PInt n)))"
  using accepts_plus_cls [of is_dec w] assms contains_len [OF assms(2)]
  by (auto simp: int_of_digits_def loop_ok_def loop_hit_def l_dec_def)

lemma extract_fallback_ok: "loop_ok line (extract_fallback line)"
proof -
  let ?ip = "case re_search re_bracket line of
      Some g \<Rightarrow> if loop_is_valid_ip (group 1 g) then group 1 g else ''unknown'' | None \<Rightarrow> ''unknown''"
  have ip: "loop_is_valid_ip ?ip \<and> contains ?ip line \<or> ?ip = ''unknown''"
    using re_search_group [of re_bracket line _ 1] by (auto simp: re_bracket_def split: option.splits)
  show ?thesis
  proof (cases "re_search re_loop_port (lower line)")
    case None
    with ip show ?thesis by (auto simp: extract_fallback_def Let_def loop_ok_def loop_hit_def)
  next
    case (Some g)
    have w: "accepts (rplus l_dec) (group 1 g) \<and> contains (group 1 g) (lower line)"
      using re_search_group [OF Some, of 1] by (auto simp: re_loop_port_def)
    from Some loop_port_ok [OF conjunct1 [OF w] conjunct2 [OF w] _ ip] show ?thesis
      by (simp add: extract_fallback_def Let_def)
  qed
qed

lemma extract_ip_port_ok: "loop_ok line (extract_ip_port line)"
proof -
  have rest: "loop_ok line (case find (\<lambda>g. takes_ip (group 1 g)) (re_finditer re_pair line) of
                    Some g \<Rightarrow> bindE (int_of_digits (group 2 g)) (\<lambda>n. Inr (group 1 g, PInt n))
                  | None \<Rightarrow> extract_fallback line)"
  proof (cases "find (\<lambda>g. takes_ip (group 1 g)) (re_finditer re_pair line)")
    case None
    with extract_fallback_ok show ?thesis by simp
  next
    case (Some g)
    from find_Some_in_set [OF Some] have g: "g \<in> set (re_finditer re_pair line)" "takes_ip (group 1 g)" by auto
    from re_finditer_group [OF g(1), of 1] re_finditer_group [OF g(1), of 2]
    have "contains (group 1 g) line" "accepts (rplus l_dec) (group 2 g)" "contains (group 2 g) line"
      by (auto simp: re_pair_def)
    with loop_port_ok [of "group 2 g" line line "group 1 g"] g(2) Some show ?thesis
      by (simp add: takes_ip_def)
  qed
  show ?thesis
  proof (cases "re_search re_new_connection line")
    case None
    with rest show ?thesis by (simp add: extract_ip_port_def)
  next
    case (Some g)
    from re_search_group [OF Some, of 1] re_search_group [OF Some, of 2]
      re_search_group [OF Some, of 3] re_search_group [OF Some, of 4]
    have g: "contains (group 1 g) line" "accepts (rplus l_dec) (group 2 g)" "contains (group 2 g) line"
      "contains (group 3 g) line" "accepts (rplus l_dec) (group 4 g)" "contains (group 4 g) line"
      by (auto simp: re_new_connection_def)
    with loop_port_ok [of "group 2 g" line line "group 1 g"] loop_port_ok [of "group 4 g" line line "group 3 g"] rest Some
    show ?thesis by (auto simp: extract_ip_port_def Let_def takes_ip_def)
  qed
qed

text \<open>What the polling normalizer extracts is either \<open>unknown\<close> or taken from the line: a valid
  address that occurs in it, and a non-negative port.\<close>

theorem extract_ip_port_sound:
  assumes "extract_ip_port line = Inr (ip, port)"
  shows "(ip = ''unknown'' \<or> loop_is_valid_ip ip \<and> contains ip line) \<and>
         (port = PStr ''unknown'' \<or> (\<exists>n \<ge> 0. port = PInt n))"
  using extract_ip_port_ok [of line] assms by (simp add: loop_ok_def loop_hit_def)

theorem extract_ip_port_sound_witness:
  "extract_ip_port ''x 8.8.4.4:53'' = Inr (''8.8.4.4'', PInt 53) \<and>
   (''8.8.4.4'' = ''unknown'' \<or> loop_is_valid_ip ''8.8.4.4'' \<and> contains ''8.8.4.4'' ''x 8.8.4.4:53'') \<and>
   (PInt 53 = PStr ''unknown'' \<or> (\<exists>n \<ge> 0. PInt 53 = PInt n))"
proof -
  have h: "extract_ip_port ''x 8.8.4.4:53'' = Inr (''8.8.4.4'', PInt 53)" by code_simp
  from h extract_ip_port_sound [OF h] show ?thesis by blast
qed

text \<open>The addresses listed as \<open>Honeypot IPs to ignore\<close> are not ignored in the bracketed form: the
  fallback reports the Cowrie honeypot itself as the attacker.\<close>

lemma bracket_reports_own_honeypot:
  "extract_ip_port ''[HTTP,7,192.168.186.136] port 80'' = Inr (''192.168.186.136'', PInt 80) \<and>
   ''192.168.186.136'' \<in> set loop_HONEYPOT_IPS"
  by code_simp

section \<open>Port scans\<close>

text \<open>The ports of an address in the records emitted so far.\<close>

definition emitted_ports :: "loop_rec list \<Rightarrow> string \<Rightarrow> int set" where
  "emitted_ports rs ip = {p. \<exists>r \<in> set rs. l_ip r = ip \<and> l_port r = PInt p \<and> ip \<noteq> ''unknown''}"

definition loop_ports_inv :: "loop_state \<Rightarrow> bool" where
  "loop_ports_inv s \<longleftrightarrow>
     (\<forall>ip. set (seen_of (loop_ports s) ip) = emitted_ports (loop_out s) ip \<and> distinct (seen_of (loop_ports s) ip))"

definition scan_tags_inv :: "loop_rec list \<Rightarrow> bool" where
  "scan_tags_inv rs \<longleftrightarrow> (\<forall>k < length rs. ''port_scan'' \<in> set (l_tags (rs ! k)) \<longleftrightarrow>
     l_ip (rs ! k) \<noteq> ''unknown'' \<and> 10 < card (emitted_ports (take k rs) (l_ip (rs ! k))))"

lemma seen_of_upd [simp]: "seen_of (m(ip \<mapsto> ps)) x = (if x = ip then ps else seen_of m x)"
  by (simp add: seen_of_def)

lemma no_scan_text [simp]: "''port_scan'' \<notin> set (loop_text_tags l)"
  by (auto simp: loop_text_tags_def)

lemma emitted_ports_snoc:
  "emitted_ports (rs @ [r]) ip =
   emitted_ports rs ip \<union> (case l_port r of PInt p \<Rightarrow> if l_ip r = ip \<and> ip \<noteq> ''unknown'' then {p} else {} | _ \<Rightarrow> {})"
  by (auto simp: emitted_ports_def split: pyval.splits)

lemma scan_tags_snoc:
  assumes "scan_tags_inv rs"
    and "''port_scan'' \<in> set (l_tags r) \<longleftrightarrow> l_ip r \<noteq> ''unknown'' \<and> 10 < card (emitted_ports rs (l_ip r))"
  shows "scan_tags_inv (rs @ [r])"
  using assms by (auto simp: scan_tags_inv_def nth_append less_Suc_eq)

lemma normalize_log_scan:
  assumes "loop_ports_inv s" and "scan_tags_inv (loop_out s)"
  shows "loop_ports_inv (fst (normalize_log clock coll src d s)) \<and>
         scan_tags_inv (loop_out (fst (normalize_log clock coll src d s)))"
proof -
  let ?raw = "str_of (doc_get_default d ''raw_log'' (PStr []))"
  let ?s = "s\<lparr>last_ids := (last_ids s)(coll \<mapsto> ldoc_id d)\<rparr>"
  have s: "loop_ports_inv ?s" using assms(1) by (simp add: loop_ports_inv_def)
  show ?thesis
  proof (cases "extract_ip_port ?raw")
    case (Inl e)
    with s assms(2) show ?thesis by (simp add: normalize_log_def Let_def)
  next
    case (Inr r)
    obtain ip port where r: "r = (ip, port)" by (cases r)
    show ?thesis
    proof (cases "ip = ''unknown'' \<and> port = PStr ''unknown''")
      case True
      with s assms(2) Inr r show ?thesis by (simp add: normalize_log_def Let_def)
    next
      case False
      define tags where "tags = fst (generate_tags ?raw ip (loop_ports s))"
      define rec where "rec = \<lparr>l_timestamp = (case ldoc_time d of Some t \<Rightarrow> t | None \<Rightarrow> clock (ldoc_id d)),
         l_source = src, l_ip = ip, l_port = port, l_protocol = loop_detect_protocol ?raw port,
         l_raw = ?raw, l_tags = tags\<rparr>"
      have out: "loop_out (fst (normalize_log clock coll src d s)) = loop_out s @ [rec]"
        using Inr r False by (auto simp: normalize_log_def Let_def rec_def tags_def split: prod.splits)
      have ports: "set (seen_of (loop_ports (fst (normalize_log clock coll src d s))) x) =
          set (seen_of (loop_ports s) x) \<union>
          (case port of PInt p \<Rightarrow> if ip = x \<and> x \<noteq> ''unknown'' then {p} else {} | _ \<Rightarrow> {})" for x
        using Inr r False
        by (auto simp: normalize_log_def Let_def generate_tags_def split: pyval.splits)
      have dist: "distinct (seen_of (loop_ports (fst (normalize_log clock coll src d s))) x)" for x
        using Inr r False assms(1)
        by (auto simp: normalize_log_def Let_def generate_tags_def loop_ports_inv_def split: pyval.splits)
      have card: "length (seen_of (loop_ports s) ip) = card (emitted_ports (loop_out s) ip)"
        using assms(1) by (metis distinct_card loop_ports_inv_def)
      have "''port_scan'' \<in> set (l_tags rec) \<longleftrightarrow> l_ip rec \<noteq> ''unknown'' \<and> 10 < card (emitted_ports (loop_out s) (l_ip rec))"
        by (auto simp: rec_def tags_def generate_tags_def card)
      with scan_tags_snoc [OF assms(2)] out ports dist assms(1) show ?thesis
        by (auto simp: loop_ports_inv_def emitted_ports_snoc rec_def split: pyval.splits)
    qed
  qed
qed

lemma drain_scan:
  "loop_ports_inv s \<Longrightarrow> scan_tags_inv (loop_out s) \<Longrightarrow> drain clock coll src ds s = (s', e) \<Longrightarrow>
   loop_ports_inv s' \<and> scan_tags_inv (loop_out s')"
proof (induction ds arbitrary: s)
  case (Cons d ds)
  from normalize_log_scan [OF Cons.prems(1,2), of clock coll src d] Cons
  show ?case by (cases "normalize_log clock coll src d s") (auto split: option.splits)
qed simp

lemma poll_scan:
  "loop_ports_inv s \<Longrightarrow> scan_tags_inv (loop_out s) \<Longrightarrow> poll find_after clock db cs s = (s', e) \<Longrightarrow>
   loop_ports_inv s' \<and> scan_tags_inv (loop_out s')"
proof (induction cs arbitrary: s)
  case (Cons x cs)
  obtain coll src where x: "x = (coll, src)" by (cases x)
  obtain s1 e1 where dr: "drain clock coll src (find_after (last_ids s coll) (db coll)) s = (s1, e1)" by fastforce
  from drain_scan [OF Cons.prems(1,2) dr] Cons.IH Cons.prems(3) dr x
  show ?case by (auto split: option.splits)
qed simp

lemma cycles_scan:
  "loop_ports_inv s \<Longrightarrow> scan_tags_inv (loop_out s) \<Longrightarrow> cycles find_after clock dbs s = (s', e) \<Longrightarrow>
   loop_ports_inv s' \<and> scan_tags_inv (loop_out s')"
proof (induction dbs arbitrary: s)
  case (Cons db dbs)
  obtain s1 e1 where p: "poll find_after clock db loop_sources s = (s1, e1)" by fastforce
  from poll_scan [OF Cons.prems(1,2) p] Cons.IH Cons.prems(3) p
  show ?case by (auto split: option.splits)
qed simp

text \<open>In any output of the loop, whatever the cursor does and even when an exception ended it, the
  k-th record is tagged \<open>port_scan\<close> exactly when its address is known and the records before it
  already hold more than ten ports of that address: the record's own port does not count, unlike
  in the backfill.\<close>

theorem loop_port_scan_iff:
  "\<forall>k < length (loop_out (fst (cycles find_after clock dbs loop_init))).
     let rs = loop_out (fst (cycles find_after clock dbs loop_init)); r = rs ! k in
     ''port_scan'' \<in> set (l_tags r) \<longleftrightarrow>
     l_ip r \<noteq> ''unknown'' \<and> 10 < card (emitted_ports (take k rs) (l_ip r))"
proof -
  obtain s e where c: "cycles find_after clock dbs loop_init = (s, e)" by fastforce
  have "loop_ports_inv loop_init" "scan_tags_inv (loop_out loop_init)"
    by (simp_all add: loop_ports_inv_def loop_init_def seen_of_def emitted_ports_def scan_tags_inv_def)
  from cycles_scan [OF this c] c show ?thesis by (simp add: scan_tags_inv_def Let_def)
qed

theorem loop_port_scan_iff_witness:
  "(0::nat) < length (loop_out (fst (cycles list_find_after (\<lambda>_. 0) demo_dbs loop_init))) \<and>
   (let rs = loop_out (fst (cycles list_find_after (\<lambda>_. 0) demo_dbs loop_init)); r = rs ! 0 in
     ''port_scan'' \<in> set (l_tags r) \<longleftrightarrow>
     l_ip r \<noteq> ''unknown'' \<and> 10 < card (emitted_ports (take 0 rs) (l_ip r)))"
proof -
  obtain s where "cycles list_find_after (\<lambda>_. 0) demo_dbs loop_init = (s, None)" "length (loop_out s) = 2"
    using loop_exactly_once_demo by blast
  then have "0 < length (loop_out (fst (cycles list_find_after (\<lambda>_. 0) demo_dbs loop_init)))" by simp
  then show ?thesis using loop_port_scan_iff [of list_find_after "\<lambda>_. 0" demo_dbs] by blast
qed

end
