(* ===== verification/RlEnv.thy ===== *)
theory RlEnv
  imports Complex_Main Docs
begin

text \<open>
  \<open>Code/rl_agent/adapt_trap_env.py\<close>, the Gymnasium environment of the deployed agent, and the
  reward bookkeeping of \<open>Code/rl_agent/train_sb3.py\<close>. A normalized log is a document whose
  fields may be absent. The query \<open>find().sort("timestamp", -1).limit(50)\<close> is a parameter
  \<open>recent\<close> from the collection to the logs it yields. Rewards are sums of halves far below the
  precision of a double, so they are modelled as real numbers.
\<close>

section \<open>Normalized logs\<close>

record nlog =
  nl_time :: "int option"
  nl_source :: "string option"
  nl_ip :: "string option"
  nl_port :: "pyval option"
  nl_protocol :: "string option"
  nl_tags :: "string list option"

definition dflt :: "'a \<Rightarrow> 'a option \<Rightarrow> 'a" where
  "dflt d v = (case v of Some x \<Rightarrow> x | None \<Rightarrow> d)"

definition log_ip :: "nlog \<Rightarrow> string" where "log_ip l = dflt ''unknown'' (nl_ip l)"
definition log_port :: "nlog \<Rightarrow> pyval" where "log_port l = dflt (PStr ''unknown'') (nl_port l)"
definition log_tags :: "nlog \<Rightarrow> string list" where "log_tags l = dflt [] (nl_tags l)"
definition log_protocol :: "nlog \<Rightarrow> string" where "log_protocol l = dflt ''unknown'' (nl_protocol l)"

text \<open>Set elements are compared with Python's equality, under which booleans are integers.\<close>

definition canon :: "pyval \<Rightarrow> pyval" where
  "canon v = (case v of PBool b \<Rightarrow> PInt (if b then 1 else 0) | _ \<Rightarrow> v)"

section \<open>Observation\<close>

record obs_acc =
  oa_ips :: "string set"
  oa_ports :: "pyval set"
  oa_ssh :: nat
  oa_http :: nat
  oa_nmap :: nat

definition obs_step :: "nlog \<Rightarrow> obs_acc \<Rightarrow> obs_acc" where
  "obs_step l a =
     (let tags = log_tags l in
      a\<lparr>oa_ips := insert (log_ip l) (oa_ips a),
        oa_ports := insert (canon (log_port l)) (oa_ports a),
        oa_ssh := (if ''ssh'' \<in> set tags then oa_ssh a + 1 else oa_ssh a),
        oa_http := (if ''http'' \<in> set tags then oa_http a + 1 else oa_http a),
        oa_nmap := (if ''nmap'' \<in> set tags then oa_nmap a + 1 else oa_nmap a)\<rparr>)"

definition get_state :: "nlog list \<Rightarrow> nat list" where
  "get_state recent_logs =
     (let a = fold obs_step recent_logs
                \<lparr>oa_ips = {}, oa_ports = {}, oa_ssh = 0, oa_http = 0, oa_nmap = 0\<rparr>
      in [card (oa_ips a), card (oa_ports a), oa_ssh a, oa_http a, length recent_logs, oa_nmap a])"

section \<open>Reward\<close>

record reward_acc =
  ra_counter :: "(string \<times> nat) list"
  ra_ports :: "pyval set"
  ra_reward :: real
  ra_bonus :: nat

definition attack_tags :: "string list" where
  "attack_tags = [''nmap'', ''ssh_brute'', ''login_attempt'']"

text \<open>\<open>ip_counter\<close> is a dictionary in insertion order.\<close>

fun bump_ip :: "string \<Rightarrow> (string \<times> nat) list \<Rightarrow> (string \<times> nat) list" where
  "bump_ip ip [] = [(ip, 1)]"
| "bump_ip ip ((k, n) # c) = (if k = ip then (k, n + 1) # c else (k, n) # bump_ip ip c)"

definition reward_step :: "nlog \<Rightarrow> reward_acc \<Rightarrow> reward_acc" where
  "reward_step l a =
     (let ip = log_ip l; port = log_port l; tags = log_tags l in
      if ip = ''unknown'' then a
      else a\<lparr>ra_counter := bump_ip ip (ra_counter a),
             ra_reward := (if ip \<in> fst ` set (ra_counter a) then ra_reward a else ra_reward a + 2),
             ra_ports := (if port \<noteq> PStr ''unknown'' then insert (canon port) (ra_ports a) else ra_ports a),
             ra_bonus := (if list_ex (\<lambda>tag. tag \<in> set tags) attack_tags then ra_bonus a + 1 else ra_bonus a)\<rparr>)"

definition calculate_reward :: "nlog list \<Rightarrow> real" where
  "calculate_reward logs =
     (let a = fold reward_step logs \<lparr>ra_counter = [], ra_ports = {}, ra_reward = 0, ra_bonus = 0\<rparr>;
          reward = ra_reward a + 1/2 * real (card (ra_ports a));
          reward = reward + real (ra_bonus a);
          repeated_penalty = length (filter (\<lambda>(_, count). 1 < count) (ra_counter a));
          reward = reward - real repeated_penalty;
          reward = (if length logs < 5 then reward - 1/2 else reward)
      in max reward 0)"

section \<open>Actions and episodes\<close>

record selected =
  sel_plugin :: string
  sel_action :: string

definition plugin_map :: "string list" where
  "plugin_map = [''ssh'', ''ftp'', ''http'', ''telnet'']"

fun decode_from :: "nat \<Rightarrow> int list \<Rightarrow> selected list result" where
  "decode_from i [] = Inr []"
| "decode_from i (x # bits) =
     (if i < length plugin_map
      then bindE (decode_from (i + 1) bits) (\<lambda>rest.
             Inr (\<lparr>sel_plugin = plugin_map ! i,
                   sel_action = (if x = 1 then ''disable_plugin'' else ''enable_plugin'')\<rparr> # rest))
      else Inl IndexError)"

definition decode_action :: "int list \<Rightarrow> selected list result" where
  "decode_action action = decode_from 0 action"

record env =
  max_steps :: nat
  step_count :: nat
  last_action :: "int list option"

definition env_init :: env where
  "env_init = \<lparr>max_steps = 64, step_count = 0, last_action = None\<rparr>"

definition env_reset :: "('c \<Rightarrow> nlog list) \<Rightarrow> 'c \<Rightarrow> env \<Rightarrow> nat list \<times> env" where
  "env_reset recent c e = (get_state (recent c), e\<lparr>step_count := 0, last_action := None\<rparr>)"

record step_result =
  sr_state :: "nat list"
  sr_reward :: real
  sr_terminated :: bool
  sr_truncated :: bool
  sr_selected :: "selected list"

text \<open>The observation and the reward each run the query: the collection may have changed between
  them, so a step takes both snapshots.\<close>

definition env_step :: "('c \<Rightarrow> nlog list) \<Rightarrow> 'c \<Rightarrow> 'c \<Rightarrow> int list \<Rightarrow> env \<Rightarrow> (step_result \<times> env) result" where
  "env_step recent c1 c2 action e =
     (let e = e\<lparr>last_action := Some action\<rparr>;
          state = get_state (recent c1);
          reward = calculate_reward (recent c2);
          e = e\<lparr>step_count := step_count e + 1\<rparr>;
          truncated = (max_steps e \<le> step_count e)
      in bindE (decode_action action) (\<lambda>decoded.
           Inr (\<lparr>sr_state = state, sr_reward = reward, sr_terminated = False,
                 sr_truncated = truncated, sr_selected = decoded\<rparr>, e)))"

section \<open>Reward tracking during training\<close>

text \<open>\<open>RewardLoggerWrapper\<close> of \<open>train_sb3.py\<close>, around any environment whose step yields a reward and
  the two end flags.\<close>

record tracker =
  episode_rewards :: "real list"
  episode_reward :: real

definition tracker_init :: tracker where
  "tracker_init = \<lparr>episode_rewards = [], episode_reward = 0\<rparr>"

definition tracker_reset :: "tracker \<Rightarrow> tracker" where
  "tracker_reset t = t\<lparr>episode_reward := 0\<rparr>"

definition tracker_step :: "real \<Rightarrow> bool \<Rightarrow> bool \<Rightarrow> tracker \<Rightarrow> tracker" where
  "tracker_step reward terminated truncated t =
     (let t = t\<lparr>episode_reward := episode_reward t + reward\<rparr> in
      if terminated \<or> truncated
      then t\<lparr>episode_rewards := episode_rewards t @ [episode_reward t], episode_reward := 0\<rparr>
      else t)"

text \<open>The decisions the training script writes to the action collection when it ends: the last
  completed episode's reward, or zero, picks the vector.\<close>

definition final_vector :: "real \<Rightarrow> int list" where
  "final_vector recent_reward =
     (if 20 < recent_reward then [1, 1, 1, 1] else if 10 < recent_reward then [1, 0, 1, 0] else [0, 0, 0, 0])"

record action_doc =
  ad_selected :: selected
  ad_processed :: bool
  ad_created :: int
  ad_reward :: real

definition final_actions :: "real list \<Rightarrow> int \<Rightarrow> action_doc list" where
  "final_actions reward_array now =
     (let recent_reward = (if reward_array = [] then 0 else last reward_array) in
      map (\<lambda>(i, val). \<lparr>ad_selected = \<lparr>sel_plugin = plugin_map ! i,
                          sel_action = (if val \<noteq> 0 then ''disable_plugin'' else ''enable_plugin'')\<rparr>,
                        ad_processed = False, ad_created = now, ad_reward = recent_reward\<rparr>)
        (enumerate 0 (final_vector recent_reward)))"

end
