(* ===== verification/RlEnvFacts.thy ===== *)
theory RlEnvFacts
  imports RlEnv
begin

text \<open>
  The reward loop computes a closed formula over the logs, the observation stays in the declared
  box, an action of four bits decodes to one command per plugin, episodes end at the step limit,
  and the training wrapper accounts for every reward.
\<close>

section \<open>Observation\<close>

lemma obs_fold:
  "oa_ips (fold obs_step ls a) = oa_ips a \<union> log_ip ` set ls"
  "oa_ports (fold obs_step ls a) = oa_ports a \<union> (canon \<circ> log_port) ` set ls"
  "oa_ssh (fold obs_step ls a) = oa_ssh a + length (filter (\<lambda>l. ''ssh'' \<in> set (log_tags l)) ls)"
  "oa_http (fold obs_step ls a) = oa_http a + length (filter (\<lambda>l. ''http'' \<in> set (log_tags l)) ls)"
  "oa_nmap (fold obs_step ls a) = oa_nmap a + length (filter (\<lambda>l. ''nmap'' \<in> set (log_tags l)) ls)"
  by (induction ls arbitrary: a) (auto simp: obs_step_def Let_def)

lemma get_state_eq:
  "get_state ls =
     [card (log_ip ` set ls), card ((canon \<circ> log_port) ` set ls),
      length (filter (\<lambda>l. ''ssh'' \<in> set (log_tags l)) ls), length (filter (\<lambda>l. ''http'' \<in> set (log_tags l)) ls),
      length ls, length (filter (\<lambda>l. ''nmap'' \<in> set (log_tags l)) ls)]"
  by (simp add: get_state_def Let_def obs_fold)

lemma card_image_set_le: "card (f ` set xs) \<le> length xs"
  by (metis List.finite_set card_image_le card_length le_trans)

text \<open>The query of at most 50 logs, as an interface.\<close>

locale recent_query =
  fixes recent :: "'c \<Rightarrow> nlog list" and logs_of :: "'c \<Rightarrow> nlog list"
  assumes recent_sub: "set (recent c) \<subseteq> set (logs_of c)"
    and recent_len: "length (recent c) = min 50 (length (logs_of c))"
begin

lemma recent_le: "length (recent c) \<le> 50"
  by (simp add: recent_len)

lemma obs_bounds: "\<forall>x \<in> set (get_state (recent c)). x \<le> 50"
  using recent_le [of c] card_image_set_le [of log_ip "recent c"] card_image_set_le [of "canon \<circ> log_port" "recent c"]
    order_trans [OF length_filter_le recent_le [of c]]
  by (auto simp: get_state_eq)

end

text \<open>A collection as a list, newest first by timestamp; documents without one come last.\<close>

definition list_recent :: "nlog list \<Rightarrow> nlog list" where
  "list_recent c = take 50
     (sort_key (\<lambda>l. - dflt 0 (nl_time l)) (filter (\<lambda>l. nl_time l \<noteq> None) c) @
      filter (\<lambda>l. nl_time l = None) c)"

interpretation list_recent: recent_query list_recent "\<lambda>c. c"
proof unfold_locales
  fix c :: "nlog list"
  show "set (list_recent c) \<subseteq> set c"
    using set_take_subset by (fastforce simp: list_recent_def dest: in_set_takeD)
  show "length (list_recent c) = min 50 (length c)"
    using sum_length_filter_compl [of "\<lambda>l. nl_time l \<noteq> None" c] by (simp add: list_recent_def)
qed

text \<open>Whatever the log collection holds, if the query yields at most 50 logs as it is asked to,
  every component of an observation lies in the declared box, and indeed never exceeds 50.\<close>

lemma observation_in_box:
  assumes "recent_query recent logs_of"
  shows "length (get_state (recent c)) = 6 \<and> list_all (\<lambda>x. x \<le> 50) (get_state (recent c))"
  using recent_query.obs_bounds [OF assms, of c] by (simp add: list_all_iff get_state_eq)

definition demo_logs :: "nlog list" where
  "demo_logs =
     [\<lparr>nl_time = Some 1, nl_source = Some ''cowrie'', nl_ip = Some ''8.8.4.4'', nl_port = Some (PInt 22),
       nl_protocol = Some ''ssh'', nl_tags = Some [''nmap'']\<rparr>]"

theorem observation_in_box_witness:
  "length (get_state (list_recent demo_logs)) = 6 \<and> list_all (\<lambda>x. x \<le> 50) (get_state (list_recent demo_logs))"
  by (rule observation_in_box [OF list_recent.recent_query_axioms])

section \<open>Reward\<close>

text \<open>The logs that count, and how often each address occurs among them.\<close>

definition known :: "nlog list \<Rightarrow> nlog list" where
  "known ls = filter (\<lambda>l. log_ip l \<noteq> ''unknown'') ls"

definition ip_count :: "nlog list \<Rightarrow> string \<Rightarrow> nat" where
  "ip_count ls ip = length (filter (\<lambda>l. log_ip l = ip) (known ls))"

definition known_ports :: "nlog list \<Rightarrow> pyval set" where
  "known_ports ls = (canon \<circ> log_port) ` {l \<in> set (known ls). log_port l \<noteq> PStr ''unknown''}"

definition attack_logs :: "nlog list \<Rightarrow> nlog list" where
  "attack_logs ls = filter (\<lambda>l. list_ex (\<lambda>tag. tag \<in> set (log_tags l)) attack_tags) (known ls)"

text \<open>The reward as a formula: two per distinct known address, a half per distinct known port, one per
  log with an attack tag, less one per address seen more than once, less a half when there are
  fewer than five logs, never below zero.\<close>

definition reward_spec :: "nlog list \<Rightarrow> real" where
  "reward_spec ls =
     max 0 (2 * real (card (log_ip ` set (known ls))) + 1/2 * real (card (known_ports ls)) +
            real (length (attack_logs ls)) -
            real (card {ip \<in> log_ip ` set (known ls). 1 < ip_count ls ip}) -
            (if length ls < 5 then 1/2 else 0))"

lemma keys_bump: "fst ` set (bump_ip ip c) = insert ip (fst ` set c)"
  by (induction c) force+

lemma distinct_bump: "distinct (map fst c) \<Longrightarrow> distinct (map fst (bump_ip ip c))"
  by (induction c) (auto simp: keys_bump image_image)

lemma map_of_bump:
  "map_of (bump_ip ip c) x = (if x = ip then Some (case map_of c ip of Some n \<Rightarrow> n + 1 | None \<Rightarrow> 1) else map_of c x)"
  by (induction c) (auto split: option.splits)

definition counter_ok :: "nlog list \<Rightarrow> reward_acc \<Rightarrow> bool" where
  "counter_ok ls a \<longleftrightarrow>
     distinct (map fst (ra_counter a)) \<and>
     (\<forall>ip. map_of (ra_counter a) ip = (if ip_count ls ip = 0 then None else Some (ip_count ls ip))) \<and>
     ra_ports a = known_ports ls \<and> ra_reward a = 2 * real (card (log_ip ` set (known ls))) \<and>
     ra_bonus a = length (attack_logs ls)"

lemma ip_count_pos: "0 < ip_count ls ip \<longleftrightarrow> ip \<in> log_ip ` set (known ls)"
  by (auto simp: ip_count_def filter_empty_conv)

lemma known_snoc: "known (ls @ [l]) = known ls @ (if log_ip l \<noteq> ''unknown'' then [l] else [])"
  by (simp add: known_def)

lemma keys_counter: "counter_ok ls a \<Longrightarrow> fst ` set (ra_counter a) = log_ip ` set (known ls)"
proof -
  assume ok: "counter_ok ls a"
  have "ip \<in> fst ` set (ra_counter a) \<longleftrightarrow> ip \<in> log_ip ` set (known ls)" for ip
  proof -
    have "ip \<in> fst ` set (ra_counter a) \<longleftrightarrow> map_of (ra_counter a) ip \<noteq> None"
      by (simp add: map_of_eq_None_iff)
    also have "\<dots> \<longleftrightarrow> 0 < ip_count ls ip" using ok by (simp add: counter_ok_def)
    finally show ?thesis by (simp add: ip_count_pos)
  qed
  then show ?thesis by blast
qed

lemma counter_ok_step:
  assumes "counter_ok ls a"
  shows "counter_ok (ls @ [l]) (reward_step l a)"
proof (cases "log_ip l = ''unknown''")
  case True
  then have "known (ls @ [l]) = known ls" by (simp add: known_snoc)
  with True assms show ?thesis
    by (simp add: counter_ok_def reward_step_def ip_count_def known_ports_def attack_logs_def)
next
  case False
  let ?ip = "log_ip l"
  from False have k: "known (ls @ [l]) = known ls @ [l]" by (simp add: known_snoc)
  then have count: "ip_count (ls @ [l]) x = ip_count ls x + (if x = ?ip then 1 else 0)" for x
    by (simp add: ip_count_def)
  have ports: "known_ports (ls @ [l]) =
      (if log_port l \<noteq> PStr ''unknown'' then insert (canon (log_port l)) (known_ports ls) else known_ports ls)"
    by (auto simp: known_ports_def k)
  have reward: "2 * real (card (log_ip ` set (known (ls @ [l])))) =
      (if ?ip \<in> log_ip ` set (known ls) then 0 else 2) + 2 * real (card (log_ip ` set (known ls)))"
    by (simp add: k insert_absorb)
  have bonus: "length (attack_logs (ls @ [l])) = length (attack_logs ls) +
      (if list_ex (\<lambda>tag. tag \<in> set (log_tags l)) attack_tags then 1 else 0)"
    by (simp add: attack_logs_def k)
  from assms False keys_counter [OF assms] show ?thesis
    by (auto simp: counter_ok_def reward_step_def Let_def map_of_bump count ports reward bonus distinct_bump)
qed

lemma counter_ok_fold: "counter_ok ls0 a \<Longrightarrow> counter_ok (ls0 @ ls) (fold reward_step ls a)"
proof (induction ls arbitrary: ls0 a)
  case (Cons l ls)
  from Cons.IH [OF counter_ok_step [OF Cons.prems, of l]] show ?case by simp
qed simp

lemma repeated_eq:
  assumes "counter_ok ls a"
  shows "length (filter (\<lambda>(_, count). 1 < count) (ra_counter a)) = card {ip \<in> log_ip ` set (known ls). 1 < ip_count ls ip}"
proof -
  have d: "distinct (map fst (ra_counter a))" using assms by (simp add: counter_ok_def)
  have mo: "map_of (ra_counter a) ip = (if ip_count ls ip = 0 then None else Some (ip_count ls ip))" for ip
    using assms by (simp add: counter_ok_def)
  have mem: "(ip, n) \<in> set (ra_counter a) \<longleftrightarrow> n = ip_count ls ip \<and> 0 < n" for ip n
    unfolding map_of_eq_Some_iff [OF d, symmetric] mo by auto
  have "fst ` set (filter (\<lambda>(_, count). 1 < count) (ra_counter a)) = {ip. 1 < ip_count ls ip}"
    by (auto simp: mem image_iff)
  moreover have "{ip. 1 < ip_count ls ip} = {ip \<in> log_ip ` set (known ls). 1 < ip_count ls ip}"
    using ip_count_pos [of ls] by force
  ultimately have "fst ` set (filter (\<lambda>(_, count). 1 < count) (ra_counter a)) =
      {ip \<in> log_ip ` set (known ls). 1 < ip_count ls ip}" by simp
  then have "card (set (map fst (filter (\<lambda>(_, count). 1 < count) (ra_counter a)))) =
      card {ip \<in> log_ip ` set (known ls). 1 < ip_count ls ip}" by simp
  moreover have "distinct (map fst (filter (\<lambda>(_, count). 1 < count) (ra_counter a)))"
    by (rule distinct_map_filter [OF d])
  ultimately show ?thesis by (simp only: distinct_card length_map)
qed

text \<open>C39. The reward loop of the environment computes exactly the formula.\<close>

theorem calculate_reward_eq_spec: "calculate_reward logs = reward_spec logs"
proof -
  let ?a = "fold reward_step logs \<lparr>ra_counter = [], ra_ports = {}, ra_reward = 0, ra_bonus = 0\<rparr>"
  have "counter_ok [] \<lparr>ra_counter = [], ra_ports = {}, ra_reward = 0, ra_bonus = 0\<rparr>"
    by (simp add: counter_ok_def ip_count_def known_def known_ports_def attack_logs_def)
  from counter_ok_fold [OF this, of logs] have ok: "counter_ok logs ?a" by simp
  from ok repeated_eq [OF ok] show ?thesis
    by (simp add: calculate_reward_def reward_spec_def Let_def counter_ok_def max.commute)
qed

lemma card_known_le: "card (log_ip ` set (known ls)) \<le> length ls"
proof -
  have "card (log_ip ` set (known ls)) \<le> length (known ls)" by (rule card_image_set_le)
  also have "\<dots> \<le> length ls" by (simp add: known_def)
  finally show ?thesis .
qed

lemma card_ports_le: "card (known_ports ls) \<le> length ls"
proof -
  have "card (known_ports ls) \<le> card {l \<in> set (known ls). log_port l \<noteq> PStr ''unknown''}"
    by (simp add: known_ports_def card_image_le)
  also have "\<dots> \<le> card (set ls)" by (rule card_mono) (auto simp: known_def)
  also have "\<dots> \<le> length ls" by (rule card_length)
  finally show ?thesis .
qed

text \<open>A reward is never negative and never exceeds three and a half per log queried, so a step earns at
  most 175.\<close>

theorem reward_bounds: "0 \<le> calculate_reward logs \<and> calculate_reward logs \<le> 7/2 * real (length logs)"
proof -
  have "length (attack_logs logs) \<le> length logs"
    unfolding attack_logs_def known_def by (meson le_trans length_filter_le)
  then have "real (length (attack_logs logs)) \<le> real (length logs)"
    "real (card (log_ip ` set (known logs))) \<le> real (length logs)" "real (card (known_ports logs)) \<le> real (length logs)"
    using card_known_le [of logs] card_ports_le [of logs] by linarith+
  then show ?thesis
    unfolding calculate_reward_eq_spec reward_spec_def by (auto simp: max_def)
qed

section \<open>Actions and episodes\<close>

lemma decode_from_eq:
  "i + length bits \<le> length plugin_map \<Longrightarrow>
   decode_from i bits = Inr (map (\<lambda>(k, x). \<lparr>sel_plugin = plugin_map ! k,
     sel_action = (if x = 1 then ''disable_plugin'' else ''enable_plugin'')\<rparr>) (enumerate i bits))"
  by (induction bits arbitrary: i) auto

lemma decode_from_long: "i \<le> length plugin_map \<Longrightarrow> length plugin_map < i + length bits \<Longrightarrow> decode_from i bits = Inl IndexError"
  by (induction bits arbitrary: i) (auto simp: not_less)

text \<open>A step of the environment raises exactly on an action of more than four bits; otherwise it returns
  one command per bit, for ssh, ftp, http and telnet in this order, never terminates the episode, and
  truncates it exactly when the step counter reaches the limit.\<close>

theorem env_step_total:
  "env_step recent c1 c2 action e =
     (if length action \<le> 4
      then Inr (\<lparr>sr_state = get_state (recent c1), sr_reward = reward_spec (recent c2), sr_terminated = False,
                  sr_truncated = (max_steps e \<le> step_count e + 1),
                  sr_selected = map (\<lambda>(k, x). \<lparr>sel_plugin = [''ssh'', ''ftp'', ''http'', ''telnet''] ! k,
                     sel_action = (if x = 1 then ''disable_plugin'' else ''enable_plugin'')\<rparr>) (enumerate 0 action)\<rparr>,
                e\<lparr>last_action := Some action, step_count := step_count e + 1\<rparr>)
      else Inl IndexError)"
proof (cases "length action \<le> 4")
  case True
  then show ?thesis
    by (simp add: env_step_def decode_action_def decode_from_eq plugin_map_def calculate_reward_eq_spec Let_def)
next
  case False
  then show ?thesis
    using decode_from_long [of 0 action] by (simp add: env_step_def decode_action_def plugin_map_def Let_def)
qed

section \<open>The tracker\<close>

datatype tick = TReset | TStep real bool bool

fun tracker_run :: "tick list \<Rightarrow> tracker \<Rightarrow> tracker" where
  "tracker_run [] t = t"
| "tracker_run (TReset # ts) t = tracker_run ts (tracker_reset t)"
| "tracker_run (TStep r tm tr # ts) t = tracker_run ts (tracker_step r tm tr t)"

fun tick_reward :: "tick \<Rightarrow> real" where
  "tick_reward TReset = 0"
| "tick_reward (TStep r _ _) = r"

fun only_after_end :: "bool \<Rightarrow> tick list \<Rightarrow> bool" where
  "only_after_end fresh [] = True"
| "only_after_end fresh (TReset # ts) = (fresh \<and> only_after_end True ts)"
| "only_after_end fresh (TStep r tm tr # ts) = only_after_end (tm \<or> tr) ts"

lemma tracker_run_sum:
  "only_after_end fresh ts \<Longrightarrow> (fresh \<Longrightarrow> episode_reward t = 0) \<Longrightarrow>
   sum_list (episode_rewards (tracker_run ts t)) + episode_reward (tracker_run ts t) =
   sum_list (episode_rewards t) + episode_reward t + sum_list (map tick_reward ts)"
proof (induction fresh ts arbitrary: t rule: only_after_end.induct)
  case (2 fresh ts)
  then show ?case by (simp add: tracker_reset_def)
next
  case (3 fresh r tm tr ts)
  from "3.prems"(1) have "only_after_end (tm \<or> tr) ts" by simp
  from "3.IH" [OF this, of "tracker_step r tm tr t"] show ?case
    by (auto simp: tracker_step_def Let_def split: if_splits)
qed simp

text \<open>The training wrapper loses no reward: as long as the environment is reset only at the start or after
  an episode ended, the recorded episode rewards and the running one add up to all rewards earned.\<close>

theorem tracker_accounts:
  assumes "only_after_end True ts"
  shows "sum_list (episode_rewards (tracker_run ts tracker_init)) + episode_reward (tracker_run ts tracker_init) =
         sum_list (map tick_reward ts)"
  using tracker_run_sum [OF assms, of tracker_init] by (simp add: tracker_init_def)

theorem tracker_accounts_witness:
  "only_after_end True [TReset, TStep 2 False False, TStep 3 False True, TReset, TStep 4 False False] \<and>
   sum_list (episode_rewards (tracker_run [TReset, TStep 2 False False, TStep 3 False True, TReset, TStep 4 False False] tracker_init)) +
   episode_reward (tracker_run [TReset, TStep 2 False False, TStep 3 False True, TReset, TStep 4 False False] tracker_init) = 9"
  using tracker_accounts [of "[TReset, TStep 2 False False, TStep 3 False True, TReset, TStep 4 False False]"] by simp

end
