(* ===== verification/Predictor.thy ===== *)
theory Predictor
  imports RlEnv Prelude
begin

text \<open>
  \<open>Code/rl_agent/predictor_loop.py\<close>: the deployed agent. Every round it looks for attacker
  activity in the logs since the previous round, asks the trained model for an action and records
  an action document for each plugin whose desired state differs from the one kept in
  \<open>plugin_states\<close>. The trained model is a parameter \<open>predict\<close>, the collections are parameters
  through the queries the loop makes: \<open>since_logs\<close> (logs of a time or later), \<open>recent\<close> (the
  environment's last 50), \<open>find_status\<close> (\<open>find_one({"plugin": p})["status"]\<close>) and \<open>upsert\<close>
  (\<open>update_one(..., upsert=True)\<close>). The inserted action documents are a list, in order.
\<close>

section \<open>Constants\<close>

definition DEMO_MODE :: bool where "DEMO_MODE = True"

definition LOOKBACK_SECONDS :: int where
  "LOOKBACK_SECONDS = (if DEMO_MODE then 10 else 30)"

definition TRIGGER_TAGS :: "string list" where
  "TRIGGER_TAGS = [''brute_force'', ''nmap'', ''upload'', ''rce'', ''sqli'', ''dir_traversal'', ''netcat'',
     ''login_attempt'']"

section \<open>Attacker activity\<close>

definition service_protocols :: "string list" where
  "service_protocols = [''ftp'', ''http'', ''ssh'', ''telnet'']"

fun demo_scan :: "nat \<Rightarrow> nlog list \<Rightarrow> bool \<times> nat" where
  "demo_scan n [] = (False, n)"
| "demo_scan n (l # logs) =
     (let tags = log_tags l; ip = log_ip l; protocol = log_protocol l in
      if tags \<noteq> [] \<or> (protocol \<in> set service_protocols \<and> ip \<noteq> ''unknown'') then (True, n)
      else demo_scan n logs)"

fun strict_count :: "nat \<Rightarrow> nlog list \<Rightarrow> nat" where
  "strict_count trigger_count [] = trigger_count"
| "strict_count trigger_count (l # logs) =
     (let tags = log_tags l; ip = log_ip l; protocol = log_protocol l in
      if list_ex (\<lambda>t. t \<in> set TRIGGER_TAGS) tags then strict_count (trigger_count + 1) logs
      else if protocol \<in> set service_protocols \<and> ip \<noteq> ''unknown'' \<and> \<not> prefix ''192.168.186.'' ip
      then strict_count (trigger_count + 1) logs
      else strict_count trigger_count logs)"

definition check_for_attacker_activity :: "bool \<Rightarrow> nlog list \<Rightarrow> bool \<times> nat" where
  "check_for_attacker_activity demo recent_logs =
     (if demo then demo_scan (length recent_logs) recent_logs
      else (0 < strict_count 0 recent_logs, length recent_logs))"

section \<open>Plugin states\<close>

definition get_current_plugin_state :: "('c \<Rightarrow> string \<Rightarrow> string option) \<Rightarrow> 'c \<Rightarrow> string \<Rightarrow> string" where
  "get_current_plugin_state find_status c plugin =
     (case find_status c plugin of Some status \<Rightarrow> status | None \<Rightarrow> ''enabled'')"

definition state_after :: "string \<Rightarrow> string" where
  "state_after action = (if action = ''enable_plugin'' then ''enabled'' else ''disabled'')"

type_synonym 'c upserter = "string \<Rightarrow> string \<Rightarrow> int \<Rightarrow> 'c \<Rightarrow> 'c"

definition update_plugin_state :: "'c upserter \<Rightarrow> int \<Rightarrow> string \<Rightarrow> string \<Rightarrow> 'c \<Rightarrow> 'c" where
  "update_plugin_state upsert t plugin action c = upsert plugin (state_after action) t c"

section \<open>The loop\<close>

record 'c predictor =
  pr_states :: 'c
  pr_actions :: "action_doc list"
  pr_last_check :: int
  pr_env :: env

text \<open>The inner loop over the selected actions; \<open>clk\<close> is the time of each state update.\<close>

fun apply_selected ::
  "('c \<Rightarrow> string \<Rightarrow> string option) \<Rightarrow> 'c upserter \<Rightarrow> (string \<Rightarrow> int) \<Rightarrow> int \<Rightarrow> real \<Rightarrow> selected list \<Rightarrow>
   'c \<times> action_doc list \<Rightarrow> 'c \<times> action_doc list" where
  "apply_selected find_status upsert clk now reward_value [] s = s"
| "apply_selected find_status upsert clk now reward_value (sa # sas) (c, acts) =
     (let plugin = sel_plugin sa; action_type = sel_action sa;
          current_state = get_current_plugin_state find_status c plugin;
          desired_state = (if action_type = ''enable_plugin'' then ''enabled'' else ''disabled'') in
      if current_state \<noteq> desired_state
      then apply_selected find_status upsert clk now reward_value sas
             (update_plugin_state upsert (clk plugin) plugin action_type c,
              acts @ [\<lparr>ad_selected = sa, ad_processed = False, ad_created = now, ad_reward = reward_value\<rparr>])
      else apply_selected find_status upsert clk now reward_value sas (c, acts))"

text \<open>What a round finds outside: its time, the log collection at each of its queries, and the times
  of its state updates.\<close>

record 'l round_in =
  ri_now :: int
  ri_check :: 'l
  ri_reset :: 'l
  ri_obs :: 'l
  ri_reward :: 'l
  ri_clk :: "string \<Rightarrow> int"

definition predictor_round ::
  "('c \<Rightarrow> string \<Rightarrow> string option) \<Rightarrow> 'c upserter \<Rightarrow> (int \<Rightarrow> 'l \<Rightarrow> nlog list) \<Rightarrow> ('l \<Rightarrow> nlog list) \<Rightarrow>
   (bool \<Rightarrow> nat list \<Rightarrow> int list) \<Rightarrow> 'l round_in \<Rightarrow> 'c predictor \<Rightarrow> 'c predictor result" where
  "predictor_round find_status upsert since_logs recent predict w p =
     (let now = ri_now w;
          (should_predict, _) = check_for_attacker_activity DEMO_MODE (since_logs (pr_last_check p) (ri_check w)) in
      if \<not> should_predict then Inr (p\<lparr>pr_last_check := now\<rparr>)
      else
        (let (obs, e) = env_reset recent (ri_reset w) (pr_env p);
             action = predict DEMO_MODE obs in
         bindE (env_step recent (ri_obs w) (ri_reward w) action e) (\<lambda>(r, e').
         let (c, acts) = apply_selected find_status upsert (ri_clk w) now (sr_reward r) (sr_selected r)
                           (pr_states p, pr_actions p)
         in Inr (p\<lparr>pr_states := c, pr_actions := acts, pr_last_check := now, pr_env := e'\<rparr>))))"

fun predictor_run ::
  "('c \<Rightarrow> string \<Rightarrow> string option) \<Rightarrow> 'c upserter \<Rightarrow> (int \<Rightarrow> 'l \<Rightarrow> nlog list) \<Rightarrow> ('l \<Rightarrow> nlog list) \<Rightarrow>
   (bool \<Rightarrow> nat list \<Rightarrow> int list) \<Rightarrow> 'l round_in list \<Rightarrow> 'c predictor \<Rightarrow> 'c predictor result" where
  "predictor_run find_status upsert since_logs recent predict [] p = Inr p"
| "predictor_run find_status upsert since_logs recent predict (w # ws) p =
     bindE (predictor_round find_status upsert since_logs recent predict w p)
       (predictor_run find_status upsert since_logs recent predict ws)"

definition predictor_init :: "'c \<Rightarrow> int \<Rightarrow> 'c predictor" where
  "predictor_init c start =
     \<lparr>pr_states = c, pr_actions = [], pr_last_check = start - LOOKBACK_SECONDS, pr_env = env_init\<rparr>"

end
