(* ===== verification/PredictorFacts.thy ===== *)
theory PredictorFacts
  imports Predictor RlEnvFacts
begin

text \<open>
  The agent's loop. What it relies on in the database is stated by two locales: reading a plugin's
  status after an upsert (\<open>plugin_store\<close>) and the query for the logs since a time
  (\<open>since_query\<close>); both are interpreted on collections as lists. Shown are what one round does,
  an invariant that ties the plugin states to the recorded actions over any number of rounds, and
  which logs wake the agent.
\<close>

section \<open>The collections\<close>

locale plugin_store =
  fixes find_status :: "'c \<Rightarrow> string \<Rightarrow> string option"
    and upsert :: "'c upserter"
  assumes find_upsert: "find_status (upsert p st t c) q = (if q = p then Some st else find_status c q)"

locale since_query =
  fixes since_logs :: "int \<Rightarrow> 'l \<Rightarrow> nlog list"
    and logs_of :: "'l \<Rightarrow> nlog list"
  assumes since_set: "set (since_logs t c) = {l \<in> set (logs_of c). \<exists>s. nl_time l = Some s \<and> t \<le> s}"

record status_doc =
  sd_plugin :: string
  sd_status :: string
  sd_updated :: int

definition list_find_status :: "status_doc list \<Rightarrow> string \<Rightarrow> string option" where
  "list_find_status c p = map_option sd_status (find (\<lambda>d. sd_plugin d = p) c)"

definition list_upsert :: "status_doc list upserter" where
  "list_upsert p st t c =
     (if \<exists>d \<in> set c. sd_plugin d = p
      then update_first (\<lambda>d. sd_plugin d = p) (\<lambda>d. d\<lparr>sd_status := st, sd_updated := t\<rparr>) c
      else c @ [\<lparr>sd_plugin = p, sd_status = st, sd_updated = t\<rparr>])"

definition list_since :: "int \<Rightarrow> nlog list \<Rightarrow> nlog list" where
  "list_since t c =
     sort_key (\<lambda>l. - dflt 0 (nl_time l)) (filter (\<lambda>l. case nl_time l of Some s \<Rightarrow> t \<le> s | None \<Rightarrow> False) c)"

lemma find_update_first_same:
  "\<exists>d \<in> set c. P d \<Longrightarrow> (\<And>d. P d \<Longrightarrow> P (f d)) \<Longrightarrow> find P (update_first P f c) = map_option f (find P c)"
  by (induction c) auto

lemma find_update_first_other:
  "(\<And>d. P d \<Longrightarrow> \<not> Q d \<and> \<not> Q (f d)) \<Longrightarrow> find Q (update_first P f c) = find Q c"
  by (induction c) auto

interpretation list_store: plugin_store list_find_status list_upsert
proof unfold_locales
  fix p q st t and c :: "status_doc list"
  consider "\<forall>d \<in> set c. sd_plugin d \<noteq> p" | d where "d \<in> set c" "sd_plugin d = p" by blast
  then show "list_find_status (list_upsert p st t c) q = (if q = p then Some st else list_find_status c q)"
  proof cases
    case 1
    then show ?thesis
      by (auto simp: list_find_status_def list_upsert_def find_append find_None_all [THEN iffD2] split: option.splits)
  next
    case 2
    then obtain e where e: "find (\<lambda>d. sd_plugin d = p) c = Some e"
      using find_None_all [of "\<lambda>d. sd_plugin d = p" c] by fastforce
    from 2 have "\<exists>d \<in> set c. sd_plugin d = p" by blast
    then show ?thesis
      using e find_update_first_same [of c "\<lambda>d. sd_plugin d = p" "\<lambda>d. d\<lparr>sd_status := st, sd_updated := t\<rparr>"]
        find_update_first_other [of "\<lambda>d. sd_plugin d = p" "\<lambda>d. sd_plugin d = q"
           "\<lambda>d. d\<lparr>sd_status := st, sd_updated := t\<rparr>" c]
      by (auto simp: list_find_status_def list_upsert_def)
  qed
qed

interpretation list_since: since_query list_since "\<lambda>c. c"
  by unfold_locales (auto simp: list_since_def split: option.splits)

section \<open>One round\<close>

text \<open>The documents a round inserts for a list of selected actions.\<close>

definition act_doc :: "int \<Rightarrow> real \<Rightarrow> selected \<Rightarrow> action_doc" where
  "act_doc now rw sa = \<lparr>ad_selected = sa, ad_processed = False, ad_created = now, ad_reward = rw\<rparr>"

text \<open>The states the recorded actions put a plugin in, oldest first.\<close>

definition logged_states :: "action_doc list \<Rightarrow> string \<Rightarrow> string list" where
  "logged_states acts q =
     map (\<lambda>a. state_after (sel_action (ad_selected a))) (filter (\<lambda>a. sel_plugin (ad_selected a) = q) acts)"

lemma logged_states_append: "logged_states (xs @ ys) q = logged_states xs q @ logged_states ys q"
  by (simp add: logged_states_def)

lemma logged_states_act_doc:
  "logged_states [\<lparr>ad_selected = sa, ad_processed = False, ad_created = now, ad_reward = rw\<rparr>] q =
     (if sel_plugin sa = q then [state_after (sel_action sa)] else [])"
  by (simp add: logged_states_def)

context plugin_store
begin

abbreviation cur :: "'c \<Rightarrow> string \<Rightarrow> string" where
  "cur \<equiv> get_current_plugin_state find_status"

lemma cur_update: "cur (update_plugin_state upsert t p a c) q = (if q = p then state_after a else cur c q)"
  by (simp add: get_current_plugin_state_def update_plugin_state_def find_upsert)

lemma cur_apply:
  "cur (fst (apply_selected find_status upsert clk now rw sas s)) q =
     (case find (\<lambda>sa. sel_plugin sa = q) (rev sas) of
        Some sa \<Rightarrow> state_after (sel_action sa) | None \<Rightarrow> cur (fst s) q)"
proof (induction sas arbitrary: s)
  case Nil
  show ?case by simp
next
  case (Cons sa sas)
  obtain c acts where s: "s = (c, acts)" by (cases s)
  show ?case
    by (auto simp: s Let_def Cons.IH cur_update find_append state_after_def split: option.splits)
qed

lemma acts_apply:
  "distinct (map sel_plugin sas) \<Longrightarrow>
   snd (apply_selected find_status upsert clk now rw sas s) =
     snd s @ map (act_doc now rw) (filter (\<lambda>sa. cur (fst s) (sel_plugin sa) \<noteq> state_after (sel_action sa)) sas)"
proof (induction sas arbitrary: s)
  case Nil
  show ?case by simp
next
  case (Cons sa sas)
  obtain c acts where s: "s = (c, acts)" by (cases s)
  have "sel_plugin x \<noteq> sel_plugin sa" if "x \<in> set sas" for x
    using Cons.prems image_eqI [OF refl that, of sel_plugin] by auto
  then have keep: "filter (\<lambda>x. cur (update_plugin_state upsert t (sel_plugin sa) a c) (sel_plugin x) \<noteq> state_after (sel_action x)) sas =
      filter (\<lambda>x. cur c (sel_plugin x) \<noteq> state_after (sel_action x)) sas" for t a
    by (intro filter_cong refl) (simp add: cur_update)
  from Cons.prems have "distinct (map sel_plugin sas)" by simp
  then show ?case
    by (simp add: s Let_def Cons.IH keep act_doc_def) (simp add: state_after_def)
qed

text \<open>The recorded actions of a plugin alternate, and the last one is its state.\<close>

definition follows_log :: "'c \<times> action_doc list \<Rightarrow> bool" where
  "follows_log s \<longleftrightarrow> (\<forall>q. cur (fst s) q = last (''enabled'' # logged_states (snd s) q) \<and>
     successively (\<noteq>) (''enabled'' # logged_states (snd s) q))"

lemma successively_snoc:
  "successively P (xs @ [x]) \<longleftrightarrow> successively P xs \<and> (xs = [] \<or> P (last xs) x)"
  by (auto simp: successively_append_iff)

lemma follows_log_apply:
  "follows_log s \<Longrightarrow> follows_log (apply_selected find_status upsert clk now rw sas s)"
proof (induction sas arbitrary: s)
  case Nil
  then show ?case by simp
next
  case (Cons sa sas)
  obtain c acts where s: "s = (c, acts)" by (cases s)
  let ?d = "\<lparr>ad_selected = sa, ad_processed = False, ad_created = now, ad_reward = rw\<rparr>"
  have step: "follows_log (update_plugin_state upsert t (sel_plugin sa) (sel_action sa) c, acts @ [?d])"
    if new: "cur c (sel_plugin sa) \<noteq> state_after (sel_action sa)" for t
    unfolding follows_log_def
  proof
    fix q
    let ?h = "''enabled'' # logged_states acts q"
    have old: "cur c q = last ?h" "successively (\<noteq>) ?h" using Cons.prems by (auto simp: s follows_log_def)
    have h: "''enabled'' # logged_states (acts @ [?d]) q = ?h @ (if sel_plugin sa = q then [state_after (sel_action sa)] else [])"
      by (simp add: logged_states_append logged_states_act_doc)
    show "cur (fst (update_plugin_state upsert t (sel_plugin sa) (sel_action sa) c, acts @ [?d])) q =
        last (''enabled'' # logged_states (snd (update_plugin_state upsert t (sel_plugin sa) (sel_action sa) c, acts @ [?d])) q) \<and>
      successively (\<noteq>) (''enabled'' # logged_states (snd (update_plugin_state upsert t (sel_plugin sa) (sel_action sa) c, acts @ [?d])) q)"
      unfolding snd_conv fst_conv h cur_update
      using old new by (auto simp del: append_Cons simp: successively_snoc)
  qed
  show ?case
    using Cons.prems Cons.IH step by (simp add: s Let_def state_after_def)
qed

lemma follows_log_run:
  "predictor_run find_status upsert since_logs recent predict ws p = Inr p' \<Longrightarrow>
   follows_log (pr_states p, pr_actions p) \<Longrightarrow> follows_log (pr_states p', pr_actions p')"
proof (induction ws arbitrary: p)
  case Nil
  then show ?case by simp
next
  case (Cons w ws)
  then obtain p1 where p1: "predictor_round find_status upsert since_logs recent predict w p = Inr p1"
    and rest: "predictor_run find_status upsert since_logs recent predict ws p1 = Inr p'"
    by auto
  have follow: "follows_log s" if "apply_selected find_status upsert clk now rw sas (pr_states p, pr_actions p) = s"
    for clk now rw sas s
    using follows_log_apply [OF Cons.prems(2)] that by blast
  have "follows_log (pr_states p1, pr_actions p1)"
    using p1 Cons.prems(2)
    by (auto simp: predictor_round_def Let_def split: if_splits prod.splits) (erule follow)
  from Cons.IH [OF rest this] show ?case .
qed

end

section \<open>The commands of an action vector\<close>

definition wanted :: "int list \<Rightarrow> nat \<Rightarrow> string" where
  "wanted action k = (if action ! k = 1 then ''disabled'' else ''enabled'')"

definition command :: "int list \<Rightarrow> nat \<Rightarrow> selected" where
  "command action k = \<lparr>sel_plugin = plugin_map ! k,
     sel_action = (if action ! k = 1 then ''disable_plugin'' else ''enable_plugin'')\<rparr>"

lemma state_after_command [simp]: "state_after (sel_action (command action k)) = wanted action k"
  by (simp add: command_def wanted_def state_after_def)

lemma sel_plugin_command [simp]: "sel_plugin (command action k) = plugin_map ! k"
  by (simp add: command_def)

lemma decode_action_command:
  "decode_action action =
     (if length action \<le> 4 then Inr (map (command action) [0..<length action]) else Inl IndexError)"
proof (cases "length action \<le> 4")
  case True
  have "map (\<lambda>(k, x). \<lparr>sel_plugin = plugin_map ! k,
     sel_action = (if x = 1 then ''disable_plugin'' else ''enable_plugin'')\<rparr>) (enumerate 0 action) =
     map (command action) [0..<length action]"
    by (rule nth_equalityI) (simp_all add: command_def nth_enumerate_eq)
  with True show ?thesis
    using decode_from_eq [of 0 action] by (simp add: decode_action_def plugin_map_def)
next
  case False
  then show ?thesis
    using decode_from_long [of 0 action] by (simp add: decode_action_def plugin_map_def)
qed

lemma distinct_plugin_map: "distinct plugin_map"
  by code_simp

lemma length_plugin_map: "length plugin_map = 4"
  by (simp add: plugin_map_def)

lemma distinct_commands:
  "n \<le> 4 \<Longrightarrow> distinct (map sel_plugin (map (command action) [0..<n]))"
  using distinct_plugin_map length_plugin_map
  by (auto simp: distinct_map inj_on_def nth_eq_iff_index_eq)

lemma find_command:
  "n \<le> 4 \<Longrightarrow> k < n \<Longrightarrow>
   find (\<lambda>sa. sel_plugin sa = plugin_map ! k) (rev (map (command action) [0..<n])) = Some (command action k)"
  using distinct_plugin_map length_plugin_map
  by (induction n) (auto simp: nth_eq_iff_index_eq less_Suc_eq)

lemma find_command_none:
  "q \<notin> set (take n plugin_map) \<Longrightarrow> n \<le> 4 \<Longrightarrow>
   find (\<lambda>sa. sel_plugin sa = q) (rev (map (command action) [0..<n])) = None"
  using length_plugin_map by (auto simp: find_None_all in_set_conv_nth)

text \<open>What a round that predicts does, over any store that keeps the law.\<close>

context plugin_store
begin

lemma round_applies:
  assumes "predictor_round find_status upsert since_logs recent predict w p = Inr p'"
    and "fst (check_for_attacker_activity DEMO_MODE (since_logs (pr_last_check p) (ri_check w)))"
    and "action = predict DEMO_MODE (get_state (recent (ri_reset w)))"
  shows "length action \<le> 4"
    and "k < length action \<Longrightarrow> cur (pr_states p') (plugin_map ! k) = wanted action k"
    and "q \<notin> set (take (length action) plugin_map) \<Longrightarrow> cur (pr_states p') q = cur (pr_states p) q"
    and "pr_actions p' = pr_actions p @
       map (\<lambda>k. act_doc (ri_now w) (calculate_reward (recent (ri_reward w))) (command action k))
         (filter (\<lambda>k. cur (pr_states p) (plugin_map ! k) \<noteq> wanted action k) [0..<length action])"
    and "pr_last_check p' = ri_now w"
proof -
  let ?sas = "map (command action) [0..<length action]"
  let ?rw = "calculate_reward (recent (ri_reward w))"
  let ?s = "apply_selected find_status upsert (ri_clk w) (ri_now w) ?rw ?sas (pr_states p, pr_actions p)"
  from assms have len: "length action \<le> 4"
    and p': "pr_states p' = fst ?s" "pr_actions p' = snd ?s" "pr_last_check p' = ri_now w"
    by (auto simp: predictor_round_def env_reset_def env_step_def decode_action_command Let_def
        split: if_splits prod.splits)
  show "length action \<le> 4" "pr_last_check p' = ri_now w" by fact+
  show "cur (pr_states p') (plugin_map ! k) = wanted action k" if "k < length action"
    unfolding p' cur_apply find_command [OF len that] by simp
  show "cur (pr_states p') q = cur (pr_states p) q" if "q \<notin> set (take (length action) plugin_map)"
    unfolding p' cur_apply find_command_none [OF that len] by simp
  show "pr_actions p' = pr_actions p @ map (\<lambda>k. act_doc (ri_now w) ?rw (command action k))
         (filter (\<lambda>k. cur (pr_states p) (plugin_map ! k) \<noteq> wanted action k) [0..<length action])"
    unfolding p' acts_apply [OF distinct_commands [OF len]] by (simp add: filter_map o_def)
qed

end

section \<open>The rounds\<close>

lemma round_returns:
  assumes "length (predict DEMO_MODE (get_state (recent (ri_reset w)))) \<le> 4"
  shows "\<exists>p'. predictor_round find_status upsert since_logs recent predict w p = Inr p'"
  using assms
  by (auto simp: predictor_round_def env_reset_def env_step_def decode_action_command Let_def split: prod.splits)

definition demo_attack :: nlog where
  "demo_attack = \<lparr>nl_time = Some 100, nl_source = None, nl_ip = Some ''8.8.4.4'', nl_port = Some (PInt 23),
     nl_protocol = Some ''telnet'', nl_tags = Some [''nmap'']\<rparr>"

definition demo_round :: "int \<Rightarrow> nlog list \<Rightarrow> nlog list round_in" where
  "demo_round now ls = \<lparr>ri_now = now, ri_check = ls, ri_reset = ls, ri_obs = ls, ri_reward = ls, ri_clk = (\<lambda>_. now)\<rparr>"

definition demo_predict :: "bool \<Rightarrow> nat list \<Rightarrow> int list" where
  "demo_predict _ obs = (if obs ! 5 = 0 then [0, 0, 0, 0] else [1, 0, 0, 1])"

text \<open>A round that finds activity puts every plugin the action vector names in the state its bit
  asks for (1 disables), leaves the other plugins as they were, and inserts one unprocessed action
  document, in the order ssh, ftp, http, telnet, for exactly the plugins whose state changes.\<close>

theorem predictor_round_applies:
  assumes "plugin_store find_status upsert"
    and "predictor_round find_status upsert since_logs recent predict w p = Inr p'"
    and "fst (check_for_attacker_activity DEMO_MODE (since_logs (pr_last_check p) (ri_check w)))"
    and "action = predict DEMO_MODE (get_state (recent (ri_reset w)))"
  shows "length action \<le> 4 \<and>
    (\<forall>k < length action.
       get_current_plugin_state find_status (pr_states p') ([''ssh'', ''ftp'', ''http'', ''telnet''] ! k) =
         (if action ! k = 1 then ''disabled'' else ''enabled'')) \<and>
    (\<forall>q. q \<notin> set (take (length action) [''ssh'', ''ftp'', ''http'', ''telnet'']) \<longrightarrow>
       get_current_plugin_state find_status (pr_states p') q = get_current_plugin_state find_status (pr_states p) q) \<and>
    pr_actions p' = pr_actions p @
      map (\<lambda>k. \<lparr>ad_selected = command action k, ad_processed = False, ad_created = ri_now w,
                 ad_reward = calculate_reward (recent (ri_reward w))\<rparr>)
        (filter (\<lambda>k. get_current_plugin_state find_status (pr_states p) (plugin_map ! k) \<noteq> wanted action k)
           [0..<length action])"
proof -
  note r = plugin_store.round_applies [OF assms]
  show ?thesis
    using r(1) r(2) r(3) r(4) by (simp add: act_doc_def [abs_def] wanted_def plugin_map_def)
qed

lemma demo_active: "fst (check_for_attacker_activity DEMO_MODE (list_since 90 [demo_attack]))"
  by code_simp

lemma demo_first_active:
  "fst (check_for_attacker_activity DEMO_MODE
     (list_since (pr_last_check (predictor_init [] 100)) (ri_check (demo_round 110 [demo_attack]))))"
  using demo_active by (simp add: predictor_init_def demo_round_def LOOKBACK_SECONDS_def DEMO_MODE_def)

lemma demo_action: "demo_predict DEMO_MODE (get_state (list_recent [demo_attack])) = [1, 0, 0, 1]"
  by code_simp

abbreviation demo_step :: "int \<Rightarrow> status_doc list predictor \<Rightarrow> status_doc list predictor result" where
  "demo_step now \<equiv> predictor_round list_find_status list_upsert list_since list_recent demo_predict (demo_round now [demo_attack])"

lemma demo_step_returns: "\<exists>p'. demo_step now p = Inr p'"
  by (rule round_returns) (simp add: demo_round_def demo_action)

theorem predictor_round_applies_witness:
  "\<exists>p'. demo_step 110 (predictor_init [] 100) = Inr p' \<and>
     map (\<lambda>q. get_current_plugin_state list_find_status (pr_states p') q) [''ssh'', ''ftp'', ''http'', ''telnet''] =
       [''disabled'', ''enabled'', ''enabled'', ''disabled''] \<and>
     map (\<lambda>a. sel_plugin (ad_selected a)) (pr_actions p') = [''ssh'', ''telnet'']"
proof -
  obtain p' where p': "demo_step 110 (predictor_init [] 100) = Inr p'" using demo_step_returns by blast
  have act: "[1, 0, 0, 1] = demo_predict DEMO_MODE (get_state (list_recent (ri_reset (demo_round 110 [demo_attack]))))"
    by (simp add: demo_round_def demo_action)
  have start: "get_current_plugin_state list_find_status (pr_states (predictor_init [] 100)) q = ''enabled''" for q
    by (simp add: predictor_init_def get_current_plugin_state_def list_find_status_def)
  note r = predictor_round_applies [OF list_store.plugin_store_axioms p' demo_first_active act]
  have changed: "filter (\<lambda>k. ''enabled'' \<noteq> wanted [1, 0, 0, 1] k) [0..<length [1::int, 0, 0, 1]] = [0, 3]"
    by code_simp
  have "pr_actions (predictor_init [] 100) = []" by (simp add: predictor_init_def)
  moreover note conjunct2 [OF conjunct2 [OF conjunct2 [OF r]]]
  ultimately have "map (\<lambda>a. sel_plugin (ad_selected a)) (pr_actions p') = map (\<lambda>k. plugin_map ! k) [0, 3]"
    unfolding start changed by simp
  then have acts: "map (\<lambda>a. sel_plugin (ad_selected a)) (pr_actions p') = [''ssh'', ''telnet'']"
    by (simp add: plugin_map_def)
  have st: "get_current_plugin_state list_find_status (pr_states p') ([''ssh'', ''ftp'', ''http'', ''telnet''] ! k) =
         (if [1::int, 0, 0, 1] ! k = 1 then ''disabled'' else ''enabled'')" if "k < 4" for k
    using conjunct1 [OF conjunct2 [OF r]] that by simp
  have "map (\<lambda>k. get_current_plugin_state list_find_status (pr_states p') ([''ssh'', ''ftp'', ''http'', ''telnet''] ! k)) [0, 1, 2, 3] =
     map (\<lambda>k. if [1::int, 0, 0, 1] ! k = 1 then ''disabled'' else ''enabled'') [0, 1, 2, 3]"
    by (intro map_cong refl st) auto
  then have states: "map (\<lambda>q. get_current_plugin_state list_find_status (pr_states p') q) [''ssh'', ''ftp'', ''http'', ''telnet''] =
       [''disabled'', ''enabled'', ''enabled'', ''disabled'']"
    by simp
  from p' states acts show ?thesis by (intro exI [of _ p'] conjI)
qed

text \<open>C4. Over any number of rounds, from an empty state collection, the recorded actions of every
  plugin alternate, starting with a disable, and the plugin's state is the one its last recorded
  action asks for: the agent never records an action that changes nothing, and never loses one.\<close>

theorem predictor_log_alternates:
  assumes "plugin_store find_status upsert"
    and "\<forall>q. find_status c q = None"
    and "predictor_run find_status upsert since_logs recent predict ws (predictor_init c start) = Inr p"
  shows "successively (\<noteq>) (''enabled'' # logged_states (pr_actions p) q) \<and>
     get_current_plugin_state find_status (pr_states p) q = last (''enabled'' # logged_states (pr_actions p) q)"
proof -
  have "plugin_store.follows_log find_status (c, [])"
    using assms(2) by (simp add: plugin_store.follows_log_def [OF assms(1)] logged_states_def get_current_plugin_state_def)
  then have "plugin_store.follows_log find_status (pr_states p, pr_actions p)"
    using plugin_store.follows_log_run [OF assms(1) assms(3)] by (simp add: predictor_init_def)
  then show ?thesis by (simp add: plugin_store.follows_log_def [OF assms(1)])
qed

theorem predictor_log_alternates_witness:
  "\<exists>p. predictor_run list_find_status list_upsert list_since list_recent demo_predict
         [demo_round 110 [demo_attack]] (predictor_init [] 100) = Inr p \<and>
     (\<forall>q. successively (\<noteq>) (''enabled'' # logged_states (pr_actions p) q) \<and>
     get_current_plugin_state list_find_status (pr_states p) q = last (''enabled'' # logged_states (pr_actions p) q))"
proof -
  obtain p where "demo_step 110 (predictor_init [] 100) = Inr p" using demo_step_returns by blast
  then have p: "predictor_run list_find_status list_upsert list_since list_recent demo_predict
         [demo_round 110 [demo_attack]] (predictor_init [] 100) = Inr p"
    by simp
  have "\<forall>q. list_find_status [] q = None" by (simp add: list_find_status_def)
  from predictor_log_alternates [OF list_store.plugin_store_axioms this p] p show ?thesis by blast
qed

text \<open>A second round in which the model repeats its action inserts nothing.\<close>

theorem predictor_settles:
  assumes "plugin_store find_status upsert"
    and "predictor_round find_status upsert since_logs recent predict w1 p = Inr p1"
    and "predictor_round find_status upsert since_logs recent predict w2 p1 = Inr p2"
    and "fst (check_for_attacker_activity DEMO_MODE (since_logs (pr_last_check p) (ri_check w1)))"
    and "predict DEMO_MODE (get_state (recent (ri_reset w2))) = predict DEMO_MODE (get_state (recent (ri_reset w1)))"
  shows "pr_actions p2 = pr_actions p1 \<and>
    (\<forall>q. get_current_plugin_state find_status (pr_states p2) q = get_current_plugin_state find_status (pr_states p1) q)"
proof (cases "fst (check_for_attacker_activity DEMO_MODE (since_logs (pr_last_check p1) (ri_check w2)))")
  case False
  with assms(3) show ?thesis by (auto simp: predictor_round_def Let_def split: prod.splits)
next
  case True
  let ?a = "predict DEMO_MODE (get_state (recent (ri_reset w1)))"
  note first = plugin_store.round_applies [OF assms(1,2,4) refl]
  note second = plugin_store.round_applies [OF assms(1,3) True assms(5) [symmetric]]
  have "filter (\<lambda>k. get_current_plugin_state find_status (pr_states p1) (plugin_map ! k) \<noteq> wanted ?a k) [0..<length ?a] = []"
    using first(2) by (simp add: filter_empty_conv)
  with second(4) have "pr_actions p2 = pr_actions p1" by simp
  moreover have "get_current_plugin_state find_status (pr_states p2) q = get_current_plugin_state find_status (pr_states p1) q" for q
  proof (cases "q \<in> set (take (length ?a) plugin_map)")
    case True
    with first(1) obtain k where "k < length ?a" "q = plugin_map ! k"
      by (auto simp: in_set_conv_nth)
    then show ?thesis using first(2) second(2) by simp
  next
    case False
    then show ?thesis by (rule second(3))
  qed
  ultimately show ?thesis by blast
qed

theorem predictor_settles_witness:
  "\<exists>p1 p2. demo_step 110 (predictor_init [] 100) = Inr p1 \<and> demo_step 120 p1 = Inr p2 \<and> pr_actions p2 = pr_actions p1"
proof -
  obtain p1 where p1: "demo_step 110 (predictor_init [] 100) = Inr p1" using demo_step_returns by blast
  obtain p2 where p2: "demo_step 120 p1 = Inr p2" using demo_step_returns by blast
  have "demo_predict DEMO_MODE (get_state (list_recent (ri_reset (demo_round 120 [demo_attack])))) =
      demo_predict DEMO_MODE (get_state (list_recent (ri_reset (demo_round 110 [demo_attack]))))"
    by (simp add: demo_round_def)
  from predictor_settles [OF list_store.plugin_store_axioms p1 p2 demo_first_active this]
  have "pr_actions p2 = pr_actions p1" by blast
  with p1 p2 show ?thesis by blast
qed

section \<open>What wakes the agent\<close>

lemma demo_scan_eq:
  "demo_scan n logs = (list_ex (\<lambda>l. log_tags l \<noteq> [] \<or>
     log_protocol l \<in> set service_protocols \<and> log_ip l \<noteq> ''unknown'') logs, n)"
  by (induction n logs rule: demo_scan.induct) (auto simp: Let_def)

lemma strict_count_pos:
  "0 < strict_count k logs \<longleftrightarrow> 0 < k \<or> list_ex (\<lambda>l. (\<exists>t \<in> set TRIGGER_TAGS. t \<in> set (log_tags l)) \<or>
     (log_protocol l \<in> set service_protocols \<and> log_ip l \<noteq> ''unknown'' \<and>
      \<not> prefix ''192.168.186.'' (log_ip l))) logs"
  by (induction k logs rule: strict_count.induct) (auto simp: Let_def list_ex_iff)

text \<open>The two modes of the activity check as conditions on the logs: the demo mode wakes on any
  tag or any service log with an address, the normal one on a trigger tag or a service log from
  outside the honeypot network. Both report the number of logs.\<close>

theorem activity_check_eq:
  "check_for_attacker_activity demo logs =
     (list_ex (\<lambda>l. if demo then log_tags l \<noteq> [] \<or> log_protocol l \<in> set service_protocols \<and> log_ip l \<noteq> ''unknown''
        else (\<exists>t \<in> set TRIGGER_TAGS. t \<in> set (log_tags l)) \<or>
          log_protocol l \<in> set service_protocols \<and> log_ip l \<noteq> ''unknown'' \<and>
          \<not> prefix ''192.168.186.'' (log_ip l)) logs, length logs)"
  by (simp add: check_for_attacker_activity_def demo_scan_eq strict_count_pos)

text \<open>A log that reaches the collection after a check, with a time before it, is never examined:
  a round whose logs all carry an earlier time than the last check only moves the window.\<close>

theorem late_logs_missed:
  assumes "since_query since_logs logs_of"
    and "\<forall>l \<in> set (logs_of (ri_check w)). dflt (pr_last_check p - 1) (nl_time l) < pr_last_check p"
  shows "predictor_round find_status upsert since_logs recent predict w p = Inr (p\<lparr>pr_last_check := ri_now w\<rparr>)"
proof -
  have "l \<notin> set (since_logs (pr_last_check p) (ri_check w))" for l
    using assms(2) by (auto simp: since_query.since_set [OF assms(1)] dflt_def)
  then have "since_logs (pr_last_check p) (ri_check w) = []" by (metis list.set_intros(1) neq_Nil_conv)
  then show ?thesis by (simp add: predictor_round_def check_for_attacker_activity_def DEMO_MODE_def Let_def)
qed

theorem late_logs_missed_witness:
  "predictor_round list_find_status list_upsert list_since list_recent demo_predict (demo_round 120 [demo_attack])
     ((predictor_init [] 100)\<lparr>pr_last_check := 110\<rparr>) = Inr ((predictor_init [] 100)\<lparr>pr_last_check := 120\<rparr>) \<and>
   log_tags demo_attack = [''nmap'']"
proof -
  have "\<forall>l \<in> set (ri_check (demo_round 120 [demo_attack])). dflt (110 - 1) (nl_time l) < (110::int)"
    by (simp add: demo_round_def demo_attack_def dflt_def)
  then have "predictor_round list_find_status list_upsert list_since list_recent demo_predict (demo_round 120 [demo_attack])
     ((predictor_init [] 100)\<lparr>pr_last_check := 110\<rparr>) =
     Inr ((predictor_init [] 100)\<lparr>pr_last_check := 110, pr_last_check := ri_now (demo_round 120 [demo_attack])\<rparr>)"
    by (intro late_logs_missed [OF list_since.since_query_axioms]) simp
  then show ?thesis by (simp add: demo_round_def demo_attack_def log_tags_def dflt_def)
qed

end
