(* ===== verification/Actuator.thy ===== *)
theory Actuator
  imports Docs
begin

text \<open>
  \<open>Code/actuator\<close>: the process that carries out recorded actions on the honeypot machines.
  \<open>utils.py\<close> holds the hosts, the ssh call and the action log; one handler per honeypot builds the
  command; \<open>main_actuator.py\<close> maps plugins to handlers and polls the action collection. The
  credentials file is a parameter \<open>creds\<close>, running a command a parameter \<open>run\<close> from its argument
  vector to what the process did. Messages are in UTF-8, so the cross mark is three characters.
\<close>

section \<open>Hosts and the ssh call\<close>

definition HONEYPOT_HOSTS :: "string \<Rightarrow> string option" where
  "HONEYPOT_HOSTS = map_of
     [(''cowrie'', ''192.168.186.136''), (''honeypy'', ''192.168.186.137''), (''honeytrap'', ''192.168.186.138''),
      (''conpot'', ''192.168.186.139''), (''nodepot-lite'', ''192.168.186.137'')]"

definition HONEYPOT_PORTS :: "string \<Rightarrow> int option" where
  "HONEYPOT_PORTS = map_of
     [(''cowrie'', 22), (''honeypy'', 22), (''honeytrap'', 2222), (''conpot'', 22), (''nodepot-lite'', 22)]"

type_synonym credentials = "string \<Rightarrow> (string \<times> string) option"

definition item :: "(string \<Rightarrow> 'a option) \<Rightarrow> string \<Rightarrow> 'a result" where
  "item m k = (case m k of Some v \<Rightarrow> Inr v | None \<Rightarrow> Inl KeyError)"

definition get_creds :: "credentials \<Rightarrow> string \<Rightarrow> (string \<times> string \<times> string \<times> int) result" where
  "get_creds creds hp =
     bindE (item HONEYPOT_HOSTS hp) (\<lambda>ip.
     bindE (item creds hp) (\<lambda>(username, password).
     bindE (item HONEYPOT_PORTS hp) (\<lambda>port. Inr (ip, username, password, port))))"

text \<open>A finished process has an exit code and its two outputs; \<open>subprocess.run\<close> may also raise, as on
  the timeout.\<close>

datatype outcome = Done int string string | Raised string

type_synonym runner = "string list \<Rightarrow> outcome"

definition ssh_argv :: "string \<Rightarrow> string \<Rightarrow> string \<Rightarrow> string \<Rightarrow> int \<Rightarrow> string list" where
  "ssh_argv ip username password command port =
     [''sshpass'', ''-p'', password, ''ssh'', ''-p'', show_int port, ''-o'', ''StrictHostKeyChecking=no'',
      username @ ''@'' @ ip, command]"

definition ssh_exec :: "runner \<Rightarrow> string \<Rightarrow> string \<Rightarrow> string \<Rightarrow> string \<Rightarrow> int \<Rightarrow> bool \<times> string" where
  "ssh_exec run ip username password command port =
     (case run (ssh_argv ip username password command port) of
        Done returncode stdout stderr \<Rightarrow> (True, if strip stdout \<noteq> [] then strip stdout else strip stderr)
      | Raised e \<Rightarrow> (False, e))"

section \<open>The handlers\<close>

type_synonym handled = "(bool \<times> string \<times> string) result"

definition cross :: string where "cross = [CHR 0xE2, CHR 0x9D, CHR 0x8C, CHR '' '']"

definition show_opt :: "string option \<Rightarrow> string" where
  "show_opt v = (case v of Some s \<Rightarrow> s | None \<Rightarrow> ''None'')"

definition unsupported :: "string \<Rightarrow> string \<Rightarrow> handled" where
  "unsupported plugin by_whom =
     Inr (False, cross @ ''Plugin '' @ [CHR 0x27] @ plugin @ [CHR 0x27] @ '' not supported by '' @ by_whom, ''N/A'')"

definition run_cmd :: "runner \<Rightarrow> string \<times> string \<times> string \<times> int \<Rightarrow> string \<Rightarrow> handled" where
  "run_cmd run c cmd =
     (case c of (ip, username, password, port) \<Rightarrow>
        (case ssh_exec run ip username password cmd port of (success, output) \<Rightarrow> Inr (success, output, cmd)))"

definition handle_cowrie_action :: "credentials \<Rightarrow> runner \<Rightarrow> string option \<Rightarrow> string \<Rightarrow> handled" where
  "handle_cowrie_action creds run act_type plugin =
     bindE (get_creds creds ''cowrie'') (\<lambda>c.
     if plugin \<notin> set [''telnet'', ''ssh''] then unsupported plugin ''Cowrie''
     else if act_type = Some ''disable_plugin''
     then run_cmd run c ''rm -f ~/cowrie/etc/enable_telnet.flag && ~/cowrie/bin/cowrie restart''
     else if act_type = Some ''enable_plugin''
     then run_cmd run c ''touch ~/cowrie/etc/enable_telnet.flag && ~/cowrie/bin/cowrie restart''
     else Inr (False, cross @ ''Unknown action '' @ show_opt act_type, ''N/A''))"

definition honeypy_section :: "string \<Rightarrow> string option" where
  "honeypy_section = map_of [(''ftp'', ''FTP''), (''http'', ''HTTP''), (''echo'', ''Echo''), (''motd'', ''MOTD'')]"

definition honeypy_sed :: "string \<Rightarrow> string \<Rightarrow> string \<Rightarrow> string" where
  "honeypy_sed sec old new =
     ''sed -i '' @ [CHR 0x27] @ ''/'' @ [CHR 0x5C] @ ''['' @ sec @ [CHR 0x5C] @ '']/,/enabled/s/enabled *= *'' @ old @
     ''/enabled = '' @ new @ ''/'' @ [CHR 0x27] @ '' ~/honeypy/HoneyPy/etc/services.cfg''"

definition handle_honeypy_action :: "credentials \<Rightarrow> runner \<Rightarrow> string option \<Rightarrow> string \<Rightarrow> handled" where
  "handle_honeypy_action creds run act_type plugin =
     bindE (get_creds creds ''honeypy'') (\<lambda>c.
     case honeypy_section (lower plugin) of
       None \<Rightarrow> unsupported plugin ''HoneyPy''
     | Some plugin_section \<Rightarrow>
         let restart = (\<lambda>sed_cmd. sed_cmd @ '' && sudo systemctl restart honeypy-mongo-logger && '' @
               ''~/honeypy/HoneyPy/stop_honeypy.sh && sleep 2 && '' @
               ''nohup python3 ~/honeypy/HoneyPy/Honey.py > ~/honeypy/HoneyPy/logs/honeypy.log 2>&1 &'') in
         if act_type = Some ''disable_plugin'' then run_cmd run c (restart (honeypy_sed plugin_section ''Yes'' ''No''))
         else if act_type = Some ''enable_plugin'' then run_cmd run c (restart (honeypy_sed plugin_section ''No'' ''Yes''))
         else Inr (False, cross @ ''Unknown action type: '' @ show_opt act_type, ''N/A''))"

definition handle_honeytrap_action :: "credentials \<Rightarrow> runner \<Rightarrow> string option \<Rightarrow> string \<Rightarrow> handled" where
  "handle_honeytrap_action creds run act_type plugin =
     bindE (get_creds creds ''honeytrap'') (\<lambda>c.
     if plugin \<notin> set [''tcp'', ''udp'', ''http'', ''mysql''] then unsupported plugin ''Honeytrap''
     else if act_type = Some ''disable_plugin'' then run_cmd run c ''docker stop honeytrap_honeytrap_1''
     else if act_type = Some ''enable_plugin'' then run_cmd run c ''docker start honeytrap_honeytrap_1''
     else if act_type = Some ''restart_plugin'' then run_cmd run c ''docker restart honeytrap_honeytrap_1''
     else Inr (False, cross @ ''Unknown action type: '' @ show_opt act_type, ''N/A''))"

definition handle_conpot_action :: "credentials \<Rightarrow> runner \<Rightarrow> string option \<Rightarrow> string \<Rightarrow> handled" where
  "handle_conpot_action creds run act_type plugin =
     bindE (get_creds creds ''conpot'') (\<lambda>c.
     if plugin \<notin> set [''modbus'', ''enip'', ''s7comm'', ''ipmi'', ''snmp'', ''bacnet'', ''http'']
     then unsupported plugin ''Conpot''
     else if act_type = Some ''enable_plugin''
     then run_cmd run c (''cd ~/conpot-github && nohup ./bin/conpot -c ~/conpot-github/conpot.cfg '' @
       ''-t ~/conpot-github/conpot/templates/default > ~/conpot-github/conpot.log 2>&1 &'')
     else if act_type = Some ''disable_plugin''
     then run_cmd run c (''pkill -f '' @ [CHR 0x27] @ ''conpot'' @ [CHR 0x27])
     else Inr (False, cross @ ''Invalid action type'', ''N/A''))"

definition handle_nodepot_action :: "credentials \<Rightarrow> runner \<Rightarrow> string option \<Rightarrow> string \<Rightarrow> handled" where
  "handle_nodepot_action creds run act_type plugin =
     bindE (get_creds creds ''nodepot-lite'') (\<lambda>c.
     let run_new = ''cd ~/nodepot-lite && docker run -d --name nodepot-lite -p 80:80 '' @
           ''-v ~/nodepot-lite/uploads:/app/uploads nodepot-lite'' in
     if plugin \<notin> set [''node-web''] then unsupported plugin ''Nodepot-lite''
     else if act_type = Some ''disable_plugin'' then run_cmd run c ''docker stop nodepot-lite''
     else if act_type = Some ''enable_plugin'' then run_cmd run c (''docker start nodepot-lite || '' @ run_new)
     else if act_type = Some ''restart_plugin'' then run_cmd run c (''docker restart nodepot-lite || '' @ run_new)
     else Inr (False, cross @ ''Unknown action type: '' @ show_opt act_type, ''N/A''))"

section \<open>Routing\<close>

datatype handler = HCowrie | HHoneypy | HHoneytrap | HConpot | HNodepot

fun run_handler :: "handler \<Rightarrow> credentials \<Rightarrow> runner \<Rightarrow> string option \<Rightarrow> string \<Rightarrow> handled" where
  "run_handler HCowrie = handle_cowrie_action"
| "run_handler HHoneypy = handle_honeypy_action"
| "run_handler HHoneytrap = handle_honeytrap_action"
| "run_handler HConpot = handle_conpot_action"
| "run_handler HNodepot = handle_nodepot_action"

text \<open>The dictionary literal in source order: the key \<open>http\<close> occurs twice and the later entry wins.\<close>

definition handler_entries :: "(string \<times> string \<times> handler) list" where
  "handler_entries =
     [(''telnet'', ''cowrie'', HCowrie), (''ssh'', ''cowrie'', HCowrie), (''ftp'', ''honeypy'', HHoneypy),
      (''tcp'', ''honeytrap'', HHoneytrap), (''udp'', ''honeytrap'', HHoneytrap), (''mysql'', ''honeytrap'', HHoneytrap),
      (''http'', ''honeytrap'', HHoneytrap),
      (''modbus'', ''conpot'', HConpot), (''enip'', ''conpot'', HConpot), (''s7comm'', ''conpot'', HConpot),
      (''ipmi'', ''conpot'', HConpot), (''snmp'', ''conpot'', HConpot), (''bacnet'', ''conpot'', HConpot),
      (''http'', ''conpot'', HConpot), (''node-web'', ''nodepot-lite'', HNodepot),
      (''honeytrap'', ''honeytrap'', HHoneytrap), (''conpot'', ''conpot'', HConpot)]"

definition PLUGIN_HANDLER_MAP :: "string \<Rightarrow> (string \<times> handler) option" where
  "PLUGIN_HANDLER_MAP = map_of (rev handler_entries)"

section \<open>The action log\<close>

record log_entry =
  le_time :: int
  le_honeypot :: string
  le_plugin :: string
  le_action :: "string option"
  le_command :: string
  le_result :: string
  le_success :: bool
  le_action_id :: nat

definition error_keywords :: "string list" where
  "error_keywords = [''No such file'', ''command not found'', ''Failed'', ''Error'', ''permission denied'']"

definition log_action ::
  "int \<Rightarrow> string \<Rightarrow> string \<Rightarrow> string option \<Rightarrow> string \<Rightarrow> string \<Rightarrow> bool \<Rightarrow> nat \<Rightarrow> log_entry" where
  "log_action now hp plugin act_type cmd output success action_id =
     (let success = (if list_ex (\<lambda>k. contains (lower k) (lower output)) error_keywords then False else success)
      in \<lparr>le_time = now, le_honeypot = hp, le_plugin = plugin, le_action = act_type, le_command = cmd,
           le_result = output, le_success = success, le_action_id = action_id\<rparr>)"

section \<open>Carrying out actions\<close>

text \<open>An action document: a missing field is None, and a missing \<open>processed\<close> counts as not processed.\<close>

record adoc =
  a_id :: nat
  a_plugin :: "string option"
  a_action :: "string option"
  a_processed :: bool
  a_created :: int

record 'c actuator =
  ac_queue :: 'c
  ac_last :: "nat option"
  ac_log :: "log_entry list"

text \<open>\<open>mark\<close> is \<open>update_one({"_id": i}, {"$set": {"processed": True, "processed_at": t}})\<close>.\<close>

type_synonym 'c marker = "nat \<Rightarrow> int \<Rightarrow> 'c \<Rightarrow> 'c"

definition apply_action ::
  "'c marker \<Rightarrow> credentials \<Rightarrow> runner \<Rightarrow> int \<Rightarrow> adoc \<Rightarrow> 'c actuator \<Rightarrow> 'c actuator result" where
  "apply_action mark creds run t d s =
     (case a_plugin d of
        None \<Rightarrow> Inr s
      | Some plugin \<Rightarrow>
          (case PLUGIN_HANDLER_MAP plugin of
             None \<Rightarrow> Inr s
           | Some (hp, handler) \<Rightarrow>
               bindE (run_handler handler creds run (a_action d) plugin) (\<lambda>(success, out, cmd).
                 Inr (s\<lparr>ac_queue := mark (a_id d) t (ac_queue s),
                        ac_log := ac_log s @ [log_action t hp plugin (a_action d) cmd out success (a_id d)]\<rparr>))))"

text \<open>\<open>find_latest\<close> is the \<open>find_one\<close> of the polling loop, sorted by descending id.\<close>

type_synonym 'c latest = "int \<Rightarrow> 'c \<Rightarrow> adoc option"

definition watch_step ::
  "'c latest \<Rightarrow> 'c marker \<Rightarrow> credentials \<Rightarrow> (nat \<Rightarrow> runner) \<Rightarrow> int \<Rightarrow> 'c actuator \<Rightarrow> 'c actuator result" where
  "watch_step find_latest mark creds run now s =
     (case find_latest (now - 120) (ac_queue s) of
        Some d \<Rightarrow>
          if Some (a_id d) \<noteq> ac_last s
          then apply_action mark creds (run (a_id d)) now d (s\<lparr>ac_last := Some (a_id d)\<rparr>)
          else Inr s
      | None \<Rightarrow> Inr s)"

text \<open>A run of the loop: between two polls other processes insert documents.\<close>

fun watch_run ::
  "'c latest \<Rightarrow> 'c marker \<Rightarrow> (adoc list \<Rightarrow> 'c \<Rightarrow> 'c) \<Rightarrow> credentials \<Rightarrow> (nat \<Rightarrow> runner) \<Rightarrow>
   (int \<times> adoc list) list \<Rightarrow> 'c actuator \<Rightarrow> 'c actuator result" where
  "watch_run find_latest mark ins creds run [] s = Inr s"
| "watch_run find_latest mark ins creds run ((now, new) # rounds) s =
     bindE (watch_step find_latest mark creds run now (s\<lparr>ac_queue := ins new (ac_queue s)\<rparr>))
       (watch_run find_latest mark ins creds run rounds)"

definition actuator_init :: "'c \<Rightarrow> 'c actuator" where
  "actuator_init c = \<lparr>ac_queue = c, ac_last = None, ac_log = []\<rparr>"

end
