(* ===== verification/ActuatorFacts.thy ===== *)
theory ActuatorFacts
  imports Actuator
begin

text \<open>
  The actuator. The locale \<open>action_queue\<close> states what the polling loop relies on in the action
  collection (newest pending document, marking, insertion by other processes); it is interpreted on
  a collection as a list. Shown are where commands go and what the success flag means, that no
  action is carried out twice, in which order pending actions are drained, and when they are stuck.
\<close>

section \<open>The action collection\<close>

definition pending :: "int \<Rightarrow> adoc \<Rightarrow> bool" where
  "pending t d \<longleftrightarrow> \<not> a_processed d \<and> t \<le> a_created d"

definition mark_doc :: "nat \<Rightarrow> adoc \<Rightarrow> adoc" where
  "mark_doc i d = (if a_id d = i then d\<lparr>a_processed := True\<rparr> else d)"

lemma mark_doc_simps [simp]:
  "a_id (mark_doc i d) = a_id d" "a_plugin (mark_doc i d) = a_plugin d"
  "a_created (mark_doc i d) = a_created d" "a_action (mark_doc i d) = a_action d"
  "a_processed (mark_doc i d) \<longleftrightarrow> a_processed d \<or> a_id d = i"
  by (auto simp: mark_doc_def)

lemma a_id_mark_doc [simp]: "a_id \<circ> mark_doc i = a_id"
  by auto

locale action_queue =
  fixes docs :: "'c \<Rightarrow> adoc list"
    and find_latest :: "'c latest"
    and mark :: "'c marker"
    and ins :: "adoc list \<Rightarrow> 'c \<Rightarrow> 'c"
  assumes find_latest_Some: "find_latest t c = Some d \<Longrightarrow>
      d \<in> set (docs c) \<and> pending t d \<and> (\<forall>e \<in> set (docs c). pending t e \<longrightarrow> a_id e \<le> a_id d)"
    and find_latest_None: "find_latest t c = None \<Longrightarrow> \<forall>e \<in> set (docs c). \<not> pending t e"
    and docs_mark [simp]: "docs (mark i t c) = map (mark_doc i) (docs c)"
    and docs_ins [simp]: "docs (ins ds c) = docs c @ ds"

fun list_latest :: "adoc list latest" where
  "list_latest t [] = None"
| "list_latest t (d # ds) =
     (case list_latest t ds of
        None \<Rightarrow> if pending t d then Some d else None
      | Some e \<Rightarrow> if pending t d \<and> a_id e < a_id d then Some d else Some e)"

definition list_mark :: "adoc list marker" where
  "list_mark i t c = map (mark_doc i) c"

definition list_ins :: "adoc list \<Rightarrow> adoc list \<Rightarrow> adoc list" where
  "list_ins ds c = c @ ds"

lemma list_latest_None: "list_latest t c = None \<longleftrightarrow> (\<forall>e \<in> set c. \<not> pending t e)"
  by (induction c) (auto split: option.splits)

interpretation list_queue: action_queue "\<lambda>c. c" list_latest list_mark list_ins
proof unfold_locales
  fix t and c :: "adoc list" and d
  show "list_latest t c = Some d \<Longrightarrow>
      d \<in> set c \<and> pending t d \<and> (\<forall>e \<in> set c. pending t e \<longrightarrow> a_id e \<le> a_id d)"
  proof (induction c arbitrary: d)
    case Nil
    then show ?case by simp
  next
    case (Cons x xs)
    show ?case
    proof (cases "list_latest t xs")
      case None
      with Cons.prems show ?thesis by (auto simp: list_latest_None split: if_splits)
    next
      case (Some e)
      with Cons.IH [OF Some] Cons.prems show ?thesis by (fastforce split: if_splits)
    qed
  qed
qed (simp_all add: list_latest_None list_mark_def list_ins_def)

section \<open>Handlers\<close>

definition has_creds :: "credentials \<Rightarrow> bool" where
  "has_creds creds \<longleftrightarrow> (\<forall>hp \<in> {''cowrie'', ''honeypy'', ''honeytrap'', ''conpot'', ''nodepot-lite''}. creds hp \<noteq> None)"

lemmas handler_defs = handle_cowrie_action_def handle_honeypy_action_def handle_honeytrap_action_def
  handle_conpot_action_def handle_nodepot_action_def

lemma get_creds_hosts:
  "HONEYPOT_HOSTS ''cowrie'' = Some ''192.168.186.136''" "HONEYPOT_PORTS ''cowrie'' = Some 22"
  "HONEYPOT_HOSTS ''honeypy'' = Some ''192.168.186.137''" "HONEYPOT_PORTS ''honeypy'' = Some 22"
  "HONEYPOT_HOSTS ''honeytrap'' = Some ''192.168.186.138''" "HONEYPOT_PORTS ''honeytrap'' = Some 2222"
  "HONEYPOT_HOSTS ''conpot'' = Some ''192.168.186.139''" "HONEYPOT_PORTS ''conpot'' = Some 22"
  "HONEYPOT_HOSTS ''nodepot-lite'' = Some ''192.168.186.137''" "HONEYPOT_PORTS ''nodepot-lite'' = Some 22"
  by code_simp+

lemma get_creds_Inr:
  "hp \<in> {''cowrie'', ''honeypy'', ''honeytrap'', ''conpot'', ''nodepot-lite''} \<Longrightarrow> creds hp = Some (u, p) \<Longrightarrow>
   get_creds creds hp = Inr (the (HONEYPOT_HOSTS hp), u, p, the (HONEYPOT_PORTS hp))"
  by (auto simp: get_creds_def item_def get_creds_hosts)

lemma run_cmd_returns [simp]: "run_cmd run c cmd \<noteq> Inl e"
  by (simp add: run_cmd_def split: prod.splits)

lemma unsupported_returns [simp]: "unsupported plugin hp \<noteq> Inl e"
  by (simp add: unsupported_def)

lemma run_handler_total:
  assumes "has_creds creds"
  shows "\<exists>r. run_handler h creds run act plugin = Inr r"
proof -
  from assms have "get_creds creds hp \<noteq> Inl e"
    if "hp \<in> {''cowrie'', ''honeypy'', ''honeytrap'', ''conpot'', ''nodepot-lite''}" for hp e
    using that get_creds_Inr [OF that, of creds] by (force simp: has_creds_def)
  then have "\<exists>c. get_creds creds hp = Inr c"
    if "hp \<in> {''cowrie'', ''honeypy'', ''honeytrap'', ''conpot'', ''nodepot-lite''}" for hp
    using that by (metis sumE)
  from this [of "''cowrie''"] this [of "''honeypy''"] this [of "''honeytrap''"] this [of "''conpot''"]
    this [of "''nodepot-lite''"]
  obtain c1 c2 c3 c4 c5 where "get_creds creds ''cowrie'' = Inr c1" "get_creds creds ''honeypy'' = Inr c2"
    "get_creds creds ''honeytrap'' = Inr c3" "get_creds creds ''conpot'' = Inr c4"
    "get_creds creds ''nodepot-lite'' = Inr c5"
    by auto
  then have "run_handler h creds run act plugin \<noteq> Inl e" for e
    by (cases h) (simp_all add: handler_defs Let_def split: option.split)
  then show ?thesis by (metis sumE)
qed

text \<open>The honeypot of a handler and the plugins it accepts.\<close>

fun honeypot_of :: "handler \<Rightarrow> string" where
  "honeypot_of HCowrie = ''cowrie''"
| "honeypot_of HHoneypy = ''honeypy''"
| "honeypot_of HHoneytrap = ''honeytrap''"
| "honeypot_of HConpot = ''conpot''"
| "honeypot_of HNodepot = ''nodepot-lite''"

fun accepted :: "handler \<Rightarrow> string list" where
  "accepted HCowrie = [''telnet'', ''ssh'']"
| "accepted HHoneypy = [''ftp'']"
| "accepted HHoneytrap = [''tcp'', ''udp'', ''http'', ''mysql'']"
| "accepted HConpot = [''modbus'', ''enip'', ''s7comm'', ''ipmi'', ''snmp'', ''bacnet'', ''http'']"
| "accepted HNodepot = [''node-web'']"

lemma handler_entries_accepted:
  "list_all (\<lambda>(p, hp, h). hp = honeypot_of h \<and>
     (if p \<in> {''honeytrap'', ''conpot''} then h \<in> {HHoneytrap, HConpot} else p \<in> set (accepted h))) handler_entries"
  by code_simp

lemma handler_map_cases:
  assumes "PLUGIN_HANDLER_MAP plugin = Some (hp, h)"
  shows "hp = honeypot_of h"
    and "if plugin \<in> {''honeytrap'', ''conpot''} then h \<in> {HHoneytrap, HConpot} else plugin \<in> set (accepted h)"
proof -
  have "(plugin, hp, h) \<in> set handler_entries"
    using map_of_SomeD [OF assms [unfolded PLUGIN_HANDLER_MAP_def]] by simp
  then show "hp = honeypot_of h"
    "if plugin \<in> {''honeytrap'', ''conpot''} then h \<in> {HHoneytrap, HConpot} else plugin \<in> set (accepted h)"
    using handler_entries_accepted by (auto simp: list_all_iff)
qed

text \<open>A supported plugin with an enable or a disable runs one command.\<close>

lemma cowrie_runs:
  "get_creds creds ''cowrie'' = Inr c \<Longrightarrow> plugin \<in> set [''telnet'', ''ssh''] \<Longrightarrow>
   act \<in> {''enable_plugin'', ''disable_plugin''} \<Longrightarrow>
   \<exists>cmd. handle_cowrie_action creds run (Some act) plugin = run_cmd run c cmd"
  unfolding handle_cowrie_action_def 
  by (elim insertE emptyE; simp only: simp_thms if_True if_False; rule exI; simp del: list.set)

lemma honeypy_runs:
  "get_creds creds ''honeypy'' = Inr c \<Longrightarrow> honeypy_section (lower plugin) \<noteq> None \<Longrightarrow>
   act \<in> {''enable_plugin'', ''disable_plugin''} \<Longrightarrow>
   \<exists>cmd. handle_honeypy_action creds run (Some act) plugin = run_cmd run c cmd"
  unfolding handle_honeypy_action_def Let_def
  by (elim insertE emptyE; cases "honeypy_section (lower plugin)"; simp; rule exI; simp)

lemma honeytrap_runs:
  "get_creds creds ''honeytrap'' = Inr c \<Longrightarrow> plugin \<in> set [''tcp'', ''udp'', ''http'', ''mysql''] \<Longrightarrow>
   act \<in> {''enable_plugin'', ''disable_plugin''} \<Longrightarrow>
   \<exists>cmd. handle_honeytrap_action creds run (Some act) plugin = run_cmd run c cmd"
  unfolding handle_honeytrap_action_def 
  by (elim insertE emptyE; simp only: simp_thms if_True if_False; rule exI; simp del: list.set)

lemma conpot_runs:
  "get_creds creds ''conpot'' = Inr c \<Longrightarrow>
   plugin \<in> set [''modbus'', ''enip'', ''s7comm'', ''ipmi'', ''snmp'', ''bacnet'', ''http''] \<Longrightarrow>
   act \<in> {''enable_plugin'', ''disable_plugin''} \<Longrightarrow>
   \<exists>cmd. handle_conpot_action creds run (Some act) plugin = run_cmd run c cmd"
  unfolding handle_conpot_action_def 
  by (elim insertE emptyE; simp only: simp_thms if_True if_False; rule exI; simp del: list.set)

lemma nodepot_runs:
  "get_creds creds ''nodepot-lite'' = Inr c \<Longrightarrow> plugin \<in> set [''node-web''] \<Longrightarrow>
   act \<in> {''enable_plugin'', ''disable_plugin''} \<Longrightarrow>
   \<exists>cmd. handle_nodepot_action creds run (Some act) plugin = run_cmd run c cmd"
  unfolding handle_nodepot_action_def Let_def 
  by (elim insertE emptyE; simp only: simp_thms if_True if_False; rule exI; simp del: list.set)

lemma handler_runs:
  assumes "get_creds creds (honeypot_of h) = Inr c" and "plugin \<in> set (accepted h)"
    and "act \<in> {''enable_plugin'', ''disable_plugin''}"
  shows "\<exists>cmd. run_handler h creds run (Some act) plugin = run_cmd run c cmd"
proof (cases h)
  case HCowrie
  show ?thesis using cowrie_runs [OF _ _ assms(3)] assms(1,2)
    unfolding HCowrie run_handler.simps honeypot_of.simps accepted.simps by blast
next
  case HHoneypy
  have "honeypy_section (lower ''ftp'') \<noteq> None" by code_simp
  moreover from assms(2) have "plugin = ''ftp''" by (simp add: HHoneypy)
  ultimately show ?thesis using honeypy_runs [OF _ _ assms(3)] assms(1)
    unfolding HHoneypy run_handler.simps honeypot_of.simps by blast
next
  case HHoneytrap
  show ?thesis using honeytrap_runs [OF _ _ assms(3)] assms(1,2)
    unfolding HHoneytrap run_handler.simps honeypot_of.simps accepted.simps by blast
next
  case HConpot
  show ?thesis using conpot_runs [OF _ _ assms(3)] assms(1,2)
    unfolding HConpot run_handler.simps honeypot_of.simps accepted.simps by blast
next
  case HNodepot
  show ?thesis using nodepot_runs [OF _ _ assms(3)] assms(1,2)
    unfolding HNodepot run_handler.simps honeypot_of.simps accepted.simps by blast
qed

lemma raw_refused:
  assumes "get_creds creds (honeypot_of h) = Inr c" and "plugin \<in> {''honeytrap'', ''conpot''}"
    and "h \<in> {HHoneytrap, HConpot}"
  shows "\<exists>msg. run_handler h creds run act plugin = Inr (False, msg, ''N/A'')"
proof -
  have "plugin \<notin> set (accepted HHoneytrap)" "plugin \<notin> set (accepted HConpot)"
    using assms(2) by auto
  with assms(1,3) show ?thesis
    unfolding accepted.simps by (auto simp: handle_honeytrap_action_def handle_conpot_action_def unsupported_def simp del: list.set)
qed

text \<open>Every plugin of the routing table belongs to one honeypot, and for a plugin other than the two raw
  triggers an enable or a disable runs exactly one command, over ssh on the host, port and account of
  that honeypot, whose output is the result; the raw triggers \<open>honeytrap\<close> and \<open>conpot\<close> are always
  refused without a command.\<close>

theorem commands_reach_their_honeypot:
  assumes "PLUGIN_HANDLER_MAP plugin = Some (hp, h)" and "creds hp = Some (user, password)"
    and "act \<in> {''enable_plugin'', ''disable_plugin''}"
  shows "if plugin \<in> {''honeytrap'', ''conpot''}
    then \<exists>msg. run_handler h creds run (Some act) plugin = Inr (False, msg, ''N/A'')
    else \<exists>cmd. run_handler h creds run (Some act) plugin =
           (case ssh_exec run (the (HONEYPOT_HOSTS hp)) user password cmd (the (HONEYPOT_PORTS hp)) of
              (success, output) \<Rightarrow> Inr (success, output, cmd))"
proof -
  have "honeypot_of h \<in> {''cowrie'', ''honeypy'', ''honeytrap'', ''conpot'', ''nodepot-lite''}" by (cases h) simp_all
  then have c: "get_creds creds (honeypot_of h) =
      Inr (the (HONEYPOT_HOSTS hp), user, password, the (HONEYPOT_PORTS hp))"
    using get_creds_Inr [of "honeypot_of h" creds user password] assms(2) handler_map_cases(1) [OF assms(1)]
    by (simp del: insert_iff)
  show ?thesis
  proof (cases "plugin \<in> {''honeytrap'', ''conpot''}")
    case True
    with handler_map_cases(2) [OF assms(1)] have "h \<in> {HHoneytrap, HConpot}" by presburger
    with raw_refused [OF c True] True show ?thesis by presburger
  next
    case False
    with handler_map_cases(2) [OF assms(1)] have "plugin \<in> set (accepted h)" by presburger
    from handler_runs [OF c this assms(3)] False show ?thesis unfolding run_cmd_def prod.case by presburger
  qed
qed

definition demo_creds :: credentials where
  "demo_creds hp = Some (''user'', ''pw'')"

theorem commands_reach_their_honeypot_witness:
  "PLUGIN_HANDLER_MAP ''http'' = Some (''conpot'', HConpot) \<and>
   (\<exists>cmd. run_handler HConpot demo_creds (\<lambda>_. Done 1 [] ''refused'') (Some ''disable_plugin'') ''http'' =
      Inr (True, ''refused'', cmd))"
proof -
  have m: "PLUGIN_HANDLER_MAP ''http'' = Some (''conpot'', HConpot)" by code_simp
  have s: "strip ''refused'' = ''refused''" "strip [] = []" by code_simp+
  have "demo_creds ''conpot'' = Some (''user'', ''pw'')" by (simp add: demo_creds_def)
  from commands_reach_their_honeypot [of "''http''" "''conpot''" HConpot demo_creds "''user''" "''pw''" "''disable_plugin''"
      "\<lambda>_. Done 1 [] ''refused''", OF m this] m
  show ?thesis by (simp add: ssh_exec_def s)
qed

text \<open>The logged success flag: after a finished process it is true exactly when the output names no
  error keyword, whatever the exit code; after an exception it is false.\<close>

theorem success_flag_ignores_exit_code:
  "le_success (log_action t hp plugin act cmd (snd (ssh_exec run ip u pw cmd port)) (fst (ssh_exec run ip u pw cmd port)) i) =
     (case run (ssh_argv ip u pw cmd port) of
        Done returncode stdout stderr \<Rightarrow>
          list_all (\<lambda>k. \<not> contains (lower k) (lower (if strip stdout \<noteq> [] then strip stdout else strip stderr))) error_keywords
      | Raised e \<Rightarrow> False)"
  by (simp add: log_action_def Let_def ssh_exec_def list_ex_iff list_all_iff split: outcome.splits)

text \<open>For Cowrie, ssh and telnet are one switch: every action on one runs the command of the other.\<close>

lemma ssh_telnet_share_switch:
  "PLUGIN_HANDLER_MAP ''ssh'' = PLUGIN_HANDLER_MAP ''telnet'' \<and>
   handle_cowrie_action creds run act ''ssh'' = handle_cowrie_action creds run act ''telnet''"
proof -
  have "PLUGIN_HANDLER_MAP ''ssh'' = PLUGIN_HANDLER_MAP ''telnet''" by code_simp
  then show ?thesis by (simp add: handle_cowrie_action_def)
qed

section \<open>One poll\<close>

definition supported :: "adoc \<Rightarrow> bool" where
  "supported d \<longleftrightarrow> (\<exists>plugin. a_plugin d = Some plugin \<and> PLUGIN_HANDLER_MAP plugin \<noteq> None)"

lemma apply_action_unsupported: "\<not> supported d \<Longrightarrow> apply_action mark creds run t d s = Inr s"
  by (auto simp: apply_action_def supported_def split: option.splits)

text \<open>What a log entry has to do with the document it was written for.\<close>

definition entry_for :: "log_entry \<Rightarrow> adoc \<Rightarrow> bool" where
  "entry_for e d \<longleftrightarrow> le_action_id e = a_id d \<and> a_plugin d = Some (le_plugin e) \<and> le_action e = a_action d \<and>
     le_time e - 120 \<le> a_created d \<and>
     (\<exists>h. PLUGIN_HANDLER_MAP (le_plugin e) = Some (le_honeypot e, h))"

lemma apply_action_supported:
  assumes "apply_action mark creds run t d s = Inr s'" and "supported d" and "t - 120 \<le> a_created d"
  obtains e where "s' = s\<lparr>ac_queue := mark (a_id d) t (ac_queue s), ac_log := ac_log s @ [e]\<rparr>" and "entry_for e d"
    and "le_time e = t"
proof -
  from assms(2) obtain plugin hp h where p: "a_plugin d = Some plugin" "PLUGIN_HANDLER_MAP plugin = Some (hp, h)"
    by (auto simp: supported_def)
  with assms(1) obtain success out cmd where
    "s' = s\<lparr>ac_queue := mark (a_id d) t (ac_queue s),
            ac_log := ac_log s @ [log_action t hp plugin (a_action d) cmd out success (a_id d)]\<rparr>"
    by (auto simp: apply_action_def)
  moreover have "entry_for (log_action t hp plugin (a_action d) cmd out success (a_id d)) d"
    using p assms(3) by (simp add: entry_for_def log_action_def Let_def)
  ultimately show ?thesis
    by (rule that) (simp add: log_action_def Let_def)
qed

lemma apply_action_returns:
  assumes "has_creds creds"
  shows "\<exists>s'. apply_action mark creds run t d s = Inr s'"
proof (cases "supported d")
  case True
  then obtain plugin hp h where p: "a_plugin d = Some plugin" "PLUGIN_HANDLER_MAP plugin = Some (hp, h)"
    by (auto simp: supported_def)
  obtain r where "run_handler h creds run (a_action d) plugin = Inr r"
    using run_handler_total [OF assms] by blast
  with p show ?thesis by (cases r) (simp add: apply_action_def)
qed (simp add: apply_action_unsupported)

text \<open>A poll that returns leaves the queue alone, or carries out the newest pending document.\<close>

inductive polled :: "('c \<Rightarrow> adoc list) \<Rightarrow> 'c marker \<Rightarrow> int \<Rightarrow> 'c actuator \<Rightarrow> 'c actuator \<Rightarrow> bool"
  for docs :: "'c \<Rightarrow> adoc list" and mark :: "'c marker" and now :: int where
  idle: "s' = s\<lparr>ac_last := l\<rparr> \<Longrightarrow> polled docs mark now s s'"
| carried: "d \<in> set (docs (ac_queue s)) \<Longrightarrow> pending (now - 120) d \<Longrightarrow>
    \<forall>e \<in> set (docs (ac_queue s)). pending (now - 120) e \<longrightarrow> a_id e \<le> a_id d \<Longrightarrow>
    entry_for e d \<Longrightarrow> le_time e = now \<Longrightarrow>
    s' = s\<lparr>ac_last := Some (a_id d), ac_queue := mark (a_id d) now (ac_queue s), ac_log := ac_log s @ [e]\<rparr> \<Longrightarrow>
    polled docs mark now s s'"

context action_queue
begin

lemma watch_step_polled:
  assumes "watch_step find_latest mark creds run now s = Inr s'"
  shows "polled docs mark now s s'"
proof (cases "find_latest (now - 120) (ac_queue s)")
  case None
  with assms have "s' = s\<lparr>ac_last := ac_last s\<rparr>" by (simp add: watch_step_def)
  then show ?thesis by (rule idle)
next
  case (Some d)
  note d = find_latest_Some [OF Some]
  show ?thesis
  proof (cases "Some (a_id d) = ac_last s \<or> \<not> supported d")
    case True
    with assms Some have "s' = s\<lparr>ac_last := Some (a_id d)\<rparr>"
      by (auto simp: watch_step_def apply_action_unsupported split: if_splits)
    then show ?thesis by (rule idle)
  next
    case False
    with assms Some have "apply_action mark creds (run (a_id d)) now d (s\<lparr>ac_last := Some (a_id d)\<rparr>) = Inr s'"
      by (auto simp: watch_step_def)
    from apply_action_supported [OF this] False d obtain e where
      "s' = s\<lparr>ac_last := Some (a_id d), ac_queue := mark (a_id d) now (ac_queue s), ac_log := ac_log s @ [e]\<rparr>"
      "entry_for e d" "le_time e = now"
      by (auto simp: pending_def)
    with d show ?thesis by (intro carried [of d]) auto
  qed
qed

text \<open>The invariant of a run: every log entry belongs to a processed document of the collection, and no two
  to the same one.\<close>

definition log_ok :: "'c actuator \<Rightarrow> bool" where
  "log_ok s \<longleftrightarrow> distinct (map a_id (docs (ac_queue s))) \<and> distinct (map le_action_id (ac_log s)) \<and>
     (\<forall>e \<in> set (ac_log s). \<exists>d \<in> set (docs (ac_queue s)). a_processed d \<and> entry_for e d)"

lemma log_ok_polled: "polled docs mark now s s' \<Longrightarrow> log_ok s \<Longrightarrow> log_ok s'"
proof (induction rule: polled.cases)
  case (idle s' s l)
  then show ?case by (simp add: log_ok_def)
next
  case (carried d s e s')
  have ids: "map a_id (docs (ac_queue s')) = map a_id (docs (ac_queue s))"
    using carried by simp
  have fresh: "le_action_id e \<notin> le_action_id ` set (ac_log s)"
  proof
    assume "le_action_id e \<in> le_action_id ` set (ac_log s)"
    then obtain e' where e': "e' \<in> set (ac_log s)" "le_action_id e' = a_id d"
      using carried by (auto simp: entry_for_def)
    with carried obtain d' where "d' \<in> set (docs (ac_queue s))" "a_processed d'" "a_id d' = a_id d"
      by (fastforce simp: log_ok_def entry_for_def)
    moreover have "inj_on a_id (set (docs (ac_queue s)))"
      using carried by (simp add: log_ok_def distinct_map)
    ultimately have "d' = d" using carried by (auto dest: inj_onD)
    with carried \<open>a_processed d'\<close> show False by (simp add: pending_def)
  qed
  have old: "\<exists>d' \<in> set (docs (ac_queue s')). a_processed d' \<and> entry_for e' d'" if "e' \<in> set (ac_log s)" for e'
  proof -
    from that carried obtain d' where "d' \<in> set (docs (ac_queue s))" "a_processed d'" "entry_for e' d'"
      by (auto simp: log_ok_def)
    then show ?thesis using carried by (intro bexI [of _ "mark_doc (a_id d) d'"]) (auto simp: entry_for_def)
  qed
  have "\<exists>d' \<in> set (docs (ac_queue s')). a_processed d' \<and> entry_for e d'"
    using carried by (intro bexI [of _ "mark_doc (a_id d) d"]) (auto simp: entry_for_def)
  with old fresh ids carried show ?case by (auto simp: log_ok_def)
qed

lemma ids_polled: "polled docs mark now s s' \<Longrightarrow> map a_id (docs (ac_queue s')) = map a_id (docs (ac_queue s))"
  by (induction rule: polled.cases) (simp_all add: o_def)

lemma log_ok_run:
  "watch_run find_latest mark ins creds run rounds s = Inr s' \<Longrightarrow> log_ok s \<Longrightarrow>
   distinct (map a_id (docs (ac_queue s) @ concat (map snd rounds))) \<Longrightarrow> log_ok s'"
proof (induction rounds arbitrary: s)
  case Nil
  then show ?case by simp
next
  case (Cons r rounds)
  obtain now new where r: "r = (now, new)" by (cases r)
  let ?s = "s\<lparr>ac_queue := ins new (ac_queue s)\<rparr>"
  from Cons.prems r obtain s1 where s1: "watch_step find_latest mark creds run now ?s = Inr s1"
    and rest: "watch_run find_latest mark ins creds run rounds s1 = Inr s'"
    by auto
  have "log_ok ?s" using Cons.prems r by (auto simp: log_ok_def)
  note p = watch_step_polled [OF s1]
  have "map a_id (docs (ac_queue s1)) = map a_id (docs (ac_queue s) @ new)" using ids_polled [OF p] by simp
  then have "distinct (map a_id (docs (ac_queue s1) @ concat (map snd rounds)))"
    using Cons.prems(3) unfolding r map_append by simp
  with Cons.IH [OF rest log_ok_polled [OF p \<open>log_ok ?s\<close>]] show ?case by blast
qed

end


definition demo_adoc :: "nat \<Rightarrow> string \<Rightarrow> string \<Rightarrow> adoc" where
  "demo_adoc i plugin act = \<lparr>a_id = i, a_plugin = Some plugin, a_action = Some act, a_processed = False, a_created = 100\<rparr>"

definition demo_runner :: "nat \<Rightarrow> runner" where
  "demo_runner i argv = Done 0 ''ok'' []"




section \<open>Stuck and drained queues\<close>

lemma sorted_list_of_set_Max:
  assumes "finite A" and "A \<noteq> {}"
  shows "sorted_list_of_set A = sorted_list_of_set (A - {Max A}) @ [Max (A::nat set)]"
proof (rule sorted_distinct_set_unique)
  show "sorted (sorted_list_of_set (A - {Max A}) @ [Max A])"
    using assms by (simp add: sorted_append)
qed (use assms Max_in [OF assms] in \<open>auto intro: Max_in\<close>)

context action_queue
begin

lemma find_latest_top:
  assumes "d \<in> set (docs c)" and "pending t d" and "distinct (map a_id (docs c))"
    and "\<And>e. e \<in> set (docs c) \<Longrightarrow> pending t e \<Longrightarrow> a_id e \<le> a_id d"
  shows "find_latest t c = Some d"
proof (cases "find_latest t c")
  case None
  with find_latest_None assms show ?thesis by blast
next
  case (Some x)
  note x = find_latest_Some [OF this]
  with assms have "a_id x = a_id d" by (metis le_antisym)
  moreover have "inj_on a_id (set (docs c))" using assms(3) by (simp add: distinct_map)
  ultimately show ?thesis using x assms(1) Some by (auto dest: inj_onD)
qed

lemma stuck_run:
  assumes "d \<in> set (docs (ac_queue s))" and "\<not> a_processed d" and "\<not> supported d"
    and "distinct (map a_id (docs (ac_queue s)))" and "\<forall>e \<in> set (docs (ac_queue s)). a_id e \<le> a_id d"
    and "\<forall>t \<in> set ts. t \<le> a_created d + 120"
  shows "\<exists>s'. watch_run find_latest mark ins creds run (map (\<lambda>t. (t, [])) ts) s = Inr s' \<and>
     docs (ac_queue s') = docs (ac_queue s) \<and> ac_log s' = ac_log s"
  using assms
proof (induction ts arbitrary: s)
  case Nil
  then show ?case by simp
next
  case (Cons t ts)
  let ?s = "s\<lparr>ac_queue := ins [] (ac_queue s)\<rparr>"
  have "find_latest (t - 120) (ins [] (ac_queue s)) = Some d"
    using Cons.prems by (intro find_latest_top) (auto simp: pending_def)
  then have "\<exists>l. watch_step find_latest mark creds run t ?s = Inr (?s\<lparr>ac_last := l\<rparr>)"
    using Cons.prems(3) by (auto simp: watch_step_def apply_action_unsupported intro: exI [of _ "ac_last s"])
  then obtain l where l: "watch_step find_latest mark creds run t ?s = Inr (?s\<lparr>ac_last := l\<rparr>)" by blast
  obtain s' where "watch_run find_latest mark ins creds run (map (\<lambda>t. (t, [])) ts) (?s\<lparr>ac_last := l\<rparr>) = Inr s'"
    "docs (ac_queue s') = docs (ac_queue s)" "ac_log s' = ac_log s"
    using Cons.IH [of "?s\<lparr>ac_last := l\<rparr>"] Cons.prems by auto
  with l show ?case by auto
qed

abbreviation pending_ids :: "'c \<Rightarrow> nat set" where
  "pending_ids c \<equiv> a_id ` {d \<in> set (docs c). \<not> a_processed d}"

lemma pending_ids_mark: "pending_ids (mark i t c) = pending_ids c - {i}"
proof -
  have "{d \<in> set (docs (mark i t c)). \<not> a_processed d} = {d \<in> set (docs c). \<not> a_processed d \<and> a_id d \<noteq> i}"
    by (auto simp: mark_doc_def image_iff)
  then show ?thesis by auto
qed

lemma pending_ids_ins [simp]: "pending_ids (ins [] c) = pending_ids c"
  by simp

text \<open>A queue of supported documents, all young enough, is drained newest first, one per poll.\<close>

lemma drain_run:
  assumes "has_creds creds" and "distinct (map a_id (docs (ac_queue s)))"
    and "\<forall>d \<in> set (docs (ac_queue s)). \<not> a_processed d \<longrightarrow> supported d \<and> (\<forall>t \<in> set ts. t \<le> a_created d + 120)"
    and "length ts = card (pending_ids (ac_queue s))"
    and "\<forall>i. ac_last s = Some i \<longrightarrow> i \<notin> pending_ids (ac_queue s)"
  shows "\<exists>s'. watch_run find_latest mark ins creds run (map (\<lambda>t. (t, [])) ts) s = Inr s' \<and>
     pending_ids (ac_queue s') = {} \<and>
     map le_action_id (ac_log s') = map le_action_id (ac_log s) @ rev (sorted_list_of_set (pending_ids (ac_queue s)))"
  using assms(2-)
proof (induction ts arbitrary: s)
  case Nil
  then have "pending_ids (ac_queue s) = {}" by simp
  then show ?case by simp
next
  case (Cons t ts)
  let ?s = "s\<lparr>ac_queue := ins [] (ac_queue s)\<rparr>"
  let ?P = "pending_ids (ac_queue s)"
  have P: "finite ?P" "?P \<noteq> {}" using Cons.prems(3) by (simp, metis card.empty length_Cons nat.distinct(1))
  from Max_in [OF P] obtain d where d: "d \<in> set (docs (ac_queue s))" "\<not> a_processed d" "a_id d = Max ?P" by auto
  have top: "a_id e \<le> a_id d" if "e \<in> set (docs (ac_queue s))" "\<not> a_processed e" for e
    using that Max_ge [OF P(1), of "a_id e"] d(3) by auto
  have "find_latest (t - 120) (ins [] (ac_queue s)) = Some d"
    using d top Cons.prems(1,2) by (intro find_latest_top) (auto simp: pending_def)
  moreover have "ac_last s \<noteq> Some (a_id d)" using Cons.prems(4) d by blast
  moreover obtain s1 where s1: "apply_action mark creds (run (a_id d)) t d (?s\<lparr>ac_last := Some (a_id d)\<rparr>) = Inr s1"
    using apply_action_returns [OF assms(1)] by blast
  ultimately have step: "watch_step find_latest mark creds run t ?s = Inr s1" by (simp add: watch_step_def)
  have "supported d" "t - 120 \<le> a_created d" using d Cons.prems(2) by auto
  from apply_action_supported [OF s1 this] obtain e where
    s1': "s1 = s\<lparr>ac_last := Some (a_id d), ac_queue := mark (a_id d) t (ins [] (ac_queue s)), ac_log := ac_log s @ [e]\<rparr>"
    and e: "le_action_id e = a_id d"
    by (auto simp: entry_for_def)
  have pend1: "pending_ids (ac_queue s1) = ?P - {a_id d}" by (simp add: s1' pending_ids_mark del: docs_mark)
  have "length ts = card (pending_ids (ac_queue s1))"
    unfolding pend1 using Cons.prems(3) P Max_in [OF P] d(3) by simp
  moreover have "\<forall>d' \<in> set (docs (ac_queue s1)). \<not> a_processed d' \<longrightarrow> supported d' \<and> (\<forall>t \<in> set ts. t \<le> a_created d' + 120)"
    using Cons.prems(2) by (auto simp: s1' supported_def)
  moreover have "distinct (map a_id (docs (ac_queue s1)))" using Cons.prems(1) by (simp add: s1')
  moreover have "\<forall>i. ac_last s1 = Some i \<longrightarrow> i \<notin> pending_ids (ac_queue s1)" unfolding pend1 by (simp add: s1')
  ultimately obtain s' where s': "watch_run find_latest mark ins creds run (map (\<lambda>t. (t, [])) ts) s1 = Inr s'"
    "pending_ids (ac_queue s') = {}"
    "map le_action_id (ac_log s') = map le_action_id (ac_log s1) @ rev (sorted_list_of_set (?P - {a_id d}))"
    using Cons.IH [of s1] unfolding pend1 by blast
  moreover have "rev (sorted_list_of_set ?P) = a_id d # rev (sorted_list_of_set (?P - {a_id d}))"
    using sorted_list_of_set_Max [OF P] d(3) by simp
  ultimately show ?case using step e by (intro exI [of _ s']) (simp add: s1')
qed

end

text \<open>An unsupported action blocks the queue: as long as it is the newest document and younger than two
  minutes, no poll carries out anything, whatever supported actions wait behind it.\<close>

theorem unsupported_head_blocks:
  assumes "action_queue docs find_latest mark ins"
    and "d \<in> set (docs (ac_queue s))" and "\<not> a_processed d"
    and "\<forall>plugin. a_plugin d = Some plugin \<longrightarrow> PLUGIN_HANDLER_MAP plugin = None"
    and "distinct (map a_id (docs (ac_queue s)))" and "\<forall>e \<in> set (docs (ac_queue s)). a_id e \<le> a_id d"
    and "\<forall>t \<in> set ts. t \<le> a_created d + 120"
  shows "\<exists>s'. watch_run find_latest mark ins creds run (map (\<lambda>t. (t, [])) ts) s = Inr s' \<and>
     docs (ac_queue s') = docs (ac_queue s) \<and> ac_log s' = ac_log s"
  by (rule action_queue.stuck_run [OF assms(1,2,3) _ assms(5,6,7)]) (use assms(4) in \<open>auto simp: supported_def\<close>)

abbreviation stuck_queue :: "adoc list actuator" where
  "stuck_queue \<equiv> actuator_init [demo_adoc 0 ''ftp'' ''disable_plugin'', demo_adoc 1 ''smtp'' ''disable_plugin'']"

theorem unsupported_head_blocks_witness:
  "\<exists>s'. watch_run list_latest list_mark list_ins demo_creds demo_runner (map (\<lambda>t. (t, [])) [100, 110, 120]) stuck_queue = Inr s' \<and>
     ac_log s' = []"
proof -
  let ?d = "demo_adoc 1 ''smtp'' ''disable_plugin''"
  have "PLUGIN_HANDLER_MAP ''smtp'' = None" by code_simp
  then have "\<exists>s'. watch_run list_latest list_mark list_ins demo_creds demo_runner (map (\<lambda>t. (t, [])) [100, 110, 120]) stuck_queue = Inr s' \<and>
     ac_queue s' = ac_queue stuck_queue \<and> ac_log s' = ac_log stuck_queue"
    by (intro unsupported_head_blocks [OF list_queue.action_queue_axioms, of ?d])
      (simp_all add: actuator_init_def demo_adoc_def)
  then show ?thesis by (auto simp only: actuator_init_def actuator.simps)
qed

text \<open>Pending supported actions younger than two minutes are all carried out, one per poll, the newest
  first: after as many polls as there are, none is pending and the log names them by descending id.\<close>

theorem queue_drains_newest_first:
  assumes "action_queue docs find_latest mark ins"
    and "has_creds creds" and "distinct (map a_id (docs c))"
    and "\<forall>d \<in> set (docs c). \<not> a_processed d \<longrightarrow>
       (\<exists>plugin. a_plugin d = Some plugin \<and> PLUGIN_HANDLER_MAP plugin \<noteq> None) \<and> (\<forall>t \<in> set ts. t \<le> a_created d + 120)"
    and "length ts = card (a_id ` {d \<in> set (docs c). \<not> a_processed d})"
  shows "\<exists>s. watch_run find_latest mark ins creds run (map (\<lambda>t. (t, [])) ts) (actuator_init c) = Inr s \<and>
     (\<forall>d \<in> set (docs (ac_queue s)). a_processed d) \<and>
     map le_action_id (ac_log s) = rev (sorted_list_of_set (a_id ` {d \<in> set (docs c). \<not> a_processed d}))"
  using action_queue.drain_run [OF assms(1,2), of "actuator_init c" ts run] assms(3-)
  by (auto simp: actuator_init_def supported_def)

theorem queue_drains_newest_first_witness:
  "\<exists>s. watch_run list_latest list_mark list_ins demo_creds demo_runner (map (\<lambda>t. (t, [])) [110, 120])
       (actuator_init [demo_adoc 0 ''ftp'' ''disable_plugin'', demo_adoc 1 ''http'' ''disable_plugin'']) = Inr s \<and>
     map le_action_id (ac_log s) = [1, 0]"
proof -
  let ?c = "[demo_adoc 0 ''ftp'' ''disable_plugin'', demo_adoc 1 ''http'' ''disable_plugin'']"
  have m: "PLUGIN_HANDLER_MAP ''ftp'' \<noteq> None" "PLUGIN_HANDLER_MAP ''http'' \<noteq> None" by code_simp+
  have "has_creds demo_creds" by (simp add: has_creds_def demo_creds_def)
  moreover have "{d \<in> set ?c. \<not> a_processed d} = set ?c" by (auto simp: demo_adoc_def)
  then have ids: "a_id ` {d \<in> set ?c. \<not> a_processed d} = {0, 1}" by (simp add: demo_adoc_def)
  from calculation have "\<exists>s. watch_run list_latest list_mark list_ins demo_creds demo_runner (map (\<lambda>t. (t, [])) [110, 120]) (actuator_init ?c) = Inr s \<and>
     (\<forall>d \<in> set (ac_queue s). a_processed d) \<and>
     map le_action_id (ac_log s) = rev (sorted_list_of_set (a_id ` {d \<in> set ?c. \<not> a_processed d}))"
    using m ids by (intro queue_drains_newest_first [OF list_queue.action_queue_axioms]) (auto simp: demo_adoc_def)
  moreover have "rev (sorted_list_of_set {0, 1}) = [1, 0 :: nat]" by code_simp
  ultimately show ?thesis unfolding ids by auto
qed

end
