(* ===== verification/ControlLoop.thy ===== *)
theory ControlLoop
  imports PredictorFacts ActuatorFacts NormLoopFacts
begin

text \<open>
  Properties that span the agent's components: what the predictor decides reaches the honeypots
  through the action collection, and the signals of the environment that no tagger ever produces.
\<close>

section \<open>From a decision to the honeypots\<close>

text \<open>The action documents as the actuator reads them back, numbered in insertion order.\<close>

definition to_adoc :: "nat \<Rightarrow> action_doc \<Rightarrow> adoc" where
  "to_adoc i a = \<lparr>a_id = i, a_plugin = Some (sel_plugin (ad_selected a)), a_action = Some (sel_action (ad_selected a)),
     a_processed = ad_processed a, a_created = ad_created a\<rparr>"

definition to_queue :: "action_doc list \<Rightarrow> adoc list" where
  "to_queue acts = map (\<lambda>i. to_adoc i (acts ! i)) [0..<length acts]"

definition core :: "adoc \<Rightarrow> nat \<times> string option \<times> string option \<times> int" where
  "core d = (a_id d, a_plugin d, a_action d, a_created d)"

lemma core_mark_doc [simp]: "core \<circ> mark_doc i = core"
  by (auto simp: core_def)

context action_queue
begin

lemma core_run:
  "watch_run find_latest mark ins creds run rounds s = Inr s' \<Longrightarrow>
   map core (docs (ac_queue s')) = map core (docs (ac_queue s) @ concat (map snd rounds))"
proof (induction rounds arbitrary: s)
  case Nil
  then show ?case by simp
next
  case (Cons r rounds)
  obtain now new where r: "r = (now, new)" by (cases r)
  let ?s = "s\<lparr>ac_queue := ins new (ac_queue s)\<rparr>"
  from Cons.prems r obtain s1 where s1: "watch_step find_latest mark creds run now ?s = Inr s1"
    and rest: "watch_run find_latest mark ins creds run rounds s1 = Inr s'"
    by auto
  from watch_step_polled [OF s1] have "map core (docs (ac_queue s1)) = map core (docs (ac_queue s) @ new)"
    by cases simp_all
  with Cons.IH [OF rest] show ?case by (simp add: r)
qed

lemma log_of_queue:
  assumes "log_ok s" and "map core (docs (ac_queue s)) = map core (to_queue acts)"
    and "map le_action_id (ac_log s) = rev [0..<length acts]"
  shows "map (\<lambda>e. (le_plugin e, le_action e)) (ac_log s) =
     rev (map (\<lambda>a. (sel_plugin (ad_selected a), Some (sel_action (ad_selected a)))) acts)"
proof (rule nth_equalityI)
  have len: "length (ac_log s) = length acts" using arg_cong [OF assms(3), of length] by simp
  then show "length (map (\<lambda>e. (le_plugin e, le_action e)) (ac_log s)) =
      length (rev (map (\<lambda>a. (sel_plugin (ad_selected a), Some (sel_action (ad_selected a)))) acts))"
    by simp
  fix k
  assume "k < length (map (\<lambda>e. (le_plugin e, le_action e)) (ac_log s))"
  then have k: "k < length acts" using len by simp
  let ?i = "length acts - Suc k"
  have "le_action_id (ac_log s ! k) = map le_action_id (ac_log s) ! k" using k len by simp
  also have "\<dots> = ?i" using k by (simp add: assms(3) rev_nth)
  finally have "le_action_id (ac_log s ! k) = ?i" .
  moreover have "ac_log s ! k \<in> set (ac_log s)" using k len by simp
  then obtain d where d: "d \<in> set (docs (ac_queue s))" "entry_for (ac_log s ! k) d"
    using assms(1) unfolding log_ok_def by blast
  ultimately have "a_id d = ?i" by (simp add: entry_for_def)
  from d(1) have "core d \<in> set (map core (to_queue acts))" using assms(2) by (metis image_eqI set_map)
  then obtain j where "j < length acts" "core d = core (to_adoc j (acts ! j))"
    by (auto simp: to_queue_def)
  with \<open>a_id d = ?i\<close> d(2) have "(le_plugin (ac_log s ! k), le_action (ac_log s ! k)) =
      (sel_plugin (ad_selected (acts ! ?i)), Some (sel_action (ad_selected (acts ! ?i))))"
    by (auto simp: core_def to_adoc_def entry_for_def)
  with k len show "map (\<lambda>e. (le_plugin e, le_action e)) (ac_log s) ! k =
      rev (map (\<lambda>a. (sel_plugin (ad_selected a), Some (sel_action (ad_selected a)))) acts) ! k"
    by (simp add: rev_nth)
qed

end

lemma plugin_map_supported: "p \<in> set plugin_map \<Longrightarrow> PLUGIN_HANDLER_MAP p \<noteq> None"
proof -
  have "list_all (\<lambda>p. PLUGIN_HANDLER_MAP p \<noteq> None) plugin_map" by code_simp
  then show "p \<in> set plugin_map \<Longrightarrow> PLUGIN_HANDLER_MAP p \<noteq> None" by (simp add: list_all_iff)
qed

text \<open>C13. Decisions reach the honeypots: the actions that a first predicting round inserts are all carried
  out, in reverse order of their insertion (so telnet before ssh), and none stays pending, when there are
  credentials for every plugin, the queue holds these actions and nothing else is inserted, and the
  actuator polls exactly once per action, each time at most 120 seconds after the round.\<close>

theorem decisions_reach_honeypots:
  assumes "plugin_store find_status upsert" and "action_queue docs find_latest mark ins" and "has_creds creds"
    and "predictor_round find_status upsert since_logs recent predict w p = Inr p'" and "pr_actions p = []"
    and "fst (check_for_attacker_activity DEMO_MODE (since_logs (pr_last_check p) (ri_check w)))"
    and "docs c = to_queue (pr_actions p')" and "length ts = length (pr_actions p')"
    and "\<forall>t \<in> set ts. t \<le> ri_now w + 120"
  shows "\<exists>s. watch_run find_latest mark ins creds run (map (\<lambda>t. (t, [])) ts) (actuator_init c) = Inr s \<and>
     (\<forall>d \<in> set (docs (ac_queue s)). a_processed d) \<and>
     map (\<lambda>e. (le_plugin e, le_action e)) (ac_log s) =
       rev (map (\<lambda>a. (sel_plugin (ad_selected a), Some (sel_action (ad_selected a)))) (pr_actions p'))"
proof -
  note r = plugin_store.round_applies [OF assms(1,4,6) refl]
  have inserted: "\<not> ad_processed a \<and> ad_created a = ri_now w \<and> sel_plugin (ad_selected a) \<in> set plugin_map"
    if "a \<in> set (pr_actions p')" for a
    using that r(1) assms(5) length_plugin_map unfolding r(4) by (auto simp: act_doc_def)
  have docs: "\<not> a_processed d \<and> supported d \<and> a_created d = ri_now w" if "d \<in> set (docs c)" for d
    using that inserted plugin_map_supported
    by (fastforce simp: assms(7) to_queue_def to_adoc_def supported_def)
  have ids: "map a_id (docs c) = [0..<length (pr_actions p')]"
    by (rule nth_equalityI) (simp_all add: assms(7) to_queue_def to_adoc_def)
  have "{d \<in> set (docs c). \<not> a_processed d} = set (docs c)" using docs by blast
  then have pend: "a_id ` {d \<in> set (docs c). \<not> a_processed d} = {0..<length (pr_actions p')}"
    using arg_cong [OF ids, of set] by simp
  obtain s where s: "watch_run find_latest mark ins creds run (map (\<lambda>t. (t, [])) ts) (actuator_init c) = Inr s"
    "a_id ` {d \<in> set (docs (ac_queue s)). \<not> a_processed d} = {}"
    "map le_action_id (ac_log s) = rev (sorted_list_of_set {0..<length (pr_actions p')})"
    using action_queue.drain_run [OF assms(2,3), of "actuator_init c" ts run] ids docs pend assms(8,9)
    by (auto simp: actuator_init_def)
  have no_new: "concat (map snd (map (\<lambda>t. (t, [])) ts)) = ([] :: adoc list)" by (induction ts) simp_all
  have "action_queue.log_ok docs (actuator_init c)"
    using ids by (simp add: action_queue.log_ok_def [OF assms(2)] actuator_init_def)
  then have "action_queue.log_ok docs s"
    using action_queue.log_ok_run [OF assms(2) s(1)] ids unfolding no_new by (simp add: actuator_init_def)
  moreover have "map core (docs (ac_queue s)) = map core (to_queue (pr_actions p'))"
    using action_queue.core_run [OF assms(2) s(1)] unfolding no_new by (simp add: assms(7) actuator_init_def)
  ultimately have "map (\<lambda>e. (le_plugin e, le_action e)) (ac_log s) =
      rev (map (\<lambda>a. (sel_plugin (ad_selected a), Some (sel_action (ad_selected a)))) (pr_actions p'))"
    using action_queue.log_of_queue [OF assms(2)] s(3) by simp
  with s show ?thesis by blast
qed

theorem decisions_reach_honeypots_witness:
  "\<exists>p' s. demo_step 110 (predictor_init [] 100) = Inr p' \<and>
     watch_run list_latest list_mark list_ins demo_creds demo_runner
       (map (\<lambda>t. (t, [])) (replicate (length (pr_actions p')) 115)) (actuator_init (to_queue (pr_actions p'))) = Inr s \<and>
     map (\<lambda>e. (le_plugin e, le_action e)) (ac_log s) =
       rev (map (\<lambda>a. (sel_plugin (ad_selected a), Some (sel_action (ad_selected a)))) (pr_actions p'))"
proof -
  obtain p' where p': "demo_step 110 (predictor_init [] 100) = Inr p'" using demo_step_returns by blast
  have "has_creds demo_creds" by (simp add: has_creds_def demo_creds_def)
  moreover have "pr_actions (predictor_init [] 100) = []" by (simp add: predictor_init_def)
  moreover have "\<forall>t \<in> set (replicate (length (pr_actions p')) 115). t \<le> ri_now (demo_round 110 [demo_attack]) + 120"
    by (simp add: demo_round_def)
  ultimately show ?thesis
    using decisions_reach_honeypots [OF list_store.plugin_store_axioms list_queue.action_queue_axioms _ p' _ demo_first_active refl, of
        demo_creds "replicate (length (pr_actions p')) 115" demo_runner] p' by auto
qed

section \<open>Signals that no tagger produces\<close>

definition loop_tags :: "string list" where
  "loop_tags = [''nmap'', ''netcat'', ''libssh'', ''ssh_brute'', ''login_attempt'', ''upload'', ''sqli'',
     ''dir_traversal'', ''port_scan'']"

lemma generate_tags_known: "set (fst (generate_tags log_str ip m)) \<subseteq> set loop_tags"
  by (auto simp: generate_tags_def loop_text_tags_def loop_tags_def)

definition known_tags :: "loop_state \<Rightarrow> bool" where
  "known_tags s \<longleftrightarrow> (\<forall>r \<in> set (loop_out s). set (l_tags r) \<subseteq> set loop_tags)"

lemma normalize_log_known:
  assumes "known_tags s"
  shows "known_tags (fst (normalize_log clock coll src d s))"
proof (cases "extract_ip_port (str_of (doc_get_default d ''raw_log'' (PStr [])))")
  case (Inl e)
  with assms show ?thesis by (simp add: normalize_log_def Let_def known_tags_def)
next
  case (Inr r)
  obtain ip port where r: "r = (ip, port)" by (cases r)
  show ?thesis
  proof (cases "ip = ''unknown'' \<and> port = PStr ''unknown''")
    case True
    with assms Inr r show ?thesis by (simp add: normalize_log_def Let_def known_tags_def)
  next
    case False
    let ?g = "generate_tags (str_of (doc_get_default d ''raw_log'' (PStr []))) ip (loop_ports s)"
    have "\<exists>x. loop_out (fst (normalize_log clock coll src d s)) = loop_out s @ [x] \<and> l_tags x = fst ?g"
      using Inr r False by (cases ?g) (simp add: normalize_log_def Let_def del: de_Morgan_conj)
    then obtain x where "loop_out (fst (normalize_log clock coll src d s)) = loop_out s @ [x]" "l_tags x = fst ?g" by blast
    with assms generate_tags_known show ?thesis by (simp add: known_tags_def)
  qed
qed

lemma drain_known: "known_tags s \<Longrightarrow> drain clock coll src ds s = (s', e) \<Longrightarrow> known_tags s'"
proof (induction ds arbitrary: s)
  case (Cons d ds)
  with normalize_log_known [OF Cons.prems(1), of clock coll src d]
  show ?case by (cases "normalize_log clock coll src d s") (auto split: option.splits)
qed simp

lemma poll_known: "known_tags s \<Longrightarrow> poll find_after clock db cs s = (s', e) \<Longrightarrow> known_tags s'"
proof (induction cs arbitrary: s)
  case (Cons x cs)
  obtain coll src where x: "x = (coll, src)" by (cases x)
  obtain s1 e1 where dr: "drain clock coll src (find_after (last_ids s coll) (db coll)) s = (s1, e1)" by fastforce
  from drain_known [OF Cons.prems(1) dr] Cons.IH Cons.prems(2) dr x show ?case by (auto split: option.splits)
qed simp

lemma cycles_known: "known_tags s \<Longrightarrow> cycles find_after clock dbs s = (s', e) \<Longrightarrow> known_tags s'"
proof (induction dbs arbitrary: s)
  case (Cons db dbs)
  obtain s1 e1 where p: "poll find_after clock db loop_sources s = (s1, e1)" by fastforce
  from poll_known [OF Cons.prems(1) p] Cons.IH Cons.prems(2) p show ?case by (auto split: option.splits)
qed simp

text \<open>A record of the polling normalizer as the environment reads it back.\<close>

definition to_nlog :: "loop_rec \<Rightarrow> nlog" where
  "to_nlog r = \<lparr>nl_time = Some (l_timestamp r), nl_source = Some (l_source r), nl_ip = Some (l_ip r),
     nl_port = Some (l_port r), nl_protocol = Some (l_protocol r), nl_tags = Some (l_tags r)\<rparr>"

lemma log_tags_to_nlog [simp]: "log_tags (to_nlog r) = l_tags r"
  by (simp add: log_tags_def to_nlog_def dflt_def)

text \<open>Two components of the observation are dead: over any run of the polling normalizer, the ssh and http
  counts of an observation of its output are zero, because these are protocols and no tagger writes
  them as tags. The trigger tags \<open>brute_force\<close> and \<open>rce\<close> never occur either.\<close>

theorem dead_signals:
  "(let out = map to_nlog (loop_out (fst (cycles find_after clock dbs loop_init))) in
    get_state out ! 2 = 0 \<and> get_state out ! 3 = 0 \<and>
    filter (\<lambda>l. ''brute_force'' \<in> set (log_tags l) \<or> ''rce'' \<in> set (log_tags l)) out = [])"
proof -
  obtain s e where c: "cycles find_after clock dbs loop_init = (s, e)" by fastforce
  have "known_tags loop_init" by (simp add: known_tags_def loop_init_def)
  from cycles_known [OF this c] have k: "set (l_tags r) \<subseteq> set loop_tags" if "r \<in> set (loop_out s)" for r
    using that by (auto simp: known_tags_def)
  have none: "t \<notin> set (l_tags r)" if "r \<in> set (loop_out s)" "t \<in> {''ssh'', ''http'', ''brute_force'', ''rce''}" for t r
    using k [OF that(1)] that(2) by (auto simp: loop_tags_def)
  then show ?thesis by (simp add: c get_state_eq filter_empty_conv)
qed

end
