(* ===== verification/Forwarder.thy ===== *)
theory Forwarder
  imports Docs
begin

text \<open>
  \<open>Honeypots/nodepot-lite/nodepot_lite_mongo_forwarder.py\<close>: the worker that claims upload events,
  finds the uploaded file and submits it to the CAPE sandbox. The collection is a parameter through
  \<open>find_one_and_update\<close> (\<open>fou\<close>, sorted by ascending id, returning the updated document) and
  \<open>count_documents\<close> (\<open>count\<close>), whose filters and updates are the ones the code writes; the file
  system and the HTTP call are parameters too. Times are in minutes.
\<close>

section \<open>Configuration\<close>

record config =
  cf_uploads :: string
  cf_url :: string
  cf_priority :: string
  cf_machine :: string
  cf_options :: string
  cf_tags :: string
  cf_batch :: nat
  cf_scan :: nat
  cf_dedup :: int
  cf_lock :: int

definition default_config :: config where
  "default_config =
     \<lparr>cf_uploads = ''/home/honeypy/nodepot-lite/uploads'', cf_url = ''http://192.168.186.139:8000/apiv2'',
      cf_priority = [], cf_machine = [], cf_options = [], cf_tags = [],
      cf_batch = 10, cf_scan = 200, cf_dedup = 60, cf_lock = 10\<rparr>"

section \<open>Documents\<close>

text \<open>JSON values as the HTTP library returns them (fractions do not occur in CAPE's answers).\<close>

datatype json = JNull | JBool bool | JInt int | JStr string | JArr "json list" | JObj "(string \<times> json) list"

record fdoc =
  f_id :: nat
  f_event :: "string option"
  f_dead :: "bool option"
  f_forwarded :: "bool option"
  f_processing :: "bool option"
  f_processing_at :: "int option"
  f_timestamp :: "int option"
  f_updated :: "int option"
  f_report :: "int option"
  f_ingested :: "int option"
  f_sha :: "string option"
  f_cape_sha :: "string option"
  f_stored_as :: "string option"
  f_stored_alt :: "string option"
  f_filename :: "string option"
  f_original :: "string option"
  f_original_alt :: "string option"
  f_error :: "string option"
  f_dup_of :: "string option"
  f_task :: "json option"
  f_response :: "string option"

text \<open>\<open>a or b\<close> on optional strings: an absent or empty string is skipped.\<close>

fun first_str :: "string option list \<Rightarrow> string option" where
  "first_str [] = None"
| "first_str (v # vs) = (case v of Some (c # s) \<Rightarrow> Some (c # s) | _ \<Rightarrow> first_str vs)"

definition or_empty :: "string option \<Rightarrow> string" where
  "or_empty v = (case v of Some s \<Rightarrow> s | None \<Rightarrow> [])"

definition norm_ip :: "string option \<Rightarrow> string" where
  "norm_ip ip = (case ip of None \<Rightarrow> ''unknown'' | Some s \<Rightarrow> if s = [] then ''unknown'' else after_last ''::ffff:'' s)"

section \<open>Finding the file\<close>

text \<open>The file system: \<open>fs_list\<close> is the directory with, for every entry, whether it is a file and its
  modification time (None when listing raises); \<open>fs_sha\<close> is None when reading raises.\<close>

record fsys =
  fs_isdir :: bool
  fs_exists :: "string \<Rightarrow> bool"
  fs_list :: "(string \<times> bool \<times> int) list option"
  fs_sha :: "string \<Rightarrow> string option"

definition path_join :: "string \<Rightarrow> string \<Rightarrow> string" where
  "path_join d x =
     (if prefix ''/'' x then x else if d = [] \<or> suffix ''/'' d then d @ x else d @ ''/'' @ x)"

definition basename :: "string \<Rightarrow> string" where
  "basename p = after_last ''/'' p"

definition safe_stub :: "string \<Rightarrow> string" where
  "safe_stub s = take 50 (map (\<lambda>ch. if is_alnum ch \<or> ch \<in> set ''._-'' then ch else CHR ''_'') s)"

definition listed_files :: "config \<Rightarrow> fsys \<Rightarrow> string list" where
  "listed_files cfg fs =
     (case fs_list fs of
        None \<Rightarrow> []
      | Some xs \<Rightarrow>
          map fst (sort_key (\<lambda>(p, t). - t)
            (map (\<lambda>(x, _, t). (path_join (cf_uploads cfg) x, t)) (filter (\<lambda>(_, isfile, _). isfile) xs))))"

definition candidates :: "config \<Rightarrow> fdoc \<Rightarrow> string list" where
  "candidates cfg d =
     (let stored_as = first_str [f_stored_as d, f_stored_alt d]; want_sha = lower (or_empty (f_sha d)) in
      (case stored_as of Some s \<Rightarrow> [path_join (cf_uploads cfg) s] | None \<Rightarrow> []) @
      (if want_sha \<noteq> []
       then [path_join (cf_uploads cfg) want_sha, path_join (cf_uploads cfg) (want_sha @ ''.bin'')] else []))"

definition find_file_for_event :: "config \<Rightarrow> fsys \<Rightarrow> fdoc \<Rightarrow> string option" where
  "find_file_for_event cfg fs d =
     (if \<not> fs_isdir fs then None
      else
        (let orig_name = strip (or_empty (first_str [f_filename d, f_original d, f_original_alt d]));
             want_sha = lower (or_empty (f_sha d)) in
         case find (\<lambda>p. p \<noteq> [] \<and> fs_exists fs p) (candidates cfg d) of
           Some p \<Rightarrow> Some p
         | None \<Rightarrow>
             let files = take (cf_scan cfg) (listed_files cfg fs);
                 stub = safe_stub orig_name in
             (case (if orig_name \<noteq> [] then find (\<lambda>p. stub \<noteq> [] \<and> contains stub (basename p)) files else None) of
                Some p \<Rightarrow> Some p
              | None \<Rightarrow> if want_sha \<noteq> [] then find (\<lambda>p. fs_sha fs p = Some want_sha) files else None)))"

section \<open>Submission\<close>

fun jget :: "string \<Rightarrow> json \<Rightarrow> json option" where
  "jget k (JObj kvs) = map_of (rev kvs) k"
| "jget k _ = None"

fun jtruthy :: "json \<Rightarrow> bool" where
  "jtruthy JNull = False"
| "jtruthy (JBool b) = b"
| "jtruthy (JInt i) = (i \<noteq> 0)"
| "jtruthy (JStr s) = (s \<noteq> [])"
| "jtruthy (JArr xs) = (xs \<noteq> [])"
| "jtruthy (JObj kvs) = (kvs \<noteq> [])"

text \<open>A task id found under a key: the head of a non-empty list, or an integer (booleans are).\<close>

fun task_ids :: "json option \<Rightarrow> json option" where
  "task_ids (Some (JArr (x # xs))) = Some x"
| "task_ids (Some (JInt i)) = Some (JInt i)"
| "task_ids (Some (JBool b)) = Some (JBool b)"
| "task_ids _ = None"

definition extract_task_id :: "json \<Rightarrow> json option" where
  "extract_task_id resp =
     (case resp of
        JObj _ \<Rightarrow>
          (case (case jget ''data'' resp of Some (JObj kvs) \<Rightarrow> task_ids (jget ''task_ids'' (JObj kvs)) | _ \<Rightarrow> None) of
             Some t \<Rightarrow> Some t
           | None \<Rightarrow>
               (case task_ids (jget ''task_ids'' resp) of
                  Some t \<Rightarrow> Some t
                | None \<Rightarrow>
                    (case jget ''task_id'' resp of
                       Some (JInt i) \<Rightarrow> Some (JInt i) | Some (JBool b) \<Rightarrow> Some (JBool b) | _ \<Rightarrow> None)))
      | _ \<Rightarrow> None)"

text \<open>The answer to a post: an exception (network, status or file), or a body and, if it is JSON, its value.\<close>

datatype answer = Failed string | Answer "json option" string

type_synonym poster = "string \<Rightarrow> (string \<times> string) list \<Rightarrow> string \<times> string \<Rightarrow> answer"

definition form_data :: "config \<Rightarrow> (string \<times> string) list" where
  "form_data cfg = filter (\<lambda>(k, v). v \<noteq> [])
     [(''tags'', cf_tags cfg), (''priority'', cf_priority cfg), (''machine'', cf_machine cfg), (''options'', cf_options cfg)]"

text \<open>The submission returns the task id and the raw body, or the message of the exception; \<open>show_json\<close> is
  Python's formatting of a JSON value.\<close>

definition cape_error :: "(json \<Rightarrow> string) \<Rightarrow> json \<Rightarrow> string" where
  "cape_error show_json j =
     ''CAPE error: '' @
     (case jget ''error_value'' j of
        Some v \<Rightarrow> if jtruthy v then (case v of JStr s \<Rightarrow> s | _ \<Rightarrow> show_json v) else show_json j
      | None \<Rightarrow> show_json j)"

definition submit_to_cape :: "(json \<Rightarrow> string) \<Rightarrow> config \<Rightarrow> poster \<Rightarrow> string \<Rightarrow> string \<Rightarrow> string + (json option \<times> string)" where
  "submit_to_cape show_json cfg post path original_name =
     (case post (rstrip_char CHR ''/'' (cf_url cfg) @ ''/tasks/create/file/'') (form_data cfg)
             (if original_name \<noteq> [] then original_name else basename path, path) of
        Failed e \<Rightarrow> Inl e
      | Answer (Some j) body \<Rightarrow>
          (case jget ''error'' j of
             Some e \<Rightarrow> if jtruthy e then Inl (cape_error show_json j) else Inr (extract_task_id j, body)
           | None \<Rightarrow> Inr (extract_task_id j, body))
      | Answer None body \<Rightarrow> Inr (None, body))"

section \<open>De-duplication\<close>

definition since :: "int \<Rightarrow> int option \<Rightarrow> bool" where
  "since t v = (case v of Some x \<Rightarrow> t \<le> x | None \<Rightarrow> False)"

definition in_window :: "config \<Rightarrow> int \<Rightarrow> fdoc \<Rightarrow> bool" where
  "in_window cfg now d \<longleftrightarrow>
     cf_dedup cfg \<le> 0 \<or>
     since (now - cf_dedup cfg) (f_timestamp d) \<or> since (now - cf_dedup cfg) (f_updated d) \<or>
     since (now - cf_dedup cfg) (f_report d) \<or> since (now - cf_dedup cfg) (f_ingested d)"

definition log_query :: "config \<Rightarrow> int \<Rightarrow> string \<Rightarrow> fdoc \<Rightarrow> bool" where
  "log_query cfg now sha d \<longleftrightarrow>
     f_dead d \<noteq> Some True \<and> (f_sha d = Some sha \<or> f_cape_sha d = Some sha) \<and>
     (f_forwarded d = Some True \<or> f_processing d = Some True) \<and> in_window cfg now d"

definition result_query :: "config \<Rightarrow> int \<Rightarrow> string \<Rightarrow> fdoc \<Rightarrow> bool" where
  "result_query cfg now sha d \<longleftrightarrow> f_sha d = Some sha \<and> in_window cfg now d"

type_synonym 'c counter = "(fdoc \<Rightarrow> bool) \<Rightarrow> 'c \<Rightarrow> nat"
type_synonym 'c updater = "(fdoc \<Rightarrow> bool) \<Rightarrow> (fdoc \<Rightarrow> fdoc) \<Rightarrow> 'c \<Rightarrow> fdoc option \<times> 'c"

definition already_forwarded :: "'c counter \<Rightarrow> config \<Rightarrow> int \<Rightarrow> 'c \<Rightarrow> 'c \<Rightarrow> string \<Rightarrow> bool" where
  "already_forwarded count cfg now logs results sha \<longleftrightarrow>
     sha \<noteq> [] \<and> (0 < count (log_query cfg now sha) logs \<or> 0 < count (result_query cfg now sha) results)"

section \<open>Claiming and forwarding\<close>

text \<open>The filter is a dictionary literal with the key \<open>$or\<close> twice: the second, on \<open>processing\<close>, wins.\<close>

definition claim_filter :: "config \<Rightarrow> int \<Rightarrow> fdoc \<Rightarrow> bool" where
  "claim_filter cfg now d \<longleftrightarrow>
     f_event d = Some ''file_upload'' \<and> f_dead d \<noteq> Some True \<and>
     (f_processing d = None \<or> f_processing d = Some False \<or>
      (case f_processing_at d of Some t \<Rightarrow> t < now - cf_lock cfg | None \<Rightarrow> False))"

definition lock_doc :: "int \<Rightarrow> fdoc \<Rightarrow> fdoc" where
  "lock_doc now d = d\<lparr>f_processing := Some True, f_processing_at := Some now\<rparr>"

definition claim_next :: "'c updater \<Rightarrow> config \<Rightarrow> int \<Rightarrow> 'c \<Rightarrow> fdoc option \<times> 'c" where
  "claim_next fou cfg now c = fou (claim_filter cfg now) (lock_doc now) c"

definition mark_missing :: "config \<Rightarrow> int \<Rightarrow> fdoc \<Rightarrow> fdoc" where
  "mark_missing cfg now d = d\<lparr>f_forwarded := Some False, f_dead := Some True, f_processing := Some False,
     f_error := Some (''file not found in '' @ cf_uploads cfg), f_updated := Some now\<rparr>"

definition mark_duplicate :: "config \<Rightarrow> int \<Rightarrow> string \<Rightarrow> fdoc \<Rightarrow> fdoc" where
  "mark_duplicate cfg now sha d = d\<lparr>f_forwarded := Some False, f_dead := Some True, f_processing := Some False,
     f_dup_of := Some sha,
     f_error := Some (''dedup: sha256 '' @ sha @ '' already forwarded within '' @ show_int (cf_dedup cfg) @ ''m''),
     f_updated := Some now\<rparr>"

definition mark_forwarded :: "int \<Rightarrow> string \<Rightarrow> json option \<Rightarrow> string \<Rightarrow> fdoc \<Rightarrow> fdoc" where
  "mark_forwarded now sha task body d = d\<lparr>f_forwarded := Some True, f_processing := Some False,
     f_task := task, f_response := Some body, f_cape_sha := Some sha,
     f_updated := Some now\<rparr>"

definition mark_failed :: "int \<Rightarrow> string \<Rightarrow> fdoc \<Rightarrow> fdoc" where
  "mark_failed now e d = d\<lparr>f_forwarded := Some False, f_processing := Some False, f_error := Some e,
     f_updated := Some now\<rparr>"

definition with_id :: "nat \<Rightarrow> fdoc \<Rightarrow> bool" where
  "with_id i d \<longleftrightarrow> f_id d = i"

datatype fate = Idle | Missing | Duplicate string | Submitted "json option" | SubmitFailed

text \<open>One claim of the batch: the times are those of the claim, of the duplicate check and of the final update.\<close>

definition forward_one ::
  "'c updater \<Rightarrow> 'c counter \<Rightarrow> (json \<Rightarrow> string) \<Rightarrow> config \<Rightarrow> fsys \<Rightarrow> poster \<Rightarrow> int \<times> int \<times> int \<Rightarrow> 'c \<Rightarrow> 'c \<Rightarrow> fate \<times> 'c" where
  "forward_one fou count show_json cfg fs post tms results c =
     (case tms of (t1, t2, t3) \<Rightarrow>
       (case claim_next fou cfg t1 c of
          (None, c) \<Rightarrow> (Idle, c)
        | (Some d, c) \<Rightarrow>
            let orig_name = (case first_str [f_filename d, f_original d] of Some s \<Rightarrow> s | None \<Rightarrow> ''upload.bin'');
                logged_sha = lower (or_empty (f_sha d)) in
            (case find_file_for_event cfg fs d of
               None \<Rightarrow> (Missing, snd (fou (with_id (f_id d)) (mark_missing cfg t3) c))
             | Some path \<Rightarrow>
                 let real_sha = (case fs_sha fs path of Some s \<Rightarrow> s
                                 | None \<Rightarrow> if logged_sha \<noteq> [] then logged_sha else ''unknown'') in
                 if already_forwarded count cfg t2 c results real_sha
                 then (Duplicate real_sha, snd (fou (with_id (f_id d)) (mark_duplicate cfg t3 real_sha) c))
                 else
                   (case submit_to_cape show_json cfg post path orig_name of
                      Inl e \<Rightarrow> (SubmitFailed, snd (fou (with_id (f_id d)) (mark_failed t3 e) c))
                    | Inr (task, body) \<Rightarrow>
                        (Submitted task, snd (fou (with_id (f_id d)) (mark_forwarded t3 real_sha task body) c))))))"

text \<open>A cycle of the main loop: up to \<open>cf_batch\<close> claims, stopping when none is left; the fates in order.\<close>

fun forward_batch ::
  "'c updater \<Rightarrow> 'c counter \<Rightarrow> (json \<Rightarrow> string) \<Rightarrow> config \<Rightarrow> fsys \<Rightarrow> poster \<Rightarrow> (nat \<Rightarrow> int \<times> int \<times> int) \<Rightarrow> 'c \<Rightarrow> nat \<Rightarrow> 'c \<Rightarrow>
   fate list \<times> 'c" where
  "forward_batch fou count show_json cfg fs post tms results 0 c = ([], c)"
| "forward_batch fou count show_json cfg fs post tms results (Suc n) c =
     (case forward_one fou count show_json cfg fs post (tms n) results c of
        (Idle, c) \<Rightarrow> ([], c)
      | (fate, c) \<Rightarrow> (case forward_batch fou count show_json cfg fs post tms results n c of (fates, c) \<Rightarrow> (fate # fates, c)))"

definition forward_cycle ::
  "'c updater \<Rightarrow> 'c counter \<Rightarrow> (json \<Rightarrow> string) \<Rightarrow> config \<Rightarrow> fsys \<Rightarrow> poster \<Rightarrow> (nat \<Rightarrow> int \<times> int \<times> int) \<Rightarrow> 'c \<Rightarrow> 'c \<Rightarrow> fate list \<times> 'c" where
  "forward_cycle fou count show_json cfg fs post tms results c =
     forward_batch fou count show_json cfg fs post tms results (cf_batch cfg) c"

end
