(* ===== verification/ForwarderFacts.thy ===== *)
theory ForwarderFacts
  imports Forwarder
begin

text \<open>
  The upload forwarder over any collection that keeps the laws of \<open>upload_coll\<close>: the atomic
  \<open>find_one_and_update\<close> on the smallest matching id, and counting. Shown are the mutual exclusion of
  claims, what a pass leaves behind on every path, and two consequences of the filters as they are
  written: a fresh upload is a duplicate of itself, and a forwarded one is claimed again.
\<close>

section \<open>The collection\<close>

locale upload_coll =
  fixes docs :: "'c \<Rightarrow> fdoc list"
    and fou :: "'c updater"
    and count :: "'c counter"
  assumes fou_None: "\<forall>d \<in> set (docs c). \<not> P d \<Longrightarrow> fst (fou P u c) = None \<and> docs (snd (fou P u c)) = docs c"
    and fou_Some: "distinct (map f_id (docs c)) \<Longrightarrow> d \<in> set (docs c) \<Longrightarrow> P d \<Longrightarrow>
      \<forall>e \<in> set (docs c). P e \<longrightarrow> f_id d \<le> f_id e \<Longrightarrow>
      fst (fou P u c) = Some (u d) \<and> docs (snd (fou P u c)) = map (\<lambda>e. if f_id e = f_id d then u e else e) (docs c)"
    and count_pos: "0 < count P c \<longleftrightarrow> (\<exists>d \<in> set (docs c). P d)"

definition list_fou :: "fdoc list updater" where
  "list_fou P u c =
     (case sort_key f_id (filter P c) of
        [] \<Rightarrow> (None, c)
      | d # _ \<Rightarrow> (Some (u d), map (\<lambda>e. if f_id e = f_id d then u e else e) c))"

definition list_count :: "fdoc list counter" where
  "list_count P c = min 1 (length (filter P c))"

lemma same_id: "distinct (map f_id ds) \<Longrightarrow> d \<in> set ds \<Longrightarrow> e \<in> set ds \<Longrightarrow> f_id d = f_id e \<Longrightarrow> d = e"
  by (auto simp: distinct_map dest: inj_onD)

interpretation list_uploads: upload_coll "\<lambda>c. c" list_fou list_count
proof unfold_locales
  fix c :: "fdoc list" and d P u
  show "\<forall>d \<in> set c. \<not> P d \<Longrightarrow> fst (list_fou P u c) = None \<and> snd (list_fou P u c) = c"
    by (simp add: list_fou_def filter_False)
  assume a: "distinct (map f_id c)" "d \<in> set c" "P d" "\<forall>e \<in> set c. P e \<longrightarrow> f_id d \<le> f_id e"
  obtain x xs where s: "sort_key f_id (filter P c) = x # xs"
    using a(2,3) by (metis filter_empty_conv list.exhaust set_empty set_sort)
  have x: "x \<in> set (filter P c)" using arg_cong [OF s, of set] by auto
  have "sorted (map f_id (x # xs))" using sorted_sort_key [of f_id "filter P c"] s by simp
  moreover have "d \<in> set (x # xs)" using arg_cong [OF s, of set] a(2,3) by auto
  ultimately have "f_id x \<le> f_id d" by auto
  with a x have "f_id x = f_id d" by (simp add: antisym)
  with a x have "x = d" using same_id [OF a(1)] by simp
  then show "fst (list_fou P u c) = Some (u d) \<and> snd (list_fou P u c) = map (\<lambda>e. if f_id e = f_id d then u e else e) c"
    by (simp add: list_fou_def s)
next
  fix c :: "fdoc list" and P
  show "0 < list_count P c \<longleftrightarrow> (\<exists>d \<in> set c. P d)"
    by (auto simp: list_count_def filter_empty_conv)
qed

section \<open>Claims\<close>

lemma lock_doc_simps [simp]:
  "f_id (lock_doc t d) = f_id d" "f_processing (lock_doc t d) = Some True" "f_processing_at (lock_doc t d) = Some t"
  "f_sha (lock_doc t d) = f_sha d" "f_dead (lock_doc t d) = f_dead d"
  by (simp_all add: lock_doc_def)

context upload_coll
begin

lemma claim_cases:
  assumes "distinct (map f_id (docs c))"
  obtains (none) c' where "claim_next fou cfg t c = (None, c')" "docs c' = docs c" "\<forall>d \<in> set (docs c). \<not> claim_filter cfg t d"
  | (some) d c' where "claim_next fou cfg t c = (Some (lock_doc t d), c')" "d \<in> set (docs c)" "claim_filter cfg t d"
      "docs c' = map (\<lambda>e. if f_id e = f_id d then lock_doc t e else e) (docs c)"
proof (cases "\<exists>d \<in> set (docs c). claim_filter cfg t d")
  case False
  then show ?thesis
    using none [of "snd (claim_next fou cfg t c)"] fou_None [of c "claim_filter cfg t" "lock_doc t"]
    by (cases "claim_next fou cfg t c") (auto simp: claim_next_def)
next
  case True
  let ?M = "{d \<in> set (docs c). claim_filter cfg t d}"
  define i where "i = Min (f_id ` ?M)"
  have "finite ?M" "?M \<noteq> {}" using True by auto
  then have "i \<in> f_id ` ?M" unfolding i_def by (intro Min_in) auto
  then obtain d where d: "d \<in> ?M" "f_id d = i" by auto
  have "f_id d \<le> f_id e" if "e \<in> ?M" for e
    using that \<open>finite ?M\<close> d(2) unfolding i_def by (metis (no_types, lifting) Min_le finite_imageI image_eqI)
  with d fou_Some [OF assms, of d "claim_filter cfg t" "lock_doc t"] show ?thesis
    using some [of d "snd (claim_next fou cfg t c)"]
    by (cases "claim_next fou cfg t c") (auto simp: claim_next_def)
qed

lemma claim_ids:
  assumes "distinct (map f_id (docs c))" and "claim_next fou cfg t c = (r, c')"
  shows "map f_id (docs c') = map f_id (docs c)"
  using assms(1)
proof (cases rule: claim_cases [of c cfg t])
  case (none c'')
  with assms(2) show ?thesis by simp
next
  case (some d c'')
  with assms(2) show ?thesis by simp
qed

end

definition demo_upload :: "nat \<Rightarrow> string \<Rightarrow> fdoc" where
  "demo_upload i sha = \<lparr>f_id = i, f_event = Some ''file_upload'', f_dead = None, f_forwarded = None,
     f_processing = None, f_processing_at = None, f_timestamp = Some 100, f_updated = None, f_report = None,
     f_ingested = None, f_sha = Some sha, f_cape_sha = None, f_stored_as = Some ''up1'', f_stored_alt = None,
     f_filename = Some ''a.bin'', f_original = None, f_original_alt = None, f_error = None, f_dup_of = None,
     f_task = None, f_response = None\<rparr>"

section \<open>One pass\<close>

definition fate_update :: "config \<Rightarrow> int \<Rightarrow> fate \<Rightarrow> (fdoc \<Rightarrow> fdoc) \<Rightarrow> bool" where
  "fate_update cfg t fate u \<longleftrightarrow>
     (case fate of
        Idle \<Rightarrow> False
      | Missing \<Rightarrow> u = mark_missing cfg t
      | Duplicate sha \<Rightarrow> u = mark_duplicate cfg t sha
      | Submitted task \<Rightarrow> \<exists>sha body. u = mark_forwarded t sha task body
      | SubmitFailed \<Rightarrow> \<exists>e. u = mark_failed t e)"

lemmas mark_defs = mark_missing_def mark_duplicate_def mark_forwarded_def mark_failed_def lock_doc_def

lemma fate_update_released:
  "fate_update cfg t fate u \<Longrightarrow> f_id (u d) = f_id d \<and> f_processing (u d) = Some False \<and> f_updated (u d) = Some t \<and>
     f_forwarded (u d) = Some (case fate of Submitted _ \<Rightarrow> True | _ \<Rightarrow> False) \<and>
     f_dead (u d) = (case fate of Missing \<Rightarrow> Some True | Duplicate _ \<Rightarrow> Some True | _ \<Rightarrow> f_dead d)"
  by (auto simp: fate_update_def mark_defs split: fate.splits)

context upload_coll
begin

lemma fou_id:
  assumes "distinct (map f_id (docs c))" and "d \<in> set (docs c)"
  shows "docs (snd (fou (with_id (f_id d)) u c)) = map (\<lambda>e. if f_id e = f_id d then u e else e) (docs c)"
  using fou_Some [OF assms, of "with_id (f_id d)" u] by (simp add: with_id_def)

lemma forward_one_effect:
  assumes ids: "distinct (map f_id (docs c))"
    and run: "forward_one fou count show_json cfg fs post (t1, t2, t3) results c = (fate, c')"
    and "fate \<noteq> Idle"
  shows "\<exists>d u. d \<in> set (docs c) \<and> claim_filter cfg t1 d \<and> fate_update cfg t3 fate u \<and>
     docs c' = map (\<lambda>e. if f_id e = f_id d then u (lock_doc t1 d) else e) (docs c)"
  using ids
proof (cases rule: claim_cases [of c cfg t1])
  case (none c1)
  with run assms(3) show ?thesis by (simp add: forward_one_def)
next
  case (some d c1)
  have ids1: "distinct (map f_id (docs c1))" and d1: "lock_doc t1 d \<in> set (docs c1)"
    using ids some by (auto simp: some(4) o_def if_distrib [of f_id] cong: if_cong intro!: image_eqI [of _ _ d])
  have eff: "docs (snd (fou (with_id (f_id d)) u c1)) = map (\<lambda>e. if f_id e = f_id d then u (lock_doc t1 d) else e) (docs c)" for u
    using fou_id [OF ids1 d1, of u] same_id [OF ids _ some(2)] by (auto simp: some(4))
  have "\<exists>u. c' = snd (fou (with_id (f_id d)) u c1) \<and> fate_update cfg t3 fate u"
  proof (cases "find_file_for_event cfg fs (lock_doc t1 d)")
    case None
    with run some(1) show ?thesis by (auto simp: forward_one_def fate_update_def)
  next
    case (Some path)
    define sha where "sha = (case fs_sha fs path of Some s \<Rightarrow> s
       | None \<Rightarrow> if lower (or_empty (f_sha d)) \<noteq> [] then lower (or_empty (f_sha d)) else ''unknown'')"
    define name where "name = (case first_str [f_filename (lock_doc t1 d), f_original (lock_doc t1 d)] of Some s \<Rightarrow> s | None \<Rightarrow> ''upload.bin'')"
    have "(fate, c') =
       (if already_forwarded count cfg t2 c1 results sha
        then (Duplicate sha, snd (fou (with_id (f_id d)) (mark_duplicate cfg t3 sha) c1))
        else (case submit_to_cape show_json cfg post path name of
                Inl e \<Rightarrow> (SubmitFailed, snd (fou (with_id (f_id d)) (mark_failed t3 e) c1))
              | Inr (task, body) \<Rightarrow> (Submitted task, snd (fou (with_id (f_id d)) (mark_forwarded t3 sha task body) c1))))"
      using run [symmetric] unfolding forward_one_def prod.case some(1) option.case Let_def Some lock_doc_simps sha_def name_def .
    then show ?thesis
      by (auto simp: fate_update_def split: if_splits sum.splits) blast+
  qed
  then obtain u where "c' = snd (fou (with_id (f_id d)) u c1)" "fate_update cfg t3 fate u"
    by blast
  with eff some(2,3) show ?thesis by blast
qed

end

text \<open>C15. Whatever happens in a pass that claimed a document (missing file, duplicate, submission, exception),
  exactly that document, which was open to be claimed, changes, and it is unlocked again, with \<open>forwarded\<close> true exactly after a
  submission; it is retired (\<open>dead\<close>) exactly when its file is missing or it is a duplicate.\<close>

theorem pass_releases_claim:
  assumes "upload_coll docs fou count" and "distinct (map f_id (docs c))"
    and "forward_one fou count show_json cfg fs post (t1, t2, t3) results c = (fate, c')" and "fate \<noteq> Idle"
  shows "\<exists>d d'. d \<in> set (docs c) \<and> claim_filter cfg t1 d \<and> docs c' = map (\<lambda>e. if f_id e = f_id d then d' else e) (docs c) \<and>
     f_id d' = f_id d \<and> f_processing d' = Some False \<and> f_updated d' = Some t3 \<and>
     f_forwarded d' = Some (case fate of Submitted _ \<Rightarrow> True | _ \<Rightarrow> False) \<and>
     f_dead d' = (case fate of Missing \<Rightarrow> Some True | Duplicate _ \<Rightarrow> Some True | _ \<Rightarrow> f_dead d)"
proof -
  obtain d u where "d \<in> set (docs c)" "claim_filter cfg t1 d" "fate_update cfg t3 fate u"
    "docs c' = map (\<lambda>e. if f_id e = f_id d then u (lock_doc t1 d) else e) (docs c)"
    using upload_coll.forward_one_effect [OF assms] by blast
  with fate_update_released [of cfg t3 fate u "lock_doc t1 d"] show ?thesis
    by - (rule exI [of _ d], rule exI [of _ "u (lock_doc t1 d)"], simp split: fate.split)
qed

definition demo_fs :: fsys where
  "demo_fs = \<lparr>fs_isdir = True, fs_exists = (\<lambda>p. p = ''/home/honeypy/nodepot-lite/uploads/up1''),
     fs_list = Some [(''up1'', True, 5)], fs_sha = (\<lambda>_. Some ''aa'')\<rparr>"

definition demo_post :: poster where
  "demo_post url data file = Answer (Some (JObj [(''data'', JObj [(''task_ids'', JArr [JInt 41])])])) ''ok''"

abbreviation demo_pass :: "int \<times> int \<times> int \<Rightarrow> fdoc list \<Rightarrow> fate \<times> fdoc list" where
  "demo_pass tms c \<equiv> forward_one list_fou list_count (\<lambda>_. []) default_config demo_fs demo_post tms [] c"

theorem pass_releases_claim_witness:
  "fst (demo_pass (300, 300, 301) [demo_upload 0 ''aa'']) = Submitted (Some (JInt 41)) \<and>
   map f_processing (snd (demo_pass (300, 300, 301) [demo_upload 0 ''aa''])) = [Some False]"
proof -
  have f: "fst (demo_pass (300, 300, 301) [demo_upload 0 ''aa'']) = Submitted (Some (JInt 41))" by code_simp
  have ids: "distinct (map f_id [demo_upload 0 ''aa''])" by simp
  obtain d d' where "d \<in> set [demo_upload 0 ''aa'']"
    "snd (demo_pass (300, 300, 301) [demo_upload 0 ''aa'']) = map (\<lambda>e. if f_id e = f_id d then d' else e) [demo_upload 0 ''aa'']"
    "f_processing d' = Some False"
    using pass_releases_claim [OF list_uploads.upload_coll_axioms ids prod.collapse [symmetric],
        of "\<lambda>_. []" default_config demo_fs demo_post 300 300 301 "[]"] f
    by auto
  with f show ?thesis by auto
qed

section \<open>Workers\<close>

text \<open>Workers side by side: one claims a document, and later writes the outcome of its pass. What they hold is a list of the
  worker, the document and the time of the claim; a worker that holds a document makes no claim.\<close>

datatype result_of_pass = File_missing | Known string | Sent_to_cape string "json option" string | Not_sent string

definition outcome_update :: "config \<Rightarrow> int \<Rightarrow> result_of_pass \<Rightarrow> fdoc \<Rightarrow> fdoc" where
  "outcome_update cfg t r = (case r of
     File_missing \<Rightarrow> mark_missing cfg t
   | Known sha \<Rightarrow> mark_duplicate cfg t sha
   | Sent_to_cape sha task body \<Rightarrow> mark_forwarded t sha task body
   | Not_sent e \<Rightarrow> mark_failed t e)"

datatype work = Claims nat int | Finishes nat int result_of_pass

type_synonym holdings = "(nat \<times> nat \<times> int) list"

fun work_step :: "'c updater \<Rightarrow> config \<Rightarrow> work \<Rightarrow> holdings \<times> 'c \<Rightarrow> holdings \<times> 'c" where
  "work_step fou cfg (Claims w t) (h, c) =
     (if w \<in> set (map fst h) then (h, c)
      else case claim_next fou cfg t c of (None, c) \<Rightarrow> (h, c) | (Some d, c) \<Rightarrow> ((w, f_id d, t) # h, c))"
| "work_step fou cfg (Finishes w t r) (h, c) =
     (case map_of h w of
        None \<Rightarrow> (h, c)
      | Some (i, _) \<Rightarrow> (filter (\<lambda>(v, _). v \<noteq> w) h, snd (fou (with_id i) (outcome_update cfg t r) c)))"

fun work_all :: "'c updater \<Rightarrow> config \<Rightarrow> work list \<Rightarrow> holdings \<times> 'c \<Rightarrow> holdings \<times> 'c" where
  "work_all fou cfg [] s = s"
| "work_all fou cfg (x # xs) s = work_all fou cfg xs (work_step fou cfg x s)"

text \<open>No claim is made when another worker has held a document for longer than the expiry.\<close>

definition in_time :: "config \<Rightarrow> work \<Rightarrow> holdings \<Rightarrow> bool" where
  "in_time cfg x h = (case x of Claims w t \<Rightarrow> list_all (\<lambda>(v, i, t0). t \<le> t0 + cf_lock cfg) h | Finishes w t r \<Rightarrow> True)"

fun all_in_time :: "'c updater \<Rightarrow> config \<Rightarrow> work list \<Rightarrow> holdings \<times> 'c \<Rightarrow> bool" where
  "all_in_time fou cfg [] s \<longleftrightarrow> True"
| "all_in_time fou cfg (x # xs) s \<longleftrightarrow> in_time cfg x (fst s) \<and> all_in_time fou cfg xs (work_step fou cfg x s)"

text \<open>A pass of the main loop is a claim followed by its outcome.\<close>

lemma forward_one_is_work:
  assumes "forward_one fou count show_json cfg fs post (t1, t2, t3) results c = (fate, c')"
  shows "\<exists>r. c' = snd (work_all fou cfg [Claims w t1, Finishes w t3 r] ([], c))"
proof (cases "claim_next fou cfg t1 c")
  case (Pair claimed c1)
  with assms show ?thesis
    by (auto simp: forward_one_def Let_def outcome_update_def split: option.splits if_splits sum.splits prod.splits
        intro: exI [of _ File_missing] exI [of _ "Known sha" for sha] exI [of _ "Not_sent e" for e] exI [of _ "Sent_to_cape s t b" for s t b])
qed

lemma outcome_update_id [simp]: "f_id (outcome_update cfg t r d) = f_id d"
  by (simp add: outcome_update_def mark_defs split: result_of_pass.split)

context upload_coll
begin

text \<open>Distinct workers hold distinct documents, which are locked since they were claimed.\<close>

definition exclusive :: "holdings \<times> 'c \<Rightarrow> bool" where
  "exclusive s \<longleftrightarrow> distinct (map f_id (docs (snd s))) \<and> distinct (map fst (fst s)) \<and> distinct (map (\<lambda>(w, i, t). i) (fst s)) \<and>
     (\<forall>(w, i, t) \<in> set (fst s). \<forall>d \<in> set (docs (snd s)). f_id d = i \<longrightarrow> f_processing d = Some True \<and> f_processing_at d = Some t)"

lemma update_id:
  assumes "distinct (map f_id (docs c))"
  shows "docs (snd (fou (with_id i) u c)) = map (\<lambda>e. if f_id e = i then u e else e) (docs c)"
proof (cases "\<exists>d \<in> set (docs c). f_id d = i")
  case True
  with fou_id [OF assms] show ?thesis by auto
next
  case False
  then have "\<forall>d \<in> set (docs c). \<not> with_id i d" by (simp add: with_id_def)
  from fou_None [OF this] False show ?thesis by (auto intro!: map_idI [symmetric])
qed

lemma work_step_exclusive:
  assumes s: "exclusive s" and time: "in_time cfg x (fst s)"
  shows "exclusive (work_step fou cfg x s)"
proof -
  obtain h c where hc: "s = (h, c)" by (cases s)
  have ids: "distinct (map f_id (docs c))" and workers: "distinct (map fst h)" and held: "distinct (map (\<lambda>(w, i, t). i) h)"
    and locked: "\<And>w i t d. (w, i, t) \<in> set h \<Longrightarrow> d \<in> set (docs c) \<Longrightarrow> f_id d = i \<Longrightarrow> f_processing d = Some True \<and> f_processing_at d = Some t"
    using s by (auto simp: exclusive_def hc)
  show ?thesis
  proof (cases x)
    case (Claims w t)
    show ?thesis
    proof (cases "w \<in> set (map fst h)")
      case True
      with s Claims hc show ?thesis by simp
    next
      case False
      from ids show ?thesis
      proof (cases rule: claim_cases [of c cfg t])
        case (none c')
        with s Claims hc False show ?thesis by (simp add: exclusive_def)
      next
        case (some d c')
        have free: "i \<noteq> f_id d" if "(v, i, t0) \<in> set h" for v i t0
        proof
          assume "i = f_id d"
          with locked [OF that some(2)] have "f_processing d = Some True" "f_processing_at d = Some t0" by simp_all
          moreover have "t \<le> t0 + cf_lock cfg" using time that Claims hc by (auto simp: in_time_def list_all_iff)
          ultimately show False using some(3) by (simp add: claim_filter_def)
        qed
        have "map f_id (docs c') = map f_id (docs c)" by (simp add: some(4))
        then have ids': "distinct (map f_id (docs c'))" using ids by simp
        have locks: "f_processing e = Some True \<and> f_processing_at e = Some u"
          if "(v, i, u) \<in> set ((w, f_id d, t) # h)" "e \<in> set (docs c')" "f_id e = i" for v i u e
          using that locked free [of v i u] by (cases "(v, i, u) \<in> set h") (auto simp: some(4) split: if_splits)
        then have "\<forall>(v, i, u) \<in> set ((w, f_id d, t) # h). \<forall>e \<in> set (docs c'). f_id e = i \<longrightarrow>
            f_processing e = Some True \<and> f_processing_at e = Some u"
          by blast
        moreover have "f_id d \<notin> set (map (\<lambda>(w, i, t). i) h)" using free by force
        ultimately have "exclusive ((w, f_id d, t) # h, c')"
          using workers held False ids' unfolding exclusive_def fst_conv snd_conv by (intro conjI) simp_all
        then show ?thesis using Claims hc False some(1) by simp
      qed
    qed
  next
    case (Finishes w t r)
    show ?thesis
    proof (cases "map_of h w")
      case None
      with s Finishes hc show ?thesis by simp
    next
      case (Some p)
      obtain i t0 where p: "p = (i, t0)" by (cases p)
      let ?h = "filter (\<lambda>(v, _). v \<noteq> w) h"
      have wi: "(w, i, t0) \<in> set h" using Some p map_of_SomeD by fastforce
      have other: "j \<noteq> i" if "(v, j, u) \<in> set h" "v \<noteq> w" for v j u
        using that wi held inj_onD [of "\<lambda>(w, i, t). i" "set h" "(v, j, u)" "(w, i, t0)"] by (auto simp: distinct_map)
      have sub: "distinct (map fst ?h)" "distinct (map (\<lambda>(w, i, t). i) ?h)"
        using workers held by (simp_all add: distinct_map_filter)
      note update = update_id [OF ids, of i "outcome_update cfg t r"]
      have "map f_id (docs (snd (fou (with_id i) (outcome_update cfg t r) c))) = map f_id (docs c)" by (simp add: update)
      then have ids': "distinct (map f_id (docs (snd (fou (with_id i) (outcome_update cfg t r) c))))" using ids by simp
      have "f_processing e = Some True \<and> f_processing_at e = Some u"
        if "(v, j, u) \<in> set h" "v \<noteq> w" "e \<in> set (docs (snd (fou (with_id i) (outcome_update cfg t r) c)))" "f_id e = j" for v j u e
      proof -
        from that(3) obtain d where d: "d \<in> set (docs c)" "e = (if f_id d = i then outcome_update cfg t r d else d)"
          by (auto simp: update)
        with that other [OF that(1,2)] have "e = d" by (auto split: if_splits)
        with locked [OF that(1)] d that(4) show ?thesis by simp
      qed
      then have "\<forall>(v, j, u) \<in> set ?h. \<forall>e \<in> set (docs (snd (fou (with_id i) (outcome_update cfg t r) c))). f_id e = j \<longrightarrow>
          f_processing e = Some True \<and> f_processing_at e = Some u"
        by (simp only: set_filter) blast
      then have "exclusive (?h, snd (fou (with_id i) (outcome_update cfg t r) c))"
        using ids' sub unfolding exclusive_def fst_conv snd_conv by (intro conjI)
      then show ?thesis using Finishes hc Some p by simp
    qed
  qed
qed

lemma work_all_exclusive: "exclusive s \<Longrightarrow> all_in_time fou cfg xs s \<Longrightarrow> exclusive (work_all fou cfg xs s)"
  by (induction xs arbitrary: s) (simp_all add: work_step_exclusive)

end

text \<open>C14. Mutual exclusion: workers claim documents and write the outcomes of their passes, in any order; as long as each
  finishes within the lock expiry before another claim is made, no two workers ever hold the same document.\<close>

theorem claims_exclusive:
  assumes "upload_coll docs fou count" and "distinct (map f_id (docs c))" and "all_in_time fou cfg xs ([], c)"
  shows "distinct (map (\<lambda>(worker, document, since). document) (fst (work_all fou cfg xs ([], c))))"
  using upload_coll.work_all_exclusive [OF assms(1) _ assms(3)] assms(2)
  by (simp add: upload_coll.exclusive_def [OF assms(1)])

theorem claims_exclusive_witness:
  "let xs = [Claims 1 100, Claims 2 101, Finishes 1 102 (Not_sent ''timeout''), Claims 3 103, Claims 1 104]
   in map (\<lambda>(worker, document, since). (worker, document)) (fst (work_all list_fou default_config xs ([], [demo_upload 0 ''aa'', demo_upload 1 ''bb'']))) =
       [(3, 0), (2, 1)] \<and>
     distinct (map (\<lambda>(worker, document, since). document)
       (fst (work_all list_fou default_config xs ([], [demo_upload 0 ''aa'', demo_upload 1 ''bb'']))))"
proof -
  let ?xs = "[Claims 1 100, Claims 2 101, Finishes 1 102 (Not_sent ''timeout''), Claims 3 103, Claims 1 104]"
  let ?c = "[demo_upload 0 ''aa'', demo_upload 1 ''bb'']"
  have "map (\<lambda>(worker, document, since). (worker, document)) (fst (work_all list_fou default_config ?xs ([], ?c))) = [(3, 0), (2, 1)]"
    by code_simp
  moreover have "all_in_time list_fou default_config ?xs ([], ?c)" by code_simp
  then have "distinct (map (\<lambda>(worker, document, since). document) (fst (work_all list_fou default_config ?xs ([], ?c))))"
    by (intro claims_exclusive [OF list_uploads.upload_coll_axioms]) (simp_all add: demo_upload_def)
  ultimately show ?thesis by (simp only: Let_def simp_thms)
qed

section \<open>What the filters as written do\<close>

context upload_coll
begin

lemma self_duplicate:
  assumes "distinct (map f_id (docs c))" and "d \<in> set (docs c)" and "d = lock_doc t d0" and "f_dead d0 \<noteq> Some True"
    and "f_sha d0 = Some sha" and "sha \<noteq> []" and "in_window cfg t2 d"
  shows "already_forwarded count cfg t2 c results sha"
proof -
  have "log_query cfg t2 sha d" using assms by (simp add: log_query_def)
  with assms(2) have "0 < count (log_query cfg t2 sha) c" by (auto simp: count_pos)
  with assms(6) show ?thesis by (simp add: already_forwarded_def)
qed

lemma forward_claimed:
  assumes ids: "distinct (map f_id (docs c))" and claim: "claim_next fou cfg t1 c = (Some d, c1)"
    and found: "find_file_for_event cfg fs d = Some path" "fs_sha fs path = Some sha"
    and dup: "already_forwarded count cfg t2 c1 results sha"
  shows "\<exists>c'. forward_one fou count show_json cfg fs post (t1, t2, t3) results c = (Duplicate sha, c') \<and>
     docs c' = map (\<lambda>e. if f_id e = f_id d then mark_duplicate cfg t3 sha e else e) (docs c1)"
proof -
  have ids1: "distinct (map f_id (docs c1))" using claim_ids [OF ids claim] ids by simp
  from ids have "d \<in> set (docs c1)"
    by (cases rule: claim_cases [of c cfg t1]) (use claim in \<open>auto intro!: image_eqI\<close>)
  from fou_id [OF ids1 this, of "mark_duplicate cfg t3 sha"] show ?thesis
    using claim found dup by (simp add: forward_one_def Let_def)
qed

end

text \<open>A fresh upload is never submitted: the duplicate check also counts the document that the worker has
  just locked, so an upload event that carries the hash of its file, as the web server logs it, and
  lies in the window, is retired as a duplicate of itself.\<close>

theorem fresh_upload_is_its_own_duplicate:
  assumes "upload_coll docs fou count" and "distinct (map f_id (docs c))"
    and "claim_next fou cfg t1 c = (Some d, c1)"
    and "find_file_for_event cfg fs d = Some path" and "fs_sha fs path = Some sha"
    and "f_sha d = Some sha" and "sha \<noteq> []" and "in_window cfg t2 d"
  shows "\<exists>c'. forward_one fou count show_json cfg fs post (t1, t2, t3) results c = (Duplicate sha, c') \<and>
     (\<exists>e \<in> set (docs c'). f_id e = f_id d \<and> f_forwarded e = Some False \<and> f_dead e = Some True)"
proof -
  obtain d0 where d: "d = lock_doc t1 d0" "d0 \<in> set (docs c)" "claim_filter cfg t1 d0" "d \<in> set (docs c1)"
    using assms(2) by (cases rule: upload_coll.claim_cases [OF assms(1), of c cfg t1]) (use assms(3) in \<open>auto intro!: image_eqI\<close>)
  have ids1: "distinct (map f_id (docs c1))"
    using upload_coll.claim_ids [OF assms(1,2,3)] assms(2) by simp
  have "f_dead d0 \<noteq> Some True" "f_sha d0 = Some sha" using d(1,3) assms(6) by (simp_all add: claim_filter_def)
  from upload_coll.self_duplicate [OF assms(1) ids1 d(4,1) this assms(7,8)]
  have "already_forwarded count cfg t2 c1 results sha" .
  from upload_coll.forward_claimed [OF assms(1-5) this] obtain c' where c':
    "forward_one fou count show_json cfg fs post (t1, t2, t3) results c = (Duplicate sha, c')"
    "docs c' = map (\<lambda>e. if f_id e = f_id d then mark_duplicate cfg t3 sha e else e) (docs c1)"
    by blast
  have "mark_duplicate cfg t3 sha d \<in> set (docs c')" using d(4) by (auto simp: c'(2) intro!: image_eqI [of _ _ d])
  with c'(1) show ?thesis
    by (intro exI [of _ c'] conjI bexI [of _ "mark_duplicate cfg t3 sha d"]) (simp_all add: mark_duplicate_def)
qed

theorem fresh_upload_is_its_own_duplicate_witness:
  "in_window default_config 101 (lock_doc 100 (demo_upload 0 ''aa'')) \<and>
   fst (demo_pass (100, 101, 102) [demo_upload 0 ''aa'']) = Duplicate ''aa''"
proof -
  let ?c = "[demo_upload 0 ''aa'']"
  have claim: "claim_next list_fou default_config 100 ?c = (Some (lock_doc 100 (demo_upload 0 ''aa'')), [lock_doc 100 (demo_upload 0 ''aa'')])"
    by code_simp
  have found: "find_file_for_event default_config demo_fs (lock_doc 100 (demo_upload 0 ''aa'')) = Some ''/home/honeypy/nodepot-lite/uploads/up1''"
    by code_simp
  have w: "in_window default_config 101 (lock_doc 100 (demo_upload 0 ''aa''))" by code_simp
  have "\<exists>c'. demo_pass (100, 101, 102) ?c = (Duplicate ''aa'', c') \<and>
     (\<exists>e \<in> set c'. f_id e = f_id (lock_doc 100 (demo_upload 0 ''aa'')) \<and> f_forwarded e = Some False \<and> f_dead e = Some True)"
    by (rule fresh_upload_is_its_own_duplicate [OF list_uploads.upload_coll_axioms _ claim found _ _ _ w])
      (simp_all add: demo_fs_def demo_upload_def)
  with w show ?thesis by force
qed

text \<open>A forwarded upload is claimed again: the condition on \<open>forwarded\<close> in the claim filter is lost, so as
  soon as a forwarded document is first in line the worker locks it, finds its own hash among the
  forwarded ones and retires it, with \<open>forwarded\<close> set back to false.\<close>

theorem forwarded_upload_is_retired:
  assumes "upload_coll docs fou count" and "distinct (map f_id (docs c))" and "e \<in> set (docs c)"
    and "f_event e = Some ''file_upload''" and "f_dead e = None" and "f_forwarded e = Some True"
    and "f_processing e = Some False" and "f_cape_sha e = Some sha" and "sha \<noteq> []"
    and "\<forall>d \<in> set (docs c). claim_filter cfg t1 d \<longrightarrow> f_id e \<le> f_id d"
    and "find_file_for_event cfg fs (lock_doc t1 e) = Some path" and "fs_sha fs path = Some sha"
    and "in_window cfg t2 (lock_doc t1 e)"
  shows "\<exists>c'. forward_one fou count show_json cfg fs post (t1, t2, t3) results c = (Duplicate sha, c') \<and>
     (\<exists>x \<in> set (docs c'). f_id x = f_id e \<and> f_forwarded x = Some False \<and> f_dead x = Some True)"
proof -
  let ?d = "lock_doc t1 e"
  have "claim_filter cfg t1 e" using assms(4,5,7) by (simp add: claim_filter_def)
  from upload_coll.fou_Some [OF assms(1,2,3), of "claim_filter cfg t1" "lock_doc t1", OF this assms(10)]
  obtain c1 where claim: "claim_next fou cfg t1 c = (Some ?d, c1)"
    and c1: "docs c1 = map (\<lambda>x. if f_id x = f_id e then lock_doc t1 x else x) (docs c)"
    by (cases "claim_next fou cfg t1 c") (auto simp: claim_next_def)
  have d1: "?d \<in> set (docs c1)" using assms(3) by (auto simp: c1 intro!: image_eqI [of _ _ e])
  have "log_query cfg t2 sha ?d"
    using assms(5,6,8,13) by (simp add: log_query_def) (simp add: lock_doc_def)
  with d1 have "already_forwarded count cfg t2 c1 results sha"
    using upload_coll.count_pos [OF assms(1)] assms(9) by (auto simp: already_forwarded_def)
  from upload_coll.forward_claimed [OF assms(1,2) claim assms(11,12) this] obtain c' where c':
    "forward_one fou count show_json cfg fs post (t1, t2, t3) results c = (Duplicate sha, c')"
    "docs c' = map (\<lambda>x. if f_id x = f_id ?d then mark_duplicate cfg t3 sha x else x) (docs c1)"
    by blast
  have "mark_duplicate cfg t3 sha ?d \<in> set (docs c')" using d1 by (auto simp: c'(2) intro!: image_eqI [of _ _ ?d])
  with c'(1) show ?thesis
    by (intro exI [of _ c'] conjI bexI [of _ "mark_duplicate cfg t3 sha ?d"]) (simp_all add: mark_duplicate_def)
qed

definition demo_forwarded :: fdoc where
  "demo_forwarded = mark_forwarded 300 ''aa'' (Some (JInt 41)) ''ok'' (demo_upload 0 ''aa'')"

theorem forwarded_upload_is_retired_witness:
  "f_forwarded demo_forwarded = Some True \<and> fst (demo_pass (310, 311, 312) [demo_forwarded]) = Duplicate ''aa''"
proof -
  have found: "find_file_for_event default_config demo_fs (lock_doc 310 demo_forwarded) = Some ''/home/honeypy/nodepot-lite/uploads/up1''"
    by code_simp
  have w: "in_window default_config 311 (lock_doc 310 demo_forwarded)" by code_simp
  have "\<exists>c'. demo_pass (310, 311, 312) [demo_forwarded] = (Duplicate ''aa'', c') \<and>
     (\<exists>x \<in> set c'. f_id x = f_id demo_forwarded \<and> f_forwarded x = Some False \<and> f_dead x = Some True)"
    by (rule forwarded_upload_is_retired [OF list_uploads.upload_coll_axioms _ _ _ _ _ _ _ _ _ found _ w])
      (simp_all add: demo_fs_def demo_forwarded_def mark_forwarded_def demo_upload_def)
  then show ?thesis by (auto simp: demo_forwarded_def mark_forwarded_def)
qed

end
