(* ===== verification/PoolNat.thy ===== *)
theory PoolNat
  imports Prelude
begin

text \<open>
  \<open>Honeypots/cowrie/src/backend_pool/nat.py\<close>: the proxies that make the guests of a remote pool
  reachable. A binding of a guest id is a use count with its two listeners, a listener is the port
  the operating system chose (given), and \<open>nat_open\<close> are the listeners that accept connections,
  with the address they forward to.
\<close>

section \<open>The NAT service\<close>

record nat_service =
  nat_bindings :: "(nat \<times> int \<times> nat \<times> nat) list"
  nat_open :: "(nat \<times> string \<times> int) list"

definition nat_init :: nat_service where
  "nat_init = \<lparr>nat_bindings = [], nat_open = []\<rparr>"

definition binding :: "nat_service \<Rightarrow> nat \<Rightarrow> (int \<times> nat \<times> nat) option" where
  "binding n gid = map_of (nat_bindings n) gid"

definition set_binding :: "nat \<Rightarrow> int \<times> nat \<times> nat \<Rightarrow> nat_service \<Rightarrow> nat_service" where
  "set_binding gid b n = n\<lparr>nat_bindings := (gid, b) # filter (\<lambda>(k, _). k \<noteq> gid) (nat_bindings n)\<rparr>"

definition stop_listening :: "nat \<Rightarrow> nat_service \<Rightarrow> nat_service" where
  "stop_listening p n = n\<lparr>nat_open := filter (\<lambda>(k, _). k \<noteq> p) (nat_open n)\<rparr>"

text \<open>\<open>fresh\<close> are the two ports the operating system assigns, if they are needed.\<close>

definition request_binding ::
  "nat \<times> nat \<Rightarrow> nat \<Rightarrow> string \<Rightarrow> int \<Rightarrow> int \<Rightarrow> nat_service \<Rightarrow> (nat \<times> nat) \<times> nat_service" where
  "request_binding fresh guest_id dst_ip ssh_port telnet_port n =
     (case binding n guest_id of
        Some (cnt, nat_ssh, nat_telnet) \<Rightarrow>
          ((nat_ssh, nat_telnet), set_binding guest_id (cnt + 1, nat_ssh, nat_telnet) n)
      | None \<Rightarrow>
          let (nat_ssh, nat_telnet) = fresh;
              n = n\<lparr>nat_open := (nat_telnet, dst_ip, telnet_port) # (nat_ssh, dst_ip, ssh_port) # nat_open n\<rparr>
          in ((nat_ssh, nat_telnet), set_binding guest_id (1, nat_ssh, nat_telnet) n))"

definition free_binding :: "nat \<Rightarrow> nat_service \<Rightarrow> nat_service result" where
  "free_binding guest_id n =
     (case binding n guest_id of
        None \<Rightarrow> Inl KeyError
      | Some (cnt, nat_ssh, nat_telnet) \<Rightarrow>
          if cnt - 1 \<le> 0
          then (let n = stop_listening nat_telnet (stop_listening nat_ssh n)
                in Inr (n\<lparr>nat_bindings := filter (\<lambda>(k, _). k \<noteq> guest_id) (nat_bindings n)\<rparr>))
          else Inr (set_binding guest_id (cnt - 1, nat_ssh, nat_telnet) n))"

definition free_all :: "nat_service \<Rightarrow> nat_service" where
  "free_all n = fold (\<lambda>(_, _, nat_ssh, nat_telnet) n. stop_listening nat_telnet (stop_listening nat_ssh n)) (nat_bindings n) n"

section \<open>A proxied connection\<close>

text \<open>The server side of a proxy: \<open>client_protocol\<close> is declared but not assigned until the connection to
  the guest is made, so reading it before raises AttributeError. \<open>pr_sent\<close> is what was written to the
  guest and \<open>pr_back\<close> what the guest answered.\<close>

record proxy =
  pr_client :: bool
  pr_buffer :: "string list"
  pr_sent :: string
  pr_back :: string

definition proxy_init :: proxy where
  "proxy_init = \<lparr>pr_client = False, pr_buffer = [], pr_sent = [], pr_back = []\<rparr>"

definition build_protocol :: "proxy \<Rightarrow> proxy" where
  "build_protocol p = p\<lparr>pr_client := True\<rparr>"

definition send_data :: "proxy \<Rightarrow> proxy result" where
  "send_data p =
     (if pr_client p then Inr (p\<lparr>pr_sent := pr_sent p @ concat (pr_buffer p), pr_buffer := []\<rparr>)
      else Inl AttributeError)"

definition server_data_received :: "string \<Rightarrow> proxy \<Rightarrow> proxy result" where
  "server_data_received data p = send_data (p\<lparr>pr_buffer := pr_buffer p @ [data]\<rparr>)"

definition client_data_received :: "string \<Rightarrow> proxy \<Rightarrow> proxy" where
  "client_data_received data p = p\<lparr>pr_back := pr_back p @ data\<rparr>"

end
