(* ===== verification/PoolNatFacts.thy ===== *)
theory PoolNatFacts
  imports PoolNat "HOL-Library.Multiset"
begin

text \<open>
  The NAT service: as long as the operating system hands out unused ports, the open listeners are
  exactly those of the bindings, and a binding lives as long as it has users. Freeing everything
  closes the listeners but keeps the bindings, so a later request is given closed ports.
\<close>

datatype nat_op = Bind "nat \<times> nat" nat string int int | Unbind nat

definition nat_apply :: "nat_op \<Rightarrow> nat_service \<Rightarrow> nat_service" where
  "nat_apply op n =
     (case op of
        Bind fresh gid ip s t \<Rightarrow> snd (request_binding fresh gid ip s t n)
      | Unbind gid \<Rightarrow> (case free_binding gid n of Inr n' \<Rightarrow> n' | Inl e \<Rightarrow> n))"

text \<open>The ports assigned to a request are two unused ones.\<close>

fun ports_fresh :: "nat_op list \<Rightarrow> nat_service \<Rightarrow> bool" where
  "ports_fresh [] n = True"
| "ports_fresh (op # ops) n =
     ((case op of Bind (a, b) gid ip s t \<Rightarrow> a \<noteq> b \<and> a \<notin> fst ` set (nat_open n) \<and> b \<notin> fst ` set (nat_open n) | _ \<Rightarrow> True) \<and>
      ports_fresh ops (nat_apply op n))"

definition ports_of_bindings :: "(nat \<times> int \<times> nat \<times> nat) list \<Rightarrow> nat list" where
  "ports_of_bindings bs = concat (map (\<lambda>(gid, c, s, t). [s, t]) bs)"

definition nat_ok :: "nat_service \<Rightarrow> bool" where
  "nat_ok n \<longleftrightarrow> distinct (map fst (nat_bindings n)) \<and> distinct (ports_of_bindings (nat_bindings n)) \<and>
     fst ` set (nat_open n) = set (ports_of_bindings (nat_bindings n)) \<and>
     (\<forall>(gid, c, s, t) \<in> set (nat_bindings n). 1 \<le> c)"

lemma ports_of_bindings_Cons [simp]: "ports_of_bindings ((gid, c, s, t) # bs) = s # t # ports_of_bindings bs"
  by (simp add: ports_of_bindings_def)

lemma ports_of_bindings_Nil [simp]: "ports_of_bindings [] = []"
  by (simp add: ports_of_bindings_def)

text \<open>Taking the binding of a key out of a list of bindings.\<close>

lemma binding_split:
  assumes "distinct (map fst bs)" and "map_of bs gid = Some (c, s, t)"
  shows "mset (ports_of_bindings bs) = {#s, t#} + mset (ports_of_bindings (filter (\<lambda>(k, _). k \<noteq> gid) bs))"
  using assms
proof (induction bs)
  case Nil
  then show ?case by simp
next
  case (Cons b bs)
  obtain k c' s' t' where b: "b = (k, c', s', t')" by (cases b)
  show ?case
  proof (cases "k = gid")
    case True
    with Cons.prems b have "filter (\<lambda>(k, _). k \<noteq> gid) bs = bs" by (force simp: filter_id_conv)
    with Cons.prems b True show ?thesis by simp
  next
    case False
    with Cons b show ?thesis by simp
  qed
qed

lemma stop_listening_open: "fst ` set (nat_open (stop_listening p n)) = fst ` set (nat_open n) - {p}"
  by (auto simp: stop_listening_def image_iff)

lemma stop_listening_bindings [simp]: "nat_bindings (stop_listening p n) = nat_bindings n"
  by (simp add: stop_listening_def)

lemma set_binding_ok:
  assumes "nat_ok n" and "binding n gid = Some (c, s, t)" and "1 \<le> c'"
  shows "nat_ok (set_binding gid (c', s, t) n)"
proof -
  let ?r = "filter (\<lambda>(k, _). k \<noteq> gid) (nat_bindings n)"
  from assms have sp: "mset (ports_of_bindings (nat_bindings n)) = {#s, t#} + mset (ports_of_bindings ?r)"
    by (intro binding_split) (simp_all add: nat_ok_def binding_def)
  then have "mset (s # t # ports_of_bindings ?r) = mset (ports_of_bindings (nat_bindings n))" by simp
  then have "distinct (s # t # ports_of_bindings ?r) \<longleftrightarrow> distinct (ports_of_bindings (nat_bindings n))"
    "set (s # t # ports_of_bindings ?r) = set (ports_of_bindings (nat_bindings n))"
    by (metis mset_eq_imp_distinct_iff, metis mset_eq_setD)
  with assms show ?thesis
    by (auto simp: nat_ok_def set_binding_def distinct_map_filter)
qed

lemma nat_ok_step:
  assumes "nat_ok n" and "ports_fresh [op] n"
  shows "nat_ok (nat_apply op n)"
proof (cases op)
  case (Bind fresh gid ip s t)
  obtain a b where f: "fresh = (a, b)" by (cases fresh)
  show ?thesis
  proof (cases "binding n gid")
    case (Some x)
    obtain c s' t' where x: "x = (c, s', t')" by (cases x)
    have "(gid, c, s', t') \<in> set (nat_bindings n)" using Some x by (auto simp: binding_def dest: map_of_SomeD)
    with assms(1) have "1 \<le> c + 1" by (auto simp: nat_ok_def)
    from set_binding_ok [OF assms(1) Some [unfolded x] this] show ?thesis
      using Bind Some x by (simp add: nat_apply_def request_binding_def)
  next
    case None
    then have "filter (\<lambda>(k, _). k \<noteq> gid) (nat_bindings n) = nat_bindings n" "gid \<notin> fst ` set (nat_bindings n)"
      by (force simp: binding_def map_of_eq_None_iff filter_id_conv)+
    with assms None Bind f show ?thesis
      by (auto simp: nat_apply_def request_binding_def nat_ok_def set_binding_def Let_def)
  qed
next
  case (Unbind gid)
  show ?thesis
  proof (cases "binding n gid")
    case None
    with assms Unbind show ?thesis by (simp add: nat_apply_def free_binding_def)
  next
    case (Some x)
    obtain c s t where x: "x = (c, s, t)" by (cases x)
    let ?r = "filter (\<lambda>(k, _). k \<noteq> gid) (nat_bindings n)"
    show ?thesis
    proof (cases "c - 1 \<le> 0")
      case False
      with set_binding_ok [OF assms(1) Some [unfolded x], of "c - 1"] Some x Unbind show ?thesis
        by (simp add: nat_apply_def free_binding_def)
    next
      case True
      have "mset (s # t # ports_of_bindings ?r) = mset (ports_of_bindings (nat_bindings n))"
        using binding_split [of "nat_bindings n" gid c s t] assms(1) Some x by (simp add: nat_ok_def binding_def)
      then have p: "distinct (s # t # ports_of_bindings ?r) \<longleftrightarrow> distinct (ports_of_bindings (nat_bindings n))"
        "set (s # t # ports_of_bindings ?r) = set (ports_of_bindings (nat_bindings n))"
        by (metis mset_eq_imp_distinct_iff, metis mset_eq_setD)
      have "nat_apply op n = (stop_listening t (stop_listening s n))\<lparr>nat_bindings := ?r\<rparr>"
        using True Some x Unbind by (simp add: nat_apply_def free_binding_def Let_def)
      moreover have "fst ` set (nat_open (stop_listening t (stop_listening s n))) = fst ` set (nat_open n) - {s, t}"
        by (auto simp: stop_listening_open)
      ultimately show ?thesis
        using assms(1) p by (auto simp: nat_ok_def distinct_map_filter)
    qed
  qed
qed

text \<open>C21. Over any sequence of bindings and releases in which the operating system hands out unused ports,
  the open listeners are exactly the two of every binding, no two bindings share a port, and every
  binding has at least one user.\<close>

theorem nat_listeners_exact:
  assumes "ports_fresh ops nat_init"
  shows "let n = fold nat_apply ops nat_init in
     fst ` set (nat_open n) = set (ports_of_bindings (nat_bindings n)) \<and>
     distinct (ports_of_bindings (nat_bindings n)) \<and> list_all (\<lambda>(gid, c, s, t). 1 \<le> c) (nat_bindings n)"
proof -
  have "nat_ok (fold nat_apply ops n)" if "ports_fresh ops n" "nat_ok n" for n
    using that nat_ok_step by (induction ops arbitrary: n) auto
  moreover have "nat_ok nat_init" by (simp add: nat_ok_def nat_init_def)
  ultimately show ?thesis using assms by (auto simp: nat_ok_def list_all_iff Let_def)
qed

theorem nat_listeners_exact_witness:
  "map fst (nat_open (fold nat_apply
     [Bind (4001, 4002) 0 ''10.0.0.2'' 22 23, Bind (4003, 4004) 1 ''10.0.0.3'' 22 23, Unbind 0] nat_init)) = [4004, 4003] \<and>
   {4004, 4003} = set (ports_of_bindings (nat_bindings (fold nat_apply
     [Bind (4001, 4002) 0 ''10.0.0.2'' 22 23, Bind (4003, 4004) 1 ''10.0.0.3'' 22 23, Unbind 0] nat_init)))"
proof -
  let ?ops = "[Bind (4001, 4002) 0 ''10.0.0.2'' 22 23, Bind (4003, 4004) 1 ''10.0.0.3'' 22 23, Unbind 0]"
  have o: "map fst (nat_open (fold nat_apply ?ops nat_init)) = [4004, 4003]"
    by (simp add: nat_apply_def request_binding_def free_binding_def nat_init_def binding_def set_binding_def
        stop_listening_def Let_def)
  have "ports_fresh ?ops nat_init"
    by (simp add: nat_apply_def request_binding_def free_binding_def nat_init_def binding_def set_binding_def
        stop_listening_def Let_def)
  from nat_listeners_exact [OF this] arg_cong [OF o, of set] o show ?thesis by (simp add: Let_def)
qed

text \<open>After \<open>free_all\<close> the bindings are still there: a request for a bound guest is given its closed ports.\<close>

lemma free_all_leaves_dead_ports:
  "let n = free_all (snd (request_binding (4001, 4002) 0 ''10.0.0.2'' 22 23 nat_init)) in
   nat_open n = [] \<and> fst (request_binding (5001, 5002) 0 ''10.0.0.9'' 22 23 n) = (4001, 4002) \<and>
   nat_open (snd (request_binding (5001, 5002) 0 ''10.0.0.9'' 22 23 n)) = []"
  by (simp add: free_all_def request_binding_def nat_init_def binding_def set_binding_def stop_listening_def Let_def)

section \<open>Proxied connections\<close>

text \<open>Once the connection to the guest is made, the proxy relays the attacker's bytes in order and at once;
  before, the first byte raises.\<close>

lemma server_data_relayed:
  "pr_client p \<Longrightarrow> pr_buffer p = [] \<Longrightarrow>
   \<exists>p'. foldl (\<lambda>r d. bindE r (server_data_received d)) (Inr p) ds = Inr p' \<and> pr_sent p' = pr_sent p @ concat ds"
proof (induction ds arbitrary: p)
  case (Cons d ds)
  let ?p = "p\<lparr>pr_sent := pr_sent p @ d, pr_buffer := []\<rparr>"
  from Cons.prems have "server_data_received d p = Inr ?p" by (simp add: server_data_received_def send_data_def)
  with Cons.IH [of ?p] Cons.prems show ?case by simp
qed simp

lemma early_data_raises: "server_data_received d proxy_init = Inl AttributeError"
  by (simp add: server_data_received_def send_data_def proxy_init_def)

end
