(* ===== verification/PoolService.thy ===== *)
theory PoolService
  imports PoolNat Docs
begin

text \<open>
  \<open>Honeypots/cowrie/src/backend_pool/pool_service.py\<close>, with the address assignment of
  \<open>libvirt/backend_service.py\<close> and \<open>util.py\<close>: the pool of guests that attackers are served. The
  producer creates, checks and destroys guests; the consumers request and free them. What lies
  outside is given: the clock (in seconds), the port scans, the random choices and booting a domain.
  An operation is atomic: the model has no interleaving inside one.
\<close>

section \<open>Guests\<close>

datatype gstate = Created | Available | Using | Used | Unavailable | Destroyed

text \<open>The state of a guest is None after a connection that was never requested is reused.\<close>

record guest =
  g_id :: nat
  g_client_ips :: "string list"
  g_connected :: int
  g_state :: "gstate option"
  g_prev_state :: "gstate option"
  g_start :: int
  g_freed :: int
  g_domain :: string
  g_ip :: string
  g_name :: string
  g_snapshot :: string

record pool =
  p_guests :: "guest list"
  p_guest_id :: nat
  p_max_vm :: int
  p_timeout :: int
  p_share :: bool
  p_any_up :: bool
  p_looping :: bool
  p_nat :: nat_service

record pool_config =
  pc_ssh_port :: int
  pc_telnet_port :: int
  pc_local :: bool
  pc_only :: bool
  pc_use_nat :: bool

definition pool_new :: "nat_service \<Rightarrow> pool" where
  "pool_new n = \<lparr>p_guests = [], p_guest_id = 0, p_max_vm = 2, p_timeout = 600, p_share = True, p_any_up = False,
     p_looping = False, p_nat = n\<rparr>"

text \<open>Whether the service refuses to start: neither port is configured.\<close>

definition config_invalid :: "pool_config \<Rightarrow> bool" where
  "config_invalid cfg \<longleftrightarrow> \<not> 0 < pc_ssh_port cfg \<and> \<not> 0 < pc_telnet_port cfg"

definition start_pool :: "pool \<Rightarrow> pool" where
  "start_pool p = p\<lparr>p_guests := [], p_guest_id := 0, p_any_up := False, p_looping := True\<rparr>"

definition stop_pool :: "pool_config \<Rightarrow> pool \<Rightarrow> pool" where
  "stop_pool cfg p =
     (let p = p\<lparr>p_looping := False\<rparr> in
      if (\<not> pc_local cfg \<and> pc_use_nat cfg) \<or> pc_only cfg then p\<lparr>p_nat := free_all (p_nat p)\<rparr> else p)"

definition restart_pool :: "pool_config \<Rightarrow> pool \<Rightarrow> pool" where
  "restart_pool cfg p = start_pool (stop_pool cfg p)"

definition set_configs :: "int \<Rightarrow> int \<Rightarrow> bool \<Rightarrow> pool \<Rightarrow> pool" where
  "set_configs max_vm vm_unused_timeout share_guests p =
     p\<lparr>p_max_vm := max_vm, p_timeout := vm_unused_timeout, p_share := share_guests\<rparr>"

definition in_states :: "gstate list \<Rightarrow> guest \<Rightarrow> bool" where
  "in_states states g = list_ex (\<lambda>s. g_state g = Some s) states"

definition get_guest_states :: "gstate list \<Rightarrow> pool \<Rightarrow> guest list" where
  "get_guest_states states p = filter (in_states states) (p_guests p)"

definition existing_pool_size :: "pool \<Rightarrow> nat" where
  "existing_pool_size p = length (filter (\<lambda>g. g_state g \<noteq> Some Destroyed) (p_guests p))"

definition is_ip_free :: "pool \<Rightarrow> string \<Rightarrow> bool" where
  "is_ip_free p ip = list_all (\<lambda>g. g_ip g \<noteq> ip) (p_guests p)"

text \<open>\<open>scan ip port\<close> is the answer of \<open>nmap_port\<close>.\<close>

type_synonym scanner = "string \<Rightarrow> int \<Rightarrow> bool"

definition has_connectivity :: "pool_config \<Rightarrow> scanner \<Rightarrow> string \<Rightarrow> bool" where
  "has_connectivity cfg scan ip =
     (let has_ssh = (if 0 < pc_ssh_port cfg then scan ip (pc_ssh_port cfg) else False);
          has_telnet = (if 0 < pc_telnet_port cfg \<and> \<not> has_ssh then scan ip (pc_telnet_port cfg) else True)
      in has_ssh \<or> has_telnet)"

section \<open>Producer\<close>

definition mark_timed_out :: "int \<Rightarrow> pool \<Rightarrow> pool" where
  "mark_timed_out now p =
     p\<lparr>p_guests := map (\<lambda>g. if in_states [Used] g \<and> g_freed g + p_timeout p < now
                           then g\<lparr>g_state := Some Unavailable\<rparr> else g) (p_guests p)\<rparr>"

definition check_health :: "pool_config \<Rightarrow> scanner \<Rightarrow> pool \<Rightarrow> pool" where
  "check_health cfg scan p =
     p\<lparr>p_guests := map (\<lambda>g. if in_states [Available, Using, Used] g \<and> \<not> has_connectivity cfg scan (g_ip g)
                           then g\<lparr>g_state := Some Unavailable\<rparr> else g) (p_guests p)\<rparr>"

text \<open>\<open>destroyed dom\<close> tells whether destroying the domain returned rather than raised.\<close>

definition destroy_timed_out :: "(string \<Rightarrow> bool) \<Rightarrow> pool \<Rightarrow> pool" where
  "destroy_timed_out destroyed p =
     p\<lparr>p_guests := map (\<lambda>g. if in_states [Unavailable] g \<and> destroyed (g_domain g)
                           then g\<lparr>g_state := Some Destroyed\<rparr> else g) (p_guests p)\<rparr>"

definition remove_destroyed :: "pool \<Rightarrow> pool" where
  "remove_destroyed p = p\<lparr>p_guests := fold remove1 (get_guest_states [Destroyed] p) (p_guests p)\<rparr>"

definition mark_available :: "pool_config \<Rightarrow> scanner \<Rightarrow> pool \<Rightarrow> pool" where
  "mark_available cfg scan p =
     (let ready = (\<lambda>g. in_states [Created] g \<and> has_connectivity cfg scan (g_ip g)) in
      p\<lparr>p_any_up := (p_any_up p \<or> list_ex ready (p_guests p)),
        p_guests := map (\<lambda>g. if ready g then g\<lparr>g_state := Some Available\<rparr> else g) (p_guests p)\<rparr>)"

text \<open>The network table: random MAC suffixes, made unique, with the addresses 192.168.150.2 and up.\<close>

definition hex_char :: "nat \<Rightarrow> char" where
  "hex_char n = ''0123456789abcdef'' ! n"

definition to_byte :: "nat \<Rightarrow> string" where
  "to_byte n = [hex_char (n div 16 mod 16), hex_char (n mod 16)]"

definition mac_of :: "nat \<times> nat \<Rightarrow> string" where
  "mac_of r = (case r of (a, b) \<Rightarrow> ''48:d2:24:bf:'' @ to_byte a @ '':'' @ to_byte b)"

fun collect_macs :: "(nat \<times> nat) list \<Rightarrow> string list \<Rightarrow> string list" where
  "collect_macs [] macs = macs"
| "collect_macs (r # rs) macs = (if length macs < 253 then collect_macs rs (List.insert (mac_of r) macs) else macs)"

definition generate_network_table :: "string list \<Rightarrow> (string \<times> string) list" where
  "generate_network_table macs = zip macs (map (\<lambda>i. ''192.168.150.'' @ show_nat i) [2..<2 + length macs])"

text \<open>\<open>picks\<close> are the MAC addresses that the successive random choices yield.\<close>

definition get_mac_ip ::
  "(string \<times> string) list \<Rightarrow> string list \<Rightarrow> (string \<Rightarrow> bool) \<Rightarrow> (string \<times> string) result" where
  "get_mac_ip network_table picks ip_tester =
     (case find (\<lambda>mac. case map_of network_table mac of Some ip \<Rightarrow> ip_tester ip | None \<Rightarrow> False) (take 500 picks) of
        Some mac \<Rightarrow> Inr (mac, the (map_of network_table mac))
      | None \<Rightarrow> Inl (RuntimeError ''LibvirtError''))"

text \<open>Creating one guest: its random choices, what booting the domain yields for the MAC, and the start time.\<close>

record boot_in =
  bi_picks :: "string list"
  bi_boot :: "string \<Rightarrow> (string \<times> string) result"
  bi_time :: int

definition create_guest ::
  "(string \<times> string) list \<Rightarrow> boot_in \<Rightarrow> (string \<Rightarrow> bool) \<Rightarrow> (string \<times> string \<times> string) result" where
  "create_guest network_table b ip_tester =
     bindE (get_mac_ip network_table (bi_picks b) ip_tester) (\<lambda>(guest_mac, guest_ip).
     bindE (bi_boot b guest_mac) (\<lambda>(dm, snapshot). Inr (dm, snapshot, guest_ip)))"

definition add_guest :: "string \<times> string \<times> string \<Rightarrow> int \<Rightarrow> pool \<Rightarrow> pool" where
  "add_guest g t p =
     (case g of (dm, snap, guest_ip) \<Rightarrow>
        let p = p\<lparr>p_guests := p_guests p @
               [\<lparr>g_id = p_guest_id p, g_client_ips = [], g_connected = 0, g_state = Some Created, g_prev_state = None,
                 g_start = t, g_freed = -1, g_domain = dm, g_ip = guest_ip, g_name = [], g_snapshot = snap\<rparr>],
               p_guest_id := p_guest_id p + 1\<rparr>
        in if p_guest_id p = 252 then p\<lparr>p_guest_id := 0\<rparr> else p)"

fun create_n ::
  "(string \<times> string) list \<Rightarrow> (nat \<Rightarrow> boot_in) \<Rightarrow> nat \<Rightarrow> pool \<Rightarrow> pool \<times> py_exn option" where
  "create_n network_table boots 0 p = (p, None)"
| "create_n network_table boots (Suc n) p =
     (case create_guest network_table (boots n) (is_ip_free p) of
        Inl e \<Rightarrow> (p, Some e)
      | Inr g \<Rightarrow> create_n network_table boots n (add_guest g (bi_time (boots n)) p))"

definition create_guests ::
  "(string \<times> string) list \<Rightarrow> (nat \<Rightarrow> boot_in) \<Rightarrow> pool \<Rightarrow> pool \<times> py_exn option" where
  "create_guests network_table boots p =
     create_n network_table boots (nat (p_max_vm p - int (existing_pool_size p))) p"

text \<open>One iteration of the producer; it is scheduled again only when no exception ends it.\<close>

record producer_in =
  pi_now :: int
  pi_health :: scanner
  pi_ready :: scanner
  pi_destroyed :: "string \<Rightarrow> bool"
  pi_boots :: "nat \<Rightarrow> boot_in"

definition producer_loop ::
  "pool_config \<Rightarrow> (string \<times> string) list \<Rightarrow> producer_in \<Rightarrow> pool \<Rightarrow> pool \<times> py_exn option" where
  "producer_loop cfg network_table w p =
     (let p = (if 1 < existing_pool_size p
               then destroy_timed_out (pi_destroyed w) (mark_timed_out (pi_now w) p) else p);
          p = remove_destroyed (check_health cfg (pi_health w) p)
      in case create_guests network_table (pi_boots w) p of
           (p, Some e) \<Rightarrow> (p\<lparr>p_looping := False\<rparr>, Some e)
         | (p, None) \<Rightarrow> (mark_available cfg (pi_ready w) p, None))"

section \<open>Consumers\<close>

definition guest_for_ip :: "string \<Rightarrow> pool \<Rightarrow> nat option" where
  "guest_for_ip src_ip p =
     find_index (\<lambda>g. in_states [Used, Using] g \<and> src_ip \<in> set (g_client_ips g)) (p_guests p)"

definition available_guest :: "pool \<Rightarrow> nat option" where
  "available_guest p = find_index (in_states [Available]) (p_guests p)"

definition any_guest :: "pool \<Rightarrow> nat option" where
  "any_guest p =
     (case get_guest_states [Using, Used] p of
        [] \<Rightarrow> None
      | g # gs \<Rightarrow> find_index (\<lambda>x. in_states [Using, Used] x \<and> g_connected x = fold min (map g_connected gs) (g_connected g)) (p_guests p))"

definition choose_guest :: "string \<Rightarrow> pool \<Rightarrow> nat option" where
  "choose_guest src_ip p =
     (case guest_for_ip src_ip p of
        Some i \<Rightarrow> Some i
      | None \<Rightarrow> (case available_guest p of
          Some i \<Rightarrow> Some i
        | None \<Rightarrow> if p_share p then any_guest p else None))"

definition serve_guest :: "string \<Rightarrow> guest \<Rightarrow> guest" where
  "serve_guest src_ip g = g\<lparr>g_prev_state := g_state g, g_state := Some Using, g_connected := g_connected g + 1,
     g_client_ips := g_client_ips g @ [src_ip]\<rparr>"

text \<open>The error value is \<open>NoAvailableVMs\<close>; the state is returned in either case.\<close>

definition request_vm ::
  "pool_config \<Rightarrow> string \<Rightarrow> pool \<Rightarrow> (nat \<times> string \<times> string) option \<times> pool" where
  "request_vm cfg src_ip p =
     (case choose_guest src_ip p of
        None \<Rightarrow> (None, if p_any_up p then stop_pool cfg p else p)
      | Some i \<Rightarrow>
          let g = serve_guest src_ip (p_guests p ! i)
          in (Some (g_id g, g_ip g, g_snapshot g), p\<lparr>p_guests := (p_guests p)[i := g]\<rparr>))"

definition free_vm :: "int \<Rightarrow> nat \<Rightarrow> pool \<Rightarrow> pool" where
  "free_vm now guest_id p =
     p\<lparr>p_guests := update_first (\<lambda>g. g_id g = guest_id)
         (\<lambda>g. let g = g\<lparr>g_freed := now, g_connected := g_connected g - 1\<rparr>
              in if g_connected g = 0 then g\<lparr>g_state := Some Used\<rparr> else g) (p_guests p)\<rparr>"

definition reuse_vm :: "nat \<Rightarrow> pool \<Rightarrow> pool" where
  "reuse_vm guest_id p =
     p\<lparr>p_guests := update_first (\<lambda>g. g_id g = guest_id)
         (\<lambda>g. let g = g\<lparr>g_connected := g_connected g - 1\<rparr>
              in if g_connected g = 0 then g\<lparr>g_state := g_prev_state g, g_prev_state := None\<rparr> else g) (p_guests p)\<rparr>"

end
