(* ===== verification/PoolFacts.thy ===== *)
theory PoolFacts
  imports PoolService
begin

text \<open>
  The guest pool over arbitrary sequences of producer iterations and client operations: guests never
  share an address, the pool never exceeds its configured size, what a request returns, which
  attackers can meet in one guest, and the health check as a condition on its scans.
\<close>

section \<open>Sequences of operations\<close>

datatype pool_op =
    Produce producer_in
  | Request string
  | Free int nat
  | Reuse nat
  | Configure int int bool

fun apply_op :: "pool_config \<Rightarrow> (string \<times> string) list \<Rightarrow> pool_op \<Rightarrow> pool \<Rightarrow> pool" where
  "apply_op cfg tbl (Produce w) p = fst (producer_loop cfg tbl w p)"
| "apply_op cfg tbl (Request ip) p = snd (request_vm cfg ip p)"
| "apply_op cfg tbl (Free now gid) p = free_vm now gid p"
| "apply_op cfg tbl (Reuse gid) p = reuse_vm gid p"
| "apply_op cfg tbl (Configure m t s) p = set_configs m t s p"

definition run_ops :: "pool_config \<Rightarrow> (string \<times> string) list \<Rightarrow> pool_op list \<Rightarrow> pool \<Rightarrow> pool" where
  "run_ops cfg tbl ops p = fold (apply_op cfg tbl) ops p"

lemma run_ops_induct:
  assumes "P p" and "\<And>op q. op \<in> set ops \<Longrightarrow> P q \<Longrightarrow> P (apply_op cfg tbl op q)"
  shows "P (run_ops cfg tbl ops p)"
  using assms unfolding run_ops_def by (induction ops arbitrary: p) auto

text \<open>Field updates that the producer's sweeps make.\<close>

lemma fold_remove1_filter:
  "fold remove1 (filter P xs) xs = filter (\<lambda>x. \<not> P x) xs"
proof (induction xs)
  case (Cons x xs)
  have "fold remove1 ys (x # zs) = x # fold remove1 ys zs" if "x \<notin> set ys" for ys zs
    using that by (induction ys arbitrary: zs) auto
  with Cons show ?case by simp
qed simp

lemma guests_simps [simp]:
  "p_guests (mark_timed_out now p) = map (\<lambda>g. if in_states [Used] g \<and> g_freed g + p_timeout p < now
      then g\<lparr>g_state := Some Unavailable\<rparr> else g) (p_guests p)"
  "p_guests (check_health cfg scan p) = map (\<lambda>g. if in_states [Available, Using, Used] g \<and> \<not> has_connectivity cfg scan (g_ip g)
      then g\<lparr>g_state := Some Unavailable\<rparr> else g) (p_guests p)"
  "p_guests (destroy_timed_out destroyed p) = map (\<lambda>g. if in_states [Unavailable] g \<and> destroyed (g_domain g)
      then g\<lparr>g_state := Some Destroyed\<rparr> else g) (p_guests p)"
  "p_guests (remove_destroyed p) = filter (\<lambda>g. \<not> in_states [Destroyed] g) (p_guests p)"
  "p_guests (mark_available cfg scan p) = map (\<lambda>g. if in_states [Created] g \<and> has_connectivity cfg scan (g_ip g)
      then g\<lparr>g_state := Some Available\<rparr> else g) (p_guests p)"
  "p_guests (set_configs m t s p) = p_guests p"
  by (simp_all add: mark_timed_out_def check_health_def destroy_timed_out_def remove_destroyed_def
      get_guest_states_def fold_remove1_filter mark_available_def set_configs_def Let_def)

lemma stop_pool_guests [simp]: "p_guests (stop_pool cfg p) = p_guests p" "p_max_vm (stop_pool cfg p) = p_max_vm p"
    "p_share (stop_pool cfg p) = p_share p"
  by (simp_all add: stop_pool_def Let_def)

lemma max_vm_simps [simp]:
  "p_max_vm (mark_timed_out now p) = p_max_vm p" "p_max_vm (check_health cfg scan p) = p_max_vm p"
  "p_max_vm (destroy_timed_out destroyed p) = p_max_vm p" "p_max_vm (remove_destroyed p) = p_max_vm p"
  "p_max_vm (mark_available cfg scan p) = p_max_vm p"
  "p_share (mark_timed_out now p) = p_share p" "p_share (check_health cfg scan p) = p_share p"
  "p_share (destroy_timed_out destroyed p) = p_share p" "p_share (remove_destroyed p) = p_share p"
  "p_share (mark_available cfg scan p) = p_share p"
  by (simp_all add: mark_timed_out_def check_health_def destroy_timed_out_def remove_destroyed_def
      mark_available_def Let_def)

text \<open>The sweeps before guests are created; \<open>sweep\<close> is the pool they leave.\<close>

definition sweep :: "pool_config \<Rightarrow> producer_in \<Rightarrow> pool \<Rightarrow> pool" where
  "sweep cfg w p = remove_destroyed (check_health cfg (pi_health w)
     (if 1 < existing_pool_size p then destroy_timed_out (pi_destroyed w) (mark_timed_out (pi_now w) p) else p))"

lemma producer_loop_eq:
  "producer_loop cfg tbl w p =
     (case create_guests tbl (pi_boots w) (sweep cfg w p) of
        (q, Some e) \<Rightarrow> (q\<lparr>p_looping := False\<rparr>, Some e) | (q, None) \<Rightarrow> (mark_available cfg (pi_ready w) q, None))"
  by (simp add: producer_loop_def sweep_def Let_def)

lemma restated:
  "x = (if P h then h\<lparr>g_state := Some u\<rparr> else h) \<Longrightarrow> \<exists>s. x = h\<lparr>g_state := s\<rparr> \<and> (s = g_state h \<or> s = Some u)"
  by (cases "P h") (auto intro: exI [of _ "g_state h"])

lemma sweep_guest:
  assumes "g \<in> set (p_guests (sweep cfg w p))"
  shows "\<exists>h \<in> set (p_guests p). \<exists>s. g = h\<lparr>g_state := s\<rparr> \<and> (s = g_state h \<or> s = Some Unavailable) \<and> s \<noteq> Some Destroyed"
proof -
  let ?q = "if 1 < existing_pool_size p then destroy_timed_out (pi_destroyed w) (mark_timed_out (pi_now w) p) else p"
  from assms obtain h1 where h1: "h1 \<in> set (p_guests ?q)"
    "g = (if in_states [Available, Using, Used] h1 \<and> \<not> has_connectivity cfg (pi_health w) (g_ip h1)
      then h1\<lparr>g_state := Some Unavailable\<rparr> else h1)" and nd: "g_state g \<noteq> Some Destroyed"
    by (auto simp: sweep_def in_states_def)
  have "\<exists>h \<in> set (p_guests p). \<exists>s. h1 = h\<lparr>g_state := s\<rparr> \<and> (s = g_state h \<or> s = Some Unavailable \<or> s = Some Destroyed)"
  proof (cases "1 < existing_pool_size p")
    case False
    with h1(1) show ?thesis by (intro bexI [of _ h1]) (auto intro!: exI [of _ "g_state h1"])
  next
    case True
    with h1(1) obtain h where h: "h \<in> set (p_guests p)"
      and "h1 = (\<lambda>g. if in_states [Unavailable] g \<and> pi_destroyed w (g_domain g) then g\<lparr>g_state := Some Destroyed\<rparr> else g)
        ((\<lambda>g. if in_states [Used] g \<and> g_freed g + p_timeout p < pi_now w then g\<lparr>g_state := Some Unavailable\<rparr> else g) h)"
      by auto
    then obtain h' where h': "h' = (if in_states [Used] h \<and> g_freed h + p_timeout p < pi_now w then h\<lparr>g_state := Some Unavailable\<rparr> else h)"
      "h1 = (if in_states [Unavailable] h' \<and> pi_destroyed w (g_domain h') then h'\<lparr>g_state := Some Destroyed\<rparr> else h')"
      by blast
    obtain s1 where "h' = h\<lparr>g_state := s1\<rparr>" "s1 = g_state h \<or> s1 = Some Unavailable"
      using restated [of h' "\<lambda>h. in_states [Used] h \<and> g_freed h + p_timeout p < pi_now w" h, OF h'(1)] by blast
    moreover obtain s2 where "h1 = h'\<lparr>g_state := s2\<rparr>" "s2 = g_state h' \<or> s2 = Some Destroyed"
      using restated [of h1 "\<lambda>h. in_states [Unavailable] h \<and> pi_destroyed w (g_domain h)" h', OF h'(2)] by blast
    ultimately have "h1 = h\<lparr>g_state := s2\<rparr>" "s2 = g_state h \<or> s2 = Some Unavailable \<or> s2 = Some Destroyed" by auto
    with h show ?thesis by blast
  qed
  then obtain h s where h: "h \<in> set (p_guests p)" "h1 = h\<lparr>g_state := s\<rparr>"
    "s = g_state h \<or> s = Some Unavailable \<or> s = Some Destroyed" by blast
  from restated [of g "\<lambda>h1. in_states [Available, Using, Used] h1 \<and> \<not> has_connectivity cfg (pi_health w) (g_ip h1)" h1, OF h1(2)]
  obtain s' where s': "g = h1\<lparr>g_state := s'\<rparr>" "s' = s \<or> s' = Some Unavailable"
    using h(2) by auto
  from nd s' h have "g = h\<lparr>g_state := s'\<rparr>" "s' \<noteq> Some Destroyed" "s' = g_state h \<or> s' = Some Unavailable" by auto
  with h(1) show ?thesis by blast
qed

lemma sweep_ips: "subseq (map g_ip (p_guests (sweep cfg w p))) (map g_ip (p_guests p))"
proof -
  have f: "map g_ip (map (\<lambda>g. if P g then g\<lparr>g_state := s\<rparr> else g) gs) = map g_ip gs" for P s gs
    by (induction gs) auto
  have "subseq (map g_ip (filter P gs)) (map g_ip gs)" for P gs by (simp add: subseq_map)
  note s = this
  show ?thesis
    unfolding sweep_def guests_simps by (rule subseq_order.trans [OF s]) (simp add: f del: map_map split: if_split)
qed

lemma sweep_fields [simp]: "p_max_vm (sweep cfg w p) = p_max_vm p" "p_share (sweep cfg w p) = p_share p"
  by (simp_all add: sweep_def)

section \<open>Addresses\<close>

lemma create_guest_free:
  "create_guest tbl b tester = Inr (dm, snap, ip) \<Longrightarrow> tester ip"
  by (auto simp: create_guest_def get_mac_ip_def find_Some_iff split: option.splits)

lemma add_guest_simps [simp]:
  "p_guests (add_guest (dm, snap, ip) t p) = p_guests p @
     [\<lparr>g_id = p_guest_id p, g_client_ips = [], g_connected = 0, g_state = Some Created, g_prev_state = None,
       g_start = t, g_freed = -1, g_domain = dm, g_ip = ip, g_name = [], g_snapshot = snap\<rparr>]"
  "p_max_vm (add_guest (dm, snap, ip) t p) = p_max_vm p" "p_share (add_guest (dm, snap, ip) t p) = p_share p"
  by (simp_all add: add_guest_def Let_def)

text \<open>An invariant of pools is kept by creation if appending one fresh guest keeps it.\<close>

lemma create_n_keeps:
  assumes "create_n tbl boots n p = (q, e)" and "P p"
    and "\<And>p dm snap ip t. P p \<Longrightarrow> is_ip_free p ip \<Longrightarrow> P (add_guest (dm, snap, ip) t p)"
  shows "P q"
  using assms(1,2)
proof (induction n arbitrary: p)
  case (Suc n)
  show ?case
  proof (cases "create_guest tbl (boots n) (is_ip_free p)")
    case (Inl x)
    with Suc.prems show ?thesis by simp
  next
    case (Inr g)
    obtain dm snap ip where g: "g = (dm, snap, ip)" by (cases g)
    from Inr g create_guest_free have "is_ip_free p ip" by blast
    from Suc.IH [OF _ assms(3) [OF Suc.prems(2) this]] Suc.prems(1) Inr g show ?thesis by simp
  qed
qed simp

lemma create_n_length:
  "create_n tbl boots n p = (q, e) \<Longrightarrow> length (p_guests q) \<le> length (p_guests p) + n \<and>
     (e = None \<longrightarrow> length (p_guests q) = length (p_guests p) + n)"
proof (induction n arbitrary: p)
  case (Suc n)
  show ?case
  proof (cases "create_guest tbl (boots n) (is_ip_free p)")
    case (Inl x)
    with Suc.prems show ?thesis by auto
  next
    case (Inr g)
    obtain dm snap ip where "g = (dm, snap, ip)" by (cases g)
    with Suc.IH [of "add_guest g (bi_time (boots n)) p"] Suc.prems Inr show ?thesis by auto
  qed
qed simp

lemma mark_available_ips: "map g_ip (p_guests (mark_available cfg scan p)) = map g_ip (p_guests p)"
  by simp

lemma request_ips: "map g_ip (p_guests (snd (request_vm cfg ip p))) = map g_ip (p_guests p)"
proof (cases "choose_guest ip p")
  case None
  then show ?thesis by (simp add: request_vm_def)
next
  case (Some i)
  have "(map g_ip (p_guests p))[i := g_ip (p_guests p ! i)] = map g_ip (p_guests p)"
    by (metis list_update_beyond list_update_id nth_map length_map not_le)
  then have "map g_ip ((p_guests p)[i := serve_guest ip (p_guests p ! i)]) = map g_ip (p_guests p)"
    by (simp add: map_update serve_guest_def)
  with Some show ?thesis by (simp add: request_vm_def Let_def)
qed

lemma free_ips: "map g_ip (p_guests (free_vm now gid p)) = map g_ip (p_guests p)"
  "map g_ip (p_guests (reuse_vm gid p)) = map g_ip (p_guests p)"
  by (simp_all add: free_vm_def reuse_vm_def Let_def update_first_map)

lemma subseq_distinct': "subseq xs ys \<Longrightarrow> distinct ys \<Longrightarrow> distinct xs"
  by (induction rule: list_emb.induct) (auto dest: list_emb_set)

lemma producer_ips:
  assumes "distinct (map g_ip (p_guests p))"
  shows "distinct (map g_ip (p_guests (fst (producer_loop cfg tbl w p))))"
proof -
  obtain q e where q: "create_guests tbl (pi_boots w) (sweep cfg w p) = (q, e)" by fastforce
  have "distinct (map g_ip (p_guests (sweep cfg w p)))" using subseq_distinct' [OF sweep_ips assms] .
  then have "distinct (map g_ip (p_guests q))"
    by (rule create_n_keeps [OF q [unfolded create_guests_def], where P = "\<lambda>p. distinct (map g_ip (p_guests p))"])
      (auto simp: is_ip_free_def list_all_iff)
  then show ?thesis using mark_available_ips [of cfg "pi_ready w" q]
    by (auto simp: producer_loop_eq q split: option.splits simp del: guests_simps map_map)
qed

text \<open>C20. No two guests ever share an address, whatever sequence of producer iterations, requests, frees and
  configurations the pool goes through, and even when creating a guest fails.\<close>

theorem guest_ips_distinct:
  "distinct (map g_ip (p_guests (run_ops cfg tbl ops (start_pool (pool_new n)))))"
proof (rule run_ops_induct)
  show "distinct (map g_ip (p_guests (start_pool (pool_new n))))" by (simp add: start_pool_def pool_new_def)
  fix op and q :: pool
  assume "distinct (map g_ip (p_guests q))"
  then show "distinct (map g_ip (p_guests (apply_op cfg tbl op q)))"
    by (cases op) (simp_all add: producer_ips request_ips free_ips)
qed

section \<open>Size\<close>

text \<open>Between operations no guest is \<open>Destroyed\<close>, and no saved state is.\<close>

definition live :: "guest \<Rightarrow> bool" where
  "live g \<longleftrightarrow> g_state g \<noteq> Some Destroyed \<and> g_prev_state g \<noteq> Some Destroyed"

definition size_ok :: "int \<Rightarrow> pool \<Rightarrow> bool" where
  "size_ok B p \<longleftrightarrow> int (length (p_guests p)) \<le> B \<and> p_max_vm p \<le> B \<and> (\<forall>g \<in> set (p_guests p). live g)"

lemma all_live_size: "\<forall>g \<in> set (p_guests p). live g \<Longrightarrow> existing_pool_size p = length (p_guests p)"
  by (simp add: existing_pool_size_def live_def)

lemma update_first_live:
  "\<forall>g \<in> set gs. live g \<Longrightarrow> (\<And>g. live g \<Longrightarrow> live (f g)) \<Longrightarrow> \<forall>g \<in> set (update_first P f gs). live g"
  by (rule update_first_all)

lemma choose_guest_usable:
  assumes "choose_guest ip p = Some i"
  shows "i < length (p_guests p)" and "in_states [Available, Using, Used] (p_guests p ! i)"
  using assms
  by (auto simp: choose_guest_def guest_for_ip_def available_guest_def any_guest_def in_states_def
      split: option.splits if_splits list.splits dest!: find_index_Some)

lemma size_ok_request: "size_ok B p \<Longrightarrow> size_ok B (snd (request_vm cfg ip p))"
proof (cases "choose_guest ip p")
  case None
  then show "size_ok B p \<Longrightarrow> ?thesis" by (simp add: request_vm_def size_ok_def)
next
  case (Some i)
  assume p: "size_ok B p"
  then have "live (serve_guest ip (p_guests p ! i))"
    using choose_guest_usable [OF Some] by (auto simp: size_ok_def live_def serve_guest_def)
  with p Some show ?thesis
    by (auto simp: request_vm_def Let_def size_ok_def dest!: subsetD [OF set_update_subset_insert])
qed

lemma size_ok_producer:
  assumes "size_ok B p"
  shows "size_ok B (fst (producer_loop cfg tbl w p))"
proof -
  let ?s = "sweep cfg w p"
  have live: "\<forall>g \<in> set (p_guests ?s). live g"
  proof
    fix g assume "g \<in> set (p_guests ?s)"
    then obtain h s where "h \<in> set (p_guests p)" "g = h\<lparr>g_state := s\<rparr>" "s \<noteq> Some Destroyed"
      using sweep_guest by blast
    with assms show "live g" by (auto simp: size_ok_def live_def)
  qed
  have len: "length (p_guests ?s) \<le> length (p_guests p)"
    using list_emb_length [OF sweep_ips [of cfg w p]] by simp
  obtain q e where q: "create_guests tbl (pi_boots w) ?s = (q, e)" by fastforce
  note n = q [unfolded create_guests_def]
  have "p_max_vm q \<le> B \<and> (\<forall>g \<in> set (p_guests q). live g)"
    using live assms
    by (intro create_n_keeps [OF n, where P = "\<lambda>p. p_max_vm p \<le> B \<and> (\<forall>g \<in> set (p_guests p). live g)"])
      (auto simp: size_ok_def live_def)
  moreover have "int (length (p_guests q)) \<le> B"
    using conjunct1 [OF create_n_length [OF n]] len assms all_live_size [OF live]
    unfolding size_ok_def sweep_fields by linarith
  ultimately have "size_ok B q" by (simp add: size_ok_def)
  then show ?thesis
    by (auto simp: producer_loop_eq q size_ok_def live_def split: option.splits)
qed

lemma size_ok_op:
  assumes "size_ok B p" and "case op of Configure m t s \<Rightarrow> m \<le> B | _ \<Rightarrow> True"
  shows "size_ok B (apply_op cfg tbl op p)"
proof (cases op)
  case (Free now gid)
  have "\<forall>g \<in> set (p_guests (free_vm now gid p)). live g"
    unfolding free_vm_def using assms by (simp, intro update_first_live) (auto simp: size_ok_def live_def Let_def)
  with assms Free show ?thesis by (simp add: size_ok_def free_vm_def)
next
  case (Reuse gid)
  have "\<forall>g \<in> set (p_guests (reuse_vm gid p)). live g"
    unfolding reuse_vm_def using assms by (simp, intro update_first_live) (auto simp: size_ok_def live_def Let_def)
  with assms Reuse show ?thesis by (simp add: size_ok_def reuse_vm_def)
next
  case (Configure m t s)
  with assms show ?thesis by (auto simp: size_ok_def set_configs_def)
qed (use assms size_ok_request size_ok_producer in simp_all)

text \<open>C22. The pool never holds more guests than the largest size it was ever configured to.\<close>

theorem pool_size_bounded:
  assumes "2 \<le> B" and "\<forall>m t s. Configure m t s \<in> set ops \<longrightarrow> m \<le> B"
  shows "int (existing_pool_size (run_ops cfg tbl ops (start_pool (pool_new n)))) \<le> B"
proof -
  have "size_ok B (run_ops cfg tbl ops (start_pool (pool_new n)))"
  proof (rule run_ops_induct)
    show "size_ok B (start_pool (pool_new n))" using assms(1) by (simp add: size_ok_def start_pool_def pool_new_def)
    fix op and q :: pool
    assume "op \<in> set ops" "size_ok B q"
    then show "size_ok B (apply_op cfg tbl op q)"
      using assms(2) by (intro size_ok_op) (auto split: pool_op.splits)
  qed
  then show ?thesis using all_live_size by (auto simp: size_ok_def)
qed

definition demo_pool_config :: pool_config where
  "demo_pool_config = \<lparr>pc_ssh_port = 22, pc_telnet_port = 23, pc_local = True, pc_only = False, pc_use_nat = False\<rparr>"

definition demo_table :: "(string \<times> string) list" where
  "demo_table = generate_network_table [''m1'', ''m2'', ''m3'']"

definition demo_boot :: "string \<Rightarrow> int \<Rightarrow> boot_in" where
  "demo_boot mac t = \<lparr>bi_picks = [mac], bi_boot = (\<lambda>m. Inr (m, m)), bi_time = t\<rparr>"

definition demo_produce :: "int \<Rightarrow> pool_op" where
  "demo_produce t = Produce \<lparr>pi_now = t, pi_health = (\<lambda>_ _. True), pi_ready = (\<lambda>_ _. True), pi_destroyed = (\<lambda>_. True),
     pi_boots = (\<lambda>n. if n = 0 then demo_boot ''m1'' t else demo_boot ''m2'' t)\<rparr>"

abbreviation demo_run :: "pool_op list \<Rightarrow> pool" where
  "demo_run ops \<equiv> run_ops demo_pool_config demo_table ops (start_pool (pool_new nat_init))"

theorem pool_size_bounded_witness:
  "int (existing_pool_size (demo_run [demo_produce 5, Request ''1.2.3.4'', demo_produce 10])) \<le> 2 \<and>
   existing_pool_size (demo_run [demo_produce 5, Request ''1.2.3.4'', demo_produce 10]) = 2"
proof
  show "int (existing_pool_size (demo_run [demo_produce 5, Request ''1.2.3.4'', demo_produce 10])) \<le> 2"
    by (rule pool_size_bounded) (auto simp: demo_produce_def)
  show "existing_pool_size (demo_run [demo_produce 5, Request ''1.2.3.4'', demo_produce 10]) = 2" by code_simp
qed

section \<open>Requests\<close>

lemma any_guest_Some:
  assumes "any_guest p = Some i"
  shows "i < length (p_guests p)" and "in_states [Using, Used] (p_guests p ! i)"
    and "\<forall>g \<in> set (get_guest_states [Using, Used] p). g_connected (p_guests p ! i) \<le> g_connected g"
proof -
  from assms obtain g gs where gs: "get_guest_states [Using, Used] p = g # gs"
    and f: "find_index (\<lambda>x. in_states [Using, Used] x \<and> g_connected x = fold min (map g_connected gs) (g_connected g)) (p_guests p) = Some i"
    by (auto simp: any_guest_def split: list.splits)
  have m: "fold min (map g_connected gs) (g_connected g) = Min (set (g_connected g # map g_connected gs))"
    by (rule Min.set_eq_fold [symmetric])
  from find_index_Some [OF f] m show "i < length (p_guests p)" "in_states [Using, Used] (p_guests p ! i)"
    "\<forall>g \<in> set (get_guest_states [Using, Used] p). g_connected (p_guests p ! i) \<le> g_connected g"
    by (auto simp: gs)
qed

lemma any_guest_None:
  assumes "any_guest p = None"
  shows "get_guest_states [Using, Used] p = []"
proof (rule ccontr)
  assume "get_guest_states [Using, Used] p \<noteq> []"
  then obtain g gs where gs: "get_guest_states [Using, Used] p = g # gs" by (cases "get_guest_states [Using, Used] p") auto
  have "fold min (map g_connected gs) (g_connected g) = Min (set (g_connected g # map g_connected gs))"
    by (rule Min.set_eq_fold [symmetric])
  also have "\<dots> \<in> set (g_connected g # map g_connected gs)" by (intro Min_in) auto
  finally have "fold min (map g_connected gs) (g_connected g) \<in> g_connected ` set (g # gs)" by simp
  then obtain h where h: "h \<in> set (g # gs)" "g_connected h = fold min (map g_connected gs) (g_connected g)" by (metis imageE)
  then have "h \<in> set (get_guest_states [Using, Used] p)" by (simp add: gs)
  then have "h \<in> set (p_guests p)" "in_states [Using, Used] h" by (simp_all add: get_guest_states_def)
  moreover from assms have "\<forall>x \<in> set (p_guests p). \<not> (in_states [Using, Used] x \<and>
      g_connected x = fold min (map g_connected gs) (g_connected g))"
    by (simp add: any_guest_def gs find_index_None)
  ultimately show False using h(2) by blast
qed

lemma in_states_cong: "set xs = set ys \<Longrightarrow> in_states xs g = in_states ys g"
  by (auto simp: in_states_def list_ex_iff)

text \<open>What a request returns: an attacker who already has a guest in use or used gets the first such guest;
  otherwise the first available guest; otherwise, only if guests are shared, one in use with the fewest
  connections; the guest is then in use, counts one more connection and remembers the address. If there
  is no such guest the request fails, and it also stops the pool if a guest was ever up.\<close>

theorem request_vm_choice:
  "case choose_guest src p of
     Some i \<Rightarrow>
       i < length (p_guests p) \<and>
       request_vm cfg src p =
         (Some (g_id (p_guests p ! i), g_ip (p_guests p ! i), g_snapshot (p_guests p ! i)),
          p\<lparr>p_guests := (p_guests p)[i := (p_guests p ! i)\<lparr>g_prev_state := g_state (p_guests p ! i), g_state := Some Using,
             g_connected := g_connected (p_guests p ! i) + 1, g_client_ips := g_client_ips (p_guests p ! i) @ [src]\<rparr>]\<rparr>) \<and>
       (if list_ex (\<lambda>g. in_states [Using, Used] g \<and> src \<in> set (g_client_ips g)) (p_guests p)
        then in_states [Using, Used] (p_guests p ! i) \<and> src \<in> set (g_client_ips (p_guests p ! i))
        else if list_ex (in_states [Available]) (p_guests p) then g_state (p_guests p ! i) = Some Available
        else p_share p \<and> in_states [Using, Used] (p_guests p ! i) \<and>
          list_all (\<lambda>g. g_connected (p_guests p ! i) \<le> g_connected g) (get_guest_states [Using, Used] p))
   | None \<Rightarrow>
       fst (request_vm cfg src p) = None \<and>
       \<not> list_ex (in_states (if p_share p then [Available, Using, Used] else [Available])) (p_guests p) \<and>
       p_looping (snd (request_vm cfg src p)) = (p_looping p \<and> \<not> p_any_up p)"
proof -
  have uu: "in_states [Used, Using] g = in_states [Using, Used] g" for g by (rule in_states_cong) auto
  have all: "in_states [Available, Using, Used] g \<longleftrightarrow> in_states [Available] g \<or> in_states [Using, Used] g" for g
    by (auto simp: in_states_def)
  have avail: "in_states [Available] g \<longleftrightarrow> g_state g = Some Available" for g by (auto simp: in_states_def)
  show ?thesis
  proof (cases "guest_for_ip src p")
    case (Some i)
    then have c: "choose_guest src p = Some i" by (simp add: choose_guest_def)
    from find_index_Some [OF Some [unfolded guest_for_ip_def]] uu
    have "i < length (p_guests p)" "in_states [Using, Used] (p_guests p ! i) \<and> src \<in> set (g_client_ips (p_guests p ! i))"
      by auto
    then show ?thesis by (auto simp: c request_vm_def Let_def serve_guest_def list_ex_iff)
  next
    case None
    then have none: "\<not> list_ex (\<lambda>g. in_states [Using, Used] g \<and> src \<in> set (g_client_ips g)) (p_guests p)"
      by (auto simp: guest_for_ip_def find_index_None list_ex_iff uu)
    show ?thesis
    proof (cases "available_guest p")
      case (Some i)
      with None have c: "choose_guest src p = Some i" by (simp add: choose_guest_def)
      from find_index_Some [OF Some [unfolded available_guest_def]]
      have i: "i < length (p_guests p)" "g_state (p_guests p ! i) = Some Available" by (auto simp: avail)
      then have "list_ex (in_states [Available]) (p_guests p)" by (auto simp: list_ex_iff avail intro!: bexI [of _ "p_guests p ! i"])
      with i none c show ?thesis by (simp add: request_vm_def Let_def serve_guest_def)
    next
      case no: None
      then have na: "\<not> list_ex (in_states [Available]) (p_guests p)"
        by (auto simp: available_guest_def find_index_None list_ex_iff)
      show ?thesis
      proof (cases "p_share p \<and> any_guest p \<noteq> None")
        case True
        then obtain i where i: "any_guest p = Some i" by auto
        with None no True have c: "choose_guest src p = Some i" by (simp add: choose_guest_def)
        from any_guest_Some [OF i] none na True c show ?thesis
          by (simp add: request_vm_def Let_def serve_guest_def list_all_iff)
      next
        case False
        with None no have c: "choose_guest src p = None" by (auto simp: choose_guest_def)
        have "get_guest_states [Using, Used] p = []" if "p_share p" using that False any_guest_None by blast
        with na have "\<not> list_ex (in_states (if p_share p then [Available, Using, Used] else [Available])) (p_guests p)"
          by (auto simp: list_ex_iff all get_guest_states_def filter_empty_conv)
        with c show ?thesis by (auto simp: request_vm_def stop_pool_def Let_def)
      qed
    qed
  qed
qed

section \<open>Isolation of attackers\<close>

text \<open>Without sharing, a guest that is not in use remembers no address, and one that is remembers one.\<close>

definition one_client :: "guest \<Rightarrow> bool" where
  "one_client g \<longleftrightarrow> (in_states [Created, Available] g \<longrightarrow> g_client_ips g = []) \<and> (\<exists>ip. set (g_client_ips g) \<subseteq> {ip}) \<and>
     (g_state g = None \<longrightarrow> False)"

definition isolated :: "pool \<Rightarrow> bool" where
  "isolated p \<longleftrightarrow> \<not> p_share p \<and> (\<forall>g \<in> set (p_guests p). one_client g)"

lemma one_client_restate: "one_client h \<Longrightarrow> s = g_state h \<or> s = Some Unavailable \<Longrightarrow> one_client (h\<lparr>g_state := s\<rparr>)"
  by (auto simp: one_client_def in_states_def)

lemma isolated_request:
  assumes "isolated p"
  shows "isolated (snd (request_vm cfg src p))"
proof (cases "choose_guest src p")
  case None
  with assms show ?thesis by (simp add: request_vm_def isolated_def)
next
  case (Some i)
  note u = choose_guest_usable [OF Some]
  have "one_client (serve_guest src (p_guests p ! i))"
  proof (cases "guest_for_ip src p")
    case (Some j)
    with \<open>choose_guest src p = Some i\<close> have "j = i" by (simp add: choose_guest_def)
    with find_index_Some [OF Some [unfolded guest_for_ip_def]] assms
    have "one_client (p_guests p ! i)" "src \<in> set (g_client_ips (p_guests p ! i))" by (auto simp: isolated_def)
    then show ?thesis by (auto simp: one_client_def serve_guest_def in_states_def)
  next
    case none: None
    with \<open>choose_guest src p = Some i\<close> assms have "available_guest p = Some i"
      by (auto simp: choose_guest_def isolated_def split: option.splits)
    with find_index_Some [of "in_states [Available]" "p_guests p" i] assms
    have "one_client (p_guests p ! i)" "in_states [Available] (p_guests p ! i)"
      by (auto simp: available_guest_def isolated_def)
    then have "g_client_ips (p_guests p ! i) = []" by (auto simp: one_client_def in_states_def)
    then show ?thesis by (auto simp: one_client_def serve_guest_def in_states_def)
  qed
  with assms Some show ?thesis
    by (auto simp: request_vm_def Let_def isolated_def dest!: subsetD [OF set_update_subset_insert])
qed

lemma isolated_producer:
  assumes "isolated p"
  shows "isolated (fst (producer_loop cfg tbl w p))"
proof -
  let ?s = "sweep cfg w p"
  have s: "isolated ?s"
    unfolding isolated_def
  proof (intro conjI ballI)
    show "\<not> p_share ?s" using assms by (simp add: isolated_def)
    fix g assume "g \<in> set (p_guests ?s)"
    then obtain h s where "h \<in> set (p_guests p)" "g = h\<lparr>g_state := s\<rparr>" "s = g_state h \<or> s = Some Unavailable"
      using sweep_guest by blast
    with assms show "one_client g" using one_client_restate by (auto simp: isolated_def)
  qed
  obtain q e where q: "create_guests tbl (pi_boots w) ?s = (q, e)" by fastforce
  have "isolated q"
    by (rule create_n_keeps [OF q [unfolded create_guests_def], where P = isolated, OF s])
      (auto simp: isolated_def one_client_def in_states_def)
  moreover have "one_client (g\<lparr>g_state := Some Available\<rparr>)" if "one_client g" "in_states [Created] g" for g
    using that by (auto simp: one_client_def in_states_def)
  ultimately show ?thesis
    by (auto simp: producer_loop_eq q isolated_def split: option.splits)
qed

lemma isolated_free: "isolated p \<Longrightarrow> isolated (free_vm now gid p)"
  unfolding isolated_def free_vm_def
  by (simp, intro update_first_all) (auto simp: one_client_def in_states_def Let_def)

text \<open>C23. Without sharing, as long as no client returns a guest unused (the u operation), two attackers
  never meet in a guest: over any sequence of the other operations every guest remembers at most one
  address.\<close>

theorem attackers_isolated:
  assumes "\<forall>gid. Reuse gid \<notin> set ops" and "\<forall>m t s. Configure m t s \<in> set ops \<longrightarrow> \<not> s"
  shows "list_all (\<lambda>g. \<exists>ip. set (g_client_ips g) \<subseteq> {ip})
     (p_guests (run_ops cfg tbl ops (set_configs m t False (start_pool (pool_new n)))))"
proof -
  have "isolated (run_ops cfg tbl ops (set_configs m t False (start_pool (pool_new n))))"
  proof (rule run_ops_induct)
    show "isolated (set_configs m t False (start_pool (pool_new n)))"
      by (simp add: isolated_def start_pool_def pool_new_def set_configs_def)
    fix op and q :: pool
    assume op: "op \<in> set ops" and q: "isolated q"
    show "isolated (apply_op cfg tbl op q)"
    proof (cases op)
      case (Reuse gid)
      with op assms(1) show ?thesis by blast
    next
      case (Configure m t s)
      with op assms(2) have "\<not> s" by blast
      with q Configure show ?thesis by (simp add: isolated_def set_configs_def)
    qed (use q isolated_request isolated_producer isolated_free in simp_all)
  qed
  then have "\<forall>g \<in> set (p_guests (run_ops cfg tbl ops (set_configs m t False (start_pool (pool_new n))))). one_client g"
    unfolding isolated_def by (rule conjunct2)
  then show ?thesis unfolding list_all_iff one_client_def by blast
qed

theorem attackers_isolated_witness:
  "list_all (\<lambda>g. \<exists>ip. set (g_client_ips g) \<subseteq> {ip})
     (p_guests (run_ops demo_pool_config demo_table [demo_produce 5, Request ''1.2.3.4'', Request ''5.6.7.8'']
        (set_configs 2 600 False (start_pool (pool_new nat_init))))) \<and>
   map g_client_ips (p_guests (run_ops demo_pool_config demo_table [demo_produce 5, Request ''1.2.3.4'', Request ''5.6.7.8'']
        (set_configs 2 600 False (start_pool (pool_new nat_init))))) = [[''1.2.3.4''], [''5.6.7.8'']]"
proof
  show "list_all (\<lambda>g. \<exists>ip. set (g_client_ips g) \<subseteq> {ip})
     (p_guests (run_ops demo_pool_config demo_table [demo_produce 5, Request ''1.2.3.4'', Request ''5.6.7.8'']
        (set_configs 2 600 False (start_pool (pool_new nat_init)))))"
    by (rule attackers_isolated) (auto simp: demo_produce_def)
  show "map g_client_ips (p_guests (run_ops demo_pool_config demo_table [demo_produce 5, Request ''1.2.3.4'', Request ''5.6.7.8'']
        (set_configs 2 600 False (start_pool (pool_new nat_init))))) = [[''1.2.3.4''], [''5.6.7.8'']]"
    by code_simp
qed

text \<open>Returning a guest unused breaks two promises of the pool. Without sharing, an attacker who comes
  back after his guest was handed to another one is put into that guest with him. And a guest that was
  requested twice and returned unused twice stays in use with no connection, so that it is never
  timed out.\<close>

theorem reuse_breaks_pool:
  "map g_client_ips (p_guests (run_ops demo_pool_config demo_table
      [demo_produce 5, Request ''1.2.3.4'', Reuse 0, Request ''5.6.7.8'', Request ''1.2.3.4'']
      (set_configs 1 600 False (start_pool (pool_new nat_init))))) = [[''1.2.3.4'', ''5.6.7.8'', ''1.2.3.4'']] \<and>
   map (\<lambda>g. (g_connected g, g_state g)) (p_guests (demo_run
      [Configure 1 600 True, demo_produce 5, Request ''1.2.3.4'', Request ''1.2.3.4'', Reuse 0, Reuse 0])) =
     [(0, Some Using)]"
proof
  show "map g_client_ips (p_guests (run_ops demo_pool_config demo_table
      [demo_produce 5, Request ''1.2.3.4'', Reuse 0, Request ''5.6.7.8'', Request ''1.2.3.4'']
      (set_configs 1 600 False (start_pool (pool_new nat_init))))) = [[''1.2.3.4'', ''5.6.7.8'', ''1.2.3.4'']]"
    by code_simp
  show "map (\<lambda>g. (g_connected g, g_state g)) (p_guests (demo_run
      [Configure 1 600 True, demo_produce 5, Request ''1.2.3.4'', Request ''1.2.3.4'', Reuse 0, Reuse 0])) =
     [(0, Some Using)]"
    by code_simp
qed

section \<open>Health\<close>

text \<open>The health check as a condition on the scans: it holds when a service it knows answers, but also for
  every guest when no Telnet port is configured, so an ssh-only pool never notices a dead guest.\<close>

lemma has_connectivity_iff:
  "has_connectivity cfg scan ip \<longleftrightarrow>
     pc_telnet_port cfg \<le> 0 \<or> scan ip (pc_telnet_port cfg) \<or> 0 < pc_ssh_port cfg \<and> scan ip (pc_ssh_port cfg)"
  by (auto simp: has_connectivity_def Let_def)

text \<open>A pool of size one never replaces its guest: once the only guest is marked unavailable, no
  iteration of the producer changes the pool, and every request fails.\<close>

theorem single_guest_pool_stuck:
  assumes "p_guests p = [g]" and "g_state g = Some Unavailable" and "p_max_vm p \<le> 1"
  shows "producer_loop cfg tbl w p = (p, None) \<and> fst (request_vm cfg src p) = None"
proof -
  have "existing_pool_size p = 1" using assms by (simp add: existing_pool_size_def)
  have "sweep cfg w p = p"
    by (rule pool.equality) (use assms \<open>existing_pool_size p = 1\<close> in
      \<open>simp_all add: sweep_def in_states_def check_health_def remove_destroyed_def get_guest_states_def\<close>)
  then have "producer_loop cfg tbl w p = (p, None)"
    using assms \<open>existing_pool_size p = 1\<close>
    by (simp add: producer_loop_eq create_guests_def mark_available_def in_states_def)
  moreover have "choose_guest src p = None"
    using assms by (simp add: choose_guest_def guest_for_ip_def available_guest_def any_guest_def get_guest_states_def in_states_def)
  ultimately show ?thesis by (simp add: request_vm_def)
qed

text \<open>A pool of one guest whose guest fails its first health check.\<close>

definition demo_dead :: producer_in where
  "demo_dead = \<lparr>pi_now = 20, pi_health = (\<lambda>_ _. False), pi_ready = (\<lambda>_ _. True), pi_destroyed = (\<lambda>_. True),
     pi_boots = (\<lambda>n. demo_boot ''m1'' 20)\<rparr>"

abbreviation demo_stuck :: pool where
  "demo_stuck \<equiv> demo_run [Configure 1 600 True, demo_produce 5, Produce demo_dead]"

theorem single_guest_pool_stuck_witness:
  "map g_state (p_guests demo_stuck) = [Some Unavailable] \<and>
   producer_loop demo_pool_config demo_table demo_dead demo_stuck = (demo_stuck, None)"
proof -
  have s: "map g_state (p_guests demo_stuck) = [Some Unavailable]" by code_simp
  then obtain g where "p_guests demo_stuck = [g]" "g_state g = Some Unavailable" by auto
  moreover have "p_max_vm demo_stuck \<le> 1" by code_simp
  ultimately show ?thesis using single_guest_pool_stuck s by blast
qed

end
