(* ===== verification/PoolWire.thy ===== *)
theory PoolWire
  imports PoolService "HOL-Library.Word"
begin

text \<open>
  The wire protocol of the pool: \<open>Honeypots/cowrie/src/backend_pool/pool_server.py\<close> on one side,
  \<open>cowrie/pool_interface/client.py\<close> on the other. Messages are lists of bytes; packing a value out of
  range and unpacking a wrong length raise \<open>struct.error\<close>. A call of the server receives one message.
\<close>

type_synonym bytes = "8 word list"

section \<open>Packing\<close>

definition pack_I :: "int \<Rightarrow> bytes result" where
  "pack_I n =
     (if 0 \<le> n \<and> n < 2 ^ 32
      then Inr [word_of_int (n div 2 ^ 24), word_of_int (n div 2 ^ 16), word_of_int (n div 2 ^ 8), word_of_int n]
      else Inl StructError)"

definition pack_H :: "int \<Rightarrow> bytes result" where
  "pack_H n = (if 0 \<le> n \<and> n < 2 ^ 16 then Inr [word_of_int (n div 2 ^ 8), word_of_int n] else Inl StructError)"

definition pack_s :: "nat \<Rightarrow> bytes \<Rightarrow> bytes" where
  "pack_s len bs = take len bs @ replicate (len - length bs) 0"

definition unpack_I :: "bytes \<Rightarrow> int result" where
  "unpack_I bs = (case bs of
     [a, b, c, d] \<Rightarrow> Inr (uint a * 2 ^ 24 + uint b * 2 ^ 16 + uint c * 2 ^ 8 + uint d) | _ \<Rightarrow> Inl StructError)"

definition unpack_H :: "bytes \<Rightarrow> int result" where
  "unpack_H bs = (case bs of [a, b] \<Rightarrow> Inr (uint a * 2 ^ 8 + uint b) | _ \<Rightarrow> Inl StructError)"

definition unpack_s :: "int \<Rightarrow> bytes \<Rightarrow> bytes result" where
  "unpack_s len bs = (if int (length bs) = len then Inr bs else Inl StructError)"

text \<open>UTF-8 on the characters of the model; an address has only ASCII ones.\<close>

definition byte :: "char \<Rightarrow> 8 word" where
  "byte c = word_of_int (int (code c))"

definition encode :: "string \<Rightarrow> bytes" where
  "encode s = concat (map (\<lambda>c. if code c < 128 then [byte c]
     else [word_of_int (192 + int (code c) div 64), word_of_int (128 + int (code c) mod 64)]) s)"

fun decode :: "bytes \<Rightarrow> string result" where
  "decode [] = Inr []"
| "decode [b] = (if uint b < 128 then Inr [char_of (nat (uint b))] else Inl ValueError)"
| "decode (b # d # bs) =
     (if uint b < 128 then bindE (decode (d # bs)) (\<lambda>s. Inr (char_of (nat (uint b)) # s))
      else if uint b \<in> {194, 195} \<and> uint d div 64 = 2
      then bindE (decode bs) (\<lambda>s. Inr (char_of (nat ((uint b - 192) * 64 + uint d mod 64)) # s))
      else Inl ValueError)"

section \<open>Client messages\<close>

definition initialisation :: "int \<Rightarrow> int \<Rightarrow> bool \<Rightarrow> bytes result" where
  "initialisation max_vms vm_unused_timeout share_guests =
     bindE (pack_I max_vms) (\<lambda>m. bindE (pack_I vm_unused_timeout) (\<lambda>t.
       Inr ([byte CHR ''i''] @ m @ t @ [if share_guests then 1 else 0])))"

definition vm_request :: "string \<Rightarrow> bytes result" where
  "vm_request src_ip =
     bindE (pack_H (int (length src_ip))) (\<lambda>l.
       Inr ([byte CHR ''r''] @ l @ pack_s (length src_ip) (encode src_ip)))"

definition vm_free :: "bool \<Rightarrow> int option \<Rightarrow> bytes option result" where
  "vm_free backend_dirty vm_id =
     (case vm_id of
        None \<Rightarrow> Inr None
      | Some i \<Rightarrow> bindE (pack_I i) (\<lambda>b. Inr (Some ((if backend_dirty then byte CHR ''f'' else byte CHR ''u'') # b))))"

section \<open>The server\<close>

record server_config =
  sc_pool :: pool_config
  sc_nat_public_ip :: string
  sc_ssh_port :: int
  sc_telnet_port :: int

record pool_server =
  sv_pool :: pool
  sv_initialised :: bool

text \<open>The ports are read again here, with 22 and 23 where the pool falls back on -1.\<close>

definition uses_nat :: "server_config \<Rightarrow> bool" where
  "uses_nat cfg \<longleftrightarrow> (\<not> pc_local (sc_pool cfg) \<and> pc_use_nat (sc_pool cfg)) \<or> pc_only (sc_pool cfg)"

definition vm_response :: "int \<Rightarrow> string \<Rightarrow> int \<Rightarrow> int \<Rightarrow> string \<Rightarrow> bytes result" where
  "vm_response guest_id ip ssh_port telnet_port snapshot =
     bindE (pack_I 0) (\<lambda>z. bindE (pack_I guest_id) (\<lambda>g. bindE (pack_H (int (length ip))) (\<lambda>l.
     bindE (pack_H ssh_port) (\<lambda>s. bindE (pack_H telnet_port) (\<lambda>t. bindE (pack_H (int (length snapshot))) (\<lambda>k.
       Inr ([byte CHR ''r''] @ z @ g @ l @ pack_s (length ip) (encode ip) @ s @ t @ k @
            pack_s (length snapshot) (encode snapshot))))))))"

definition serve_request ::
  "server_config \<Rightarrow> nat \<times> nat \<Rightarrow> string \<Rightarrow> pool_server \<Rightarrow> pool_server \<times> bytes result" where
  "serve_request cfg fresh attacker_ip s =
     (case request_vm (sc_pool cfg) attacker_ip (sv_pool s) of
        (None, p) \<Rightarrow> (s\<lparr>sv_pool := p\<rparr>, bindE (pack_I 1) (\<lambda>e. Inr ([byte CHR ''r''] @ e)))
      | (Some (guest_id, guest_ip, guest_snapshot), p) \<Rightarrow>
          if uses_nat cfg
          then (case request_binding fresh guest_id guest_ip (sc_ssh_port cfg) (sc_telnet_port cfg) (p_nat p) of
                  ((nat_ssh, nat_telnet), n) \<Rightarrow>
                    (s\<lparr>sv_pool := p\<lparr>p_nat := n\<rparr>\<rparr>,
                     vm_response (int guest_id) (sc_nat_public_ip cfg) (int nat_ssh) (int nat_telnet) guest_snapshot))
          else (s\<lparr>sv_pool := p\<rparr>,
                vm_response (int guest_id) guest_ip (sc_ssh_port cfg) (sc_telnet_port cfg) guest_snapshot))"

definition serve_release ::
  "server_config \<Rightarrow> (nat \<Rightarrow> pool \<Rightarrow> pool) \<Rightarrow> bytes \<Rightarrow> pool_server \<Rightarrow> pool_server \<times> bytes result" where
  "serve_release cfg release data s =
     (case unpack_I data of
        Inl e \<Rightarrow> (s, Inl e)
      | Inr g \<Rightarrow>
          let guest_id = nat g; p = sv_pool s in
          if uses_nat cfg
          then (case free_binding guest_id (p_nat p) of
                  Inl e \<Rightarrow> (s, Inl e)
                | Inr n \<Rightarrow> (s\<lparr>sv_pool := release guest_id (p\<lparr>p_nat := n\<rparr>)\<rparr>, Inr []))
          else (s\<lparr>sv_pool := release guest_id p\<rparr>, Inr []))"

text \<open>\<open>dataReceived\<close>: the new state, and the bytes written back (none when empty) or the exception.\<close>

definition server_received ::
  "server_config \<Rightarrow> nat \<times> nat \<Rightarrow> int \<Rightarrow> bytes \<Rightarrow> pool_server \<Rightarrow> pool_server \<times> bytes result" where
  "server_received cfg fresh now data s =
     (case data of
        [] \<Rightarrow> (s, Inl IndexError)
      | res_op # rest \<Rightarrow>
          if res_op = byte CHR ''i''
          then (case (if length rest = 9 then bindE (unpack_I (take 4 rest)) (\<lambda>m.
                        bindE (unpack_I (take 4 (drop 4 rest))) (\<lambda>t. Inr (m, t, rest ! 8 \<noteq> 0))) else Inl StructError) of
                  Inl e \<Rightarrow> (s, Inl e)
                | Inr (max_vm, vm_unused_timeout, share_guests) \<Rightarrow>
                    (s\<lparr>sv_pool := set_configs max_vm vm_unused_timeout share_guests (sv_pool s), sv_initialised := True\<rparr>,
                     bindE (pack_I 0) (\<lambda>z. Inr ([byte CHR ''i''] @ z))))
          else if res_op = byte CHR ''r''
          then (case bindE (unpack_H (take 2 rest)) (\<lambda>ip_len. bindE (unpack_s ip_len (drop 2 rest)) decode) of
                  Inl e \<Rightarrow> (s, Inl e)
                | Inr attacker_ip \<Rightarrow> serve_request cfg fresh attacker_ip s)
          else if res_op = byte CHR ''f'' then serve_release cfg (free_vm now) rest s
          else if res_op = byte CHR ''u'' then serve_release cfg reuse_vm rest s
          else (s, Inr []))"

section \<open>The client\<close>

text \<open>What the client tells its parent: the initialisation code, the loss of the connection, or the data of
  the guest.\<close>

datatype notice = Initialised int | Lost | PoolData bytes bytes int int

definition client_received :: "bytes \<Rightarrow> int option \<Rightarrow> (int option \<times> notice option) result" where
  "client_received data vm_id =
     (if length data < 5 then Inl StructError
      else
        bindE (unpack_I (take 4 (drop 1 data))) (\<lambda>res_code.
        let res_op = hd data; data = drop 5 data in
        if res_op = byte CHR ''i'' then Inr (vm_id, Some (Initialised res_code))
        else if res_op = byte CHR ''r''
        then
          if res_code \<noteq> 0 then Inr (vm_id, Some Lost)
          else
            bindE (unpack_I (take 4 data)) (\<lambda>vm.
            let data = drop 4 data in
            bindE (unpack_H (take 2 data)) (\<lambda>ip_len.
            let data = drop 2 data in
            bindE (unpack_s ip_len (take (nat ip_len) data)) (\<lambda>honey_ip.
            let data = drop (nat ip_len) data in
            bindE (unpack_H (take 2 data)) (\<lambda>ssh_port.
            bindE (unpack_H (take 2 (drop 2 data))) (\<lambda>telnet_port.
            let data = drop 4 data in
            bindE (unpack_H (take 2 data)) (\<lambda>snapshot_len.
            let data = drop 2 data in
            bindE (unpack_s snapshot_len (take (nat snapshot_len) data)) (\<lambda>snapshot.
              Inr (Some vm, Some (PoolData honey_ip snapshot ssh_port telnet_port)))))))))
        else Inr (vm_id, None)))"

end
