(* ===== verification/Octets.thy ===== *)
theory Octets
  imports Prelude "HOL-Library.Word"
begin

unbundle bit_operations_syntax

text \<open>Facts on bytes as 8-bit words that the protocols share: numbers in network order, and the complement.\<close>

lemma uint_byte [simp]: "uint (word_of_int x :: 8 word) = x mod 256"
  by (simp add: uint_word_of_int)

lemma four_bytes:
  fixes n :: int
  assumes "0 \<le> n" and "n < 2 ^ 32"
  shows "n div 2 ^ 24 mod 256 * 2 ^ 24 + n div 2 ^ 16 mod 256 * 2 ^ 16 + n div 2 ^ 8 mod 256 * 2 ^ 8 + n mod 256 = n"
proof -
  define a b c where "a = n div 256" and "b = a div 256" and "c = b div 256"
  have d: "n div 2 ^ 8 = a" "n div 2 ^ 16 = b" "n div 2 ^ 24 = c"
    by (simp_all add: a_def b_def c_def zdiv_zmult2_eq [symmetric])
  have "c < 256" using assms unfolding d(3) [symmetric] by simp
  moreover have "0 \<le> c" using assms unfolding d(3) [symmetric] by simp
  ultimately have "c mod 256 = c" by simp
  moreover have "n = a * 256 + n mod 256" "a = b * 256 + a mod 256" "b = c * 256 + b mod 256"
    by (simp_all add: a_def b_def c_def)
  ultimately show ?thesis unfolding d by simp
qed

lemma two_bytes:
  fixes n :: int
  assumes "0 \<le> n" and "n < 2 ^ 16"
  shows "n div 2 ^ 8 mod 256 * 2 ^ 8 + n mod 256 = n"
proof -
  have p: "(2::int) ^ 8 = 256" "(2::int) ^ 16 = 65536" by simp_all
  have n: "n div 256 * 256 + n mod 256 = n" by (rule div_mult_mod_eq)
  have "0 \<le> n mod 256" "n mod 256 < 256" by simp_all
  with n assms have "n div 256 < 256" "0 \<le> n div 256" unfolding p by linarith+
  then have "n div 256 mod 256 = n div 256" by (intro mod_pos_pos_trivial)
  with n show ?thesis unfolding p by (simp only:)
qed

lemma xor_255_twice [simp]: "(w XOR 0xFF) XOR 0xFF = (w :: 8 word)"
  by (rule bit_word_eqI) (auto simp: bit_xor_iff)

end
