(* ===== verification/PoolWireFacts.thy ===== *)
theory PoolWireFacts
  imports PoolWire PoolFacts Octets
begin

text \<open>
  The two ends of the pool's protocol agree: what one packs the other unpacks, a request of the client
  is served and answered with the guest that the pool chose, and a release reaches that guest. The
  server takes every segment for one message, so two messages in one segment are refused.
\<close>

section \<open>Round trips\<close>

lemma pack_I_Inr:
  assumes "pack_I n = Inr bs"
  shows "length bs = 4 \<and> unpack_I bs = Inr n"
proof -
  from assms have n: "0 \<le> n" "n < 2 ^ 32"
    and bs: "bs = [word_of_int (n div 2 ^ 24), word_of_int (n div 2 ^ 16), word_of_int (n div 2 ^ 8), word_of_int n]"
    unfolding pack_I_def by (metis sum.distinct(1) sum.sel(2))+
  show ?thesis unfolding bs unpack_I_def list.case uint_byte four_bytes [OF n] by simp
qed

lemma pack_H_Inr:
  assumes "pack_H n = Inr bs"
  shows "length bs = 2 \<and> unpack_H bs = Inr n"
proof -
  from assms have n: "0 \<le> n" "n < 2 ^ 16" and bs: "bs = [word_of_int (n div 2 ^ 8), word_of_int n]"
    unfolding pack_H_def by (metis sum.distinct(1) sum.sel(2))+
  show ?thesis unfolding bs unpack_H_def list.case uint_byte two_bytes [OF n] by simp
qed

lemma pack_total: "0 \<le> n \<Longrightarrow> n < 2 ^ 32 \<Longrightarrow> \<exists>bs. pack_I n = Inr bs" "0 \<le> m \<Longrightarrow> m < 2 ^ 16 \<Longrightarrow> \<exists>bs. pack_H m = Inr bs"
  by (simp_all add: pack_I_def pack_H_def)

definition ascii :: "string \<Rightarrow> bool" where
  "ascii s \<longleftrightarrow> (\<forall>c \<in> set s. code c < 128)"

lemma encode_ascii: "ascii s \<Longrightarrow> encode s = map byte s"
  by (induction s) (auto simp: encode_def ascii_def)

lemma uint_byte_code: "uint (byte c) = int (code c)"
proof -
  have "code c mod 256 = code c" unfolding code_def by (rule of_char_mod_256)
  then have "int (code c) mod 256 = int (code c)" by (metis of_nat_mod of_nat_numeral)
  then show ?thesis unfolding byte_def uint_byte .
qed

lemma char_of_byte: "code c < 128 \<Longrightarrow> uint (byte c) < 128 \<and> char_of (nat (uint (byte c))) = c"
  by (simp add: uint_byte_code) (simp add: code_def)

lemma decode_ascii: "ascii s \<Longrightarrow> decode (map byte s) = Inr s"
proof (induction s rule: induct_list012)
  case (2 c)
  then show ?case using char_of_byte [of c] by (simp add: ascii_def)
next
  case (3 c d s)
  have "decode (byte c # map byte (d # s)) = bindE (decode (map byte (d # s))) (\<lambda>s. Inr (char_of (nat (uint (byte c))) # s))"
    using char_of_byte [of c] 3(3) by (simp add: ascii_def)
  also have "decode (map byte (d # s)) = Inr (d # s)" using 3 by (simp add: ascii_def)
  finally show ?case using char_of_byte [of c] 3(3) by (simp add: ascii_def)
qed simp

lemma pack_s_ascii: "ascii s \<Longrightarrow> pack_s (length s) (encode s) = map byte s"
  by (simp add: encode_ascii pack_s_def)

section \<open>One exchange\<close>

lemma byte_eq_iff [simp]: "byte c = byte d \<longleftrightarrow> c = d"
proof
  assume "byte c = byte d"
  then have "uint (byte c) = uint (byte d)" by simp
  then have "code c = code d" by (simp add: uint_byte_code)
  then show "c = d" by (simp add: code_def)
qed simp

lemma server_gets_request:
  assumes "vm_request ip = Inr msg" and "ascii ip"
  shows "server_received cfg fresh now msg s = serve_request cfg fresh ip s"
proof -
  from assms obtain l where l: "pack_H (int (length ip)) = Inr l" "msg = byte CHR ''r'' # l @ map byte ip"
    by (auto simp: vm_request_def pack_s_ascii)
  from pack_H_Inr [OF l(1)] have "length l = 2" "unpack_H l = Inr (int (length ip))" by auto
  with assms(2) show ?thesis
    by (simp add: server_received_def l(2) unpack_s_def decode_ascii)
qed

lemma client_gets_response:
  assumes "vm_response gid ip ssh tel snap = Inr msg" and "ascii ip" and "ascii snap"
  shows "client_received msg v = Inr (Some gid, Some (PoolData (map byte ip) (map byte snap) ssh tel))"
proof -
  from assms obtain z g l s t k where p:
    "pack_I 0 = Inr z" "pack_I gid = Inr g" "pack_H (int (length ip)) = Inr l" "pack_H ssh = Inr s" "pack_H tel = Inr t"
    "pack_H (int (length snap)) = Inr k"
    and msg: "msg = byte CHR ''r'' # z @ g @ l @ map byte ip @ s @ t @ k @ map byte snap"
    by (auto simp: vm_response_def pack_s_ascii)
  note z = pack_I_Inr [OF p(1)] and g = pack_I_Inr [OF p(2)] and l = pack_H_Inr [OF p(3)] and s = pack_H_Inr [OF p(4)]
    and t = pack_H_Inr [OF p(5)] and k = pack_H_Inr [OF p(6)]
  have drops: "drop 5 msg = g @ l @ map byte ip @ s @ t @ k @ map byte snap" "take 4 (drop 1 msg) = z"
    "hd msg = byte CHR ''r''" and len: "length msg = 1 + length z + length (g @ l @ map byte ip @ s @ t @ k @ map byte snap)"
    using z by (simp_all add: msg)
  from len z have drops2: "\<not> length msg < 5" by linarith
  show ?thesis
    unfolding client_received_def drops if_not_P [OF drops2]
    using z g l s t k by (simp add: Let_def unpack_s_def)
qed

text \<open>Two messages in one segment: the server takes them for one and raises.\<close>

lemma coalesced_refused:
  assumes "vm_request ip = Inr msg" and "ascii ip" and "extra \<noteq> []"
  shows "server_received cfg fresh now (msg @ extra) s = (s, Inl StructError)"
proof -
  from assms obtain l where l: "pack_H (int (length ip)) = Inr l" "msg = byte CHR ''r'' # l @ map byte ip"
    by (auto simp: vm_request_def pack_s_ascii)
  from pack_H_Inr [OF l(1)] have "length l = 2" "unpack_H l = Inr (int (length ip))" by auto
  with assms(3) show ?thesis
    by (simp add: server_received_def l(2) unpack_s_def)
qed

lemma serve_request_local:
  assumes "\<not> uses_nat cfg" and "choose_guest ip (sv_pool s) = Some i"
  shows "serve_request cfg fresh ip s =
    (s\<lparr>sv_pool := snd (request_vm (sc_pool cfg) ip (sv_pool s))\<rparr>,
     vm_response (int (g_id (p_guests (sv_pool s) ! i))) (g_ip (p_guests (sv_pool s) ! i)) (sc_ssh_port cfg)
       (sc_telnet_port cfg) (g_snapshot (p_guests (sv_pool s) ! i)))"
  using assms by (simp add: serve_request_def request_vm_def Let_def serve_guest_def)

lemma server_gets_release:
  assumes "vm_free dirty (Some (int gid)) = Inr (Some msg)" and "\<not> uses_nat cfg"
  shows "server_received cfg fresh now msg s =
     (s\<lparr>sv_pool := (if dirty then free_vm now gid else reuse_vm gid) (sv_pool s)\<rparr>, Inr [])"
proof -
  from assms(1) obtain b where b: "pack_I (int gid) = Inr b" "msg = (if dirty then byte CHR ''f'' else byte CHR ''u'') # b"
    by (auto simp: vm_free_def)
  from pack_I_Inr [OF b(1)] have "unpack_I b = Inr (int gid)" by blast
  with assms(2) show ?thesis by (simp add: server_received_def b(2) serve_release_def Let_def)
qed

text \<open>C24. One exchange over the wire, with a local pool (no NAT), when the address of the client and the addresses and snapshots
  of the guests are ASCII: the client's request reaches the pool as a request for
  its address; if the pool has a guest, the client learns exactly the id, address, snapshot and ports of
  the guest chosen, and its later release frees (or reverts) that guest; if not, the client drops the
  connection.\<close>

theorem wire_exchange:
  assumes "vm_request ip = Inr msg" and "ascii ip" and "\<not> uses_nat cfg"
    and "server_received cfg fresh now msg s = (s', Inr answer)"
    and "\<forall>g \<in> set (p_guests (sv_pool s)). ascii (g_ip g) \<and> ascii (g_snapshot g)"
  shows "sv_pool s' = snd (request_vm (sc_pool cfg) ip (sv_pool s)) \<and>
    client_received answer None =
      (case choose_guest ip (sv_pool s) of
         Some i \<Rightarrow> let g = p_guests (sv_pool s) ! i in
           Inr (Some (int (g_id g)), Some (PoolData (map byte (g_ip g)) (map byte (g_snapshot g)) (sc_ssh_port cfg) (sc_telnet_port cfg)))
       | None \<Rightarrow> Inr (None, Some Lost)) \<and>
    (\<forall>gid dirty bye. vm_free dirty (Some (int gid)) = Inr (Some bye) \<longrightarrow>
       server_received cfg fresh now bye s' =
         (s'\<lparr>sv_pool := (if dirty then free_vm now gid else reuse_vm gid) (sv_pool s')\<rparr>, Inr []))"
proof -
  from assms(4) have r: "serve_request cfg fresh ip s = (s', Inr answer)"
    unfolding server_gets_request [OF assms(1,2)] .
  have "sv_pool s' = snd (request_vm (sc_pool cfg) ip (sv_pool s)) \<and>
    client_received answer None =
      (case choose_guest ip (sv_pool s) of
         Some i \<Rightarrow> let g = p_guests (sv_pool s) ! i in
           Inr (Some (int (g_id g)), Some (PoolData (map byte (g_ip g)) (map byte (g_snapshot g)) (sc_ssh_port cfg) (sc_telnet_port cfg)))
       | None \<Rightarrow> Inr (None, Some Lost))"
  proof (cases "choose_guest ip (sv_pool s)")
    case None
    have "pack_I 1 = Inr [0, 0, 0, 1]" by (simp add: pack_I_def)
    with None r show ?thesis
      by (auto simp: serve_request_def request_vm_def client_received_def unpack_I_def)
  next
    case (Some i)
    have "p_guests (sv_pool s) ! i \<in> set (p_guests (sv_pool s))" using choose_guest_usable(1) [OF Some] by simp
    with assms(5) r client_gets_response show ?thesis
      unfolding serve_request_local [OF assms(3) Some] by (auto simp: Some Let_def)
  qed
  with server_gets_release [OF _ assms(3)] show ?thesis by blast
qed

definition demo_server_config :: server_config where
  "demo_server_config = \<lparr>sc_pool = demo_pool_config, sc_nat_public_ip = [], sc_ssh_port = 22, sc_telnet_port = 23\<rparr>"

definition demo_server :: pool_server where
  "demo_server = \<lparr>sv_pool = demo_run [demo_produce 5], sv_initialised = True\<rparr>"

lemma demo_guests: "map (\<lambda>g. (g_id g, g_ip g, g_snapshot g)) (p_guests (sv_pool demo_server)) =
    [(0, ''192.168.150.3'', ''m2''), (1, ''192.168.150.2'', ''m1'')]"
  by code_simp

lemma demo_guests_ascii: "\<forall>g \<in> set (p_guests (sv_pool demo_server)). ascii (g_ip g) \<and> ascii (g_snapshot g)"
proof -
  have "\<forall>(i, ip, sn) \<in> set (map (\<lambda>g. (g_id g, g_ip g, g_snapshot g)) (p_guests (sv_pool demo_server))). ascii ip \<and> ascii sn"
    unfolding demo_guests by (simp add: ascii_def code_def)
  then show ?thesis by simp
qed

lemma demo_guest_0:
  "g_id (p_guests (sv_pool demo_server) ! 0) = 0"
  "g_ip (p_guests (sv_pool demo_server) ! 0) = ''192.168.150.3''"
  "g_snapshot (p_guests (sv_pool demo_server) ! 0) = ''m2''"
proof -
  have "length (p_guests (sv_pool demo_server)) = 2" using arg_cong [OF demo_guests, of length] by simp
  then have "(\<lambda>g. (g_id g, g_ip g, g_snapshot g)) (p_guests (sv_pool demo_server) ! 0) = (0, ''192.168.150.3'', ''m2'')"
    using arg_cong [OF demo_guests, of "\<lambda>xs. xs ! 0"] by simp
  then show "g_id (p_guests (sv_pool demo_server) ! 0) = 0" "g_ip (p_guests (sv_pool demo_server) ! 0) = ''192.168.150.3''"
    "g_snapshot (p_guests (sv_pool demo_server) ! 0) = ''m2''"
    unfolding prod.inject by blast+
qed

lemma demo_choice: "choose_guest ''1.2.3.4'' (sv_pool demo_server) = Some 0"
  by code_simp

lemma demo_server_local: "\<not> uses_nat demo_server_config"
  "sc_ssh_port demo_server_config = 22" "sc_telnet_port demo_server_config = 23"
  by (simp_all add: uses_nat_def demo_server_config_def demo_pool_config_def)

lemma demo_response: "\<exists>answer. vm_response 0 ''192.168.150.3'' 22 23 ''m2'' = Inr answer"
  by (simp add: vm_response_def pack_I_def pack_H_def)

theorem wire_exchange_witness:
  "\<exists>msg s' answer. vm_request ''1.2.3.4'' = Inr msg \<and>
     server_received demo_server_config (0, 0) 9 msg demo_server = (s', Inr answer) \<and>
     client_received answer None = Inr (Some 0, Some (PoolData (map byte ''192.168.150.3'') (map byte ''m2'') 22 23))"
proof -
  have "\<exists>msg. vm_request ''1.2.3.4'' = Inr msg" by (simp add: vm_request_def pack_H_def)
  then obtain msg where msg: "vm_request ''1.2.3.4'' = Inr msg" ..
  have ip: "ascii ''1.2.3.4''" by (simp add: ascii_def code_def)
  from demo_response obtain answer where v: "vm_response 0 ''192.168.150.3'' 22 23 ''m2'' = Inr answer" ..
  define s' where "s' = demo_server\<lparr>sv_pool := snd (request_vm (sc_pool demo_server_config) ''1.2.3.4'' (sv_pool demo_server))\<rparr>"
  have r: "server_received demo_server_config (0, 0) 9 msg demo_server = (s', Inr answer)"
    unfolding server_gets_request [OF msg ip] serve_request_local [OF demo_server_local(1) demo_choice] s'_def
    by (simp only: demo_guest_0 demo_server_local semiring_1_class.of_nat_0 v)
  have "client_received answer None = Inr (Some 0, Some (PoolData (map byte ''192.168.150.3'') (map byte ''m2'') 22 23))"
    using conjunct1 [OF conjunct2 [OF wire_exchange [OF msg ip demo_server_local(1) r demo_guests_ascii]]]
    by (simp only: demo_choice option.case Let_def demo_guest_0 demo_server_local semiring_1_class.of_nat_0)
  with msg r show ?thesis by (intro exI conjI)
qed

end
