(* ===== verification/CowrieFs.thy ===== *)
theory CowrieFs
  imports PyStr "HOL-Library.Word"
begin

text \<open>
  \<open>Honeypots/cowrie/src/cowrie/shell/fs.py\<close>: the virtual file system an attacker works in. A node is
  its attributes and its contents; what the code holds by reference is held by position, the list of
  indices that leads from the root to the node, so that an assignment to a field is an update at a
  position. Host files, the clock and the configuration are given. (An entry with a sibling equal to it
  in every field, its time included, would share its list with a copy after \<open>rename\<close>; the
  model has no sharing.)
\<close>

unbundle bit_operations_syntax

section \<open>Nodes\<close>

datatype ftype = T_LINK | T_DIR | T_FILE | T_BLK | T_CHR | T_SOCK | T_FIFO

record attrs =
  A_NAME :: string
  A_TYPE :: ftype
  A_UID :: int
  A_GID :: int
  A_SIZE :: int
  A_MODE :: int
  A_CTIME :: int
  A_TARGET :: "string option"
  A_REALFILE :: "string option"

datatype node = Node (A: attrs) (A_CONTENTS: "node list")

abbreviation name_of :: "node \<Rightarrow> string" where
  "name_of n \<equiv> A_NAME (A n)"

abbreviation type_of :: "node \<Rightarrow> ftype" where
  "type_of n \<equiv> A_TYPE (A n)"

type_synonym loc = "nat list"

fun node_at :: "node \<Rightarrow> loc \<Rightarrow> node" where
  "node_at n [] = n"
| "node_at n (i # is) = node_at (A_CONTENTS n ! i) is"

fun update_at :: "loc \<Rightarrow> (node \<Rightarrow> node) \<Rightarrow> node \<Rightarrow> node" where
  "update_at [] f n = f n"
| "update_at (i # is) f n = Node (A n) ((A_CONTENTS n)[i := update_at is f (A_CONTENTS n ! i)])"

definition set_attrs :: "(attrs \<Rightarrow> attrs) \<Rightarrow> node \<Rightarrow> node" where
  "set_attrs f n = Node (f (A n)) (A_CONTENTS n)"

definition set_contents :: "(node list \<Rightarrow> node list) \<Rightarrow> node \<Rightarrow> node" where
  "set_contents f n = Node (A n) (f (A_CONTENTS n))"

text \<open>The exceptions of the module, and the error numbers it uses.\<close>

abbreviation FileNotFound :: py_exn where
  "FileNotFound \<equiv> RuntimeError ''FileNotFound''"

abbreviation PermissionDenied :: py_exn where
  "PermissionDenied \<equiv> RuntimeError ''PermissionDenied''"

abbreviation RecursionError :: py_exn where
  "RecursionError \<equiv> RuntimeError ''RecursionError''"

definition ENOENT :: nat where "ENOENT = 2"
definition EEXIST :: nat where "EEXIST = 17"
definition ENOTDIR :: nat where "ENOTDIR = 20"
definition ENOTEMPTY :: nat where "ENOTEMPTY = 39"
definition EDQUOT :: nat where "EDQUOT = 122"

definition SPECIAL_PATHS :: "string list" where
  "SPECIAL_PATHS = [''/sys'', ''/proc'', ''/dev/pts'']"

section \<open>Paths\<close>

text \<open>\<open>os.path.basename\<close> and \<open>os.path.dirname\<close>\<close>

definition path_basename :: "string \<Rightarrow> string" where
  "path_basename p = last (split_on CHR ''/'' p)"

definition path_dirname :: "string \<Rightarrow> string" where
  "path_dirname p =
     (let head = take (length p - length (path_basename p)) p
      in if list_all (\<lambda>c. c = CHR ''/'') head then head else rstrip_char CHR ''/'' head)"

definition strip_slash :: "string \<Rightarrow> string" where
  "strip_slash s = rstrip_char CHR ''/'' (lstrip_char CHR ''/'' s)"

fun push_pieces :: "string list \<Rightarrow> string list \<Rightarrow> string list" where
  "push_pieces [] cwdpieces = cwdpieces"
| "push_pieces (piece # pieces) cwdpieces =
     (if piece = ''..'' then push_pieces pieces (butlast cwdpieces)
      else if piece \<in> {''.'', []} then push_pieces pieces cwdpieces
      else push_pieces pieces (cwdpieces @ [piece]))"

definition join_path :: "string list \<Rightarrow> string" where
  "join_path ps = CHR ''/'' # join_on ''/'' ps"

definition resolve_path :: "string \<Rightarrow> string \<Rightarrow> string \<Rightarrow> string result" where
  "resolve_path home pathspec cwd =
     (let path = (if prefix ''~/'' pathspec then home @ drop 1 pathspec else pathspec);
          pieces = split_on CHR ''/'' (rstrip_char CHR ''/'' path)
      in case path of
           [] \<Rightarrow> Inl IndexError
         | c # _ \<Rightarrow>
             let cwdpieces = (if c = CHR ''/'' then [] else filter (\<lambda>x. x \<noteq> []) (split_on CHR ''/'' cwd))
             in Inr (join_path (push_pieces pieces cwdpieces)))"

section \<open>Looking up\<close>

text \<open>
  The loop over the entries of a directory that have the name of the piece: every one of them is
  resolved and the last counts. \<open>step\<close> resolves one.
\<close>

fun try_entries :: "(nat \<Rightarrow> node \<Rightarrow> loc option result) \<Rightarrow> string \<Rightarrow> nat \<Rightarrow> node list \<Rightarrow> loc option \<Rightarrow> loc option result" where
  "try_entries step piece i [] p = Inr p"
| "try_entries step piece i (x # xs) p =
     (if name_of x = piece
      then (case step i x of
              Inl e \<Rightarrow> Inl e
            | Inr None \<Rightarrow> Inr None
            | Inr (Some q) \<Rightarrow> try_entries step piece (Suc i) xs (Some q))
      else try_entries step piece (Suc i) xs p)"

text \<open>An entry: the link itself if the piece has the name of the last one and links are not followed;
  the target of a link, which is always taken from the root; or the entry.\<close>

definition enter :: "(string \<Rightarrow> loc option result) \<Rightarrow> bool \<Rightarrow> loc \<Rightarrow> nat \<Rightarrow> node \<Rightarrow> loc option result" where
  "enter lookup keep_link p i x =
     (if keep_link then Inr (Some (p @ [i]))
      else if type_of x = T_LINK
      then (case A_TARGET (A x) of
              None \<Rightarrow> Inl TypeError
            | Some [] \<Rightarrow> Inl IndexError
            | Some (c # t) \<Rightarrow> lookup (if c = CHR ''/'' then c # t else CHR ''/'' # c # t))
      else Inr (Some (p @ [i])))"

fun walk :: "(string \<Rightarrow> loc option result) \<Rightarrow> bool \<Rightarrow> string \<Rightarrow> node \<Rightarrow> string list \<Rightarrow> loc \<Rightarrow> loc option result" where
  "walk lookup follow_symlinks final root [] p = Inr (Some p)"
| "walk lookup follow_symlinks final root (piece # pieces) p =
     (case try_entries (enter lookup (piece = final \<and> \<not> follow_symlinks) p) piece 0 (A_CONTENTS (node_at root p)) None of
        Inl e \<Rightarrow> Inl e
      | Inr None \<Rightarrow> Inr None
      | Inr (Some q) \<Rightarrow> walk lookup follow_symlinks final root pieces q)"

text \<open>\<open>frames\<close> is the number of nested calls that the interpreter still allows.\<close>

fun getfile :: "nat \<Rightarrow> node \<Rightarrow> string \<Rightarrow> bool \<Rightarrow> loc option result" where
  "getfile 0 root path follow_symlinks = Inl RecursionError"
| "getfile (Suc frames) root path follow_symlinks =
     (if path = ''/'' then Inr (Some [])
      else
        let pieces = split_on CHR ''/'' (strip_slash path)
        in walk (\<lambda>t. getfile frames root t follow_symlinks) follow_symlinks (last pieces) root pieces [])"

fun enter_dirs :: "(string \<Rightarrow> loc option result) \<Rightarrow> node \<Rightarrow> string list \<Rightarrow> loc \<Rightarrow> loc result" where
  "enter_dirs lookup root [] p = Inr p"
| "enter_dirs lookup root (part # parts) p =
     (if part = [] then enter_dirs lookup root parts p
      else case find_index (\<lambda>c. name_of c = part) (A_CONTENTS (node_at root p)) of
        None \<Rightarrow> Inl FileNotFound
      | Some i \<Rightarrow>
          let c = A_CONTENTS (node_at root p) ! i in
          if type_of c = T_LINK
          then (case A_TARGET (A c) of
                  None \<Rightarrow> Inl AttributeError
                | Some t \<Rightarrow>
                    (case lookup t of
                       Inl e \<Rightarrow> Inl e
                     | Inr None \<Rightarrow> Inl FileNotFound
                     | Inr (Some q) \<Rightarrow> enter_dirs lookup root parts q))
          else enter_dirs lookup root parts (p @ [i]))"

text \<open>\<open>get_path\<close>: the position of the directory whose contents are returned.\<close>

definition get_path :: "nat \<Rightarrow> node \<Rightarrow> string \<Rightarrow> bool \<Rightarrow> loc result" where
  "get_path frames root path follow_symlinks =
     enter_dirs (\<lambda>t. getfile frames root t follow_symlinks) root (split_on CHR ''/'' path) []"

definition exists_path :: "nat \<Rightarrow> node \<Rightarrow> string \<Rightarrow> bool result" where
  "exists_path frames root path = bindE (getfile frames root path True) (\<lambda>f. Inr (f \<noteq> None))"

definition lexists :: "nat \<Rightarrow> node \<Rightarrow> string \<Rightarrow> bool result" where
  "lexists frames root path = bindE (getfile frames root path False) (\<lambda>f. Inr (f \<noteq> None))"

definition has_type :: "nat \<Rightarrow> node \<Rightarrow> string \<Rightarrow> ftype \<Rightarrow> bool" where
  "has_type frames root path t =
     (case getfile frames root path True of Inr (Some p) \<Rightarrow> type_of (node_at root p) = t | _ \<Rightarrow> False)"

definition isfile :: "nat \<Rightarrow> node \<Rightarrow> string \<Rightarrow> bool" where
  "isfile frames root path = has_type frames root path T_FILE"

definition islink :: "nat \<Rightarrow> node \<Rightarrow> string \<Rightarrow> bool" where
  "islink frames root path = has_type frames root path T_LINK"

definition isdir :: "nat \<Rightarrow> node \<Rightarrow> string \<Rightarrow> bool" where
  "isdir frames root path = (path = ''/'' \<or> has_type frames root path T_DIR)"

definition listdir :: "nat \<Rightarrow> node \<Rightarrow> string \<Rightarrow> string list result" where
  "listdir frames root path =
     bindE (get_path frames root path True) (\<lambda>p. Inr (map name_of (A_CONTENTS (node_at root p))))"

text \<open>\<open>stat\<close>: mode, owner, group, size and the time that stands for all three.\<close>

definition stat :: "nat \<Rightarrow> int \<Rightarrow> node \<Rightarrow> string \<Rightarrow> bool \<Rightarrow> (int \<times> int \<times> int \<times> int \<times> int) result" where
  "stat frames now root path follow_symlinks =
     (if path = ''/'' then Inr (16877, 0, 0, 4096, now)
      else bindE (getfile frames root path follow_symlinks) (\<lambda>f. case f of
             None \<Rightarrow> Inl (OSError ENOENT)
           | Some p \<Rightarrow> let a = A (node_at root p) in Inr (A_MODE a, A_UID a, A_GID a, A_SIZE a, A_CTIME a)))"

definition S_IFLNK :: int where "S_IFLNK = 40960"
definition S_IFMT :: "int \<Rightarrow> int" where "S_IFMT m = m AND 61440"
definition S_IXUSR :: int where "S_IXUSR = 64"
definition S_IFREG :: int where "S_IFREG = 32768"

definition readlink :: "nat \<Rightarrow> node \<Rightarrow> string \<Rightarrow> string option result" where
  "readlink frames root path =
     bindE (getfile frames root path False) (\<lambda>f. case f of
        None \<Rightarrow> Inl (OSError ENOENT)
      | Some p \<Rightarrow> let a = A (node_at root p) in
          if A_MODE a AND S_IFLNK = 0 then Inl (OSError 0) else Inr (A_TARGET a))"

section \<open>Wildcards\<close>

text \<open>\<open>fnmatch.fnmatchcase\<close>: \<open>*\<close>, \<open>?\<close> and sets. A set ends at the first closing bracket that
  is not its first character; without one the opening bracket stands for itself.\<close>

fun in_set_chars :: "char \<Rightarrow> string \<Rightarrow> bool" where
  "in_set_chars c (a # b # d # r) =
     (if b = CHR ''-'' then (code a \<le> code c \<and> code c \<le> code d) \<or> in_set_chars c r
      else c = a \<or> in_set_chars c (b # d # r))"
| "in_set_chars c r = (c \<in> set r)"

definition in_set :: "char \<Rightarrow> string \<Rightarrow> bool" where
  "in_set c stuff =
     (case stuff of
        b # r \<Rightarrow> if b = CHR ''!'' then \<not> in_set_chars c r else in_set_chars c stuff
      | [] \<Rightarrow> False)"

text \<open>The set that a pattern opens, and what follows it.\<close>

definition split_set :: "string \<Rightarrow> (string \<times> string) option" where
  "split_set pat =
     (let neg = take (if prefix ''!'' pat then 1 else 0) pat;
          r = drop (length neg) pat;
          fst_br = take (if prefix '']'' r then 1 else 0) r;
          r = drop (length fst_br) r;
          body = takeWhile (\<lambda>c. c \<noteq> CHR '']'') r
      in case drop (length body) r of
           [] \<Rightarrow> None
         | _ # rest \<Rightarrow> Some (neg @ fst_br @ body, rest))"

lemma split_set_shorter: "split_set pat = Some (stuff, rest) \<Longrightarrow> length rest < length pat"
proof -
  assume *: "split_set pat = Some (stuff, rest)"
  define neg where "neg = take (if prefix ''!'' pat then 1 else 0) pat"
  define r where "r = drop (length neg) pat"
  define f where "f = take (if prefix '']'' r then 1 else 0) r"
  define r' where "r' = drop (length f) r"
  from * have "\<exists>c. drop (length (takeWhile (\<lambda>c. c \<noteq> CHR '']'') r')) r' = c # rest"
    unfolding split_set_def Let_def neg_def [symmetric] r_def [symmetric] f_def [symmetric] r'_def [symmetric]
    by (auto split: list.splits)
  then have "length rest < length r'" by (metis drop_eq_Nil impossible_Cons length_drop list.simps(3) not_le
      diff_le_self le_trans length_Cons less_Suc_eq_le)
  moreover have "length r' \<le> length r" "length r \<le> length pat" by (simp_all add: r'_def r_def)
  ultimately show ?thesis by linarith
qed

function fnmatch :: "string \<Rightarrow> string \<Rightarrow> bool" where
  "fnmatch [] pat = (case pat of [] \<Rightarrow> True | p # ps \<Rightarrow> p = CHR ''*'' \<and> fnmatch [] ps)"
| "fnmatch (c # cs) pat =
     (case pat of
        [] \<Rightarrow> False
      | p # ps \<Rightarrow>
          if p = CHR ''*'' then fnmatch (c # cs) ps \<or> fnmatch cs (p # ps)
          else if p = CHR ''?'' then fnmatch cs ps
          else if p = CHR ''['' then
            (case split_set ps of
               None \<Rightarrow> c = p \<and> fnmatch cs ps
             | Some (stuff, rest) \<Rightarrow> in_set c stuff \<and> fnmatch cs rest)
          else c = p \<and> fnmatch cs ps)"
  by pat_completeness auto
termination
  by (relation "measure (\<lambda>(s, pat). length s + length pat)") (auto dest!: split_set_shorter)

declare fnmatch.simps [simp del]

text \<open>\<open>resolve_path_wc\<close>: the paths, in the order found, that a pattern stands for.\<close>

fun foo :: "(string list \<Rightarrow> string list result) \<Rightarrow> string list \<Rightarrow> string list \<Rightarrow> string list result" where
  "foo names [] cwd = Inr [join_path cwd]"
| "foo names (p # ps) cwd =
     (if p = ''.'' then foo names ps cwd
      else if p = ''..'' then foo names ps (butlast cwd)
      else bindE (names cwd) (\<lambda>ns.
             foldl (\<lambda>r m. bindE r (\<lambda>found. bindE (foo names ps (cwd @ [m])) (\<lambda>more. Inr (found @ more))))
               (Inr []) (filter (\<lambda>x. fnmatch x p) ns)))"

definition resolve_path_wc :: "nat \<Rightarrow> node \<Rightarrow> string \<Rightarrow> string \<Rightarrow> string list result" where
  "resolve_path_wc frames root path cwd =
     (let pieces = split_on CHR ''/'' (rstrip_char CHR ''/'' path);
          names = (\<lambda>cwd. listdir frames root (join_on ''/'' cwd))
      in if hd pieces \<noteq> [] then foo names pieces (filter (\<lambda>x. x \<noteq> []) (split_on CHR ''/'' cwd))
         else foo names (tl pieces) [])"

section \<open>State and host\<close>

record fs_state =
  fs_root :: node
  fs_newcount :: nat
  fs_home :: string
  fs_arch :: string
  fs_tempfiles :: "(int \<times> string) list"
  fs_filenames :: "(int \<times> string) list"

text \<open>What the host answers: whether a path is a regular file and no link, and the bytes of a file.\<close>

record fs_host =
  h_isfile :: "string \<Rightarrow> bool"
  h_read :: "string \<Rightarrow> string"
  h_download_path :: string
  h_data_path :: string

definition update_realfile :: "fs_host \<Rightarrow> loc \<Rightarrow> string \<Rightarrow> node \<Rightarrow> node" where
  "update_realfile h p realfile root =
     (let a = A (node_at root p) in
      if A_REALFILE a \<in> {None, Some []} \<and> h_isfile h realfile \<and> A_SIZE a < 25000000
      then update_at p (set_attrs (\<lambda>a. a\<lparr>A_REALFILE := Some realfile\<rparr>)) root else root)"

text \<open>\<open>init_honeyfs\<close>, on the virtual and the real paths of the files found in the contents directory.\<close>

fun init_honeyfs :: "nat \<Rightarrow> fs_host \<Rightarrow> (string \<times> string) list \<Rightarrow> node \<Rightarrow> node result" where
  "init_honeyfs frames h [] root = Inr root"
| "init_honeyfs frames h ((virtual_path, realfile_path) # fs) root =
     bindE (getfile frames root virtual_path False) (\<lambda>f.
       init_honeyfs frames h fs (case f of
          Some p \<Rightarrow> if type_of (node_at root p) = T_FILE then update_realfile h p realfile_path root else root
        | None \<Rightarrow> root))"

definition file_contents :: "nat \<Rightarrow> fs_host \<Rightarrow> string \<Rightarrow> fs_state \<Rightarrow> string result" where
  "file_contents frames h target s =
     bindE (resolve_path (fs_home s) target (path_dirname target)) (\<lambda>path.
     bindE (exists_path frames (fs_root s) path) (\<lambda>ex.
     if \<not> ex then Inl FileNotFound
     else bindE (getfile frames (fs_root s) path True) (\<lambda>f. case f of
       None \<Rightarrow> Inl TypeError
     | Some p \<Rightarrow>
         let a = A (node_at (fs_root s) p) in
         if A_TYPE a = T_DIR then Inl (RuntimeError ''IsADirectoryError'')
         else if A_TYPE a = T_FILE \<and> A_REALFILE a \<notin> {None, Some []} then Inr (h_read h (the (A_REALFILE a)))
         else if A_TYPE a = T_FILE \<and> A_SIZE a = 0 then Inr []
         else if A_TYPE a = T_FILE \<and> A_MODE a AND S_IXUSR \<noteq> 0
         then Inr (h_read h (h_data_path h @ ''/arch/'' @ fs_arch s))
         else Inr [])))"

section \<open>Changing the tree\<close>

text \<open>An operation returns the new state, also when it raises, and its value or the exception.\<close>

definition new_node :: "string \<Rightarrow> ftype \<Rightarrow> int \<Rightarrow> int \<Rightarrow> int \<Rightarrow> int \<Rightarrow> int \<Rightarrow> node" where
  "new_node name t uid gid siz mode ctime =
     Node \<lparr>A_NAME = name, A_TYPE = t, A_UID = uid, A_GID = gid, A_SIZE = siz, A_MODE = mode, A_CTIME = ctime,
       A_TARGET = None, A_REALFILE = None\<rparr> []"

definition mkfile ::
  "nat \<Rightarrow> string \<Rightarrow> int \<Rightarrow> int \<Rightarrow> int \<Rightarrow> int \<Rightarrow> int \<Rightarrow> fs_state \<Rightarrow> fs_state \<times> bool result" where
  "mkfile frames path uid gid siz mode ctime s =
     (if 10000 < fs_newcount s then (s, Inr False)
      else if list_ex (\<lambda>p. prefix p (path_dirname path)) SPECIAL_PATHS then (s, Inl PermissionDenied)
      else case get_path frames (fs_root s) (path_dirname path) True of
        Inl e \<Rightarrow> (s, Inl e)
      | Inr p \<Rightarrow>
          let outfile = path_basename path;
              put = (\<lambda>dir. (case find (\<lambda>x. name_of x = outfile) dir of Some x \<Rightarrow> remove1 x dir | None \<Rightarrow> dir) @
                           [new_node outfile T_FILE uid gid siz mode ctime])
          in (s\<lparr>fs_root := update_at p (set_contents put) (fs_root s), fs_newcount := fs_newcount s + 1\<rparr>, Inr True))"

definition mkdir ::
  "nat \<Rightarrow> string \<Rightarrow> int \<Rightarrow> int \<Rightarrow> int \<Rightarrow> int \<Rightarrow> int \<Rightarrow> fs_state \<Rightarrow> fs_state \<times> unit result" where
  "mkdir frames path uid gid siz mode ctime s =
     (if 10000 < fs_newcount s then (s, Inl (OSError EDQUOT))
      else if strip_slash path = [] then (s, Inl (OSError ENOENT))
      else case get_path frames (fs_root s) (path_dirname (strip_slash path)) True of
        Inl e \<Rightarrow> (s, Inl (if e \<in> {IndexError, FileNotFound} then OSError ENOENT else e))
      | Inr p \<Rightarrow>
          (s\<lparr>fs_root := update_at p (set_contents (\<lambda>dir. dir @ [new_node (path_basename path) T_DIR uid gid siz mode ctime])) (fs_root s),
             fs_newcount := fs_newcount s + 1\<rparr>, Inr ()))"

definition mkdir2 :: "nat \<Rightarrow> string \<Rightarrow> int \<Rightarrow> fs_state \<Rightarrow> fs_state \<times> unit result" where
  "mkdir2 frames path ctime s =
     (case getfile frames (fs_root s) path True of
        Inl e \<Rightarrow> (s, Inl e)
      | Inr (Some _) \<Rightarrow> (s, Inl (OSError EEXIST))
      | Inr None \<Rightarrow> mkdir frames path 0 0 4096 16877 ctime s)"

definition rmdir :: "nat \<Rightarrow> string \<Rightarrow> fs_state \<Rightarrow> fs_state \<times> bool result" where
  "rmdir frames path s =
     (let p = rstrip_char CHR ''/'' path; name = path_basename p; parent = path_dirname p; root = fs_root s in
      case getfile frames root p False of
        Inl e \<Rightarrow> (s, Inl e)
      | Inr None \<Rightarrow> (s, Inl (OSError EEXIST))
      | Inr (Some l) \<Rightarrow>
          if type_of (node_at root l) \<noteq> T_DIR then (s, Inl (OSError ENOTDIR))
          else case get_path frames root p True of
            Inl e \<Rightarrow> (s, Inl e)
          | Inr q \<Rightarrow>
              if A_CONTENTS (node_at root q) \<noteq> [] then (s, Inl (OSError ENOTEMPTY))
              else case get_path frames root parent True of
                Inl e \<Rightarrow> (s, Inl e)
              | Inr d \<Rightarrow>
                  (case find (\<lambda>i. name_of i = name) (A_CONTENTS (node_at root d)) of
                     Some i \<Rightarrow> (s\<lparr>fs_root := update_at d (set_contents (remove1 i)) root\<rparr>, Inr True)
                   | None \<Rightarrow> (s, Inr False)))"

text \<open>Operations that assign to fields of the node found; a missing node is ENOENT.\<close>

definition on_file :: "nat \<Rightarrow> string \<Rightarrow> (attrs \<Rightarrow> attrs) \<Rightarrow> fs_state \<Rightarrow> fs_state \<times> unit result" where
  "on_file frames path f s =
     (case getfile frames (fs_root s) path True of
        Inl e \<Rightarrow> (s, Inl e)
      | Inr None \<Rightarrow> (s, Inl (OSError ENOENT))
      | Inr (Some p) \<Rightarrow> (s\<lparr>fs_root := update_at p (set_attrs f) (fs_root s)\<rparr>, Inr ()))"

definition utime :: "nat \<Rightarrow> string \<Rightarrow> int \<Rightarrow> int \<Rightarrow> fs_state \<Rightarrow> fs_state \<times> unit result" where
  "utime frames path atime mtime = on_file frames path (\<lambda>a. a\<lparr>A_CTIME := mtime\<rparr>)"

definition chmod :: "nat \<Rightarrow> string \<Rightarrow> int \<Rightarrow> fs_state \<Rightarrow> fs_state \<times> unit result" where
  "chmod frames path perm = on_file frames path (\<lambda>a. a\<lparr>A_MODE := S_IFMT (A_MODE a) OR perm\<rparr>)"

definition chown :: "nat \<Rightarrow> string \<Rightarrow> int \<Rightarrow> int \<Rightarrow> fs_state \<Rightarrow> fs_state \<times> unit result" where
  "chown frames path uid gid =
     on_file frames path (\<lambda>a. let a = (if uid \<noteq> -1 then a\<lparr>A_UID := uid\<rparr> else a) in if gid \<noteq> -1 then a\<lparr>A_GID := gid\<rparr> else a)"

text \<open>\<open>list.remove\<close> on the contents of a directory.\<close>

definition remove_at :: "loc \<Rightarrow> node \<Rightarrow> node \<Rightarrow> node result" where
  "remove_at d x root =
     (if x \<in> set (A_CONTENTS (node_at root d)) then Inr (update_at d (set_contents (remove1 x)) root) else Inl ValueError)"

definition remove :: "nat \<Rightarrow> string \<Rightarrow> fs_state \<Rightarrow> fs_state \<times> unit result" where
  "remove frames path s =
     (case getfile frames (fs_root s) path False of
        Inl e \<Rightarrow> (s, Inl e)
      | Inr None \<Rightarrow> (s, Inl (OSError ENOENT))
      | Inr (Some l) \<Rightarrow>
          (case get_path frames (fs_root s) (path_dirname path) True of
             Inl e \<Rightarrow> (s, Inl e)
           | Inr d \<Rightarrow>
               (case remove_at d (node_at (fs_root s) l) (fs_root s) of
                  Inl e \<Rightarrow> (s, Inl e)
                | Inr root \<Rightarrow> (s\<lparr>fs_root := root\<rparr>, Inr ()))))"

text \<open>\<open>rename\<close> takes the node out before it looks for the directory it goes to.\<close>

definition rename :: "nat \<Rightarrow> string \<Rightarrow> string \<Rightarrow> fs_state \<Rightarrow> fs_state \<times> unit result" where
  "rename frames oldpath newpath s =
     (let root = fs_root s in
      case bindE (getfile frames root oldpath True) (\<lambda>old. case old of None \<Rightarrow> Inl (OSError ENOENT) | Some l \<Rightarrow>
           bindE (getfile frames root newpath True) (\<lambda>new. case new of Some _ \<Rightarrow> Inl (OSError EEXIST) | None \<Rightarrow>
           bindE (get_path frames root (path_dirname oldpath) True) (\<lambda>d.
           bindE (remove_at d (node_at root l) root) (\<lambda>root'. Inr (node_at root l, root'))))) of
        Inl e \<Rightarrow> (s, Inl e)
      | Inr (old, root) \<Rightarrow>
          let old = set_attrs (\<lambda>a. a\<lparr>A_NAME := path_basename newpath\<rparr>) old in
          (case get_path frames root (path_dirname newpath) True of
             Inl e \<Rightarrow> (s\<lparr>fs_root := root\<rparr>, Inl e)
           | Inr d \<Rightarrow> (s\<lparr>fs_root := update_at d (set_contents (\<lambda>cs. cs @ [old])) root\<rparr>, Inr ())))"

definition update_size :: "nat \<Rightarrow> string \<Rightarrow> int \<Rightarrow> fs_state \<Rightarrow> fs_state \<times> unit result" where
  "update_size frames filename siz s =
     (case getfile frames (fs_root s) filename True of
        Inl e \<Rightarrow> (s, Inl e)
      | Inr None \<Rightarrow> (s, Inr ())
      | Inr (Some p) \<Rightarrow>
          if type_of (node_at (fs_root s) p) \<noteq> T_FILE then (s, Inr ())
          else (s\<lparr>fs_root := update_at p (set_attrs (\<lambda>a. a\<lparr>A_SIZE := siz\<rparr>)) (fs_root s)\<rparr>, Inr ()))"

section \<open>File descriptors\<close>

text \<open>Opening for writing makes the file and a host file behind it. \<open>stamp\<close> is the formatted time, and
  \<open>os_open\<close> what the host's \<open>open\<close> returns for a name and a mode.\<close>

definition hostfile_of :: "fs_host \<Rightarrow> string \<Rightarrow> string \<Rightarrow> string" where
  "hostfile_of h stamp filename =
     h_download_path h @ ''/'' @ stamp @ ''_sftp_'' @
       map (\<lambda>c. let n = code c in
              if 65 \<le> n \<and> n \<le> 90 \<or> 97 \<le> n \<and> n \<le> 122 \<or> 48 \<le> n \<and> n \<le> 57 then c else CHR ''_'') filename"

definition fs_open ::
  "nat \<Rightarrow> fs_host \<Rightarrow> string \<Rightarrow> (string \<Rightarrow> int \<Rightarrow> int result) \<Rightarrow> int \<Rightarrow> string \<Rightarrow> int \<Rightarrow> int \<Rightarrow> fs_state \<Rightarrow>
   fs_state \<times> int option result" where
  "fs_open frames h stamp os_open now filename openFlags mode s =
     (if openFlags AND 1 = 1 \<or> openFlags AND 2 = 2 then
        let hostmode = mode AND NOT 111; hostfile = hostfile_of h stamp filename in
        case mkfile frames filename 0 0 0 (S_IFREG OR mode) now s of
          (s, Inl e) \<Rightarrow> (s, Inl e)
        | (s, Inr _) \<Rightarrow>
            (case os_open hostfile hostmode of
               Inl e \<Rightarrow> (s, Inl e)
             | Inr fd \<Rightarrow>
                 (case getfile frames (fs_root s) filename True of
                    Inl e \<Rightarrow> (s, Inl e)
                  | Inr None \<Rightarrow> (s, Inl TypeError)
                  | Inr (Some p) \<Rightarrow>
                      (s\<lparr>fs_root := update_realfile h p hostfile (fs_root s),
                         fs_tempfiles := (fd, hostfile) # filter (\<lambda>(k, _). k \<noteq> fd) (fs_tempfiles s),
                         fs_filenames := (fd, filename) # filter (\<lambda>(k, _). k \<noteq> fd) (fs_filenames s)\<rparr>,
                       Inr (Some fd))))
      else (s, Inr None))"

text \<open>Closing: the host file is stored under its hash, or dropped if that is there; \<open>shasum\<close> is the hash of
  the host file. The list says what is done on the host.\<close>

datatype host_op = OsRemove string | OsRename string string | OsClose int

definition fs_close ::
  "nat \<Rightarrow> fs_host \<Rightarrow> (string \<Rightarrow> bool) \<Rightarrow> string \<Rightarrow> int \<Rightarrow> fs_state \<Rightarrow> fs_state \<times> host_op list \<times> unit result" where
  "fs_close frames h host_exists shasum fd s =
     (if fd = 0 then (s, [], Inr ())
      else case map_of (fs_tempfiles s) fd of
        None \<Rightarrow> (s, [], Inl KeyError)
      | Some tmp \<Rightarrow>
          let shasumfile = h_download_path h @ ''/'' @ shasum;
              op = (if host_exists shasumfile then OsRemove tmp else OsRename tmp shasumfile) in
          (case map_of (fs_filenames s) fd of
             None \<Rightarrow> (s, [op], Inl KeyError)
           | Some filename \<Rightarrow>
               (case getfile frames (fs_root s) filename True of
                  Inl e \<Rightarrow> (s, [op], Inl e)
                | Inr None \<Rightarrow> (s, [op], Inl TypeError)
                | Inr (Some p) \<Rightarrow>
                    (s\<lparr>fs_root := update_realfile h p shasumfile (fs_root s),
                       fs_tempfiles := filter (\<lambda>(k, _). k \<noteq> fd) (fs_tempfiles s),
                       fs_filenames := filter (\<lambda>(k, _). k \<noteq> fd) (fs_filenames s)\<rparr>,
                     [op, OsClose fd], Inr ()))))"

end
