(* ===== verification/CowrieFsFacts.thy ===== *)
theory CowrieFsFacts
  imports CowrieFs
begin

text \<open>
  The file system of Cowrie: the paths it computes, what looking up means on a tree without links,
  creation and removal as updates of a map from paths to attributes, the bound on what an attacker can
  store, and what goes wrong with links.
\<close>

section \<open>Paths\<close>

text \<open>A component of a canonical path.\<close>

definition plain :: "string \<Rightarrow> bool" where
  "plain p \<longleftrightarrow> p \<noteq> [] \<and> p \<noteq> ''.'' \<and> p \<noteq> ''..'' \<and> CHR ''/'' \<notin> set p"

lemma push_pieces_cases:
  "push_pieces (piece # pieces) cwd = push_pieces pieces (butlast cwd) \<or>
   push_pieces (piece # pieces) cwd = push_pieces pieces cwd \<or>
   push_pieces (piece # pieces) cwd = push_pieces pieces (cwd @ [piece]) \<and> (CHR ''/'' \<notin> set piece \<longrightarrow> plain piece)"
  by (simp add: plain_def)

lemma push_pieces_plain:
  "\<forall>p \<in> set pieces. CHR ''/'' \<notin> set p \<Longrightarrow> \<forall>p \<in> set cwd. plain p \<Longrightarrow> \<forall>p \<in> set (push_pieces pieces cwd). plain p"
proof (induction pieces arbitrary: cwd)
  case (Cons piece pieces)
  have b: "\<forall>p \<in> set (butlast cwd). plain p" using Cons.prems(2) by (simp add: in_set_butlastD)
  have s: "CHR ''/'' \<notin> set piece" "\<forall>p \<in> set pieces. CHR ''/'' \<notin> set p" using Cons.prems(1) by simp_all
  from push_pieces_cases [of piece pieces cwd] consider
      "push_pieces (piece # pieces) cwd = push_pieces pieces (butlast cwd)"
    | "push_pieces (piece # pieces) cwd = push_pieces pieces cwd"
    | "push_pieces (piece # pieces) cwd = push_pieces pieces (cwd @ [piece])" "plain piece" using s by blast
  then show ?case
  proof cases
    case 1
    show ?thesis unfolding 1 by (rule Cons.IH [OF s(2) b])
  next
    case 2
    show ?thesis unfolding 2 by (rule Cons.IH [OF s(2) Cons.prems(2)])
  next
    case 3
    have "\<forall>p \<in> set (cwd @ [piece]). plain p" using Cons.prems(2) 3(2) by simp
    from Cons.IH [OF s(2) this] show ?thesis unfolding 3(1) .
  qed
qed simp

lemma push_pieces_id: "\<forall>p \<in> set pieces. plain p \<Longrightarrow> push_pieces pieces cwd = cwd @ pieces"
  by (induction pieces arbitrary: cwd) (auto simp: plain_def)

lemma push_pieces_append: "push_pieces (ps @ qs) cwd = push_pieces qs (push_pieces ps cwd)"
  by (induction ps arbitrary: cwd) auto

lemma push_pieces_empty: "push_pieces ([] # ps) cwd = push_pieces ps cwd"
  by simp

lemma rstrip_append: "x \<noteq> c \<Longrightarrow> rstrip_char c (s @ [x]) = s @ [x]"
  by (simp add: rstrip_char_def)

lemma split_join_path: "ps \<noteq> [] \<Longrightarrow> \<forall>p \<in> set ps. CHR ''/'' \<notin> set p \<Longrightarrow> split_on CHR ''/'' (join_path ps) = [] # ps"
  by (simp add: join_path_def split_on_join)

lemma join_on_last:
  "ps \<noteq> [] \<Longrightarrow> \<forall>p \<in> set ps. plain p \<Longrightarrow> \<exists>s c. join_on ''/'' ps = s @ [c] \<and> c \<noteq> CHR ''/''"
proof (induction ps rule: induct_list012)
  case (2 p)
  then show ?case by (cases p rule: rev_cases) (auto simp: plain_def)
next
  case (3 p q ps)
  then obtain s c where "join_on ''/'' (q # ps) = s @ [c]" "c \<noteq> CHR ''/''" by auto
  then show ?case by (auto intro: exI [of _ "p @ CHR ''/'' # s"])
qed simp

lemma rstrip_join_path: "ps \<noteq> [] \<Longrightarrow> \<forall>p \<in> set ps. plain p \<Longrightarrow> rstrip_char CHR ''/'' (join_path ps) = join_path ps"
  using join_on_last [of ps] by (auto simp: join_path_def rstrip_char_def)

lemma resolve_canonical:
  assumes "\<forall>p \<in> set ps. plain p"
  shows "resolve_path home (join_path ps) cwd = Inr (join_path ps)"
proof (cases "ps = []")
  case True
  then show ?thesis by (simp add: resolve_path_def join_path_def rstrip_char_def Let_def)
next
  case False
  have "split_on CHR ''/'' (join_path ps) = [] # ps" using False assms by (intro split_join_path) (auto simp: plain_def)
  moreover have "push_pieces ([] # ps) [] = ps" unfolding push_pieces_empty push_pieces_id [OF assms] by simp
  moreover have "\<not> prefix ''~/'' (join_path ps)" by (simp add: join_path_def)
  ultimately show ?thesis
    unfolding resolve_path_def Let_def using rstrip_join_path [OF False assms] by (simp add: join_path_def del: push_pieces.simps)
qed

lemma split_on_snoc: "split_on c (s @ [c]) = split_on c s @ [[]]"
  by (induction s) (auto split: list.splits)

lemma push_pieces_rstrip: "push_pieces (split_on c (rstrip_char c s)) cwd = push_pieces (split_on c s) cwd"
proof (induction s rule: rev_induct)
  case (snoc x s)
  show ?case
  proof (cases "x = c")
    case True
    then have "rstrip_char c (s @ [x]) = rstrip_char c s" by (simp add: rstrip_char_def)
    with True snoc show ?thesis by (simp add: split_on_snoc push_pieces_append)
  qed (simp add: rstrip_append)
qed (simp add: rstrip_char_def)

lemma split_canonical: "\<forall>x \<in> set cs. plain x \<Longrightarrow> filter (\<lambda>x. x \<noteq> []) (split_on CHR ''/'' (join_path cs)) = cs"
proof -
  assume cs: "\<forall>x \<in> set cs. plain x"
  then have "filter (\<lambda>x. x \<noteq> []) cs = cs" by (intro filter_True) (auto simp: plain_def)
  moreover have "cs \<noteq> [] \<Longrightarrow> split_on CHR ''/'' (join_path cs) = [] # cs" using cs by (intro split_join_path) (auto simp: plain_def)
  ultimately show ?thesis by (cases "cs = []") (simp_all add: join_path_def)
qed

lemma split_no_slash: "\<forall>x \<in> set (split_on c s). c \<notin> set x"
  using split_on_no_sep by blast

text \<open>Resolving a path: it fails only on the empty string; otherwise the result is the canonical path of
  the components of the argument, pushed one by one on those of the current directory (on none if the
  path is absolute), two dots popping one and never leaving the root. So the result has no empty
  component, no dot and no two dots, and resolving it again, from any directory, does not change it.\<close>

theorem resolve_path_canonical:
  assumes "\<forall>x \<in> set cs. plain x"
  shows "case resolve_path home p (join_path cs) of
      Inl e \<Rightarrow> e = IndexError \<and> p = []
    | Inr r \<Rightarrow>
        let q = (if prefix ''~/'' p then home @ drop 1 p else p);
            ps = push_pieces (split_on CHR ''/'' q) (if hd q = CHR ''/'' then [] else cs)
        in r = join_path ps \<and> (\<forall>x \<in> set ps. plain x) \<and> (\<forall>cwd. resolve_path home r cwd = Inr r)"
proof (cases "p = []")
  case True
  then show ?thesis by (simp add: resolve_path_def Let_def)
next
  case False
  define q where "q = (if prefix ''~/'' p then home @ drop 1 p else p)"
  have q: "q \<noteq> []" using False by (auto simp: q_def prefix_def)
  define cwd where "cwd = (if hd q = CHR ''/'' then [] else cs)"
  define ps where "ps = push_pieces (split_on CHR ''/'' q) cwd"
  have ps: "\<forall>x \<in> set ps. plain x"
    unfolding ps_def cwd_def using assms by (intro push_pieces_plain split_no_slash) auto
  have "resolve_path home p (join_path cs) = Inr (join_path ps)"
    unfolding resolve_path_def q_def [symmetric] Let_def push_pieces_rstrip split_canonical [OF assms]
    using q by (cases q) (auto simp: ps_def cwd_def)
  with ps resolve_canonical [OF ps] show ?thesis
    unfolding q_def [symmetric] Let_def cwd_def [symmetric] ps_def [symmetric] by simp
qed

theorem resolve_path_canonical_witness:
  "resolve_path ''/root'' ''../../x//./y/'' (join_path [''tmp'']) = Inr ''/x/y'' \<and>
   (\<forall>cwd. resolve_path ''/root'' ''/x/y'' cwd = Inr ''/x/y'')"
proof -
  have r: "resolve_path ''/root'' ''../../x//./y/'' (join_path [''tmp'']) = Inr ''/x/y''" by code_simp
  have "\<forall>x \<in> set [''tmp'']. plain x" by (simp add: plain_def)
  from resolve_path_canonical [OF this, where home = "''/root''" and p = "''../../x//./y/''"] r show ?thesis
    unfolding r sum.case Let_def by blast
qed

section \<open>Trees without links\<close>

text \<open>What a path of names leads to, and where that is.\<close>

fun lookup :: "node \<Rightarrow> string list \<Rightarrow> node option" where
  "lookup n [] = Some n"
| "lookup n (p # ps) =
     (case find (\<lambda>c. name_of c = p) (A_CONTENTS n) of None \<Rightarrow> None | Some c \<Rightarrow> lookup c ps)"

fun locate :: "node \<Rightarrow> string list \<Rightarrow> loc option" where
  "locate n [] = Some []"
| "locate n (p # ps) =
     (case find_index (\<lambda>c. name_of c = p) (A_CONTENTS n) of
        None \<Rightarrow> None
      | Some i \<Rightarrow> map_option (Cons i) (locate (A_CONTENTS n ! i) ps))"

text \<open>No links, and no two entries of a directory with one name.\<close>

fun good :: "node \<Rightarrow> bool" where
  "good (Node a cs) \<longleftrightarrow> A_TYPE a \<noteq> T_LINK \<and> distinct (map name_of cs) \<and> (\<forall>c \<in> set cs. good c)"

lemma good_alt: "good n \<longleftrightarrow> type_of n \<noteq> T_LINK \<and> distinct (map name_of (A_CONTENTS n)) \<and> (\<forall>c \<in> set (A_CONTENTS n). good c)"
  by (cases n) simp

lemma find_index_find: "find P xs = map_option ((!) xs) (find_index P xs)"
  by (induction xs) (auto simp: option.map_comp comp_def)

lemma find_index_lt: "find_index P xs = Some i \<Longrightarrow> i < length xs"
  by (simp add: find_index_Some)

lemma lookup_locate: "lookup n ps = map_option (node_at n) (locate n ps)"
  by (induction ps arbitrary: n) (auto simp: find_index_find option.map_comp comp_def split: option.splits)

lemma good_lookup: "good n \<Longrightarrow> lookup n ps = Some m \<Longrightarrow> good m"
proof (induction ps arbitrary: n)
  case (Cons p ps)
  from Cons.prems(2) obtain c where c: "find (\<lambda>c. name_of c = p) (A_CONTENTS n) = Some c" "lookup c ps = Some m"
    by (auto split: option.splits)
  from find_Some_in_set [OF c(1)] Cons.prems(1) have "good c" by (auto simp: good_alt [of n])
  from Cons.IH [OF this c(2)] show ?case .
qed simp

lemma node_at_append: "node_at n (l @ m) = node_at (node_at n l) m"
  by (induction l arbitrary: n) auto

lemma try_entries_none: "piece \<notin> name_of ` set xs \<Longrightarrow> try_entries step piece i xs p = Inr p"
  by (induction xs arbitrary: i) auto

lemma try_entries_distinct:
  "distinct (map name_of xs) \<Longrightarrow> try_entries step piece i xs None =
     (case find_index (\<lambda>c. name_of c = piece) xs of None \<Rightarrow> Inr None | Some j \<Rightarrow> step (i + j) (xs ! j))"
proof (induction xs arbitrary: i)
  case (Cons x xs)
  show ?case
  proof (cases "name_of x = piece")
    case True
    with Cons.prems have "piece \<notin> name_of ` set xs" by auto
    with True show ?thesis by (auto simp: try_entries_none split: sum.splits option.splits)
  next
    case False
    with Cons show ?thesis by (auto split: option.splits)
  qed
qed simp

lemma good_entry: "good n \<Longrightarrow> find_index P (A_CONTENTS n) = Some i \<Longrightarrow> good (A_CONTENTS n ! i) \<and> type_of (A_CONTENTS n ! i) \<noteq> T_LINK"
  using find_index_lt by (metis good_alt nth_mem)

lemma goodD: "good n \<Longrightarrow> type_of n \<noteq> T_LINK \<and> distinct (map name_of (A_CONTENTS n))"
  by (cases n) simp

lemma walk_good:
  "good (node_at root p) \<Longrightarrow> walk look fol fin root ps p = Inr (map_option (\<lambda>l. p @ l) (locate (node_at root p) ps))"
proof (induction ps arbitrary: p)
  case (Cons piece ps)
  note d = try_entries_distinct [OF conjunct2 [OF goodD [OF Cons.prems]]]
  show ?case
  proof (cases "find_index (\<lambda>c. name_of c = piece) (A_CONTENTS (node_at root p))")
    case None
    then show ?thesis by (simp add: d)
  next
    case (Some i)
    let ?c = "A_CONTENTS (node_at root p) ! i"
    from good_entry [OF Cons.prems Some] have c: "good ?c" "type_of ?c \<noteq> T_LINK" by auto
    have at: "node_at root (p @ [i]) = ?c" by (simp add: node_at_append)
    have "walk look fol fin root (piece # ps) p = walk look fol fin root ps (p @ [i])"
      using Some c(2) by (simp add: d enter_def)
    also have "\<dots> = Inr (map_option (\<lambda>l. p @ i # l) (locate ?c ps))"
      using Cons.IH [of "p @ [i]"] c(1) by (simp add: at)
    finally show ?thesis using Some by (simp add: option.map_comp comp_def)
  qed
qed simp

lemma enter_dirs_good:
  "good (node_at root p) \<Longrightarrow> enter_dirs look root ps p =
     (case locate (node_at root p) (filter (\<lambda>x. x \<noteq> []) ps) of None \<Rightarrow> Inl FileNotFound | Some l \<Rightarrow> Inr (p @ l))"
proof (induction ps arbitrary: p)
  case (Cons piece ps)
  show ?case
  proof (cases "piece = []")
    case True
    with Cons show ?thesis by simp
  next
    case False
    show ?thesis
    proof (cases "find_index (\<lambda>c. name_of c = piece) (A_CONTENTS (node_at root p))")
      case None
      with False show ?thesis by simp
    next
      case (Some i)
      let ?c = "A_CONTENTS (node_at root p) ! i"
      from good_entry [OF Cons.prems Some] have c: "good ?c" "type_of ?c \<noteq> T_LINK" by auto
      have at: "node_at root (p @ [i]) = ?c" by (simp add: node_at_append)
      have "enter_dirs look root (piece # ps) p = enter_dirs look root ps (p @ [i])"
        using False Some c(2) by (simp add: Let_def)
      also have "\<dots> = (case locate ?c (filter (\<lambda>x. x \<noteq> []) ps) of None \<Rightarrow> Inl FileNotFound | Some l \<Rightarrow> Inr (p @ i # l))"
        using Cons.IH [of "p @ [i]"] c(1) by (simp add: at cong: option.case_cong)
      finally show ?thesis using False Some by (simp split: option.splits)
    qed
  qed
qed simp

lemma join_on_hd:
  assumes "ps \<noteq> []" and "\<forall>p \<in> set ps. plain p"
  shows "\<exists>c s. join_on ''/'' ps = c # s \<and> c \<noteq> CHR ''/''"
proof -
  obtain p ps' where p: "ps = p # ps'" using assms(1) by (cases ps) auto
  with assms(2) obtain c p' where c: "p = c # p'" "c \<noteq> CHR ''/''" by (cases p) (auto simp: plain_def)
  have "join_on ''/'' ps = c # p' @ (if ps' = [] then [] else ''/'' @ join_on ''/'' ps')"
    unfolding p c(1) by (cases ps') simp_all
  with c(2) show ?thesis by blast
qed

lemma lstrip_join: "\<forall>p \<in> set ps. plain p \<Longrightarrow> lstrip_char CHR ''/'' (join_on ''/'' ps) = join_on ''/'' ps"
  using join_on_hd [of ps] by (cases "ps = []") (auto simp: lstrip_char_def)

lemma strip_join_path: "\<forall>p \<in> set ps. plain p \<Longrightarrow> strip_slash (join_path ps) = join_on ''/'' ps"
proof -
  assume ps: "\<forall>p \<in> set ps. plain p"
  have "lstrip_char CHR ''/'' (join_path ps) = join_on ''/'' ps"
    using lstrip_join [OF ps] by (simp add: join_path_def lstrip_char_def)
  moreover have "rstrip_char CHR ''/'' (join_on ''/'' ps) = join_on ''/'' ps"
    using join_on_last [OF _ ps] by (cases "ps = []") (auto simp: rstrip_char_def)
  ultimately show ?thesis by (simp add: strip_slash_def)
qed

lemma getfile_good:
  assumes "good root" and ps: "\<forall>p \<in> set ps. plain p"
  shows "getfile (Suc k) root (join_path ps) b = Inr (locate root ps)"
proof (cases "ps = []")
  case True
  then show ?thesis by (simp add: join_path_def)
next
  case False
  then obtain p ps' where p: "ps = p # ps'" by (cases ps) auto
  then have "join_path ps \<noteq> ''/''" using ps by (cases ps') (auto simp: join_path_def plain_def)
  moreover have "split_on CHR ''/'' (join_on ''/'' ps) = ps"
    using False ps by (intro split_on_join) (auto simp: plain_def)
  ultimately show ?thesis
    using walk_good [of root "[]"] assms by (simp add: strip_join_path [OF ps] Let_def option.map_ident)
qed

declare getfile.simps [simp del]

lemma filter_plain: "\<forall>p \<in> set ps. plain p \<Longrightarrow> filter (\<lambda>x. x \<noteq> []) ps = ps"
  by (intro filter_True) (auto simp: plain_def)

lemma get_path_good:
  assumes "good root" and "filter (\<lambda>x. x \<noteq> []) (split_on CHR ''/'' path) = ps"
  shows "get_path k root path b = (case locate root ps of None \<Rightarrow> Inl FileNotFound | Some l \<Rightarrow> Inr l)"
  using enter_dirs_good [of root "[]"] assms by (simp add: get_path_def cong: option.case_cong)

section \<open>The tree as a map from paths to attributes\<close>

type_synonym view = "string list \<Rightarrow> attrs option"

definition view_of :: "node \<Rightarrow> view" where
  "view_of n ps = map_option A (lookup n ps)"

lemma view_simps [simp]:
  "view_of n [] = Some (A n)"
  "view_of n (p # ps) = (case find (\<lambda>c. name_of c = p) (A_CONTENTS n) of None \<Rightarrow> None | Some c \<Rightarrow> view_of c ps)"
  by (simp_all add: view_of_def split: option.splits)

lemma view_None: "view_of n ps = None \<longleftrightarrow> locate n ps = None"
  by (simp add: view_of_def lookup_locate)

lemma view_Some: "locate n ps = Some l \<Longrightarrow> view_of n ps = Some (A (node_at n l))"
  by (simp add: view_of_def lookup_locate)

lemma view_append: "view_of n (ps @ qs) = (case lookup n ps of None \<Rightarrow> None | Some m \<Rightarrow> view_of m qs)"
  by (induction ps arbitrary: n) (auto split: option.splits)

lemma find_index_map: "find_index (\<lambda>c. name_of c = q) xs = find_index (\<lambda>x. x = q) (map name_of xs)"
  by (induction xs) auto

lemma find_update_same:
  "map name_of ys = map name_of xs \<Longrightarrow> find_index (\<lambda>c. name_of c = q) ys = find_index (\<lambda>c. name_of c = q) xs"
  by (simp add: find_index_map)

lemma map_name_update: "name_of y = name_of (xs ! i) \<Longrightarrow> map name_of (xs[i := y]) = map name_of xs"
  by (cases "i < length xs") (auto intro: nth_equalityI simp: nth_list_update)

lemma update_at_name: "(l = [] \<Longrightarrow> name_of (f n) = name_of n) \<Longrightarrow> name_of (update_at l f n) = name_of n"
  by (cases l) auto

text \<open>An update where a path leads is seen at that path and below, and nowhere else.\<close>

lemma view_update_at:
  assumes "locate n ps = Some l" and "name_of (f (node_at n l)) = name_of (node_at n l)"
  shows "view_of (update_at l f n) qs =
    (if prefix ps qs then view_of (f (node_at n l)) (drop (length ps) qs) else view_of n qs)"
  using assms
proof (induction ps arbitrary: n l qs)
  case (Cons p ps)
  from Cons.prems(1) obtain i m where i: "find_index (\<lambda>c. name_of c = p) (A_CONTENTS n) = Some i"
    and m: "locate (A_CONTENTS n ! i) ps = Some m" "l = i # m" by (auto split: option.splits)
  let ?c = "A_CONTENTS n ! i"
  have u: "update_at l f n = Node (A n) ((A_CONTENTS n)[i := update_at m f ?c])" by (simp add: m)
  have same: "find_index (\<lambda>c. name_of c = q) ((A_CONTENTS n)[i := update_at m f ?c]) =
      find_index (\<lambda>c. name_of c = q) (A_CONTENTS n)" for q
  proof -
    have "name_of (update_at m f ?c) = name_of ?c" using Cons.prems(2) m by (intro update_at_name) simp
    then show ?thesis by (intro find_update_same map_name_update)
  qed
  have p: "name_of ?c = p" using find_index_Some [OF i] by simp
  show ?case
  proof (cases qs)
    case (Cons q qs')
    show ?thesis
    proof (cases "q = p")
      case True
      have "view_of (update_at l f n) qs = view_of (update_at m f ?c) qs'"
        using same [of p] i find_index_lt [OF i] by (simp add: u Cons True find_index_find)
      also have "\<dots> = (if prefix ps qs' then view_of (f (node_at ?c m)) (drop (length ps) qs') else view_of ?c qs')"
        using Cons.IH [OF m(1)] Cons.prems(2) by (simp add: m)
      finally show ?thesis using i by (simp add: Cons True m find_index_find)
    next
      case False
      show ?thesis
      proof (cases "find_index (\<lambda>c. name_of c = q) (A_CONTENTS n)")
        case None
        with False show ?thesis by (simp add: u Cons find_index_find same)
      next
        case (Some j)
        with False p find_index_Some [OF Some] have "j \<noteq> i" by auto
        with False Some show ?thesis by (simp add: u Cons find_index_find same)
      qed
    qed
  qed (simp add: u)
qed simp

lemma good_update_at:
  assumes "good n" and "locate n ps = Some l" and "good (f (node_at n l))" and "name_of (f (node_at n l)) = name_of (node_at n l)"
  shows "good (update_at l f n)"
  using assms
proof (induction ps arbitrary: n l)
  case (Cons p ps)
  from Cons.prems(2) obtain i m where i: "find_index (\<lambda>c. name_of c = p) (A_CONTENTS n) = Some i"
    and m: "locate (A_CONTENTS n ! i) ps = Some m" "l = i # m" by (auto split: option.splits)
  let ?c = "A_CONTENTS n ! i"
  have "good (update_at m f ?c)"
    using Cons.IH [OF _ m(1)] good_entry [OF Cons.prems(1) i] Cons.prems(3,4) m by simp
  moreover have "name_of (update_at m f ?c) = name_of ?c" using Cons.prems(4) m by (intro update_at_name) simp
  then have "map name_of ((A_CONTENTS n)[i := update_at m f ?c]) = map name_of (A_CONTENTS n)" by (rule map_name_update)
  moreover have "\<forall>c \<in> set (A_CONTENTS n). good c" using Cons.prems(1) by (cases n) simp
  ultimately show ?case
    using goodD [OF Cons.prems(1)] set_update_subset_insert by (fastforce simp: m)
qed simp

lemma lookup_good_at: "good n \<Longrightarrow> locate n ps = Some l \<Longrightarrow> good (node_at n l)"
  using good_lookup [of n ps] by (simp add: lookup_locate)

text \<open>The three changes of a directory: replacing an entry, adding one and removing one.\<close>

lemma set_contents_sel [simp]: "A (set_contents g n) = A n" "A_CONTENTS (set_contents g n) = g (A_CONTENTS n)"
  by (simp_all add: set_contents_def)

lemma view_set_contents:
  "view_of (set_contents g n) qs =
     (case qs of [] \<Rightarrow> Some (A n) | q # r \<Rightarrow> (case find (\<lambda>c. name_of c = q) (g (A_CONTENTS n)) of None \<Rightarrow> None | Some c \<Rightarrow> view_of c r))"
  by (cases qs) (simp_all add: set_contents_def)

lemma find_remove1_other: "\<not> P y \<Longrightarrow> find P (remove1 y xs) = find P xs"
  by (induction xs) auto

lemma find_remove1_named:
  assumes "distinct (map name_of xs)" and "y \<in> set xs" and "name_of y = p"
  shows "find (\<lambda>c. name_of c = p) (remove1 y xs) = None"
proof -
  have "x \<noteq> y \<Longrightarrow> x \<in> set xs \<Longrightarrow> name_of x \<noteq> p" for x
    using assms by (metis distinct_map inj_onD)
  then show ?thesis using assms(1) by (simp add: find_None_all distinct_map) 
qed

lemma find_remove1:
  assumes "distinct (map name_of xs)" and "y \<in> set xs"
  shows "find (\<lambda>c. name_of c = q) (remove1 y xs) = (if q = name_of y then None else find (\<lambda>c. name_of c = q) xs)"
  using find_remove1_named [OF assms refl] find_remove1_other [of "\<lambda>c. name_of c = q" y] by auto

lemma good_set_contents:
  assumes "good n" and "distinct (map name_of (g (A_CONTENTS n)))" and "\<forall>c \<in> set (g (A_CONTENTS n)). good c"
  shows "good (set_contents g n)"
  using assms by (cases n) (simp add: set_contents_def)

lemma good_remove1: "good n \<Longrightarrow> good (set_contents (remove1 y) n)"
proof (rule good_set_contents)
  assume n: "good n"
  show "distinct (map name_of (remove1 y (A_CONTENTS n)))" using goodD [OF n] by (simp add: distinct_map inj_on_def)
  show "\<forall>c \<in> set (remove1 y (A_CONTENTS n)). good c" using n by (cases n) (auto dest: notin_set_remove1)
qed

section \<open>The abstract file system\<close>

text \<open>
  Calls on canonical paths, and what each does to a map from paths to attributes and the count of new
  files: no positions, no trees. A regular file counts as a directory here, as it does in the code.
\<close>

datatype call =
    Mkfile "string list" string int int int int int
  | Mkdir2 "string list" string int
  | Rmdir "string list" string
  | Remove "string list" string
  | Chmod "string list" int
  | Chown "string list" int int
  | Utime "string list" int int
  | Update_size "string list" int

fun call_ok :: "call \<Rightarrow> bool" where
  "call_ok (Mkfile ps x uid gid siz mode t) \<longleftrightarrow> (\<forall>p \<in> set (ps @ [x]). plain p)"
| "call_ok (Mkdir2 ps x t) \<longleftrightarrow> (\<forall>p \<in> set (ps @ [x]). plain p)"
| "call_ok (Rmdir ps x) \<longleftrightarrow> (\<forall>p \<in> set (ps @ [x]). plain p)"
| "call_ok (Remove ps x) \<longleftrightarrow> (\<forall>p \<in> set (ps @ [x]). plain p)"
| "call_ok (Chmod ps _) \<longleftrightarrow> (\<forall>p \<in> set ps. plain p)"
| "call_ok (Chown ps _ _) \<longleftrightarrow> (\<forall>p \<in> set ps. plain p)"
| "call_ok (Utime ps _ _) \<longleftrightarrow> (\<forall>p \<in> set ps. plain p)"
| "call_ok (Update_size ps _) \<longleftrightarrow> (\<forall>p \<in> set ps. plain p)"

text \<open>The calls of the code.\<close>

definition ok_unit :: "fs_state \<times> unit result \<Rightarrow> fs_state \<times> bool result" where
  "ok_unit r = (fst r, case snd r of Inl e \<Rightarrow> Inl e | Inr _ \<Rightarrow> Inr True)"

fun do_call :: "nat \<Rightarrow> call \<Rightarrow> fs_state \<Rightarrow> fs_state \<times> bool result" where
  "do_call k (Mkfile ps x uid gid siz mode t) s = mkfile k (join_path (ps @ [x])) uid gid siz mode t s"
| "do_call k (Mkdir2 ps x t) s = ok_unit (mkdir2 k (join_path (ps @ [x])) t s)"
| "do_call k (Rmdir ps x) s = rmdir k (join_path (ps @ [x])) s"
| "do_call k (Remove ps x) s = ok_unit (remove k (join_path (ps @ [x])) s)"
| "do_call k (Chmod ps m) s = ok_unit (chmod k (join_path ps) m s)"
| "do_call k (Chown ps u g) s = ok_unit (chown k (join_path ps) u g s)"
| "do_call k (Utime ps a t) s = ok_unit (utime k (join_path ps) a t s)"
| "do_call k (Update_size ps n) s = ok_unit (update_size k (join_path ps) n s)"

text \<open>Putting a node with nothing below it, and taking one away with all below it.\<close>

definition put_view :: "string list \<Rightarrow> attrs \<Rightarrow> view \<Rightarrow> view" where
  "put_view p a v = (\<lambda>q. if q = p then Some a else if prefix p q then None else v q)"

definition drop_view :: "string list \<Rightarrow> view \<Rightarrow> view" where
  "drop_view p v = (\<lambda>q. if prefix p q then None else v q)"

definition set_view :: "string list \<Rightarrow> (attrs \<Rightarrow> attrs) \<Rightarrow> view \<Rightarrow> view" where
  "set_view p f v = v(p := map_option f (v p))"

fun spec_call :: "call \<Rightarrow> view \<times> nat \<Rightarrow> (view \<times> nat) \<times> bool result" where
  "spec_call (Mkfile ps x uid gid siz mode t) (v, n) =
     (if 10000 < n then ((v, n), Inr False)
      else if list_ex (\<lambda>p. prefix p (join_path ps)) SPECIAL_PATHS then ((v, n), Inl PermissionDenied)
      else if v ps = None then ((v, n), Inl FileNotFound)
      else ((put_view (ps @ [x]) (A (new_node x T_FILE uid gid siz mode t)) v, n + 1), Inr True))"
| "spec_call (Mkdir2 ps x t) (v, n) =
     (if v (ps @ [x]) \<noteq> None then ((v, n), Inl (OSError EEXIST))
      else if 10000 < n then ((v, n), Inl (OSError EDQUOT))
      else if v ps = None then ((v, n), Inl (OSError ENOENT))
      else ((put_view (ps @ [x]) (A (new_node x T_DIR 0 0 4096 16877 t)) v, n + 1), Inr True))"
| "spec_call (Rmdir ps x) (v, n) =
     (case v (ps @ [x]) of
        None \<Rightarrow> ((v, n), Inl (OSError EEXIST))
      | Some a \<Rightarrow>
          if A_TYPE a \<noteq> T_DIR then ((v, n), Inl (OSError ENOTDIR))
          else if \<exists>y. v (ps @ [x, y]) \<noteq> None then ((v, n), Inl (OSError ENOTEMPTY))
          else ((drop_view (ps @ [x]) v, n), Inr True))"
| "spec_call (Remove ps x) (v, n) =
     (if v (ps @ [x]) = None then ((v, n), Inl (OSError ENOENT)) else ((drop_view (ps @ [x]) v, n), Inr True))"
| "spec_call (Chmod ps m) (v, n) =
     (if v ps = None then ((v, n), Inl (OSError ENOENT))
      else ((set_view ps (\<lambda>a. a\<lparr>A_MODE := S_IFMT (A_MODE a) OR m\<rparr>) v, n), Inr True))"
| "spec_call (Chown ps u g) (v, n) =
     (if v ps = None then ((v, n), Inl (OSError ENOENT))
      else ((set_view ps (\<lambda>a. a\<lparr>A_UID := (if u = -1 then A_UID a else u), A_GID := (if g = -1 then A_GID a else g)\<rparr>) v, n), Inr True))"
| "spec_call (Utime ps a t) (v, n) =
     (if v ps = None then ((v, n), Inl (OSError ENOENT)) else ((set_view ps (\<lambda>a. a\<lparr>A_CTIME := t\<rparr>) v, n), Inr True))"
| "spec_call (Update_size ps siz) (v, n) =
     ((if \<exists>a. v ps = Some a \<and> A_TYPE a = T_FILE then set_view ps (\<lambda>a. a\<lparr>A_SIZE := siz\<rparr>) v else v, n), Inr True)"

definition abs_state :: "fs_state \<Rightarrow> view \<times> nat" where
  "abs_state s = (view_of (fs_root s), fs_newcount s)"

text \<open>One call simulates one: the new tree is good again, and the results agree.\<close>

definition simulates :: "call \<Rightarrow> fs_state \<Rightarrow> fs_state \<times> bool result \<Rightarrow> bool" where
  "simulates c s r \<longleftrightarrow> good (fs_root (fst r)) \<and> spec_call c (abs_state s) = (abs_state (fst r), snd r)"

section \<open>Paths of calls\<close>

lemma join_path_snoc: "join_path (ps @ [x]) = (if ps = [] then join_path [x] else join_path ps @ CHR ''/'' # x)"
  by (induction ps rule: induct_list012) (auto simp: join_path_def join_Cons)

lemma basename_snoc: "\<forall>p \<in> set (ps @ [x]). plain p \<Longrightarrow> path_basename (join_path (ps @ [x])) = x"
  unfolding path_basename_def by (subst split_join_path) (auto simp: plain_def)

lemma dirname_snoc:
  assumes "\<forall>p \<in> set (ps @ [x]). plain p"
  shows "path_dirname (join_path (ps @ [x])) = join_path ps"
proof (cases "ps = []")
  case True
  with assms show ?thesis
    using basename_snoc [OF assms] by (simp add: path_dirname_def Let_def join_path_def)
next
  case False
  have len: "length (join_path (ps @ [x])) - length x = Suc (length (join_path ps))"
    using False by (simp add: join_path_snoc)
  have head: "take (Suc (length (join_path ps))) (join_path (ps @ [x])) = join_path ps @ [CHR ''/'']"
    using False by (simp add: join_path_snoc)
  obtain c s where c: "join_on ''/'' ps = c # s" "c \<noteq> CHR ''/''" using join_on_hd [OF False] assms by auto
  have "\<not> list_all (\<lambda>c. c = CHR ''/'') (join_path ps @ [CHR ''/''])" using c by (simp add: join_path_def)
  moreover have "rstrip_char CHR ''/'' (join_path ps @ [CHR ''/'']) = join_path ps"
  proof -
    have "rstrip_char CHR ''/'' (join_path ps @ [CHR ''/'']) = rstrip_char CHR ''/'' (join_path ps)"
      by (simp add: rstrip_char_def)
    then show ?thesis using rstrip_join_path [OF False] assms by simp
  qed
  ultimately show ?thesis unfolding path_dirname_def basename_snoc [OF assms] len head Let_def by simp
qed

lemma dirname_stripped:
  assumes "\<forall>p \<in> set (ps @ [x]). plain p"
  shows "filter (\<lambda>x. x \<noteq> []) (split_on CHR ''/'' (path_dirname (strip_slash (join_path (ps @ [x]))))) = ps"
proof -
  let ?j = "join_on ''/'' (ps @ [x])"
  have base: "path_basename ?j = x"
    unfolding path_basename_def using assms by (subst split_on_join) (auto simp: plain_def)
  show ?thesis
  proof (cases "ps = []")
    case True
    with base have "path_basename x = x" by simp
    then show ?thesis unfolding strip_join_path [OF assms] using True by (simp add: path_dirname_def)
  next
    case False
    have j: "?j = join_on ''/'' ps @ CHR ''/'' # x" using join_path_snoc [of ps x] False by (simp add: join_path_def)
    have head: "take (length ?j - length x) ?j = join_on ''/'' ps @ [CHR ''/'']" by (simp add: j)
    obtain c s where c: "join_on ''/'' ps = c # s" "c \<noteq> CHR ''/''" using join_on_hd [OF False] assms by auto
    obtain d t where d: "join_on ''/'' ps = t @ [d]" "d \<noteq> CHR ''/''" using join_on_last [OF False] assms by auto
    have "rstrip_char CHR ''/'' (join_on ''/'' ps @ [CHR ''/'']) = join_on ''/'' ps"
      using d by (simp add: rstrip_char_def)
    moreover have "\<not> list_all (\<lambda>c. c = CHR ''/'') (join_on ''/'' ps @ [CHR ''/''])" using c by simp
    ultimately have "path_dirname ?j = join_on ''/'' ps" unfolding path_dirname_def base head Let_def by simp
    moreover have "split_on CHR ''/'' (join_on ''/'' ps) = ps" using False assms by (intro split_on_join) (auto simp: plain_def)
    ultimately show ?thesis unfolding strip_join_path [OF assms] using filter_plain [of ps] assms by simp
  qed
qed

section \<open>Simulation\<close>

lemma locate_snoc: "locate n (ps @ [x]) =
  (case locate n ps of None \<Rightarrow> None
   | Some l \<Rightarrow> map_option (\<lambda>i. l @ [i]) (find_index (\<lambda>c. name_of c = x) (A_CONTENTS (node_at n l))))"
proof (induction ps arbitrary: n)
  case (Cons p ps)
  show ?case
  proof (cases "find_index (\<lambda>c. name_of c = p) (A_CONTENTS n)")
    case (Some i)
    then show ?thesis using Cons.IH [of "A_CONTENTS n ! i"]
      by (cases "locate (A_CONTENTS n ! i) ps") (simp_all add: option.map_comp comp_def)
  qed simp
qed (simp add: option.map_ident split: option.splits)

text \<open>Changing the contents of the directory a path leads to.\<close>

lemma contents_at:
  assumes "good root" and "locate root ps = Some l"
    and "distinct (map name_of (g (A_CONTENTS (node_at root l))))" and "\<forall>c \<in> set (g (A_CONTENTS (node_at root l))). good c"
  shows "good (update_at l (set_contents g) root)"
    and "view_of (update_at l (set_contents g) root) (ps @ q # r) =
      (case find (\<lambda>c. name_of c = q) (g (A_CONTENTS (node_at root l))) of None \<Rightarrow> None | Some c \<Rightarrow> view_of c r)"
    and "\<not> (\<exists>q r. qs = ps @ q # r) \<Longrightarrow> view_of (update_at l (set_contents g) root) qs = view_of root qs"
proof -
  have name: "name_of (set_contents g (node_at root l)) = name_of (node_at root l)" by (simp add: set_contents_def)
  have "good (set_contents g (node_at root l))"
    using lookup_good_at [OF assms(1,2)] assms(3,4) by (intro good_set_contents) simp_all
  from good_update_at [OF assms(1,2), of "set_contents g"] this name show "good (update_at l (set_contents g) root)" by simp
  note v = view_update_at [OF assms(2), of "set_contents g", OF name]
  show "view_of (update_at l (set_contents g) root) (ps @ q # r) =
      (case find (\<lambda>c. name_of c = q) (g (A_CONTENTS (node_at root l))) of None \<Rightarrow> None | Some c \<Rightarrow> view_of c r)"
    by (simp add: v)
  show "view_of (update_at l (set_contents g) root) qs = view_of root qs" if n: "\<not> (\<exists>q r. qs = ps @ q # r)"
  proof (cases "prefix ps qs")
    case True
    with n have "qs = ps" by (auto simp: prefix_def) (metis append_Nil2 neq_Nil_conv)
    then show ?thesis by (simp add: v view_Some [OF assms(2)])
  qed (simp add: v)
qed

lemma view_below:
  assumes "locate root ps = Some l"
  shows "view_of root (ps @ q # r) =
    (case find (\<lambda>c. name_of c = q) (A_CONTENTS (node_at root l)) of None \<Rightarrow> None | Some c \<Rightarrow> view_of c r)"
  using assms by (simp add: view_append lookup_locate)

text \<open>A new entry with what is below it, in place of the one of its name if there is one.\<close>

definition graft_view :: "string list \<Rightarrow> view \<Rightarrow> view \<Rightarrow> view" where
  "graft_view p w v = (\<lambda>q. if prefix p q then w (drop (length p) q) else v q)"

lemma graft_at:
  assumes "good root" and "locate root ps = Some l" and yx: "name_of y = x" "good y"
    and "g (A_CONTENTS (node_at root l)) =
      (case find (\<lambda>c. name_of c = x) (A_CONTENTS (node_at root l)) of Some z \<Rightarrow> remove1 z (A_CONTENTS (node_at root l))
       | None \<Rightarrow> A_CONTENTS (node_at root l)) @ [y]" (is "_ = ?old @ [y]")
  shows "good (update_at l (set_contents g) root) \<and>
    view_of (update_at l (set_contents g) root) = graft_view (ps @ [x]) (view_of y) (view_of root)"
proof
  let ?d = "node_at root l"
  have d: "good ?d" using lookup_good_at [OF assms(1,2)] .
  note dist = conjunct2 [OF goodD [OF d]]
  have others: "find (\<lambda>c. name_of c = q) ?old = (if q = x then None else find (\<lambda>c. name_of c = q) (A_CONTENTS ?d))" for q
  proof (cases "find (\<lambda>c. name_of c = x) (A_CONTENTS ?d)")
    case (Some z)
    from find_Some_in_set [OF Some] show ?thesis using find_remove1 [OF dist, of z q] by (simp add: Some)
  qed simp
  have old: "distinct (map name_of ?old) \<and> (\<forall>c \<in> set ?old. good c)"
  proof (cases "find (\<lambda>c. name_of c = x) (A_CONTENTS ?d)")
    case None
    then show ?thesis using d dist by (cases ?d) simp
  next
    case (Some z)
    from good_remove1 [OF d, of z] show ?thesis by (simp add: Some set_contents_def)
  qed
  have "x \<notin> name_of ` set ?old" using others [of x] by (auto simp: find_None_all)
  then have cs: "distinct (map name_of (?old @ [y]))" "\<forall>c \<in> set (?old @ [y]). good c" using old yx by simp_all
  note c = contents_at [OF assms(1,2), of g, unfolded assms(5), OF cs]
  show "good (update_at l (set_contents g) root)" by (rule c(1))
  show "view_of (update_at l (set_contents g) root) = graft_view (ps @ [x]) (view_of y) (view_of root)"
  proof
    fix qs
    show "view_of (update_at l (set_contents g) root) qs = graft_view (ps @ [x]) (view_of y) (view_of root) qs"
    proof (cases "\<exists>q r. qs = ps @ q # r")
      case True
      then obtain q r where qs: "qs = ps @ q # r" by blast
      show ?thesis unfolding qs c(2) find_append others
        using yx by (auto simp: graft_view_def view_below [OF assms(2)] split: option.splits)
    next
      case False
      then have "\<not> prefix (ps @ [x]) qs" by (auto simp: prefix_def)
      with c(3) [OF False] show ?thesis by (simp add: graft_view_def)
    qed
  qed
qed

text \<open>The case of a new node, which has nothing below it.\<close>

lemma put_at:
  assumes "good root" and "locate root ps = Some l" and "y = new_node x t uid gid siz mode ct" and "t \<noteq> T_LINK"
    and "g (A_CONTENTS (node_at root l)) =
      (case find (\<lambda>c. name_of c = x) (A_CONTENTS (node_at root l)) of Some z \<Rightarrow> remove1 z (A_CONTENTS (node_at root l))
       | None \<Rightarrow> A_CONTENTS (node_at root l)) @ [y]"
  shows "good (update_at l (set_contents g) root) \<and> view_of (update_at l (set_contents g) root) = put_view (ps @ [x]) (A y) (view_of root)"
proof -
  have y: "name_of y = x" "good y" "A_CONTENTS y = []" using assms(3,4) by (simp_all add: new_node_def)
  have "view_of y r = (if r = [] then Some (A y) else None)" for r using y(3) by (cases r) simp_all
  then have "graft_view (ps @ [x]) (view_of y) (view_of root) = put_view (ps @ [x]) (A y) (view_of root)"
    by (intro ext) (auto simp: graft_view_def put_view_def elim!: prefixE)
  with graft_at [of root ps l y x g] assms(1,2,5) y(1,2) show ?thesis by simp
qed

text \<open>An entry taken away.\<close>

lemma drop_at:
  assumes "good root" and "locate root ps = Some l" and "z \<in> set (A_CONTENTS (node_at root l))"
  shows "good (update_at l (set_contents (remove1 z)) root) \<and>
    view_of (update_at l (set_contents (remove1 z)) root) = drop_view (ps @ [name_of z]) (view_of root)"
proof
  let ?d = "node_at root l"
  have d: "good ?d" using lookup_good_at [OF assms(1,2)] .
  have cs: "distinct (map name_of (remove1 z (A_CONTENTS ?d)))" "\<forall>c \<in> set (remove1 z (A_CONTENTS ?d)). good c"
    using good_remove1 [OF d, of z] by (simp_all add: set_contents_def)
  note c = contents_at [OF assms(1,2), of "remove1 z", OF cs]
  show "good (update_at l (set_contents (remove1 z)) root)" by (rule c(1))
  show "view_of (update_at l (set_contents (remove1 z)) root) = drop_view (ps @ [name_of z]) (view_of root)"
  proof
    fix qs
    show "view_of (update_at l (set_contents (remove1 z)) root) qs = drop_view (ps @ [name_of z]) (view_of root) qs"
    proof (cases "\<exists>q r. qs = ps @ q # r")
      case True
      then obtain q r where qs: "qs = ps @ q # r" by blast
      show ?thesis unfolding qs c(2) find_remove1 [OF conjunct2 [OF goodD [OF d]] assms(3)]
        by (auto simp: drop_view_def view_below [OF assms(2)])
    next
      case False
      then have "\<not> prefix (ps @ [name_of z]) qs" by (auto simp: prefix_def)
      with c(3) [OF False] show ?thesis by (simp add: drop_view_def)
    qed
  qed
qed

text \<open>Attributes assigned.\<close>

lemma set_attrs_sel [simp]: "A (set_attrs f n) = f (A n)" "A_CONTENTS (set_attrs f n) = A_CONTENTS n"
  by (simp_all add: set_attrs_def)

lemma set_at:
  assumes "good root" and "locate root ps = Some l" and f: "\<And>a. A_NAME (f a) = A_NAME a \<and> A_TYPE (f a) = A_TYPE a"
  shows "good (update_at l (set_attrs f) root) \<and> view_of (update_at l (set_attrs f) root) = set_view ps f (view_of root)"
proof
  let ?d = "node_at root l"
  have "good (set_attrs f ?d)" using lookup_good_at [OF assms(1,2)] f by (cases ?d) (simp add: set_attrs_def)
  then show "good (update_at l (set_attrs f) root)" using good_update_at [OF assms(1,2)] f by simp
  show "view_of (update_at l (set_attrs f) root) = set_view ps f (view_of root)"
  proof
    fix qs
    note v = view_update_at [OF assms(2), of "set_attrs f" qs]
    show "view_of (update_at l (set_attrs f) root) qs = set_view ps f (view_of root) qs"
    proof (cases "\<exists>r. qs = ps @ r")
      case True
      then obtain r where "qs = ps @ r" by blast
      then show ?thesis
        using v f view_append [of root ps r] by (cases r) (simp_all add: set_view_def lookup_locate assms(2))
    next
      case False
      then have "\<not> prefix ps qs" "qs \<noteq> ps" by (auto simp: prefix_def)
      with v f show ?thesis by (simp add: set_view_def)
    qed
  qed
qed

lemma sim_set:
  assumes "good (fs_root s)" and "\<forall>p \<in> set ps. plain p" and f: "\<And>a. A_NAME (f a) = A_NAME a \<and> A_TYPE (f a) = A_TYPE a"
  shows "ok_unit (on_file (Suc k) (join_path ps) f s) =
     (if view_of (fs_root s) ps = None then (s, Inl (OSError ENOENT))
      else (s\<lparr>fs_root := update_at (the (locate (fs_root s) ps)) (set_attrs f) (fs_root s)\<rparr>, Inr True)) \<and>
     (view_of (fs_root s) ps \<noteq> None \<longrightarrow>
        good (update_at (the (locate (fs_root s) ps)) (set_attrs f) (fs_root s)) \<and>
        view_of (update_at (the (locate (fs_root s) ps)) (set_attrs f) (fs_root s)) = set_view ps f (view_of (fs_root s)))"
proof (cases "locate (fs_root s) ps")
  case None
  then show ?thesis
    by (simp add: on_file_def getfile_good [OF assms(1,2)] ok_unit_def view_None)
next
  case (Some l)
  with set_at [OF assms(1) Some, of f] f show ?thesis
    by (simp add: on_file_def getfile_good [OF assms(1,2)] ok_unit_def view_None)
qed

lemmas sim_defs = simulates_def abs_state_def

lemma sim_attrs:
  assumes g: "good (fs_root s)" and "call_ok c" and "c \<in> {Chmod ps m, Chown ps u gr, Utime ps a t}"
  shows "simulates c s (do_call (Suc k) c s)"
proof -
  have ps: "\<forall>p \<in> set ps. plain p" using assms(2,3) by auto
  have "simulates (Chmod ps m) s (do_call (Suc k) (Chmod ps m) s)"
    using sim_set [OF g ps, of "\<lambda>a. a\<lparr>A_MODE := S_IFMT (A_MODE a) OR m\<rparr>" k] g
    by (simp add: sim_defs chmod_def)
  moreover have "simulates (Utime ps a t) s (do_call (Suc k) (Utime ps a t) s)"
    using sim_set [OF g ps, of "\<lambda>a. a\<lparr>A_CTIME := t\<rparr>" k] g
    by (simp add: sim_defs utime_def)
  moreover
  let ?f = "\<lambda>a. a\<lparr>A_UID := (if u = -1 then A_UID a else u), A_GID := (if gr = -1 then A_GID a else gr)\<rparr>"
  have f: "(\<lambda>a. let a = (if u \<noteq> -1 then a\<lparr>A_UID := u\<rparr> else a) in if gr \<noteq> -1 then a\<lparr>A_GID := gr\<rparr> else a) = ?f"
    by (rule ext) (simp add: Let_def)
  have "simulates (Chown ps u gr) s (do_call (Suc k) (Chown ps u gr) s)"
    using sim_set [OF g ps, of ?f k] g unfolding sim_defs do_call.simps chown_def f by simp
  ultimately show ?thesis using assms(3) by blast
qed

lemma dir_of:
  assumes "good root" and "\<forall>p \<in> set (ps @ [x]). plain p"
  shows "get_path k root (join_path ps) b = (case locate root ps of None \<Rightarrow> Inl FileNotFound | Some l \<Rightarrow> Inr l)"
  using assms by (intro get_path_good split_canonical) auto

lemma sim_mkfile:
  assumes g: "good (fs_root s)" and ok: "call_ok (Mkfile ps x uid gid siz mode t)"
  shows "simulates (Mkfile ps x uid gid siz mode t) s (do_call (Suc k) (Mkfile ps x uid gid siz mode t) s)"
proof -
  have plain: "\<forall>p \<in> set (ps @ [x]). plain p" using ok by simp
  note simps = mkfile_def dirname_snoc [OF plain] basename_snoc [OF plain] dir_of [OF g plain] sim_defs
  show ?thesis
  proof (cases "locate (fs_root s) ps")
    case None
    with g show ?thesis by (simp add: simps view_None)
  next
    case (Some l)
    let ?y = "new_node x T_FILE uid gid siz mode t"
    let ?g = "\<lambda>dir. (case find (\<lambda>x'. name_of x' = x) dir of Some z \<Rightarrow> remove1 z dir | None \<Rightarrow> dir) @ [?y]"
    have "good (update_at l (set_contents ?g) (fs_root s)) \<and>
      view_of (update_at l (set_contents ?g) (fs_root s)) = put_view (ps @ [x]) (A ?y) (view_of (fs_root s))"
      by (rule put_at [OF g Some refl]) simp_all
    with Some g show ?thesis by (simp add: simps view_None Let_def)
  qed
qed

lemma sim_mkdir2:
  assumes g: "good (fs_root s)" and ok: "call_ok (Mkdir2 ps x t)"
  shows "simulates (Mkdir2 ps x t) s (do_call (Suc k) (Mkdir2 ps x t) s)"
proof -
  have plain: "\<forall>p \<in> set (ps @ [x]). plain p" using ok by simp
  note gp = get_path_good [OF g dirname_stripped [OF plain]]
  have ne: "strip_slash (join_path (ps @ [x])) \<noteq> []"
    using join_on_hd [OF _ plain] unfolding strip_join_path [OF plain] by auto
  note simps = mkdir2_def mkdir_def getfile_good [OF g plain] basename_snoc [OF plain] gp ne sim_defs ok_unit_def view_None
  show ?thesis
  proof (cases "locate (fs_root s) (ps @ [x])")
    case (Some m)
    with g show ?thesis by (simp add: simps)
  next
    case None
    show ?thesis
    proof (cases "locate (fs_root s) ps")
      case None': None
      with None g show ?thesis by (simp add: simps)
    next
      case (Some l)
      with None have "find_index (\<lambda>c. name_of c = x) (A_CONTENTS (node_at (fs_root s) l)) = None"
        by (simp add: locate_snoc)
      then have "find (\<lambda>c. name_of c = x) (A_CONTENTS (node_at (fs_root s) l)) = None" by (simp add: find_index_find)
      then have p: "good (update_at l (set_contents (\<lambda>cs. cs @ [new_node x T_DIR 0 0 4096 16877 t])) (fs_root s)) \<and>
        view_of (update_at l (set_contents (\<lambda>cs. cs @ [new_node x T_DIR 0 0 4096 16877 t])) (fs_root s)) =
        put_view (ps @ [x]) (A (new_node x T_DIR 0 0 4096 16877 t)) (view_of (fs_root s))"
        by (intro put_at [OF g Some refl]) simp_all
      with None Some g show ?thesis by (simp add: simps)
    qed
  qed
qed

lemma sim_remove:
  assumes g: "good (fs_root s)" and ok: "call_ok (Remove ps x)"
  shows "simulates (Remove ps x) s (do_call (Suc k) (Remove ps x) s)"
proof -
  have plain: "\<forall>p \<in> set (ps @ [x]). plain p" using ok by simp
  note simps = remove_def remove_at_def getfile_good [OF g plain] dirname_snoc [OF plain] dir_of [OF g plain] sim_defs ok_unit_def view_None
  show ?thesis
  proof (cases "locate (fs_root s) (ps @ [x])")
    case None
    with g show ?thesis by (simp add: simps)
  next
    case (Some m)
    then obtain l i where l: "locate (fs_root s) ps = Some l" "m = l @ [i]"
      and i: "find_index (\<lambda>c. name_of c = x) (A_CONTENTS (node_at (fs_root s) l)) = Some i"
      by (auto simp: locate_snoc split: option.splits)
    let ?z = "A_CONTENTS (node_at (fs_root s) l) ! i"
    have z: "?z \<in> set (A_CONTENTS (node_at (fs_root s) l))" "name_of ?z = x" using find_index_Some [OF i] by auto
    have at: "node_at (fs_root s) m = ?z" by (simp add: l node_at_append)
    from drop_at [OF g l(1) z(1)] z Some l(1) g show ?thesis by (simp add: simps at)
  qed
qed

lemma view_children:
  assumes "locate root ps = Some l"
  shows "(\<exists>y. view_of root (ps @ [y]) \<noteq> None) \<longleftrightarrow> A_CONTENTS (node_at root l) \<noteq> []"
proof
  assume "A_CONTENTS (node_at root l) \<noteq> []"
  then obtain c cs where c: "A_CONTENTS (node_at root l) = c # cs" by (cases "A_CONTENTS (node_at root l)") auto
  then have "view_of root (ps @ [name_of c]) \<noteq> None" by (simp add: view_below [OF assms])
  then show "\<exists>y. view_of root (ps @ [y]) \<noteq> None" by blast
qed (auto simp: view_below [OF assms])

lemma sim_rmdir:
  assumes g: "good (fs_root s)" and ok: "call_ok (Rmdir ps x)"
  shows "simulates (Rmdir ps x) s (do_call (Suc k) (Rmdir ps x) s)"
proof -
  have plain: "\<forall>p \<in> set (ps @ [x]). plain p" using ok by simp
  have strip: "rstrip_char CHR ''/'' (join_path (ps @ [x])) = join_path (ps @ [x])"
    by (rule rstrip_join_path [OF _ plain]) simp
  have gp: "get_path (Suc k) (fs_root s) (join_path (ps @ [x])) True =
      (case locate (fs_root s) (ps @ [x]) of None \<Rightarrow> Inl FileNotFound | Some l \<Rightarrow> Inr l)"
    by (rule get_path_good [OF g split_canonical [OF plain]])
  note simps = rmdir_def strip getfile_good [OF g plain] dirname_snoc [OF plain] basename_snoc [OF plain] gp
    dir_of [OF g plain] sim_defs Let_def
  show ?thesis
  proof (cases "locate (fs_root s) (ps @ [x])")
    case None
    then have "view_of (fs_root s) (ps @ [x]) = None" by (simp add: view_None)
    with None g show ?thesis by (simp add: simps)
  next
    case (Some m)
    then obtain l i where l: "locate (fs_root s) ps = Some l" "m = l @ [i]"
      and i: "find_index (\<lambda>c. name_of c = x) (A_CONTENTS (node_at (fs_root s) l)) = Some i"
      by (auto simp: locate_snoc split: option.splits)
    let ?z = "A_CONTENTS (node_at (fs_root s) l) ! i"
    have z: "?z \<in> set (A_CONTENTS (node_at (fs_root s) l))" "name_of ?z = x" using find_index_Some [OF i] by auto
    have at: "node_at (fs_root s) m = ?z" by (simp add: l node_at_append)
    have f: "find (\<lambda>c. name_of c = x) (A_CONTENTS (node_at (fs_root s) l)) = Some ?z" by (simp add: find_index_find i)
    have v: "view_of (fs_root s) (ps @ [x]) = Some (A ?z)" using view_Some [OF Some] by (simp add: at)
    have e: "(\<exists>y. view_of (fs_root s) (ps @ [x, y]) \<noteq> None) \<longleftrightarrow> A_CONTENTS ?z \<noteq> []"
      using view_children [OF Some] by (simp add: at)
    show ?thesis
    proof (cases "type_of ?z = T_DIR \<and> A_CONTENTS ?z = []")
      case True
      with drop_at [OF g l(1) z(1)] z Some l(1) v e f show ?thesis by (simp add: simps at)
    next
      case False
      with Some v e g show ?thesis by (auto simp: simps at)
    qed
  qed
qed

lemma sim_update_size:
  assumes g: "good (fs_root s)" and ok: "call_ok (Update_size ps siz)"
  shows "simulates (Update_size ps siz) s (do_call (Suc k) (Update_size ps siz) s)"
proof -
  have plain: "\<forall>p \<in> set ps. plain p" using ok by simp
  show ?thesis
  proof (cases "locate (fs_root s) ps")
    case None
    then have "view_of (fs_root s) ps = None" by (simp add: view_None)
    with None g show ?thesis by (simp add: update_size_def getfile_good [OF g plain] ok_unit_def sim_defs)
  next
    case (Some l)
    have "good (update_at l (set_attrs (\<lambda>a. a\<lparr>A_SIZE := siz\<rparr>)) (fs_root s)) \<and>
      view_of (update_at l (set_attrs (\<lambda>a. a\<lparr>A_SIZE := siz\<rparr>)) (fs_root s)) = set_view ps (\<lambda>a. a\<lparr>A_SIZE := siz\<rparr>) (view_of (fs_root s))"
      by (rule set_at [OF g Some]) simp
    with Some g view_Some [OF Some] show ?thesis
      by (simp add: update_size_def getfile_good [OF g plain] ok_unit_def sim_defs)
  qed
qed

lemma sim_call:
  assumes "good (fs_root s)" and "call_ok c"
  shows "simulates c s (do_call (Suc k) c s)"
proof (cases c)
  case (Mkfile ps x uid gid siz mode t)
  with assms sim_mkfile show ?thesis by blast
next
  case (Mkdir2 ps x t)
  with assms sim_mkdir2 show ?thesis by blast
next
  case (Rmdir ps x)
  with assms sim_rmdir show ?thesis by blast
next
  case (Remove ps x)
  with assms sim_remove show ?thesis by blast
next
  case (Chmod ps m)
  with sim_attrs [OF assms, of ps m 0 0 0 0] show ?thesis by simp
next
  case (Chown ps u g)
  with sim_attrs [OF assms, of ps 0 u g 0 0] show ?thesis by simp
next
  case (Utime ps a t)
  with sim_attrs [OF assms, of ps 0 0 0 a t] show ?thesis by simp
next
  case (Update_size ps siz)
  with assms sim_update_size show ?thesis by blast
qed

text \<open>Runs: the state after the calls, and the result of each.\<close>

fun run_calls :: "nat \<Rightarrow> call list \<Rightarrow> fs_state \<Rightarrow> fs_state \<times> bool result list" where
  "run_calls k [] s = (s, [])"
| "run_calls k (c # cs) s = (let (s', r) = do_call k c s; (s'', rs) = run_calls k cs s' in (s'', r # rs))"

fun run_spec :: "call list \<Rightarrow> view \<times> nat \<Rightarrow> (view \<times> nat) \<times> bool result list" where
  "run_spec [] v = (v, [])"
| "run_spec (c # cs) v = (let (v', r) = spec_call c v; (v'', rs) = run_spec cs v' in (v'', r # rs))"

text \<open>C3. On a tree without links and without two entries of one name, any sequence of calls with canonical
  paths (making files and directories, removing them, changing mode, owner, time and size) does what the
  abstract file system, a map from paths to attributes, does: the same results and errors, and the same
  map afterwards. It stays such a tree.\<close>

theorem fs_refines_map:
  assumes "good (fs_root s)" and "\<forall>c \<in> set cs. call_ok c"
  shows "run_spec cs (abs_state s) = (abs_state (fst (run_calls (Suc k) cs s)), snd (run_calls (Suc k) cs s)) \<and>
    good (fs_root (fst (run_calls (Suc k) cs s)))"
  using assms
proof (induction cs arbitrary: s)
  case (Cons c cs)
  obtain s' r where r: "do_call (Suc k) c s = (s', r)" by (cases "do_call (Suc k) c s")
  from sim_call [OF Cons.prems(1), of c k] Cons.prems(2) r
  have "spec_call c (abs_state s) = (abs_state s', r)" "good (fs_root s')" by (simp_all add: simulates_def)
  moreover obtain s'' rs where "run_calls (Suc k) cs s' = (s'', rs)" by (cases "run_calls (Suc k) cs s'")
  ultimately show ?case using Cons.IH [of s'] Cons.prems(2) r by simp
qed simp

definition demo_fs :: fs_state where
  "demo_fs = \<lparr>fs_root = Node \<lparr>A_NAME = ''/'', A_TYPE = T_DIR, A_UID = 0, A_GID = 0, A_SIZE = 4096, A_MODE = 16877, A_CTIME = 0,
       A_TARGET = None, A_REALFILE = None\<rparr> [new_node ''tmp'' T_DIR 0 0 4096 16895 0],
     fs_newcount = 0, fs_home = ''/root'', fs_arch = ''linux-x64-lsb'', fs_tempfiles = [], fs_filenames = []\<rparr>"

definition demo_calls :: "call list" where
  "demo_calls = [Mkfile [''tmp''] ''x'' 0 0 5 33188 1, Mkdir2 [''tmp''] ''x'' 2, Rmdir [] ''tmp'', Remove [''tmp''] ''x'', Rmdir [] ''tmp'']"

theorem fs_refines_map_witness:
  "snd (run_calls 3 demo_calls demo_fs) =
     [Inr True, Inl (OSError EEXIST), Inl (OSError ENOTEMPTY), Inr True, Inr True] \<and>
   snd (run_spec demo_calls (abs_state demo_fs)) = snd (run_calls 3 demo_calls demo_fs)"
proof -
  have r: "snd (run_calls 3 demo_calls demo_fs) =
     [Inr True, Inl (OSError EEXIST), Inl (OSError ENOTEMPTY), Inr True, Inr True]" by code_simp
  have "good (fs_root demo_fs)" by (simp add: demo_fs_def new_node_def)
  moreover have "\<forall>c \<in> set demo_calls. call_ok c" by (simp add: demo_calls_def plain_def)
  ultimately have "run_spec demo_calls (abs_state demo_fs) =
     (abs_state (fst (run_calls (Suc 2) demo_calls demo_fs)), snd (run_calls (Suc 2) demo_calls demo_fs))"
    using fs_refines_map [of demo_fs demo_calls 2] by blast
  then have "snd (run_spec demo_calls (abs_state demo_fs)) = snd (run_calls (Suc 2) demo_calls demo_fs)" by simp
  then show ?thesis using r by (simp add: numeral_eq_Suc)
qed

end
