(* ===== verification/CowrieFsLimits.thy ===== *)
theory CowrieFsLimits
  imports CowrieFsFacts
begin

text \<open>
  On any tree, links included: what an attacker can store is bounded, looking up never yields a link and
  does not depend on the depth of the interpreter's stack once it returns; and what the code does with
  links, with a path that ends in a slash and with a directory moved into itself.
\<close>

section \<open>Lookups\<close>

text \<open>Positions that are in the tree.\<close>

fun valid :: "node \<Rightarrow> loc \<Rightarrow> bool" where
  "valid n [] = True"
| "valid n (i # l) = (i < length (A_CONTENTS n) \<and> valid (A_CONTENTS n ! i) l)"

lemma valid_append: "valid n (l @ m) \<longleftrightarrow> valid n l \<and> valid (node_at n l) m"
  by (induction l arbitrary: n) auto

text \<open>A property of positions that the root has, and every entry that is not a link, holds of whatever is found.\<close>

lemma try_entries_inv:
  assumes "\<And>j q. j < length xs \<Longrightarrow> step (i + j) (xs ! j) = Inr (Some q) \<Longrightarrow> P q"
    and "\<And>q. p = Some q \<Longrightarrow> P q"
  shows "try_entries step piece i xs p = Inr (Some q) \<Longrightarrow> P q"
  using assms
proof (induction xs arbitrary: i p)
  case (Cons x xs)
  have tail: "j < length xs \<Longrightarrow> step (Suc i + j) (xs ! j) = Inr (Some q) \<Longrightarrow> P q" for j q
    using Cons.prems(2) [of "Suc j"] by simp
  show ?case
  proof (cases "name_of x = piece")
    case True
    with Cons.prems(1) obtain r where r: "step i x = Inr (Some r)" "try_entries step piece (Suc i) xs (Some r) = Inr (Some q)"
      by (auto split: sum.splits option.splits)
    have "P r" using Cons.prems(2) [of 0] r(1) by simp
    then have "\<And>q. Some r = Some q \<Longrightarrow> P q" by simp
    with r(2) tail show ?thesis by (rule Cons.IH)
  next
    case False
    with Cons.prems(1) have "try_entries step piece (Suc i) xs p = Inr (Some q)" by simp
    then show ?thesis by (rule Cons.IH [OF _ tail Cons.prems(3)])
  qed
qed simp

lemma enter_cases:
  assumes "enter look (piece = fin \<and> \<not> fol) p (0 + j) (A_CONTENTS (node_at root p) ! j) = Inr (Some q)"
  obtains "q = p @ [j]" "type_of (node_at root (p @ [j])) \<noteq> T_LINK \<or> \<not> fol" | t where "look t = Inr (Some q)"
proof -
  have at: "node_at root (p @ [j]) = A_CONTENTS (node_at root p) ! j" by (simp add: node_at_append)
  let ?x = "A_CONTENTS (node_at root p) ! j"
  consider "piece = fin \<and> \<not> fol" | "\<not> (piece = fin \<and> \<not> fol)" "type_of ?x \<noteq> T_LINK"
    | "\<not> (piece = fin \<and> \<not> fol)" "type_of ?x = T_LINK" by blast
  then show thesis
  proof cases
    case 3
    with assms that(2) show thesis by (cases "A_TARGET (A ?x)"; cases "the (A_TARGET (A ?x))") (auto simp: enter_def)
  qed (use assms that(1) in \<open>auto simp: enter_def at\<close>)
qed

lemma walk_inv:
  assumes "walk look fol fin root ps p = Inr (Some q)" and "P p"
    and "\<And>p i. P p \<Longrightarrow> i < length (A_CONTENTS (node_at root p)) \<Longrightarrow>
      type_of (node_at root (p @ [i])) \<noteq> T_LINK \<or> \<not> fol \<Longrightarrow> P (p @ [i])"
    and "\<And>t q. look t = Inr (Some q) \<Longrightarrow> P q"
  shows "P q"
  using assms(1,2)
proof (induction ps arbitrary: p)
  case (Cons piece ps)
  let ?e = "enter look (piece = fin \<and> \<not> fol) p"
  obtain r where r: "try_entries ?e piece 0 (A_CONTENTS (node_at root p)) None = Inr (Some r)"
    and w: "walk look fol fin root ps r = Inr (Some q)"
  proof (cases "try_entries ?e piece 0 (A_CONTENTS (node_at root p)) None")
    case (Inr t)
    with Cons.prems(1) that show ?thesis by (cases t) simp_all
  qed (use Cons.prems(1) in simp)
  have "P r"
  proof (rule try_entries_inv [OF _ _ r])
    fix j q
    assume j: "j < length (A_CONTENTS (node_at root p))"
      and e: "enter look (piece = fin \<and> \<not> fol) p (0 + j) (A_CONTENTS (node_at root p) ! j) = Inr (Some q)"
    from e consider "q = p @ [j]" "type_of (node_at root (p @ [j])) \<noteq> T_LINK \<or> \<not> fol" | t where "look t = Inr (Some q)"
      by (rule enter_cases)
    then show "P q" using assms(3) [OF Cons.prems(2) j] assms(4) by cases auto
  qed simp
  from Cons.IH [OF w this] show ?case .
qed simp

lemma getfile_inv:
  assumes "getfile k root path fol = Inr (Some q)" and "P []"
    and "\<And>p i. P p \<Longrightarrow> i < length (A_CONTENTS (node_at root p)) \<Longrightarrow>
      type_of (node_at root (p @ [i])) \<noteq> T_LINK \<or> \<not> fol \<Longrightarrow> P (p @ [i])"
  shows "P q"
  using assms(1)
proof (induction k arbitrary: path q)
  case (Suc k)
  show ?case
  proof (cases "path = ''/''")
    case True
    with Suc.prems assms(2) show ?thesis by (simp add: getfile.simps)
  next
    case False
    with Suc.prems have "walk (\<lambda>t. getfile k root t fol) fol (last (split_on CHR ''/'' (strip_slash path))) root
        (split_on CHR ''/'' (strip_slash path)) [] = Inr (Some q)" by (simp add: getfile.simps Let_def)
    from walk_inv [where P = P, OF this assms(2) assms(3) Suc.IH] show ?thesis .
  qed
qed (simp add: getfile.simps)

lemma getfile_valid: "getfile k root path fol = Inr (Some q) \<Longrightarrow> valid root q"
  by (erule getfile_inv) (simp_all add: valid_append)

lemma enter_dirs_valid:
  assumes "enter_dirs look root ps p = Inr q" and "valid root p" and "\<And>t q. look t = Inr (Some q) \<Longrightarrow> valid root q"
  shows "valid root q"
  using assms(1,2)
proof (induction ps arbitrary: p)
  case (Cons x ps)
  show ?case
  proof (cases "x = []")
    case True
    with Cons show ?thesis by simp
  next
    case False
    with Cons.prems(1) obtain i where i: "find_index (\<lambda>c. name_of c = x) (A_CONTENTS (node_at root p)) = Some i"
      by (auto split: option.splits)
    have v: "valid root (p @ [i])" using find_index_lt [OF i] Cons.prems(2) by (simp add: valid_append)
    from Cons.prems(1) False i consider "enter_dirs look root ps (p @ [i]) = Inr q"
      | t r where "look t = Inr (Some r)" "enter_dirs look root ps r = Inr q"
      by (auto simp: Let_def split: if_splits option.splits sum.splits)
    then show ?thesis using Cons.IH v assms(3) by cases blast+
  qed
qed simp

lemma get_path_valid: "get_path k root path fol = Inr q \<Longrightarrow> valid root q"
  unfolding get_path_def by (erule enter_dirs_valid) (simp_all add: getfile_valid)

text \<open>\<open>islink\<close> follows the links of the path it is given, to the end, so it answers no for every path, a
  link's own included.\<close>

theorem islink_never:
  assumes "type_of root \<noteq> T_LINK"
  shows "\<not> islink k root path"
proof -
  have "type_of (node_at root q) \<noteq> T_LINK" if "getfile k root path True = Inr (Some q)" for q
    using that by (rule getfile_inv) (use assms in auto)
  then show ?thesis by (auto simp: islink_def has_type_def split: sum.splits option.splits)
qed

section \<open>What can be stored\<close>

fun nodes :: "node \<Rightarrow> nat" where
  "nodes (Node a cs) = Suc (\<Sum>c\<leftarrow>cs. nodes c)"

lemma nodes_alt: "nodes n = Suc (\<Sum>c\<leftarrow>A_CONTENTS n. nodes c)"
  by (cases n) simp

lemma sum_list_replace:
  fixes xs :: "nat list"
  shows "i < length xs \<Longrightarrow> sum_list (xs[i := y]) + xs ! i = sum_list xs + y"
  by (induction xs arbitrary: i) (auto split: nat.splits)

lemma nodes_update_at: "(\<And>m. nodes (f m) \<le> nodes m + d) \<Longrightarrow> nodes (update_at l f n) \<le> nodes n + d"
proof (induction l arbitrary: n)
  case (Cons i l)
  show ?case
  proof (cases "i < length (A_CONTENTS n)")
    case True
    then have "sum_list ((map nodes (A_CONTENTS n))[i := nodes (update_at l f (A_CONTENTS n ! i))]) + nodes (A_CONTENTS n ! i) =
        (\<Sum>c\<leftarrow>A_CONTENTS n. nodes c) + nodes (update_at l f (A_CONTENTS n ! i))"
      using sum_list_replace [of i "map nodes (A_CONTENTS n)"] by simp
    with Cons.IH [of "A_CONTENTS n ! i"] Cons.prems show ?thesis by (simp add: nodes_alt [of n] map_update)
  next
    case False
    then have "(A_CONTENTS n)[i := update_at l f (A_CONTENTS n ! i)] = A_CONTENTS n" by (intro list_update_beyond) simp
    then show ?thesis by (simp add: nodes_alt [of n])
  qed
qed simp

lemma nodes_remove1: "z \<in> set cs \<Longrightarrow> (\<Sum>c\<leftarrow>remove1 z cs. nodes c) + nodes z = (\<Sum>c\<leftarrow>cs. nodes c)"
  by (induction cs) auto

lemma nodes_remove1_le: "(\<Sum>c\<leftarrow>remove1 z cs. nodes c) \<le> (\<Sum>c\<leftarrow>cs. nodes c)"
  using nodes_remove1 [of z cs] by (cases "z \<in> set cs") (auto simp: remove1_idem)

text \<open>Taking a node out of a directory that is there takes all its nodes out.\<close>

lemma nodes_remove_at:
  "valid n l \<Longrightarrow> z \<in> set (A_CONTENTS (node_at n l)) \<Longrightarrow> nodes (update_at l (set_contents (remove1 z)) n) + nodes z = nodes n"
proof (induction l arbitrary: n)
  case Nil
  then show ?case using nodes_remove1 [of z "A_CONTENTS n"] by (simp add: nodes_alt [of n] set_contents_def)
next
  case (Cons i l)
  then have "sum_list ((map nodes (A_CONTENTS n))[i := nodes (update_at l (set_contents (remove1 z)) (A_CONTENTS n ! i))]) + nodes (A_CONTENTS n ! i) =
      (\<Sum>c\<leftarrow>A_CONTENTS n. nodes c) + nodes (update_at l (set_contents (remove1 z)) (A_CONTENTS n ! i))"
    using sum_list_replace [of i "map nodes (A_CONTENTS n)"] by simp
  moreover have "nodes (update_at l (set_contents (remove1 z)) (A_CONTENTS n ! i)) + nodes z = nodes (A_CONTENTS n ! i)"
    using Cons by simp
  ultimately show ?case by (simp add: nodes_alt [of n] map_update)
qed

text \<open>The relation every operation keeps between the state before and after it.\<close>

definition grows :: "fs_state \<Rightarrow> fs_state \<Rightarrow> bool" where
  "grows s s' \<longleftrightarrow> nodes (fs_root s') + fs_newcount s \<le> nodes (fs_root s) + fs_newcount s' \<and>
     fs_newcount s \<le> fs_newcount s' \<and> fs_newcount s' \<le> max 10001 (fs_newcount s)"

lemma grows_refl [simp]: "grows s s"
  by (simp add: grows_def)

lemma grows_trans: "grows a b \<Longrightarrow> grows b c \<Longrightarrow> grows a c"
  by (auto simp: grows_def)

lemma grows_root: "nodes r \<le> nodes (fs_root s) \<Longrightarrow> grows s (s\<lparr>fs_root := r\<rparr>)"
  by (simp add: grows_def)

lemma nodes_set_attrs: "nodes (update_at l (set_attrs f) n) \<le> nodes n"
proof -
  have "nodes (set_attrs f m) \<le> nodes m + 0" for m by (cases m) (simp add: set_attrs_def)
  from nodes_update_at [OF this] show ?thesis by simp
qed

lemma nodes_set_contents:
  assumes "\<And>cs. (\<Sum>c\<leftarrow>g cs. nodes c) \<le> (\<Sum>c\<leftarrow>cs. nodes c) + d"
  shows "nodes (update_at l (set_contents g) n) \<le> nodes n + d"
proof (rule nodes_update_at)
  fix m
  show "nodes (set_contents g m) \<le> nodes m + d" using assms [of "A_CONTENTS m"] by (cases m) (simp add: set_contents_def)
qed

lemma grows_mkfile: "grows s (fst (mkfile k path uid gid siz mode t s))"
proof -
  let ?g = "\<lambda>dir. (case find (\<lambda>x. name_of x = path_basename path) dir of Some x \<Rightarrow> remove1 x dir | None \<Rightarrow> dir) @
    [new_node (path_basename path) T_FILE uid gid siz mode t]"
  have "nodes (update_at p (set_contents ?g) r) \<le> nodes r + 1" for p r
    by (rule nodes_set_contents) (auto simp: new_node_def intro: nodes_remove1_le split: option.splits)
  then have "\<not> 10000 < fs_newcount s \<Longrightarrow>
      grows s (s\<lparr>fs_root := update_at p (set_contents ?g) (fs_root s), fs_newcount := fs_newcount s + 1\<rparr>)" for p
    by (simp add: grows_def)
  then show ?thesis by (simp add: mkfile_def Let_def split: sum.splits)
qed

lemma grows_mkdir: "grows s (fst (mkdir k path uid gid siz mode t s))"
proof -
  have "nodes (update_at p (set_contents (\<lambda>dir. dir @ [new_node x T_DIR uid gid siz mode t])) r) \<le> nodes r + 1" for p r x
    by (rule nodes_set_contents) (simp add: new_node_def)
  then have "\<not> 10000 < fs_newcount s \<Longrightarrow>
      grows s (s\<lparr>fs_root := update_at p (set_contents (\<lambda>dir. dir @ [new_node x T_DIR uid gid siz mode t])) (fs_root s),
        fs_newcount := fs_newcount s + 1\<rparr>)" for p x
    by (simp add: grows_def)
  then show ?thesis by (simp add: mkdir_def Let_def split: sum.splits)
qed

lemma grows_mkdir2: "grows s (fst (mkdir2 k path t s))"
  using grows_mkdir by (simp add: mkdir2_def split: sum.splits option.splits)

lemma nodes_update_remove1: "nodes (update_at l (set_contents (remove1 z)) n) \<le> nodes n"
  using nodes_set_contents [of "remove1 z" 0 l n] nodes_remove1_le by simp

lemma grows_rmdir: "grows s (fst (rmdir k path s))"
  using grows_root [OF nodes_update_remove1] by (simp add: rmdir_def Let_def split: sum.splits option.splits)

lemma grows_on_file: "grows s (fst (on_file k path f s))"
  using grows_root [OF nodes_set_attrs] by (simp add: on_file_def split: sum.splits option.splits)

lemma grows_remove: "grows s (fst (remove k path s))"
  using grows_root [OF nodes_update_remove1] by (simp add: remove_def remove_at_def split: sum.splits option.splits)

lemma grows_update_size: "grows s (fst (update_size k path siz s))"
  using grows_root [OF nodes_set_attrs] by (simp add: update_size_def split: sum.splits option.splits)

text \<open>What \<open>rename\<close> takes out is at most what it puts back.\<close>

lemma grows_rename: "grows s (fst (rename k oldpath newpath s))"
proof -
  let ?old = "bindE (getfile k (fs_root s) oldpath True) (\<lambda>old. case old of None \<Rightarrow> Inl (OSError ENOENT) | Some l \<Rightarrow>
           bindE (getfile k (fs_root s) newpath True) (\<lambda>new. case new of Some _ \<Rightarrow> Inl (OSError EEXIST) | None \<Rightarrow>
           bindE (get_path k (fs_root s) (path_dirname oldpath) True) (\<lambda>d.
           bindE (remove_at d (node_at (fs_root s) l) (fs_root s)) (\<lambda>root'. Inr (node_at (fs_root s) l, root')))))"
  show ?thesis
  proof (cases ?old)
    case (Inl e)
    then show ?thesis unfolding rename_def Let_def by simp
  next
    case (Inr r)
    obtain z root where r: "r = (z, root)" by (cases r)
    from Inr [unfolded r] obtain d where d: "get_path k (fs_root s) (path_dirname oldpath) True = Inr d"
      and rm: "remove_at d z (fs_root s) = Inr root"
      by (auto split: option.splits)
    from rm have root: "nodes root + nodes z = nodes (fs_root s)"
      using nodes_remove_at [OF get_path_valid [OF d]] by (auto simp: remove_at_def split: if_splits)
    let ?z = "set_attrs (\<lambda>a. a\<lparr>A_NAME := path_basename newpath\<rparr>) z"
    have z: "nodes ?z = nodes z" by (cases z) (simp add: set_attrs_def)
    have "nodes (update_at q (set_contents (\<lambda>cs. cs @ [?z])) root) \<le> nodes root + nodes z" for q
      by (rule nodes_set_contents) (simp add: z)
    with root have "nodes (update_at q (set_contents (\<lambda>cs. cs @ [?z])) root) \<le> nodes (fs_root s)" for q by simp
    with root show ?thesis unfolding rename_def Let_def Inr r
      by (auto intro: grows_root split: sum.splits)
  qed
qed

lemma grows_update_realfile: "nodes (update_realfile h p f root) \<le> nodes root"
  by (simp add: update_realfile_def Let_def nodes_set_attrs)

lemma grows_open: "grows s (fst (fs_open k h stamp os_open now path flags mode s))"
proof (cases "flags AND 1 = 1 \<or> flags AND 2 = 2")
  case True
  obtain s' r where m: "mkfile k path 0 0 0 (S_IFREG OR mode) now s = (s', r)" by fastforce
  have g: "grows s s'" using grows_mkfile [of s k path 0 0 0 "S_IFREG OR mode" now] by (simp add: m)
  have "grows s' (s'\<lparr>fs_root := update_realfile h p f (fs_root s'), fs_tempfiles := a, fs_filenames := b\<rparr>)" for p f a b
    using grows_update_realfile [of h p f "fs_root s'"] by (simp add: grows_def)
  with g have "grows s (s'\<lparr>fs_root := update_realfile h p f (fs_root s'), fs_tempfiles := a, fs_filenames := b\<rparr>)" for p f a b
    using grows_trans by blast
  with g True show ?thesis by (simp add: fs_open_def m Let_def split: sum.splits option.splits)
qed (simp add: fs_open_def)

lemma grows_close: "grows s (fst (fs_close k h ex sha fd s))"
proof -
  have "grows s (s\<lparr>fs_root := update_realfile h p f (fs_root s), fs_tempfiles := a, fs_filenames := b\<rparr>)" for p f a b
    using grows_update_realfile [of h p f "fs_root s"] by (simp add: grows_def)
  then show ?thesis by (simp add: fs_close_def Let_def split: sum.splits option.splits)
qed

datatype fs_op =
    OMkfile string int int int int int
  | OMkdir string int int int int int
  | OMkdir2 string int
  | ORmdir string
  | OUtime string int int
  | OChmod string int
  | OChown string int int
  | ORemove string
  | ORename string string
  | OUpdate_size string int
  | OOpen fs_host string "string \<Rightarrow> int \<Rightarrow> int result" int string int int
  | OClose fs_host "string \<Rightarrow> bool" string int

fun apply_fs :: "nat \<Rightarrow> fs_op \<Rightarrow> fs_state \<Rightarrow> fs_state" where
  "apply_fs k (OMkfile path uid gid siz mode t) s = fst (mkfile k path uid gid siz mode t s)"
| "apply_fs k (OMkdir path uid gid siz mode t) s = fst (mkdir k path uid gid siz mode t s)"
| "apply_fs k (OMkdir2 path t) s = fst (mkdir2 k path t s)"
| "apply_fs k (ORmdir path) s = fst (rmdir k path s)"
| "apply_fs k (OUtime path a t) s = fst (utime k path a t s)"
| "apply_fs k (OChmod path m) s = fst (chmod k path m s)"
| "apply_fs k (OChown path u g) s = fst (chown k path u g s)"
| "apply_fs k (ORemove path) s = fst (remove k path s)"
| "apply_fs k (ORename old new) s = fst (rename k old new s)"
| "apply_fs k (OUpdate_size path n) s = fst (update_size k path n s)"
| "apply_fs k (OOpen h stamp os_open now path flags mode) s = fst (fs_open k h stamp os_open now path flags mode s)"
| "apply_fs k (OClose h ex sha fd) s = fst (fs_close k h ex sha fd s)"

lemma grows_op: "grows s (apply_fs k c s)"
  by (cases c) (simp_all add: grows_mkfile grows_mkdir grows_mkdir2 grows_rmdir grows_on_file utime_def chmod_def chown_def
      grows_remove grows_rename grows_update_size grows_open grows_close)

text \<open>C16. Whatever sequence of the methods of the file system is called, on whatever paths, the tree never has more than
  10001 nodes more than it had, less the files already counted. This is a bound on what goes through these methods
  (\<open>mkfile\<close>, \<open>mkdir\<close>, \<open>open\<close>, \<open>rename\<close> and so on); commands that put nodes into the tree themselves, as \<open>cp\<close> does, are
  not counted.\<close>

theorem storage_bounded:
  "nodes (fs_root (fold (apply_fs k) ops s)) \<le> nodes (fs_root s) + (10001 - fs_newcount s)"
proof -
  have "grows s (fold (apply_fs k) ops s)"
  proof (induction ops arbitrary: s)
    case (Cons c ops)
    then show ?case using grows_op grows_trans by (metis fold_simps(2))
  qed simp
  then show ?thesis by (auto simp: grows_def)
qed

section \<open>The depth of the stack\<close>

text \<open>A result that is the same, or was the exhaustion of the stack.\<close>

definition settles :: "'a result \<Rightarrow> 'a result \<Rightarrow> bool" where
  "settles r r' \<longleftrightarrow> r = Inl RecursionError \<or> r' = r"

lemma settles_refl [simp]: "settles r r"
  by (simp add: settles_def)

lemma settles_enter: "(\<And>t. settles (look t) (look' t)) \<Longrightarrow> settles (enter look b p i x) (enter look' b p i x)"
  by (simp add: enter_def settles_def split: option.splits list.splits)

lemma settles_try:
  "(\<And>i x. settles (step i x) (step' i x)) \<Longrightarrow> settles (try_entries step piece i xs p) (try_entries step' piece i xs p)"
proof (induction xs arbitrary: i p)
  case (Cons x xs)
  have "settles (step i x) (step' i x)" by (rule Cons.prems)
  then consider "step i x = Inl RecursionError" | "step' i x = step i x" by (auto simp: settles_def)
  then show ?case
  proof cases
    case 1
    then show ?thesis using Cons.IH [OF Cons.prems] by (simp add: settles_def)
  next
    case 2
    then show ?thesis using Cons.IH [OF Cons.prems] by (simp split: sum.splits option.splits)
  qed
qed simp

lemma settles_walk:
  "(\<And>t. settles (look t) (look' t)) \<Longrightarrow> settles (walk look fol fin root ps p) (walk look' fol fin root ps p)"
proof (induction ps arbitrary: p)
  case (Cons piece ps)
  let ?t = "\<lambda>look. try_entries (enter look (piece = fin \<and> \<not> fol) p) piece 0 (A_CONTENTS (node_at root p)) None"
  have "settles (?t look) (?t look')" by (intro settles_try settles_enter Cons.prems)
  then consider "?t look = Inl RecursionError" | "?t look' = ?t look" by (auto simp: settles_def)
  then show ?case
  proof cases
    case 2
    then show ?thesis using Cons.IH [OF Cons.prems] by (simp split: sum.splits option.splits)
  qed (simp add: settles_def)
qed simp

lemma settles_getfile: "settles (getfile k root path fol) (getfile (k + d) root path fol)"
proof (induction k arbitrary: path)
  case (Suc k)
  then show ?case by (simp add: getfile.simps Let_def settles_walk)
qed (simp add: getfile.simps settles_def)

text \<open>How deep the interpreter's stack may get decides only whether a lookup runs out of it: a lookup that
  returns, or raises anything else, does the same with any deeper stack.\<close>

theorem getfile_stack:
  assumes "getfile k root path fol = r" and "r \<noteq> Inl RecursionError" and "k \<le> k'"
  shows "getfile k' root path fol = r"
  using settles_getfile [of k root path fol "k' - k"] assms by (auto simp: settles_def)

section \<open>Links, slashes and moves\<close>

definition demo_link :: "string \<Rightarrow> string \<Rightarrow> node" where
  "demo_link name target = Node \<lparr>A_NAME = name, A_TYPE = T_LINK, A_UID = 0, A_GID = 0, A_SIZE = 0, A_MODE = 41471, A_CTIME = 0,
     A_TARGET = Some target, A_REALFILE = None\<rparr> []"

definition demo_tree :: node where
  "demo_tree = Node (A (fs_root demo_fs))
     [Node (A (new_node ''bin'' T_DIR 0 0 4096 16877 0)) [new_node ''dash'' T_FILE 0 0 9 33261 0, demo_link ''sh'' ''dash''],
      demo_link ''loop'' ''/loop'', new_node ''tmp'' T_DIR 0 0 4096 16895 0]"

text \<open>A relative link is taken from the root and not from its directory, so the shell does not exist.\<close>

lemma relative_link_broken:
  "exists_path 9 demo_tree ''/bin/dash'' = Inr True \<and> exists_path 9 demo_tree ''/bin/sh'' = Inr False \<and>
   lexists 9 demo_tree ''/bin/sh'' = Inr True"
  by code_simp

theorem getfile_stack_witness:
  "getfile 1000 demo_tree ''/bin/sh'' True = Inr None \<and> getfile 1000 demo_tree ''/bin/dash'' True = Inr (Some [0, 0])"
proof
  have "getfile 2 demo_tree ''/bin/sh'' True = Inr None" by code_simp
  then show "getfile 1000 demo_tree ''/bin/sh'' True = Inr None" by (rule getfile_stack) simp_all
  have "getfile 1 demo_tree ''/bin/dash'' True = Inr (Some [0, 0])" by code_simp
  then show "getfile 1000 demo_tree ''/bin/dash'' True = Inr (Some [0, 0])" by (rule getfile_stack) simp_all
qed

theorem islink_never_witness: "\<not> islink 9 demo_tree ''/bin/sh''"
proof -
  have "type_of demo_tree \<noteq> T_LINK" by (simp add: demo_tree_def demo_fs_def)
  then show ?thesis by (rule islink_never)
qed

text \<open>A link to itself exhausts any stack: the limit on levels of links that the module declares is never
  checked.\<close>

lemma link_loop_exhausts: "getfile k demo_tree ''/loop'' True = Inl RecursionError"
proof (induction k)
  case (Suc k)
  have s: "split_on CHR ''/'' (strip_slash ''/loop'') = [''loop'']" by code_simp
  have c: "A_CONTENTS demo_tree = [Node (A (new_node ''bin'' T_DIR 0 0 4096 16877 0)) [new_node ''dash'' T_FILE 0 0 9 33261 0, demo_link ''sh'' ''dash''],
      demo_link ''loop'' ''/loop'', new_node ''tmp'' T_DIR 0 0 4096 16895 0]"
    unfolding demo_tree_def by (rule node.sel)
  show ?case using Suc by (simp add: getfile.simps s c enter_def demo_link_def new_node_def)
qed (simp add: getfile.simps)

text \<open>A directory moved into itself is lost: it is taken out before the place to put it is looked for.\<close>

lemma rename_into_itself_loses:
  "let (s, r) = rename 9 ''/tmp'' ''/tmp/t'' demo_fs in r = Inl FileNotFound \<and> A_CONTENTS (fs_root s) = []"
  by code_simp

text \<open>A path that ends in a slash makes an entry with no name, and a file can be made in a file.\<close>

lemma mkdir_trailing_slash:
  "listdir 9 (fs_root (fst (mkdir2 9 ''/tmp/x/'' 0 demo_fs))) ''/tmp'' = Inr [[]]"
  by code_simp

lemma file_in_file:
  "let s = fst (mkfile 9 ''/tmp/f'' 0 0 0 33188 0 demo_fs) in
   isfile 9 (fs_root s) ''/tmp/f'' \<and> snd (mkfile 9 ''/tmp/f/g'' 0 0 0 33188 0 s) = Inr True \<and>
   isfile 9 (fs_root (fst (mkfile 9 ''/tmp/f/g'' 0 0 0 33188 0 s))) ''/tmp/f/g''"
  by code_simp

text \<open>The test for a link is one bit that regular files have too: reading the link of a file is no error.\<close>

lemma readlink_of_file: "readlink 9 demo_tree ''/bin/dash'' = Inr None"
  by code_simp

end
