(* ===== verification/Kamstrup.thy ===== *)
theory Kamstrup
  imports Docs "HOL-Library.Word"
begin

text \<open>
  The Kamstrup meter of Conpot: \<open>Honeypots/conpot/conpot/protocols/kamstrup_meter/\<close>, that is
  \<open>request_parser.py\<close>, \<open>messages.py\<close>, \<open>command_responder.py\<close> and the connection loop of
  \<open>kamstrup_server.py\<close>. The checksum (the package crc16), the template and the values of the data bus
  are given.
\<close>

unbundle bit_operations_syntax

type_synonym octets = "8 word list"

definition REQUEST_MAGIC :: "8 word" where "REQUEST_MAGIC = 0x80"
definition RESPONSE_MAGIC :: "8 word" where "RESPONSE_MAGIC = 0x40"
definition EOT_MAGIC :: "8 word" where "EOT_MAGIC = 0x0D"
definition ESCAPE :: "8 word" where "ESCAPE = 0x1B"

definition NEED_ESCAPE :: "8 word list" where
  "NEED_ESCAPE = [0x06, EOT_MAGIC, ESCAPE, RESPONSE_MAGIC, REQUEST_MAGIC]"

section \<open>Requests\<close>

text \<open>The address, the bytes of the message, and what it asks for.\<close>

datatype krequest =
    GetRegisters (k_addr: "8 word") (k_bytes: octets) (k_regs: "int list")
  | UnknownRequest (k_addr: "8 word") (k_cmd: "8 word") (k_bytes: octets)

text \<open>The loop of \<open>_parse_register_bytes\<close> from register \<open>i\<close> on.\<close>

fun read_registers :: "octets \<Rightarrow> nat \<Rightarrow> nat \<Rightarrow> int list result" where
  "read_registers mb i 0 = Inr []"
| "read_registers mb i (Suc n) =
     (if 2 + i * 2 < length mb
      then bindE (read_registers mb (Suc i) n) (\<lambda>rs. Inr ((uint (mb ! (1 + i * 2)) * 256 + uint (mb ! (2 + i * 2))) # rs))
      else Inl IndexError)"

definition parse_register_bytes :: "octets \<Rightarrow> int list result" where
  "parse_register_bytes mb =
     (case mb of
        [] \<Rightarrow> Inl IndexError
      | count # rest \<Rightarrow>
          if length rest * 2 < unat count then Inl (RuntimeError ''Invalid register count in register request'')
          else read_registers mb 0 (unat count))"

definition make_request :: "8 word \<Rightarrow> 8 word \<Rightarrow> octets \<Rightarrow> krequest result" where
  "make_request comm_address command_byte mb =
     (if command_byte = 0x10 then bindE (parse_register_bytes mb) (\<lambda>rs. Inr (GetRegisters comm_address mb rs))
      else Inr (UnknownRequest comm_address command_byte mb))"

section \<open>The parser\<close>

record kparser =
  kp_bytes :: octets
  kp_parsing :: bool
  kp_escaped :: bool

definition kparser_init :: kparser where
  "kparser_init = \<lparr>kp_bytes = [], kp_parsing = False, kp_escaped = False\<rparr>"

definition add_bytes :: "octets \<Rightarrow> kparser \<Rightarrow> kparser" where
  "add_bytes bs s = s\<lparr>kp_bytes := kp_bytes s @ bs\<rparr>"

definition valid_crc :: "(octets \<Rightarrow> int) \<Rightarrow> octets \<Rightarrow> bool result" where
  "valid_crc crc message =
     (if length message < 2 then Inl IndexError
      else Inr (uint (message ! (length message - 2)) * 256 + uint (message ! (length message - 1)) =
                crc (take (length message - 2) message)))"

text \<open>\<open>bytes[3:-3]\<close>, of the whole buffer.\<close>

definition message_slice :: "octets \<Rightarrow> octets" where
  "message_slice bs = take (length bs - 3 - 3) (drop 3 bs)"

text \<open>What is done at the end byte, which is at \<open>position\<close>.\<close>

definition end_of_request :: "(octets \<Rightarrow> int) \<Rightarrow> nat \<Rightarrow> kparser \<Rightarrow> kparser \<times> krequest option result" where
  "end_of_request crc position s =
     (case valid_crc crc (take (position - 1) (drop 1 (kp_bytes s))) of
        Inl e \<Rightarrow> (s, Inl e)
      | Inr ok \<Rightarrow>
          let s = (if ok then s else s\<lparr>kp_parsing := False, kp_bytes := drop position (kp_bytes s)\<rparr>);
              bs = kp_bytes s in
          if length bs < 3 then (s, Inl IndexError)
          else case make_request (bs ! 1) (bs ! 2) (message_slice bs) of
            Inl e \<Rightarrow> (s, Inl e)
          | Inr r \<Rightarrow> (s\<lparr>kp_bytes := drop (position + 1) bs\<rparr>, Inr (Some r)))"

definition delete_nth :: "nat \<Rightarrow> 'a list \<Rightarrow> 'a list" where
  "delete_nth i xs = take i xs @ drop (Suc i) xs"

lemma length_delete_nth [simp]: "i < length xs \<Longrightarrow> length (delete_nth i xs) = length xs - 1"
  by (simp add: delete_nth_def)

text \<open>The loop of \<open>get_request\<close>; a byte is deleted or the position moves on, so it ends.\<close>

function scan :: "(octets \<Rightarrow> int) \<Rightarrow> nat \<Rightarrow> kparser \<Rightarrow> kparser \<times> krequest option result" where
  "scan crc position s =
     (if position < length (kp_bytes s) then
        let d = kp_bytes s ! position in
        if \<not> kp_parsing s \<and> d \<noteq> REQUEST_MAGIC
        then scan crc position (s\<lparr>kp_bytes := delete_nth position (kp_bytes s)\<rparr>)
        else if kp_escaped s
        then scan crc (position + 1)
               (s\<lparr>kp_parsing := True, kp_bytes := (kp_bytes s)[position := d XOR 0xFF], kp_escaped := False\<rparr>)
        else if d = ESCAPE
        then scan crc position (s\<lparr>kp_parsing := True, kp_escaped := True, kp_bytes := delete_nth position (kp_bytes s)\<rparr>)
        else if d = EOT_MAGIC then end_of_request crc position (s\<lparr>kp_parsing := True\<rparr>)
        else scan crc (position + 1) (s\<lparr>kp_parsing := True\<rparr>)
      else (s, Inr None))"
  by pat_completeness auto
termination
  by (relation "measure (\<lambda>(crc, position, s). length (kp_bytes s) - position)") auto

declare scan.simps [simp del]

text \<open>One turn of the loop, by what the byte is.\<close>

lemma scan_skip:
  "pos < length (kp_bytes s) \<Longrightarrow> \<not> kp_parsing s \<Longrightarrow> kp_bytes s ! pos \<noteq> REQUEST_MAGIC \<Longrightarrow>
   scan crc pos s = scan crc pos (s\<lparr>kp_bytes := delete_nth pos (kp_bytes s)\<rparr>)"
  by (subst scan.simps) (simp add: Let_def)

lemma scan_flip:
  "pos < length (kp_bytes s) \<Longrightarrow> kp_parsing s \<or> kp_bytes s ! pos = REQUEST_MAGIC \<Longrightarrow> kp_escaped s \<Longrightarrow>
   scan crc pos s = scan crc (pos + 1)
     (s\<lparr>kp_parsing := True, kp_bytes := (kp_bytes s)[pos := kp_bytes s ! pos XOR 0xFF], kp_escaped := False\<rparr>)"
  by (subst scan.simps) (auto simp: Let_def)

lemma scan_escape:
  "pos < length (kp_bytes s) \<Longrightarrow> kp_parsing s \<or> kp_bytes s ! pos = REQUEST_MAGIC \<Longrightarrow> \<not> kp_escaped s \<Longrightarrow> kp_bytes s ! pos = ESCAPE \<Longrightarrow>
   scan crc pos s = scan crc pos (s\<lparr>kp_parsing := True, kp_escaped := True, kp_bytes := delete_nth pos (kp_bytes s)\<rparr>)"
  by (subst scan.simps) (auto simp: Let_def)

lemma scan_end:
  "pos < length (kp_bytes s) \<Longrightarrow> kp_parsing s \<Longrightarrow> \<not> kp_escaped s \<Longrightarrow> kp_bytes s ! pos = EOT_MAGIC \<Longrightarrow>
   scan crc pos s = end_of_request crc pos (s\<lparr>kp_parsing := True\<rparr>)"
  by (subst scan.simps) (simp add: Let_def EOT_MAGIC_def ESCAPE_def)

lemma scan_next:
  "pos < length (kp_bytes s) \<Longrightarrow> kp_parsing s \<or> kp_bytes s ! pos = REQUEST_MAGIC \<Longrightarrow> \<not> kp_escaped s \<Longrightarrow>
   kp_bytes s ! pos \<notin> {ESCAPE, EOT_MAGIC} \<Longrightarrow> scan crc pos s = scan crc (pos + 1) (s\<lparr>kp_parsing := True\<rparr>)"
  by (subst scan.simps) (auto simp: Let_def)

lemma scan_done: "length (kp_bytes s) \<le> pos \<Longrightarrow> scan crc pos s = (s, Inr None)"
  by (subst scan.simps) simp

definition get_request :: "(octets \<Rightarrow> int) \<Rightarrow> kparser \<Rightarrow> kparser \<times> krequest option result" where
  "get_request crc s = scan crc 0 s"

section \<open>Responses\<close>

record kregister =
  kr_name :: int
  kr_units :: int
  kr_length :: nat
  kr_unknown :: int
  kr_databus_key :: string

text \<open>\<open>bytearray\<close> of integers, which raises ValueError out of range.\<close>

fun to_octets :: "int list \<Rightarrow> octets result" where
  "to_octets [] = Inr []"
| "to_octets (x # xs) =
     (if 0 \<le> x \<and> x < 256 then bindE (to_octets xs) (\<lambda>bs. Inr (word_of_int x # bs)) else Inl ValueError)"

definition escape_byte :: "8 word \<Rightarrow> octets" where
  "escape_byte c = (if c \<in> set NEED_ESCAPE then [ESCAPE, c XOR 0xFF] else [c])"

text \<open>Everything but the first and the last byte is escaped.\<close>

definition escape :: "octets \<Rightarrow> octets" where
  "escape message = hd message # concat (map escape_byte (butlast (tl message))) @ [last message]"

definition serialize :: "(octets \<Rightarrow> int) \<Rightarrow> int \<Rightarrow> int list \<Rightarrow> octets result" where
  "serialize crc communication_address message =
     bindE (to_octets (communication_address # message)) (\<lambda>body.
     bindE (to_octets [crc body div 2 ^ 8, crc body mod 256]) (\<lambda>sum.
       Inr (escape (RESPONSE_MAGIC # body @ sum @ [EOT_MAGIC]))))"

fun big_endian :: "nat \<Rightarrow> int \<Rightarrow> int list" where
  "big_endian 0 v = []"
| "big_endian (Suc n) v = big_endian n (v div 256) @ [v mod 256]"

definition pack_register :: "(string \<Rightarrow> int) \<Rightarrow> kregister \<Rightarrow> int list" where
  "pack_register databus r =
     [kr_name r div 256, kr_name r mod 256, kr_units r, int (kr_length r), kr_unknown r] @
     big_endian (kr_length r) (databus (kr_databus_key r))"

definition serialize_registers :: "(octets \<Rightarrow> int) \<Rightarrow> (string \<Rightarrow> int) \<Rightarrow> int \<Rightarrow> kregister list \<Rightarrow> octets result" where
  "serialize_registers crc databus communication_address registers =
     serialize crc communication_address (0x10 # concat (map (pack_register databus) registers))"

section \<open>The responder and a connection\<close>

record kconfig =
  kc_address :: int
  kc_registers :: "(int \<times> kregister) list"

definition respond :: "kconfig \<Rightarrow> krequest \<Rightarrow> kregister list option result" where
  "respond cfg request =
     (if uint (k_addr request) \<noteq> kc_address cfg then Inr None
      else case request of
        GetRegisters a mb regs \<Rightarrow> Inr (Some (List.map_filter (map_of (kc_registers cfg)) regs))
      | UnknownRequest a c mb \<Rightarrow> Inl (RuntimeError ''AssertionError''))"

text \<open>What a connection records: the loss it reports each time no request is complete, and the request
  with the response sent, if any.\<close>

datatype kevent = ConnectionLost | Traffic octets "octets option"

lemma end_of_request_shorter:
  "end_of_request crc position s = (s', Inr (Some r)) \<Longrightarrow> length (kp_bytes s') < length (kp_bytes s)"
  by (auto simp: end_of_request_def Let_def split: sum.splits if_splits)

lemma turn_cases:
  fixes pos and s :: kparser
  defines "d \<equiv> kp_bytes s ! pos"
  obtains "length (kp_bytes s) \<le> pos"
    | "pos < length (kp_bytes s)" "\<not> kp_parsing s" "d \<noteq> REQUEST_MAGIC"
    | "pos < length (kp_bytes s)" "kp_parsing s \<or> d = REQUEST_MAGIC" "kp_escaped s"
    | "pos < length (kp_bytes s)" "kp_parsing s \<or> d = REQUEST_MAGIC" "\<not> kp_escaped s" "d = ESCAPE"
    | "pos < length (kp_bytes s)" "kp_parsing s" "\<not> kp_escaped s" "d = EOT_MAGIC"
    | "pos < length (kp_bytes s)" "kp_parsing s \<or> d = REQUEST_MAGIC" "\<not> kp_escaped s" "d \<notin> {ESCAPE, EOT_MAGIC}"
proof (cases "length (kp_bytes s) \<le> pos")
  case False
  then have p: "pos < length (kp_bytes s)" by simp
  have ne: "EOT_MAGIC \<noteq> REQUEST_MAGIC" by (simp add: EOT_MAGIC_def REQUEST_MAGIC_def)
  show thesis
  proof (cases "kp_parsing s \<or> d = REQUEST_MAGIC")
    case True
    consider "kp_escaped s" | "\<not> kp_escaped s" "d = ESCAPE" | "\<not> kp_escaped s" "d = EOT_MAGIC"
      | "\<not> kp_escaped s" "d \<notin> {ESCAPE, EOT_MAGIC}" by blast
    then show thesis
    proof cases
      case 3
      with True ne have "kp_parsing s" by simp
      with p 3 that(5) show thesis by blast
    qed (use p True that(3,4,6) in blast)+
  qed (use p that(2) in blast)
qed (rule that(1))

lemma scan_shorter: "scan crc position s = (s', Inr (Some r)) \<Longrightarrow> length (kp_bytes s') < length (kp_bytes s)"
proof (induction "length (kp_bytes s) - position" arbitrary: position s rule: less_induct)
  case less
  show ?case
  proof (cases rule: turn_cases [where pos = position and s = s])
    case 1
    with less.prems show ?thesis by (simp add: scan_done)
  next
    case 2
    from less.hyps [OF _ less.prems [unfolded scan_skip [OF 2]]] 2(1) show ?thesis by fastforce
  next
    case 3
    from less.hyps [OF _ less.prems [unfolded scan_flip [OF 3]]] 3(1) show ?thesis by simp
  next
    case 4
    from less.hyps [OF _ less.prems [unfolded scan_escape [OF 4]]] 4(1) show ?thesis by fastforce
  next
    case 5
    from end_of_request_shorter [OF less.prems [unfolded scan_end [OF 5]]] show ?thesis by simp
  next
    case 6
    from less.hyps [OF _ less.prems [unfolded scan_next [OF 6]]] 6(1) show ?thesis by simp
  qed
qed

lemma get_request_shorter: "get_request crc s = (s', Inr (Some r)) \<Longrightarrow> length (kp_bytes s') < length (kp_bytes s)"
  unfolding get_request_def by (rule scan_shorter)

text \<open>The requests in the buffer, one after the other; every request takes bytes away, so this ends.\<close>

function serve :: "(octets \<Rightarrow> int) \<Rightarrow> (string \<Rightarrow> int) \<Rightarrow> kconfig \<Rightarrow> kparser \<Rightarrow> kparser \<times> kevent list \<times> unit result" where
  "serve crc databus cfg s =
     (case get_request crc s of
        (s', Inl e) \<Rightarrow> (s', [], Inl e)
      | (s', Inr None) \<Rightarrow> (s', [ConnectionLost], Inr ())
      | (s', Inr (Some request)) \<Rightarrow>
          (case respond cfg request of
             Inl e \<Rightarrow> (s', [], Inl e)
           | Inr None \<Rightarrow> (s', [Traffic (k_bytes request) None], Inr ())
           | Inr (Some registers) \<Rightarrow>
               (case serialize_registers crc databus (kc_address cfg) registers of
                  Inl e \<Rightarrow> (s', [], Inl e)
                | Inr response \<Rightarrow>
                    (case serve crc databus cfg s' of
                       (s'', events, r) \<Rightarrow> (s'', Traffic (k_bytes request) (Some response) # events, r)))))"
  by pat_completeness auto
termination
  by (relation "measure (\<lambda>(crc, databus, cfg, s). length (kp_bytes s))") (auto dest: get_request_shorter [OF sym])

declare serve.simps [simp del]

text \<open>A connection over the chunks it receives; an empty one is the end.\<close>

fun handle :: "(octets \<Rightarrow> int) \<Rightarrow> (string \<Rightarrow> int) \<Rightarrow> kconfig \<Rightarrow> octets list \<Rightarrow> kparser \<Rightarrow> kevent list \<times> unit result" where
  "handle crc databus cfg [] s = ([], Inr ())"
| "handle crc databus cfg (raw # chunks) s =
     (if raw = [] then ([ConnectionLost], Inr ())
      else case serve crc databus cfg (add_bytes raw s) of
        (s', events, Inl e) \<Rightarrow> (events, Inl e)
      | (s', events, Inr _) \<Rightarrow> (case handle crc databus cfg chunks s' of (later, r) \<Rightarrow> (events @ later, r)))"

end
