(* ===== verification/KamstrupFacts.thy ===== *)
theory KamstrupFacts
  imports Kamstrup Octets
begin

text \<open>
  What the meter understands of what a client sends, what a client understands of what the meter
  answers, and where the parser goes wrong: at a wrong checksum, and at a request that needs escaping
  and arrives in two segments.
\<close>

section \<open>Reading a frame\<close>

lemmas kdefs = EOT_MAGIC_def ESCAPE_def REQUEST_MAGIC_def RESPONSE_MAGIC_def NEED_ESCAPE_def

lemma need_escape_simps [simp]:
  "ESCAPE \<in> set NEED_ESCAPE" "EOT_MAGIC \<in> set NEED_ESCAPE" "REQUEST_MAGIC \<in> set NEED_ESCAPE" "RESPONSE_MAGIC \<in> set NEED_ESCAPE"
  "REQUEST_MAGIC \<noteq> ESCAPE" "REQUEST_MAGIC \<noteq> EOT_MAGIC"
  by (simp_all add: kdefs)

abbreviation parser_at :: "octets \<Rightarrow> kparser" where
  "parser_at bs \<equiv> \<lparr>kp_bytes = bs, kp_parsing = True, kp_escaped = False\<rparr>"

lemma delete_nth_append [simp]: "delete_nth (length pre) (pre @ c # r) = pre @ r"
  by (simp add: delete_nth_def)

lemma scan_one: "scan crc (length pre) (parser_at (pre @ escape_byte w @ r)) = scan crc (length (pre @ [w])) (parser_at ((pre @ [w]) @ r))"
proof (cases "w \<in> set NEED_ESCAPE")
  case True
  then have "scan crc (length pre) (parser_at (pre @ escape_byte w @ r)) =
      scan crc (length pre) (parser_at (pre @ (w XOR 0xFF) # r)\<lparr>kp_escaped := True\<rparr>)"
    by (subst scan_escape) (simp_all add: escape_byte_def)
  also have "\<dots> = scan crc (length pre + 1) (parser_at (pre @ w # r))"
    by (subst scan_flip) (simp_all add: list_update_append)
  finally show ?thesis by simp
next
  case False
  then have "w \<notin> {ESCAPE, EOT_MAGIC}" by auto
  then show ?thesis using False by (subst scan_next) (simp_all add: escape_byte_def)
qed

lemma scan_escaped:
  "scan crc (length pre) (parser_at (pre @ concat (map escape_byte ws) @ r)) = scan crc (length (pre @ ws)) (parser_at ((pre @ ws) @ r))"
proof (induction ws arbitrary: pre)
  case (Cons w ws)
  show ?case using scan_one [of crc pre w "concat (map escape_byte ws) @ r"] Cons.IH [of "pre @ [w]"] by simp
qed simp

text \<open>From an empty buffer the whole of a frame is read up to its end byte.\<close>

lemma get_request_frame:
  assumes "kp_bytes s = []" and "\<not> kp_escaped s"
  shows "get_request crc (add_bytes (REQUEST_MAGIC # concat (map escape_byte ws) @ [EOT_MAGIC]) s) =
    end_of_request crc (Suc (length ws)) (parser_at (REQUEST_MAGIC # ws @ [EOT_MAGIC]))"
proof -
  let ?f = "REQUEST_MAGIC # concat (map escape_byte ws) @ [EOT_MAGIC]"
  have s: "add_bytes ?f s = s\<lparr>kp_bytes := ?f\<rparr>" using assms(1) by (simp add: add_bytes_def)
  have "get_request crc (s\<lparr>kp_bytes := ?f\<rparr>) = scan crc (length [REQUEST_MAGIC]) (parser_at ([REQUEST_MAGIC] @ concat (map escape_byte ws) @ [EOT_MAGIC]))"
    unfolding get_request_def using assms(2) by (subst scan_next) (simp_all, cases s, simp)
  also have "\<dots> = scan crc (length ([REQUEST_MAGIC] @ ws)) (parser_at (([REQUEST_MAGIC] @ ws) @ [EOT_MAGIC]))"
    by (rule scan_escaped)
  also have "\<dots> = end_of_request crc (Suc (length ws)) (parser_at (REQUEST_MAGIC # ws @ [EOT_MAGIC]))"
    by (subst scan_end) (simp_all add: nth_append)
  finally show ?thesis unfolding s .
qed

text \<open>The two bytes of a checksum, and the frame of a request.\<close>

definition checksum :: "(octets \<Rightarrow> int) \<Rightarrow> octets \<Rightarrow> octets" where
  "checksum crc body = [word_of_int (crc body div 2 ^ 8), word_of_int (crc body)]"

definition request_frame :: "(octets \<Rightarrow> int) \<Rightarrow> octets \<Rightarrow> octets" where
  "request_frame crc body = escape (REQUEST_MAGIC # body @ checksum crc body @ [EOT_MAGIC])"

lemma request_frame_eq:
  "request_frame crc body = REQUEST_MAGIC # concat (map escape_byte (body @ checksum crc body)) @ [EOT_MAGIC]"
  by (simp add: request_frame_def escape_def butlast_append)

lemma valid_crc_frame:
  "valid_crc crc (body @ [x, y]) = Inr (uint x * 256 + uint y = crc body)"
  by (simp add: valid_crc_def nth_append)

lemma checksum_ok: "0 \<le> crc body \<Longrightarrow> crc body < 2 ^ 16 \<Longrightarrow> valid_crc crc (body @ checksum crc body) = Inr True"
  using two_bytes [of "crc body"] by (simp add: checksum_def valid_crc_frame)

lemma end_of_frame:
  assumes "valid_crc crc (a # cmd # mb @ [x, y]) = Inr True"
  shows "end_of_request crc (length mb + 5) (parser_at (REQUEST_MAGIC # a # cmd # mb @ [x, y, EOT_MAGIC])) =
    (case make_request a cmd mb of
       Inl e \<Rightarrow> (parser_at (REQUEST_MAGIC # a # cmd # mb @ [x, y, EOT_MAGIC]), Inl e)
     | Inr r \<Rightarrow> (parser_at [], Inr (Some r)))"
proof -
  let ?b = "REQUEST_MAGIC # a # cmd # mb @ [x, y, EOT_MAGIC]"
  have m: "message_slice ?b = mb" by (simp add: message_slice_def)
  have t: "take (length mb + 5 - 1) (drop 1 ?b) = a # cmd # mb @ [x, y]" by (simp add: numeral_eq_Suc)
  show ?thesis using assms m t by (simp add: end_of_request_def Let_def split: sum.splits)
qed

lemma request_read:
  assumes "kp_bytes s = []" and "\<not> kp_escaped s" and "\<And>bs. 0 \<le> crc bs \<and> crc bs < 2 ^ 16"
  shows "get_request crc (add_bytes (request_frame crc (a # cmd # mb)) s) =
    (case make_request a cmd mb of
       Inl e \<Rightarrow> (parser_at (REQUEST_MAGIC # a # cmd # mb @ checksum crc (a # cmd # mb) @ [EOT_MAGIC]), Inl e)
     | Inr r \<Rightarrow> (parser_at [], Inr (Some r)))"
proof -
  let ?body = "a # cmd # mb"
  obtain x y where c: "checksum crc ?body = [x, y]" by (simp add: checksum_def)
  have "valid_crc crc (?body @ [x, y]) = Inr True" using checksum_ok [of crc ?body] assms(3) unfolding c by blast
  from end_of_frame [of crc a cmd mb x y] this show ?thesis
    unfolding request_frame_eq get_request_frame [OF assms(1,2)] c by (simp add: numeral_eq_Suc cong: sum.case_cong)
qed

section \<open>Register numbers\<close>

definition number :: "int \<Rightarrow> octets" where
  "number r = [word_of_int (r div 2 ^ 8), word_of_int r]"

lemma read_registers_numbers:
  assumes "drop (1 + i * 2) mb = concat (map number rs)" and "\<forall>r \<in> set rs. 0 \<le> r \<and> r < 2 ^ 16"
  shows "read_registers mb i (length rs) = Inr rs"
  using assms
proof (induction rs arbitrary: i)
  case (Cons r rs)
  have d: "drop (1 + i * 2) mb = word_of_int (r div 2 ^ 8) # word_of_int r # concat (map number rs)"
    using Cons.prems(1) number_def [of r] by simp
  have len: "2 + i * 2 < length mb" using arg_cong [OF d, of length] by simp
  have "mb ! (1 + i * 2) = drop (1 + i * 2) mb ! 0" "mb ! (2 + i * 2) = drop (1 + i * 2) mb ! 1" using len by simp_all
  then have n: "mb ! (1 + i * 2) = word_of_int (r div 2 ^ 8)" "mb ! (2 + i * 2) = word_of_int r" unfolding d by simp_all
  have "drop (1 + Suc i * 2) mb = drop 2 (drop (1 + i * 2) mb)" by (simp add: add.commute)
  then have "drop (1 + Suc i * 2) mb = concat (map number rs)" unfolding d by simp
  with Cons have "read_registers mb (Suc i) (length rs) = Inr rs" by simp
  moreover have "r div 2 ^ 8 mod 256 * 2 ^ 8 + r mod 256 = r" using Cons.prems(2) by (intro two_bytes) simp_all
  ultimately show ?case using len by (simp add: n [simplified])
qed simp

lemma length_numbers: "length (concat (map number rs)) = 2 * length rs"
  by (induction rs) (simp_all add: number_def)

lemma parse_numbers:
  assumes "length rs < 256" and "\<forall>r \<in> set rs. 0 \<le> r \<and> r < 2 ^ 16"
  shows "parse_register_bytes (of_nat (length rs) # concat (map number rs)) = Inr rs"
proof -
  have "unat (of_nat (length rs) :: 8 word) = length rs" using assms(1) by (simp add: unat_of_nat)
  moreover have "read_registers (of_nat (length rs) # concat (map number rs)) 0 (length rs) = Inr rs"
    using assms(2) by (intro read_registers_numbers) simp_all
  ultimately show ?thesis by (simp add: parse_register_bytes_def length_numbers)
qed

section \<open>What a client asks\<close>

definition ask :: "(octets \<Rightarrow> int) \<Rightarrow> 8 word \<Rightarrow> int list \<Rightarrow> octets" where
  "ask crc a rs = request_frame crc (a # 0x10 # of_nat (length rs) # concat (map number rs))"

lemma ask_read:
  assumes "length rs < 256" and "\<forall>r \<in> set rs. 0 \<le> r \<and> r < 2 ^ 16" and "\<And>bs. 0 \<le> crc bs \<and> crc bs < 2 ^ 16"
    and "kp_bytes s = []" and "\<not> kp_escaped s"
  shows "get_request crc (add_bytes (ask crc a rs) s) =
    (parser_at [], Inr (Some (GetRegisters a (of_nat (length rs) # concat (map number rs)) rs)))"
  unfolding ask_def request_read [OF assms(4,5,3)] make_request_def by (simp add: parse_numbers [OF assms(1,2)])

text \<open>C26. A request for any registers, encoded as the protocol says (checksum, the five special bytes escaped),
  and received in one piece by a parser with an empty buffer, is read back exactly, whatever bytes it
  contains; and the buffer is empty again, so the next request is read the same way.\<close>

theorem request_roundtrip:
  assumes "length rs < 256" and "\<forall>r \<in> set rs. 0 \<le> r \<and> r < 2 ^ 16" and "\<forall>bs. 0 \<le> crc bs \<and> crc bs < 2 ^ 16"
    and "kp_bytes s = []" and "\<not> kp_escaped s"
  shows "\<exists>s' mb. get_request crc (add_bytes (ask crc a rs) s) = (s', Inr (Some (GetRegisters a mb rs))) \<and>
    kp_bytes s' = [] \<and> \<not> kp_escaped s'"
  using ask_read [OF assms(1,2) _ assms(4,5)] assms(3) by simp

definition demo_crc :: "octets \<Rightarrow> int" where
  "demo_crc bs = (\<Sum>b\<leftarrow>bs. uint b) mod 2 ^ 16"

lemma demo_crc_range: "0 \<le> demo_crc bs \<and> demo_crc bs < 2 ^ 16"
  by (simp add: demo_crc_def)

theorem request_roundtrip_witness:
  "ask demo_crc 0x3f [13, 1040] = [0x80, 0x3f, 0x10, 0x02, 0x00, 0x1b, 0xf2, 0x04, 0x10, 0x00, 0x72, 0x0d] \<and>
   (\<exists>s' mb. get_request demo_crc (add_bytes (ask demo_crc 0x3f [13, 1040]) kparser_init) =
      (s', Inr (Some (GetRegisters 0x3f mb [13, 1040]))))"
proof
  show "ask demo_crc 0x3f [13, 1040] = [0x80, 0x3f, 0x10, 0x02, 0x00, 0x1b, 0xf2, 0x04, 0x10, 0x00, 0x72, 0x0d]"
    by (simp add: ask_def request_frame_eq checksum_def number_def demo_crc_def escape_byte_def kdefs)
  have "length [13, 1040 :: int] < 256" "\<forall>r \<in> set [13, 1040 :: int]. 0 \<le> r \<and> r < 2 ^ 16" by simp_all
  moreover have "kp_bytes kparser_init = []" "\<not> kp_escaped kparser_init" by (simp_all add: kparser_init_def)
  ultimately show "\<exists>s' mb. get_request demo_crc (add_bytes (ask demo_crc 0x3f [13, 1040]) kparser_init) =
      (s', Inr (Some (GetRegisters 0x3f mb [13, 1040])))"
    using request_roundtrip [of "[13, 1040]" demo_crc kparser_init] demo_crc_range by blast
qed

text \<open>A request whose checksum is wrong is not just dropped: the parser takes the address and the command
  from what follows the request, and when nothing follows it raises and the connection ends. The end
  byte stays in the buffer.\<close>

theorem bad_checksum_raises:
  assumes "uint x * 256 + uint y \<noteq> crc body" and "kp_bytes s = []" and "\<not> kp_escaped s"
  shows "handle crc databus cfg [escape (REQUEST_MAGIC # body @ [x, y, EOT_MAGIC])] s = ([], Inl IndexError) \<and>
    kp_bytes (fst (get_request crc (add_bytes (escape (REQUEST_MAGIC # body @ [x, y, EOT_MAGIC])) s))) = [EOT_MAGIC]"
proof -
  have e: "escape (REQUEST_MAGIC # body @ [x, y, EOT_MAGIC]) =
      REQUEST_MAGIC # concat (map escape_byte (body @ [x, y])) @ [EOT_MAGIC]"
    by (simp add: escape_def butlast_append)
  have t: "take (Suc (length (body @ [x, y])) - 1) (drop 1 (REQUEST_MAGIC # (body @ [x, y]) @ [EOT_MAGIC])) = body @ [x, y]" by simp
  have g: "get_request crc (add_bytes (escape (REQUEST_MAGIC # body @ [x, y, EOT_MAGIC])) s) =
      (\<lparr>kp_bytes = [EOT_MAGIC], kp_parsing = False, kp_escaped = False\<rparr>, Inl IndexError)"
    unfolding e get_request_frame [OF assms(2,3)] end_of_request_def kparser.simps t valid_crc_frame
    using assms(1) by (simp add: Let_def)
  have "escape (REQUEST_MAGIC # body @ [x, y, EOT_MAGIC]) \<noteq> []" by (simp add: escape_def)
  with g show ?thesis by (simp add: serve.simps [of crc databus cfg])
qed

theorem bad_checksum_raises_witness:
  "handle demo_crc (\<lambda>_. 0) \<lparr>kc_address = 0x3f, kc_registers = []\<rparr>
     [escape (REQUEST_MAGIC # [0x3f, 0x10, 0x01, 0x00, 0x01] @ [0xff, 0xff, EOT_MAGIC])] kparser_init = ([], Inl IndexError)"
proof -
  have "uint (0xff :: 8 word) * 256 + uint (0xff :: 8 word) \<noteq> demo_crc [0x3f, 0x10, 0x01, 0x00, 0x01]"
    by (simp add: demo_crc_def)
  then show ?thesis
    using bad_checksum_raises [of "0xff" "0xff" demo_crc "[0x3f, 0x10, 0x01, 0x00, 0x01]" kparser_init] by (simp add: kparser_init_def)
qed

section \<open>What the meter answers\<close>

text \<open>A client's reading of a response: unescape, check the sum, split into registers.\<close>

fun unescape :: "octets \<Rightarrow> octets" where
  "unescape [] = []"
| "unescape [c] = [c]"
| "unescape (c # d # r) = (if c = ESCAPE then (d XOR 0xFF) # unescape r else c # unescape (d # r))"

definition value_of :: "octets \<Rightarrow> int" where
  "value_of bs = foldl (\<lambda>v b. v * 256 + uint b) 0 bs"

function read_values :: "octets \<Rightarrow> (int \<times> int \<times> int \<times> int) list option" where
  "read_values bs =
     (case bs of
        [] \<Rightarrow> Some []
      | n1 # n2 # u # l # k # rest \<Rightarrow>
          if length rest < unat l then None
          else map_option (Cons (uint n1 * 256 + uint n2, uint u, uint k, value_of (take (unat l) rest))) (read_values (drop (unat l) rest))
      | _ \<Rightarrow> None)"
  by pat_completeness auto
termination
  by (relation "measure length") auto

declare read_values.simps [simp del]

definition read_response :: "(octets \<Rightarrow> int) \<Rightarrow> octets \<Rightarrow> (int \<times> (int \<times> int \<times> int \<times> int) list) option" where
  "read_response crc bs =
     (let u = unescape (butlast (tl bs)); body = take (length u - 2) u in
      if hd bs = RESPONSE_MAGIC \<and> last bs = EOT_MAGIC \<and> valid_crc crc u = Inr True \<and> 2 \<le> length body \<and> body ! 1 = 0x10
      then map_option (Pair (uint (body ! 0))) (read_values (drop 2 body)) else None)"

lemma unescape_escaped: "unescape (escape_byte c @ r) = c # unescape r"
  by (cases r) (auto simp: escape_byte_def kdefs)

lemma unescape_all: "unescape (concat (map escape_byte ws)) = ws"
  by (induction ws) (simp_all add: unescape_escaped)

lemma to_octets_Inr: "to_octets xs = Inr bs \<Longrightarrow> bs = map word_of_int xs \<and> (\<forall>x \<in> set xs. 0 \<le> x \<and> x < 256)"
  by (induction xs arbitrary: bs) (auto split: if_splits)

lemma value_snoc: "value_of (bs @ [b]) = value_of bs * 256 + uint b"
  by (simp add: value_of_def)

lemma big_endian_value: "value_of (map word_of_int (big_endian n v)) = v mod 256 ^ n"
proof (induction n arbitrary: v)
  case (Suc n)
  have "v mod (256 * 256 ^ n) = 256 * (v div 256 mod 256 ^ n) + v mod 256" by (rule zmod_zmult2_eq) simp
  with Suc show ?case by (simp add: value_snoc)
qed (simp add: value_of_def)

lemma length_big_endian [simp]: "length (big_endian n v) = n"
  by (induction n arbitrary: v) simp_all

definition reading :: "(string \<Rightarrow> int) \<Rightarrow> kregister \<Rightarrow> int \<times> int \<times> int \<times> int" where
  "reading databus r = (kr_name r, kr_units r, kr_unknown r, databus (kr_databus_key r) mod 256 ^ kr_length r)"

lemma packed_range:
  assumes "\<forall>x \<in> set (pack_register databus r). 0 \<le> x \<and> x < 256"
  shows "0 \<le> kr_name r div 256 \<and> kr_name r div 256 < 256 \<and> 0 \<le> kr_units r \<and> kr_units r < 256 \<and> kr_length r < 256 \<and>
    0 \<le> kr_unknown r \<and> kr_unknown r < 256"
  using assms unfolding pack_register_def by simp

lemma read_values_step:
  assumes "unat l = length v"
  shows "read_values (n1 # n2 # u # l # k # v @ t) =
    map_option (Cons (uint n1 * 256 + uint n2, uint u, uint k, value_of v)) (read_values t)"
  by (subst read_values.simps) (simp add: assms)

lemma uint_of_byte: "0 \<le> x \<Longrightarrow> x < 256 \<Longrightarrow> uint (word_of_int x :: 8 word) = x"
  by simp

lemma read_values_packed:
  assumes "\<forall>x \<in> set (concat (map (pack_register databus) rs)). 0 \<le> x \<and> x < 256"
  shows "read_values (map word_of_int (concat (map (pack_register databus) rs))) = Some (map (reading databus) rs)"
  using assms
proof (induction rs)
  case Nil
  show ?case by (subst read_values.simps) simp
next
  case (Cons r rs)
  have "\<forall>x \<in> set (pack_register databus r). 0 \<le> x \<and> x < 256" using Cons.prems by simp
  note r = packed_range [OF this]
  let ?w = "word_of_int :: int \<Rightarrow> 8 word"
  let ?v = "map ?w (big_endian (kr_length r) (databus (kr_databus_key r)))"
  let ?t = "map ?w (concat (map (pack_register databus) rs))"
  have "unat (?w (int (kr_length r))) = length ?v" using r by (simp add: unat_of_nat)
  note step = read_values_step [OF this]
  have IH: "read_values ?t = Some (map (reading databus) rs)"
    using Cons.prems by (intro Cons.IH) simp
  have p: "map ?w (concat (map (pack_register databus) (r # rs))) =
      ?w (kr_name r div 256) # ?w (kr_name r mod 256) # ?w (kr_units r) # ?w (int (kr_length r)) # ?w (kr_unknown r) # ?v @ ?t"
    unfolding pack_register_def by simp
  have n: "uint (?w (kr_name r div 256)) * 256 + uint (?w (kr_name r mod 256)) = kr_name r"
    using r by (simp add: uint_of_byte)
  have "uint (?w (kr_units r)) = kr_units r" "uint (?w (kr_unknown r)) = kr_unknown r" using r by (simp_all only: uint_of_byte)
  then show ?case unfolding p step IH n big_endian_value by (simp only: reading_def [of databus r] option.map list.map)
qed

text \<open>C27. What the meter sends can be read, whatever checksum of sixteen bits it uses, when the response can be written at all: a client that checks the sum, unescapes and splits a response finds
  the meter's address and, register by register, number, unit and value (modulo the width the template
  gives it). And between the first and the last byte none of the bytes that delimit messages occurs.\<close>

theorem response_roundtrip:
  assumes "serialize_registers crc databus a rs = Inr bs" and "\<forall>bs. 0 \<le> crc bs \<and> crc bs < 2 ^ 16"
  shows "read_response crc bs = Some (a, map (reading databus) rs) \<and>
    set (butlast (tl bs)) \<inter> {0x06, EOT_MAGIC, RESPONSE_MAGIC, REQUEST_MAGIC} = {}"
proof -
  let ?m = "a # 0x10 # concat (map (pack_register databus) rs)"
  from assms(1) obtain body sum where b: "to_octets ?m = Inr body"
    and s: "to_octets [crc body div 2 ^ 8, crc body mod 256] = Inr sum"
    and bs: "bs = escape (RESPONSE_MAGIC # body @ sum @ [EOT_MAGIC])"
    unfolding serialize_registers_def serialize_def by blast
  have body: "body = map word_of_int ?m" and range: "\<forall>x \<in> set ?m. 0 \<le> x \<and> x < 256" using to_octets_Inr [OF b] by auto
  have sum: "sum = [word_of_int (crc body div 2 ^ 8), word_of_int (crc body mod 256)]" using to_octets_Inr [OF s] by simp
  have esc: "bs = RESPONSE_MAGIC # concat (map escape_byte (body @ sum)) @ [EOT_MAGIC]"
    unfolding bs sum by (simp add: escape_def butlast_append)
  have mid: "butlast (tl bs) = concat (map escape_byte (body @ sum))" unfolding esc by (simp add: butlast_append)
  have u: "unescape (butlast (tl bs)) = body @ sum" unfolding mid by (rule unescape_all)
  have len: "length sum = 2" by (simp add: sum)
  have "valid_crc crc (body @ sum) = Inr True"
    using two_bytes [of "crc body"] assms(2) unfolding sum valid_crc_frame by simp
  moreover have "hd bs = RESPONSE_MAGIC" "last bs = EOT_MAGIC" by (simp_all add: esc)
  moreover have "body ! 0 = word_of_int a" "body ! 1 = 0x10" "2 \<le> length body"
    "drop 2 body = map word_of_int (concat (map (pack_register databus) rs))" by (simp_all add: body)
  moreover have "read_values (map word_of_int (concat (map (pack_register databus) rs))) = Some (map (reading databus) rs)"
    using range by (intro read_values_packed) simp
  moreover have "uint (word_of_int a :: 8 word) = a" using range by simp
  ultimately have "read_response crc bs = Some (a, map (reading databus) rs)"
    unfolding read_response_def u Let_def using len by simp
  moreover have "set (escape_byte c) \<inter> {0x06, EOT_MAGIC, RESPONSE_MAGIC, REQUEST_MAGIC} = {}" for c
    by (auto simp: escape_byte_def kdefs)
  then have "set (butlast (tl bs)) \<inter> {0x06, EOT_MAGIC, RESPONSE_MAGIC, REQUEST_MAGIC} = {}" unfolding mid by fastforce
  ultimately show ?thesis by blast
qed

theorem response_roundtrip_witness:
  "read_response demo_crc [0x40, 0x3f, 0x10, 0x04, 0x10, 0x02, 0x02, 0x00, 0x1b, 0xf2, 0x1b, 0xe4, 0x00, 0x8f, 0x0d] =
     Some (0x3f, [(1040, 2, 0, 3355)])"
proof -
  let ?r = "\<lparr>kr_name = 1040, kr_units = 2, kr_length = 2, kr_unknown = 0, kr_databus_key = ''e''\<rparr>"
  have "serialize_registers demo_crc (\<lambda>_. 3355) 0x3f [?r] =
      Inr [0x40, 0x3f, 0x10, 0x04, 0x10, 0x02, 0x02, 0x00, 0x1b, 0xf2, 0x1b, 0xe4, 0x00, 0x8f, 0x0d]"
    by code_simp
  from response_roundtrip [OF this] demo_crc_range show ?thesis by (simp add: reading_def)
qed

section \<open>A connection\<close>

text \<open>A request for registers is answered with those the template has, in the order asked.\<close>

lemma connection_answers:
  assumes "length rs < 256" and "\<forall>r \<in> set rs. 0 \<le> r \<and> r < 2 ^ 16" and "\<And>bs. 0 \<le> crc bs \<and> crc bs < 2 ^ 16"
    and "kc_address cfg = uint a"
    and "serialize_registers crc databus (uint a) (List.map_filter (map_of (kc_registers cfg)) rs) = Inr response"
  shows "handle crc databus cfg [ask crc a rs] kparser_init =
    ([Traffic (of_nat (length rs) # concat (map number rs)) (Some response), ConnectionLost], Inr ())"
proof -
  have i: "kp_bytes kparser_init = []" "\<not> kp_escaped kparser_init" by (simp_all add: kparser_init_def)
  have "ask crc a rs \<noteq> []" by (simp add: ask_def request_frame_eq)
  moreover have "serve crc databus cfg (add_bytes (ask crc a rs) kparser_init) =
      (parser_at [], [Traffic (of_nat (length rs) # concat (map number rs)) (Some response), ConnectionLost], Inr ())"
    using assms(4,5) ask_read [OF assms(1,2,3) i]
    by (subst serve.simps) (simp add: respond_def, subst serve.simps, simp add: get_request_def scan_done)
  ultimately show ?thesis by simp
qed

text \<open>Received in two segments, a request with an escaped byte is taken for another: the part that was
  unescaped already is scanned again, and its end byte is believed.\<close>

lemma segments_break_requests:
  "snd (get_request (\<lambda>_. 0) (add_bytes [0x80, 0x3f, 0x10, 0x01, 0x00, 0x1b, 0xf2, 0x00, 0x00, 0x0d] kparser_init)) =
     Inr (Some (GetRegisters 0x3f [1, 0, 13] [13])) \<and>
   snd (get_request (\<lambda>_. 0) (add_bytes [0x0d]
     (fst (get_request (\<lambda>_. 0) (add_bytes [0x80, 0x3f, 0x10, 0x01, 0x00, 0x1b, 0xf2, 0x00, 0x00] kparser_init))))) =
     Inr (Some (UnknownRequest 0 0 []))"
  by code_simp

text \<open>And the message of a request is cut from the whole buffer: of two requests received together the first is
  given the second's bytes.\<close>

lemma pipelined_requests_mix:
  "snd (get_request (\<lambda>_. 0) (add_bytes [0x80, 0x3f, 0x11, 0x00, 0x00, 0x0d, 0x80, 0x3f, 0x11, 0x00, 0x00, 0x0d] kparser_init)) =
     Inr (Some (UnknownRequest 0x3f 0x11 [0x00, 0x00, 0x0d, 0x80, 0x3f, 0x11]))"
  by code_simp

end
