(* ===== verification/Auth.thy ===== *)
theory Auth
  imports PyStr "HOL-Library.AList"
begin

text \<open>
  Who may log in to Cowrie: \<open>cowrie/core/auth.py\<close> (\<open>UserDB\<close>, the list of accounts with their
  patterns, and \<open>AuthRandom\<close>, which lets an address in after a number of attempts drawn for it) and
  \<open>checkUserPass\<close> of \<open>cowrie/core/checkers.py\<close>. Bytes are the characters of a string; what a regular
  expression of the account list matches is given by an engine.
\<close>

section \<open>The account list\<close>

datatype rule = Literal string | Pattern string bool

text \<open>What a pattern (with its flag IGNORECASE) matches, None when it does not compile.\<close>

type_synonym engine = "string \<Rightarrow> bool \<Rightarrow> (string \<Rightarrow> bool) option"

type_synonym userdb = "((rule \<times> rule) \<times> bool) list"

definition userdb_defaults :: "string list" where
  "userdb_defaults =
     [''root:x:!root'', ''root:x:!123456'', ''root:x:!/honeypot/i'', ''root:x:*'', ''phil:x:*'', ''phil:x:fout'']"

text \<open>The match of \<open>/(.+)/(i)?$\<close>: its first group, and whether there is a second.\<close>

definition slash_rule :: "string \<Rightarrow> (string \<times> bool) option" where
  "slash_rule text_given =
     (let r = (if suffix [CHR 0x0A] text_given then butlast text_given else text_given);
          flag = suffix ''/i'' r;
          body = (if flag then take (length r - 2) r else if suffix ''/'' r then butlast r else []) in
      if body \<noteq> [] \<and> hd body = CHR ''/'' \<and> tl body \<noteq> [] \<and> CHR 0x0A \<notin> set (tl body) then Some (tl body, flag) else None)"

definition re_or_bytes :: "engine \<Rightarrow> string \<Rightarrow> rule result" where
  "re_or_bytes eng r =
     (case slash_rule r of
        Some (p, i) \<Rightarrow> (if eng p i = None then Inl (RuntimeError ''re.error'') else Inr (Pattern p i))
      | None \<Rightarrow> Inr (Literal r))"

fun match_rule :: "engine \<Rightarrow> rule \<Rightarrow> string \<Rightarrow> bool" where
  "match_rule eng (Literal r) data = (r = ''*'' \<or> r = data)"
| "match_rule eng (Pattern p i) data = (case eng p i of Some search \<Rightarrow> search data | None \<Rightarrow> False)"

definition adduser :: "engine \<Rightarrow> string \<Rightarrow> string \<Rightarrow> userdb \<Rightarrow> userdb result" where
  "adduser eng login passwd db =
     bindE (re_or_bytes eng login) (\<lambda>user.
       if passwd = [] then Inl IndexError
       else let policy = (hd passwd \<noteq> CHR ''!''); passwd = (if policy then passwd else tl passwd) in
         bindE (re_or_bytes eng passwd) (\<lambda>p. Inr (AList.update (user, p) policy db)))"

definition load_line :: "engine \<Rightarrow> string \<Rightarrow> userdb \<Rightarrow> userdb result" where
  "load_line eng user db =
     (if prefix ''#'' user then Inr db
      else let fields = split_on (CHR '':'') user in
        if length fields \<le> 2 then Inr db else adduser eng (fields ! 0) (strip (fields ! 2)) db)"

fun load_lines :: "engine \<Rightarrow> string list \<Rightarrow> userdb \<Rightarrow> userdb result" where
  "load_lines eng [] db = Inr db"
| "load_lines eng (l # ls) db = bindE (load_line eng l db) (load_lines eng ls)"

text \<open>The lines of \<open>userdb.txt\<close>, or None when it cannot be read.\<close>

definition load_userdb :: "engine \<Rightarrow> string list option \<Rightarrow> userdb result" where
  "load_userdb eng stored = load_lines eng (case stored of Some ls \<Rightarrow> ls | None \<Rightarrow> userdb_defaults) []"

fun userdb_checklogin :: "engine \<Rightarrow> userdb \<Rightarrow> string \<Rightarrow> string \<Rightarrow> bool" where
  "userdb_checklogin eng [] thelogin thepasswd = False"
| "userdb_checklogin eng (((login, passwd), policy) # db) thelogin thepasswd =
     (if match_rule eng login thelogin \<and> match_rule eng passwd thepasswd then policy
      else userdb_checklogin eng db thelogin thepasswd)"

section \<open>Random admission\<close>

text \<open>\<open>str\<close> of bytes.\<close>

definition repr_hex :: "nat \<Rightarrow> char" where
  "repr_hex n = ''0123456789abcdef'' ! n"

definition repr_byte :: "char \<Rightarrow> char \<Rightarrow> string" where
  "repr_byte quote c =
     (if c = quote \<or> c = CHR 0x5C then [CHR 0x5C, c]
      else if c = CHR 0x09 then [CHR 0x5C, CHR ''t'']
      else if c = CHR 0x0A then [CHR 0x5C, CHR ''n'']
      else if c = CHR 0x0D then [CHR 0x5C, CHR ''r'']
      else if code c < 32 \<or> 127 \<le> code c then [CHR 0x5C, CHR ''x'', repr_hex (code c div 16), repr_hex (code c mod 16)]
      else [c])"

definition repr_quote :: "string \<Rightarrow> char" where
  "repr_quote bs = (if CHR 0x27 \<in> set bs \<and> CHR 0x22 \<notin> set bs then CHR 0x22 else CHR 0x27)"

definition bytes_repr :: "string \<Rightarrow> string" where
  "bytes_repr bs = CHR ''b'' # repr_quote bs # concat (map (repr_byte (repr_quote bs)) bs) @ [repr_quote bs]"

text \<open>Bytes and strings are never equal.\<close>

datatype pyobj = Bytes string | Str string

text \<open>What is known of an address; None where the dictionary has no entry yet.\<close>

record ipinfo =
  ai_try :: "int option"
  ai_max :: "int option"
  ai_user :: "string option"
  ai_pw :: "string option"
  ai_tried :: "string list option"

definition no_info :: ipinfo where
  "no_info = \<lparr>ai_try = None, ai_max = None, ai_user = None, ai_pw = None, ai_tried = None\<rparr>"

text \<open>\<open>uservar\<close>: the entry \<open>cache\<close>, and one for every address.\<close>

record uservar =
  uv_cache :: "string list option"
  uv_ips :: "string \<Rightarrow> ipinfo option"

definition uservar_empty :: uservar where
  "uservar_empty = \<lparr>uv_cache = None, uv_ips = (\<lambda>_. None)\<rparr>"

record auth_random =
  ar_mintry :: int
  ar_maxtry :: int
  ar_maxcache :: int

text \<open>\<open>auth_class_parameters\<close>, None when the configuration does not have it.\<close>

definition auth_random_init :: "string option \<Rightarrow> auth_random result" where
  "auth_random_init parameters =
     bindE (case parameters of
              None \<Rightarrow> Inr \<lparr>ar_mintry = 2, ar_maxtry = 5, ar_maxcache = 10\<rparr>
            | Some ps \<Rightarrow>
                let parlist = split_on (CHR '','') ps in
                bindE (py_int (parlist ! 0)) (\<lambda>mintry.
                if length parlist < 2 then Inl IndexError else
                bindE (py_int (parlist ! 1)) (\<lambda>maxtry.
                if length parlist < 3 then Inl IndexError else
                bindE (py_int (parlist ! 2)) (\<lambda>maxcache.
                  Inr \<lparr>ar_mintry = mintry, ar_maxtry = maxtry, ar_maxcache = maxcache\<rparr>))))
       (\<lambda>a. Inr (if ar_maxtry a < ar_mintry a then a\<lparr>ar_maxtry := ar_mintry a + 1\<rparr> else a))"

text \<open>An attempt. The draw is what \<open>randint\<close> gives, where it is called.\<close>

definition userpass :: "string \<Rightarrow> string \<Rightarrow> string" where
  "userpass login passwd = bytes_repr login @ '':'' @ bytes_repr passwd"

definition cached_info :: "string \<Rightarrow> string \<Rightarrow> ipinfo \<Rightarrow> ipinfo" where
  "cached_info login passwd i = i\<lparr>ai_max := Some 1, ai_user := Some (bytes_repr login), ai_pw := Some (bytes_repr passwd)\<rparr>"

definition fill_in :: "int \<Rightarrow> ipinfo \<Rightarrow> ipinfo" where
  "fill_in draw i =
     i\<lparr>ai_max := Some (case ai_max i of None \<Rightarrow> draw | Some m \<Rightarrow> m),
       ai_try := Some (case ai_try i of None \<Rightarrow> 0 | Some t \<Rightarrow> t),
       ai_tried := Some (case ai_tried i of None \<Rightarrow> [] | Some ts \<Rightarrow> ts)\<rparr>"

definition push_cache :: "int \<Rightarrow> string list \<Rightarrow> string \<Rightarrow> string list" where
  "push_cache maxcache cache up = (let c = cache @ [up] in if maxcache < int (length c) then tl c else c)"

text \<open>The attempt is counted, from where the repeated combinations have been sorted out.\<close>

definition count_attempt :: "string \<Rightarrow> string \<Rightarrow> int \<Rightarrow> string list \<Rightarrow> ipinfo \<Rightarrow> string list \<times> ipinfo \<times> bool" where
  "count_attempt login passwd maxcache cache i =
     (let up = userpass login passwd; tried = the (ai_tried i); need = the (ai_max i);
          attempts = the (ai_try i) + 1; i = i\<lparr>ai_try := Some attempts\<rparr> in
      if attempts < need then (cache, i\<lparr>ai_tried := Some (tried @ [up])\<rparr>, False)
      else if attempts = need
      then (push_cache maxcache cache up, i\<lparr>ai_user := Some (bytes_repr login), ai_pw := Some (bytes_repr passwd)\<rparr>, True)
      else if ai_user i = None \<or> ai_pw i = None
      then (cache, i\<lparr>ai_tried := Some (tried @ [up]), ai_try := Some 1\<rparr>, False)
      else (cache, i, Bytes login = Str (the (ai_user i)) \<and> bytes_repr passwd = the (ai_pw i)))"

definition random_checklogin :: "auth_random \<Rightarrow> int \<Rightarrow> string \<Rightarrow> string \<Rightarrow> string \<Rightarrow> uservar \<Rightarrow> uservar \<times> bool" where
  "random_checklogin a draw login passwd src_ip v =
     (let up = userpass login passwd; cache = (case uv_cache v of None \<Rightarrow> [] | Some c \<Rightarrow> c);
          first = (uv_ips v src_ip = None);
          i = (case uv_ips v src_ip of None \<Rightarrow> no_info\<lparr>ai_try := Some 0\<rparr> | Some i \<Rightarrow> i);
          keep = (\<lambda>c i. v\<lparr>uv_cache := Some c, uv_ips := (uv_ips v)(src_ip \<mapsto> i)\<rparr>) in
      if up \<in> set cache then (keep cache (cached_info login passwd i), True)
      else let i = fill_in draw (if first then i\<lparr>ai_max := Some draw\<rparr> else i) in
        if up \<in> set (the (ai_tried i)) then (keep cache i, False)
        else case count_attempt login passwd (ar_maxcache a) cache i of (c, i, auth) \<Rightarrow> (keep c i, auth))"

section \<open>A login\<close>

text \<open>\<open>loadvars\<close>: the file, which may be missing, or not be JSON.\<close>

datatype stored = NoFile | Unreadable | Vars uservar

definition loadvars :: "stored \<Rightarrow> uservar" where
  "loadvars f = (case f of Vars v \<Rightarrow> v | _ \<Rightarrow> uservar_empty)"

text \<open>Which class checks, with its configuration.\<close>

datatype auth_class = UseUserDB engine "string list option" | UseAuthRandom "string option" | UnknownClass

text \<open>\<open>checkUserPass\<close>: an object of the class is made for every attempt, so what \<open>AuthRandom\<close> remembers is what is
  in its file. Every branch of its \<open>checklogin\<close> saves.\<close>

definition check_user_pass :: "auth_class \<Rightarrow> int \<Rightarrow> string \<Rightarrow> string \<Rightarrow> string \<Rightarrow> stored \<Rightarrow> stored \<times> bool result" where
  "check_user_pass cls draw username passwd ip f =
     (case cls of
        UseUserDB eng ls \<Rightarrow> (f, bindE (load_userdb eng ls) (\<lambda>db. Inr (userdb_checklogin eng db username passwd)))
      | UseAuthRandom parameters \<Rightarrow>
          (case auth_random_init parameters of
             Inl e \<Rightarrow> (f, Inl e)
           | Inr a \<Rightarrow> (case random_checklogin a draw username passwd ip (loadvars f) of (v, auth) \<Rightarrow> (Vars v, Inr auth)))
      | UnknownClass \<Rightarrow> (f, Inl (RuntimeError ''UnboundLocalError'')))"

text \<open>\<open>cbCheckPamUser\<close>: the responses of a keyboard-interactive login, until one is accepted.\<close>

fun check_pam_user :: "auth_class \<Rightarrow> int \<Rightarrow> string \<Rightarrow> string list \<Rightarrow> string \<Rightarrow> stored \<Rightarrow> stored \<times> bool result" where
  "check_pam_user cls draw username [] ip f = (f, Inr False)"
| "check_pam_user cls draw username (response # responses) ip f =
     (case check_user_pass cls draw username response ip f of
        (f', Inl e) \<Rightarrow> (f', Inl e)
      | (f', Inr ok) \<Rightarrow> if ok then (f', Inr True) else check_pam_user cls draw username responses ip f')"

end
