(* ===== verification/AuthFacts.thy ===== *)
theory AuthFacts
  imports Auth
begin

text \<open>
  Which logins Cowrie accepts: what a list of accounts decides, line by line; after how many attempts
  an address gets in when admission is random, whatever other addresses do meanwhile; and that the
  combination an address got in with is not what lets it in again.
\<close>

section \<open>The account list\<close>

text \<open>The account a line stands for.\<close>

definition rule_of :: "string \<Rightarrow> rule" where
  "rule_of r = (case slash_rule r of Some (p, i) \<Rightarrow> Pattern p i | None \<Rightarrow> Literal r)"

definition account :: "string \<Rightarrow> ((rule \<times> rule) \<times> bool) option" where
  "account line =
     (let fields = split_on (CHR '':'') line; w = strip (fields ! 2) in
      if prefix ''#'' line \<or> length fields \<le> 2 then None
      else Some ((rule_of (fields ! 0), rule_of (if hd w = CHR ''!'' then tl w else w)), hd w \<noteq> CHR ''!''))"

definition accounts :: "string list \<Rightarrow> ((rule \<times> rule) \<times> bool) list" where
  "accounts ls = List.map_filter account ls"

lemma re_or_bytes_Inr: "re_or_bytes eng r = Inr x \<Longrightarrow> x = rule_of r"
  by (auto simp: re_or_bytes_def rule_of_def split: option.splits if_splits)

lemma load_line_Inr:
  assumes "load_line eng l db = Inr db'"
  shows "db' = (case account l of None \<Rightarrow> db | Some (k, policy) \<Rightarrow> AList.update k policy db)"
proof (cases "prefix ''#'' l \<or> length (split_on (CHR '':'') l) \<le> 2")
  case True
  with assms show ?thesis by (cases "prefix ''#'' l") (simp_all add: load_line_def account_def Let_def)
next
  case False
  let ?w = "strip (split_on (CHR '':'') l ! 2)"
  from assms False have "adduser eng (split_on (CHR '':'') l ! 0) ?w db = Inr db'"
    by (simp add: load_line_def Let_def)
  then obtain u p where "u = rule_of (split_on (CHR '':'') l ! 0)" "p = rule_of (if hd ?w = CHR ''!'' then tl ?w else ?w)"
    "db' = AList.update (u, p) (hd ?w \<noteq> CHR ''!'') db"
    unfolding adduser_def Let_def by (auto dest!: re_or_bytes_Inr split: if_splits)
  with False show ?thesis by (simp add: account_def Let_def)
qed

lemma load_lines_Inr:
  "load_lines eng ls db = Inr db' \<Longrightarrow> db' = fold (\<lambda>(k, v). AList.update k v) (accounts ls) db"
proof (induction ls arbitrary: db)
  case (Cons l ls)
  then obtain db1 where "load_line eng l db = Inr db1" "load_lines eng ls db1 = Inr db'" by auto
  with Cons.IH [of db1] load_line_Inr [of eng l db db1] show ?case
    by (cases "account l") (auto simp: accounts_def map_filter_simps)
qed (simp add: accounts_def map_filter_simps)

lemma find_updated: "find P (map fst (fold (\<lambda>(k, v). AList.update k v) es [])) = find P (map fst es)"
proof (induction es rule: rev_induct)
  case (snoc e es)
  obtain k v where e: "e = (k, v)" by (cases e)
  have keys: "map fst (fold (\<lambda>(k, v). AList.update k v) (es @ [e]) []) =
      (let ks = map fst (fold (\<lambda>(k, v). AList.update k v) es []) in if k \<in> set ks then ks else ks @ [k])"
    by (simp add: e update_keys Let_def)
  show ?case
  proof (cases "P k \<and> k \<in> set (map fst (fold (\<lambda>(k, v). AList.update k v) es []))")
    case True
    then have "find P (map fst es) \<noteq> None" using snoc.IH by (metis find_None_all)
    with True snoc.IH show ?thesis unfolding keys Let_def by (auto simp: find_append)
  next
    case False
    with snoc.IH show ?thesis unfolding keys Let_def by (simp add: e find_append split: option.splits)
  qed
qed simp

lemma map_of_updated: "map_of (fold (\<lambda>(k, v). AList.update k v) es []) k = map_of (rev es) k"
  by (induction es rule: rev_induct) (auto simp: update_conv' split: prod.splits)

lemma checklogin_find:
  "userdb_checklogin eng db l p =
    (case find (\<lambda>(u, w). match_rule eng u l \<and> match_rule eng w p) (map fst db) of None \<Rightarrow> False | Some k \<Rightarrow> the (map_of db k))"
proof (induction db)
  case (Cons e db)
  obtain u w pol where "e = ((u, w), pol)" by (metis prod.exhaust)
  with Cons show ?case
    by (cases "match_rule eng u l \<and> match_rule eng w p") (auto split: option.splits dest!: find_Some_in_set)
qed simp

lemma map_of_rev_last:
  fixes es :: "('a \<times> 'b) list"
  shows "k \<in> fst ` set es \<Longrightarrow> the (map_of (rev es) k) = snd (last (filter (\<lambda>e. fst e = k) es))"
proof -
  assume k: "k \<in> fst ` set es"
  then have "filter (\<lambda>e. fst e = k) es \<noteq> []" by (auto simp: filter_empty_conv)
  from last_filter_rev [OF this] have "find (\<lambda>e. fst e = k) (rev es) = Some (last (filter (\<lambda>e. fst e = k) es))" .
  moreover have "map_of xs k = map_option snd (find (\<lambda>e. fst e = k) xs)" for xs :: "('a \<times> 'b) list" and k
    by (induction xs) auto
  ultimately show ?thesis by simp
qed

text \<open>What a list of accounts decides: the first line whose name and password match the login says which
  pair of rules applies, and the last line with that same pair says whether it is accepted; with no such line
  the login is refused.\<close>

theorem userdb_decided:
  assumes "load_userdb eng (Some ls) = Inr db"
  shows "userdb_checklogin eng db l p =
    (case find (\<lambda>(u, w). match_rule eng u l \<and> match_rule eng w p) (map fst (accounts ls)) of
       None \<Rightarrow> False
     | Some k \<Rightarrow> snd (last (filter (\<lambda>e. fst e = k) (accounts ls))))"
proof -
  have db: "db = fold (\<lambda>(k, v). AList.update k v) (accounts ls) []"
    using assms load_lines_Inr by (simp add: load_userdb_def)
  note decide = checklogin_find [of eng db l p, unfolded db find_updated map_of_updated, folded db]
  show ?thesis
  proof (cases "find (\<lambda>(u, w). match_rule eng u l \<and> match_rule eng w p) (map fst (accounts ls))")
    case (Some k)
    then have "k \<in> fst ` set (accounts ls)" using find_Some_in_set [OF Some] by simp
    with Some show ?thesis by (simp add: decide map_of_rev_last)
  qed (simp add: decide)
qed

definition demo_engine :: engine where
  "demo_engine p i = (if p = ''honeypot'' \<and> i then Some (\<lambda>s. contains ''honeypot'' (lower s)) else None)"

definition newline :: string where "newline = [CHR 0x0A]"

theorem userdb_decided_witness:
  "\<exists>db. load_userdb demo_engine (Some [''root:x:*'' @ newline, ''#bob:x:*'' @ newline, ''*:x:!/honeypot/i'' @ newline, ''root:x:!*'']) = Inr db \<and>
     \<not> userdb_checklogin demo_engine db ''root'' ''secret''"
proof -
  let ?ls = "[''root:x:*'' @ newline, ''#bob:x:*'' @ newline, ''*:x:!/honeypot/i'' @ newline, ''root:x:!*'']"
  let ?db = "[((Literal ''root'', Literal ''*''), False), ((Literal ''*'', Pattern ''honeypot'' True), False)]"
  have "load_userdb demo_engine (Some ?ls) = Inr ?db" by code_simp
  moreover have "accounts ?ls = [((Literal ''root'', Literal ''*''), True), ((Literal ''*'', Pattern ''honeypot'' True), False),
      ((Literal ''root'', Literal ''*''), False)]" by code_simp
  ultimately show ?thesis using userdb_decided [of demo_engine ?ls ?db "''root''" "''secret''"] by simp
qed

text \<open>Without a file of accounts, phil gets in with any password, root with any password but root, 123456 and
  those that contain honeypot in any case, and nobody else. (So the line that names a password for phil
  never matters.)\<close>

theorem default_accounts:
  assumes "eng ''honeypot'' True = Some (\<lambda>s. contains ''honeypot'' (lower s))"
  shows "check_user_pass (UseUserDB eng None) draw l p ip f =
    (f, Inr (l = ''phil'' \<or> l = ''root'' \<and> p \<notin> {''root'', ''123456''} \<and> \<not> contains ''honeypot'' (lower p)))"
proof -
  have fields: "split_on (CHR '':'') ''root:x:!root'' = [''root'', ''x'', ''!root'']"
    "split_on (CHR '':'') ''root:x:!123456'' = [''root'', ''x'', ''!123456'']"
    "split_on (CHR '':'') ''root:x:!/honeypot/i'' = [''root'', ''x'', ''!/honeypot/i'']"
    "split_on (CHR '':'') ''root:x:*'' = [''root'', ''x'', ''*'']"
    "split_on (CHR '':'') ''phil:x:*'' = [''phil'', ''x'', ''*'']"
    "split_on (CHR '':'') ''phil:x:fout'' = [''phil'', ''x'', ''fout'']"
    by code_simp+
  have words: "strip ''!root'' = ''!root''" "strip ''!123456'' = ''!123456''" "strip ''!/honeypot/i'' = ''!/honeypot/i''"
    "strip ''*'' = ''*''" "strip ''fout'' = ''fout''"
    by code_simp+
  have rules: "slash_rule ''root'' = None" "slash_rule ''phil'' = None" "slash_rule ''123456'' = None" "slash_rule ''*'' = None"
    "slash_rule ''fout'' = None" "slash_rule ''/honeypot/i'' = Some (''honeypot'', True)"
    by code_simp+
  have "load_userdb eng None = Inr
     [((Literal ''root'', Literal ''root''), False), ((Literal ''root'', Literal ''123456''), False),
      ((Literal ''root'', Pattern ''honeypot'' True), False), ((Literal ''root'', Literal ''*''), True),
      ((Literal ''phil'', Literal ''*''), True), ((Literal ''phil'', Literal ''fout''), True)]"
    by (simp add: load_userdb_def userdb_defaults_def load_line_def adduser_def re_or_bytes_def fields words rules assms Let_def)
  then show ?thesis by (auto simp: check_user_pass_def assms)
qed

theorem default_accounts_witness:
  "check_user_pass (UseUserDB demo_engine None) 3 ''root'' ''My HoneyPot'' ''192.0.2.7'' NoFile = (NoFile, Inr False) \<and>
   check_user_pass (UseUserDB demo_engine None) 3 ''root'' ''toor'' ''192.0.2.7'' NoFile = (NoFile, Inr True)"
proof -
  have e: "demo_engine ''honeypot'' True = Some (\<lambda>s. contains ''honeypot'' (lower s))" by (simp add: demo_engine_def)
  have "contains ''honeypot'' (lower ''My HoneyPot'')" "\<not> contains ''honeypot'' (lower ''toor'')" by code_simp+
  with default_accounts [of demo_engine 3 "''root''" _ "''192.0.2.7''" NoFile] e show ?thesis by simp
qed

text \<open>A line with an empty password is not skipped: no login is decided any more.\<close>

lemma empty_password_breaks:
  "check_user_pass (UseUserDB eng (Some [''root:x:'', ''phil:x:*''])) draw l p ip f = (f, Inl IndexError)"
proof -
  have "split_on (CHR '':'') ''root:x:'' = [''root'', ''x'', '''']" "strip '''' = ''''" "slash_rule ''root'' = None"
    by code_simp+
  then show ?thesis by (simp add: check_user_pass_def load_userdb_def load_line_def adduser_def re_or_bytes_def)
qed

section \<open>What is written of a combination determines it\<close>

text \<open>Reading back what \<open>str\<close> writes of bytes, up to the closing quote.\<close>

definition hex_value :: "char \<Rightarrow> nat" where
  "hex_value c = (if is_dec c then code c - 48 else code c - 87)"

fun read_repr :: "char \<Rightarrow> string \<Rightarrow> (string \<times> string) option" where
  "read_repr q [] = None"
| "read_repr q (c # s) =
     (if c = q then Some ([], s)
      else if c \<noteq> CHR 0x5C then map_option (apfst (Cons c)) (read_repr q s)
      else case s of
          [] \<Rightarrow> None
        | d # s \<Rightarrow>
            if d = CHR ''t'' then map_option (apfst (Cons (CHR 0x09))) (read_repr q s)
            else if d = CHR ''n'' then map_option (apfst (Cons (CHR 0x0A))) (read_repr q s)
            else if d = CHR ''r'' then map_option (apfst (Cons (CHR 0x0D))) (read_repr q s)
            else if d = CHR ''x''
            then (case s of h # l # s \<Rightarrow> map_option (apfst (Cons (char_of (16 * hex_value h + hex_value l)))) (read_repr q s) | _ \<Rightarrow> None)
            else map_option (apfst (Cons d)) (read_repr q s))"

lemma hex_value_digit: "n < 16 \<Longrightarrow> hex_value (repr_hex n) = n"
proof -
  have "\<forall>n \<in> set [0 ..< 16]. hex_value (repr_hex n) = n" by code_simp
  then show "n < 16 \<Longrightarrow> hex_value (repr_hex n) = n" by simp
qed

lemma read_repr_byte:
  assumes "q \<in> {CHR 0x27, CHR 0x22}"
  shows "read_repr q (repr_byte q c @ s) = map_option (apfst (Cons c)) (read_repr q s)"
proof -
  have hex: "char_of (16 * hex_value (repr_hex (code c div 16)) + hex_value (repr_hex (code c mod 16))) = c"
  proof -
    have "code c div 16 < 16" by (simp add: code_def less_mult_imp_div_less)
    then show ?thesis by (simp add: hex_value_digit) (simp add: code_def)
  qed
  have q: "q \<noteq> CHR ''t''" "q \<noteq> CHR ''n''" "q \<noteq> CHR ''r''" "q \<noteq> CHR ''x''" "q \<noteq> CHR 0x5C" using assms by auto
  consider "c = q \<or> c = CHR 0x5C" | "c \<noteq> q" "c \<noteq> CHR 0x5C" "c \<in> {CHR 0x09, CHR 0x0A, CHR 0x0D}"
    | "c \<noteq> q" "c \<noteq> CHR 0x5C" "c \<notin> {CHR 0x09, CHR 0x0A, CHR 0x0D}" "code c < 32 \<or> 127 \<le> code c"
    | "c \<noteq> q" "c \<noteq> CHR 0x5C" "c \<notin> {CHR 0x09, CHR 0x0A, CHR 0x0D}" "\<not> (code c < 32 \<or> 127 \<le> code c)"
    by blast
  then show ?thesis
  proof cases
    case 1
    with q show ?thesis by (auto simp: repr_byte_def)
  next
    case 2
    with q show ?thesis by (elim insertE emptyE) (simp_all add: repr_byte_def)
  next
    case 3
    with q hex show ?thesis by (simp add: repr_byte_def)
  next
    case 4
    with q show ?thesis by (simp add: repr_byte_def)
  qed
qed

lemma read_repr_bytes:
  "q \<in> {CHR 0x27, CHR 0x22} \<Longrightarrow> read_repr q (concat (map (repr_byte q) bs) @ q # s) = Some (bs, s)"
proof (induction bs)
  case (Cons b bs)
  from read_repr_byte [OF Cons.prems, of b "concat (map (repr_byte q) bs) @ q # s"] Cons show ?case by simp
qed simp

lemma bytes_repr_append_inject: "bytes_repr a @ x = bytes_repr b @ y \<longleftrightarrow> a = b \<and> x = y"
proof
  assume e: "bytes_repr a @ x = bytes_repr b @ y"
  have q: "repr_quote z \<in> {CHR 0x27, CHR 0x22}" for z by (simp add: repr_quote_def)
  from e have r: "repr_quote a = repr_quote b" by (simp add: bytes_repr_def)
  with e have "concat (map (repr_byte (repr_quote b)) a) @ repr_quote b # x = concat (map (repr_byte (repr_quote b)) b) @ repr_quote b # y"
    by (simp add: bytes_repr_def)
  then show "a = b \<and> x = y" using read_repr_bytes [OF q, of b a x] read_repr_bytes [OF q, of b b y] by simp
qed simp

lemma bytes_repr_inject [simp]: "bytes_repr a = bytes_repr b \<longleftrightarrow> a = b"
  using bytes_repr_append_inject [of a "[]" b "[]"] by simp

lemma userpass_inject [simp]: "userpass l p = userpass l' p' \<longleftrightarrow> l = l' \<and> p = p'"
  by (simp add: userpass_def bytes_repr_append_inject)

section \<open>Random admission\<close>

text \<open>An attempt: what \<open>randint\<close> would draw, the name, the password and the address.\<close>

type_synonym attempt = "int \<times> string \<times> string \<times> string"

fun from_ip :: "string \<Rightarrow> attempt \<Rightarrow> bool" where
  "from_ip ip (_, _, _, ip') = (ip' = ip)"

fun combination :: "attempt \<Rightarrow> string" where
  "combination (_, login, passwd, _) = userpass login passwd"

fun logins :: "auth_class \<Rightarrow> attempt list \<Rightarrow> stored \<Rightarrow> bool result list" where
  "logins cls [] f = []"
| "logins cls ((draw, login, passwd, ip) # as) f =
     (case check_user_pass cls draw login passwd ip f of (f', r) \<Rightarrow> r # logins cls as f')"

text \<open>What the attempts from one address get, in their order.\<close>

definition answers_to :: "string \<Rightarrow> auth_class \<Rightarrow> attempt list \<Rightarrow> stored \<Rightarrow> bool result list" where
  "answers_to ip cls as f = map snd (filter (\<lambda>(a, _). from_ip ip a) (zip as (logins cls as f)))"

definition cache_of :: "uservar \<Rightarrow> string list" where
  "cache_of v = (case uv_cache v of None \<Rightarrow> [] | Some c \<Rightarrow> c)"

lemma set_push_cache: "set (push_cache m c up) \<subseteq> insert up (set c)"
  by (cases c) (auto simp: push_cache_def Let_def)

lemma count_attempt_cache: "count_attempt l p m c i = (c', i', r) \<Longrightarrow> set c' \<subseteq> insert (userpass l p) (set c)"
  using set_push_cache by (fastforce simp: count_attempt_def Let_def split: if_splits)

lemma other_attempt:
  assumes "i \<noteq> ip" and "random_checklogin a d l p i v = (v', r)"
  shows "uv_ips v' ip = uv_ips v ip \<and> set (cache_of v') \<subseteq> insert (userpass l p) (set (cache_of v))"
  using assms unfolding random_checklogin_def Let_def
  by (auto simp: cache_of_def split: if_splits prod.splits dest!: count_attempt_cache)

text \<open>An address that has made \<open>k\<close> of the \<open>n\<close> attempts it needs, with the combinations \<open>ts\<close>.\<close>

definition pending_at :: "uservar \<Rightarrow> string \<Rightarrow> int \<Rightarrow> int \<Rightarrow> string list \<Rightarrow> bool" where
  "pending_at v ip n k ts \<longleftrightarrow>
     (case uv_ips v ip of
        None \<Rightarrow> k = 0 \<and> ts = []
      | Some i \<Rightarrow> ai_try i = Some k \<and> ai_max i = Some n \<and> ai_tried i = Some ts)"

lemma fresh_attempt:
  assumes "pending_at v ip n k ts" and "uv_ips v ip = None \<longrightarrow> d = n"
    and "userpass l p \<notin> set (cache_of v)" and "userpass l p \<notin> set ts"
  obtains i where "ai_try i = Some k" and "ai_max i = Some n" and "ai_tried i = Some ts"
    and "random_checklogin a d l p ip v =
      (case count_attempt l p (ar_maxcache a) (cache_of v) i of
         (c, i, auth) \<Rightarrow> (v\<lparr>uv_cache := Some c, uv_ips := (uv_ips v)(ip \<mapsto> i)\<rparr>, auth))"
proof -
  define i where "i = (case uv_ips v ip of None \<Rightarrow> no_info\<lparr>ai_try := Some 0, ai_max := Some d\<rparr> | Some i \<Rightarrow> i)"
  have f: "ai_try (fill_in d i) = Some k" "ai_max (fill_in d i) = Some n" "ai_tried (fill_in d i) = Some ts"
    using assms(1,2) by (auto simp: i_def pending_at_def fill_in_def no_info_def split: option.splits)
  show thesis
  proof (rule that [OF f])
    show "random_checklogin a d l p ip v =
        (case count_attempt l p (ar_maxcache a) (cache_of v) (fill_in d i) of
           (c, i, auth) \<Rightarrow> (v\<lparr>uv_cache := Some c, uv_ips := (uv_ips v)(ip \<mapsto> i)\<rparr>, auth))"
      unfolding random_checklogin_def Let_def cache_of_def [symmetric] using assms(3,4) f
      by (cases "uv_ips v ip") (simp_all add: i_def)
  qed
qed

lemma own_attempt:
  assumes "pending_at v ip n k ts" and "uv_ips v ip = None \<longrightarrow> d = n" and "k < n"
    and "userpass l p \<notin> set (cache_of v)" and "userpass l p \<notin> set ts"
    and "random_checklogin a d l p ip v = (v', r)"
  shows "r = (k + 1 = n) \<and>
    (k + 1 < n \<longrightarrow> pending_at v' ip n (k + 1) (ts @ [userpass l p]) \<and> uv_ips v' ip \<noteq> None \<and> cache_of v' = cache_of v)"
proof -
  obtain i where "ai_try i = Some k" "ai_max i = Some n" "ai_tried i = Some ts"
    "random_checklogin a d l p ip v = (case count_attempt l p (ar_maxcache a) (cache_of v) i of
       (c, i, auth) \<Rightarrow> (v\<lparr>uv_cache := Some c, uv_ips := (uv_ips v)(ip \<mapsto> i)\<rparr>, auth))"
    by (rule fresh_attempt [OF assms(1,2,4,5)])
  with assms(3,6) show ?thesis
    by (cases "k + 1 = n") (auto simp: count_attempt_def Let_def pending_at_def cache_of_def)
qed

lemma answers_Cons:
  "answers_to ip cls ((d, l, p, i) # as) f =
    (case check_user_pass cls d l p i f of
       (f', r) \<Rightarrow> if i = ip then r # answers_to ip cls as f' else answers_to ip cls as f')"
  by (auto simp: answers_to_def split: prod.splits)

lemma answers_none: "filter (from_ip ip) as = [] \<Longrightarrow> answers_to ip cls as f = []"
  by (auto simp: answers_to_def filter_empty_conv dest: set_zip_leftD)

lemma check_random:
  "auth_random_init ps = Inr a \<Longrightarrow>
   check_user_pass (UseAuthRandom ps) d l p ip f =
     (case random_checklogin a d l p ip (loadvars f) of (v, auth) \<Rightarrow> (Vars v, Inr auth))"
  by (simp add: check_user_pass_def)

lemma admitted_from:
  assumes "auth_random_init ps = Inr a" and "pending_at (loadvars f) ip n k ts" and "k < n"
    and "int (length (filter (from_ip ip) as)) = n - k"
    and "uv_ips (loadvars f) ip = None \<longrightarrow> fst (hd (filter (from_ip ip) as)) = n"
    and "distinct (map combination (filter (from_ip ip) as))"
    and "\<forall>x \<in> set (filter (from_ip ip) as). combination x \<notin> set (cache_of (loadvars f)) \<union> set ts \<union> combination ` {y \<in> set as. \<not> from_ip ip y}"
  shows "answers_to ip (UseAuthRandom ps) as f = replicate (nat (n - k) - 1) (Inr False) @ [Inr True]"
  using assms(2-)
proof (induction as arbitrary: f k ts)
  case (Cons x as)
  obtain d l p i where x: "x = (d, l, p, i)" by (cases x)
  obtain v r where v: "random_checklogin a d l p i (loadvars f) = (v, r)" by fastforce
  have check: "check_user_pass (UseAuthRandom ps) d l p i f = (Vars v, Inr r)" using check_random [OF assms(1)] v by simp
  have load: "loadvars (Vars v) = v" by (simp add: loadvars_def)
  show ?case
  proof (cases "i = ip")
    case False
    have o: "uv_ips v ip = uv_ips (loadvars f) ip" "set (cache_of v) \<subseteq> insert (userpass l p) (set (cache_of (loadvars f)))"
      using other_attempt [OF False v] by auto
    have "answers_to ip (UseAuthRandom ps) as (Vars v) = replicate (nat (n - k) - 1) (Inr False) @ [Inr True]"
    proof (rule Cons.IH)
      show "\<forall>z \<in> set (filter (from_ip ip) as). combination z \<notin> set (cache_of (loadvars (Vars v))) \<union> set ts \<union> combination ` {y \<in> set as. \<not> from_ip ip y}"
      proof
        fix z assume "z \<in> set (filter (from_ip ip) as)"
        then have z: "combination z \<notin> set (cache_of (loadvars f)) \<union> set ts \<union> combination ` {y \<in> set (x # as). \<not> from_ip ip y}"
          using Cons.prems(6) by simp
        moreover have "combination x \<in> combination ` {y \<in> set (x # as). \<not> from_ip ip y}" using False by (intro imageI) (simp add: x)
        ultimately have "combination z \<noteq> combination x" by (auto simp only: Un_iff)
        then have "combination z \<noteq> userpass l p" by (simp add: x)
        with z o(2) show "combination z \<notin> set (cache_of (loadvars (Vars v))) \<union> set ts \<union> combination ` {y \<in> set as. \<not> from_ip ip y}"
          by (auto simp: load)
      qed
      show "pending_at (loadvars (Vars v)) ip n k ts" using Cons.prems(1) o(1) by (simp add: load pending_at_def)
      have f: "filter (from_ip ip) (x # as) = filter (from_ip ip) as" using False by (simp add: x)
      show "uv_ips (loadvars (Vars v)) ip = None \<longrightarrow> fst (hd (filter (from_ip ip) as)) = n"
        using Cons.prems(4) o(1) unfolding f load by simp
      show "int (length (filter (from_ip ip) as)) = n - k" "distinct (map combination (filter (from_ip ip) as))"
        using Cons.prems(3,5) unfolding f by simp_all
    qed (rule Cons.prems(2))
    then show ?thesis using False by (simp add: x answers_Cons check)
  next
    case True
    have m: "filter (from_ip ip) (x # as) = x # filter (from_ip ip) as" using True by (simp add: x)
    have "combination x \<notin> set (cache_of (loadvars f)) \<union> set ts" using Cons.prems(6) unfolding m by simp
    then have c: "userpass l p \<notin> set (cache_of (loadvars f))" "userpass l p \<notin> set ts" by (simp_all add: x)
    have d: "uv_ips (loadvars f) ip = None \<longrightarrow> d = n" using Cons.prems(4) unfolding m by (simp add: x)
    have o: "r = (k + 1 = n)" "k + 1 < n \<Longrightarrow> pending_at v ip n (k + 1) (ts @ [userpass l p]) \<and> uv_ips v ip \<noteq> None \<and> cache_of v = cache_of (loadvars f)"
      using own_attempt [OF Cons.prems(1) d Cons.prems(2) c v [unfolded True]] by auto
    show ?thesis
    proof (cases "k + 1 = n")
      case last: True
      then have "filter (from_ip ip) as = []" using Cons.prems(3) last unfolding m by (simp flip: length_0_conv)
      with last o(1) check [unfolded True] show ?thesis by (simp add: x True answers_Cons answers_none)
    next
      case False
      with Cons.prems(2) have k: "k + 1 < n" by simp
      have "answers_to ip (UseAuthRandom ps) as (Vars v) = replicate (nat (n - (k + 1)) - 1) (Inr False) @ [Inr True]"
      proof (rule Cons.IH)
        show "pending_at (loadvars (Vars v)) ip n (k + 1) (ts @ [userpass l p])" and "k + 1 < n"
          "uv_ips (loadvars (Vars v)) ip = None \<longrightarrow> fst (hd (filter (from_ip ip) as)) = n"
          using o(2) [OF k] k unfolding load by blast+
        show "int (length (filter (from_ip ip) as)) = n - (k + 1)" "distinct (map combination (filter (from_ip ip) as))"
          using Cons.prems(3,5) unfolding m by simp_all
        have "cache_of (loadvars (Vars v)) = cache_of (loadvars f)" using o(2) [OF k] unfolding load by blast
        show "\<forall>z \<in> set (filter (from_ip ip) as). combination z \<notin> set (cache_of (loadvars (Vars v))) \<union> set (ts @ [userpass l p]) \<union>
            combination ` {y \<in> set as. \<not> from_ip ip y}"
        proof (intro ballI)
          fix z assume z: "z \<in> set (filter (from_ip ip) as)"
          then have "combination z \<notin> set (cache_of (loadvars f)) \<union> set ts \<union> combination ` {y \<in> set (x # as). \<not> from_ip ip y}"
            using Cons.prems(6) [unfolded m, THEN bspec, of z] by simp
          moreover have "combination x \<notin> combination ` set (filter (from_ip ip) as)" using Cons.prems(5) unfolding m by simp
          then have "combination z \<noteq> combination x" using imageI [OF z, of combination] by (auto simp only:)
          ultimately show "combination z \<notin> set (cache_of (loadvars (Vars v))) \<union> set (ts @ [userpass l p]) \<union>
              combination ` {y \<in> set as. \<not> from_ip ip y}"
            unfolding \<open>cache_of (loadvars (Vars v)) = cache_of (loadvars f)\<close> by (auto simp: x)
        qed
      qed
      moreover have "nat (n - (k + 1)) = Suc (nat (n - k - 2))" "nat (n - k) = Suc (Suc (nat (n - k - 2)))" using k by linarith+
      ultimately show ?thesis using k o(1) check [unfolded True] by (simp add: x True answers_Cons)
    qed
  qed
qed simp

text \<open>C25. When admission is random, an address that has not been seen before and tries as many different combinations as were
  drawn for it is refused every time but the last, and then let in, however the attempts of other
  addresses are interleaved, as long as none of these combinations is in the cache (somebody has been let in with it)
  and no other address tries one of them.\<close>

theorem admitted_at_draw:
  assumes "auth_random_init ps = Inr a" and "uv_ips (loadvars f) ip = None"
    and "mine = filter (from_ip ip) as" and "0 < length mine" and "fst (hd mine) = int (length mine)"
    and "distinct (map (\<lambda>(_, l, p, _). (l, p)) mine)"
    and "\<forall>x \<in> set mine. combination x \<notin> set (cache_of (loadvars f)) \<union> combination ` {y \<in> set as. \<not> from_ip ip y}"
  shows "answers_to ip (UseAuthRandom ps) as f = replicate (length mine - 1) (Inr False) @ [Inr True]"
proof -
  have "map combination mine = map (\<lambda>(l, p). userpass l p) (map (\<lambda>(_, l, p, _). (l, p)) mine)" by auto
  moreover have "inj (\<lambda>(l, p). userpass l p)" by (auto simp: inj_def)
  then have "inj_on (\<lambda>(l, p). userpass l p) (set (map (\<lambda>(_, l, p, _). (l, p)) mine))" by (rule inj_on_subset) simp
  ultimately have d: "distinct (map combination mine)" using assms(6) by (simp only: distinct_map [of "\<lambda>(l, p). userpass l p"])
  have p: "pending_at (loadvars f) ip (int (length mine)) 0 []" using assms(2) by (simp add: pending_at_def)
  have "answers_to ip (UseAuthRandom ps) as f = replicate (nat (int (length mine) - 0) - 1) (Inr False) @ [Inr True]"
    by (rule admitted_from [OF assms(1) p]) (use assms(4,5,7) d in \<open>simp_all add: assms(3)\<close>)
  then show ?thesis by simp
qed

theorem admitted_at_draw_witness:
  "answers_to ''192.0.2.7'' (UseAuthRandom None)
     [(3, ''root'', ''a'', ''192.0.2.7''), (2, ''root'', ''z'', ''192.0.2.9''), (0, ''root'', ''b'', ''192.0.2.7''),
      (5, ''admin'', ''admin'', ''192.0.2.9''), (0, ''phil'', ''b'', ''192.0.2.7'')] NoFile = [Inr False, Inr False, Inr True]"
  (is "answers_to ?ip ?cls ?as NoFile = _")
proof -
  have i: "auth_random_init None = Inr \<lparr>ar_mintry = 2, ar_maxtry = 5, ar_maxcache = 10\<rparr>" by (simp add: auth_random_init_def)
  have l: "loadvars NoFile = uservar_empty" by (simp add: loadvars_def)
  have "uv_ips (loadvars NoFile) ?ip = None" "cache_of (loadvars NoFile) = []"
    by (simp_all add: l uservar_empty_def cache_of_def)
  moreover have m: "filter (from_ip ?ip) ?as = [(3, ''root'', ''a'', ?ip), (0, ''root'', ''b'', ?ip), (0, ''phil'', ''b'', ?ip)]" by simp
  moreover have "{y \<in> set ?as. \<not> from_ip ?ip y} = {(2, ''root'', ''z'', ''192.0.2.9''), (5, ''admin'', ''admin'', ''192.0.2.9'')}" by auto
  ultimately show ?thesis
    using admitted_at_draw [OF i, of NoFile ?ip "filter (from_ip ?ip) ?as" ?as] unfolding m by (simp add: numeral_2_eq_2)
qed

section \<open>Coming back\<close>

text \<open>An address that has been let in, or at least has made as many attempts as it needed.\<close>

definition admitted :: "uservar \<Rightarrow> string \<Rightarrow> bool" where
  "admitted v ip \<longleftrightarrow>
     (case uv_ips v ip of
        None \<Rightarrow> False
      | Some i \<Rightarrow> (case (ai_try i, ai_max i) of (Some t, Some m) \<Rightarrow> 1 \<le> t \<and> m \<le> t | _ \<Rightarrow> False) \<and>
          ai_user i \<noteq> None \<and> ai_pw i \<noteq> None)"

text \<open>The attempt that succeeds admits the address.\<close>

lemma success_admits:
  assumes "pending_at v ip n (n - 1) ts" and "uv_ips v ip = None \<longrightarrow> d = n" and "1 \<le> n"
    and "userpass l p \<notin> set (cache_of v)" and "userpass l p \<notin> set ts"
  shows "admitted (fst (random_checklogin a d l p ip v)) ip"
proof -
  obtain i where "ai_try i = Some (n - 1)" "ai_max i = Some n" "ai_tried i = Some ts"
    "random_checklogin a d l p ip v = (case count_attempt l p (ar_maxcache a) (cache_of v) i of
       (c, i, auth) \<Rightarrow> (v\<lparr>uv_cache := Some c, uv_ips := (uv_ips v)(ip \<mapsto> i)\<rparr>, auth))"
    by (rule fresh_attempt [OF assms(1,2,4,5)])
  with assms(3) show ?thesis by (simp add: count_attempt_def Let_def admitted_def)
qed

text \<open>The combination an address got in with is remembered and never used: once it is in, the address gets in
  again exactly with the combinations that are still in the cache of the last successful ones, which
  the successes of other addresses push out. The comparison with the combination remembered is between
  bytes and a string, and always fails.\<close>

theorem returns_only_by_cache:
  assumes "auth_random_init ps = Inr a" and "admitted (loadvars f) ip"
  shows "\<exists>f'. check_user_pass (UseAuthRandom ps) draw l p ip f =
      (f', Inr (userpass l p \<in> set (cache_of (loadvars f)))) \<and> admitted (loadvars f') ip"
proof -
  obtain i t m u w where i: "uv_ips (loadvars f) ip = Some i" "ai_try i = Some t" "ai_max i = Some m" "1 \<le> t" "m \<le> t"
    "ai_user i = Some u" "ai_pw i = Some w"
    using assms(2) by (auto simp: admitted_def split: option.splits prod.splits)
  let ?i = "fill_in draw i"
  have f: "ai_try ?i = Some t" "ai_max ?i = Some m" "ai_user ?i = Some u" "ai_pw ?i = Some w"
    using i by (simp_all add: fill_in_def)
  have c: "count_attempt l p k c ?i = (c, ?i\<lparr>ai_try := Some (t + 1)\<rparr>, False)" for k c
    using i f by (simp add: count_attempt_def Let_def)
  show ?thesis unfolding check_random [OF assms(1)] random_checklogin_def Let_def cache_of_def [symmetric] i(1)
    using i f by (auto simp: c loadvars_def admitted_def cached_info_def)
qed

theorem returns_only_by_cache_witness:
  "\<exists>f'. check_user_pass (UseAuthRandom None) 3 ''root'' ''b'' ''192.0.2.7''
     (Vars \<lparr>uv_cache = Some [''x''],
       uv_ips = [''192.0.2.7'' \<mapsto> \<lparr>ai_try = Some 3, ai_max = Some 3, ai_user = Some (bytes_repr ''root''),
         ai_pw = Some (bytes_repr ''b''), ai_tried = Some []\<rparr>]\<rparr>) = (f', Inr False)"
  (is "\<exists>f'. check_user_pass _ _ _ _ ?ip (Vars ?v) = _")
proof -
  have i: "auth_random_init None = Inr \<lparr>ar_mintry = 2, ar_maxtry = 5, ar_maxcache = 10\<rparr>" by (simp add: auth_random_init_def)
  have l: "loadvars (Vars ?v) = ?v" by (simp add: loadvars_def)
  have a: "admitted (loadvars (Vars ?v)) ?ip" by (simp add: l admitted_def)
  have "cache_of (loadvars (Vars ?v)) = [''x'']" by (simp add: l cache_of_def)
  moreover have "userpass ''root'' ''b'' \<noteq> ''x''" by (simp add: userpass_def bytes_repr_def)
  ultimately show ?thesis using returns_only_by_cache [OF i a, of 3 "''root''" "''b''"] by auto
qed

text \<open>And an address that comes with a cached combination on its first visit gets in the second time with any other.\<close>

lemma cached_visit_opens:
  assumes "uv_ips v ip = None" and "userpass l p \<in> set (cache_of v)" and "userpass l' p' \<notin> set (cache_of v)"
  shows "snd (random_checklogin a d' l' p' ip (fst (random_checklogin a d l p ip v)))"
proof -
  have "random_checklogin a d l p ip v =
      (v\<lparr>uv_cache := Some (cache_of v), uv_ips := (uv_ips v)(ip \<mapsto> cached_info l p (no_info\<lparr>ai_try := Some 0\<rparr>))\<rparr>, True)"
    unfolding random_checklogin_def Let_def cache_of_def [symmetric] using assms(1,2) by simp
  then show ?thesis
    using assms(3) by (simp add: random_checklogin_def Let_def fill_in_def cached_info_def no_info_def count_attempt_def)
qed

end
