(* ===== verification/Pwd.thy ===== *)
theory Pwd
  imports Docs
begin

text \<open>
  Users and groups as the attacker sees them: \<open>cowrie/shell/pwd.py\<close>, and the lookup of the user who logs
  in, of \<open>cowrie/shell/avatar.py\<close> (SSH) and \<open>cowrie/telnet/session.py\<close>. The lines of the two files
  are given (they are ASCII), and the number \<open>randint\<close> gives after \<open>seed\<close> with the checksum of a name.
\<close>

section \<open>Users\<close>

record pwentry =
  pw_name :: string
  pw_passwd :: string
  pw_gecos :: pyval
  pw_dir :: string
  pw_shell :: string
  pw_uid :: int
  pw_gid :: int

text \<open>A number that is none stands for 1001.\<close>

definition id_of :: "string \<Rightarrow> int" where
  "id_of s = (case py_int s of Inr n \<Rightarrow> n | Inl _ \<Rightarrow> 1001)"

definition ignored :: "string \<Rightarrow> bool" where
  "ignored line \<longleftrightarrow> line = [] \<or> prefix ''#'' line"

definition passwd_line :: "string \<Rightarrow> pwentry option" where
  "passwd_line rawline =
     (let line = strip rawline in
      if ignored line then None
      else case split_on (CHR '':'') line of
        [name, passwd, uid, gid, gecos, d, shell] \<Rightarrow>
          Some \<lparr>pw_name = name, pw_passwd = passwd, pw_gecos = PStr gecos, pw_dir = d, pw_shell = shell,
            pw_uid = id_of uid, pw_gid = id_of gid\<rparr>
      | _ \<Rightarrow> None)"

definition load_passwd :: "string list \<Rightarrow> pwentry list" where
  "load_passwd ls = List.map_filter passwd_line ls"

definition found :: "'a option \<Rightarrow> 'a result" where
  "found x = (case x of Some v \<Rightarrow> Inr v | None \<Rightarrow> Inl KeyError)"

definition getpwnam :: "string \<Rightarrow> pwentry list \<Rightarrow> pwentry result" where
  "getpwnam name passwd = found (find (\<lambda>e. pw_name e = name) passwd)"

definition getpwuid :: "int \<Rightarrow> pwentry list \<Rightarrow> pwentry result" where
  "getpwuid uid passwd = found (find (\<lambda>e. uid = pw_uid e) passwd)"

definition setpwentry :: "(string \<Rightarrow> int) \<Rightarrow> string \<Rightarrow> pwentry list \<Rightarrow> pwentry list \<times> pwentry" where
  "setpwentry seeded name passwd =
     (let e = \<lparr>pw_name = name, pw_passwd = ''x'', pw_gecos = PInt 0, pw_dir = ''/home/'' @ name, pw_shell = ''/bin/bash'',
                pw_uid = seeded name, pw_gid = seeded name\<rparr> in (passwd @ [e], e))"

section \<open>Groups\<close>

record grentry =
  gr_name :: string
  gr_gid :: int
  gr_mem :: string

text \<open>A line that does not have four fields raises: the tuple cannot be unpacked.\<close>

fun load_group :: "string list \<Rightarrow> grentry list result" where
  "load_group [] = Inr []"
| "load_group (rawline # ls) =
     (let line = strip rawline in
      if ignored line then load_group ls
      else case split_on (CHR '':'') line of
        [name, _, gid, mem] \<Rightarrow> bindE (load_group ls) (\<lambda>gs. Inr (\<lparr>gr_name = name, gr_gid = id_of gid, gr_mem = mem\<rparr> # gs))
      | _ \<Rightarrow> Inl ValueError)"

definition getgrnam :: "string \<Rightarrow> grentry list \<Rightarrow> grentry result" where
  "getgrnam name gs = found (find (\<lambda>e. name = gr_name e) gs)"

definition getgrgid :: "int \<Rightarrow> grentry list \<Rightarrow> grentry result" where
  "getgrgid gid gs = found (find (\<lambda>e. gid = gr_gid e) gs)"

section \<open>The user who logs in\<close>

record avatar =
  av_username :: string
  av_temporary :: bool
  av_uid :: int
  av_gid :: int
  av_home :: string

definition ssh_avatar :: "(string \<Rightarrow> int) \<Rightarrow> string list \<Rightarrow> string \<Rightarrow> avatar" where
  "ssh_avatar seeded ls username =
     (case getpwnam username (load_passwd ls) of
        Inr e \<Rightarrow> \<lparr>av_username = username, av_temporary = False, av_uid = pw_uid e, av_gid = pw_gid e, av_home = pw_dir e\<rparr>
      | Inl _ \<Rightarrow>
          let e = snd (setpwentry seeded username (load_passwd ls)) in
          \<lparr>av_username = username, av_temporary = True, av_uid = pw_uid e, av_gid = pw_gid e, av_home = pw_dir e\<rparr>)"

text \<open>A Telnet session has a fixed identity for a user it does not know; its search path depends on the user.\<close>

definition telnet_avatar :: "string list \<Rightarrow> string \<Rightarrow> int \<times> int \<times> string" where
  "telnet_avatar ls username =
     (case getpwnam username (load_passwd ls) of
        Inr e \<Rightarrow> (pw_uid e, pw_gid e, pw_dir e)
      | Inl _ \<Rightarrow> (1001, 1001, ''/home''))"

definition telnet_environ :: "string list \<Rightarrow> string \<Rightarrow> (string \<times> string) list" where
  "telnet_environ ls username =
     (case telnet_avatar ls username of (uid, gid, home) \<Rightarrow>
        [(''LOGNAME'', username), (''USER'', username), (''SHELL'', ''/bin/bash''), (''HOME'', home), (''TMOUT'', ''1800''),
         (''PATH'', if uid = 0 then ''/usr/local/sbin:/usr/local/bin:/usr/sbin:/usr/bin:/sbin:/bin''
                    else ''/usr/local/bin:/usr/bin:/bin:/usr/local/games:/usr/games'')])"

end
