(* ===== verification/PyInt.thy ===== *)
theory PyInt
  imports Docs
begin

text \<open>
  Decimal numbers: \<open>int\<close> reads back what \<open>str\<close> writes, as long as it has no more digits than the interpreter allows.
\<close>

section \<open>Numbers\<close>

lemma length_show_nat: "n < 10 ^ k \<Longrightarrow> 0 < k \<Longrightarrow> length (show_nat n) \<le> k"
proof (induction k arbitrary: n)
  case (Suc k)
  show ?case
  proof (cases "n < 10")
    case True
    then show ?thesis by (subst show_nat.simps) simp
  next
    case False
    then have "k \<noteq> 0" using Suc.prems by (cases k) auto
    moreover have "n div 10 < 10 ^ k" using Suc.prems by (simp add: less_mult_imp_div_less mult.commute)
    ultimately show ?thesis using Suc.IH [of "n div 10"] False by (subst show_nat.simps) simp
  qed
qed simp

lemma dec_not_special: "is_dec c \<Longrightarrow> \<not> is_space c \<and> c \<noteq> CHR ''_'' \<and> c \<noteq> CHR ''+'' \<and> c \<noteq> CHR ''-'' \<and> c \<noteq> CHR '':''"
  by (auto simp: is_dec_def is_space_def code_def Let_def)

lemma split_on_single: "c \<notin> set s \<Longrightarrow> split_on c s = [s]"
  by (induction s) auto

lemma strip_id:
  assumes "s \<noteq> []" and "\<not> is_space (hd s)" and "\<not> is_space (last s)"
  shows "strip s = s"
proof -
  have a: "dropWhile is_space s = s" using assms(1,2) by (cases s) auto
  have "dropWhile is_space (rev s) = rev s" using assms(1,3) by (cases s rule: rev_cases) auto
  with a show ?thesis by (simp add: strip_def)
qed

lemma split_digits: "split_on (CHR ''_'') (show_nat n) = [show_nat n]"
  using show_nat_dec dec_not_special by (intro split_on_single) blast

lemma show_nat_strip: "strip (show_nat n) = show_nat n"
  using show_nat_dec [of _ n] dec_not_special by (intro strip_id) auto

lemma show_nat_hd: "hd (show_nat n) \<noteq> CHR ''+'' \<and> hd (show_nat n) \<noteq> CHR ''-''"
  using show_nat_dec [of "hd (show_nat n)" n] dec_not_special by auto

text \<open>The numbers \<open>int\<close> reads back.\<close>

definition short :: "int \<Rightarrow> bool" where
  "short i \<longleftrightarrow> nat \<bar>i\<bar> < 10 ^ max_str_digits"

lemma short_small: "\<bar>i\<bar> < 10 ^ 9 \<Longrightarrow> short i"
proof -
  assume "\<bar>i\<bar> < 10 ^ 9"
  then have "nat \<bar>i\<bar> < 10 ^ 9" by simp
  moreover have "(10::nat) ^ 9 \<le> 10 ^ max_str_digits" by (rule power_increasing) (simp_all add: max_str_digits_def)
  ultimately show ?thesis unfolding short_def by (rule less_le_trans)
qed

lemma show_nat_dec_all: "list_all is_dec (show_nat n)"
  by (auto simp: list_all_iff intro: show_nat_dec)

lemma length_short: "short i \<Longrightarrow> length (show_nat (nat \<bar>i\<bar>)) \<le> max_str_digits"
  unfolding short_def by (erule length_show_nat) (simp add: max_str_digits_def)

lemma py_int_show:
  assumes "short i"
  shows "py_int (show_int i) = Inr i"
proof (cases "i < 0")
  case False
  then have "length (show_nat (nat i)) \<le> max_str_digits" using length_short [OF assms] by simp
  with False show ?thesis
    using show_nat_hd [of "nat i"]
    by (simp add: py_int_def show_int_def show_nat_strip split_digits show_nat_dec_all dec_value_show_nat Let_def)
next
  case True
  then have "length (show_nat (nat (- i))) \<le> max_str_digits" using length_short [OF assms] by simp
  moreover have "strip (CHR ''-'' # show_nat (nat (- i))) = CHR ''-'' # show_nat (nat (- i))"
    using show_nat_dec [of "last (show_nat (nat (- i)))" "nat (- i)"] dec_not_special
    by (intro strip_id) (auto simp: is_space_def code_def)
  ultimately show ?thesis using True
    by (simp add: py_int_def show_int_def split_digits show_nat_dec_all dec_value_show_nat Let_def)
qed

lemma show_int_no_colon: "CHR '':'' \<notin> set (show_int i)"
  using show_nat_dec [of "CHR '':''"] dec_not_special [of "CHR '':''"] by (auto simp: show_int_def)

end
