(* ===== verification/PwdFacts.thy ===== *)
theory PwdFacts
  imports Pwd PyInt
begin

text \<open>
  Reading back what is written in the files of users and groups, and which identity a user gets by SSH
  and by Telnet.
\<close>

section \<open>The files\<close>

text \<open>How a line is written.\<close>

definition passwd_fields :: "pwentry \<Rightarrow> string list" where
  "passwd_fields e = [pw_name e, pw_passwd e, show_int (pw_uid e), show_int (pw_gid e), str_of (pw_gecos e), pw_dir e, pw_shell e]"

definition passwd_text :: "pwentry \<Rightarrow> string" where
  "passwd_text e = join_on '':'' (passwd_fields e) @ [CHR 0x0A]"

text \<open>No field contains a colon, the line neither begins nor ends with a blank, and is no comment.\<close>

definition writable :: "pwentry \<Rightarrow> bool" where
  "writable e \<longleftrightarrow>
     CHR '':'' \<notin> set (pw_name e @ pw_passwd e @ str_of (pw_gecos e) @ pw_dir e @ pw_shell e) \<and>
     (\<exists>g. pw_gecos e = PStr g) \<and>
     pw_name e \<noteq> [] \<and> \<not> is_space (hd (pw_name e)) \<and> hd (pw_name e) \<noteq> CHR ''#'' \<and>
     pw_shell e \<noteq> [] \<and> \<not> is_space (last (pw_shell e)) \<and> short (pw_uid e) \<and> short (pw_gid e)"

lemma strip_newline: "strip (s @ [CHR 0x0A]) = strip s"
  by (induction s) (auto simp: strip_def is_space_def code_def dropWhile_append split: if_splits)

lemma passwd_line_text: "writable e \<Longrightarrow> passwd_line (passwd_text e) = Some e"
proof -
  assume w: "writable e"
  let ?s = "join_on '':'' (passwd_fields e)"
  have ne: "?s \<noteq> []" "hd ?s = hd (pw_name e)" "last ?s = last (pw_shell e)"
    using w by (auto simp: passwd_fields_def writable_def)
  then have "strip (passwd_text e) = ?s"
    using w by (simp add: passwd_text_def strip_newline strip_id writable_def)
  moreover have "\<not> ignored ?s" using ne w by (cases ?s) (auto simp: ignored_def writable_def)
  moreover have "split_on (CHR '':'') ?s = passwd_fields e"
    using w show_int_no_colon by (intro split_on_join) (auto simp: passwd_fields_def writable_def)
  moreover have "id_of (show_int (pw_uid e)) = pw_uid e" "id_of (show_int (pw_gid e)) = pw_gid e"
    using w by (simp_all add: id_of_def py_int_show writable_def)
  moreover obtain g where "pw_gecos e = PStr g" using w by (auto simp: writable_def)
  ultimately show ?thesis by (cases e) (simp add: passwd_line_def passwd_fields_def Let_def)
qed

text \<open>The users written to the file are the users read from it, in their order, whatever comments, empty lines
  and lines with another number of fields stand between them; and a name is found with the first of them that has it.\<close>

theorem passwd_roundtrip:
  assumes "\<forall>e \<in> set es. writable e" and "\<forall>l \<in> set junk. passwd_line l = None"
  shows "load_passwd (concat (map (\<lambda>e. junk @ [passwd_text e]) es)) = es \<and>
    getpwnam name (load_passwd (concat (map (\<lambda>e. junk @ [passwd_text e]) es))) = found (find (\<lambda>e. pw_name e = name) es)"
proof -
  have "List.map_filter passwd_line junk = []" using assms(2) by (induction junk) (auto simp: map_filter_simps)
  moreover have "List.map_filter f (xs @ ys) = List.map_filter f xs @ List.map_filter f ys" for f :: "string \<Rightarrow> pwentry option" and xs ys
    by (simp add: List.map_filter_def)
  ultimately have "load_passwd (concat (map (\<lambda>e. junk @ [passwd_text e]) es)) = es"
    using assms(1) by (induction es) (auto simp: load_passwd_def map_filter_simps passwd_line_text)
  then show ?thesis by (simp add: getpwnam_def)
qed

theorem passwd_roundtrip_witness:
  "load_passwd [''# users'', ''root:x:0:0:root:/root:/bin/bash'' @ [CHR 0x0A], ''# users'', ''phil:x:1000:-1::/home/phil:/bin/sh'' @ [CHR 0x0A]] =
    [\<lparr>pw_name = ''root'', pw_passwd = ''x'', pw_gecos = PStr ''root'', pw_dir = ''/root'', pw_shell = ''/bin/bash'', pw_uid = 0, pw_gid = 0\<rparr>,
     \<lparr>pw_name = ''phil'', pw_passwd = ''x'', pw_gecos = PStr [], pw_dir = ''/home/phil'', pw_shell = ''/bin/sh'', pw_uid = 1000, pw_gid = -1\<rparr>]"
  (is "load_passwd [?c, ?l1, _, ?l2] = [?a, ?b]")
proof -
  have w: "writable ?a" "writable ?b" by (simp_all add: writable_def is_space_def code_def short_small)
  have t: "passwd_text ?a = ?l1" "passwd_text ?b = ?l2" by code_simp+
  have "passwd_line ?c = None" by code_simp
  with w t show ?thesis using passwd_roundtrip [of "[?a, ?b]" "[?c]"] by simp
qed

section \<open>Identities\<close>

text \<open>A user of the file has the same identity by SSH and by Telnet; another has a number of its own by SSH and
  1001 by Telnet, and in neither case does the number lead back to the name, unless the file happens to have it.\<close>

lemma known_user: "getpwnam username (load_passwd ls) = Inr e \<Longrightarrow>
   ssh_avatar seeded ls username = \<lparr>av_username = username, av_temporary = False, av_uid = pw_uid e, av_gid = pw_gid e, av_home = pw_dir e\<rparr> \<and>
   telnet_avatar ls username = (pw_uid e, pw_gid e, pw_dir e)"
  by (simp add: ssh_avatar_def telnet_avatar_def)

lemma unknown_user: "getpwnam username (load_passwd ls) = Inl x \<Longrightarrow>
   av_temporary (ssh_avatar seeded ls username) \<and> av_uid (ssh_avatar seeded ls username) = seeded username \<and>
   telnet_avatar ls username = (1001, 1001, ''/home'') \<and>
   (seeded username \<notin> pw_uid ` set (load_passwd ls) \<longrightarrow> getpwuid (seeded username) (load_passwd ls) = Inl KeyError)"
  by (auto simp: ssh_avatar_def telnet_avatar_def setpwentry_def Let_def getpwuid_def found_def split: option.splits
      dest!: find_Some_in_set)

text \<open>One line of the file of groups with another number of fields makes every lookup of a group fail.\<close>

lemma group_line_breaks: "load_group [''root:x:0:'', ''wheel:x:10'', ''users:x:100:''] = Inl ValueError"
  by code_simp

end
