(* ===== verification/Sftp.thy ===== *)
theory Sftp
  imports CowrieFs Pwd
begin

text \<open>
  File transfer: \<open>cowrie/shell/filetransfer.py\<close> on the virtual file system. A handle of a file holds the
  descriptor of the host file behind it; the bytes of that host file are part of the handle. What a client
  sends as attributes is a dictionary of numbers. The calls the protocol library makes are the operations
  of the two classes and of the server; the line \<open>lsLine\<close> makes of an entry is left out, the names of its owner
  and its group are what it is made of.
\<close>

section \<open>Paths\<close>

text \<open>\<open>os.path.join\<close> of two, \<open>os.path.normpath\<close> and \<open>os.path.abspath\<close>, which keeps a second slash
  at the front, but not a third.\<close>

definition os_join :: "string \<Rightarrow> string \<Rightarrow> string" where
  "os_join a b =
     (if prefix ''/'' b then b else if a = [] \<or> last a = CHR ''/'' then a @ b else a @ CHR ''/'' # b)"

fun norm_pieces :: "bool \<Rightarrow> string list \<Rightarrow> string list \<Rightarrow> string list" where
  "norm_pieces rooted [] new = new"
| "norm_pieces rooted (p # ps) new =
     (if p \<in> {[], ''.''} then norm_pieces rooted ps new
      else if p \<noteq> ''..'' \<or> \<not> rooted \<and> new = [] \<or> new \<noteq> [] \<and> last new = ''..'' then norm_pieces rooted ps (new @ [p])
      else norm_pieces rooted ps (butlast new))"

definition normpath :: "string \<Rightarrow> string" where
  "normpath path =
     (let slashes = (if prefix ''//'' path \<and> \<not> prefix ''///'' path then 2 else if prefix ''/'' path then 1 else 0);
          p = replicate slashes CHR ''/'' @ join_on ''/'' (norm_pieces (0 < slashes) (split_on CHR ''/'' path) []) in
      if path = [] \<or> p = [] then ''.'' else p)"

definition abspath :: "string \<Rightarrow> string \<Rightarrow> string" where
  "abspath getcwd path = normpath (if prefix ''/'' path then path else os_join getcwd path)"

text \<open>\<open>_absPath\<close>; the working directory of the honeypot itself counts when the home is relative.\<close>

definition absPath :: "string \<Rightarrow> string \<Rightarrow> string \<Rightarrow> string" where
  "absPath getcwd home path = abspath getcwd (os_join home path)"

section \<open>Attributes\<close>

type_synonym sattrs = "(string \<times> int) list"

text \<open>What a client is told: size, owner, group, permissions and times.\<close>

definition getAttrs_of :: "int \<times> int \<times> int \<times> int \<times> int \<Rightarrow> sattrs" where
  "getAttrs_of st = (case st of (mode, uid, gid, siz, ctime) \<Rightarrow>
     [(''size'', siz), (''uid'', uid), (''gid'', gid), (''permissions'', mode), (''atime'', ctime), (''mtime'', ctime)])"

definition then_do :: "'s \<times> unit result \<Rightarrow> ('s \<Rightarrow> 's \<times> unit result) \<Rightarrow> 's \<times> unit result" where
  "then_do r f = (case r of (s, Inl e) \<Rightarrow> (s, Inl e) | (s, Inr _) \<Rightarrow> f s)"

definition setAttrs :: "nat \<Rightarrow> string \<Rightarrow> sattrs \<Rightarrow> fs_state \<Rightarrow> fs_state \<times> unit result" where
  "setAttrs frames path attrs s =
     then_do (case (map_of attrs ''uid'', map_of attrs ''gid'') of
                (Some u, Some g) \<Rightarrow> chown frames path u g s | _ \<Rightarrow> (s, Inr ())) (\<lambda>s.
     then_do (case map_of attrs ''permissions'' of Some p \<Rightarrow> chmod frames path p s | None \<Rightarrow> (s, Inr ())) (\<lambda>s.
       case (map_of attrs ''atime'', map_of attrs ''mtime'') of
         (Some a, Some m) \<Rightarrow> utime frames path a m s | _ \<Rightarrow> (s, Inr ())))"

section \<open>Files\<close>

definition FXF_READ :: int where "FXF_READ = 0x01"
definition FXF_WRITE :: int where "FXF_WRITE = 0x02"
definition FXF_APPEND :: int where "FXF_APPEND = 0x04"
definition FXF_CREAT :: int where "FXF_CREAT = 0x08"
definition FXF_TRUNC :: int where "FXF_TRUNC = 0x10"
definition FXF_EXCL :: int where "FXF_EXCL = 0x20"

text \<open>The flags of the host system: O_WRONLY 1, O_RDWR 2, O_CREAT 64, O_EXCL 128, O_TRUNC 512, O_APPEND 1024.\<close>

definition has_flag :: "int \<Rightarrow> int \<Rightarrow> bool" where
  "has_flag flags f \<longleftrightarrow> flags AND f = f"

definition open_flags :: "int \<Rightarrow> int" where
  "open_flags flags =
     (let r = has_flag flags FXF_READ; w = has_flag flags FXF_WRITE;
          base = (if w \<and> flags AND FXF_READ = 0 then 1 else if w \<and> r then 2 else 0);
          opt = (\<lambda>f (n::int). if has_flag flags f then n else 0) in
      base OR opt FXF_APPEND 1024 OR opt FXF_CREAT 64 OR opt FXF_TRUNC 512 OR opt FXF_EXCL 128)"

record sftp_file =
  sf_name :: string
  sf_fd :: "int option"
  sf_flags :: int
  sf_received :: int
  sf_contents :: "string option"
  sf_host :: string

text \<open>The host: how \<open>open\<close> answers a name and a mode, what the file it opens holds, and the formatted time.\<close>

record sftp_host =
  sh_fs :: fs_host
  sh_open :: "string \<Rightarrow> int \<Rightarrow> int result"
  sh_initial :: "string \<Rightarrow> string"
  sh_stamp :: string
  sh_now :: int
  sh_exists :: "string \<Rightarrow> bool"
  sh_sha256 :: "string \<Rightarrow> string"
  sh_limit :: int
  sh_cwd :: string

definition sftp_open :: "nat \<Rightarrow> sftp_host \<Rightarrow> string \<Rightarrow> string \<Rightarrow> int \<Rightarrow> sattrs \<Rightarrow> fs_state \<Rightarrow> fs_state \<times> sftp_file result" where
  "sftp_open frames h home filename flags attrs s =
     (let mode = (case map_of attrs ''permissions'' of Some p \<Rightarrow> p | None \<Rightarrow> 511);
          attrs = filter (\<lambda>(k, _). k \<noteq> ''permissions'') attrs in
      case fs_open frames (sh_fs h) (sh_stamp h) (sh_open h) (sh_now h) filename (open_flags flags) mode s of
        (s, Inl e) \<Rightarrow> (s, Inl e)
      | (s, Inr fd) \<Rightarrow>
          (case (if attrs \<noteq> [] then setAttrs frames (absPath (sh_cwd h) home filename) attrs s else (s, Inr ())) of
             (s, Inl e) \<Rightarrow> (s, Inl e)
           | (s, Inr _) \<Rightarrow>
               let f = \<lparr>sf_name = filename, sf_fd = fd, sf_flags = open_flags flags, sf_received = 0, sf_contents = None,
                         sf_host = sh_initial h (hostfile_of (sh_fs h) (sh_stamp h) filename)\<rparr> in
               if has_flag flags FXF_READ
               then (s, bindE (file_contents frames (sh_fs h) filename s) (\<lambda>c. Inr (f\<lparr>sf_contents := Some c\<rparr>)))
               else (s, Inr f)))"

definition openFile :: "nat \<Rightarrow> sftp_host \<Rightarrow> string \<Rightarrow> string \<Rightarrow> int \<Rightarrow> sattrs \<Rightarrow> fs_state \<Rightarrow> fs_state \<times> sftp_file result" where
  "openFile frames h home filename = sftp_open frames h home (absPath (sh_cwd h) home filename)"

text \<open>Bytes written at an offset; a gap is filled with zeros. A file opened for appending is written at its end.\<close>

definition write_at :: "nat \<Rightarrow> string \<Rightarrow> string \<Rightarrow> string" where
  "write_at offset data buf =
     (if data = [] then buf
      else take offset buf @ replicate (offset - length buf) (CHR 0x00) @ data @ drop (offset + length data) buf)"

definition writeChunk :: "sftp_host \<Rightarrow> nat \<Rightarrow> string \<Rightarrow> sftp_file \<Rightarrow> sftp_file \<times> unit result" where
  "writeChunk h offset data f =
     (let f = f\<lparr>sf_received := sf_received f + int (length data)\<rparr> in
      if sh_limit h \<noteq> 0 \<and> sh_limit h < sf_received f then (f, Inl (RuntimeError ''Quota exceeded''))
      else case sf_fd f of
        None \<Rightarrow> (f, Inl TypeError)
      | Some _ \<Rightarrow>
          (f\<lparr>sf_host := write_at (if sf_flags f AND 1024 = 1024 then length (sf_host f) else offset) data (sf_host f)\<rparr>, Inr ()))"

definition readChunk :: "nat \<Rightarrow> nat \<Rightarrow> sftp_file \<Rightarrow> string result" where
  "readChunk offset len f =
     (case sf_contents f of None \<Rightarrow> Inl AttributeError | Some c \<Rightarrow> Inr (take len (drop offset c)))"

definition closeFile :: "nat \<Rightarrow> sftp_host \<Rightarrow> sftp_file \<Rightarrow> fs_state \<Rightarrow> fs_state \<times> host_op list \<times> unit result" where
  "closeFile frames h f s =
     (case (if 0 < sf_received f then update_size frames (sf_name f) (sf_received f) s else (s, Inr ())) of
        (s, Inl e) \<Rightarrow> (s, [], Inl e)
      | (s, Inr _) \<Rightarrow>
          (case sf_fd f of
             None \<Rightarrow> (s, [], Inr ())
           | Some fd \<Rightarrow> fs_close frames (sh_fs h) (sh_exists h) (sh_sha256 h (sf_host f)) fd s))"

text \<open>A handle's \<open>getAttrs\<close> hands what \<open>stat\<close> returned to the method that takes a path and a flag.\<close>

definition handle_getAttrs :: "nat \<Rightarrow> sftp_host \<Rightarrow> sftp_file \<Rightarrow> fs_state \<Rightarrow> sattrs result" where
  "handle_getAttrs frames h f s = bindE (stat frames (sh_now h) (fs_root s) (sf_name f) True) (\<lambda>_. Inl TypeError)"

section \<open>Directories\<close>

record sftp_dir =
  sd_files :: "string list"
  sd_dir :: string

definition openDirectory :: "nat \<Rightarrow> sftp_host \<Rightarrow> string \<Rightarrow> string \<Rightarrow> fs_state \<Rightarrow> sftp_dir result" where
  "openDirectory frames h home path s =
     (let d = absPath (sh_cwd h) home path in
      bindE (listdir frames (fs_root s) d) (\<lambda>files. Inr \<lparr>sd_files = ''.'' # ''..'' # files, sd_dir = d\<rparr>))"

text \<open>The path an entry of the list is looked up with.\<close>

definition entry_path :: "string \<Rightarrow> string \<Rightarrow> string" where
  "entry_path d f =
     (if f = ''..'' then CHR ''/'' # join_on ''/'' (butlast (split_on CHR ''/'' (strip d)))
      else if f = ''.'' then d else os_join d f)"

text \<open>The next entry, with the names of its owner and its group: the two files are read anew for every entry, and an
  owner or a group that is not in them raises.\<close>

definition next_entry :: "nat \<Rightarrow> sftp_host \<Rightarrow> string list \<Rightarrow> string list \<Rightarrow> fs_state \<Rightarrow> sftp_dir \<Rightarrow>
    sftp_dir \<times> (string \<times> string \<times> string \<times> sattrs) option result" where
  "next_entry frames h passwd groups_text s d =
     (case sd_files d of
        [] \<Rightarrow> (d, Inr None)
      | f # fs \<Rightarrow>
          (d\<lparr>sd_files := fs\<rparr>,
           bindE (stat frames (sh_now h) (fs_root s) (entry_path (sd_dir d) f) False) (\<lambda>st.
             case st of (mode, uid, gid, siz, ctime) \<Rightarrow>
             bindE (getpwuid uid (load_passwd passwd)) (\<lambda>u.
             bindE (load_group groups_text) (\<lambda>gs.
             bindE (getgrgid gid gs) (\<lambda>g. Inr (Some (f, pw_name u, gr_name g, getAttrs_of st))))))))"

text \<open>The library asks until there are no more; an exception ends the listing.\<close>

function list_directory :: "nat \<Rightarrow> sftp_host \<Rightarrow> string list \<Rightarrow> string list \<Rightarrow> fs_state \<Rightarrow> sftp_dir \<Rightarrow>
    (string \<times> string \<times> string \<times> sattrs) list result" where
  "list_directory frames h passwd groups_text s d =
     (case next_entry frames h passwd groups_text s d of
        (d', Inl e) \<Rightarrow> Inl e
      | (d', Inr None) \<Rightarrow> Inr []
      | (d', Inr (Some x)) \<Rightarrow> bindE (list_directory frames h passwd groups_text s d') (\<lambda>xs. Inr (x # xs)))"
  by pat_completeness auto
termination
  by (relation "measure (\<lambda>(frames, h, passwd, groups_text, s, d). length (sd_files d))")
    (auto simp: next_entry_def split: list.splits)

declare list_directory.simps [simp del]

section \<open>The server\<close>

text \<open>The requests that change the tree, and what is answered to the others.\<close>

datatype sftp_request =
    RemoveFile string
  | RenameFile string string
  | MakeDirectory string sattrs
  | RemoveDirectory string
  | SetAttrs string sattrs

fun sftp_call :: "nat \<Rightarrow> sftp_host \<Rightarrow> string \<Rightarrow> sftp_request \<Rightarrow> fs_state \<Rightarrow> fs_state \<times> unit result" where
  "sftp_call frames h home (RemoveFile f) s = remove frames (absPath (sh_cwd h) home f) s"
| "sftp_call frames h home (RenameFile a b) s =
     rename frames (absPath (sh_cwd h) home a) (absPath (sh_cwd h) home b) s"
| "sftp_call frames h home (MakeDirectory p attrs) s =
     (let path = absPath (sh_cwd h) home p in
      then_do (mkdir2 frames path (sh_now h) s) (setAttrs frames path attrs))"
| "sftp_call frames h home (RemoveDirectory p) s =
     (case rmdir frames (absPath (sh_cwd h) home p) s of (s, r) \<Rightarrow> (s, bindE r (\<lambda>_. Inr ())))"
| "sftp_call frames h home (SetAttrs p attrs) s = setAttrs frames (absPath (sh_cwd h) home p) attrs s"

definition sftp_getAttrs :: "nat \<Rightarrow> sftp_host \<Rightarrow> string \<Rightarrow> string \<Rightarrow> bool \<Rightarrow> fs_state \<Rightarrow> sattrs result" where
  "sftp_getAttrs frames h home path followLinks s =
     bindE (stat frames (sh_now h) (fs_root s) (absPath (sh_cwd h) home path) followLinks) (\<lambda>st. Inr (getAttrs_of st))"

definition readLink :: "nat \<Rightarrow> sftp_host \<Rightarrow> string \<Rightarrow> string \<Rightarrow> fs_state \<Rightarrow> string option result" where
  "readLink frames h home path s = readlink frames (fs_root s) (absPath (sh_cwd h) home path)"

definition makeLink :: "fs_state \<Rightarrow> fs_state \<times> unit result" where
  "makeLink s = (s, Inl (RuntimeError ''NotImplementedError''))"

end
