(* ===== verification/SftpFacts.thy ===== *)
theory SftpFacts
  imports Sftp CowrieFsFacts
begin

text \<open>
  File transfer: a path means the same to the SFTP server as to the shell, one case apart; and what an
  upload leaves behind, in the virtual file system and on the host.
\<close>

declare getfile.simps [simp del]

section \<open>Paths\<close>

lemma norm_pieces_push:
  "\<forall>x \<in> set new. x \<noteq> ''..'' \<Longrightarrow> norm_pieces True ps new = push_pieces ps new"
proof (induction ps arbitrary: new)
  case (Cons p ps)
  have b: "\<forall>x \<in> set (butlast new). x \<noteq> ''..''" using Cons.prems by (auto dest: in_set_butlastD)
  have l: "new \<noteq> [] \<Longrightarrow> last new \<noteq> ''..''" using Cons.prems by (auto dest: last_in_set)
  consider "p = ''..''" | "p \<in> {[], ''.''}" | "p \<notin> {''..'', [], ''.''}" by blast
  then show ?case
  proof cases
    case 1
    with Cons.IH [OF b] l show ?thesis by auto
  next
    case 2
    with Cons show ?thesis by auto
  next
    case 3
    with Cons.IH [of "new @ [p]"] Cons.prems show ?thesis by auto
  qed
qed simp

lemma split_on_append: "split_on c (s @ c # t) = split_on c s @ split_on c t"
proof (induction s)
  case (Cons x s)
  then show ?case by (cases "split_on c s") auto
qed simp

text \<open>What \<open>normpath\<close> makes of an absolute path: the canonical path, after a second slash if there were two.\<close>

lemma normpath_rooted:
  assumes "prefix ''/'' p"
  shows "normpath p = (if prefix ''//'' p \<and> \<not> prefix ''///'' p then ''/'' else []) @ join_path (push_pieces (split_on CHR ''/'' p) [])"
  using assms by (auto simp: normpath_def Let_def join_path_def norm_pieces_push numeral_2_eq_2)

lemma push_home: "\<forall>x \<in> set cs. plain x \<Longrightarrow> push_pieces (split_on CHR ''/'' (join_path cs)) [] = cs"
proof (cases "cs = []")
  case False
  assume c: "\<forall>x \<in> set cs. plain x"
  then have "split_on CHR ''/'' (join_path cs) = [] # cs" using False by (intro split_join_path) (auto simp: plain_def)
  with push_pieces_id [OF c, of "[]"] show ?thesis by (simp add: push_pieces_empty)
qed (simp add: join_path_def)

lemma prefix_slash: "prefix ''/'' p \<longleftrightarrow> p \<noteq> [] \<and> hd p = CHR ''/''"
  by (cases p) auto

text \<open>C19. To the SFTP server a path means what it means to a shell in the home directory: the same canonical path,
  whatever dots, double dots and repeated slashes it contains. The exceptions are a path that begins with exactly two slashes, of
  which one stays, and one that begins with a tilde, which only the shell expands.\<close>

theorem sftp_path_agrees:
  assumes "\<forall>x \<in> set cs. plain x" and "p \<noteq> []" and "\<not> prefix ''~/'' p"
  shows "resolve_path (join_path cs) p (join_path cs) =
    Inr (if prefix ''//'' p \<and> \<not> prefix ''///'' p then tl (absPath cwd (join_path cs) p) else absPath cwd (join_path cs) p)"
proof (cases "prefix ''/'' p")
  case True
  then obtain l where l: "p = CHR ''/'' # l" by (cases p) auto
  have "resolve_path (join_path cs) p (join_path cs) = Inr (join_path (push_pieces (split_on CHR ''/'' p) []))"
    using assms(3) by (simp add: resolve_path_def push_pieces_rstrip l)
  moreover have "absPath cwd (join_path cs) p = normpath p" using True by (simp add: absPath_def abspath_def os_join_def)
  ultimately show ?thesis using normpath_rooted [OF True] by simp
next
  case False
  let ?h = "join_path cs"
  have r: "resolve_path ?h p ?h = Inr (join_path (push_pieces (split_on CHR ''/'' p) cs))"
  proof -
    have q: "(if prefix ''~/'' p then ?h @ drop 1 p else p) = p" using assms(3) by (simp only: if_False)
    obtain a l where l: "p = a # l" "a \<noteq> CHR ''/''" using assms(2) False by (cases p) auto
    show ?thesis unfolding resolve_path_def q Let_def push_pieces_rstrip split_canonical [OF assms(1)]
      using l by (simp only: list.case if_False)
  qed
  have j: "os_join ?h p = (if cs = [] then CHR ''/'' # p else ?h @ CHR ''/'' # p)"
  proof (cases "cs = []")
    case False
    obtain d t where "join_on ''/'' cs = t @ [d]" "d \<noteq> CHR ''/''" using join_on_last [OF False] assms(1) by auto
    then have "last ?h \<noteq> CHR ''/''" "?h \<noteq> []" by (simp_all add: join_path_def)
    with False \<open>\<not> prefix ''/'' p\<close> show ?thesis by (simp add: os_join_def)
  qed (use False in \<open>simp add: os_join_def join_path_def\<close>)
  have split: "push_pieces (split_on CHR ''/'' (os_join ?h p)) [] = push_pieces (split_on CHR ''/'' p) cs"
    unfolding j using push_home [OF assms(1)] by (simp add: push_pieces_empty split_on_append push_pieces_append)
  have one: "prefix ''/'' (os_join ?h p) \<and> \<not> prefix ''//'' (os_join ?h p)"
  proof (cases "cs = []")
    case True
    with False show ?thesis unfolding j by simp
  next
    case False
    obtain c s where "join_on ''/'' cs = c # s" "c \<noteq> CHR ''/''" using join_on_hd [OF False] assms(1) by auto
    with False show ?thesis unfolding j by (simp add: join_path_def)
  qed
  have two: "\<not> prefix ''//'' p" using False by (auto simp: prefix_def)
  show ?thesis unfolding r absPath_def abspath_def using one two split normpath_rooted [of "os_join ?h p"] by simp
qed

theorem sftp_path_agrees_witness:
  "absPath ''/srv'' ''/home/phil'' ''a/../.././//x/'' = ''/home/x'' \<and>
   resolve_path ''/home/phil'' ''a/../.././//x/'' ''/home/phil'' = Inr ''/home/x''"
proof -
  have h: "join_path [''home'', ''phil''] = ''/home/phil''" by (simp add: join_path_def)
  have a: "absPath ''/srv'' ''/home/phil'' ''a/../.././//x/'' = ''/home/x''" by code_simp
  have "\<forall>x \<in> set [''home'', ''phil'']. plain x" by (simp add: plain_def)
  from sftp_path_agrees [OF this, of "''a/../.././//x/''" "''/srv''"] a show ?thesis by (simp add: h)
qed

section \<open>An upload\<close>

text \<open>The chunks of an upload, and the bytes they have in all.\<close>

definition write_all :: "sftp_host \<Rightarrow> (nat \<times> string) list \<Rightarrow> sftp_file \<Rightarrow> sftp_file" where
  "write_all h chunks f = fold (\<lambda>(offset, data) f. fst (writeChunk h offset data f)) chunks f"

definition total :: "(nat \<times> string) list \<Rightarrow> int" where
  "total chunks = (\<Sum>(offset, data) \<leftarrow> chunks. int (length data))"

lemma write_all_fields:
  "sf_name (write_all h chunks f) = sf_name f \<and> sf_fd (write_all h chunks f) = sf_fd f \<and>
   sf_received (write_all h chunks f) = sf_received f + total chunks"
proof (induction chunks arbitrary: f)
  case (Cons c chunks)
  obtain offset data where c: "c = (offset, data)" by (cases c)
  have "sf_name (fst (writeChunk h offset data f)) = sf_name f \<and> sf_fd (fst (writeChunk h offset data f)) = sf_fd f \<and>
      sf_received (fst (writeChunk h offset data f)) = sf_received f + int (length data)"
    by (simp add: writeChunk_def Let_def split: option.splits)
  with Cons.IH [of "fst (writeChunk h offset data f)"] show ?case by (simp add: write_all_def total_def c)
qed (simp add: write_all_def total_def)

lemma total_nonneg: "0 \<le> total chunks"
  by (induction chunks) (auto simp: total_def)

lemma upload_flags: "open_flags 26 = 577" "has_flag 26 FXF_READ = False"
  by code_simp+

lemma hostfile_not_Nil: "hostfile_of h stamp f \<noteq> []"
  by (simp add: hostfile_of_def)

text \<open>Opening for writing: the file is there, empty, with the host file behind it.\<close>

lemma sftp_open_new:
  fixes h :: sftp_host and path :: string
  defines "host \<equiv> hostfile_of (sh_fs h) (sh_stamp h) path"
  assumes g: "good (fs_root s)" and plain: "\<forall>q \<in> set (ps @ [x]). plain q" and path: "path = join_path (ps @ [x])"
    and room: "fs_newcount s \<le> 10000" "\<not> list_ex (\<lambda>p. prefix p (join_path ps)) SPECIAL_PATHS" and dir: "view_of (fs_root s) ps \<noteq> None"
    and fd: "sh_open h host (511 AND NOT 111) = Inr fd" and isf: "h_isfile (sh_fs h) host"
  obtains s1 f where "sftp_open (Suc k) h home path 26 [] s = (s1, Inr f)"
    and "sf_name f = path" and "sf_fd f = Some fd" and "sf_received f = 0"
    and "good (fs_root s1)" and "map_of (fs_tempfiles s1) fd = Some host" and "map_of (fs_filenames s1) fd = Some path"
    and "view_of (fs_root s1) = put_view (ps @ [x]) ((A (new_node x T_FILE 0 0 0 (S_IFREG OR 511) (sh_now h)))\<lparr>A_REALFILE := Some host\<rparr>) (view_of (fs_root s))"
proof -
  let ?y = "A (new_node x T_FILE 0 0 0 (S_IFREG OR 511) (sh_now h))"
  obtain s0 r where mk: "mkfile (Suc k) path 0 0 0 (S_IFREG OR 511) (sh_now h) s = (s0, r)" by fastforce
  have "call_ok (Mkfile ps x 0 0 0 (S_IFREG OR 511) (sh_now h))" using plain by simp
  from sim_mkfile [OF g this, of k] room dir mk
  have s0: "good (fs_root s0)" "view_of (fs_root s0) = put_view (ps @ [x]) ?y (view_of (fs_root s))" and r: "r = Inr True"
    by (simp_all add: simulates_def abs_state_def path)
  obtain l where l: "locate (fs_root s0) (ps @ [x]) = Some l"
    using view_None [of "fs_root s0" "ps @ [x]"] by (auto simp: s0(2) put_view_def)
  from view_Some [OF l] have a: "A (node_at (fs_root s0) l) = ?y" by (simp add: s0(2) put_view_def)
  define root where "root = update_at l (set_attrs (\<lambda>a. a\<lparr>A_REALFILE := Some host\<rparr>)) (fs_root s0)"
  have u: "update_realfile (sh_fs h) l host (fs_root s0) = root"
    using isf by (simp add: update_realfile_def Let_def a new_node_def root_def)
  have root: "good root" "view_of root = put_view (ps @ [x]) (?y\<lparr>A_REALFILE := Some host\<rparr>) (view_of (fs_root s))"
    using set_at [OF s0(1) l, of "\<lambda>a. a\<lparr>A_REALFILE := Some host\<rparr>"] by (auto simp: root_def s0(2) set_view_def put_view_def)
  let ?s1 = "s0\<lparr>fs_root := root, fs_tempfiles := (fd, host) # filter (\<lambda>(k, _). k \<noteq> fd) (fs_tempfiles s0),
      fs_filenames := (fd, path) # filter (\<lambda>(k, _). k \<noteq> fd) (fs_filenames s0)\<rparr>"
  have "fs_open (Suc k) (sh_fs h) (sh_stamp h) (sh_open h) (sh_now h) path 577 511 s = (?s1, Inr (Some fd))"
    using fd getfile_good [OF s0(1) plain, of k True] l
    by (simp add: fs_open_def mk r Let_def u flip: host_def path)
  then have "sftp_open (Suc k) h home path 26 [] s = (?s1, Inr \<lparr>sf_name = path, sf_fd = Some fd, sf_flags = 577, sf_received = 0,
      sf_contents = None, sf_host = sh_initial h host\<rparr>)"
    by (simp add: sftp_open_def upload_flags Let_def flip: host_def)
  from that [OF this] root show thesis by simp
qed

text \<open>C18. A file uploaded into an existing directory, in any number of chunks, is there after it is closed, with the
  number of bytes received as its size, and nothing else has changed. But what it contains is lost to the
  attacker: the file names a host file that closing has just removed or renamed.\<close>

theorem uploaded_file:
  assumes "good (fs_root s)" and "\<forall>q \<in> set (ps @ [x]). plain q" and "absPath (sh_cwd h) home p = join_path (ps @ [x])"
    and "fs_newcount s \<le> 10000" and "\<not> list_ex (\<lambda>p. prefix p (join_path ps)) SPECIAL_PATHS" and "view_of (fs_root s) ps \<noteq> None"
    and "host = hostfile_of (sh_fs h) (sh_stamp h) (join_path (ps @ [x]))"
    and "sh_open h host (511 AND NOT 111) = Inr fd" and "fd \<noteq> 0" and "h_isfile (sh_fs h) host"
  shows "\<exists>s1 f s2 stored. openFile (Suc k) h home p 26 [] s = (s1, Inr f) \<and>
    closeFile (Suc k) h (write_all h chunks f) s1 =
      (s2, [if sh_exists h stored then OsRemove host else OsRename host stored, OsClose fd], Inr ()) \<and>
    good (fs_root s2) \<and>
    view_of (fs_root s2) = put_view (ps @ [x])
      \<lparr>A_NAME = x, A_TYPE = T_FILE, A_UID = 0, A_GID = 0, A_SIZE = total chunks, A_MODE = S_IFREG OR 511,
       A_CTIME = sh_now h, A_TARGET = None, A_REALFILE = Some host\<rparr> (view_of (fs_root s))"
proof -
  let ?path = "join_path (ps @ [x])"
  obtain s1 f where o: "sftp_open (Suc k) h home ?path 26 [] s = (s1, Inr f)"
    and f: "sf_name f = ?path" "sf_fd f = Some fd" "sf_received f = 0"
    and s1: "good (fs_root s1)" "map_of (fs_tempfiles s1) fd = Some host" "map_of (fs_filenames s1) fd = Some ?path"
    and v1: "view_of (fs_root s1) = put_view (ps @ [x]) ((A (new_node x T_FILE 0 0 0 (S_IFREG OR 511) (sh_now h)))\<lparr>A_REALFILE := Some host\<rparr>) (view_of (fs_root s))"
    using sftp_open_new [OF assms(1,2) refl assms(4-6) assms(8,10) [unfolded assms(7)]] assms(7) by metis
  define f' where "f' = write_all h chunks f"
  have f': "sf_name f' = ?path" "sf_fd f' = Some fd" "sf_received f' = total chunks"
    using write_all_fields [of h chunks f] f by (simp_all add: f'_def)
  define stored where "stored = h_download_path (sh_fs h) @ CHR ''/'' # sh_sha256 h (sf_host f')"
  let ?a = "\<lparr>A_NAME = x, A_TYPE = T_FILE, A_UID = 0, A_GID = 0, A_SIZE = total chunks, A_MODE = S_IFREG OR 511,
       A_CTIME = sh_now h, A_TARGET = None, A_REALFILE = Some host\<rparr>"
  obtain s2 where u: "(if 0 < sf_received f' then update_size (Suc k) (sf_name f') (sf_received f') s1 else (s1, Inr ())) = (s2, Inr ())"
    and s2: "good (fs_root s2)" "fs_tempfiles s2 = fs_tempfiles s1" "fs_filenames s2 = fs_filenames s1"
      "view_of (fs_root s2) = put_view (ps @ [x]) ?a (view_of (fs_root s))"
  proof (cases "0 < total chunks")
    case False
    then have "total chunks = 0" using total_nonneg [of chunks] by simp
    with that [of s1] s1(1) v1 show thesis by (simp add: f' new_node_def)
  next
    case True
    obtain s2 r where us: "update_size (Suc k) ?path (total chunks) s1 = (s2, r)" by fastforce
    have ok: "call_ok (Update_size (ps @ [x]) (total chunks))" using assms(2) by simp
    have "view_of (fs_root s1) (ps @ [x]) = Some ((A (new_node x T_FILE 0 0 0 (S_IFREG OR 511) (sh_now h)))\<lparr>A_REALFILE := Some host\<rparr>)"
      by (simp add: v1 put_view_def)
    with sim_update_size [OF s1(1) ok, of k] us
    have "good (fs_root s2)" "r = Inr ()" "view_of (fs_root s2) = set_view (ps @ [x]) (\<lambda>a. a\<lparr>A_SIZE := total chunks\<rparr>) (view_of (fs_root s1))"
      by (auto simp: simulates_def abs_state_def ok_unit_def new_node_def split: sum.splits)
    moreover have "fs_tempfiles s2 = fs_tempfiles s1" "fs_filenames s2 = fs_filenames s1"
      using us by (auto simp: update_size_def split: sum.splits option.splits if_splits)
    moreover have "set_view (ps @ [x]) (\<lambda>a. a\<lparr>A_SIZE := total chunks\<rparr>) (view_of (fs_root s1)) = put_view (ps @ [x]) ?a (view_of (fs_root s))"
      by (auto simp: v1 set_view_def put_view_def new_node_def)
    ultimately show thesis using True us that [of s2] by (simp add: f')
  qed
  obtain l where l: "locate (fs_root s2) (ps @ [x]) = Some l"
    using view_None [of "fs_root s2" "ps @ [x]"] by (auto simp: s2(4) put_view_def)
  from view_Some [OF l] have a: "A (node_at (fs_root s2) l) = ?a" by (simp add: s2(4) put_view_def)
  have same: "update_realfile (sh_fs h) l stored (fs_root s2) = fs_root s2"
    using hostfile_not_Nil by (simp add: update_realfile_def a assms(7))
  obtain s3 where c: "closeFile (Suc k) h f' s1 = (s3, [if sh_exists h stored then OsRemove host else OsRename host stored, OsClose fd], Inr ())"
    and s3: "fs_root s3 = fs_root s2"
    unfolding closeFile_def u using that getfile_good [OF s2(1) assms(2), of k True] l s1(2,3) assms(9)
    by (simp add: f'(2) fs_close_def s2(2,3) Let_def same flip: stored_def)
  show ?thesis unfolding openFile_def assms(3)
    by (intro exI [of _ s1] exI [of _ f] exI [of _ s3] exI [of _ stored] conjI o)
      (use c s2(1,4) s3 in \<open>simp_all flip: f'_def\<close>)
qed

definition demo_host :: sftp_host where
  "demo_host = \<lparr>sh_fs = \<lparr>h_isfile = (\<lambda>_. True), h_read = (\<lambda>_. []), h_download_path = ''dl'', h_data_path = ''data''\<rparr>,
     sh_open = (\<lambda>_ _. Inr 7), sh_initial = (\<lambda>_. []), sh_stamp = ''20260101-000000'', sh_now = 5, sh_exists = (\<lambda>_. False),
     sh_sha256 = (\<lambda>s. s), sh_limit = 0, sh_cwd = ''/srv''\<rparr>"

theorem uploaded_file_witness:
  "\<exists>s1 f s2. openFile 3 demo_host ''/root'' ''/tmp/x'' 26 [] demo_fs = (s1, Inr f) \<and>
    closeFile 3 demo_host (write_all demo_host [(0, ''ab''), (1, ''cd'')] f) s1 =
      (s2, [OsRename ''dl/20260101-000000_sftp__tmp_x'' ''dl/acd'', OsClose 7], Inr ()) \<and>
    map_option A_SIZE (view_of (fs_root s2) [''tmp'', ''x'']) = Some 4"
proof -
  have h: "sh_exists demo_host = (\<lambda>_. False)" by (simp add: demo_host_def)
  have j: "join_path ([''tmp''] @ [''x'']) = ''/tmp/x''" "join_path [''tmp''] = ''/tmp''" by (simp_all add: join_path_def)
  have "good (fs_root demo_fs)" "\<forall>q \<in> set ([''tmp''] @ [''x'']). plain q" by (simp_all add: demo_fs_def new_node_def plain_def)
  moreover have "absPath (sh_cwd demo_host) ''/root'' ''/tmp/x'' = join_path ([''tmp''] @ [''x''])"
    "\<not> list_ex (\<lambda>p. prefix p (join_path [''tmp''])) SPECIAL_PATHS" unfolding j by code_simp+
  moreover have "fs_newcount demo_fs \<le> 10000" "view_of (fs_root demo_fs) [''tmp''] \<noteq> None"
    by (simp_all add: demo_fs_def new_node_def)
  moreover have "''dl/20260101-000000_sftp__tmp_x'' = hostfile_of (sh_fs demo_host) (sh_stamp demo_host) (join_path ([''tmp''] @ [''x'']))"
    unfolding j by code_simp
  moreover have "sh_open demo_host n (511 AND NOT 111) = Inr 7" "h_isfile (sh_fs demo_host) n" for n by (simp_all add: demo_host_def)
  ultimately have "\<exists>s1 f s2 stored. openFile (Suc 2) demo_host ''/root'' ''/tmp/x'' 26 [] demo_fs = (s1, Inr f) \<and>
      closeFile (Suc 2) demo_host (write_all demo_host [(0, ''ab''), (1, ''cd'')] f) s1 =
        (s2, [if sh_exists demo_host stored then OsRemove ''dl/20260101-000000_sftp__tmp_x'' else OsRename ''dl/20260101-000000_sftp__tmp_x'' stored, OsClose 7], Inr ()) \<and>
      good (fs_root s2) \<and> view_of (fs_root s2) = put_view ([''tmp''] @ [''x''])
        \<lparr>A_NAME = ''x'', A_TYPE = T_FILE, A_UID = 0, A_GID = 0, A_SIZE = total [(0, ''ab''), (1, ''cd'')], A_MODE = S_IFREG OR 511,
         A_CTIME = sh_now demo_host, A_TARGET = None, A_REALFILE = Some ''dl/20260101-000000_sftp__tmp_x''\<rparr> (view_of (fs_root demo_fs))"
    by (intro uploaded_file) simp_all
  then obtain s1 f s2 stored where o: "openFile (Suc 2) demo_host ''/root'' ''/tmp/x'' 26 [] demo_fs = (s1, Inr f)"
    and c: "closeFile (Suc 2) demo_host (write_all demo_host [(0, ''ab''), (1, ''cd'')] f) s1 =
        (s2, [if sh_exists demo_host stored then OsRemove ''dl/20260101-000000_sftp__tmp_x'' else OsRename ''dl/20260101-000000_sftp__tmp_x'' stored, OsClose 7], Inr ())"
    and v: "view_of (fs_root s2) = put_view ([''tmp''] @ [''x''])
        \<lparr>A_NAME = ''x'', A_TYPE = T_FILE, A_UID = 0, A_GID = 0, A_SIZE = total [(0, ''ab''), (1, ''cd'')], A_MODE = S_IFREG OR 511,
         A_CTIME = sh_now demo_host, A_TARGET = None, A_REALFILE = Some ''dl/20260101-000000_sftp__tmp_x''\<rparr> (view_of (fs_root demo_fs))"
    by blast
  have three: "Suc 2 = 3" by simp
  have size4: "map_option A_SIZE (view_of (fs_root s2) [''tmp'', ''x'']) = Some 4" by (simp only: v) (simp add: put_view_def total_def)
  have "(case openFile 3 demo_host ''/root'' ''/tmp/x'' 26 [] demo_fs of (s1, Inr f) \<Rightarrow>
      fst (snd (closeFile 3 demo_host (write_all demo_host [(0, ''ab''), (1, ''cd'')] f) s1)) | _ \<Rightarrow> []) =
      [OsRename ''dl/20260101-000000_sftp__tmp_x'' ''dl/acd'', OsClose 7]" by code_simp
  then have "stored = ''dl/acd''" using o c by (simp add: three h del: One_nat_def)
  then have "closeFile 3 demo_host (write_all demo_host [(0, ''ab''), (1, ''cd'')] f) s1 =
      (s2, [OsRename ''dl/20260101-000000_sftp__tmp_x'' ''dl/acd'', OsClose 7], Inr ())"
    using c by (simp add: three h del: One_nat_def)
  with o [unfolded three] size4 show ?thesis by blast
qed

text \<open>A chunk refused for the quota still counts: closing makes it part of the size.\<close>

lemma refused_chunk_counts:
  assumes "sh_limit h \<noteq> 0" and "sh_limit h < sf_received f + int (length data)"
  shows "writeChunk h offset data f = (f\<lparr>sf_received := sf_received f + int (length data)\<rparr>, Inl (RuntimeError ''Quota exceeded''))"
  using assms by (simp add: writeChunk_def Let_def)

text \<open>A listing that comes to its end has every entry, and the owner of every entry is in the file of users. So a
  client that gives a file away to any other number, which it may, has broken the listing of its directory.\<close>

lemma listing_needs_owners:
  "list_directory k h passwd groups_text s d = Inr xs \<Longrightarrow>
   map fst xs = sd_files d \<and>
   (\<forall>f \<in> set (sd_files d). \<exists>mode uid rest. stat k (sh_now h) (fs_root s) (entry_path (sd_dir d) f) False = Inr (mode, uid, rest) \<and>
      uid \<in> pw_uid ` set (load_passwd passwd))"
proof (induction "sd_files d" arbitrary: d xs)
  case Nil
  then show ?case by (subst (asm) list_directory.simps) (auto simp: next_entry_def split: list.splits)
next
  case (Cons f fs)
  let ?d = "d\<lparr>sd_files := fs\<rparr>"
  from Cons.prems Cons.hyps(2) [symmetric] obtain mode uid rest u y ys where
    st: "stat k (sh_now h) (fs_root s) (entry_path (sd_dir d) f) False = Inr (mode, uid, rest)"
    and u: "getpwuid uid (load_passwd passwd) = Inr u"
    and ys: "list_directory k h passwd groups_text s ?d = Inr ys" "xs = (f, y) # ys"
    by (subst (asm) list_directory.simps) (auto simp: next_entry_def split: sum.splits)
  from u have "uid \<in> pw_uid ` set (load_passwd passwd)"
    by (auto simp: getpwuid_def found_def split: option.splits dest!: find_Some_in_set)
  with Cons.hyps(1) [of ?d ys] ys st Cons.hyps(2) [symmetric] show ?case by (cases rest) auto
qed

end
