(* ===== verification/PyGetopt.thy ===== *)
theory PyGetopt
  imports PyStr
begin

text \<open>
  The module \<open>getopt\<close> of Python, which the commands of the shell parse their arguments with: options of one
  letter, with and without an argument, long options, and the two ways to go through the arguments. A
  failure carries the option that is reported.
\<close>

type_synonym opts = "(string \<times> string) list"

fun short_has_arg :: "char \<Rightarrow> string \<Rightarrow> bool option" where
  "short_has_arg c [] = None"
| "short_has_arg c (x # xs) = (if c = x \<and> x \<noteq> CHR '':'' then Some (prefix '':'' xs) else short_has_arg c xs)"

fun do_shorts :: "string \<Rightarrow> string \<Rightarrow> string list \<Rightarrow> string + opts \<times> string list" where
  "do_shorts shortopts [] args = Inr ([], args)"
| "do_shorts shortopts (c # optstring) args =
     (case short_has_arg c shortopts of
        None \<Rightarrow> Inl [c]
      | Some False \<Rightarrow>
          (case do_shorts shortopts optstring args of
             Inl e \<Rightarrow> Inl e
           | Inr (os, rest) \<Rightarrow> Inr (([CHR ''-'', c], []) # os, rest))
      | Some True \<Rightarrow>
          (if optstring \<noteq> [] then Inr ([([CHR ''-'', c], optstring)], args)
           else case args of [] \<Rightarrow> Inl [c] | a # rest \<Rightarrow> Inr ([([CHR ''-'', c], a)], rest)))"

definition long_has_args :: "string \<Rightarrow> string list \<Rightarrow> string + bool \<times> string" where
  "long_has_args opt longopts =
     (let possibilities = filter (prefix opt) longopts in
      case possibilities of
        [] \<Rightarrow> Inl opt
      | p # ps \<Rightarrow>
          if opt \<in> set possibilities then Inr (False, opt)
          else if opt @ ''='' \<in> set possibilities then Inr (True, opt)
          else if ps \<noteq> [] then Inl opt
          else Inr (suffix ''='' p, if suffix ''='' p then butlast p else p))"

definition do_longs :: "string \<Rightarrow> string list \<Rightarrow> string list \<Rightarrow> string + (string \<times> string) \<times> string list" where
  "do_longs word longopts args =
     (let name = takeWhile (\<lambda>c. c \<noteq> CHR ''='') word;
          given = (if CHR ''='' \<in> set word then Some (drop (Suc (length name)) word) else None) in
      case long_has_args name longopts of
        Inl e \<Rightarrow> Inl e
      | Inr (True, opt) \<Rightarrow>
          (case (given, args) of
             (Some v, _) \<Rightarrow> Inr ((''--'' @ opt, v), args)
           | (None, a # rest) \<Rightarrow> Inr ((''--'' @ opt, a), rest)
           | (None, []) \<Rightarrow> Inl opt)
      | Inr (False, opt) \<Rightarrow> (if given \<noteq> None then Inl opt else Inr ((''--'' @ opt, []), args)))"

lemma do_shorts_length: "do_shorts so w args = Inr (os, rest) \<Longrightarrow> length rest \<le> length args"
  by (induction so w args arbitrary: os rest rule: do_shorts.induct)
    (fastforce split: option.splits bool.splits sum.splits if_splits list.splits)+

lemma do_longs_length: "do_longs w lo args = Inr (o1, rest) \<Longrightarrow> length rest \<le> length args"
  by (auto simp: do_longs_def Let_def split: sum.splits prod.splits bool.splits option.splits list.splits if_splits)

text \<open>\<open>getopt\<close> stops at the first argument that is no option.\<close>

function getopt :: "string \<Rightarrow> string list \<Rightarrow> string list \<Rightarrow> string + opts \<times> string list" where
  "getopt so lo [] = Inr ([], [])"
| "getopt so lo (a # args) =
     (if \<not> prefix ''-'' a \<or> a = ''-'' then Inr ([], a # args)
      else if a = ''--'' then Inr ([], args)
      else if prefix ''--'' a then
        (case do_longs (drop 2 a) lo args of
           Inl e \<Rightarrow> Inl e
         | Inr (p, rest) \<Rightarrow> (case getopt so lo rest of Inl e \<Rightarrow> Inl e | Inr (os, r) \<Rightarrow> Inr (p # os, r)))
      else
        (case do_shorts so (drop 1 a) args of
           Inl e \<Rightarrow> Inl e
         | Inr (ps, rest) \<Rightarrow> (case getopt so lo rest of Inl e \<Rightarrow> Inl e | Inr (os, r) \<Rightarrow> Inr (ps @ os, r))))"
  by pat_completeness auto
termination
  by (relation "measure (\<lambda>(so, lo, args). length args)") (auto dest!: do_longs_length do_shorts_length)

text \<open>\<open>gnu_getopt\<close> goes on behind it.\<close>

function gnu_getopt :: "string \<Rightarrow> string list \<Rightarrow> string list \<Rightarrow> string + opts \<times> string list" where
  "gnu_getopt so lo [] = Inr ([], [])"
| "gnu_getopt so lo (a # args) =
     (if a = ''--'' then Inr ([], args)
      else if prefix ''--'' a then
        (case do_longs (drop 2 a) lo args of
           Inl e \<Rightarrow> Inl e
         | Inr (p, rest) \<Rightarrow> (case gnu_getopt so lo rest of Inl e \<Rightarrow> Inl e | Inr (os, r) \<Rightarrow> Inr (p # os, r)))
      else if prefix ''-'' a \<and> a \<noteq> ''-'' then
        (case do_shorts so (drop 1 a) args of
           Inl e \<Rightarrow> Inl e
         | Inr (ps, rest) \<Rightarrow> (case gnu_getopt so lo rest of Inl e \<Rightarrow> Inl e | Inr (os, r) \<Rightarrow> Inr (ps @ os, r)))
      else (case gnu_getopt so lo args of Inl e \<Rightarrow> Inl e | Inr (os, r) \<Rightarrow> Inr (os, a # r)))"
  by pat_completeness auto
termination
  by (relation "measure (\<lambda>(so, lo, args). length args)") (auto dest!: do_longs_length do_shorts_length)

text \<open>Arguments that do not begin with a dash are left as they are.\<close>

lemma gnu_getopt_plain: "\<forall>a \<in> set args. \<not> prefix ''-'' a \<Longrightarrow> gnu_getopt so lo args = Inr ([], args)"
  by (induction args) (auto simp: prefix_def)

lemma getopt_plain: "\<forall>a \<in> set args. \<not> prefix ''-'' a \<Longrightarrow> getopt so lo args = Inr ([], args)"
  by (cases args) auto

end
