(* ===== verification/FsCommands.thy ===== *)
theory FsCommands
  imports CowrieFs PyGetopt
begin

text \<open>
  The commands of the shell that work on the file system: \<open>cowrie/commands/fs.py\<close>, with
  \<open>check_arguments\<close> of \<open>cowrie/shell/command.py\<close>. A command takes its arguments and a session (the
  file system, the working directory and what has been written) and returns the session and whether it
  came to its end or raised. The usage texts are not written out: \<open>Help\<close> stands for the one of a command.
  (\<open>mv\<close> of a symbolic link, or of the root, raises after it has put the node in its new directory; the code then has
  one node in two places, here it is a copy.)
\<close>

section \<open>Sessions\<close>

datatype written = Out string | Err string | Help string

record session =
  se_fs :: fs_state
  se_cwd :: string
  se_out :: "written list"

text \<open>The user, the clock, the host, the depth of the stack, and the regular expressions of \<open>grep\<close> (None for
  one that does not compile).\<close>

record cenv =
  ce_frames :: nat
  ce_now :: int
  ce_uid :: int
  ce_gid :: int
  ce_home :: string
  ce_host :: fs_host
  ce_regex :: "string \<Rightarrow> (string \<Rightarrow> bool) option"

type_synonym outcome = "session \<times> unit result"

abbreviation nl :: string where
  "nl \<equiv> [CHR 0x0A]"

definition say :: "written \<Rightarrow> session \<Rightarrow> session" where
  "say x s = s\<lparr>se_out := se_out s @ [x]\<rparr>"

definition said :: "written \<Rightarrow> session \<Rightarrow> outcome" where
  "said x s = (say x s, Inr ())"

definition with_root :: "(node \<Rightarrow> node) \<Rightarrow> session \<Rightarrow> session" where
  "with_root f s = s\<lparr>se_fs := (se_fs s)\<lparr>fs_root := f (fs_root (se_fs s))\<rparr>\<rparr>"

abbreviation root_of :: "session \<Rightarrow> node" where
  "root_of s \<equiv> fs_root (se_fs s)"

text \<open>A name between the quotes the messages use.\<close>

definition quoted :: "string \<Rightarrow> string" where
  "quoted f = CHR 0x60 # f @ [CHR 0x27]"

text \<open>\<open>resolve_path\<close> from the working directory, and the directory part a command cuts from a path.\<close>

definition resolv :: "session \<Rightarrow> string \<Rightarrow> string result" where
  "resolv s f = resolve_path (fs_home (se_fs s)) f (se_cwd s)"

definition parent_of :: "string \<Rightarrow> string" where
  "parent_of pname = join_on ''/'' (butlast (split_on CHR ''/'' pname))"

text \<open>A step over every argument, in order; an exception ends it.\<close>

fun for_each :: "('a \<Rightarrow> session \<Rightarrow> outcome) \<Rightarrow> 'a list \<Rightarrow> session \<Rightarrow> outcome" where
  "for_each f [] s = (s, Inr ())"
| "for_each f (x # xs) s = (case f x s of (s', Inl e) \<Rightarrow> (s', Inl e) | (s', Inr _) \<Rightarrow> for_each f xs s')"

text \<open>A value that may raise, and what is done with it.\<close>

definition bindS :: "'a result \<Rightarrow> session \<Rightarrow> ('a \<Rightarrow> outcome) \<Rightarrow> outcome" where
  "bindS r s f = (case r of Inl e \<Rightarrow> (s, Inl e) | Inr v \<Rightarrow> f v)"

lemma bindS_simps [simp]: "bindS (Inl e) s f = (s, Inl e)" "bindS (Inr v) s f = f v"
  by (simp_all add: bindS_def)

section \<open>Directories\<close>

definition command_cd :: "cenv \<Rightarrow> string list \<Rightarrow> session \<Rightarrow> outcome" where
  "command_cd e args s =
     (let pname = (if args = [] \<or> hd args = ''~'' then ce_home e else hd args);
          inode = (case resolv s pname of
              Inl _ \<Rightarrow> None
            | Inr newpath \<Rightarrow>
                (case getfile (ce_frames e) (root_of s) newpath True of Inr (Some p) \<Rightarrow> Some (newpath, p) | _ \<Rightarrow> None)) in
      if pname = ''-'' then said (Err (''bash: cd: OLDPWD not set'' @ nl)) s
      else case inode of
        None \<Rightarrow> said (Err (''bash: cd: '' @ pname @ '': No such file or directory'' @ nl)) s
      | Some (newpath, p) \<Rightarrow>
          if type_of (node_at (root_of s) p) \<noteq> T_DIR then said (Err (''bash: cd: '' @ pname @ '': Not a directory'' @ nl)) s
          else (s\<lparr>se_cwd := newpath\<rparr>, Inr ()))"

definition command_pwd :: "session \<Rightarrow> outcome" where
  "command_pwd s = said (Out (se_cwd s @ nl)) s"

text \<open>Only the first argument is made: the loop returns behind it.\<close>

definition command_mkdir :: "cenv \<Rightarrow> string list \<Rightarrow> session \<Rightarrow> outcome" where
  "command_mkdir e args s =
     (case args of
        [] \<Rightarrow> (s, Inr ())
      | f # _ \<Rightarrow>
          bindS (resolv s f) s (\<lambda>pname.
          bindS (exists_path (ce_frames e) (root_of s) pname) s (\<lambda>there.
            if there then said (Err (''mkdir: cannot create directory '' @ quoted f @ '': File exists'' @ nl)) s
            else case mkdir (ce_frames e) pname (ce_uid e) (ce_gid e) 4096 16877 (ce_now e) (se_fs s) of
              (v, Inl x) \<Rightarrow>
                if x = FileNotFound
                then said (Err (''mkdir: cannot create directory '' @ quoted f @ '': No such file or directory'' @ nl)) (s\<lparr>se_fs := v\<rparr>)
                else (s\<lparr>se_fs := v\<rparr>, Inl x)
            | (v, Inr _) \<Rightarrow> (s\<lparr>se_fs := v\<rparr>, Inr ()))))"

text \<open>\<open>rmdir\<close>, one argument; an entry of the name that is no directory ends the command, which
  \<open>finished\<close> tells.\<close>

definition rmdir_one :: "cenv \<Rightarrow> string \<Rightarrow> session \<Rightarrow> session \<times> bool result" where
  "rmdir_one e f s =
     (case resolv s f of
        Inl x \<Rightarrow> (s, Inl x)
      | Inr pname \<Rightarrow>
          let missing = (say (Err (''rmdir: failed to remove '' @ quoted f @ '': No such file or directory'' @ nl)) s, Inr False);
              names = (\<lambda>d. A_CONTENTS (node_at (root_of s) d)) in
          case get_path (ce_frames e) (root_of s) pname True of
            Inl x \<Rightarrow> (if x \<in> {IndexError, FileNotFound} then missing else (s, Inl x))
          | Inr p \<Rightarrow>
              if names p \<noteq> []
              then (say (Err (''rmdir: failed to remove '' @ quoted f @ '': Directory not empty'' @ nl)) s, Inr False)
              else case get_path (ce_frames e) (root_of s) (parent_of pname) True of
                Inl x \<Rightarrow> (if x \<in> {IndexError, FileNotFound} then missing else (s, Inl x))
              | Inr d \<Rightarrow>
                  (case find (\<lambda>x. name_of x = path_basename f) (names d) of
                     None \<Rightarrow> missing
                   | Some i \<Rightarrow>
                       if type_of i \<noteq> T_DIR
                       then (say (Err (''rmdir: failed to remove '' @ [CHR 0x27] @ f @ [CHR 0x27] @ '': Not a directory'' @ nl)) s, Inr True)
                       else (with_root (update_at d (set_contents (remove1 i))) s, Inr False)))"

fun command_rmdir :: "cenv \<Rightarrow> string list \<Rightarrow> session \<Rightarrow> outcome" where
  "command_rmdir e [] s = (s, Inr ())"
| "command_rmdir e (f # args) s =
     (case rmdir_one e f s of
        (s, Inl x) \<Rightarrow> (s, Inl x)
      | (s, Inr finished) \<Rightarrow> if finished then (s, Inr ()) else command_rmdir e args s)"

text \<open>\<open>touch\<close>: an error ends the command, so it answers whether to go on.\<close>

fun command_touch :: "cenv \<Rightarrow> string list \<Rightarrow> session \<Rightarrow> outcome" where
  "command_touch e [] s = (s, Inr ())"
| "command_touch e (f # args) s =
     bindS (resolv s f) s (\<lambda>pname.
     bindS (exists_path (ce_frames e) (root_of s) (path_dirname pname)) s (\<lambda>parent.
       if \<not> parent then said (Err (''touch: cannot touch '' @ [CHR 0x60] @ pname @ [CHR 0x60] @ '': No such file or directory'' @ nl)) s
       else bindS (exists_path (ce_frames e) (root_of s) pname) s (\<lambda>there.
         if there then command_touch e args s
         else if list_ex (\<lambda>p. prefix p pname) SPECIAL_PATHS
         then said (Err (''touch: cannot touch '' @ [CHR 0x60] @ pname @ [CHR 0x60] @ '': Permission denied'' @ nl)) s
         else case mkfile (ce_frames e) pname (ce_uid e) (ce_gid e) 0 33188 (ce_now e) (se_fs s) of
           (v, Inl x) \<Rightarrow> (s\<lparr>se_fs := v\<rparr>, Inl x)
         | (v, Inr _) \<Rightarrow> command_touch e args (s\<lparr>se_fs := v\<rparr>))))"

definition touch_call :: "cenv \<Rightarrow> string list \<Rightarrow> session \<Rightarrow> outcome" where
  "touch_call e args s =
     (if args = []
      then said (Err (''Try '' @ quoted ''touch --help'' @ '' for more information.'' @ nl)) (say (Err (''touch: missing file operand'' @ nl)) s)
      else command_touch e args s)"

section \<open>Removing\<close>

text \<open>The entries of the name, over a copy of the directory.\<close>

fun rm_entries :: "bool \<Rightarrow> bool \<Rightarrow> string \<Rightarrow> loc \<Rightarrow> node list \<Rightarrow> session \<Rightarrow> session" where
  "rm_entries recursive verbose basename d [] s = s"
| "rm_entries recursive verbose basename d (i # is) s =
     rm_entries recursive verbose basename d is
       (if name_of i \<noteq> basename then s
        else if type_of i = T_DIR \<and> \<not> recursive
        then say (Err (''rm: cannot remove '' @ quoted (name_of i) @ '': Is a directory'' @ nl)) s
        else
          let s = with_root (update_at d (set_contents (remove1 i))) s in
          if \<not> verbose then s
          else say (Out ((if type_of i = T_DIR then ''removed directory '' else ''removed '') @
                         [CHR 0x27] @ name_of i @ [CHR 0x27] @ nl)) s)"

definition rm_one :: "cenv \<Rightarrow> bool \<Rightarrow> bool \<Rightarrow> bool \<Rightarrow> string \<Rightarrow> session \<Rightarrow> outcome" where
  "rm_one e recursive force verbose f s =
     bindS (resolv s f) s (\<lambda>pname.
       case bindE (get_path (ce_frames e) (root_of s) (parent_of pname) True) (\<lambda>d.
            bindE (get_path (ce_frames e) (root_of s) pname True) (\<lambda>_. Inr d)) of
         Inl x \<Rightarrow>
           if x \<in> {IndexError, FileNotFound}
           then (if force then (s, Inr ())
                 else said (Err (''rm: cannot remove '' @ quoted f @ '': No such file or directory'' @ nl)) s)
           else (s, Inl x)
       | Inr d \<Rightarrow>
           (rm_entries recursive verbose (last (split_on CHR ''/'' pname)) d (A_CONTENTS (node_at (root_of s) d)) s, Inr ()))"

definition has_opt :: "string list \<Rightarrow> opts \<Rightarrow> bool" where
  "has_opt names os \<longleftrightarrow> list_ex (\<lambda>(o1, _). o1 \<in> set names) os"

text \<open>The options count up to a request for help, which ends the command.\<close>

definition command_rm :: "cenv \<Rightarrow> string list \<Rightarrow> session \<Rightarrow> outcome" where
  "command_rm e args s =
     (let hint = (\<lambda>s. said (Err (''Try '' @ [CHR 0x27] @ ''rm --help'' @ [CHR 0x27] @ '' for more information'' @ nl)) s) in
      if args = [] then hint (say (Err (''rm: missing operand'' @ nl)) s)
      else case gnu_getopt ''rTfvh'' [''help'', ''recursive'', ''force'', ''verbose''] args of
        Inl opt \<Rightarrow> hint (say (Err (''rm: invalid option -- '' @ [CHR 0x27] @ opt @ [CHR 0x27] @ nl)) s)
      | Inr (optlist, files) \<Rightarrow>
          if has_opt [''--help'', ''-h''] optlist then said (Help ''rm'') s
          else for_each (rm_one e (has_opt [''--recursive'', ''-r'', ''-R''] optlist) (has_opt [''--force'', ''-f''] optlist)
                 (has_opt [''--verbose'', ''-v''] optlist)) files s)"

section \<open>Copying and moving\<close>

text \<open>What both commands find out about the destination: whether it is a directory. A message ends the command.\<close>

definition check_dest :: "cenv \<Rightarrow> string \<Rightarrow> bool \<Rightarrow> string list \<Rightarrow> string \<Rightarrow> session \<Rightarrow> (written + bool) result" where
  "check_dest e cmd slash_ok sources dest s =
     bindE (resolv s dest) (\<lambda>target.
       let isdir_dest = isdir (ce_frames e) (root_of s) target in
       if 1 < length sources \<and> \<not> isdir_dest
       then Inr (Inl (Err (cmd @ '': target '' @ quoted dest @ '' is not a directory'' @ nl)))
       else bindE (if last dest = CHR ''/'' then exists_path (ce_frames e) (root_of s) target else Inr True) (\<lambda>there.
         if \<not> there \<and> \<not> slash_ok
         then Inr (Inl (Err (cmd @ '': cannot create regular file '' @ quoted dest @ '': Is a directory'' @ nl)))
         else if isdir_dest then Inr (Inr True)
         else bindE (exists_path (ce_frames e) (root_of s) (path_dirname target)) (\<lambda>parent.
           if parent then Inr (Inr False)
           else Inr (Inl (Err (cmd @ '': cannot create regular file '' @ quoted dest @ '': No such file or directory'' @ nl))))))"

text \<open>The directory and the name an argument goes to.\<close>

definition goes_to :: "cenv \<Rightarrow> bool \<Rightarrow> string \<Rightarrow> string \<Rightarrow> string \<Rightarrow> session \<Rightarrow> (loc \<times> string) result" where
  "goes_to e isdir_dest src dest plain_name s =
     bindE (resolv s dest) (\<lambda>target.
     bindE (get_path (ce_frames e) (root_of s) (if isdir_dest then target else path_dirname target) True) (\<lambda>d.
       Inr (d, if isdir_dest then path_basename src else plain_name)))"

definition named :: "string \<Rightarrow> node \<Rightarrow> node" where
  "named n x = set_attrs (\<lambda>a. a\<lparr>A_NAME := n\<rparr>) x"

definition replace_entry :: "string \<Rightarrow> node \<Rightarrow> node list \<Rightarrow> node list" where
  "replace_entry outfile x cs =
     (case find (\<lambda>c. name_of c = outfile) cs of Some old \<Rightarrow> remove1 old cs | None \<Rightarrow> cs) @ [named outfile x]"

definition cp_one :: "cenv \<Rightarrow> bool \<Rightarrow> bool \<Rightarrow> string \<Rightarrow> string \<Rightarrow> session \<Rightarrow> outcome" where
  "cp_one e recursive isdir_dest dest src s =
     bindS (resolv s src) s (\<lambda>pname.
     bindS (getfile (ce_frames e) (root_of s) pname True) s (\<lambda>found. case found of
       None \<Rightarrow> said (Err (''cp: cannot stat '' @ quoted src @ '': No such file or directory'' @ nl)) s
     | Some p \<Rightarrow>
         if \<not> recursive \<and> isdir (ce_frames e) (root_of s) pname
         then said (Err (''cp: omitting directory '' @ quoted src @ nl)) s
         else bindS (goes_to e isdir_dest src dest (path_basename (rstrip_char CHR ''/'' dest)) s) s (\<lambda>(d, outfile).
           (with_root (update_at d (set_contents (replace_entry outfile (node_at (root_of s) p)))) s, Inr ()))))"

definition needs_two :: "string \<Rightarrow> string list \<Rightarrow> session \<Rightarrow> outcome" where
  "needs_two cmd args s =
     said (Err (''Try '' @ quoted (cmd @ '' --help'') @ '' for more information.'' @ nl))
       (say (Err (if args = [] then cmd @ '': missing file operand'' @ nl
                  else cmd @ '': missing destination file operand after '' @ quoted (hd args) @ nl)) s)"

definition command_cp :: "cenv \<Rightarrow> string list \<Rightarrow> session \<Rightarrow> outcome" where
  "command_cp e args s =
     (if args = [] then needs_two ''cp'' args s
      else case gnu_getopt ''-abdfiHlLPpRrsStTuvx'' [] args of
        Inl _ \<Rightarrow> said (Err (''Unrecognized option'' @ nl)) s
      | Inr (optlist, rest) \<Rightarrow>
          if length rest < 2 then needs_two ''cp'' args s
          else
            let recursive = has_opt [''-r'', ''-a'', ''-R''] optlist; sources = butlast rest; dest = last rest in
            bindS (check_dest e ''cp'' recursive sources dest s) s (\<lambda>c. case c of
              Inl msg \<Rightarrow> said msg s
            | Inr isdir_dest \<Rightarrow> for_each (cp_one e recursive isdir_dest dest) sources s))"

text \<open>The node is renamed where it is, put behind the entries of its new directory, and the first entry
  equal to it taken out of the old one. What had the name before stays.\<close>

definition mv_one :: "cenv \<Rightarrow> bool \<Rightarrow> string \<Rightarrow> string \<Rightarrow> session \<Rightarrow> outcome" where
  "mv_one e isdir_dest dest src s =
     bindS (resolv s src) s (\<lambda>pname.
     bindS (getfile (ce_frames e) (root_of s) pname True) s (\<lambda>found. case found of
       None \<Rightarrow> said (Err (''mv: cannot stat '' @ quoted src @ '': No such file or directory'' @ nl)) s
     | Some p \<Rightarrow>
         bindS (goes_to e isdir_dest src dest (path_basename dest) s) s (\<lambda>(d, outfile).
           let s = with_root (update_at p (named outfile)) s;
               x = node_at (root_of s) p;
               s = with_root (update_at d (set_contents (\<lambda>cs. cs @ [x]))) s in
           bindS (get_path (ce_frames e) (root_of s) (path_dirname pname) True) s (\<lambda>sdir.
           bindS (remove_at sdir (node_at (root_of s) p) (root_of s)) s (\<lambda>root.
             (with_root (\<lambda>_. root) s, Inr ()))))))"

definition command_mv :: "cenv \<Rightarrow> string list \<Rightarrow> session \<Rightarrow> outcome" where
  "command_mv e args s =
     (if args = [] then needs_two ''mv'' args s
      else case gnu_getopt ''-bfiStTuv'' [] args of
        Inl _ \<Rightarrow> said (Err (''Unrecognized option'' @ nl)) s
      | Inr (optlist, rest) \<Rightarrow>
          if length rest < 2 then needs_two ''mv'' args s
          else
            let sources = butlast rest; dest = last rest in
            bindS (check_dest e ''mv'' (length sources = 1) sources dest s) s (\<lambda>c. case c of
              Inl msg \<Rightarrow> said msg s
            | Inr isdir_dest \<Rightarrow> for_each (mv_one e isdir_dest dest) sources s))"

section \<open>Parts of files\<close>

definition check_argument :: "cenv \<Rightarrow> string \<Rightarrow> string \<Rightarrow> session \<Rightarrow> session \<times> string list result" where
  "check_argument e app arg s =
     (case resolv s arg of
        Inl x \<Rightarrow> (s, Inl x)
      | Inr path \<Rightarrow>
          if isdir (ce_frames e) (root_of s) path
          then (say (Err (app @ '': error reading '' @ quoted arg @ '': Is a directory'' @ nl)) s, Inr [])
          else (s, Inr [path]))"

fun check_arguments :: "cenv \<Rightarrow> string \<Rightarrow> string list \<Rightarrow> session \<Rightarrow> session \<times> string list result" where
  "check_arguments e app [] s = (s, Inr [])"
| "check_arguments e app (arg # args) s =
     (case check_argument e app arg s of
        (s, Inl x) \<Rightarrow> (s, Inl x)
      | (s, Inr p) \<Rightarrow>
          (case check_arguments e app args s of (s, r) \<Rightarrow> (s, bindE r (\<lambda>ps. Inr (p @ ps)))))"

definition contents_of :: "cenv \<Rightarrow> string \<Rightarrow> session \<Rightarrow> string result" where
  "contents_of e f s = file_contents (ce_frames e) (ce_host e) f (se_fs s)"

text \<open>\<open>head\<close>: a number of bytes, or of lines.\<close>

fun head_application :: "nat \<times> nat \<Rightarrow> string \<Rightarrow> string" where
  "head_application (linecount, bytecount) contents =
     (if bytecount \<noteq> 0 then take bytecount contents
      else if linecount \<noteq> 0 then concat (map (\<lambda>l. l @ nl) (take linecount (split_on CHR 0x0A contents)))
      else [])"

definition head_file :: "cenv \<Rightarrow> nat \<times> nat \<Rightarrow> string \<Rightarrow> session \<Rightarrow> outcome" where
  "head_file e n f s =
     (case contents_of e f s of
        Inr c \<Rightarrow> said (Out (head_application n c)) s
      | Inl x \<Rightarrow>
          if x = FileNotFound
          then said (Err (''head: cannot open '' @ quoted f @ '' for reading: No such file or directory'' @ nl)) s
          else (s, Inl x))"

text \<open>A number given with an option; a message if it is none.\<close>

definition number_option :: "string \<Rightarrow> string \<Rightarrow> 'c \<Rightarrow> (nat \<Rightarrow> 'c) \<Rightarrow> session \<Rightarrow> session \<times> 'c result" where
  "number_option msg v c f s =
     (if isdigit v then (s, bindE (int_of_digits v) (\<lambda>n. Inr (f (nat n))))
      else (say (Err msg) s, Inr c))"

fun head_options :: "opts \<Rightarrow> nat \<times> nat \<Rightarrow> session \<Rightarrow> session \<times> (nat \<times> nat) result" where
  "head_options [] c s = (s, Inr c)"
| "head_options ((o1, v) # os) c s =
     (case (if o1 = ''-n'' then number_option (''head: invalid number of lines: '' @ quoted v @ nl) v c (\<lambda>n. (n, 0)) s
            else number_option (''head: invalid number of bytes: '' @ quoted v @ nl) v c (\<lambda>n. (0, n)) s) of
        (s, Inl x) \<Rightarrow> (s, Inl x)
      | (s, Inr c) \<Rightarrow> head_options os c s)"

text \<open>Without arguments \<open>head\<close> and \<open>tail\<close> return at once; what comes from a pipe is taken instead of files.\<close>

definition command_head :: "cenv \<Rightarrow> string option \<Rightarrow> string list \<Rightarrow> session \<Rightarrow> outcome" where
  "command_head e input args s =
     (if args = [] \<or> hd args = ''>'' then (s, Inr ())
      else case getopt ''c:n:'' [] args of
        Inl opt \<Rightarrow> said (Err (''head: invalid option -- '' @ [CHR 0x27] @ opt @ [CHR 0x27] @ nl)) s
      | Inr (optlist, rest) \<Rightarrow>
          (case head_options optlist (10, 0) s of
             (s, Inl x) \<Rightarrow> (s, Inl x)
           | (s, Inr n) \<Rightarrow>
               if input \<in> {None, Some []}
               then (case check_arguments e ''head'' rest s of (s, r) \<Rightarrow> bindS r s (\<lambda>files. for_each (head_file e n) files s))
               else said (Out (head_application n (the input))) s))"

text \<open>\<open>tail\<close>: the pieces of a range that may begin at the index -1, which is the last piece. The number of
  lines is kept from one file to the next.\<close>

definition py_nth :: "'a list \<Rightarrow> int \<Rightarrow> 'a" where
  "py_nth xs j = (if j < 0 then xs ! nat (int (length xs) + j) else xs ! nat j)"

definition tail_application :: "nat \<Rightarrow> string \<Rightarrow> nat \<times> string" where
  "tail_application n contents =
     (let pieces = split_on CHR 0x0A contents; lines = length pieces; n = (if lines < n then lines - 1 else n);
          range = [int lines - int n - 1 .. int lines - 1] in
      (n, concat (map (\<lambda>(i, j). py_nth pieces j @ (if i < n then nl else [])) (enumerate 0 range))))"

fun tail_files :: "cenv \<Rightarrow> nat \<Rightarrow> string list \<Rightarrow> session \<Rightarrow> session" where
  "tail_files e n [] s = s"
| "tail_files e n (f # fs) s =
     (case contents_of e f s of
        Inl _ \<Rightarrow> tail_files e n fs
          (say (Err (''tail: cannot open '' @ quoted f @ '' for reading: No such file or directory'' @ nl)) s)
      | Inr c \<Rightarrow> (case tail_application n c of (n, t) \<Rightarrow> tail_files e n fs (say (Out t) s)))"

fun tail_options :: "opts \<Rightarrow> nat \<Rightarrow> session \<Rightarrow> session \<times> nat result" where
  "tail_options [] n s = (s, Inr n)"
| "tail_options ((_, v) # os) n s =
     (case number_option (''tail: illegal offset -- '' @ v @ nl) v n (\<lambda>n. n) s of
        (s, Inl x) \<Rightarrow> (s, Inl x)
      | (s, Inr n) \<Rightarrow> tail_options os n s)"

definition command_tail :: "cenv \<Rightarrow> string option \<Rightarrow> string list \<Rightarrow> session \<Rightarrow> outcome" where
  "command_tail e input args s =
     (if args = [] \<or> hd args = ''>'' then (s, Inr ())
      else case getopt ''n:'' [] args of
        Inl opt \<Rightarrow> said (Err (''tail: invalid option -- '' @ [CHR 0x27] @ opt @ [CHR 0x27] @ nl)) s
      | Inr (optlist, rest) \<Rightarrow>
          (case tail_options optlist 10 s of
             (s, Inl x) \<Rightarrow> (s, Inl x)
           | (s, Inr n) \<Rightarrow>
               if input \<in> {None, Some []}
               then (case check_arguments e ''tail'' rest s of (s, r) \<Rightarrow> bindS r s (\<lambda>files. (tail_files e n files s, Inr ())))
               else said (Out (snd (tail_application n (the input)))) s))"

text \<open>\<open>grep\<close>: the expression is cut to what follows its last slash and loses its double quotes.\<close>

definition grep_application :: "cenv \<Rightarrow> string \<Rightarrow> string \<Rightarrow> string result" where
  "grep_application e contents match =
     (case ce_regex e (filter (\<lambda>c. c \<noteq> CHR 0x22) (path_basename match)) of
        None \<Rightarrow> Inl (RuntimeError ''re.error'')
      | Some search \<Rightarrow> Inr (concat (map (\<lambda>l. l @ nl) (filter search (split_on CHR 0x0A contents)))))"

definition grep_file :: "cenv \<Rightarrow> string \<Rightarrow> string \<Rightarrow> session \<Rightarrow> outcome" where
  "grep_file e match f s =
     (case bindE (contents_of e f s) (\<lambda>c. grep_application e c match) of
        Inr t \<Rightarrow> said (Out t) s
      | Inl _ \<Rightarrow> said (Err (''grep: '' @ f @ '': No such file or directory'' @ nl)) s)"

definition command_grep :: "cenv \<Rightarrow> string option \<Rightarrow> string list \<Rightarrow> session \<Rightarrow> outcome" where
  "command_grep e input args s =
     (if args = [] then said (Help ''grep'') s
      else if hd args = ''>'' then (s, Inl (RuntimeError ''UnboundLocalError''))
      else case getopt ''abcDEFGHhIiJLlmnOoPqRSsUVvwxZA:B:C:e:f:'' [] args of
        Inl opt \<Rightarrow> said (Help ''grep'') (say (Err (''grep: invalid option -- '' @ opt @ nl)) s)
      | Inr (optlist, rest) \<Rightarrow>
          let s = fold (\<lambda>(o1, _). if o1 = ''-h'' then say (Help ''grep'') else id) optlist s in
          if input \<in> {None, Some []}
          then (case check_arguments e ''grep'' (tl rest) s of (s, r) \<Rightarrow>
            bindS r s (\<lambda>files. if files \<noteq> [] \<and> rest = [] then (s, Inl IndexError) else for_each (grep_file e (hd rest)) files s))
          else if rest = [] then (s, Inl IndexError)
          else bindS (grep_application e (the input) (hd rest)) s (\<lambda>t. said (Out t) s))"

end
