(* ===== verification/FsCommandFacts.thy ===== *)
theory FsCommandFacts
  imports FsCommands CowrieFsFacts
begin

text \<open>
  What the commands of the shell do, on a tree without links, to the map from paths to attributes: removing,
  copying and moving. And what \<open>tail\<close> prints.
\<close>

declare getfile.simps [simp del]

section \<open>Paths of commands\<close>

lemma parent_components: "\<forall>p \<in> set (ps @ [x]). plain p \<Longrightarrow>
    filter (\<lambda>x. x \<noteq> []) (split_on CHR ''/'' (parent_of (join_path (ps @ [x])))) = ps"
proof -
  assume p: "\<forall>p \<in> set (ps @ [x]). plain p"
  then have "split_on CHR ''/'' (join_path (ps @ [x])) = [] # ps @ [x]" by (intro split_join_path) (auto simp: plain_def)
  then have "parent_of (join_path (ps @ [x])) = join_on ''/'' ([] # ps)" by (simp add: parent_of_def butlast_append)
  moreover have "split_on CHR ''/'' (join_on ''/'' ([] # ps)) = [] # ps" using p by (intro split_on_join) (auto simp: plain_def)
  ultimately show ?thesis using filter_plain [of ps] p by simp
qed

lemma last_component: "\<forall>p \<in> set (ps @ [x]). plain p \<Longrightarrow> last (split_on CHR ''/'' (join_path (ps @ [x]))) = x"
  by (subst split_join_path) (auto simp: plain_def)

lemma get_path_canonical:
  assumes "good root" and "\<forall>p \<in> set ps. plain p"
  shows "get_path k root (join_path ps) b = (case locate root ps of None \<Rightarrow> Inl FileNotFound | Some l \<Rightarrow> Inr l)"
  using assms by (intro get_path_good split_canonical) auto

lemma isdir_good:
  assumes "good root" and "\<forall>p \<in> set ps. plain p" and "type_of root = T_DIR"
  shows "isdir (Suc k) root (join_path ps) = (\<exists>a. view_of root ps = Some a \<and> A_TYPE a = T_DIR)"
proof (cases "locate root ps")
  case None
  then have "ps \<noteq> []" by auto
  then have "join_path ps \<noteq> ''/''" using join_on_hd [OF _ assms(2)] by (auto simp: join_path_def)
  moreover have "view_of root ps = None" using None by (simp add: view_None)
  ultimately show ?thesis using None by (simp add: isdir_def has_type_def getfile_good [OF assms(1,2)])
next
  case (Some l)
  show ?thesis
  proof (cases "ps = []")
    case True
    with assms(3) show ?thesis by (simp add: isdir_def join_path_def)
  next
    case False
    then have "join_path ps \<noteq> ''/''" using join_on_hd [OF _ assms(2)] by (auto simp: join_path_def)
    with Some show ?thesis by (simp add: isdir_def has_type_def getfile_good [OF assms(1,2)] view_Some)
  qed
qed

lemma with_root_simps [simp]:
  "root_of (with_root f s) = f (root_of s)" "se_cwd (with_root f s) = se_cwd s" "se_out (with_root f s) = se_out s"
  "fs_home (se_fs (with_root f s)) = fs_home (se_fs s)" "fs_newcount (se_fs (with_root f s)) = fs_newcount (se_fs s)"
  "resolv (with_root f s) = resolv s"
  by (simp_all add: with_root_def resolv_def fun_eq_iff)

lemma say_simps [simp]:
  "root_of (say x s) = root_of s" "se_cwd (say x s) = se_cwd s" "se_out (say x s) = se_out s @ [x]" "se_fs (say x s) = se_fs s"
  "resolv (say x s) = resolv s"
  by (simp_all add: say_def resolv_def fun_eq_iff)

section \<open>Removing\<close>

lemma rm_entries_other: "basename \<notin> name_of ` set cs \<Longrightarrow> rm_entries r v basename d cs s = s"
  by (induction cs arbitrary: s) auto

text \<open>With distinct names there is one entry to treat.\<close>

lemma rm_entries_one:
  assumes "distinct (map name_of cs)" and "find (\<lambda>c. name_of c = x) cs = Some z"
  shows "rm_entries r v x d cs s = rm_entries r v x d [z] s"
  using assms
proof (induction cs arbitrary: s)
  case (Cons c cs)
  show ?case
  proof (cases "name_of c = x")
    case True
    with Cons.prems have "x \<notin> name_of ` set cs" "z = c" by auto
    then show ?thesis using rm_entries_other [of x cs] True by simp
  next
    case False
    with Cons show ?thesis by simp
  qed
qed simp

definition rm_messages :: "bool \<Rightarrow> bool \<Rightarrow> bool \<Rightarrow> string \<Rightarrow> string \<Rightarrow> attrs option \<Rightarrow> written list" where
  "rm_messages recursive force verbose f x found =
     (case found of
        None \<Rightarrow> (if force then [] else [Err (''rm: cannot remove '' @ quoted f @ '': No such file or directory'' @ nl)])
      | Some a \<Rightarrow>
          if A_TYPE a = T_DIR \<and> \<not> recursive then [Err (''rm: cannot remove '' @ quoted x @ '': Is a directory'' @ nl)]
          else if verbose
          then [Out ((if A_TYPE a = T_DIR then ''removed directory '' else ''removed '') @ [CHR 0x27] @ x @ [CHR 0x27] @ nl)]
          else [])"

lemma rm_one_view:
  assumes g: "good (root_of s)" and plain: "\<forall>p \<in> set (ps @ [x]). plain p" and res: "resolv s f = Inr (join_path (ps @ [x]))"
  shows "\<exists>s'. rm_one e recursive force verbose f s = (s', Inr ()) \<and> good (root_of s') \<and> se_cwd s' = se_cwd s \<and> resolv s' = resolv s \<and>
    type_of (root_of s') = type_of (root_of s) \<and>
    view_of (root_of s') =
      (case view_of (root_of s) (ps @ [x]) of
         Some a \<Rightarrow> if A_TYPE a = T_DIR \<and> \<not> recursive then view_of (root_of s) else drop_view (ps @ [x]) (view_of (root_of s))
       | None \<Rightarrow> view_of (root_of s)) \<and>
    se_out s' = se_out s @ rm_messages recursive force verbose f x (view_of (root_of s) (ps @ [x]))"
proof -
  note parent = get_path_good [OF g parent_components [OF plain], of "ce_frames e" True]
  note path = get_path_canonical [OF g plain, of "ce_frames e" True]
  show ?thesis
  proof (cases "locate (root_of s) (ps @ [x])")
    case None
    then have "rm_one e recursive force verbose f s =
        (if force then (s, Inr ()) else said (Err (''rm: cannot remove '' @ quoted f @ '': No such file or directory'' @ nl)) s)"
      by (cases "locate (root_of s) ps") (simp_all add: rm_one_def res parent path)
    moreover have "view_of (root_of s) (ps @ [x]) = None" using None by (simp add: view_None)
    ultimately show ?thesis using g by (simp add: rm_messages_def said_def)
  next
    case (Some l)
    then obtain d where d: "locate (root_of s) ps = Some d" by (auto simp: locate_snoc split: option.splits)
    let ?cs = "A_CONTENTS (node_at (root_of s) d)"
    from Some d obtain i where i: "find_index (\<lambda>c. name_of c = x) ?cs = Some i" "l = d @ [i]" by (auto simp: locate_snoc)
    define z where "z = ?cs ! i"
    have z: "find (\<lambda>c. name_of c = x) ?cs = Some z" by (simp add: find_index_find i z_def)
    then have zin: "z \<in> set ?cs" "name_of z = x" using find_Some_in_set [OF z] by auto
    have az: "view_of (root_of s) (ps @ [x]) = Some (A z)" using view_Some [OF Some] by (simp add: i(2) node_at_append z_def)
    have run: "rm_one e recursive force verbose f s = (rm_entries recursive verbose x d [z] s, Inr ())"
      using rm_entries_one [OF conjunct2 [OF goodD [OF lookup_good_at [OF g d]]] z]
      by (simp add: rm_one_def res parent path d Some last_component [OF plain])
    from drop_at [OF g d zin(1)] zin(2)
    have dr: "good (update_at d (set_contents (remove1 z)) (root_of s))"
      "view_of (update_at d (set_contents (remove1 z)) (root_of s)) = drop_view (ps @ [x]) (view_of (root_of s))" by simp_all
    have root: "type_of (update_at d (set_contents (remove1 z)) (root_of s)) = type_of (root_of s)"
      by (cases d) (simp_all add: set_contents_def)
    show ?thesis unfolding run az using g zin(2) dr root by (auto simp: rm_messages_def Let_def)
  qed
qed

text \<open>C17. Removing with \<open>rm -rf\<close>, on a well-formed tree without links, with arguments that do not begin with a minus and resolve to
  canonical paths other than the root: present or not, each takes away what its path names with all below it, in order, silently,
  and nothing else changes.\<close>

theorem rm_rf_removes:
  assumes "good (root_of s)" and "\<forall>f \<in> set fs. \<not> prefix ''-'' f"
    and "list_all2 (\<lambda>f p. p \<noteq> [] \<and> (\<forall>x \<in> set p. plain x) \<and> resolv s f = Inr (join_path p)) fs ps"
  shows "\<exists>s'. command_rm e (''-rf'' # fs) s = (s', Inr ()) \<and> good (root_of s') \<and> se_out s' = se_out s \<and>
    view_of (root_of s') = fold drop_view ps (view_of (root_of s))"
proof -
  have opts: "gnu_getopt ''rTfvh'' [''help'', ''recursive'', ''force'', ''verbose''] (''-rf'' # fs) = Inr ([(''-r'', []), (''-f'', [])], fs)"
    using gnu_getopt_plain [OF assms(2)] by simp
  have silent: "rm_messages True True False f x found = []" for f x found by (simp add: rm_messages_def split: option.splits)
  have gone: "drop_view p (view_of root) = view_of root" if "view_of root p = None" for p root
  proof -
    have "lookup root p = None" using that by (simp add: view_of_def)
    then show ?thesis by (intro ext) (auto simp: drop_view_def view_append elim!: prefixE)
  qed
  define R where "R = resolv s"
  have "\<exists>s'. for_each (rm_one e True True False) fs t = (s', Inr ()) \<and> good (root_of s') \<and> se_out s' = se_out t \<and>
      view_of (root_of s') = fold drop_view ps (view_of (root_of t))" if "good (root_of t)" and "resolv t = R" for t
    using assms(3) [folded R_def] that
  proof (induction fs ps arbitrary: t rule: list_all2_induct)
    case (Cons f fs p ps)
    obtain q x where p: "p = q @ [x]" using Cons.hyps by (cases p rule: rev_cases) auto
    have plain: "\<forall>y \<in> set (q @ [x]). plain y" and res: "resolv t f = Inr (join_path (q @ [x]))"
      using Cons.hyps(1) Cons.prems(2) p by simp_all
    obtain t1 where t1: "rm_one e True True False f t = (t1, Inr ())" "good (root_of t1)" "resolv t1 = resolv t" "se_out t1 = se_out t"
      and v: "view_of (root_of t1) = (case view_of (root_of t) p of
         Some a \<Rightarrow> if A_TYPE a = T_DIR \<and> \<not> True then view_of (root_of t) else drop_view p (view_of (root_of t))
       | None \<Rightarrow> view_of (root_of t))"
      using rm_one_view [OF Cons.prems(1) plain res, of e True True False] unfolding silent p by auto
    have "view_of (root_of t1) = drop_view p (view_of (root_of t))"
      using v gone [of "root_of t" p] by (cases "view_of (root_of t) p") simp_all
    with Cons.IH [of t1] t1 Cons.prems(2) show ?case by simp
  qed simp
  from this [OF assms(1)] have "\<exists>s'. for_each (rm_one e True True False) fs s = (s', Inr ()) \<and> good (root_of s') \<and> se_out s' = se_out s \<and>
      view_of (root_of s') = fold drop_view ps (view_of (root_of s))" by (simp add: R_def)
  then show ?thesis unfolding command_rm_def opts by (simp add: has_opt_def)
qed

definition demo_env :: cenv where
  "demo_env = \<lparr>ce_frames = 9, ce_now = 7, ce_uid = 0, ce_gid = 0, ce_home = ''/root'',
     ce_host = \<lparr>h_isfile = (\<lambda>_. False), h_read = (\<lambda>_. []), h_download_path = ''dl'', h_data_path = ''data''\<rparr>,
     ce_regex = (\<lambda>_. None)\<rparr>"

definition demo_session :: session where
  "demo_session = \<lparr>se_fs = demo_fs, se_cwd = ''/'', se_out = []\<rparr>"

theorem rm_rf_removes_witness:
  "\<exists>s'. command_rm demo_env [''-rf'', ''tmp'', ''/no/where''] demo_session = (s', Inr ()) \<and> se_out s' = [] \<and>
     view_of (root_of s') [''tmp''] = None"
proof -
  have j: "join_path [''tmp''] = ''/tmp''" "join_path [''no'', ''where''] = ''/no/where''" by (simp_all add: join_path_def)
  have r: "resolv demo_session ''tmp'' = Inr ''/tmp''" "resolv demo_session ''/no/where'' = Inr ''/no/where''" by code_simp+
  have "good (root_of demo_session)" by (simp add: demo_session_def demo_fs_def new_node_def)
  moreover have "list_all2 (\<lambda>f p. p \<noteq> [] \<and> (\<forall>x \<in> set p. plain x) \<and> resolv demo_session f = Inr (join_path p))
      [''tmp'', ''/no/where''] [[''tmp''], [''no'', ''where'']]" by (simp add: j r plain_def)
  ultimately obtain s' where s': "command_rm demo_env [''-rf'', ''tmp'', ''/no/where''] demo_session = (s', Inr ())" "se_out s' = se_out demo_session"
    and v: "view_of (root_of s') = fold drop_view [[''tmp''], [''no'', ''where'']] (view_of (root_of demo_session))"
    using rm_rf_removes [of demo_session "[''tmp'', ''/no/where'']" "[[''tmp''], [''no'', ''where'']]" demo_env] by auto
  have "view_of (root_of s') [''tmp''] = None" unfolding v by (simp add: drop_view_def)
  with s' show ?thesis by (simp add: demo_session_def)
qed

section \<open>Copying\<close>

text \<open>Copying with \<open>cp -r\<close> to a name that is free, or that a file has, in an existing directory: below the new name there is
  what is below the old one, the name of the copy apart, and nothing else changes; nothing is written.\<close>

theorem cp_r_copies:
  assumes "good (root_of s)" and "type_of (root_of s) = T_DIR" and "\<not> prefix ''-'' src" and "\<not> prefix ''-'' dest"
    and "\<forall>y \<in> set p. plain y" and "resolv s src = Inr (join_path p)" and "view_of (root_of s) p \<noteq> None"
    and "\<forall>y \<in> set (q @ [x]). plain y" and "resolv s dest = Inr (join_path (q @ [x]))" and "path_basename (rstrip_char CHR ''/'' dest) = x"
    and "view_of (root_of s) q \<noteq> None" and "\<nexists>a. view_of (root_of s) (q @ [x]) = Some a \<and> A_TYPE a = T_DIR" and "ce_frames e = Suc k"
  shows "\<exists>s'. command_cp e [''-r'', src, dest] s = (s', Inr ()) \<and> good (root_of s') \<and> se_out s' = se_out s \<and>
    view_of (root_of s') =
      graft_view (q @ [x]) (\<lambda>r. if r = [] then map_option (\<lambda>a. a\<lparr>A_NAME := x\<rparr>) (view_of (root_of s) p) else view_of (root_of s) (p @ r))
        (view_of (root_of s))"
proof -
  let ?root = "root_of s"
  have opts: "gnu_getopt ''-abdfiHlLPpRrsStTuvx'' [] [''-r'', src, dest] = Inr ([(''-r'', [])], [src, dest])"
    using gnu_getopt_plain [of "[src, dest]" "''-abdfiHlLPpRrsStTuvx''" "[]"] assms(3,4) by simp
  obtain l where l: "locate ?root p = Some l" using assms(7) view_None [of ?root p] by (cases "locate ?root p") auto
  obtain d where d: "locate ?root q = Some d" using assms(11) view_None [of ?root q] by (cases "locate ?root q") auto
  have nodir: "\<not> isdir (ce_frames e) ?root (join_path (q @ [x]))"
    using isdir_good [OF assms(1,8,2)] assms(12,13) by simp
  have q: "\<forall>y \<in> set q. plain y" using assms(8) by simp
  have check: "check_dest e ''cp'' True [src] dest s = Inr (Inr False)"
    using nodir getfile_good [OF assms(1) q, of k] getfile_good [OF assms(1,8), of k] d
    by (simp add: check_dest_def assms(9,13) Let_def exists_path_def dirname_snoc [OF assms(8)])
  have goes: "goes_to e False src dest (path_basename (rstrip_char CHR ''/'' dest)) s = Inr (d, x)"
    using get_path_canonical [OF assms(1) q] d
    by (simp add: goes_to_def assms(9,10) dirname_snoc [OF assms(8)])
  let ?y = "named x (node_at ?root l)"
  have y: "name_of ?y = x" "good ?y"
    using lookup_good_at [OF assms(1) l] by (cases "node_at ?root l", simp_all add: named_def set_attrs_def)+
  let ?g = "replace_entry x (node_at ?root l)"
  have step: "cp_one e True False dest src s = (with_root (update_at d (set_contents ?g)) s, Inr ())"
    using getfile_good [OF assms(1,5), of k] l goes by (simp add: cp_one_def assms(6,13))
  have run: "command_cp e [''-r'', src, dest] s = (with_root (update_at d (set_contents ?g)) s, Inr ())"
    unfolding command_cp_def opts using check step by (simp add: has_opt_def Let_def)
  have vy: "view_of ?y = (\<lambda>r. if r = [] then map_option (\<lambda>a. a\<lparr>A_NAME := x\<rparr>) (view_of ?root p) else view_of ?root (p @ r))"
  proof
    show "view_of ?y r = (if r = [] then map_option (\<lambda>a. a\<lparr>A_NAME := x\<rparr>) (view_of ?root p) else view_of ?root (p @ r))" for r
      using view_Some [OF l] by (cases r) (auto simp: named_def view_append lookup_locate l)
  qed
  have "good (update_at d (set_contents ?g) ?root) \<and> view_of (update_at d (set_contents ?g) ?root) = graft_view (q @ [x]) (view_of ?y) (view_of ?root)"
    using graft_at [of ?root q d ?y x ?g] assms(1) d y by (simp add: replace_entry_def)
  then show ?thesis unfolding run vy by simp
qed

theorem cp_r_copies_witness:
  "\<exists>s'. command_cp demo_env [''-r'', ''tmp'', ''/t2''] demo_session = (s', Inr ()) \<and>
     map_option A_NAME (view_of (root_of s') [''t2'']) = Some ''t2'' \<and> view_of (root_of s') [''tmp''] = view_of (root_of demo_session) [''tmp'']"
proof -
  have j: "join_path [''tmp''] = ''/tmp''" "join_path ([] @ [''t2'']) = ''/t2''" by (simp_all add: join_path_def)
  have r: "resolv demo_session ''tmp'' = Inr ''/tmp''" "resolv demo_session ''/t2'' = Inr ''/t2''"
    "path_basename (rstrip_char CHR ''/'' ''/t2'') = ''t2''" by code_simp+
  have g: "good (root_of demo_session)" "type_of (root_of demo_session) = T_DIR" and v: "view_of (root_of demo_session) [''tmp''] \<noteq> None"
    and n: "view_of (root_of demo_session) ([] @ [''t2'']) = None" and e: "ce_frames demo_env = Suc 8"
    by (simp_all add: demo_session_def demo_fs_def new_node_def demo_env_def)
  from cp_r_copies [of demo_session "''tmp''" "''/t2''" "[''tmp'']" "[]" "''t2''" demo_env 8] r g v n e
  obtain s' where s': "command_cp demo_env [''-r'', ''tmp'', ''/t2''] demo_session = (s', Inr ())"
    and w: "view_of (root_of s') = graft_view ([] @ [''t2'']) (\<lambda>r. if r = [] then map_option (\<lambda>a. a\<lparr>A_NAME := ''t2''\<rparr>)
        (view_of (root_of demo_session) [''tmp'']) else view_of (root_of demo_session) ([''tmp''] @ r)) (view_of (root_of demo_session))"
    unfolding j by (auto simp: plain_def)
  have "map_option A_NAME (view_of (root_of s') [''t2'']) = Some ''t2''" "view_of (root_of s') [''tmp''] = view_of (root_of demo_session) [''tmp'']"
    unfolding w using v by (auto simp: graft_view_def)
  with s' show ?thesis by blast
qed

section \<open>Moving\<close>

text \<open>A file moved to a name that another file has does not replace it: the directory has two entries of the name. A path
  finds the new one, a listing both, and removing takes both.\<close>

lemma mv_keeps_both:
  "case for_each (\<lambda>args. command_touch demo_env args) [[''a''], [''b'']] demo_session of (s, r) \<Rightarrow>
     r = Inr () \<and>
     (case command_mv demo_env [''a'', ''b''] s of (s', r') \<Rightarrow>
        r' = Inr () \<and> map name_of (A_CONTENTS (root_of s')) = [''tmp'', ''b'', ''b''])"
  by code_simp

text \<open>\<open>rmdir\<close> takes the name from the argument: with a slash at its end it finds nothing.\<close>

lemma rmdir_trailing_slash:
  "se_out (fst (command_rmdir demo_env [''tmp/''] demo_session)) =
     [Err (''rmdir: failed to remove `tmp/'' @ [CHR 0x27] @ '': No such file or directory'' @ nl)] \<and>
   root_of (fst (command_rmdir demo_env [''tmp''] demo_session)) \<noteq> root_of demo_session"
  by code_simp

text \<open>\<open>mkdir\<close> makes only the first of its directories, and raises where it means to report a missing parent.\<close>

lemma mkdir_first_only:
  "map name_of (A_CONTENTS (root_of (fst (command_mkdir demo_env [''x'', ''y''] demo_session)))) = [''tmp'', ''x''] \<and>
   command_mkdir demo_env [''no/x''] demo_session = (demo_session, Inl (OSError ENOENT))"
  by code_simp

text \<open>\<open>-R\<close>, which \<open>rm\<close> documents and looks for, is not among the options it accepts.\<close>

lemma rm_R_refused:
  "se_out (fst (command_rm demo_env [''-R'', ''tmp''] demo_session)) =
     [Err (''rm: invalid option -- '' @ [CHR 0x27] @ ''R'' @ [CHR 0x27] @ nl),
      Err (''Try '' @ [CHR 0x27] @ ''rm --help'' @ [CHR 0x27] @ '' for more information'' @ nl)]"
  by code_simp

section \<open>The end of a file\<close>

lemma split_lines:
  "\<forall>l \<in> set ls. CHR 0x0A \<notin> set l \<Longrightarrow> split_on CHR 0x0A (concat (map (\<lambda>l. l @ nl) ls)) = ls @ [[]]"
proof (induction ls)
  case (Cons l ls)
  have "split_on c (l @ c # t) = l # split_on c t" if "c \<notin> set l" for c :: char and t using that by (induction l) auto
  with Cons show ?case by simp
qed simp

text \<open>The pieces from the index \<open>k\<close> on, the first \<open>n\<close> of them with a line end.\<close>

lemma tail_range:
  "k \<le> length xs \<Longrightarrow> map (\<lambda>(i, j). py_nth xs j @ (if i < n then nl else [])) (enumerate b [int k .. int (length xs) - 1]) =
   map (\<lambda>(i, x). x @ (if i < n then nl else [])) (enumerate b (drop k xs))"
proof (induction "length xs - k" arbitrary: k b)
  case (Suc m)
  then have k: "k < length xs" by simp
  then have "[int k .. int (length xs) - 1] = int k # [int k + 1 .. int (length xs) - 1]" by (intro upto_rec1) simp
  then have "[int k .. int (length xs) - 1] = int k # [int (Suc k) .. int (length xs) - 1]" by (simp only: of_nat_Suc add.commute)
  moreover have "drop k xs = xs ! k # drop (Suc k) xs" using k by (simp add: Cons_nth_drop_Suc)
  ultimately show ?case using Suc.hyps(1) [of "Suc k" "Suc b"] Suc.hyps(2) k by (simp add: py_nth_def)
qed simp

lemma enumerate_lines:
  "concat (map (\<lambda>(i, x). x @ (if i < b + length ls then nl else [])) (enumerate b (ls @ [[]]))) = concat (map (\<lambda>l. l @ nl) ls)"
proof (induction ls arbitrary: b)
  case (Cons l ls)
  from Cons.IH [of "Suc b"] show ?case by simp
qed simp

text \<open>Of a text of whole lines \<open>tail\<close> prints the last \<open>n\<close>, or all if there are not more, except when there are
  exactly \<open>n - 1\<close>: then the range begins at the index -1 and an empty line comes first.\<close>

theorem tail_last_lines:
  assumes "\<forall>l \<in> set ls. CHR 0x0A \<notin> set l"
  shows "snd (tail_application n (concat (map (\<lambda>l. l @ nl) ls))) =
    (if n = length ls + 1 then nl else []) @ concat (map (\<lambda>l. l @ nl) (drop (length ls - n) ls))"
proof -
  let ?xs = "ls @ [[]]"
  define range where "range = (\<lambda>a. [a .. int (length ?xs) - 1])"
  define print where "print = (\<lambda>n b js. concat (map (\<lambda>(i, j). py_nth ?xs j @ (if i < n then nl else [])) (enumerate b js)))"
  have app: "snd (tail_application n (concat (map (\<lambda>l. l @ nl) ls))) =
      (if length ls + 1 < n then print (length ls) 0 (range 0) else print n 0 (range (int (length ls) - int n)))"
    unfolding tail_application_def split_lines [OF assms] Let_def print_def range_def by simp
  have printed: "print (b + (length ls - k)) b (range (int k)) = concat (map (\<lambda>l. l @ nl) (drop k ls))" if "k \<le> length ls" for k b
    using tail_range [of k ?xs "b + (length ls - k)" b] enumerate_lines [of b "drop k ls"] that by (simp add: print_def range_def)
  consider "n \<le> length ls" | "n = length ls + 1" | "length ls + 1 < n" by linarith
  then show ?thesis
  proof cases
    case 1
    then have "int (length ls) - int n = int (length ls - n)" "0 + (length ls - (length ls - n)) = n" by simp_all
    then have "print n 0 (range (int (length ls) - int n)) = concat (map (\<lambda>l. l @ nl) (drop (length ls - n) ls))"
      using printed [of "length ls - n" 0] by (simp only: diff_le_self)
    with 1 show ?thesis unfolding app by simp
  next
    case 2
    then have "int (length ls) - int n = -1" by simp
    then have "range (int (length ls) - int n) = -1 # range (int 0)" unfolding range_def by (simp add: upto_rec1)
    moreover have "py_nth ?xs (-1) = []" by (simp add: py_nth_def nth_append)
    then have "print n 0 (-1 # js) = nl @ print n 1 js" for js using 2 by (simp add: print_def)
    ultimately show ?thesis using printed [of 0 1] 2 unfolding app by simp
  next
    case 3
    with printed [of 0 0] show ?thesis unfolding app by simp
  qed
qed

theorem tail_last_lines_witness:
  "snd (tail_application 2 (''a'' @ nl @ ''b'' @ nl @ ''c'' @ nl)) = ''b'' @ nl @ ''c'' @ nl \<and>
   snd (tail_application 4 (''a'' @ nl @ ''b'' @ nl @ ''c'' @ nl)) = nl @ ''a'' @ nl @ ''b'' @ nl @ ''c'' @ nl"
  using tail_last_lines [of "[''a'', ''b'', ''c'']" 2] tail_last_lines [of "[''a'', ''b'', ''c'']" 4] by simp

end
