(* ===== verification/Shlex.thy ===== *)
theory Shlex
  imports PyStr
begin

text \<open>
  The lexer of the standard library the shell reads its lines with (\<open>shlex\<close> in its POSIX mode): in
  \<open>cowrie/shell/honeypot.py\<close> with punctuation characters and a longer list of word characters, in
  \<open>cowrie/shell/command.py\<close> as \<open>shlex.split\<close>. A character is a code point below 256.
\<close>

section \<open>Characters\<close>

record lexcfg =
  lc_word :: "char \<Rightarrow> bool"
  lc_punct :: "char \<Rightarrow> bool"
  lc_split :: bool
  lc_comments :: bool

definition blank :: "char \<Rightarrow> bool" where
  "blank c \<longleftrightarrow> c \<in> {CHR '' '', CHR 0x09, CHR 0x0D, CHR 0x0A}"

definition quote_char :: "char \<Rightarrow> bool" where
  "quote_char c \<longleftrightarrow> c = CHR 0x27 \<or> c = CHR 0x22"

abbreviation backslash :: char where
  "backslash \<equiv> CHR 0x5C"

definition ascii_alnum :: "char \<Rightarrow> bool" where
  "ascii_alnum c \<longleftrightarrow> (let n = code c in 48 \<le> n \<and> n \<le> 57 \<or> 65 \<le> n \<and> n \<le> 90 \<or> 97 \<le> n \<and> n \<le> 122)"

text \<open>Letters, digits, the underscore and the letters of Latin-1.\<close>

definition base_word :: "char \<Rightarrow> bool" where
  "base_word c \<longleftrightarrow> ascii_alnum c \<or> c = CHR ''_'' \<or> (192 \<le> code c \<and> code c \<noteq> 215 \<and> code c \<noteq> 247)"

definition shell_cfg :: lexcfg where
  "shell_cfg = \<lparr>lc_word = (\<lambda>c. base_word c \<or> c \<in> set (''~-./*?='' @ ''@%{}=$:+^,()'' @ [CHR 0x60])),
     lc_punct = (\<lambda>c. c \<in> set ''();<>|&''), lc_split = False, lc_comments = True\<rparr>"

definition split_cfg :: lexcfg where
  "split_cfg = \<lparr>lc_word = base_word, lc_punct = (\<lambda>_. False), lc_split = True, lc_comments = False\<rparr>"

section \<open>One token\<close>

text \<open>The state of the lexer: \<open>Blank\<close> is its \<open>' '\<close>, \<open>Word\<close> its \<open>'a'\<close>, \<open>Punct\<close> its \<open>'c'\<close>. A character that
  is pushed back is put in front of the text again.\<close>

datatype lexstate = Blank | Word | Punct | Quote char | Escape | AtEnd

text \<open>The rest of the text behind the end of a line.\<close>

fun after_line :: "string \<Rightarrow> string" where
  "after_line [] = []"
| "after_line (c # cs) = (if c = CHR 0x0A then cs else after_line cs)"

lemma length_after_line: "length (after_line cs) \<le> length cs"
  by (induction cs) auto

lemma after_line_less: "2 * length (after_line cs) < Suc (Suc (2 * length cs))" "2 * length (after_line cs) < Suc (Suc (Suc (2 * length cs)))"
  using length_after_line [of cs] by simp_all

type_synonym scanned = "string option result \<times> lexstate \<times> string"

definition emit :: "bool \<Rightarrow> string \<Rightarrow> string option result" where
  "emit quoted tok = Inr (if tok = [] \<and> \<not> quoted then None else Some tok)"

text \<open>\<open>read_token\<close>: the state, whether a quote was seen, the state an escape returns to, the token so far, the text.\<close>

function read_token :: "lexcfg \<Rightarrow> lexstate \<Rightarrow> bool \<Rightarrow> lexstate \<Rightarrow> string \<Rightarrow> string \<Rightarrow> scanned" where
  "read_token g st q esc tok [] =
     (case st of
        AtEnd \<Rightarrow> (emit q [], AtEnd, [])
      | Quote d \<Rightarrow> (Inl ValueError, st, [])
      | Escape \<Rightarrow> (Inl ValueError, st, [])
      | _ \<Rightarrow> (emit q tok, AtEnd, []))"
| "read_token g AtEnd q esc tok (c # cs) = (emit q [], AtEnd, cs)"
| "read_token g Blank q esc tok (c # cs) =
     (if blank c then if tok \<noteq> [] \<or> q then (emit q tok, Blank, cs) else read_token g Blank q esc tok cs
      else if lc_comments g \<and> c = CHR ''#'' then read_token g Blank q esc tok (after_line cs)
      else if c = backslash then read_token g Escape q Word tok cs
      else if lc_word g c then read_token g Word q esc [c] cs
      else if lc_punct g c then read_token g Punct q esc [c] cs
      else if quote_char c then read_token g (Quote c) q esc tok cs
      else if lc_split g then read_token g Word q esc [c] cs
      else (emit q [c], Blank, cs))"
| "read_token g (Quote d) q esc tok (c # cs) =
     (if c = d then read_token g Word True esc tok cs
      else if c = backslash \<and> d = CHR 0x22 then read_token g Escape True (Quote d) tok cs
      else read_token g (Quote d) True esc (tok @ [c]) cs)"
| "read_token g Escape q esc tok (c # cs) =
     read_token g esc q esc
       (tok @ (case esc of Quote d \<Rightarrow> if c \<noteq> backslash \<and> c \<noteq> d then [backslash] else [] | _ \<Rightarrow> []) @ [c]) cs"
| "read_token g Punct q esc tok (c # cs) =
     (if blank c then if tok \<noteq> [] \<or> q then (emit q tok, Blank, cs) else read_token g Blank q esc tok cs
      else if lc_comments g \<and> c = CHR ''#''
      then if tok \<noteq> [] \<or> q then (emit q tok, Blank, after_line cs) else read_token g Blank q esc tok (after_line cs)
      else if lc_punct g c then read_token g Punct q esc (tok @ [c]) cs
      else (emit q tok, Blank, c # cs))"
| "read_token g Word q esc tok (c # cs) =
     (if blank c then if tok \<noteq> [] \<or> q then (emit q tok, Blank, cs) else read_token g Blank q esc tok cs
      else if lc_comments g \<and> c = CHR ''#''
      then if tok \<noteq> [] \<or> q then (emit q tok, Blank, after_line cs) else read_token g Blank q esc tok (after_line cs)
      else if quote_char c then read_token g (Quote c) q esc tok cs
      else if c = backslash then read_token g Escape q Word tok cs
      else if lc_word g c \<or> lc_split g \<and> \<not> lc_punct g c then read_token g Word q esc (tok @ [c]) cs
      else if tok \<noteq> [] \<or> q then (emit q tok, Blank, c # cs) else read_token g Blank q esc tok (c # cs))"
  by pat_completeness auto
termination
  by (relation "measure (\<lambda>(g, st, q, esc, tok, cs). 2 * length cs + (if st = Word then 1 else 0))")
    (auto simp: after_line_less split: lexstate.splits)

declare read_token.simps [simp del]

lemma emit_Some: "emit q tok = Inr (Some t) \<longleftrightarrow> t = tok \<and> (tok \<noteq> [] \<or> q)"
  by (auto simp: emit_def)

lemma length_read_token:
  "read_token g st q esc tok cs = (Inr (Some t), st', rest) \<Longrightarrow>
     length rest + (if tok = [] \<and> \<not> q \<and> st \<noteq> Punct then 1 else 0) \<le> length cs"
proof (induction g st q esc tok cs arbitrary: t rule: read_token.induct)
  case (1 g st q esc tok)
  then show ?case by (auto simp: read_token.simps emit_Some split: lexstate.splits)
next
  case (3 g q esc tok c cs)
  show ?case using 3 length_after_line [of cs]
    by (fastforce simp: read_token.simps(3) emit_Some split: if_splits)
next
  case (6 g q esc tok c cs)
  then show ?case using length_after_line [of cs]
    by (fastforce simp: read_token.simps(6) emit_Some split: if_splits)
next
  case (7 g q esc tok c cs)
  then show ?case using length_after_line [of cs]
    by (fastforce simp: read_token.simps(7) emit_Some split: if_splits)
qed (fastforce simp: read_token.simps emit_Some split: if_splits)+

section \<open>All tokens\<close>

text \<open>The tokens up to the end of the text, and whether the lexer raises behind the last one. What the lexer
  yields depends on the text alone, so the stream can be taken before its tokens are asked for.\<close>

type_synonym stream = "string list \<times> bool"

function lex_from :: "lexcfg \<Rightarrow> lexstate \<Rightarrow> string \<Rightarrow> stream" where
  "lex_from g st cs =
     (if cs = [] \<and> st \<in> {Blank, AtEnd} then ([], False)
      else case read_token g st False Blank [] cs of
        (Inl _, _) \<Rightarrow> ([], True)
      | (Inr None, _) \<Rightarrow> ([], False)
      | (Inr (Some t), st', rest) \<Rightarrow>
          (if length rest < length cs then (let (ts, bad) = lex_from g st' rest in (t # ts, bad)) else ([t], False)))"
  by pat_completeness auto
termination by (relation "measure (\<lambda>(g, st, cs). length cs)") auto

declare lex_from.simps [simp del]

definition lex :: "lexcfg \<Rightarrow> string \<Rightarrow> stream" where
  "lex g line = lex_from g Blank line"

text \<open>\<open>get_token\<close> on a stream.\<close>

fun next_token :: "stream \<Rightarrow> (string option \<times> stream) result" where
  "next_token (t # ts, bad) = Inr (Some t, (ts, bad))"
| "next_token ([], True) = Inl ValueError"
| "next_token ([], False) = Inr (None, ([], False))"

text \<open>\<open>shlex.split\<close>.\<close>

definition shlex_split :: "string \<Rightarrow> string list result" where
  "shlex_split line = (case lex split_cfg line of (ts, bad) \<Rightarrow> if bad then Inl ValueError else Inr ts)"

text \<open>The guard of the recursion never fails on a state the lexer starts a token in.\<close>

lemma lex_from_step:
  "read_token g st False Blank [] cs = (Inr (Some t), st', rest) \<Longrightarrow> st \<noteq> Punct \<Longrightarrow> \<not> (cs = [] \<and> st \<in> {Blank, AtEnd}) \<Longrightarrow>
     lex_from g st cs = (t # fst (lex_from g st' rest), snd (lex_from g st' rest))"
  using length_read_token [of g st False Blank "[]" cs t st' rest]
  by (subst lex_from.simps) (simp add: case_prod_beta)

section \<open>Words the lexer reads\<close>

definition reads :: "lexcfg \<Rightarrow> string \<Rightarrow> string \<Rightarrow> bool" where
  "reads g s w \<longleftrightarrow> s \<noteq> [] \<and>
     (\<forall>rest. read_token g Blank False Blank [] s = (Inr (Some w), AtEnd, []) \<and>
             read_token g Blank False Blank [] (s @ CHR '' '' # rest) = (Inr (Some w), Blank, rest))"

lemma lex_join: "list_all2 (reads g) ss ws \<Longrightarrow> lex g (join_on '' '' ss) = (ws, False)"
proof (induction ss ws rule: list_all2_induct)
  case Nil
  show ?case by (simp add: lex_def lex_from.simps)
next
  case (Cons s ss w ws)
  show ?case
  proof (cases ss)
    case Nil
    then have "ws = []" using Cons.hyps by simp
    then show ?thesis using Nil Cons.hyps(1) lex_from_step [of g Blank s w AtEnd "[]"]
      by (simp add: lex_def reads_def lex_from.simps [of g AtEnd "[]"])
  next
    case (Cons s' ss')
    then have "join_on '' '' (s # ss) = s @ CHR '' '' # join_on '' '' ss" by simp
    then show ?thesis using Cons.hyps(1) Cons.IH lex_from_step [of g Blank "s @ CHR '' '' # join_on '' '' ss" w Blank "join_on '' '' ss"]
      by (simp add: lex_def reads_def)
  qed
qed

text \<open>A word of word characters reads as itself.\<close>

definition plain_word :: "lexcfg \<Rightarrow> string \<Rightarrow> bool" where
  "plain_word g w \<longleftrightarrow> w \<noteq> [] \<and> (\<forall>c \<in> set w. lc_word g c \<and> \<not> blank c \<and> c \<noteq> CHR ''#'' \<and> \<not> quote_char c \<and> c \<noteq> backslash)"

lemma read_word:
  "\<forall>c \<in> set w. lc_word g c \<and> \<not> blank c \<and> c \<noteq> CHR ''#'' \<and> \<not> quote_char c \<and> c \<noteq> backslash \<Longrightarrow>
     read_token g Word q esc tok (w @ rest) = read_token g Word q esc (tok @ w) rest"
  by (induction w arbitrary: tok) (simp_all add: read_token.simps)

lemma reads_plain: "plain_word g w \<Longrightarrow> reads g w w"
proof (cases w)
  case (Cons c cs)
  assume p: "plain_word g w"
  then have c: "\<forall>d \<in> set cs. lc_word g d \<and> \<not> blank d \<and> d \<noteq> CHR ''#'' \<and> \<not> quote_char d \<and> d \<noteq> backslash"
    and d: "lc_word g c" "\<not> blank c" "c \<noteq> CHR ''#''" "c \<noteq> backslash" using Cons by (simp_all add: plain_word_def)
  have first: "read_token g Blank False Blank [] (w @ rest) = read_token g Word False Blank w rest" for rest
    using d read_word [OF c, of False Blank "[c]" rest] by (simp add: Cons read_token.simps)
  show ?thesis using first [of "[]"] first Cons by (simp add: reads_def read_token.simps emit_def blank_def)
qed (simp add: plain_word_def)

text \<open>\<open>shlex.quote\<close>, its quotes written out for every word.\<close>

definition quote :: "string \<Rightarrow> string" where
  "quote w = CHR 0x27 # concat (map (\<lambda>c. if c = CHR 0x27 then [CHR 0x27, CHR 0x22, CHR 0x27, CHR 0x22, CHR 0x27] else [c]) w) @ [CHR 0x27]"

lemma read_quoted:
  "read_token g (Quote CHR 0x27) q esc tok
     (concat (map (\<lambda>c. if c = CHR 0x27 then [CHR 0x27, CHR 0x22, CHR 0x27, CHR 0x22, CHR 0x27] else [c]) w) @ CHR 0x27 # rest) =
   read_token g Word True esc (tok @ w) rest"
proof (induction w arbitrary: q tok)
  case Nil
  show ?case by (simp add: read_token.simps)
next
  case (Cons c w)
  then show ?case by (simp add: read_token.simps quote_char_def blank_def)
qed

lemma reads_quote: "\<not> lc_word g CHR 0x27 \<Longrightarrow> \<not> lc_punct g CHR 0x27 \<Longrightarrow> reads g (quote w) w"
proof -
  assume a: "\<not> lc_word g CHR 0x27" "\<not> lc_punct g CHR 0x27"
  have first: "read_token g Blank False Blank [] (quote w @ rest) = read_token g Word True Blank w rest" for rest
    using read_quoted [of g False Blank "[]" w rest] a by (simp add: quote_def read_token.simps blank_def quote_char_def)
  have ne: "quote w \<noteq> []" by (simp add: quote_def)
  show ?thesis using first [of "[]"] first [of "CHR '' '' # _"] ne by (simp add: reads_def read_token.simps emit_def blank_def)
qed

end
