(* ===== verification/Shell.thy ===== *)
theory Shell
  imports FsCommands Shlex
begin

text \<open>
  The shell of Cowrie: \<open>cowrie/shell/honeypot.py\<close>, the commands it runs (\<open>cowrie/shell/command.py\<close>) and the protocol that keeps
  their stack (\<open>cowrie/shell/protocol.py\<close>), with \<open>sh\<close> and \<open>exit\<close> of \<open>cowrie/commands/bash.py\<close>. Shells, emulated processes and
  command objects are referred to by number in the lists of a session, as the code refers to its objects: what is
  kept in one of them is seen through every reference. The functions that call one another (a command that ends
  resumes the shell below it, which runs the next command, and so on) take fuel, and are None when it runs out.
  The dictionary of commands is a parameter: what a command does is a program of reads, updates and writes.
\<close>

section \<open>Commands\<close>

datatype prog =
    Done
  | Fail py_exn
  | Write string prog
  | ErrWrite string prog
  | Look "cenv \<Rightarrow> session \<Rightarrow> prog"
  | Update session prog

text \<open>A command ends when its \<open>call\<close> returns, or it waits (for its input, or for the network) and ends later. Its
  arguments and what the pipe left for it are the arguments of its program.\<close>

type_synonym body = "string list \<Rightarrow> string option \<Rightarrow> prog"

datatype cmdclass = Command body | Waiting body | Command_sh | Command_exit

section \<open>State\<close>

record shell =
  hs_interactive :: bool
  hs_redirect :: bool
  hs_pending :: "string list list"
  hs_environ :: "string \<rightharpoonup> string"

text \<open>\<open>StdOutStdErrEmulationProtocol\<close>.\<close>

record emulation =
  pp_class :: cmdclass
  pp_args :: "string list"
  pp_input :: "string option"
  pp_next :: "nat option"
  pp_redirect :: bool
  pp_redirected :: string

datatype writefn = To_pp | To_file | To_failed

text \<open>\<open>HoneyPotCommand\<close>.\<close>

record cmdobj =
  co_class :: cmdclass
  co_args :: "string list"
  co_environ :: "string \<rightharpoonup> string"
  co_pp :: nat
  co_writefn :: writefn
  co_outfile :: "string option"
  co_safeoutfile :: string
  co_written :: int
  co_input :: "string option"

datatype entry = Sh nat | Co nat

datatype terminal_event = Sent string | Ended

text \<open>\<open>HoneyPotBaseProtocol\<close>; \<open>bp_exec\<close> tells the protocol of a single command from the interactive one.\<close>

record protocol =
  bp_exec :: bool
  bp_session :: session
  bp_env :: cenv
  bp_user :: string
  bp_hostname :: string
  bp_environ :: "string \<rightharpoonup> string"
  bp_window :: "(nat \<times> nat) option"
  bp_stack :: "entry list"
  bp_pp :: "nat option"
  bp_shells :: "shell list"
  bp_pps :: "emulation list"
  bp_cmds :: "cmdobj list"
  bp_term :: "terminal_event list"
  bp_redirs :: "(string \<times> string) list"

text \<open>The dictionary of commands, the texts of \<open>txtcmds\<close>, the prompt of the configuration, and the time and the numbers of
  the transport and the session that name a file of output.\<close>

record site =
  si_commands :: "string \<rightharpoonup> cmdclass"
  si_txtcmd :: "string \<rightharpoonup> string"
  si_prompt :: "string option"
  si_stamp :: string

type_synonym 'a step = "protocol \<times> 'a result"

definition sent :: "string \<Rightarrow> protocol \<Rightarrow> protocol" where
  "sent s p = p\<lparr>bp_term := bp_term p @ [Sent s]\<rparr>"

definition ended :: "protocol \<Rightarrow> protocol" where
  "ended p = p\<lparr>bp_term := bp_term p @ [Ended]\<rparr>"

abbreviation shell_of :: "protocol \<Rightarrow> nat \<Rightarrow> shell" where
  "shell_of p i \<equiv> bp_shells p ! i"

definition set_pending :: "nat \<Rightarrow> string list list \<Rightarrow> protocol \<Rightarrow> protocol" where
  "set_pending i cs p = p\<lparr>bp_shells := (bp_shells p)[i := (shell_of p i)\<lparr>hs_pending := cs\<rparr>]\<rparr>"

definition bindP :: "'a step option \<Rightarrow> ('a \<Rightarrow> protocol \<Rightarrow> 'b step option) \<Rightarrow> 'b step option" where
  "bindP m f = (case m of None \<Rightarrow> None | Some (p, Inl e) \<Rightarrow> Some (p, Inl e) | Some (p, Inr v) \<Rightarrow> f v p)"

lemma bindP_simps [simp]:
  "bindP None f = None" "bindP (Some (p, Inl e)) f = Some (p, Inl e)" "bindP (Some (p, Inr v)) f = f v p"
  by (simp_all add: bindP_def)

text \<open>\<open>str_encode\<close> and \<open>bytes_decode\<close>, on the code points below 256.\<close>

fun str_encode :: "string \<Rightarrow> string" where
  "str_encode [] = []"
| "str_encode (c # cs) =
     (if code c < 128 then c # str_encode cs else char_of (192 + code c div 64) # char_of (128 + code c mod 64) # str_encode cs)"

fun bytes_decode :: "string \<Rightarrow> string result" where
  "bytes_decode [] = Inr []"
| "bytes_decode [c] = (if code c < 128 then Inr [c] else Inl ValueError)"
| "bytes_decode (c # d # cs) =
     (if code c < 128 then map_sum id ((#) c) (bytes_decode (d # cs))
      else if code c \<in> {194, 195} \<and> 128 \<le> code d \<and> code d < 192
      then map_sum id ((#) (char_of ((code c - 192) * 64 + (code d - 128)))) (bytes_decode cs)
      else Inl ValueError)"

section \<open>Prompt and dictionary\<close>

definition prompt_text :: "site \<Rightarrow> protocol \<Rightarrow> string" where
  "prompt_text g p =
     (case si_prompt g of
        Some s \<Rightarrow> s @ '' ''
      | None \<Rightarrow>
          let cwd = se_cwd (bp_session p); home = ce_home (bp_env p); n = length home;
              cwd = (if cwd = home then ''~''
                     else if n + 1 < length cwd \<and> take (n + 1) cwd = home @ ''/'' then ''~'' @ drop n cwd else cwd)
          in bp_user p @ ''@'' @ bp_hostname p @ '':'' @ cwd @ (if ce_uid (bp_env p) = 0 then ''# '' else ''$ ''))"

definition showPrompt :: "site \<Rightarrow> nat \<Rightarrow> protocol \<Rightarrow> unit step" where
  "showPrompt g i p =
     (if \<not> hs_interactive (shell_of p i) then (p, Inr ())
      else if \<exists>c \<in> set (prompt_text g p). 128 \<le> code c then (p, Inl ValueError)
      else (sent (prompt_text g p) p, Inr ()))"

definition find_path :: "nat \<Rightarrow> session \<Rightarrow> string \<Rightarrow> string list \<Rightarrow> string option result" where
  "find_path frames s cmd dirs =
     foldr (\<lambda>d r. bindE (exists_path frames (root_of s) (d @ ''/'' @ cmd)) (\<lambda>ex. if ex then Inr (Some (d @ ''/'' @ cmd)) else r))
       dirs (Inr None)"

fun resolv_all :: "session \<Rightarrow> string list \<Rightarrow> string list result" where
  "resolv_all s [] = Inr []"
| "resolv_all s (x # xs) = bindE (resolv s x) (\<lambda>y. bindE (resolv_all s xs) (\<lambda>ys. Inr (y # ys)))"

text \<open>A file of \<open>txtcmds\<close> is written out as it is.\<close>

definition txtcmd :: "string \<Rightarrow> cmdclass" where
  "txtcmd contents = Command (\<lambda>_ _. Write (str_encode contents) Done)"

definition getCommand :: "site \<Rightarrow> protocol \<Rightarrow> string \<Rightarrow> string list \<Rightarrow> cmdclass option result" where
  "getCommand g p cmd paths =
     (let s = bp_session p; frames = ce_frames (bp_env p);
          found = (\<lambda>path. Inr (case si_txtcmd g (case path of None \<Rightarrow> ''None'' | Some x \<Rightarrow> x) of
              Some contents \<Rightarrow> Some (txtcmd contents)
            | None \<Rightarrow> (case path of None \<Rightarrow> None | Some x \<Rightarrow> si_commands g x)))
      in if strip cmd = [] then Inr None
         else case si_commands g cmd of
           Some cls \<Rightarrow> Inr (Some cls)
         | None \<Rightarrow>
             if hd cmd \<in> {CHR ''.'', CHR ''/''} then
               bindE (resolv s cmd) (\<lambda>path. bindE (exists_path frames (root_of s) path) (\<lambda>ex.
                 if ex then found (Some path) else Inr None))
             else bindE (resolv_all s paths) (\<lambda>dirs. bindE (find_path frames s cmd dirs) found))"

section \<open>What a command writes\<close>

text \<open>\<open>outReceived\<close>: the next command's input, or the terminal, or the text of a redirected shell.\<close>

definition outReceived :: "nat \<Rightarrow> string \<Rightarrow> protocol \<Rightarrow> protocol" where
  "outReceived q d p =
     (let pp = bp_pps p ! q in
      case pp_next pp of
        Some r \<Rightarrow>
          let nxt = bp_pps p ! r in
          p\<lparr>bp_pps := (bp_pps p)[r := nxt\<lparr>pp_input := Some (case pp_input nxt of None \<Rightarrow> d | Some x \<Rightarrow> x @ d)\<rparr>]\<rparr>
      | None \<Rightarrow>
          if pp_redirect pp then p\<lparr>bp_pps := (bp_pps p)[q := pp\<lparr>pp_redirected := pp_redirected pp @ d\<rparr>]\<rparr> else sent d p)"

text \<open>Bytes at the end of a file of the host, which is made if it is not there.\<close>

definition host_append :: "string \<Rightarrow> string \<Rightarrow> cenv \<Rightarrow> cenv" where
  "host_append f d e =
     (let h = ce_host e in
      e\<lparr>ce_host := h\<lparr>h_isfile := (h_isfile h)(f := True),
          h_read := (h_read h)(f := (if h_isfile h f then h_read h f else []) @ d)\<rparr>\<rparr>)"

definition in_session :: "(fs_state \<Rightarrow> fs_state) \<Rightarrow> protocol \<Rightarrow> protocol" where
  "in_session f p = p\<lparr>bp_session := (bp_session p)\<lparr>se_fs := f (se_fs (bp_session p))\<rparr>\<rparr>"

definition write_to_file :: "nat \<Rightarrow> string \<Rightarrow> protocol \<Rightarrow> unit step" where
  "write_to_file c d p =
     (let co = bp_cmds p ! c; n = co_written co + int (length d);
          p = p\<lparr>bp_env := host_append (co_safeoutfile co) d (bp_env p), bp_cmds := (bp_cmds p)[c := co\<lparr>co_written := n\<rparr>]\<rparr> in
      case co_outfile co of
        None \<Rightarrow> (p, Inl AttributeError)
      | Some f \<Rightarrow>
          (case update_size (ce_frames (bp_env p)) f n (se_fs (bp_session p)) of (v, r) \<Rightarrow> (in_session (\<lambda>_. v) p, r)))"

definition do_write :: "nat \<Rightarrow> string \<Rightarrow> protocol \<Rightarrow> unit step" where
  "do_write c d p =
     (case co_writefn (bp_cmds p ! c) of
        To_pp \<Rightarrow> (outReceived (co_pp (bp_cmds p ! c)) d p, Inr ())
      | To_file \<Rightarrow> write_to_file c d p
      | To_failed \<Rightarrow> (p, Inr ()))"

primrec run_prog :: "prog \<Rightarrow> nat \<Rightarrow> protocol \<Rightarrow> unit step" where
  "run_prog Done c p = (p, Inr ())"
| "run_prog (Fail x) c p = (p, Inl x)"
| "run_prog (Write d k) c p = (case do_write c d p of (p, Inl x) \<Rightarrow> (p, Inl x) | (p, Inr _) \<Rightarrow> run_prog k c p)"
| "run_prog (ErrWrite d k) c p = run_prog k c (sent d p)"
| "run_prog (Look f) c p = run_prog (f (bp_env p) (bp_session p)) c p"
| "run_prog (Update s k) c p = run_prog k c (p\<lparr>bp_session := s\<rparr>)"

section \<open>Objects\<close>

text \<open>\<open>HoneyPotShell.__init__\<close>: the environment of the session, with the size of the window.\<close>

definition new_shell :: "site \<Rightarrow> bool \<Rightarrow> bool \<Rightarrow> protocol \<Rightarrow> nat step" where
  "new_shell g interactive redirect p =
     (let env = (case bp_window p of
            None \<Rightarrow> bp_environ p
          | Some (rows, columns) \<Rightarrow> (bp_environ p)(''COLUMNS'' \<mapsto> show_nat columns, ''LINES'' \<mapsto> show_nat rows));
          i = length (bp_shells p);
          p = p\<lparr>bp_shells := bp_shells p @ [\<lparr>hs_interactive = interactive, hs_redirect = redirect, hs_pending = [], hs_environ = env\<rparr>]\<rparr>
      in case showPrompt g i p of (p, r) \<Rightarrow> (p, map_sum id (\<lambda>_. i) r))"

definition push :: "entry \<Rightarrow> protocol \<Rightarrow> protocol" where
  "push x p = p\<lparr>bp_stack := bp_stack p @ [x]\<rparr>"

text \<open>\<open>cmdstack.pop()\<close>.\<close>

definition pop_stack :: "protocol \<Rightarrow> unit step" where
  "pop_stack p = (if bp_stack p = [] then (p, Inl IndexError) else (p\<lparr>bp_stack := butlast (bp_stack p)\<rparr>, Inr ()))"

text \<open>The environment of an entry of the stack; a command has that of the entry below it.\<close>

definition environ_of :: "protocol \<Rightarrow> entry \<Rightarrow> (string \<rightharpoonup> string)" where
  "environ_of p x = (case x of Sh i \<Rightarrow> hs_environ (shell_of p i) | Co c \<Rightarrow> co_environ (bp_cmds p ! c))"

text \<open>The name of the host file behind a redirection.\<close>

definition redir_name :: "site \<Rightarrow> cenv \<Rightarrow> string \<Rightarrow> string" where
  "redir_name g e outfile =
     h_download_path (ce_host e) @ ''/'' @ si_stamp g @ ''-redir_'' @ map (\<lambda>c. if ascii_alnum c then c else CHR ''_'') outfile"

text \<open>The first position of an element that is in the list.\<close>

definition index_of :: "'a \<Rightarrow> 'a list \<Rightarrow> nat" where
  "index_of x xs = length (takeWhile (\<lambda>y. y \<noteq> x) xs)"

text \<open>The redirection of \<open>HoneyPotCommand.__init__\<close>: the file is made, unless it is appended to and has one of the
  attacker's files behind it. The command is the last of the list, with its number \<open>c\<close>.\<close>

definition set_cmd :: "nat \<Rightarrow> (cmdobj \<Rightarrow> cmdobj) \<Rightarrow> protocol \<Rightarrow> protocol" where
  "set_cmd c f p = p\<lparr>bp_cmds := (bp_cmds p)[c := f (bp_cmds p ! c)]\<rparr>"

definition to_failed :: "nat \<Rightarrow> string \<Rightarrow> string \<Rightarrow> protocol \<Rightarrow> unit step" where
  "to_failed c outfile why p =
     (set_cmd c (\<lambda>co. co\<lparr>co_writefn := To_failed, co_outfile := None, co_safeoutfile := []\<rparr>)
        (sent (str_encode (''-bash: '' @ outfile @ '': '' @ why @ nl)) p), Inr ())"

definition make_outfile :: "site \<Rightarrow> nat \<Rightarrow> string \<Rightarrow> protocol \<Rightarrow> unit step" where
  "make_outfile g c outfile p =
     (let e = bp_env p; safe = redir_name g e outfile;
          p = set_cmd c (\<lambda>co. co\<lparr>co_safeoutfile := safe\<rparr>) p in
      case mkfile (ce_frames e) outfile (ce_uid e) (ce_gid e) 0 33188 (ce_now e) (se_fs (bp_session p)) of
        (v, Inl x) \<Rightarrow>
          let p = in_session (\<lambda>_. v) p in
          if x = FileNotFound then to_failed c outfile ''No such file or directory'' p
          else if x = PermissionDenied then to_failed c outfile ''Permission denied'' p
          else (p, Inl x)
      | (v, Inr _) \<Rightarrow>
          let p = in_session (\<lambda>_. v) (p\<lparr>bp_env := host_append safe [] e\<rparr>) in
          case getfile (ce_frames e) (fs_root v) outfile True of
            Inl x \<Rightarrow> (p, Inl x)
          | Inr None \<Rightarrow> (p, Inl TypeError)
          | Inr (Some l) \<Rightarrow>
              (in_session (\<lambda>v. v\<lparr>fs_root := update_realfile (ce_host (bp_env p)) l safe (fs_root v)\<rparr>) p, Inr ()))"

definition redirect_output :: "site \<Rightarrow> nat \<Rightarrow> protocol \<Rightarrow> unit step" where
  "redirect_output g c p =
     (let args = co_args (bp_cmds p ! c); e = bp_env p; s = bp_session p in
      if ''>'' \<notin> set args \<and> ''>>'' \<notin> set args then (p, Inr ())
      else if last args \<in> {''>'', ''>>''}
      then (sent (''-bash: parse error near '' @ [CHR 0x27, CHR 0x5C, CHR ''n'', CHR 0x27] @ '' '' @ nl) p, Inr ())
      else
        let append = (''>>'' \<in> set args); k = index_of (if append then ''>>'' else ''>'') args;
            p = set_cmd c (\<lambda>co. co\<lparr>co_writefn := To_file, co_written := 0\<rparr>) p in
        case resolv s (args ! (k + 1)) of
          Inl x \<Rightarrow> (p, Inl x)
        | Inr outfile \<Rightarrow>
            let p = set_cmd c (\<lambda>co. co\<lparr>co_outfile := Some outfile, co_args := take k args\<rparr>) p in
            case getfile (ce_frames e) (root_of s) outfile True of
              Inl x \<Rightarrow> (p, Inl x)
            | Inr l \<Rightarrow>
                (case (case l of None \<Rightarrow> None | Some l \<Rightarrow> A_REALFILE (A (node_at (root_of s) l))) of
                   Some real \<Rightarrow>
                     if real = [] \<or> prefix ''honeyfs'' real \<or> \<not> append then make_outfile g c outfile p
                     else (set_cmd c (\<lambda>co. co\<lparr>co_safeoutfile := real\<rparr>) p, Inr ())
                 | None \<Rightarrow> make_outfile g c outfile p))"

text \<open>The command object of an emulated process, which is the one of the protocol; then its input, and the stack.\<close>

definition new_command :: "site \<Rightarrow> nat \<Rightarrow> protocol \<Rightarrow> nat step" where
  "new_command g q p =
     (if bp_stack p = [] then (p, Inl IndexError)
      else
        let pp = bp_pps p ! q; c = length (bp_cmds p);
            p = p\<lparr>bp_cmds := bp_cmds p @
                 [\<lparr>co_class = pp_class pp, co_args = pp_args pp, co_environ = environ_of p (last (bp_stack p)), co_pp = q,
                   co_writefn = To_pp, co_outfile = None, co_safeoutfile = [], co_written = 0, co_input = None\<rparr>]\<rparr>
        in case redirect_output g c p of
             (p, Inl x) \<Rightarrow> (p, Inl x)
           | (p, Inr _) \<Rightarrow> (push (Co c) (set_cmd c (\<lambda>co. co\<lparr>co_input := pp_input (bp_pps p ! q)\<rparr>) p), Inr c))"

section \<open>Reading a line\<close>

text \<open>Where an expression in parentheses ends. Tokens are taken from the lexer, with a blank between them, while none
  of those at hand ends it.\<close>

fun collect_tokens :: "string list \<Rightarrow> bool \<Rightarrow> nat \<Rightarrow> string list \<Rightarrow> (string list \<times> stream) result" where
  "collect_tokens [] bad d acc = (if bad then Inl ValueError else Inr (acc, ([], False)))"
| "collect_tokens (t # ts) bad d acc =
     (if t = '')'' then if d = 1 then Inr (acc, (ts, bad)) else collect_tokens ts bad (d - 1) (acc @ [t])
      else collect_tokens ts bad (if t = ''('' then d + 1 else d) (acc @ [t]))"

function scan_parens :: "string \<Rightarrow> nat \<Rightarrow> nat \<Rightarrow> string list \<Rightarrow> bool \<Rightarrow> (string option \<times> stream) result" where
  "scan_parens e pos d ts bad =
     (if length e \<le> pos then Inl IndexError
      else if e ! pos = CHR '')'' then
        if d = 1 then Inr (Some (take (pos + 1) e), (ts, bad)) else scan_parens e (pos + 1) (d - 1) ts bad
      else if e ! pos = CHR ''('' then scan_parens e (pos + 1) (d + 1) ts bad
      else if pos = length e - 1 then
        case ts of
          [] \<Rightarrow> if bad then Inl ValueError else Inr (None, ([], False))
        | t # ts' \<Rightarrow> scan_parens (e @ '' '' @ t) (pos + 1) d ts' bad
      else scan_parens e (pos + 1) d ts bad)"
  by pat_completeness auto
termination by (relation "measures [\<lambda>(e, pos, d, ts, bad). length ts, \<lambda>(e, pos, d, ts, bad). length e - pos]") auto

text \<open>The same for a command whose output is substituted; a parenthesis or a backquote ends it.\<close>

function scan_substitution :: "string \<Rightarrow> nat \<Rightarrow> nat \<Rightarrow> string list \<Rightarrow> bool \<Rightarrow> ((string \<times> nat) option \<times> stream) result" where
  "scan_substitution e pos d ts bad =
     (if length e \<le> pos then Inl IndexError
      else if e ! pos = CHR '')'' \<or> e ! pos = CHR 0x60 then
        if d = 1 then Inr (Some (e, pos), (ts, bad)) else scan_substitution e (pos + 1) (d - 1) ts bad
      else if take 2 (drop pos e) = ''$('' then scan_substitution e (pos + 2) (d + 1) ts bad
      else if pos = length e - 1 then
        case ts of
          [] \<Rightarrow> if bad then Inl ValueError else Inr (None, ([], False))
        | t # ts' \<Rightarrow> scan_substitution (e @ '' '' @ t) (pos + 1) d ts' bad
      else scan_substitution e (pos + 1) d ts bad)"
  by pat_completeness auto
termination by (relation "measures [\<lambda>(e, pos, d, ts, bad). length ts, \<lambda>(e, pos, d, ts, bad). length e - pos]") auto

declare scan_parens.simps [simp del] scan_substitution.simps [simp del]

text \<open>The position of the first occurrence of a string that has one.\<close>

fun index_str :: "string \<Rightarrow> string \<Rightarrow> nat" where
  "index_str u [] = 0"
| "index_str u (c # cs) = (if prefix u (c # cs) then 0 else Suc (index_str u cs))"

definition backquote :: string where
  "backquote = [CHR 0x60]"

definition has_substitution :: "string \<Rightarrow> bool" where
  "has_substitution s \<longleftrightarrow> contains ''$('' s \<or> contains backquote s"

text \<open>The text before the first substitution of a token, the rest, and where its command begins.\<close>

definition cut_substitution :: "string \<Rightarrow> (string \<times> string \<times> nat) option" where
  "cut_substitution tok =
     (if hd tok = CHR ''('' then Some ([], tok, 1)
      else if contains ''$('' tok then let k = index_str ''$('' tok in Some (take k tok, drop k tok, 2)
      else if contains backquote tok then let k = index_str backquote tok in Some (take k tok, drop k tok, 1)
      else None)"

text \<open>What a token that begins with a dollar stands for: nothing if it names a variable that is not set.\<close>

definition variable_name :: "string \<Rightarrow> string option" where
  "variable_name tok =
     (let body = (if last tok = CHR 0x0A then butlast tok else tok); braces = prefix ''${'' tok;
          name = (if braces then butlast (drop 2 body) else drop 1 body) in
      if (braces \<longrightarrow> 2 < length body \<and> last body = CHR ''}'') \<and> name \<noteq> [] \<and> (\<forall>c \<in> set name. ascii_alnum c \<or> c = CHR ''_'')
      then Some name else None)"

definition expand :: "(string \<rightharpoonup> string) \<Rightarrow> string \<Rightarrow> string option" where
  "expand env tok = (if prefix ''$'' tok then (case variable_name tok of None \<Rightarrow> Some tok | Some x \<Rightarrow> env x) else Some tok)"

text \<open>The commands of a subshell, each joined again, and whether the lexer raises behind them.\<close>

fun command_groups :: "string list \<Rightarrow> string list \<Rightarrow> bool \<Rightarrow> string list" where
  "command_groups [] cur bad = (if cur = [] \<or> bad then [] else [join_on '' '' cur])"
| "command_groups (t # ts) cur bad =
     (if t \<in> {'';'', ''&&'', ''||''} then (if cur = [] then [] else [join_on '' '' cur]) @ command_groups ts [] bad
      else command_groups ts (cur @ [t]) bad)"

definition syntax_error :: "string \<Rightarrow> string \<Rightarrow> string" where
  "syntax_error tok eol = str_encode (''-bash: syntax error near unexpected token '' @ [CHR 0x60] @ tok @ [CHR 0x27] @ eol)"

text \<open>The tokens of a command are put behind those that wait.\<close>

definition pend :: "nat \<Rightarrow> string list \<Rightarrow> protocol \<Rightarrow> protocol" where
  "pend i tokens p = (if tokens = [] then p else set_pending i (hs_pending (shell_of p i) @ [tokens]) p)"

definition bad_line :: "site \<Rightarrow> nat \<Rightarrow> protocol \<Rightarrow> unit step" where
  "bad_line g i p = showPrompt g i (set_pending i [] (sent (''-bash: syntax error: unexpected end of file'' @ nl) p))"

text \<open>An exception in the loop over the tokens ends the line.\<close>

definition guarded :: "site \<Rightarrow> nat \<Rightarrow> 'a step option \<Rightarrow> ('a \<Rightarrow> protocol \<Rightarrow> unit step option) \<Rightarrow> unit step option" where
  "guarded g i m f =
     (case m of None \<Rightarrow> None | Some (p, Inl _) \<Rightarrow> Some (bad_line g i p) | Some (p, Inr v) \<Rightarrow> f v p)"

section \<open>Running commands\<close>

text \<open>The assignments in front of a command change the copy of the environment that only the search for commands sees.\<close>

fun assignments :: "(string \<rightharpoonup> string) \<Rightarrow> string list \<Rightarrow> (string \<rightharpoonup> string) \<times> string list" where
  "assignments env [] = (env, [])"
| "assignments env (w # ws) =
     (if CHR ''='' \<in> set w
      then assignments (env(takeWhile (\<lambda>c. c \<noteq> CHR ''='') w \<mapsto> drop 1 (dropWhile (\<lambda>c. c \<noteq> CHR ''='') w))) ws
      else (env, w # ws))"

fun split_pipes :: "string list \<Rightarrow> string list list" where
  "split_pipes [] = [[]]"
| "split_pipes (w # ws) =
     (if w = ''|'' then [] # split_pipes ws else case split_pipes ws of v # vs \<Rightarrow> (w # v) # vs | [] \<Rightarrow> [[w]])"

definition stages :: "string \<Rightarrow> string list \<Rightarrow> (string \<times> string list) list" where
  "stages c args =
     (let parts = split_pipes args in (c, hd parts) # map (\<lambda>v. (hd v, tl v)) (filter (\<lambda>v. v \<noteq> []) (tl parts)))"

text \<open>The emulated processes of a pipeline, the last one first; the name of a command that is not found ends it.\<close>

fun build :: "site \<Rightarrow> bool \<Rightarrow> (string \<rightharpoonup> string) \<Rightarrow> (string \<times> string list) list \<Rightarrow> protocol \<Rightarrow> (string + nat option) step" where
  "build g redirect env [] p = (p, Inr (Inr None))"
| "build g redirect env ((c, args) # rest) p =
     (case build g redirect env rest p of
        (p, Inr (Inr nxt)) \<Rightarrow>
          (case env ''PATH'' of
             None \<Rightarrow> (p, Inl KeyError)
           | Some paths \<Rightarrow>
               (case getCommand g p c (split_on CHR '':'' paths) of
                  Inl x \<Rightarrow> (p, Inl x)
                | Inr None \<Rightarrow> (p, Inr (Inl c))
                | Inr (Some cls) \<Rightarrow>
                    (p\<lparr>bp_pps := bp_pps p @ [\<lparr>pp_class = cls, pp_args = args, pp_input = None, pp_next = nxt,
                         pp_redirect = redirect, pp_redirected = []\<rparr>]\<rparr>, Inr (Inr (Some (length (bp_pps p)))))))
      | r \<Rightarrow> r)"

text \<open>Nothing is left to do for a shell: it prompts, or, when it runs the command of a session, ends it.\<close>

definition idle :: "site \<Rightarrow> nat \<Rightarrow> protocol \<Rightarrow> unit step" where
  "idle g i p =
     (case bp_pp p of
        None \<Rightarrow> (p, Inl AttributeError)
      | Some q \<Rightarrow>
          if pp_next (bp_pps p ! q) \<noteq> None then (p, Inr ())
          else if hs_interactive (shell_of p i) then showPrompt g i p
          else if length (bp_stack p) = 1 then (ended p, Inr ())
          else (p, Inr ()))"

text \<open>\<open>not_found\<close> is what is written for a command that is not in the dictionary.\<close>

definition not_found :: "nat \<Rightarrow> string \<Rightarrow> protocol \<Rightarrow> protocol" where
  "not_found i c p =
     (let p = sent (str_encode (''-bash: '' @ c @ '': command not found'' @ nl)) p in
      if bp_exec p \<and> hs_pending (shell_of p i) = [] then ended p else p)"

definition remember_file :: "cmdobj \<Rightarrow> protocol \<Rightarrow> protocol" where
  "remember_file co p =
     (if co_safeoutfile co = [] then p
      else p\<lparr>bp_redirs := List.insert (co_safeoutfile co, case co_outfile co of None \<Rightarrow> [] | Some f \<Rightarrow> f) (bp_redirs p)\<rparr>)"

text \<open>\<open>interactive_shell\<close> of \<open>sh\<close>: a shell one level deeper, which takes the place of the command.\<close>

definition interactive_shell :: "site \<Rightarrow> nat \<Rightarrow> protocol \<Rightarrow> unit step" where
  "interactive_shell g c p =
     (case new_shell g True False p of
        (p, Inl x) \<Rightarrow> (p, Inl x)
      | (p, Inr i) \<Rightarrow>
          if length (bp_stack p) < 2 then (p, Inl IndexError)
          else
            case (case environ_of p (bp_stack p ! (length (bp_stack p) - 2)) ''SHLVL'' of
                None \<Rightarrow> Inr ''1'' | Some v \<Rightarrow> map_sum id (\<lambda>n. if n + 1 < 0 then ''-'' @ show_nat (nat (- (n + 1))) else show_nat (nat (n + 1))) (py_int v)) of
              Inl x \<Rightarrow> (p, Inl x)
            | Inr level \<Rightarrow>
                (let sh = shell_of p i in
                 (p\<lparr>bp_shells := (bp_shells p)[i := sh\<lparr>hs_environ := (hs_environ sh)(''SHLVL'' \<mapsto> level)\<rparr>],
                    bp_stack := remove1 (Co c) (bp_stack p @ [Sh i])\<rparr>, Inr ())))"

section \<open>The calls among shells and commands\<close>

text \<open>
  The functions that come back to one another, as fields of a record: the loop of \<open>lineReceived\<close> on shell \<open>i\<close>,
  \<open>do_command_substitution\<close>, \<open>runCommand\<close> of shell \<open>i\<close>, and \<open>call_command\<close> on emulated process \<open>q\<close>. Each is defined with the
  record as an argument, and \<open>knot\<close> ties them to as many levels of calls as there is fuel.
\<close>

record calls =
  k_line :: "nat \<Rightarrow> stream \<Rightarrow> string list \<Rightarrow> protocol \<Rightarrow> unit step option"
  k_substitute :: "string \<Rightarrow> stream \<Rightarrow> protocol \<Rightarrow> (string \<times> stream) step option"
  k_run :: "nat \<Rightarrow> protocol \<Rightarrow> unit step option"
  k_call :: "nat \<Rightarrow> protocol \<Rightarrow> unit step option"

definition runOrPrompt :: "site \<Rightarrow> calls \<Rightarrow> nat \<Rightarrow> protocol \<Rightarrow> unit step option" where
  "runOrPrompt g k i p = (if hs_pending (shell_of p i) \<noteq> [] then k_run k i p else Some (showPrompt g i p))"

text \<open>A shell for the commands in a string, which is taken off the stack behind them.\<close>

definition in_new_shell :: "site \<Rightarrow> calls \<Rightarrow> bool \<Rightarrow> string \<Rightarrow> protocol \<Rightarrow> unit step option" where
  "in_new_shell g k redirect cmds p =
     bindP (Some (new_shell g False redirect p)) (\<lambda>i p.
     bindP (k_line k i (lex shell_cfg cmds) [] (push (Sh i) p)) (\<lambda>_ p. Some (pop_stack p)))"

text \<open>The output of the commands of a subshell, one after the other: what the last emulated process has kept.\<close>

fun run_groups :: "site \<Rightarrow> calls \<Rightarrow> string list \<Rightarrow> string \<Rightarrow> protocol \<Rightarrow> string step option" where
  "run_groups g k [] acc p = Some (p, Inr acc)"
| "run_groups g k (cmd # cmds) acc p =
     bindP (in_new_shell g k True cmd p) (\<lambda>_ p.
     bindP (Some (p, case bp_pp p of None \<Rightarrow> Inr [] | Some q \<Rightarrow> bytes_decode (pp_redirected (bp_pps p ! q)))) (\<lambda>out p.
       run_groups g k cmds (acc @ out) p))"

definition run_subshell_command :: "site \<Rightarrow> calls \<Rightarrow> string \<Rightarrow> protocol \<Rightarrow> string step option" where
  "run_subshell_command g k expr p =
     (let cmd = butlast (drop (if prefix ''$('' expr then 2 else 1) expr); (ts, bad) = lex shell_cfg cmd in
      bindP (run_groups g k (command_groups ts [] bad) [] p) (\<lambda>out p.
        if bad then Some (p, Inl ValueError)
        else Some (p, Inr (if prefix ''('' expr then out else rstrip_char CHR 0x0A out))))"

definition do_command_substitution :: "site \<Rightarrow> calls \<Rightarrow> string \<Rightarrow> stream \<Rightarrow> protocol \<Rightarrow> (string \<times> stream) step option" where
  "do_command_substitution g k tok st p =
     (case cut_substitution tok of
        None \<Rightarrow> Some (p, Inr (tok, st))
      | Some (result, expr, pos) \<Rightarrow>
          (case scan_substitution expr pos 1 (fst st) (snd st) of
             Inl x \<Rightarrow> Some (p, Inl x)
           | Inr (None, st) \<Rightarrow> Some (p, Inr (result, st))
           | Inr (Some (expr, pos), st) \<Rightarrow>
               bindP (run_subshell_command g k (take (pos + 1) expr) p) (\<lambda>out p.
                 let (result, p) = (if hd expr = CHR ''('' then (result, sent (str_encode out) p) else (result @ out, p));
                     remainder = drop (pos + 1) expr in
                 if has_substitution remainder then k_substitute k (result @ remainder) st p
                 else Some (p, Inr (result @ remainder, st)))))"

text \<open>\<open>do_subshell_execution\<close>, in both its forms: the output goes to the terminal.\<close>

definition subshell :: "site \<Rightarrow> calls \<Rightarrow> string \<Rightarrow> stream \<Rightarrow> protocol \<Rightarrow> stream step option" where
  "subshell g k tok st p =
     (let run = (\<lambda>expr st. bindP (run_subshell_command g k expr p) (\<lambda>out p. Some (sent (str_encode out) p, Inr st))) in
      if tok = ''('' then
        (case collect_tokens (fst st) (snd st) 1 [] of
           Inl x \<Rightarrow> Some (p, Inl x)
         | Inr (ws, st) \<Rightarrow> run (''('' @ join_on '' '' ws @ '')'') st)
      else
        (case scan_parens tok 1 1 (fst st) (snd st) of
           Inl x \<Rightarrow> Some (p, Inl x)
         | Inr (None, st) \<Rightarrow> Some (p, Inr st)
         | Inr (Some expr, st) \<Rightarrow> run expr st))"

definition line_loop :: "site \<Rightarrow> calls \<Rightarrow> nat \<Rightarrow> stream \<Rightarrow> string list \<Rightarrow> protocol \<Rightarrow> unit step option" where
  "line_loop g k i st tokens p =
     (case next_token st of
        Inl _ \<Rightarrow> Some (bad_line g i p)
      | Inr (None, st) \<Rightarrow> runOrPrompt g k i (pend i tokens p)
      | Inr (Some tok, st) \<Rightarrow>
          if tok \<in> {''&&'', ''||''} \<and> tokens = [] then runOrPrompt g k i (sent (syntax_error tok nl) p)
          else if tok \<in> {''&&'', ''||'', '';''} then k_line k i st [] (pend i tokens p)
          else if tok = ''$?'' then k_line k i st (tokens @ [''0'']) p
          else if prefix ''('' tok then
            if tokens \<noteq> [] then runOrPrompt g k i (sent (syntax_error tok [CHR 0x5C, CHR ''n'']) p)
            else guarded g i (subshell g k tok st p) (\<lambda>st p. k_line k i st [] p)
          else if has_substitution tok then
            guarded g i (k_substitute k tok st p) (\<lambda>(tok, st) p. k_line k i st (tokens @ [tok]) p)
          else
            (case expand (hs_environ (shell_of p i)) tok of
               None \<Rightarrow> k_line k i st tokens p
             | Some tok \<Rightarrow> k_line k i st (tokens @ [tok]) p))"

definition runCommand :: "site \<Rightarrow> calls \<Rightarrow> nat \<Rightarrow> protocol \<Rightarrow> unit step option" where
  "runCommand g k i p =
     (case hs_pending (shell_of p i) of
        [] \<Rightarrow> Some (idle g i p)
      | cmd # rest \<Rightarrow>
          let p = set_pending i rest p in
          (case assignments (hs_environ (shell_of p i)) cmd of
             (env, []) \<Rightarrow> runOrPrompt g k i p
           | (env, c # args) \<Rightarrow>
               if c = [] then runOrPrompt g k i p
               else (case build g (hs_redirect (shell_of p i)) env (stages c args) p of
                   (p, Inl x) \<Rightarrow> Some (p, Inl x)
                 | (p, Inr (Inl c)) \<Rightarrow> runOrPrompt g k i (not_found i c p)
                 | (p, Inr (Inr None)) \<Rightarrow> Some (p, Inr ())
                 | (p, Inr (Inr (Some q))) \<Rightarrow> k_call k q p)))"

text \<open>\<open>HoneyPotCommand.exit\<close>: the entry below the command is resumed.\<close>

definition exit_command :: "calls \<Rightarrow> nat \<Rightarrow> protocol \<Rightarrow> unit step option" where
  "exit_command k c p =
     (let p = remember_file (bp_cmds p ! c) p in
      if bp_stack p = [] then Some (ended p, Inr ())
      else if Co c \<notin> set (bp_stack p) then Some (p, Inl ValueError)
      else
        let p = p\<lparr>bp_stack := remove1 (Co c) (bp_stack p)\<rparr> in
        if bp_stack p = [] then Some (p, Inr ())
        else (case last (bp_stack p) of Sh i \<Rightarrow> k_run k i p | Co _ \<Rightarrow> Some (p, Inr ())))"

text \<open>\<open>exit\<close> takes the entry below itself off the stack.\<close>

definition exit_call :: "protocol \<Rightarrow> unit step" where
  "exit_call p =
     (if length (bp_stack p) < 2 then (p, Inl IndexError)
      else
        let j = length (bp_stack p) - 2; p = p\<lparr>bp_stack := take j (bp_stack p) @ drop (j + 1) (bp_stack p)\<rparr> in
        (if length (bp_stack p) < 2 then ended p else p, Inr ()))"

text \<open>The string behind \<open>sh -c\<close>, without the quotes around it.\<close>

definition sh_line :: "string list \<Rightarrow> string result" where
  "sh_line args =
     (let line = join_on '' '' (tl args) in
      if line = [] then Inl IndexError
      else Inr (if hd line = last line \<and> quote_char (hd line) then butlast (tl line) else line))"

definition start_sh :: "site \<Rightarrow> calls \<Rightarrow> nat \<Rightarrow> protocol \<Rightarrow> unit step option" where
  "start_sh g k c p =
     (let co = bp_cmds p ! c; run = (\<lambda>cmds p. bindP (in_new_shell g k False cmds p) (\<lambda>_ p. exit_command k c p)) in
      if co_args co \<noteq> [] \<and> strip (hd (co_args co)) = ''-c'' then bindP (Some (p, sh_line (co_args co))) run
      else (case co_input co of
          None \<Rightarrow> Some (interactive_shell g c p)
        | Some d \<Rightarrow> if d = [] then Some (interactive_shell g c p) else bindP (Some (p, bytes_decode d)) run))"

definition start_command :: "site \<Rightarrow> calls \<Rightarrow> nat \<Rightarrow> protocol \<Rightarrow> unit step option" where
  "start_command g k c p =
     (let co = bp_cmds p ! c; runs = (co_writefn co \<noteq> To_failed) in
      case co_class co of
        Command body \<Rightarrow>
          bindP (Some (if runs then run_prog (body (co_args co) (co_input co)) c p else (p, Inr ()))) (\<lambda>_ p. exit_command k c p)
      | Command_exit \<Rightarrow> bindP (Some (if runs then exit_call p else (p, Inr ()))) (\<lambda>_ p. exit_command k c p)
      | Waiting body \<Rightarrow> Some (run_prog (body (co_args co) (co_input co)) c p)
      | Command_sh \<Rightarrow> start_sh g k c p)"

text \<open>The process that is the protocol's when the command has ended is the one whose next command is called.\<close>

definition call_command :: "site \<Rightarrow> calls \<Rightarrow> nat \<Rightarrow> protocol \<Rightarrow> unit step option" where
  "call_command g k q p =
     bindP (Some (new_command g q (p\<lparr>bp_pp := Some q\<rparr>))) (\<lambda>c p.
     bindP (start_command g k c p) (\<lambda>_ p.
       case bp_pp p of
         None \<Rightarrow> Some (p, Inr ())
       | Some q \<Rightarrow> (case pp_next (bp_pps p ! q) of None \<Rightarrow> Some (p, Inr ()) | Some q \<Rightarrow> k_call k q p)))"

definition tie :: "site \<Rightarrow> calls \<Rightarrow> calls" where
  "tie g k =
     \<lparr>k_line = line_loop g k, k_substitute = do_command_substitution g k, k_run = runCommand g k, k_call = call_command g k\<rparr>"

primrec knot :: "site \<Rightarrow> nat \<Rightarrow> calls" where
  "knot g 0 = \<lparr>k_line = (\<lambda>_ _ _ _. None), k_substitute = (\<lambda>_ _ _. None), k_run = (\<lambda>_ _. None), k_call = (\<lambda>_ _. None)\<rparr>"
| "knot g (Suc n) = tie g (knot g n)"

section \<open>Events of a session\<close>

text \<open>\<open>lineReceived\<close> of a shell, and of the protocol: a command on the top of the stack queues the line for the shell
  at the bottom.\<close>

definition shell_lineReceived :: "site \<Rightarrow> nat \<Rightarrow> nat \<Rightarrow> string \<Rightarrow> protocol \<Rightarrow> unit step option" where
  "shell_lineReceived g n i line p = k_line (knot g n) i (lex shell_cfg line) [] p"

definition queue_line :: "string \<Rightarrow> protocol \<Rightarrow> unit step" where
  "queue_line line p =
     (case hd (bp_stack p) of
        Co _ \<Rightarrow> (p, Inl AttributeError)
      | Sh i \<Rightarrow>
          (case shlex_split line of
             Inl x \<Rightarrow> (p, Inl x)
           | Inr ws \<Rightarrow> (set_pending i (hs_pending (shell_of p i) @ [ws]) p, Inr ())))"

definition lineReceived :: "site \<Rightarrow> nat \<Rightarrow> string \<Rightarrow> protocol \<Rightarrow> unit step option" where
  "lineReceived g n data p =
     bindP (Some (p, bytes_decode data)) (\<lambda>line p.
       if bp_stack p = [] then Some (ended p, Inr ())
       else (case last (bp_stack p) of Sh i \<Rightarrow> shell_lineReceived g n i line p | Co _ \<Rightarrow> Some (queue_line line p)))"

text \<open>\<open>connectionMade\<close>: an interactive session starts with a prompt, the other one with its command, line by line.\<close>

definition interactive_made :: "site \<Rightarrow> protocol \<Rightarrow> unit step" where
  "interactive_made g p =
     (case new_shell g True False p of (p, Inl x) \<Rightarrow> (p, Inl x) | (p, Inr i) \<Rightarrow> (p\<lparr>bp_stack := [Sh i]\<rparr>, Inr ()))"

definition exec_made :: "site \<Rightarrow> nat \<Rightarrow> string \<Rightarrow> protocol \<Rightarrow> unit step option" where
  "exec_made g n cmd p =
     bindP (Some (new_shell g False False p)) (\<lambda>i p.
       shell_lineReceived g n i (join_on ''; '' (split_on CHR 0x0A (strip cmd))) (p\<lparr>bp_stack := [Sh i]\<rparr>))"

text \<open>A command that waits comes to its end; Ctrl-C ends the one on the top; Ctrl-D at a prompt ends the session.\<close>

definition command_done :: "site \<Rightarrow> nat \<Rightarrow> nat \<Rightarrow> prog \<Rightarrow> protocol \<Rightarrow> unit step option" where
  "command_done g n c k p = bindP (Some (run_prog k c p)) (\<lambda>_ p. exit_command (knot g n) c p)"

definition handle_CTRL_C :: "site \<Rightarrow> nat \<Rightarrow> protocol \<Rightarrow> unit step option" where
  "handle_CTRL_C g n p =
     (if bp_stack p = [] then Some (p, Inr ())
      else (case last (bp_stack p) of
          Sh i \<Rightarrow> Some (showPrompt g i (sent nl p))
        | Co c \<Rightarrow> command_done g n c (Write (''^C'' @ nl) Done) p))"

definition handle_CTRL_D :: "protocol \<Rightarrow> unit step" where
  "handle_CTRL_D p =
     (if bp_stack p = [] then p else case last (bp_stack p) of Sh _ \<Rightarrow> ended p | Co _ \<Rightarrow> p, Inr ())"

end
