(* ===== verification/ShellFacts.thy ===== *)
theory ShellFacts
  imports Shell CowrieFsFacts
begin

text \<open>
  What a line does in the shell, against a specification that knows no stack and no emulated processes: the effect of a
  program on the session and what it writes, of a pipeline, and of a line of pipelines.
\<close>

section \<open>The specification\<close>

text \<open>What a program writes on its two channels.\<close>

datatype chunk = Stdout string | Stderr string

primrec effect :: "prog \<Rightarrow> cenv \<Rightarrow> session \<Rightarrow> session \<times> chunk list \<times> unit result" where
  "effect Done e s = (s, [], Inr ())"
| "effect (Fail x) e s = (s, [], Inl x)"
| "effect (Write d k) e s = (case effect k e s of (s', cs, r) \<Rightarrow> (s', Stdout d # cs, r))"
| "effect (ErrWrite d k) e s = (case effect k e s of (s', cs, r) \<Rightarrow> (s', Stderr d # cs, r))"
| "effect (Look f) e s = effect (f e s) e s"
| "effect (Update s' k) e s = effect k e s'"

definition outs :: "chunk list \<Rightarrow> string list" where
  "outs cs = concat (map (\<lambda>c. case c of Stdout d \<Rightarrow> [d] | Stderr _ \<Rightarrow> []) cs)"

definition errs :: "chunk list \<Rightarrow> string list" where
  "errs cs = concat (map (\<lambda>c. case c of Stdout _ \<Rightarrow> [] | Stderr d \<Rightarrow> [d]) cs)"

definition both :: "chunk list \<Rightarrow> string list" where
  "both cs = map (\<lambda>c. case c of Stdout d \<Rightarrow> d | Stderr d \<Rightarrow> d) cs"

lemma channel_simps [simp]:
  "outs [] = []" "outs (Stdout d # cs) = d # outs cs" "outs (Stderr d # cs) = outs cs"
  "errs [] = []" "errs (Stdout d # cs) = errs cs" "errs (Stderr d # cs) = d # errs cs"
  "both [] = []" "both (Stdout d # cs) = d # both cs" "both (Stderr d # cs) = d # both cs"
  by (simp_all add: outs_def errs_def both_def)

text \<open>A command of the dictionary that comes to its end, with what was left in its input.\<close>

definition stage_effect ::
  "site \<Rightarrow> cenv \<Rightarrow> string \<times> string list \<Rightarrow> string option \<Rightarrow> session \<Rightarrow> (session \<times> chunk list) option" where
  "stage_effect g e st inp s =
     (case si_commands g (fst st) of
        Some (Command body) \<Rightarrow> (case effect (body (snd st) inp) e s of (s', cs, Inr _) \<Rightarrow> Some (s', cs) | _ \<Rightarrow> None)
      | _ \<Rightarrow> None)"

definition piped :: "chunk list \<Rightarrow> string option" where
  "piped cs = (if outs cs = [] then None else Some (concat (outs cs)))"

text \<open>A pipeline: the session behind it, what goes to the terminal before the last stage writes, and what that writes.\<close>

fun run_stages ::
  "site \<Rightarrow> cenv \<Rightarrow> (string \<times> string list) list \<Rightarrow> string option \<Rightarrow> session \<Rightarrow> (session \<times> string list \<times> chunk list) option" where
  "run_stages g e [] inp s = None"
| "run_stages g e [st] inp s = map_option (\<lambda>(s', cs). (s', [], cs)) (stage_effect g e st inp s)"
| "run_stages g e (st # st' # sts) inp s =
     (case stage_effect g e st inp s of
        None \<Rightarrow> None
      | Some (s', cs) \<Rightarrow> map_option (\<lambda>(s'', ts, ds). (s'', errs cs @ ts, ds)) (run_stages g e (st' # sts) (piped cs) s'))"

text \<open>A line of pipelines: all of the last one, and the first stage of each of the others.\<close>

fun run_line ::
  "site \<Rightarrow> cenv \<Rightarrow> (string \<times> string list) list list \<Rightarrow> session \<Rightarrow> (session \<times> string list \<times> chunk list) option" where
  "run_line g e [] s = None"
| "run_line g e [pl] s = run_stages g e pl None s"
| "run_line g e (pl # pl' # pls) s =
     (case stage_effect g e (hd pl) None s of
        None \<Rightarrow> None
      | Some (s', cs) \<Rightarrow>
          map_option (\<lambda>(s'', ts, ds). (s'', (if length pl = 1 then both cs else errs cs) @ ts, ds)) (run_line g e (pl' # pls) s'))"

text \<open>The words of a pipeline, and of a line.\<close>

fun pipe_words :: "(string \<times> string list) list \<Rightarrow> string list" where
  "pipe_words [] = []"
| "pipe_words [(c, args)] = c # args"
| "pipe_words ((c, args) # st # sts) = c # args @ ''|'' # pipe_words (st # sts)"

fun line_words :: "(string \<times> string list) list list \<Rightarrow> string list" where
  "line_words [] = []"
| "line_words [pl] = pipe_words pl"
| "line_words (pl # pl' # pls) = pipe_words pl @ '';'' # line_words (pl' # pls)"

text \<open>Words the shell takes as they are.\<close>

definition simple_word :: "string \<Rightarrow> bool" where
  "simple_word w \<longleftrightarrow> w \<notin> {''&&'', ''||'', '';''} \<and> \<not> prefix ''('' w \<and> \<not> has_substitution w \<and> \<not> prefix ''$'' w"

definition simple_stage :: "string \<times> string list \<Rightarrow> bool" where
  "simple_stage st \<longleftrightarrow> simple_word (fst st) \<and> fst st \<noteq> ''|'' \<and> strip (fst st) \<noteq> [] \<and> CHR ''='' \<notin> set (fst st) \<and>
     (\<forall>w \<in> set (snd st). simple_word w \<and> w \<notin> {''|'', ''>'', ''>>''})"

definition simple_line :: "(string \<times> string list) list list \<Rightarrow> bool" where
  "simple_line pls \<longleftrightarrow> pls \<noteq> [] \<and> (\<forall>pl \<in> set pls. pl \<noteq> [] \<and> (\<forall>st \<in> set pl. simple_stage st))"

section \<open>Programs\<close>

definition deliver :: "nat \<Rightarrow> chunk list \<Rightarrow> protocol \<Rightarrow> protocol" where
  "deliver q cs p = fold (\<lambda>c p. case c of Stdout d \<Rightarrow> outReceived q d p | Stderr d \<Rightarrow> sent d p) cs p"

lemma deliver_simps [simp]:
  "deliver q [] p = p" "deliver q (Stdout d # cs) p = deliver q cs (outReceived q d p)"
  "deliver q (Stderr d # cs) p = deliver q cs (sent d p)"
  by (simp_all add: deliver_def)

lemma outReceived_frame [simp]:
  "bp_cmds (outReceived q d p) = bp_cmds p" "bp_env (outReceived q d p) = bp_env p"
  "bp_session (outReceived q d p) = bp_session p" "bp_stack (outReceived q d p) = bp_stack p"
  "outReceived q d (p\<lparr>bp_session := s\<rparr>) = (outReceived q d p)\<lparr>bp_session := s\<rparr>"
  "outReceived q d (p\<lparr>bp_stack := st\<rparr>) = (outReceived q d p)\<lparr>bp_stack := st\<rparr>"
  by (simp_all add: outReceived_def sent_def Let_def split: option.split)

lemma sent_frame [simp]:
  "bp_cmds (sent d p) = bp_cmds p" "bp_env (sent d p) = bp_env p" "bp_session (sent d p) = bp_session p"
  "bp_stack (sent d p) = bp_stack p" "bp_pps (sent d p) = bp_pps p"
  "sent d (p\<lparr>bp_session := s\<rparr>) = (sent d p)\<lparr>bp_session := s\<rparr>" "sent d (p\<lparr>bp_stack := st\<rparr>) = (sent d p)\<lparr>bp_stack := st\<rparr>"
  by (simp_all add: sent_def)

lemma deliver_frame [simp]:
  "bp_cmds (deliver q cs p) = bp_cmds p" "bp_env (deliver q cs p) = bp_env p" "bp_session (deliver q cs p) = bp_session p"
  "bp_stack (deliver q cs p) = bp_stack p"
  "deliver q cs (p\<lparr>bp_session := s\<rparr>) = (deliver q cs p)\<lparr>bp_session := s\<rparr>"
  "deliver q cs (p\<lparr>bp_stack := st\<rparr>) = (deliver q cs p)\<lparr>bp_stack := st\<rparr>"
  unfolding deliver_def by (induction cs arbitrary: p) (simp_all split: chunk.split)

lemma run_prog_effect:
  assumes "co_writefn (bp_cmds p ! c) = To_pp"
  shows "run_prog k c p =
    (case effect k (bp_env p) (bp_session p) of
       (s, cs, r) \<Rightarrow> ((deliver (co_pp (bp_cmds p ! c)) cs p)\<lparr>bp_session := s\<rparr>, r))"
  using assms
proof (induction k arbitrary: p)
  case (Look f)
  from Look.IH [of "f (bp_env p)" "f (bp_env p) (bp_session p)" p] Look.prems show ?case by simp
next
  case (Update s k)
  from Update.IH [of "p\<lparr>bp_session := s\<rparr>"] Update.prems show ?case by (simp add: case_prod_beta)
qed (simp_all add: do_write_def case_prod_beta)

text \<open>Where the writes of an emulated process go.\<close>

lemma deliver_last:
  "pp_next (bp_pps p ! q) = None \<Longrightarrow> \<not> pp_redirect (bp_pps p ! q) \<Longrightarrow>
     deliver q cs p = p\<lparr>bp_term := bp_term p @ map Sent (both cs)\<rparr>"
  by (induction cs arbitrary: p) (auto simp: outReceived_def sent_def both_def Let_def split: chunk.split)

lemma deliver_redirected:
  "pp_next (bp_pps p ! q) = None \<Longrightarrow> pp_redirect (bp_pps p ! q) \<Longrightarrow> q < length (bp_pps p) \<Longrightarrow>
     deliver q cs p = p\<lparr>bp_term := bp_term p @ map Sent (errs cs),
       bp_pps := (bp_pps p)[q := (bp_pps p ! q)\<lparr>pp_redirected := pp_redirected (bp_pps p ! q) @ concat (outs cs)\<rparr>]\<rparr>"
proof (induction cs arbitrary: p)
  case (Cons c cs)
  show ?case
  proof (cases c)
    case (Stdout d)
    let ?p = "p\<lparr>bp_pps := (bp_pps p)[q := (bp_pps p ! q)\<lparr>pp_redirected := pp_redirected (bp_pps p ! q) @ d\<rparr>]\<rparr>"
    have "outReceived q d p = ?p" using Cons.prems by (simp add: outReceived_def Let_def)
    with Cons.IH [of ?p] Cons.prems Stdout show ?thesis by simp
  next
    case (Stderr d)
    with Cons.IH [of "sent d p"] Cons.prems show ?thesis by (simp add: sent_def)
  qed
qed simp

definition merged :: "string option \<Rightarrow> chunk list \<Rightarrow> string option" where
  "merged inp cs = (if outs cs = [] then inp else Some ((case inp of None \<Rightarrow> [] | Some x \<Rightarrow> x) @ concat (outs cs)))"

lemma merged_None [simp]: "merged None cs = piped cs"
  by (simp add: merged_def piped_def)

lemma deliver_next:
  "pp_next (bp_pps p ! q) = Some r \<Longrightarrow> r \<noteq> q \<Longrightarrow> r < length (bp_pps p) \<Longrightarrow>
     deliver q cs p = p\<lparr>bp_term := bp_term p @ map Sent (errs cs),
       bp_pps := (bp_pps p)[r := (bp_pps p ! r)\<lparr>pp_input := merged (pp_input (bp_pps p ! r)) cs\<rparr>]\<rparr>"
proof (induction cs arbitrary: p)
  case Nil
  then show ?case by (simp add: merged_def)
next
  case (Cons c cs)
  show ?case
  proof (cases c)
    case (Stdout d)
    let ?p = "p\<lparr>bp_pps := (bp_pps p)[r := (bp_pps p ! r)\<lparr>pp_input := Some (case pp_input (bp_pps p ! r) of None \<Rightarrow> d | Some x \<Rightarrow> x @ d)\<rparr>]\<rparr>"
    have "outReceived q d p = ?p" using Cons.prems by (simp add: outReceived_def Let_def)
    with Cons.IH [of ?p] Cons.prems Stdout show ?thesis by (simp add: merged_def split: option.split)
  next
    case (Stderr d)
    with Cons.IH [of "sent d p"] Cons.prems show ?thesis by (simp add: sent_def merged_def)
  qed
qed

section \<open>Emulated processes of a pipeline\<close>

definition stage_at :: "site \<Rightarrow> emulation list \<Rightarrow> bool \<Rightarrow> nat \<Rightarrow> string \<times> string list \<Rightarrow> bool" where
  "stage_at g ps rd q st \<longleftrightarrow> q < length ps \<and> si_commands g (fst st) = Some (pp_class (ps ! q)) \<and> pp_args (ps ! q) = snd st \<and>
     pp_redirect (ps ! q) = rd \<and> pp_redirected (ps ! q) = []"

fun chain :: "site \<Rightarrow> emulation list \<Rightarrow> bool \<Rightarrow> nat \<Rightarrow> (string \<times> string list) list \<Rightarrow> bool" where
  "chain g ps rd q [] = False"
| "chain g ps rd q [st] = (stage_at g ps rd q st \<and> pp_next (ps ! q) = None)"
| "chain g ps rd q (st # st' # sts) =
     (stage_at g ps rd q st \<and> (\<exists>r. pp_next (ps ! q) = Some r \<and> r < q \<and> pp_input (ps ! r) = None \<and> chain g ps rd r (st' # sts)))"

lemma chain_head: "chain g ps rd q (st # sts) \<Longrightarrow> stage_at g ps rd q st"
  by (cases sts) auto

text \<open>A chain only looks at the processes up to its first one, and not at the input of that.\<close>

lemma chain_cong:
  "chain g ps rd q sts \<Longrightarrow> q < length ps' \<Longrightarrow> (\<And>j. j < q \<Longrightarrow> ps' ! j = ps ! j) \<Longrightarrow>
     \<exists>inp. ps' ! q = (ps ! q)\<lparr>pp_input := inp\<rparr> \<Longrightarrow> chain g ps' rd q sts"
proof (induction g ps rd q sts rule: chain.induct)
  case (2 g ps rd q st)
  then show ?case by (auto simp: stage_at_def)
next
  case (3 g ps rd q st st' sts)
  from "3.prems"(1) obtain r where s: "stage_at g ps rd q st"
    and r: "pp_next (ps ! q) = Some r" "r < q" "pp_input (ps ! r) = None" "chain g ps rd r (st' # sts)" by auto
  have e: "ps' ! r = ps ! r" using "3.prems"(3) r(2) by simp
  have "chain g ps' rd r (st' # sts)"
    using "3.IH" [OF r(4)] "3.prems"(2,3) r(2) e by (metis (no_types, lifting) emulation.surjective emulation.update_convs(3) less_trans)
  with "3.prems"(2,4) s r e show ?case by (auto simp: stage_at_def)
qed simp

lemma build_chain:
  "sts \<noteq> [] \<Longrightarrow> \<forall>st \<in> set sts. strip (fst st) \<noteq> [] \<and> si_commands g (fst st) \<noteq> None \<Longrightarrow> env ''PATH'' = Some dirs \<Longrightarrow>
     \<exists>new. new \<noteq> [] \<and>
       build g rd env sts p = (p\<lparr>bp_pps := bp_pps p @ new\<rparr>, Inr (Inr (Some (length (bp_pps p) + length new - 1)))) \<and>
       chain g (bp_pps p @ new) rd (length (bp_pps p) + length new - 1) sts \<and>
       pp_input ((bp_pps p @ new) ! (length (bp_pps p) + length new - 1)) = None"
proof (induction sts)
  case (Cons st sts)
  obtain c args where st: "st = (c, args)" by fastforce
  from Cons.prems st obtain cls where cls: "strip c \<noteq> []" "si_commands g c = Some cls" by auto
  then have get: "getCommand g p' c ds = Inr (Some cls)" for p' ds by (simp add: getCommand_def Let_def)
  show ?case
  proof (cases sts)
    case Nil
    let ?new = "[\<lparr>pp_class = cls, pp_args = args, pp_input = None, pp_next = None, pp_redirect = rd, pp_redirected = []\<rparr>]"
    show ?thesis using Cons.prems(3) get cls(2) by (intro exI [of _ ?new]) (simp add: Nil st stage_at_def nth_append)
  next
    case (Cons st' sts')
    from Cons.IH Cons.prems Cons obtain new where new: "new \<noteq> []"
      "build g rd env sts p = (p\<lparr>bp_pps := bp_pps p @ new\<rparr>, Inr (Inr (Some (length (bp_pps p) + length new - 1))))"
      "chain g (bp_pps p @ new) rd (length (bp_pps p) + length new - 1) sts"
      "pp_input ((bp_pps p @ new) ! (length (bp_pps p) + length new - 1)) = None" by auto
    let ?m = "length (bp_pps p) + length new"
    let ?pp = "\<lparr>pp_class = cls, pp_args = args, pp_input = None, pp_next = Some (?m - 1), pp_redirect = rd, pp_redirected = []\<rparr>"
    have m: "?m - 1 < ?m" using new(1) by (cases new) simp_all
    have eq: "((bp_pps p @ new) @ [?pp]) ! (?m - 1) = (bp_pps p @ new) ! (?m - 1)" using m by (simp add: nth_append)
    then have e: "\<exists>inp. ((bp_pps p @ new) @ [?pp]) ! (?m - 1) = ((bp_pps p @ new) ! (?m - 1))\<lparr>pp_input := inp\<rparr>"
      using new(4) by (intro exI [of _ None]) simp
    have c: "chain g ((bp_pps p @ new) @ [?pp]) rd (?m - 1) sts"
      using chain_cong [OF new(3) _ _ e] m by (simp add: nth_append)
    have "build g rd env (st # sts) p = (p\<lparr>bp_pps := bp_pps p @ new @ [?pp]\<rparr>, Inr (Inr (Some ?m)))"
      using new(2) Cons.prems(3) get by (simp add: st)
    moreover have "chain g (bp_pps p @ new @ [?pp]) rd ?m (st # sts)"
      using c eq new(4) m cls(2) Cons by (simp add: st stage_at_def nth_append)
    ultimately show ?thesis by (intro exI [of _ "new @ [?pp]"]) (simp add: nth_append)
  qed
qed simp

text \<open>The words of a pipeline are split into its stages again.\<close>

lemma split_pipes_append:
  "''|'' \<notin> set args \<Longrightarrow> split_pipes (args @ ''|'' # ws) = args # split_pipes ws" "''|'' \<notin> set args \<Longrightarrow> split_pipes args = [args]"
  by (induction args) auto

lemma split_pipes_words:
  "sts \<noteq> [] \<Longrightarrow> \<forall>st \<in> set sts. fst st \<noteq> ''|'' \<and> ''|'' \<notin> set (snd st) \<Longrightarrow> split_pipes (pipe_words sts) = map (\<lambda>(c, args). c # args) sts"
proof (induction sts rule: pipe_words.induct)
  case (3 c args st sts)
  then have "split_pipes ((c # args) @ ''|'' # pipe_words (st # sts)) = (c # args) # split_pipes (pipe_words (st # sts))"
    by (intro split_pipes_append) auto
  with 3 show ?case by simp
qed (auto simp: split_pipes_append)

lemma stages_words:
  assumes "\<forall>st \<in> set (st # sts). fst st \<noteq> ''|'' \<and> ''|'' \<notin> set (snd st)"
  shows "\<exists>args. pipe_words (st # sts) = fst st # args \<and> stages (fst st) args = st # sts"
proof (cases sts)
  case Nil
  then show ?thesis using assms by (cases st) (simp add: stages_def split_pipes_append)
next
  case (Cons st' sts')
  obtain c args where st: "st = (c, args)" by fastforce
  have "split_pipes (args @ ''|'' # pipe_words sts) = args # map (\<lambda>(c, args). c # args) sts"
    using assms Cons split_pipes_words [of sts] st by (simp add: split_pipes_append)
  then have "stages c (args @ ''|'' # pipe_words sts) = st # sts"
    by (simp add: stages_def st filter_id_conv [THEN iffD2] case_prod_beta comp_def)
  then show ?thesis by (simp add: st Cons)
qed

section \<open>Running a pipeline\<close>

definition fresh :: "protocol \<Rightarrow> bool" where
  "fresh p \<longleftrightarrow> (\<forall>c. Co c \<in> set (bp_stack p) \<longrightarrow> c < length (bp_cmds p))"

text \<open>What is left to do when a command has ended and the shell below it has come back.\<close>

definition next_call :: "calls \<Rightarrow> protocol \<Rightarrow> unit step option" where
  "next_call k p =
     (case bp_pp p of
        None \<Rightarrow> Some (p, Inr ())
      | Some q \<Rightarrow> (case pp_next (bp_pps p ! q) of None \<Rightarrow> Some (p, Inr ()) | Some q \<Rightarrow> k_call k q p))"

lemma stack_same: "(p :: protocol)\<lparr>bp_stack := bp_stack p\<rparr> = p"
  by simp

lemma idle_next_call:
  assumes "bp_pp p = Some x" and "pp_next (bp_pps p ! x) = None"
  shows "bindP (Some (idle g i p)) (\<lambda>_. next_call k) = Some (idle g i p)"
  using assms by (simp add: idle_def showPrompt_def next_call_def sent_def ended_def)

lemma call_step:
  assumes st: "stage_at g (bp_pps p) rd q st" "''>'' \<notin> set (snd st)" "''>>'' \<notin> set (snd st)"
    and stack: "bp_stack p = st0 @ [Sh i]" "fresh p"
    and eff: "stage_effect g (bp_env p) st (pp_input (bp_pps p ! q)) (bp_session p) = Some (s', cs)"
  shows "\<exists>co. call_command g k q p =
    bindP (k_run k i ((deliver q cs (p\<lparr>bp_pp := Some q, bp_cmds := bp_cmds p @ [co]\<rparr>))\<lparr>bp_session := s'\<rparr>)) (\<lambda>_. next_call k)"
proof -
  let ?pp = "bp_pps p ! q" and ?c = "length (bp_cmds p)"
  let ?co = "\<lparr>co_class = pp_class ?pp, co_args = snd st, co_environ = hs_environ (shell_of p i), co_pp = q, co_writefn = To_pp,
      co_outfile = None, co_safeoutfile = [], co_written = 0, co_input = pp_input ?pp\<rparr>"
  let ?p = "p\<lparr>bp_pp := Some q, bp_cmds := bp_cmds p @ [?co]\<rparr>"
  from eff obtain body where body: "pp_class ?pp = Command body" "effect (body (snd st) (pp_input ?pp)) (bp_env p) (bp_session p) = (s', cs, Inr ())"
    using st(1) by (auto simp: stage_effect_def stage_at_def split: cmdclass.splits option.splits prod.splits sum.splits)
  have new: "new_command g q (p\<lparr>bp_pp := Some q\<rparr>) = (push (Co ?c) ?p, Inr ?c)"
    using st stack(1) by (simp add: new_command_def stage_at_def redirect_output_def set_cmd_def environ_of_def Let_def)
  have "bp_cmds (push (Co ?c) ?p) ! ?c = ?co" by (simp add: push_def)
  then have run: "run_prog (body (snd st) (pp_input ?pp)) ?c (push (Co ?c) ?p) = ((deliver q cs (push (Co ?c) ?p))\<lparr>bp_session := s'\<rparr>, Inr ())"
    using body(2) run_prog_effect [of "push (Co ?c) ?p" ?c] by (simp add: push_def)
  have "Co ?c \<notin> set (st0 @ [Sh i])" using stack by (auto simp: fresh_def)
  then have "remove1 (Co ?c) (st0 @ [Sh i, Co ?c]) = st0 @ [Sh i]" by (simp add: remove1_append)
  then have "start_command g k ?c (push (Co ?c) ?p) =
      k_run k i ((deliver q cs (push (Co ?c) ?p))\<lparr>bp_session := s', bp_stack := st0 @ [Sh i]\<rparr>)"
    using run body(1) stack(1) by (simp add: start_command_def push_def exit_command_def remember_file_def Let_def)
  also have "(deliver q cs (push (Co ?c) ?p))\<lparr>bp_session := s', bp_stack := st0 @ [Sh i]\<rparr> = (deliver q cs ?p)\<lparr>bp_session := s'\<rparr>"
    using stack(1) stack_same [of "(deliver q cs ?p)\<lparr>bp_session := s'\<rparr>"] by (simp add: push_def)
  finally have "start_command g k ?c (push (Co ?c) ?p) = k_run k i ((deliver q cs ?p)\<lparr>bp_session := s'\<rparr>)" .
  then show ?thesis using new by (intro exI [of _ ?co]) (simp add: call_command_def next_call_def [abs_def])
qed

text \<open>The state in which a shell is idle again: only what is listed has changed.\<close>

definition settled :: "nat \<Rightarrow> session \<Rightarrow> string list \<Rightarrow> nat \<Rightarrow> emulation list \<Rightarrow> cmdobj list \<Rightarrow> protocol \<Rightarrow> protocol" where
  "settled i s ts x pps cmds p =
     (set_pending i [] p)\<lparr>bp_session := s, bp_term := bp_term p @ map Sent ts, bp_pp := Some x, bp_pps := pps, bp_cmds := cmds\<rparr>"

text \<open>What the last stage writes is on the terminal, or kept where the shell is redirected.\<close>

definition shown :: "bool \<Rightarrow> chunk list \<Rightarrow> string list" where
  "shown rd ds = (if rd then errs ds else both ds)"

definition kept :: "bool \<Rightarrow> chunk list \<Rightarrow> emulation \<Rightarrow> bool" where
  "kept rd ds pp \<longleftrightarrow> pp_next pp = None \<and> (rd \<longrightarrow> pp_redirected pp = concat (outs ds))"

lemma deliver_final:
  assumes "stage_at g (bp_pps p) rd q st" and "pp_next (bp_pps p ! q) = None"
  shows "\<exists>pps. deliver q cs p = p\<lparr>bp_term := bp_term p @ map Sent (shown rd cs), bp_pps := pps\<rparr> \<and> kept rd cs (pps ! q)"
proof (cases rd)
  case True
  then show ?thesis using assms deliver_redirected [of p q cs] by (auto simp: stage_at_def shown_def kept_def)
next
  case False
  then show ?thesis using assms deliver_last [of p q cs]
    by (intro exI [of _ "bp_pps p"]) (simp add: stage_at_def shown_def kept_def)
qed

lemma settled_idle:
  "hs_pending (shell_of p i) = [] \<Longrightarrow> i < length (bp_shells p) \<Longrightarrow> set_pending i [] p = p"
  by (simp add: set_pending_def list_update_same_conv)

lemma call_chain:
  assumes "chain g (bp_pps p) rd q sts" and "bp_stack p = st0 @ [Sh i]" and "fresh p" and "hs_pending (shell_of p i) = []"
    and "i < length (bp_shells p)" and "\<forall>st \<in> set sts. ''>'' \<notin> set (snd st) \<and> ''>>'' \<notin> set (snd st)"
    and "run_stages g (bp_env p) sts (pp_input (bp_pps p ! q)) (bp_session p) = Some (s', ts, ds)" and "length sts < n"
  shows "\<exists>x pps cmds. k_call (knot g n) q p = Some (idle g i (settled i s' (ts @ shown rd ds) x pps cmds p)) \<and> kept rd ds (pps ! x) \<and>
    length (bp_cmds p) \<le> length cmds"
  using assms
proof (induction sts arbitrary: p q n s' ts)
  case (Cons st sts)
  obtain m where n: "n = Suc (Suc m)" using Cons.prems(8) by (cases n; cases "n - 1") auto
  note head = chain_head [OF Cons.prems(1)]
  have noredir: "''>'' \<notin> set (snd st)" "''>>'' \<notin> set (snd st)" using Cons.prems(6) by simp_all
  obtain s1 cs where eff: "stage_effect g (bp_env p) st (pp_input (bp_pps p ! q)) (bp_session p) = Some (s1, cs)"
    using Cons.prems(7) by (cases sts) (auto split: option.splits)
  from call_step [OF head noredir Cons.prems(2,3) eff, of "knot g (Suc m)"] obtain co where
    call: "k_call (knot g n) q p = bindP (k_run (knot g (Suc m)) i
      ((deliver q cs (p\<lparr>bp_pp := Some q, bp_cmds := bp_cmds p @ [co]\<rparr>))\<lparr>bp_session := s1\<rparr>)) (\<lambda>_. next_call (knot g (Suc m)))"
    by (auto simp: n tie_def)
  let ?p = "p\<lparr>bp_pp := Some q, bp_cmds := bp_cmds p @ [co]\<rparr>"
  show ?case
  proof (cases sts)
    case Nil
    have last: "stage_at g (bp_pps ?p) rd q st" "pp_next (bp_pps ?p ! q) = None" using Cons.prems(1) Nil by simp_all
    from deliver_final [OF last, of cs] obtain pps where
      d: "deliver q cs ?p = ?p\<lparr>bp_term := bp_term p @ map Sent (shown rd cs), bp_pps := pps\<rparr>" and k: "kept rd cs (pps ! q)" by auto
    have res: "s' = s1" "ts = []" "ds = cs" using Cons.prems(7) eff Nil by simp_all
    let ?q = "settled i s1 (shown rd cs) q pps (bp_cmds p @ [co]) p"
    have "(deliver q cs ?p)\<lparr>bp_session := s1\<rparr> = ?q"
      using Cons.prems(4,5) by (simp add: d settled_def settled_idle)
    moreover have "k_run (knot g (Suc m)) i ?q = Some (idle g i ?q)"
      using Cons.prems(4,5) by (simp add: tie_def runCommand_def settled_def settled_idle)
    moreover have "bindP (Some (idle g i ?q)) (\<lambda>_. next_call (knot g (Suc m))) = Some (idle g i ?q)"
      using k by (intro idle_next_call [of _ q]) (simp_all add: settled_def kept_def)
    ultimately show ?thesis using call k res by (intro exI [of _ q] exI [of _ pps]) auto
  next
    case (Cons st' sts')
    then obtain r where r: "pp_next (bp_pps p ! q) = Some r" "r < q" "pp_input (bp_pps p ! r) = None" "chain g (bp_pps p) rd r sts"
      using Cons.prems(1) by auto
    have q: "q < length (bp_pps p)" using head by (simp add: stage_at_def)
    let ?pps = "(bp_pps p)[r := (bp_pps p ! r)\<lparr>pp_input := piped cs\<rparr>]"
    let ?p1 = "p\<lparr>bp_pp := Some q, bp_cmds := bp_cmds p @ [co], bp_term := bp_term p @ map Sent (errs cs), bp_pps := ?pps, bp_session := s1\<rparr>"
    have p1: "(deliver q cs ?p)\<lparr>bp_session := s1\<rparr> = ?p1"
      using deliver_next [of ?p q r cs] r q by simp
    have "k_run (knot g (Suc m)) i ?p1 = Some (?p1, Inr ())"
      using Cons.prems(4) r(1,2) q by (simp add: tie_def runCommand_def idle_def)
    then have step: "k_call (knot g n) q p = k_call (knot g (Suc m)) r ?p1"
      using call p1 r(1,2) by (simp add: next_call_def)
    from Cons.prems(7) eff Cons obtain ts' where
      run: "run_stages g (bp_env p) sts (piped cs) s1 = Some (s', ts', ds)" and ts: "ts = errs cs @ ts'" by auto
    have "chain g ?pps rd r sts"
      using r q by (intro chain_cong [OF r(4)]) (auto simp: nth_list_update)
    moreover have "fresh ?p1" using Cons.prems(3) by (auto simp: fresh_def)
    ultimately obtain x pps cmds where
      res: "k_call (knot g (Suc m)) r ?p1 = Some (idle g i (settled i s' (ts' @ shown rd ds) x pps cmds ?p1))" "kept rd ds (pps ! x)"
        "length (bp_cmds ?p1) \<le> length cmds"
      using Cons.IH [of ?p1 r s' ts' "Suc m"] Cons.prems(2,4,5,6,8) run r q n by auto
    have "settled i s' (ts' @ shown rd ds) x pps cmds ?p1 = settled i s' (ts @ shown rd ds) x pps cmds p"
      by (simp add: settled_def set_pending_def ts)
    with step res show ?thesis by (intro exI [of _ x] exI [of _ pps] exI [of _ cmds]) simp
  qed
qed simp

section \<open>Running a line\<close>

lemma set_pending_simps [simp]:
  "i < length (bp_shells p) \<Longrightarrow> shell_of (set_pending i cs p) i = (shell_of p i)\<lparr>hs_pending := cs\<rparr>"
  "set_pending i ds (set_pending i cs p) = set_pending i ds p"
  "bp_stack (set_pending i cs p) = bp_stack p" "bp_cmds (set_pending i cs p) = bp_cmds p" "bp_pps (set_pending i cs p) = bp_pps p"
  "bp_env (set_pending i cs p) = bp_env p" "bp_session (set_pending i cs p) = bp_session p" "bp_term (set_pending i cs p) = bp_term p"
  "length (bp_shells (set_pending i cs p)) = length (bp_shells p)" "bp_pp (set_pending i cs p) = bp_pp p"
  "bp_redirs (set_pending i cs p) = bp_redirs p"
  by (cases "i < length (bp_shells p)"; simp add: set_pending_def list_update_beyond)+

definition line_fuel :: "(string \<times> string list) list list \<Rightarrow> nat" where
  "line_fuel pls = 2 * length pls + length (concat pls)"

text \<open>The first step for a command at the head of the list: its processes are built, and the first one called.\<close>

lemma run_first:
  assumes "hs_pending (shell_of p i) = pipe_words (st # sts) # rest" and "i < length (bp_shells p)"
    and "\<forall>st \<in> set (st # sts). simple_stage st \<and> si_commands g (fst st) \<noteq> None" and "hs_environ (shell_of p i) ''PATH'' = Some dirs"
  shows "\<exists>new. let q = length (bp_pps p) + length new - 1 in
     k_run (tie g k) i p = k_call k q ((set_pending i rest p)\<lparr>bp_pps := bp_pps p @ new\<rparr>) \<and>
     chain g (bp_pps p @ new) (hs_redirect (shell_of p i)) q (st # sts) \<and> pp_input ((bp_pps p @ new) ! q) = None"
proof -
  let ?p = "set_pending i rest p"
  from assms(3) have "\<forall>st \<in> set (st # sts). fst st \<noteq> ''|'' \<and> ''|'' \<notin> set (snd st)" by (auto simp: simple_stage_def)
  from stages_words [OF this] obtain args where args: "pipe_words (st # sts) = fst st # args" "stages (fst st) args = st # sts" by auto
  have name: "CHR ''='' \<notin> set (fst st)" "fst st \<noteq> []" using assms(3) by (auto simp: simple_stage_def strip_def)
  from build_chain [of "st # sts" g "hs_environ (shell_of p i)" dirs "hs_redirect (shell_of p i)" ?p] assms(3,4)
  obtain new where new: "build g (hs_redirect (shell_of p i)) (hs_environ (shell_of p i)) (st # sts) ?p =
      (?p\<lparr>bp_pps := bp_pps p @ new\<rparr>, Inr (Inr (Some (length (bp_pps p) + length new - 1))))"
    "chain g (bp_pps p @ new) (hs_redirect (shell_of p i)) (length (bp_pps p) + length new - 1) (st # sts)"
    "pp_input ((bp_pps p @ new) ! (length (bp_pps p) + length new - 1)) = None"
    by (auto simp: simple_stage_def)
  have "k_run (tie g k) i p = k_call k (length (bp_pps p) + length new - 1) (?p\<lparr>bp_pps := bp_pps p @ new\<rparr>)"
    using new(1) assms(1,2) name args by (simp add: tie_def runCommand_def Let_def)
  then show ?thesis using new(2,3) by (intro exI [of _ new]) (simp add: Let_def)
qed

lemma found_stages:
  "run_stages g e sts inp s = Some r \<Longrightarrow> \<forall>st \<in> set sts. si_commands g (fst st) \<noteq> None"
proof (induction sts arbitrary: inp s r)
  case (Cons st sts)
  then obtain s' cs where "stage_effect g e st inp s = Some (s', cs)" by (cases sts) (auto split: option.splits)
  then have "si_commands g (fst st) \<noteq> None" by (auto simp: stage_effect_def split: option.splits)
  with Cons show ?case by (cases sts) (fastforce split: option.splits)+
qed simp

lemma set_pending_commute [simp]:
  "set_pending i cs (p\<lparr>bp_pps := ps\<rparr>) = (set_pending i cs p)\<lparr>bp_pps := ps\<rparr>"
  "set_pending i cs (p\<lparr>bp_session := s\<rparr>) = (set_pending i cs p)\<lparr>bp_session := s\<rparr>"
  "set_pending i cs (p\<lparr>bp_term := t\<rparr>) = (set_pending i cs p)\<lparr>bp_term := t\<rparr>"
  "set_pending i cs (p\<lparr>bp_pp := x\<rparr>) = (set_pending i cs p)\<lparr>bp_pp := x\<rparr>"
  "set_pending i cs (p\<lparr>bp_cmds := cm\<rparr>) = (set_pending i cs p)\<lparr>bp_cmds := cm\<rparr>"
  by (simp_all add: set_pending_def)

lemma settled_settled:
  "settled i s ts x pps cmds ((set_pending i cs p)\<lparr>bp_pps := ps\<rparr>) = settled i s ts x pps cmds p"
  "settled i s ts x pps cmds (p\<lparr>bp_session := s1, bp_term := bp_term p @ map Sent us, bp_pp := y, bp_pps := ps, bp_cmds := cm\<rparr>) =
     settled i s (us @ ts) x pps cmds p"
  by (simp_all add: settled_def)

text \<open>A pipeline that is followed by another one runs its first stage only.\<close>

lemma run_lost:
  assumes "hs_pending (shell_of p i) = pipe_words pl # rest" and "i < length (bp_shells p)"
    and "pl \<noteq> []" and "\<forall>st \<in> set pl. simple_stage st \<and> si_commands g (fst st) \<noteq> None"
    and "hs_environ (shell_of p i) ''PATH'' = Some dirs" and "\<not> hs_redirect (shell_of p i)"
    and "bp_stack p = st0 @ [Sh i]" and "fresh p" and "stage_effect g (bp_env p) (hd pl) None (bp_session p) = Some (s1, cs)"
  shows "\<exists>x pps cmds. k_run (tie g (tie g k)) i p =
    bindP (k_run k i ((set_pending i rest p)\<lparr>bp_session := s1, bp_term := bp_term p @ map Sent (if length pl = 1 then both cs else errs cs),
      bp_pp := Some x, bp_pps := pps, bp_cmds := cmds\<rparr>)) (\<lambda>_. next_call k) \<and> length (bp_cmds p) \<le> length cmds"
proof -
  obtain st sts where pl: "pl = st # sts" using assms(3) by (cases pl) auto
  from run_first [of p i st sts rest g dirs "tie g k"] assms(1,2,4,5) pl obtain new q where
    run: "k_run (tie g (tie g k)) i p = k_call (tie g k) q ((set_pending i rest p)\<lparr>bp_pps := bp_pps p @ new\<rparr>)"
    and ch: "chain g (bp_pps p @ new) False q (st # sts)" and inp: "pp_input ((bp_pps p @ new) ! q) = None"
    using assms(6) by (auto simp: Let_def)
  let ?p = "(set_pending i rest p)\<lparr>bp_pps := bp_pps p @ new\<rparr>"
  have noredir: "''>'' \<notin> set (snd st)" "''>>'' \<notin> set (snd st)" using assms(4) pl by (auto simp: simple_stage_def)
  have "stage_at g (bp_pps ?p) False q st" using chain_head [OF ch] by simp
  moreover have "bp_stack ?p = st0 @ [Sh i]" "fresh ?p" using assms(7,8) by (simp_all add: fresh_def)
  moreover have "stage_effect g (bp_env ?p) st (pp_input (bp_pps ?p ! q)) (bp_session ?p) = Some (s1, cs)" using assms(9) pl inp by simp
  ultimately obtain co where call: "call_command g k q ?p =
      bindP (k_run k i ((deliver q cs (?p\<lparr>bp_pp := Some q, bp_cmds := bp_cmds ?p @ [co]\<rparr>))\<lparr>bp_session := s1\<rparr>)) (\<lambda>_. next_call k)"
    using call_step [of g ?p False q st st0 i s1 cs k] noredir by blast
  let ?p1 = "?p\<lparr>bp_pp := Some q, bp_cmds := bp_cmds ?p @ [co]\<rparr>"
  have "\<exists>pps. deliver q cs ?p1 = ?p1\<lparr>bp_term := bp_term p @ map Sent (if length pl = 1 then both cs else errs cs), bp_pps := pps\<rparr>"
  proof (cases sts)
    case Nil
    then show ?thesis using deliver_last [of ?p1 q cs] ch pl by (intro exI [of _ "bp_pps ?p1"]) (simp add: stage_at_def)
  next
    case (Cons st' sts')
    then obtain r where "pp_next ((bp_pps p @ new) ! q) = Some r" "r < q" "q < length (bp_pps p @ new)" using ch by (auto simp: stage_at_def)
    then show ?thesis using deliver_next [of ?p1 q r cs] pl Cons by (intro exI) simp
  qed
  then obtain pps where "deliver q cs ?p1 = ?p1\<lparr>bp_term := bp_term p @ map Sent (if length pl = 1 then both cs else errs cs), bp_pps := pps\<rparr>" ..
  then have "(deliver q cs ?p1)\<lparr>bp_session := s1\<rparr> = (set_pending i rest p)\<lparr>bp_session := s1,
      bp_term := bp_term p @ map Sent (if length pl = 1 then both cs else errs cs), bp_pp := Some q, bp_pps := pps, bp_cmds := bp_cmds p @ [co]\<rparr>"
    by simp
  with run call show ?thesis by (intro exI [of _ q] exI [of _ pps] exI [of _ "bp_cmds p @ [co]"]) (simp add: tie_def)
qed

lemma run_all:
  assumes "run_line g (bp_env p) pls (bp_session p) = Some (s', ts, ds)" and "simple_line pls"
    and "hs_pending (shell_of p i) = map pipe_words pls" and "i < length (bp_shells p)"
    and "hs_environ (shell_of p i) ''PATH'' = Some dirs" and "hs_redirect (shell_of p i) \<longrightarrow> length pls = 1"
    and "bp_stack p = st0 @ [Sh i]" and "fresh p" and "line_fuel pls < n"
    and "\<forall>pl \<in> set pls. \<forall>st \<in> set pl. si_commands g (fst st) \<noteq> None"
  shows "\<exists>x pps cmds. k_run (knot g n) i p = Some (idle g i (settled i s' (ts @ shown (hs_redirect (shell_of p i)) ds) x pps cmds p)) \<and>
    kept (hs_redirect (shell_of p i)) ds (pps ! x) \<and> length (bp_cmds p) \<le> length cmds"
  using assms
proof (induction pls arbitrary: p n ts)
  case (Cons pl pls)
  obtain m where n: "n = Suc (Suc m)" using Cons.prems(9) by (cases n; cases "n - 1") (auto simp: line_fuel_def)
  have pl: "pl \<noteq> []" "\<forall>st \<in> set pl. simple_stage st" using Cons.prems(2) by (simp_all add: simple_line_def)
  show ?case
  proof (cases pls)
    case Nil
    obtain st sts where st: "pl = st # sts" using pl(1) by (cases pl) auto
    have run: "run_stages g (bp_env p) pl None (bp_session p) = Some (s', ts, ds)" using Cons.prems(1) Nil by simp
    from run_first [of p i st sts "[]" g dirs "knot g (Suc m)"] Cons.prems(3,4,5,10) pl(2) st Nil obtain new q where
      k: "k_run (knot g n) i p = k_call (knot g (Suc m)) q ((set_pending i [] p)\<lparr>bp_pps := bp_pps p @ new\<rparr>)"
      and ch: "chain g (bp_pps p @ new) (hs_redirect (shell_of p i)) q pl" and inp: "pp_input ((bp_pps p @ new) ! q) = None"
      by (auto simp: Let_def n)
    let ?p = "(set_pending i [] p)\<lparr>bp_pps := bp_pps p @ new\<rparr>"
    have "\<forall>st \<in> set pl. ''>'' \<notin> set (snd st) \<and> ''>>'' \<notin> set (snd st)" using pl(2) by (auto simp: simple_stage_def)
    moreover have "length pl < Suc m" using Cons.prems(9) n Nil by (simp add: line_fuel_def)
    moreover have "fresh ?p" using Cons.prems(8) by (simp add: fresh_def)
    ultimately obtain x pps cmds where
      "k_call (knot g (Suc m)) q ?p = Some (idle g i (settled i s' (ts @ shown (hs_redirect (shell_of p i)) ds) x pps cmds ?p))"
      "kept (hs_redirect (shell_of p i)) ds (pps ! x)" "length (bp_cmds ?p) \<le> length cmds"
      using call_chain [of g ?p "hs_redirect (shell_of p i)" q pl st0 i s' ts ds "Suc m"] ch Cons.prems(4,7) run inp by auto
    with k show ?thesis by (auto simp: settled_settled)
  next
    case (Cons pl' pls')
    have rd: "\<not> hs_redirect (shell_of p i)" using Cons.prems(6) Cons by auto
    from Cons.prems(1) Cons obtain s1 cs ts' where eff: "stage_effect g (bp_env p) (hd pl) None (bp_session p) = Some (s1, cs)"
      and rest: "run_line g (bp_env p) pls s1 = Some (s', ts', ds)" and ts: "ts = (if length pl = 1 then both cs else errs cs) @ ts'"
      by (auto split: option.splits)
    from run_lost [of p i pl "map pipe_words pls" g dirs st0 s1 cs "knot g m"] Cons.prems(3,4,5,7,8,10) pl rd eff obtain x pps cmds where
      k: "k_run (knot g n) i p =
        bindP (k_run (knot g m) i ((set_pending i (map pipe_words pls) p)\<lparr>bp_session := s1,
          bp_term := bp_term p @ map Sent (if length pl = 1 then both cs else errs cs), bp_pp := Some x, bp_pps := pps, bp_cmds := cmds\<rparr>))
          (\<lambda>_. next_call (knot g m))" and len: "length (bp_cmds p) \<le> length cmds"
      by (auto simp: n)
    let ?p = "(set_pending i (map pipe_words pls) p)\<lparr>bp_session := s1,
      bp_term := bp_term p @ map Sent (if length pl = 1 then both cs else errs cs), bp_pp := Some x, bp_pps := pps, bp_cmds := cmds\<rparr>"
    have "fresh ?p" using Cons.prems(8) len by (auto simp: fresh_def)
    moreover have "simple_line pls" using Cons.prems(2) Cons by (simp add: simple_line_def)
    moreover have "line_fuel pls < m" using Cons.prems(9) n pl(1) by (cases pl) (simp_all add: line_fuel_def)
    ultimately obtain y pps' cmds' where
      r: "k_run (knot g m) i ?p = Some (idle g i (settled i s' (ts' @ shown False ds) y pps' cmds' ?p))" "kept False ds (pps' ! y)"
        "length cmds \<le> length cmds'"
      using Cons.IH [of ?p ts' m] Cons.prems(4,5,7,10) rest rd by auto
    have "settled i s' (ts' @ shown False ds) y pps' cmds' ?p = settled i s' (ts @ shown False ds) y pps' cmds' p"
      by (simp add: settled_settled settled_def ts)
    moreover have "bindP (Some (idle g i (settled i s' (ts @ shown False ds) y pps' cmds' p))) (\<lambda>_. next_call (knot g m)) =
        Some (idle g i (settled i s' (ts @ shown False ds) y pps' cmds' p))"
      using r(2) by (intro idle_next_call [of _ y]) (simp_all add: settled_def kept_def)
    ultimately show ?thesis using k r len rd by (intro exI [of _ y] exI [of _ pps'] exI [of _ cmds']) simp
  qed
qed simp

section \<open>From the line to the commands\<close>

lemma line_word:
  assumes "simple_word w"
  shows "k_line (tie g k) i (w # ws, b) tokens p = k_line k i (ws, b) (tokens @ [w]) p"
  using assms by (auto simp: tie_def line_loop_def simple_word_def expand_def prefix_def Let_def)

lemma line_words_loop:
  "\<forall>w \<in> set ws. simple_word w \<Longrightarrow>
     k_line (knot g (n + length ws)) i (ws @ vs, b) tokens p = k_line (knot g n) i (vs, b) (tokens @ ws) p"
proof (induction ws arbitrary: tokens)
  case (Cons w ws)
  then show ?case using line_word [of w g "knot g (n + length ws)" i "ws @ vs" b tokens p] by simp
qed simp

lemma pend_simps [simp]:
  "ws \<noteq> [] \<Longrightarrow> pend i ws p = set_pending i (hs_pending (shell_of p i) @ [ws]) p" "pend i [] p = p"
  by (simp_all add: pend_def)

lemma simple_bar: "simple_word ''|''"
  by code_simp

lemma simple_pipe_words:
  "pl \<noteq> [] \<Longrightarrow> \<forall>st \<in> set pl. simple_stage st \<Longrightarrow> pipe_words pl \<noteq> [] \<and> (\<forall>w \<in> set (pipe_words pl). simple_word w)"
proof (induction pl rule: pipe_words.induct)
  case (2 c args)
  then show ?case by (simp add: simple_stage_def)
next
  case (3 c args st sts)
  from "3.prems" have "simple_word c" "\<forall>w \<in> set args. simple_word w" by (simp_all add: simple_stage_def)
  moreover from 3 have "\<forall>w \<in> set (pipe_words (st # sts)). simple_word w" by simp
  ultimately show ?case unfolding pipe_words.simps using simple_bar by (metis UnE list.discI set_ConsD set_append)
qed simp

lemma line_loop_pends:
  assumes "simple_line pls" and "i < length (bp_shells p)"
  shows "k_line (knot g (n + length (line_words pls) + 1)) i (line_words pls, False) [] p =
    k_run (knot g n) i (set_pending i (hs_pending (shell_of p i) @ map pipe_words pls) p)"
  using assms
proof (induction pls arbitrary: p rule: line_words.induct)
  case (2 pl)
  then have w: "pipe_words pl \<noteq> []" "\<forall>w \<in> set (pipe_words pl). simple_word w"
    using simple_pipe_words [of pl] by (simp_all add: simple_line_def)
  have "k_line (knot g (Suc n)) i ([], False) (pipe_words pl) p = k_run (knot g n) i (pend i (pipe_words pl) p)"
    using w(1) "2.prems"(2) by (simp add: tie_def line_loop_def runOrPrompt_def)
  then show ?case
    using line_words_loop [OF w(2), of g "Suc n" i "[]" False "[]" p] w(1) by (simp add: add.commute)
next
  case (3 pl pl' pls)
  then have w: "pipe_words pl \<noteq> []" "\<forall>w \<in> set (pipe_words pl). simple_word w"
    and rest: "simple_line (pl' # pls)" using simple_pipe_words [of pl] by (simp_all add: simple_line_def)
  let ?m = "n + length (line_words (pl' # pls)) + 1" and ?p = "pend i (pipe_words pl) p"
  have "k_line (knot g (Suc ?m)) i ('';'' # line_words (pl' # pls), False) (pipe_words pl) p =
      k_line (knot g ?m) i (line_words (pl' # pls), False) [] ?p"
    by (simp add: tie_def line_loop_def)
  also have "\<dots> = k_run (knot g n) i (set_pending i (hs_pending (shell_of ?p i) @ map pipe_words (pl' # pls)) ?p)"
    using "3.prems"(2) w(1) by (intro "3.IH" [OF rest]) simp
  also have "\<dots> = k_run (knot g n) i (set_pending i (hs_pending (shell_of p i) @ map pipe_words (pl # pl' # pls)) p)"
    using w(1) "3.prems"(2) by simp
  finally show ?case
    using line_words_loop [OF w(2), of g "Suc ?m" i "'';'' # line_words (pl' # pls)" False "[]" p]
    by (simp add: algebra_simps)
qed (simp add: simple_line_def)

text \<open>An interactive shell that waits for a line, at the top of the stack.\<close>

definition at_prompt :: "nat \<Rightarrow> protocol \<Rightarrow> bool" where
  "at_prompt i p \<longleftrightarrow> bp_stack p \<noteq> [] \<and> last (bp_stack p) = Sh i \<and> fresh p \<and> i < length (bp_shells p) \<and>
     hs_interactive (shell_of p i) \<and> \<not> hs_redirect (shell_of p i) \<and> hs_pending (shell_of p i) = [] \<and>
     hs_environ (shell_of p i) ''PATH'' \<noteq> None"

text \<open>The effect of a line of pipelines.\<close>

lemma line_effect:
  assumes "at_prompt i p" and "lex shell_cfg line = (line_words pls, False)" and "simple_line pls"
    and "\<forall>pl \<in> set pls. \<forall>st \<in> set pl. si_commands g (fst st) \<noteq> None"
    and "run_line g (bp_env p) pls (bp_session p) = Some (s', ts, ds)" and "line_fuel pls + length (line_words pls) + 1 < n"
  shows "\<exists>p'. shell_lineReceived g n i line p = Some (showPrompt g i p') \<and> at_prompt i p' \<and> bp_session p' = s' \<and>
    bp_term p' = bp_term p @ map Sent (ts @ both ds) \<and> bp_stack p' = bp_stack p \<and> bp_env p' = bp_env p"
proof -
  from assms(1) obtain st0 where st0: "bp_stack p = st0 @ [Sh i]" by (metis at_prompt_def append_butlast_last_id)
  from assms(1) obtain dirs where dirs: "hs_environ (shell_of p i) ''PATH'' = Some dirs" by (auto simp: at_prompt_def)
  define m where "m = n - length (line_words pls) - 1"
  then have n: "n = m + length (line_words pls) + 1" and m: "line_fuel pls < m" using assms(6) by simp_all
  let ?p = "set_pending i (map pipe_words pls) p"
  have line: "shell_lineReceived g n i line p = k_run (knot g m) i ?p"
    using line_loop_pends [OF assms(3), of i p g m] assms(1,2) by (simp add: shell_lineReceived_def n at_prompt_def)
  have "fresh ?p" using assms(1) by (simp add: at_prompt_def fresh_def)
  then obtain x pps cmds where
    r: "k_run (knot g m) i ?p = Some (idle g i (settled i s' (ts @ both ds) x pps cmds ?p))" "kept False ds (pps ! x)"
      "length (bp_cmds p) \<le> length cmds"
    using run_all [of g ?p pls s' ts ds i dirs st0 m] assms(1,3,4,5) m st0 dirs by (auto simp: at_prompt_def shown_def)
  let ?q = "settled i s' (ts @ both ds) x pps cmds ?p"
  have q: "at_prompt i ?q" using assms(1) r(3) by (auto simp: at_prompt_def settled_def fresh_def)
  have "hs_interactive (shell_of p i)" "i < length (bp_shells p)" using assms(1) by (simp_all add: at_prompt_def)
  then have "idle g i ?q = showPrompt g i ?q" using r(2) by (simp add: idle_def settled_def kept_def)
  with line r(1) q show ?thesis by (intro exI [of _ ?q]) (simp add: settled_def)
qed

text \<open>C5. A line of pipelines of simple words, typed at a prompt, with commands that come to their end: however deep the commands, the
  shell and the protocol call one another, what has changed when the prompt is back is what the specification says, and the
  stack is what it was.\<close>

theorem shell_line_refines:
  assumes "at_prompt i p" and "lex shell_cfg line = (line_words pls, False)" and "simple_line pls"
    and "\<forall>pl \<in> set pls. \<forall>st \<in> set pl. si_commands g (fst st) \<noteq> None"
    and "run_line g (bp_env p) pls (bp_session p) = Some (s', ts, ds)" and "line_fuel pls + length (line_words pls) + 1 < n"
  shows "\<exists>p'. shell_lineReceived g n i line p = Some (showPrompt g i p') \<and> at_prompt i p' \<and> bp_session p' = s' \<and>
    bp_term p' = bp_term p @ map Sent (ts @ both ds) \<and> bp_stack p' = bp_stack p \<and> bp_env p' = bp_env p"
  using assms by (rule line_effect)

text \<open>A pipeline that is followed by another command on the line: only its first stage runs. Its later stages are never
  called, whatever they are, and what they would have read is lost.\<close>

theorem later_stages_lost:
  assumes "at_prompt i p" and "lex shell_cfg line = (pipe_words (st # later) @ '';'' # line_words (pl # pls), False)"
    and "simple_line ((st # later) # pl # pls)" and "\<forall>st \<in> set later. si_commands g (fst st) \<noteq> None" and "later \<noteq> []"
    and "stage_effect g (bp_env p) st None (bp_session p) = Some (s1, cs)"
    and "run_line g (bp_env p) (pl # pls) s1 = Some (s', ts, ds)" and "\<forall>pl' \<in> set (pl # pls). \<forall>st \<in> set pl'. si_commands g (fst st) \<noteq> None"
    and "line_fuel ((st # later) # pl # pls) + length (pipe_words (st # later) @ '';'' # line_words (pl # pls)) + 1 < n"
  shows "\<exists>p'. shell_lineReceived g n i line p = Some (showPrompt g i p') \<and> at_prompt i p' \<and> bp_session p' = s' \<and>
    bp_term p' = bp_term p @ map Sent (errs cs @ ts @ both ds)"
proof -
  have "si_commands g (fst st) \<noteq> None" using assms(6) by (auto simp: stage_effect_def split: option.splits)
  moreover have "run_line g (bp_env p) ((st # later) # pl # pls) (bp_session p) = Some (s', errs cs @ ts, ds)"
    using assms(5,6,7) by simp
  ultimately show ?thesis
    using line_effect [of i p line "(st # later) # pl # pls" g s' "errs cs @ ts" ds n] assms(1-4,8,9) by auto
qed

section \<open>Quotes\<close>

text \<open>Quotes keep the lexer from splitting a word, and nothing else: a line whose words are all quoted does what it does
  without the quotes. Semicolons and bars in quotes separate commands, dollars are expanded, \<open>$(...)\<close> is run.\<close>

theorem quotes_change_nothing:
  assumes "\<forall>w \<in> set ws. reads shell_cfg w w"
  shows "shell_lineReceived g n i (join_on '' '' (map quote ws)) p = shell_lineReceived g n i (join_on '' '' ws) p"
proof -
  have q: "reads shell_cfg (quote w) w" for w by (rule reads_quote; code_simp)
  have "lex shell_cfg (join_on '' '' (map quote ws)) = (ws, False)"
    by (rule lex_join) (simp add: list_all2_conv_all_nth q)
  moreover have "lex shell_cfg (join_on '' '' ws) = (ws, False)"
    using assms by (intro lex_join) (simp add: list_all2_same)
  ultimately show ?thesis by (simp add: shell_lineReceived_def)
qed

section \<open>Sessions of one command\<close>

text \<open>A session that is opened for a command line: when the last of its commands has come to its end, the session ends,
  and what they wrote is all that was sent.\<close>

theorem exec_session_ends:
  assumes "bp_shells p = []" and "bp_environ p ''PATH'' = Some dirs"
    and "lex shell_cfg (join_on ''; '' (split_on CHR 0x0A (strip cmd))) = (line_words pls, False)" and "simple_line pls"
    and "\<forall>pl \<in> set pls. \<forall>st \<in> set pl. si_commands g (fst st) \<noteq> None"
    and "run_line g (bp_env p) pls (bp_session p) = Some (s', ts, ds)" and "line_fuel pls + length (line_words pls) + 1 < n"
  shows "\<exists>p'. exec_made g n cmd p = Some (p', Inr ()) \<and> bp_session p' = s' \<and>
    bp_term p' = bp_term p @ map Sent (ts @ both ds) @ [Ended]"
proof -
  define env where "env = (case bp_window p of None \<Rightarrow> bp_environ p
      | Some (rows, columns) \<Rightarrow> (bp_environ p)(''COLUMNS'' \<mapsto> show_nat columns, ''LINES'' \<mapsto> show_nat rows))"
  have env: "env ''PATH'' = Some dirs" using assms(2) by (simp add: env_def split: option.split prod.split)
  let ?sh = "\<lparr>hs_interactive = False, hs_redirect = False, hs_pending = [], hs_environ = env\<rparr>"
  let ?p1 = "p\<lparr>bp_shells := [?sh], bp_stack := [Sh 0]\<rparr>"
  have new: "new_shell g False False p = (p\<lparr>bp_shells := [?sh]\<rparr>, Inr 0)"
    by (simp add: new_shell_def showPrompt_def Let_def env_def assms(1))
  define m where "m = n - length (line_words pls) - 1"
  then have n: "n = m + length (line_words pls) + 1" and m: "line_fuel pls < m" using assms(7) by simp_all
  let ?p2 = "set_pending 0 (map pipe_words pls) ?p1"
  have line: "exec_made g n cmd p = k_run (knot g m) 0 ?p2"
    using line_loop_pends [OF assms(4), of 0 ?p1 g m] assms(3) new by (simp add: exec_made_def shell_lineReceived_def n)
  have "fresh ?p2" by (simp add: fresh_def)
  then obtain x pps cmds where
    r: "k_run (knot g m) 0 ?p2 = Some (idle g 0 (settled 0 s' (ts @ both ds) x pps cmds ?p2))" "kept False ds (pps ! x)"
    using run_all [of g ?p2 pls s' ts ds 0 dirs "[]" m] assms(4-6) m env by (auto simp: shown_def)
  let ?q = "settled 0 s' (ts @ both ds) x pps cmds ?p2"
  have "idle g 0 ?q = (ended ?q, Inr ())" using r(2) by (simp add: idle_def settled_def kept_def)
  with line r(1) show ?thesis by (intro exI [of _ "ended ?q"]) (simp add: settled_def ended_def)
qed

end
