(* ===== verification/Echo.thy ===== *)
theory Echo
  imports Shell
begin

text \<open>
  \<open>echo\<close> and \<open>printf\<close> of \<open>cowrie/commands/base.py\<close>, with the decoding of escapes of the standard library. They are what
  droppers write their payload with, in escapes of two hexadecimal digits.
\<close>

section \<open>Escapes\<close>

text \<open>Two backslashes before an x become one.\<close>

fun replace_double :: "string \<Rightarrow> string" where
  "replace_double (a # b # c # cs) =
     (if a = backslash \<and> b = backslash \<and> c = CHR ''x'' then backslash # CHR ''x'' # replace_double cs
      else a # replace_double (b # c # cs))"
| "replace_double cs = cs"

definition hex_char_ok :: "char \<Rightarrow> bool" where
  "hex_char_ok c \<longleftrightarrow> (let n = code c in 48 \<le> n \<and> n \<le> 57 \<or> 65 \<le> n \<and> n \<le> 70 \<or> 97 \<le> n \<and> n \<le> 102)"

text \<open>A single digit behind \<open>\x\<close> gets a zero in front of it, at the end or before a backslash, a quote or a space.\<close>

fun pad_hex :: "bool \<Rightarrow> string \<Rightarrow> string" where
  "pad_hex behind (c # d # cs) =
     (if behind \<and> c = CHR ''x'' \<and> hex_char_ok d \<and> (cs = [] \<or> hd cs = backslash \<or> quote_char (hd cs) \<or> is_space (hd cs))
      then CHR ''x'' # CHR ''0'' # d # pad_hex False cs
      else c # pad_hex (c = backslash) (d # cs))"
| "pad_hex behind cs = cs"

definition hex_val :: "char \<Rightarrow> nat" where
  "hex_val c = (let n = code c in if n \<le> 57 then n - 48 else if n \<le> 70 then n - 55 else n - 87)"

definition is_octal :: "char \<Rightarrow> bool" where
  "is_octal c \<longleftrightarrow> 48 \<le> code c \<and> code c \<le> 55"

definition octal_byte :: "string \<Rightarrow> char" where
  "octal_byte ds = char_of (foldl (\<lambda>n d. 8 * n + (code d - 48)) 0 ds mod 256)"

definition simple_escape :: "char \<Rightarrow> string option" where
  "simple_escape c =
     map_of [(CHR 0x0A, []), (backslash, [backslash]), (CHR 0x27, [CHR 0x27]), (CHR 0x22, [CHR 0x22]), (CHR ''b'', [CHR 0x08]),
       (CHR ''f'', [CHR 0x0C]), (CHR ''t'', [CHR 0x09]), (CHR ''n'', [CHR 0x0A]), (CHR ''r'', [CHR 0x0D]), (CHR ''v'', [CHR 0x0B]),
       (CHR ''a'', [CHR 0x07])] c"

text \<open>\<open>codecs.escape_decode\<close>, on the bytes of its argument.\<close>

function escape_decode :: "string \<Rightarrow> string result" where
  "escape_decode [] = Inr []"
| "escape_decode (a # cs) =
     (if a \<noteq> backslash then map_sum id ((#) a) (escape_decode cs)
      else case cs of
        [] \<Rightarrow> Inl ValueError
      | c # ds \<Rightarrow>
          (case simple_escape c of
             Some s \<Rightarrow> map_sum id ((@) s) (escape_decode ds)
           | None \<Rightarrow>
               if is_octal c then
                 let k = length (takeWhile is_octal (take 2 ds)) in
                 map_sum id ((#) (octal_byte (c # take k ds))) (escape_decode (drop k ds))
               else if c = CHR ''x'' then
                 (case ds of
                    h # l # es \<Rightarrow>
                      if hex_char_ok h \<and> hex_char_ok l
                      then map_sum id ((#) (char_of (16 * hex_val h + hex_val l))) (escape_decode es) else Inl ValueError
                  | _ \<Rightarrow> Inl ValueError)
               else map_sum id ((@) [backslash, c]) (escape_decode ds)))"
  by pat_completeness auto
termination by (relation "measure length") auto

declare escape_decode.simps(2) [simp del]

section \<open>Commands\<close>

text \<open>The text is prepared in the same way by both.\<close>

definition prepare :: "string \<Rightarrow> string" where
  "prepare s = pad_hex False (replace_double s)"

definition command_echo :: body where
  "command_echo args inp =
     (let (opts, rest) = (case getopt ''eEn'' [] args of Inl _ \<Rightarrow> ([], args) | Inr r \<Rightarrow> r);
          escapes = foldl (\<lambda>b (x, _). if x = ''-e'' then True else if x = ''-E'' then False else b) False opts;
          newline = (\<forall>(x, _) \<in> set opts. x \<noteq> ''-n'');
          s = prepare (join_on '' '' rest);
          cut = suffix [backslash, CHR ''c''] s;
          s = (if cut then butlast (butlast s) else s);
          s = (if newline \<and> \<not> cut then s @ nl else s) in
      if escapes then (case escape_decode (str_encode s) of Inl _ \<Rightarrow> Done | Inr d \<Rightarrow> Write d Done) else Write (str_encode s) Done)"

definition strip_quotes :: "string \<Rightarrow> string" where
  "strip_quotes s = rev (dropWhile quote_char (rev (dropWhile quote_char s)))"

definition command_printf :: body where
  "command_printf args inp =
     (if args = [] then Write (''printf: usage: printf [-v var] format [arguments]'' @ nl) Done
      else if ''-v'' \<notin> set args \<and> length args < 2 then
        let s = strip_quotes (prepare (hd args)); s = (if suffix [backslash, CHR ''c''] s then butlast (butlast s) else s) in
        (case escape_decode (str_encode s) of Inl x \<Rightarrow> Fail x | Inr d \<Rightarrow> Write d Done)
      else Done)"

section \<open>A payload in escapes\<close>

definition hex_of :: "nat \<Rightarrow> char" where
  "hex_of n = ''0123456789abcdef'' ! n"

definition hex_text :: "string \<Rightarrow> string" where
  "hex_text bs = concat (map (\<lambda>b. [backslash, CHR ''x'', hex_of (code b div 16), hex_of (code b mod 16)]) bs)"

lemma hex_of_ok: "n < 16 \<Longrightarrow> hex_char_ok (hex_of n) \<and> hex_val (hex_of n) = n \<and> hex_of n \<noteq> backslash \<and> hex_of n \<noteq> CHR ''x'' \<and>
    \<not> quote_char (hex_of n) \<and> \<not> is_space (hex_of n) \<and> code (hex_of n) < 128"
proof -
  have "\<forall>n \<in> set [0 ..< 16]. hex_char_ok (hex_of n) \<and> hex_val (hex_of n) = n \<and> hex_of n \<noteq> backslash \<and> hex_of n \<noteq> CHR ''x'' \<and>
    \<not> quote_char (hex_of n) \<and> \<not> is_space (hex_of n) \<and> code (hex_of n) < 128" by code_simp
  then show "n < 16 \<Longrightarrow> ?thesis" by simp
qed

lemma code_halves: "code b div 16 < 16" "code b mod 16 < 16" "char_of (16 * (code b div 16) + code b mod 16) = b"
proof -
  have "code b < 256" by (simp add: code_def)
  then show "code b div 16 < 16" using less_mult_imp_div_less [of "code b" 16 16] by simp
  show "code b mod 16 < 16" by simp
  show "char_of (16 * (code b div 16) + code b mod 16) = b" by (simp add: code_def)
qed

lemma hex_text_simps [simp]:
  "hex_text [] = []" "hex_text (b # bs) = [backslash, CHR ''x'', hex_of (code b div 16), hex_of (code b mod 16)] @ hex_text bs"
  by (simp_all add: hex_text_def)

lemma replace_double_hex: "replace_double (hex_text bs) = hex_text bs"
proof (induction bs)
  case (Cons b bs)
  let ?h = "hex_of (code b div 16)" and ?l = "hex_of (code b mod 16)"
  have h: "?h \<noteq> backslash" "?l \<noteq> backslash" using hex_of_ok code_halves by blast+
  have "replace_double (?h # ?l # hex_text bs) = ?h # ?l # hex_text bs"
    using h Cons.IH by (cases bs) simp_all
  with h show ?case by simp
qed simp

lemma pad_hex_hex: "pad_hex b (hex_text bs) = hex_text bs"
proof (induction bs arbitrary: b)
  case (Cons c bs)
  let ?h = "hex_of (code c div 16)" and ?l = "hex_of (code c mod 16)"
  have h: "?h \<noteq> backslash" "?l \<noteq> backslash" "?h \<noteq> CHR ''x''" "?l \<noteq> CHR ''x''" "\<not> quote_char ?l" "\<not> is_space ?l"
    using hex_of_ok code_halves by blast+
  have "pad_hex False (?l # hex_text bs) = ?l # hex_text bs" using h Cons.IH by (cases bs) simp_all
  with h show ?case by simp
qed simp

lemma hex_text_last: "\<not> suffix [backslash, CHR ''c''] (hex_text bs)"
proof (cases bs rule: rev_cases)
  case (snoc cs c)
  have "hex_text bs = (hex_text cs @ [backslash, CHR ''x'']) @ [hex_of (code c div 16), hex_of (code c mod 16)]"
    by (simp add: snoc hex_text_def)
  moreover have "hex_of (code c div 16) \<noteq> backslash" using hex_of_ok code_halves by blast
  ultimately show ?thesis by (auto simp: suffix_def)
qed simp

lemma str_encode_ascii: "\<forall>c \<in> set s. code c < 128 \<Longrightarrow> str_encode s = s"
  by (induction s) auto

lemma hex_text_ascii: "\<forall>c \<in> set (hex_text bs). code c < 128"
proof (induction bs)
  case (Cons b bs)
  have "code backslash < 128" "code CHR ''x'' < 128" by (simp_all add: code_def)
  with Cons hex_of_ok code_halves show ?case by auto
qed simp

lemma escape_decode_hex: "escape_decode (hex_text bs) = Inr bs"
proof (induction bs)
  case (Cons b bs)
  have "simple_escape CHR ''x'' = None" "\<not> is_octal CHR ''x''" by code_simp+
  moreover have "hex_char_ok (hex_of (code b div 16))" "hex_char_ok (hex_of (code b mod 16))"
    "hex_val (hex_of (code b div 16)) = code b div 16" "hex_val (hex_of (code b mod 16)) = code b mod 16"
    using hex_of_ok code_halves by blast+
  ultimately show ?case using Cons.IH code_halves(3) [of b] by (simp add: escape_decode.simps(2))
qed simp

text \<open>A payload written in escapes comes out byte for byte, without a line end, whatever its bytes are.\<close>

lemma echo_prog: "command_echo [''-ne'', hex_text bs] inp = Write bs Done"
proof -
  have "getopt ''eEn'' [] [''-ne'', hex_text bs] = Inr ([(''-n'', []), (''-e'', [])], [hex_text bs])"
    by (cases bs) simp_all
  moreover have "prepare (hex_text bs) = hex_text bs" by (simp add: prepare_def replace_double_hex pad_hex_hex)
  moreover have "\<not> suffix [backslash, CHR ''c''] (hex_text bs)" by (rule hex_text_last)
  ultimately show ?thesis
    by (simp add: command_echo_def str_encode_ascii [OF hex_text_ascii] escape_decode_hex)
qed

end
