(* ===== verification/RedirectFacts.thy ===== *)
theory RedirectFacts
  imports ShellFacts Echo
begin

text \<open>
  The output of a command that goes to a file: what the file system and the host have behind it. Together with \<open>echo\<close>, this is
  the way a payload comes in that is typed as escapes.
\<close>

section \<open>Files of the host\<close>

lemma host_append_simps [simp]:
  "h_isfile (ce_host (host_append f d e)) = (h_isfile (ce_host e))(f := True)"
  "h_read (ce_host (host_append f d e)) f = (if h_isfile (ce_host e) f then h_read (ce_host e) f else []) @ d"
  "host_append f d (host_append f c e) = host_append f (c @ d) e"
  "ce_frames (host_append f d e) = ce_frames e" "ce_uid (host_append f d e) = ce_uid e"
  by (simp_all add: host_append_def Let_def)

lemma redir_name_not_Nil: "redir_name g e f \<noteq> []"
  by (simp add: redir_name_def)

text \<open>The node of a file that output goes to.\<close>

definition out_node :: "cenv \<Rightarrow> string \<Rightarrow> int \<Rightarrow> string \<Rightarrow> attrs" where
  "out_node e x siz real =
     \<lparr>A_NAME = x, A_TYPE = T_FILE, A_UID = ce_uid e, A_GID = ce_gid e, A_SIZE = siz, A_MODE = 33188, A_CTIME = ce_now e,
      A_TARGET = None, A_REALFILE = Some real\<rparr>"

lemma make_outfile_view:
  fixes g :: site and p :: protocol
  defines "e \<equiv> bp_env p" and "s \<equiv> se_fs (bp_session p)"
  assumes g: "good (fs_root s)" and plain: "\<forall>q \<in> set (ps @ [x]). plain q" and path: "path = join_path (ps @ [x])"
    and room: "fs_newcount s \<le> 10000" "\<not> list_ex (\<lambda>p. prefix p (join_path ps)) SPECIAL_PATHS" and dir: "view_of (fs_root s) ps \<noteq> None"
    and k: "ce_frames e = Suc k" and safe: "safe = redir_name g e path"
  obtains v where "make_outfile g c path p =
      (in_session (\<lambda>_. v) ((set_cmd c (\<lambda>co. co\<lparr>co_safeoutfile := safe\<rparr>) p)\<lparr>bp_env := host_append safe [] e\<rparr>), Inr ())"
    and "good (fs_root v)" and "view_of (fs_root v) = put_view (ps @ [x]) (out_node e x 0 safe) (view_of (fs_root s))"
proof -
  let ?y = "A (new_node x T_FILE (ce_uid e) (ce_gid e) 0 33188 (ce_now e))"
  obtain v r where mk: "mkfile (Suc k) path (ce_uid e) (ce_gid e) 0 33188 (ce_now e) s = (v, r)" by fastforce
  have "call_ok (Mkfile ps x (ce_uid e) (ce_gid e) 0 33188 (ce_now e))" using plain by simp
  from sim_mkfile [OF g this, of k] room dir mk
  have v: "good (fs_root v)" "view_of (fs_root v) = put_view (ps @ [x]) ?y (view_of (fs_root s))" and r: "r = Inr True"
    by (simp_all add: simulates_def abs_state_def path)
  obtain l where l: "locate (fs_root v) (ps @ [x]) = Some l"
    using view_None [of "fs_root v" "ps @ [x]"] by (auto simp: v(2) put_view_def)
  from view_Some [OF l] have a: "A (node_at (fs_root v) l) = ?y" by (simp add: v(2) put_view_def)
  define root where "root = update_at l (set_attrs (\<lambda>a. a\<lparr>A_REALFILE := Some safe\<rparr>)) (fs_root v)"
  have u: "update_realfile (ce_host (host_append safe [] e)) l safe (fs_root v) = root"
    by (simp add: update_realfile_def Let_def a new_node_def root_def)
  have root: "good root" "view_of root = put_view (ps @ [x]) (out_node e x 0 safe) (view_of (fs_root s))"
    using set_at [OF v(1) l, of "\<lambda>a. a\<lparr>A_REALFILE := Some safe\<rparr>"]
    by (auto simp: root_def v(2) set_view_def put_view_def new_node_def out_node_def)
  have "make_outfile g c path p =
      (in_session (\<lambda>_. v\<lparr>fs_root := root\<rparr>) ((set_cmd c (\<lambda>co. co\<lparr>co_safeoutfile := safe\<rparr>) p)\<lparr>bp_env := host_append safe [] e\<rparr>), Inr ())"
    using mk r getfile_good [OF v(1) plain, of k True] l u k
    by (simp add: make_outfile_def Let_def in_session_def set_cmd_def path flip: e_def s_def safe) (simp add: path safe)
  from that [OF this] root show thesis by simp
qed

section \<open>A command with its output redirected\<close>

definition redirected_to :: "site \<Rightarrow> protocol \<Rightarrow> string list \<Rightarrow> string \<Rightarrow> string \<Rightarrow> string \<Rightarrow> bool" where
  "redirected_to g p ps x path safe \<longleftrightarrow>
     (let s = se_fs (bp_session p) in
      good (fs_root s) \<and> (\<forall>q \<in> set (ps @ [x]). plain q) \<and> path = join_path (ps @ [x]) \<and> fs_newcount s \<le> 10000 \<and>
      \<not> list_ex (\<lambda>p. prefix p (join_path ps)) SPECIAL_PATHS \<and> view_of (fs_root s) ps \<noteq> None \<and> 0 < ce_frames (bp_env p) \<and>
      safe = redir_name g (bp_env p) path)"

text \<open>The command object and the file, when the command has been made.\<close>

lemma new_command_redirects:
  assumes pp: "pp_args (bp_pps p ! q) = args @ [''>'', f]" and args: "''>'' \<notin> set args" "''>>'' \<notin> set args" "f \<noteq> ''>''" "f \<noteq> ''>>''"
    and stack: "bp_stack p = st0 @ [Sh i]" and to: "redirected_to g p ps x path safe" and f: "resolv (bp_session p) f = Inr path"
  obtains v co where "new_command g q p = (push (Co (length (bp_cmds p))) (p\<lparr>bp_cmds := bp_cmds p @ [co],
      bp_env := host_append safe [] (bp_env p), bp_session := (bp_session p)\<lparr>se_fs := v\<rparr>\<rparr>), Inr (length (bp_cmds p)))"
    and "co_class co = pp_class (bp_pps p ! q)" and "co_args co = args" and "co_writefn co = To_file" and "co_outfile co = Some path"
    and "co_safeoutfile co = safe" and "co_written co = 0"
    and "good (fs_root v)"
    and "view_of (fs_root v) = put_view (ps @ [x]) (out_node (bp_env p) x 0 safe) (view_of (fs_root (se_fs (bp_session p))))"
proof -
  let ?c = "length (bp_cmds p)" and ?e = "bp_env p"
  obtain k where k: "ce_frames ?e = Suc k" using to by (cases "ce_frames ?e") (auto simp: redirected_to_def Let_def)
  let ?co = "\<lparr>co_class = pp_class (bp_pps p ! q), co_args = args @ [''>'', f], co_environ = hs_environ (shell_of p i), co_pp = q,
      co_writefn = To_pp, co_outfile = None, co_safeoutfile = [], co_written = 0, co_input = None\<rparr>"
  let ?p = "p\<lparr>bp_cmds := bp_cmds p @ [?co]\<rparr>"
  let ?co1 = "?co\<lparr>co_writefn := To_file, co_outfile := Some path, co_args := args\<rparr>"
  let ?p1 = "p\<lparr>bp_cmds := bp_cmds p @ [?co1]\<rparr>"
  have idx: "index_of ''>'' (args @ [''>'', f]) = length args"
  proof -
    have "takeWhile (\<lambda>y. y \<noteq> ''>'') (args @ [''>'', f]) = args"
      using args(1) by (subst takeWhile_append2) auto
    then show ?thesis by (simp add: index_of_def)
  qed
  have l: "getfile (ce_frames ?e) (root_of (bp_session p)) path True = Inr (locate (root_of (bp_session p)) (ps @ [x]))"
    using to getfile_good [of "root_of (bp_session p)" "ps @ [x]" k True] by (simp add: k redirected_to_def Let_def)
  have red: "redirect_output g ?c ?p = make_outfile g ?c path ?p1"
    using args idx f l by (simp add: redirect_output_def set_cmd_def Let_def nth_append split: option.split)
  obtain v where mk: "make_outfile g ?c path ?p1 =
      (in_session (\<lambda>_. v) ((set_cmd ?c (\<lambda>co. co\<lparr>co_safeoutfile := safe\<rparr>) ?p1)\<lparr>bp_env := host_append safe [] ?e\<rparr>), Inr ())"
    and v: "good (fs_root v)" "view_of (fs_root v) = put_view (ps @ [x]) (out_node ?e x 0 safe) (view_of (fs_root (se_fs (bp_session p))))"
    using make_outfile_view [of ?p1 ps x path k safe g ?c] to k by (auto simp: redirected_to_def Let_def)
  let ?co2 = "?co1\<lparr>co_safeoutfile := safe, co_input := pp_input (bp_pps p ! q)\<rparr>"
  have "new_command g q p = (push (Co ?c) (p\<lparr>bp_cmds := bp_cmds p @ [?co2], bp_env := host_append safe [] ?e,
      bp_session := (bp_session p)\<lparr>se_fs := v\<rparr>\<rparr>), Inr ?c)"
    using stack red mk pp by (simp add: new_command_def environ_of_def Let_def in_session_def set_cmd_def push_def)
  from that [OF this] v show thesis by simp
qed

text \<open>What it writes is put at the end of the host file, and the size of the file is that of what was written.\<close>

lemma write_redirected:
  assumes "co_writefn (bp_cmds p ! c) = To_file" and "co_outfile (bp_cmds p ! c) = Some (join_path (ps @ [x]))"
    and "co_safeoutfile (bp_cmds p ! c) = safe" and "co_written (bp_cmds p ! c) = 0" and "ce_frames (bp_env p) = Suc k"
    and plain: "\<forall>q \<in> set (ps @ [x]). plain q" and g: "good (root_of (bp_session p))"
    and v: "view_of (root_of (bp_session p)) = put_view (ps @ [x]) (out_node e x 0 safe) w"
  obtains v' co where "do_write c d p = (p\<lparr>bp_env := host_append safe d (bp_env p), bp_cmds := (bp_cmds p)[c := co],
      bp_session := (bp_session p)\<lparr>se_fs := v'\<rparr>\<rparr>, Inr ())" and "co = (bp_cmds p ! c)\<lparr>co_written := int (length d)\<rparr>"
    and "good (fs_root v')" and "view_of (fs_root v') = put_view (ps @ [x]) (out_node e x (int (length d)) safe) w"
proof -
  let ?s = "se_fs (bp_session p)" and ?co = "(bp_cmds p ! c)\<lparr>co_written := int (length d)\<rparr>"
  obtain v' r where us: "update_size (Suc k) (join_path (ps @ [x])) (int (length d)) ?s = (v', r)" by fastforce
  have ok: "call_ok (Update_size (ps @ [x]) (int (length d)))" using plain by simp
  have "view_of (fs_root ?s) (ps @ [x]) = Some (out_node e x 0 safe)" by (simp add: v put_view_def)
  with sim_update_size [OF g ok, of k] us
  have g': "good (fs_root v')" "r = Inr ()" and
    w: "view_of (fs_root v') = set_view (ps @ [x]) (\<lambda>a. a\<lparr>A_SIZE := int (length d)\<rparr>) (view_of (fs_root ?s))"
    by (auto simp: simulates_def abs_state_def ok_unit_def out_node_def split: sum.splits)
  have "view_of (fs_root v') = put_view (ps @ [x]) (out_node e x (int (length d)) safe) w"
    by (auto simp: w v set_view_def put_view_def out_node_def)
  moreover have "do_write c d p = (p\<lparr>bp_env := host_append safe d (bp_env p), bp_cmds := (bp_cmds p)[c := ?co],
      bp_session := (bp_session p)\<lparr>se_fs := v'\<rparr>\<rparr>, Inr ())"
    using assms(1-5) us g'(2) by (simp add: do_write_def write_to_file_def Let_def in_session_def)
  ultimately show thesis using that g'(1) by blast
qed

section \<open>A payload\<close>

lemma hex_text_chars: "c \<in> set (hex_text bs) \<Longrightarrow> c = backslash \<or> hex_char_ok c \<or> c = CHR ''x''"
  using hex_of_ok code_halves by (induction bs) auto

lemma simple_hex_text: "simple_word (hex_text bs)" "hex_text bs \<noteq> ''>''" "hex_text bs \<noteq> ''>>''" "hex_text bs \<noteq> ''|''"
proof -
  have no: "c \<notin> set (hex_text bs)" if "\<not> hex_char_ok c" "c \<noteq> backslash" "c \<noteq> CHR ''x''" for c
    using that hex_text_chars by blast
  have n: "CHR ''$'' \<notin> set (hex_text bs)" "CHR 0x60 \<notin> set (hex_text bs)" "CHR ''('' \<notin> set (hex_text bs)" "CHR ''&'' \<notin> set (hex_text bs)"
    "CHR ''|'' \<notin> set (hex_text bs)" "CHR '';'' \<notin> set (hex_text bs)" "CHR ''>'' \<notin> set (hex_text bs)"
    by (rule no; code_simp)+
  have "\<not> contains ''$('' (hex_text bs)" "\<not> contains backquote (hex_text bs)"
    using n(1,2) set_mono_sublist [of "''$(''" "hex_text bs"] set_mono_sublist [of backquote "hex_text bs"]
    unfolding contains_iff_sublist backquote_def by auto
  then have "\<not> has_substitution (hex_text bs)" by (simp add: has_substitution_def)
  moreover have "\<not> prefix ''('' (hex_text bs)" "\<not> prefix ''$'' (hex_text bs)" using n(1,3) by (auto simp: prefix_def)
  moreover have "hex_text bs \<noteq> ''&&''" "hex_text bs \<noteq> ''||''" "hex_text bs \<noteq> '';''" using n(4-6) by auto
  ultimately show "simple_word (hex_text bs)" by (simp add: simple_word_def)
  show "hex_text bs \<noteq> ''>''" "hex_text bs \<noteq> ''>>''" "hex_text bs \<noteq> ''|''" using n(5,7) by auto
qed

text \<open>C6. A payload that is typed as escapes and sent to a file in an existing directory: the file is there, with the
  size of the payload, the host has the payload at the end of the file behind it, byte for byte, and the session
  remembers that file; nothing but the prompt is written. (At the end of the file: a second payload in the same second is put
  behind the first one, though the redirection is no appending one.)\<close>

theorem dropped_payload_stored:
  assumes "at_prompt i p" and "redirected_to g p ps x path safe" and "resolv (bp_session p) f = Inr path"
    and "lex shell_cfg line = ([''echo'', ''-ne'', hex_text bs, ''>'', f], False)" and "simple_word f" and "f \<notin> {''>'', ''>>'', ''|''}"
    and "si_commands g ''echo'' = Some (Command command_echo)" and "9 < n"
  shows "\<exists>p'. shell_lineReceived g n i line p = Some (showPrompt g i p') \<and> bp_term p' = bp_term p \<and> at_prompt i p' \<and>
    h_read (ce_host (bp_env p')) safe =
      (if h_isfile (ce_host (bp_env p)) safe then h_read (ce_host (bp_env p)) safe else []) @ bs \<and>
    view_of (root_of (bp_session p')) =
      put_view (ps @ [x]) (out_node (bp_env p) x (int (length bs)) safe) (view_of (root_of (bp_session p))) \<and>
    (safe, path) \<in> set (bp_redirs p')"
proof -
  let ?ws = "[''echo'', ''-ne'', hex_text bs, ''>'', f]"
  from assms(1) obtain st0 where st0: "bp_stack p = st0 @ [Sh i]" by (metis at_prompt_def append_butlast_last_id)
  from assms(1) obtain dirs where dirs: "hs_environ (shell_of p i) ''PATH'' = Some dirs" by (auto simp: at_prompt_def)
  note prompt = assms(1) [unfolded at_prompt_def]
  define m where "m = n - 9"
  have n: "n = Suc (Suc (Suc m)) + 1 + length ?ws" using assms(8) by (simp add: m_def)
  let ?p1 = "set_pending i [] p" and ?q = "length (bp_pps p)"
  let ?pp = "\<lparr>pp_class = Command command_echo, pp_args = [''-ne'', hex_text bs, ''>'', f], pp_input = None, pp_next = None,
      pp_redirect = False, pp_redirected = []\<rparr>"
  let ?p2 = "?p1\<lparr>bp_pps := bp_pps p @ [?pp], bp_pp := Some ?q\<rparr>"
  have "simple_word ''echo''" "simple_word ''-ne''" "simple_word ''>''" by code_simp+
  with assms(5) simple_hex_text(1) have "\<forall>w \<in> set ?ws. simple_word w" by simp
  from line_words_loop [OF this, of g "Suc (Suc (Suc m)) + 1" i "[]" False "[]" p]
  have "shell_lineReceived g n i line p = k_line (knot g (Suc (Suc (Suc m)) + 1)) i ([], False) ?ws p"
    by (simp only: shell_lineReceived_def assms(4) n append_Nil append_Nil2)
  also have "\<dots> = k_run (knot g (Suc (Suc (Suc m)))) i (set_pending i [?ws] p)"
    using prompt by (simp add: tie_def line_loop_def runOrPrompt_def)
  also have "\<dots> = k_call (knot g (Suc (Suc m))) ?q ((?p1)\<lparr>bp_pps := bp_pps p @ [?pp]\<rparr>)"
  proof -
    have "stages ''echo'' (tl ?ws) = [(''echo'', tl ?ws)]"
      using assms(6) simple_hex_text split_pipes_append(2) [of "tl ?ws"] by (simp add: stages_def)
    moreover have "strip ''echo'' \<noteq> []" by code_simp
    ultimately show ?thesis using prompt dirs assms(7)
      by (simp add: tie_def runCommand_def Let_def getCommand_def)
  qed
  finally have line: "shell_lineReceived g n i line p = k_call (knot g (Suc (Suc m))) ?q (?p1\<lparr>bp_pps := bp_pps p @ [?pp]\<rparr>)" .
  let ?c = "length (bp_cmds p)"
  have "redirected_to g ?p2 ps x path safe" "bp_stack ?p2 = st0 @ [Sh i]" "resolv (bp_session ?p2) f = Inr path"
    using assms(2,3) st0 by (simp_all add: redirected_to_def)
  moreover have "pp_args (bp_pps ?p2 ! ?q) = [''-ne'', hex_text bs] @ [''>'', f]" by simp
  ultimately obtain v co where
    new: "new_command g ?q ?p2 = (push (Co ?c) (?p2\<lparr>bp_cmds := bp_cmds p @ [co], bp_env := host_append safe [] (bp_env p),
        bp_session := (bp_session p)\<lparr>se_fs := v\<rparr>\<rparr>), Inr ?c)"
    and co: "co_class co = Command command_echo" "co_args co = [''-ne'', hex_text bs]" "co_writefn co = To_file" "co_outfile co = Some path"
      "co_safeoutfile co = safe" "co_written co = 0"
    and v: "good (fs_root v)" "view_of (fs_root v) = put_view (ps @ [x]) (out_node (bp_env p) x 0 safe) (view_of (root_of (bp_session p)))"
    using new_command_redirects [of ?p2 ?q "[''-ne'', hex_text bs]" f st0 i g ps x path safe] assms(6)
      simple_hex_text(2,3) [THEN not_sym] by auto
  let ?p3 = "push (Co ?c) (?p2\<lparr>bp_cmds := bp_cmds p @ [co], bp_env := host_append safe [] (bp_env p), bp_session := (bp_session p)\<lparr>se_fs := v\<rparr>\<rparr>)"
  obtain k where k: "ce_frames (bp_env p) = Suc k" using assms(2) by (cases "ce_frames (bp_env p)") (auto simp: redirected_to_def Let_def)
  have plain: "\<forall>q \<in> set (ps @ [x]). plain q" and path: "path = join_path (ps @ [x])" using assms(2) by (simp_all add: redirected_to_def Let_def)
  have c3: "bp_cmds ?p3 ! ?c = co" by (simp add: push_def)
  obtain v' where
    w: "do_write ?c bs ?p3 = (?p3\<lparr>bp_env := host_append safe bs (bp_env p), bp_cmds := bp_cmds p @ [co\<lparr>co_written := int (length bs)\<rparr>],
        bp_session := (bp_session p)\<lparr>se_fs := v'\<rparr>\<rparr>, Inr ())"
    and v': "good (fs_root v')" "view_of (fs_root v') = put_view (ps @ [x]) (out_node (bp_env p) x (int (length bs)) safe) (view_of (root_of (bp_session p)))"
    using write_redirected [of ?p3 ?c ps x safe k "bp_env p" "view_of (root_of (bp_session p))" bs] co v plain path k c3
    by (auto simp: push_def)
  let ?p4 = "?p2\<lparr>bp_env := host_append safe bs (bp_env p), bp_cmds := bp_cmds p @ [co\<lparr>co_written := int (length bs)\<rparr>],
      bp_session := (bp_session p)\<lparr>se_fs := v'\<rparr>, bp_redirs := List.insert (safe, path) (bp_redirs p)\<rparr>"
  have "Co ?c \<notin> set (st0 @ [Sh i])" using prompt st0 by (auto simp: fresh_def)
  then have rem: "remove1 (Co ?c) (st0 @ [Sh i, Co ?c]) = st0 @ [Sh i]" by (simp add: remove1_append)
  have ne: "safe \<noteq> []" using redir_name_not_Nil [of g "bp_env p" path] assms(2) by (simp add: redirected_to_def Let_def)
  have run: "run_prog (command_echo (co_args co) (co_input co)) ?c ?p3 = do_write ?c bs ?p3" using co(2) w by (simp add: echo_prog)
  have "start_command g (knot g (Suc m)) ?c ?p3 = k_run (knot g (Suc m)) i (?p4\<lparr>bp_stack := st0 @ [Sh i]\<rparr>)"
    unfolding start_command_def c3 Let_def
    using co(1,3,4,5) run w st0 rem ne
    by (simp add: push_def exit_command_def remember_file_def Let_def)
  also have "?p4\<lparr>bp_stack := st0 @ [Sh i]\<rparr> = ?p4" using stack_same [of ?p4] st0 by simp
  finally have "start_command g (knot g (Suc m)) ?c ?p3 = k_run (knot g (Suc m)) i ?p4" .
  moreover have "k_run (knot g (Suc m)) i ?p4 = Some (idle g i ?p4)" using prompt by (simp add: tie_def runCommand_def)
  moreover have "bindP (Some (idle g i ?p4)) (\<lambda>_. next_call (knot g (Suc m))) = Some (idle g i ?p4)"
    by (rule idle_next_call [of ?p4 ?q]) simp_all
  moreover have "k_call (knot g (Suc (Suc m))) ?q (?p1\<lparr>bp_pps := bp_pps p @ [?pp]\<rparr>) =
      bindP (start_command g (knot g (Suc m)) ?c ?p3) (\<lambda>_. next_call (knot g (Suc m)))"
    using new by (simp add: tie_def call_command_def next_call_def [abs_def])
  moreover have "idle g i ?p4 = showPrompt g i ?p4" using prompt by (simp add: idle_def)
  ultimately have "shell_lineReceived g n i line p = Some (showPrompt g i ?p4)" using line by simp
  moreover have "at_prompt i ?p4" using prompt by (auto simp: at_prompt_def fresh_def)
  ultimately show ?thesis using v' by (intro exI [of _ ?p4]) simp
qed

end
