(* ===== verification/SubstFacts.thy ===== *)
theory SubstFacts
  imports ShellFacts
begin

text \<open>
  Command substitution: where the commands in a token end, what runs, and what the token becomes.
\<close>

section \<open>Scanning\<close>

definition quiet :: "string \<Rightarrow> bool" where
  "quiet s \<longleftrightarrow> CHR '')'' \<notin> set s \<and> CHR 0x60 \<notin> set s \<and> CHR ''$'' \<notin> set s"

lemma quiet_simps [simp]:
  "quiet []" "quiet (c # s) \<longleftrightarrow> c \<noteq> CHR '')'' \<and> c \<noteq> CHR 0x60 \<and> c \<noteq> CHR ''$'' \<and> quiet s" "quiet (s @ t) \<longleftrightarrow> quiet s \<and> quiet t"
  by (auto simp: quiet_def)

lemma scan_step:
  assumes "c \<noteq> CHR '')''" "c \<noteq> CHR 0x60" "c \<noteq> CHR ''$''" "post \<noteq> []"
  shows "scan_substitution (pre @ c # post) (length pre) d ts bad = scan_substitution (pre @ c # post) (length (pre @ [c])) d ts bad"
  using assms by (subst scan_substitution.simps) (simp add: take_Suc)

lemma scan_over:
  "quiet a \<Longrightarrow> post \<noteq> [] \<Longrightarrow>
     scan_substitution (pre @ a @ post) (length pre) d ts bad = scan_substitution (pre @ a @ post) (length (pre @ a)) d ts bad"
proof (induction a arbitrary: pre)
  case (Cons c a)
  have "scan_substitution (pre @ c # a @ post) (length pre) d ts bad = scan_substitution (pre @ c # a @ post) (length (pre @ [c])) d ts bad"
    using Cons.prems by (intro scan_step) simp_all
  also have "\<dots> = scan_substitution (pre @ c # a @ post) (length ((pre @ [c]) @ a)) d ts bad"
    using Cons.IH [of "pre @ [c]"] Cons.prems by simp
  finally show ?case by simp
qed simp

lemma scan_fetch:
  assumes "quiet a" and "a \<noteq> []"
  shows "scan_substitution (pre @ a) (length pre) d (t # ts) bad = scan_substitution ((pre @ a) @ '' '' @ t) (length (pre @ a)) d ts bad"
proof -
  obtain b c where a: "a = b @ [c]" using assms(2) by (cases a rule: rev_cases) auto
  have "scan_substitution (pre @ a) (length pre) d (t # ts) bad = scan_substitution (pre @ a) (length (pre @ b)) d (t # ts) bad"
    using assms(1) scan_over [of b "[c]" pre d "t # ts" bad] by (simp add: a)
  also have "\<dots> = scan_substitution ((pre @ a) @ '' '' @ t) (length (pre @ a)) d ts bad"
    using assms(1) by (subst scan_substitution.simps) (simp add: a nth_append)
  finally show ?thesis .
qed

lemma scan_close:
  assumes "quiet a"
  shows "scan_substitution (pre @ a @ '')'' @ v) (length pre) 1 ts bad = Inr (Some (pre @ a @ '')'' @ v, length (pre @ a)), (ts, bad))"
proof -
  have "scan_substitution (pre @ a @ '')'' @ v) (length pre) 1 ts bad = scan_substitution (pre @ a @ '')'' @ v) (length (pre @ a)) 1 ts bad"
    using scan_over [OF assms, of "'')'' @ v" pre 1 ts bad] by simp
  also have "\<dots> = Inr (Some (pre @ a @ '')'' @ v, length (pre @ a)), (ts, bad))"
    by (subst scan_substitution.simps) (simp add: nth_append)
  finally show ?thesis .
qed

text \<open>The tokens of a substitution: the last of its words has the parenthesis behind it.\<close>

fun close_words :: "string list \<Rightarrow> string \<Rightarrow> string list" where
  "close_words [] v = []"
| "close_words [w] v = [w @ '')'' @ v]"
| "close_words (w # w' # ws) v = w # close_words (w' # ws) v"

lemma scan_words:
  "ws \<noteq> [] \<Longrightarrow> \<forall>w \<in> set ws. quiet w \<Longrightarrow> quiet a \<Longrightarrow> a \<noteq> [] \<or> hd ws \<noteq> [] \<Longrightarrow>
     scan_substitution (pre @ a @ hd (close_words ws v)) (length pre) 1 (tl (close_words ws v) @ ts) bad =
       Inr (Some (pre @ a @ join_on '' '' ws @ '')'' @ v, length (pre @ a @ join_on '' '' ws)), (ts, bad))"
proof (induction ws v arbitrary: pre a rule: close_words.induct)
  case (2 w v)
  then show ?case using scan_close [of "a @ w" pre v ts bad] by simp
next
  case (3 w w' ws v)
  obtain h l where close: "close_words (w' # ws) v = h # l" by (cases ws) auto
  have "scan_substitution (pre @ (a @ w)) (length pre) 1 (h # l @ ts) bad =
      scan_substitution ((pre @ (a @ w)) @ '' '' @ h) (length (pre @ (a @ w))) 1 (l @ ts) bad"
    using "3.prems" by (intro scan_fetch) auto
  also have "\<dots> = Inr (Some ((pre @ a @ w) @ '' '' @ join_on '' '' (w' # ws) @ '')'' @ v,
      length ((pre @ a @ w) @ '' '' @ join_on '' '' (w' # ws))), (ts, bad))"
    using "3.IH" [of "'' ''" "pre @ a @ w"] "3.prems" close by simp
  finally show ?case using close by simp
qed simp

section \<open>A subshell\<close>

text \<open>The commands of a subshell run one after the other; the output of the last stage of each is collected.\<close>

fun subshell_effect :: "site \<Rightarrow> cenv \<Rightarrow> (string \<times> string list) list list \<Rightarrow> session \<Rightarrow> (session \<times> string list \<times> string) option" where
  "subshell_effect g e [] s = Some (s, [], [])"
| "subshell_effect g e (pl # pls) s =
     (case run_stages g e pl None s of
        None \<Rightarrow> None
      | Some (s', ts, ds) \<Rightarrow>
          map_option (\<lambda>(s'', us, out). (s'', ts @ errs ds @ us, concat (outs ds) @ out)) (subshell_effect g e pls s'))"

text \<open>What the commands of a subshell leave alone.\<close>

definition outer :: "protocol \<Rightarrow> protocol \<Rightarrow> bool" where
  "outer p p' \<longleftrightarrow> bp_stack p' = bp_stack p \<and> bp_env p' = bp_env p \<and> bp_environ p' = bp_environ p \<and> bp_window p' = bp_window p \<and>
     (\<exists>new. bp_shells p' = bp_shells p @ new) \<and> fresh p'"

lemma outer_trans: "outer p q \<Longrightarrow> outer q r \<Longrightarrow> outer p r"
  by (auto simp: outer_def)

lemma bytes_decode_ascii: "\<forall>c \<in> set s. code c < 128 \<Longrightarrow> bytes_decode s = Inr s"
  by (induction s rule: bytes_decode.induct) auto

lemma in_new_shell_effect:
  assumes lex: "lex shell_cfg cmd = (pipe_words pl, False)" and pl: "simple_line [pl]"
    and run: "run_stages g (bp_env p) pl None (bp_session p) = Some (s', ts, ds)"
    and path: "bp_environ p ''PATH'' = Some dirs" and p: "bp_stack p \<noteq> []" "fresh p" and n: "line_fuel [pl] + length (pipe_words pl) + 1 < n"
  shows "\<exists>p' x. in_new_shell g (knot g n) True cmd p = Some (p', Inr ()) \<and> outer p p' \<and> bp_session p' = s' \<and>
    bp_term p' = bp_term p @ map Sent (ts @ errs ds) \<and> bp_pp p' = Some x \<and> pp_redirected (bp_pps p' ! x) = concat (outs ds)"
proof -
  let ?i = "length (bp_shells p)"
  define env where "env = (case bp_window p of None \<Rightarrow> bp_environ p
      | Some (rows, columns) \<Rightarrow> (bp_environ p)(''COLUMNS'' \<mapsto> show_nat columns, ''LINES'' \<mapsto> show_nat rows))"
  have env: "env ''PATH'' = Some dirs" using path by (simp add: env_def split: option.split prod.split)
  let ?sh = "\<lparr>hs_interactive = False, hs_redirect = True, hs_pending = [], hs_environ = env\<rparr>"
  let ?p1 = "push (Sh ?i) (p\<lparr>bp_shells := bp_shells p @ [?sh]\<rparr>)"
  have new: "new_shell g False True p = (p\<lparr>bp_shells := bp_shells p @ [?sh]\<rparr>, Inr ?i)"
    by (simp add: new_shell_def showPrompt_def Let_def env_def)
  define m where "m = n - length (pipe_words pl) - 1"
  then have m: "n = m + length (line_words [pl]) + 1" "line_fuel [pl] < m" using n by simp_all
  let ?p2 = "set_pending ?i [pipe_words pl] ?p1"
  have line: "k_line (knot g n) ?i (lex shell_cfg cmd) [] ?p1 = k_run (knot g m) ?i ?p2"
    using line_loop_pends [OF pl, of ?i ?p1 g m] lex m(1) by (simp add: push_def)
  have "fresh ?p2" using p(2) by (auto simp: fresh_def push_def)
  moreover have "run_line g (bp_env ?p2) [pl] (bp_session ?p2) = Some (s', ts, ds)" using run by (simp add: push_def)
  moreover have "bp_stack ?p2 = bp_stack p @ [Sh ?i]" by (simp add: push_def)
  moreover have sh: "hs_pending (shell_of ?p2 ?i) = map pipe_words [pl]" "hs_environ (shell_of ?p2 ?i) ''PATH'' = Some dirs"
    "hs_redirect (shell_of ?p2 ?i)" "\<not> hs_interactive (shell_of ?p2 ?i)" "?i < length (bp_shells ?p2)"
    using env by (simp_all add: push_def)
  ultimately obtain x pps cmds where
    r: "k_run (knot g m) ?i ?p2 = Some (idle g ?i (settled ?i s' (ts @ errs ds) x pps cmds ?p2))" "kept True ds (pps ! x)"
      "length (bp_cmds p) \<le> length cmds"
    using run_all [of g ?p2 "[pl]" s' ts ds ?i dirs "bp_stack p" m] pl m(2) found_stages [OF run]
    by (auto simp: shown_def push_def)
  let ?q = "settled ?i s' (ts @ errs ds) x pps cmds ?p2"
  have "idle g ?i ?q = (?q, Inr ())"
    using r(2) p(1) sh(4) by (simp add: idle_def settled_def kept_def push_def)
  with line r(1) new have "in_new_shell g (knot g n) True cmd p = Some (pop_stack ?q)" by (simp add: in_new_shell_def)
  also have "pop_stack ?q = (?q\<lparr>bp_stack := bp_stack p\<rparr>, Inr ())" by (simp add: pop_stack_def settled_def push_def)
  finally have res: "in_new_shell g (knot g n) True cmd p = Some (?q\<lparr>bp_stack := bp_stack p\<rparr>, Inr ())" .
  have "\<exists>new. bp_shells (?q\<lparr>bp_stack := bp_stack p\<rparr>) = bp_shells p @ new"
    by (simp add: settled_def set_pending_def push_def list_update_append)
  then have "outer p (?q\<lparr>bp_stack := bp_stack p\<rparr>)"
    using p(2) r(3) by (auto simp: outer_def settled_def push_def fresh_def set_pending_def)
  with res r(2) show ?thesis
    by (intro exI [of _ "?q\<lparr>bp_stack := bp_stack p\<rparr>"] exI [of _ x]) (simp add: settled_def kept_def push_def)
qed

lemma run_groups_effect:
  assumes "subshell_effect g (bp_env p) pls (bp_session p) = Some (s', ts, out)"
    and "\<forall>pl \<in> set pls. simple_line [pl] \<and> lex shell_cfg (join_on '' '' (pipe_words pl)) = (pipe_words pl, False) \<and>
      line_fuel [pl] + length (pipe_words pl) + 1 < n"
    and "\<forall>c \<in> set out. code c < 128" and "bp_environ p ''PATH'' = Some dirs" and "bp_stack p \<noteq> []" and "fresh p"
  shows "\<exists>p'. run_groups g (knot g n) (map (\<lambda>pl. join_on '' '' (pipe_words pl)) pls) acc p = Some (p', Inr (acc @ out)) \<and>
    outer p p' \<and> bp_session p' = s' \<and> bp_term p' = bp_term p @ map Sent ts"
  using assms
proof (induction pls arbitrary: p acc ts out)
  case Nil
  then show ?case by (intro exI [of _ p]) (simp add: outer_def)
next
  case (Cons pl pls)
  from Cons.prems(1) obtain s1 t1 ds t2 out2 where run: "run_stages g (bp_env p) pl None (bp_session p) = Some (s1, t1, ds)"
    and rest: "subshell_effect g (bp_env p) pls s1 = Some (s', t2, out2)" and ts: "ts = t1 @ errs ds @ t2" and out: "out = concat (outs ds) @ out2"
    by (auto split: option.splits)
  from in_new_shell_effect [of "join_on '' '' (pipe_words pl)" pl g p s1 t1 ds dirs n] Cons.prems(2,4,5,6) run obtain p1 x where
    p1: "in_new_shell g (knot g n) True (join_on '' '' (pipe_words pl)) p = Some (p1, Inr ())" "outer p p1" "bp_session p1 = s1"
      "bp_term p1 = bp_term p @ map Sent (t1 @ errs ds)" "bp_pp p1 = Some x" "pp_redirected (bp_pps p1 ! x) = concat (outs ds)"
    by auto
  have d: "bytes_decode (concat (outs ds)) = Inr (concat (outs ds))" using Cons.prems(3) out by (intro bytes_decode_ascii) simp
  from Cons.IH [of p1 t2 out2 "acc @ concat (outs ds)"] rest p1(2,3) Cons.prems(2-6) out obtain p' where
    p': "run_groups g (knot g n) (map (\<lambda>pl. join_on '' '' (pipe_words pl)) pls) (acc @ concat (outs ds)) p1 =
        Some (p', Inr ((acc @ concat (outs ds)) @ out2))" "outer p1 p'" "bp_session p' = s'" "bp_term p' = bp_term p1 @ map Sent t2"
    by (auto simp: outer_def)
  show ?case using p1 p' d out ts outer_trans [OF p1(2) p'(2)] by (intro exI [of _ p']) simp
qed

text \<open>The words of a line are grouped into its pipelines again.\<close>

lemma command_groups_words:
  "\<forall>w \<in> set ws. simple_word w \<Longrightarrow> command_groups (ws @ vs) cur b = command_groups vs (cur @ ws) b"
  by (induction ws arbitrary: cur) (simp_all add: simple_word_def)

lemma command_groups_line:
  "simple_line pls \<Longrightarrow> command_groups (line_words pls) [] False = map (\<lambda>pl. join_on '' '' (pipe_words pl)) pls"
proof (induction pls rule: line_words.induct)
  case (2 pl)
  then show ?case using simple_pipe_words [of pl] command_groups_words [of "pipe_words pl" "[]" "[]" False] by (simp add: simple_line_def)
next
  case (3 pl pl' pls)
  then show ?case using simple_pipe_words [of pl] command_groups_words [of "pipe_words pl" "'';'' # line_words (pl' # pls)" "[]" False]
    by (simp add: simple_line_def)
qed (simp add: simple_line_def)

lemma line_words_parts: "pl \<in> set pls \<Longrightarrow> set (pipe_words pl) \<subseteq> set (line_words pls)"
  by (induction pls rule: line_words.induct) auto

section \<open>A substitution\<close>

lemma index_at: "CHR ''$'' \<notin> set u \<Longrightarrow> index_str ''$('' (u @ ''$('' @ v) = length u"
  by (induction u) auto

lemma cut_at:
  assumes "CHR ''$'' \<notin> set u" and "CHR ''('' \<notin> set u"
  shows "cut_substitution (u @ ''$('' @ v) = Some (u, ''$('' @ v, 2)"
proof -
  have "contains ''$('' (u @ ''$('' @ v)" using contains_appendI [of "''$(''" "''$(''" u v] by simp
  moreover have "hd (u @ ''$('' @ v) \<noteq> CHR ''(''" using assms(2) by (cases u) auto
  ultimately show ?thesis using index_at [OF assms(1), of v] by (simp add: cut_substitution_def Let_def)
qed

text \<open>C7. A substitution of pipelines of plain words (no quotes, redirections, brackets or substitutions in it or in the text before
  it, and no substitution in the text behind it), whose commands are all known and end and print only ASCII: the commands run in order, what they print, without the line
  ends at its end, takes its place between the text before and behind it, and only their errors go to the terminal. The tokens of
  the substitution are used up, and the shells and the stack of the session are what they were. For a command that is not known
  see lemma \<open>stale_output\<close>.\<close>

theorem substitution_takes_output:
  assumes "simple_line pls" and "\<forall>w \<in> set (line_words pls). reads shell_cfg w w \<and> quiet w"
    and "subshell_effect g (bp_env p) pls (bp_session p) = Some (s', ts, out)" and "\<forall>c \<in> set out. code c < 128"
    and "bp_environ p ''PATH'' = Some dirs" and "bp_stack p \<noteq> []" and "fresh p"
    and "quiet u" and "CHR ''('' \<notin> set u" and "\<not> has_substitution v"
    and "\<forall>pl \<in> set pls. line_fuel [pl] + length (pipe_words pl) + 2 < n"
  shows "\<exists>p'. k_substitute (knot g n) (u @ ''$('' @ hd (close_words (line_words pls) v)) (tl (close_words (line_words pls) v) @ rest, bad) p =
      Some (p', Inr (u @ rstrip_char CHR 0x0A out @ v, (rest, bad))) \<and>
    bp_session p' = s' \<and> bp_term p' = bp_term p @ map Sent ts \<and> outer p p'"
proof -
  let ?ws = "line_words pls" and ?text = "join_on '' '' (line_words pls)"
  obtain pl0 where "pl0 \<in> set pls" using assms(1) by (cases pls) (auto simp: simple_line_def)
  with assms(11) obtain m where n: "n = Suc m" by (cases n) auto
  have ne: "?ws \<noteq> []" using assms(1) simple_pipe_words [of pl0] line_words_parts [of pl0 pls] \<open>pl0 \<in> set pls\<close>
    by (auto simp: simple_line_def)
  have lexes: "lex shell_cfg (join_on '' '' ws) = (ws, False)" if "set ws \<subseteq> set ?ws" for ws
  proof (rule lex_join)
    show "list_all2 (reads shell_cfg) ws ws" using assms(2) that by (auto simp: list_all2_same subset_iff)
  qed
  have hd: "hd ?ws \<noteq> []" using assms(2) ne by (auto simp: reads_def)
  have q: "\<forall>w \<in> set ?ws. quiet w" using assms(2) by simp
  from scan_words [OF ne q, of "[]" "''$(''" v rest bad] hd
  have scan: "scan_substitution (''$('' @ hd (close_words ?ws v)) 2 1 (tl (close_words ?ws v) @ rest) bad =
      Inr (Some (''$('' @ ?text @ '')'' @ v, length (''$('' @ ?text)), (rest, bad))" by (simp add: numeral_2_eq_2)
  have cut: "cut_substitution (u @ ''$('' @ hd (close_words ?ws v)) = Some (u, ''$('' @ hd (close_words ?ws v), 2)"
    using assms(8,9) by (intro cut_at) (simp_all add: quiet_def)
  have "\<forall>pl \<in> set pls. simple_line [pl] \<and> lex shell_cfg (join_on '' '' (pipe_words pl)) = (pipe_words pl, False) \<and>
      line_fuel [pl] + length (pipe_words pl) + 1 < m"
    using assms(1,11) lexes line_words_parts by (auto simp: simple_line_def n)
  from run_groups_effect [OF assms(3) this assms(4-7), of "[]"] obtain p' where
    r: "run_groups g (knot g m) (map (\<lambda>pl. join_on '' '' (pipe_words pl)) pls) [] p = Some (p', Inr out)"
    and p': "outer p p'" "bp_session p' = s'" "bp_term p' = bp_term p @ map Sent ts" by auto
  have sub: "run_subshell_command g (knot g m) (''$('' @ ?text @ '')'') p = Some (p', Inr (rstrip_char CHR 0x0A out))"
    using r lexes [of ?ws] command_groups_line [OF assms(1)] by (simp add: run_subshell_command_def Let_def butlast_append)
  have "k_substitute (knot g n) (u @ ''$('' @ hd (close_words ?ws v)) (tl (close_words ?ws v) @ rest, bad) p =
      Some (p', Inr (u @ rstrip_char CHR 0x0A out @ v, (rest, bad)))"
    using cut scan sub assms(10) by (simp add: n tie_def do_command_substitution_def)
  with p' show ?thesis by blast
qed

end
