(* ===== verification/ShellDemo.thy ===== *)
theory ShellDemo
  imports RedirectFacts SubstFacts
begin

text \<open>
  The shell at work on concrete lines: the theorems applied to a session with a few commands, and lines the code does not treat as a
  shell would.
\<close>

section \<open>A session\<close>

text \<open>\<open>cat\<close> without arguments, on what a pipe left for it.\<close>

definition demo_cat :: body where
  "demo_cat args inp = (case inp of None \<Rightarrow> Done | Some d \<Rightarrow> Write d Done)"

definition demo_site :: site where
  "demo_site = \<lparr>si_commands = [''echo'' \<mapsto> Command command_echo, ''printf'' \<mapsto> Command command_printf, ''cat'' \<mapsto> Command demo_cat,
     ''sh'' \<mapsto> Command_sh, ''exit'' \<mapsto> Command_exit], si_txtcmd = (\<lambda>_. None), si_prompt = Some ''$'', si_stamp = ''20260101-000000-t1-0''\<rparr>"

definition demo_cenv :: cenv where
  "demo_cenv = \<lparr>ce_frames = 9, ce_now = 7, ce_uid = 0, ce_gid = 0, ce_home = ''/root'',
     ce_host = \<lparr>h_isfile = (\<lambda>_. False), h_read = (\<lambda>_. []), h_download_path = ''dl'', h_data_path = ''data''\<rparr>, ce_regex = (\<lambda>_. None)\<rparr>"

definition demo_login :: protocol where
  "demo_login = \<lparr>bp_exec = False, bp_session = \<lparr>se_fs = demo_fs, se_cwd = ''/'', se_out = []\<rparr>, bp_env = demo_cenv, bp_user = ''root'',
     bp_hostname = ''svr04'', bp_environ = [''PATH'' \<mapsto> ''/bin'', ''HOME'' \<mapsto> ''/root''], bp_window = None, bp_stack = [], bp_pp = None,
     bp_shells = [], bp_pps = [], bp_cmds = [], bp_term = [], bp_redirs = []\<rparr>"

definition demo_shell :: protocol where
  "demo_shell = fst (interactive_made demo_site demo_login)"

lemma demo_shell_eq: "demo_shell = demo_login\<lparr>bp_stack := [Sh 0], bp_term := [Sent ''$ ''],
    bp_shells := [\<lparr>hs_interactive = True, hs_redirect = False, hs_pending = [], hs_environ = [''PATH'' \<mapsto> ''/bin'', ''HOME'' \<mapsto> ''/root'']\<rparr>]\<rparr>"
proof -
  have "\<not> (\<exists>c \<in> set ''$ ''. 128 \<le> code c)" by code_simp
  then show ?thesis
    by (simp add: demo_shell_def interactive_made_def new_shell_def demo_login_def showPrompt_def prompt_text_def demo_site_def sent_def Let_def)
qed

lemma demo_at_prompt: "at_prompt 0 demo_shell"
  by (simp add: demo_shell_eq at_prompt_def fresh_def demo_login_def)

lemma demo_simps:
  "bp_session demo_shell = \<lparr>se_fs = demo_fs, se_cwd = ''/'', se_out = []\<rparr>" "bp_env demo_shell = demo_cenv"
  "bp_term demo_shell = [Sent ''$ '']" "bp_stack demo_shell = [Sh 0]" "bp_environ demo_shell = [''PATH'' \<mapsto> ''/bin'', ''HOME'' \<mapsto> ''/root'']"
  by (simp_all add: demo_shell_eq demo_login_def)

lemma demo_commands: "si_commands demo_site ''echo'' = Some (Command command_echo)" "si_commands demo_site ''cat'' = Some (Command demo_cat)"
  by (simp_all add: demo_site_def)

lemma demo_echo: "command_echo [''a''] inp = Write (''a'' @ nl) Done" "command_echo [''b''] inp = Write (''b'' @ nl) Done"
  by (simp_all add: command_echo_def prepare_def Let_def suffix_def code_def)

section \<open>The theorems on it\<close>

theorem shell_line_refines_witness:
  "\<exists>p'. shell_lineReceived demo_site 30 0 ''echo a; echo b | cat'' demo_shell = Some (showPrompt demo_site 0 p') \<and>
     bp_term p' = [Sent ''$ '', Sent (''a'' @ nl), Sent (''b'' @ nl)] \<and> bp_stack p' = [Sh 0]"
proof -
  let ?pls = "[[(''echo'', [''a''])], [(''echo'', [''b'']), (''cat'', [])]]"
  have l: "lex shell_cfg ''echo a; echo b | cat'' = (line_words ?pls, False)" by code_simp
  have s: "simple_line ?pls" by code_simp
  have f: "\<forall>pl \<in> set ?pls. \<forall>st \<in> set pl. si_commands demo_site (fst st) \<noteq> None" by (simp add: demo_commands)
  have r: "run_line demo_site (bp_env demo_shell) ?pls (bp_session demo_shell) =
      Some (bp_session demo_shell, [''a'' @ nl], [Stdout (''b'' @ nl)])"
    by (simp add: stage_effect_def demo_commands demo_echo piped_def demo_cat_def)
  have "line_fuel ?pls + length (line_words ?pls) + 1 < 30" by (simp add: line_fuel_def)
  from shell_line_refines [OF demo_at_prompt l s f r this] show ?thesis by (auto simp: demo_simps)
qed

theorem later_stages_lost_witness:
  "\<exists>p'. shell_lineReceived demo_site 30 0 ''echo a | cat; echo b'' demo_shell = Some (showPrompt demo_site 0 p') \<and>
     bp_term p' = [Sent ''$ '', Sent (''b'' @ nl)]"
proof -
  let ?st = "(''echo'', [''a''])" and ?later = "[(''cat'', [])]" and ?pl = "[(''echo'', [''b''])]"
  have l: "lex shell_cfg ''echo a | cat; echo b'' = (pipe_words (?st # ?later) @ '';'' # line_words (?pl # []), False)" by code_simp
  have s: "simple_line ((?st # ?later) # ?pl # [])" by code_simp
  have f: "\<forall>st \<in> set ?later. si_commands demo_site (fst st) \<noteq> None" "\<forall>pl' \<in> set (?pl # []). \<forall>st \<in> set pl'. si_commands demo_site (fst st) \<noteq> None"
    and n: "?later \<noteq> []" by (simp_all add: demo_commands)
  have e: "stage_effect demo_site (bp_env demo_shell) ?st None (bp_session demo_shell) =
      Some (bp_session demo_shell, [Stdout (''a'' @ nl)])" by (simp add: stage_effect_def demo_commands demo_echo)
  have r: "run_line demo_site (bp_env demo_shell) (?pl # []) (bp_session demo_shell) =
      Some (bp_session demo_shell, [], [Stdout (''b'' @ nl)])" by (simp add: stage_effect_def demo_commands demo_echo)
  have "line_fuel ((?st # ?later) # ?pl # []) + length (pipe_words (?st # ?later) @ '';'' # line_words (?pl # [])) + 1 < 30"
    by (simp add: line_fuel_def)
  from later_stages_lost [OF demo_at_prompt l s f(1) n e r f(2) this] show ?thesis by (auto simp: demo_simps)
qed

theorem quotes_change_nothing_witness:
  "shell_lineReceived demo_site 30 0 (join_on '' '' (map quote [''echo'', ''a'', '';'', ''echo'', ''b''])) demo_shell =
   shell_lineReceived demo_site 30 0 ''echo a ; echo b'' demo_shell"
proof -
  have "\<forall>w \<in> set [''echo'', ''a'', ''b'']. plain_word shell_cfg w" by code_simp
  then have w: "reads shell_cfg ''echo'' ''echo''" "reads shell_cfg ''a'' ''a''" "reads shell_cfg ''b'' ''b''"
    by (auto intro: reads_plain)
  have p: "\<not> lc_word shell_cfg CHR '';''" "lc_punct shell_cfg CHR '';''" by code_simp+
  have "reads shell_cfg '';'' '';''"
    using p by (simp add: reads_def read_token.simps blank_def quote_char_def emit_def)
  with w quotes_change_nothing [of "[''echo'', ''a'', '';'', ''echo'', ''b'']" demo_site 30 0 demo_shell] show ?thesis by simp
qed

theorem exec_session_ends_witness:
  "\<exists>p'. exec_made demo_site 30 ''echo a'' demo_login = Some (p', Inr ()) \<and> bp_term p' = [Sent (''a'' @ nl), Ended]"
proof -
  let ?pls = "[[(''echo'', [''a''])]]"
  have l: "lex shell_cfg (join_on ''; '' (split_on CHR 0x0A (strip ''echo a''))) = (line_words ?pls, False)" by code_simp
  have s: "simple_line ?pls" by code_simp
  have f: "\<forall>pl \<in> set ?pls. \<forall>st \<in> set pl. si_commands demo_site (fst st) \<noteq> None" by (simp add: demo_commands)
  have r: "run_line demo_site (bp_env demo_login) ?pls (bp_session demo_login) =
      Some (bp_session demo_login, [], [Stdout (''a'' @ nl)])" by (simp add: stage_effect_def demo_commands demo_echo)
  have n: "line_fuel ?pls + length (line_words ?pls) + 1 < 30" by (simp add: line_fuel_def)
  have d: "bp_shells demo_login = []" "bp_environ demo_login ''PATH'' = Some ''/bin''" "bp_term demo_login = []" by (simp_all add: demo_login_def)
  from exec_session_ends [OF d(1,2) l s f r n] d(3) show ?thesis by auto
qed

theorem dropped_payload_stored_witness:
  "\<exists>p'. shell_lineReceived demo_site 30 0 (''echo -ne '' @ quote (hex_text [CHR 0x7F, CHR 0x00, CHR 0xFF]) @ '' > /tmp/x'') demo_shell =
      Some (showPrompt demo_site 0 p') \<and>
     h_read (ce_host (bp_env p')) ''dl/20260101-000000-t1-0-redir__tmp_x'' = [CHR 0x7F, CHR 0x00, CHR 0xFF] \<and>
     map_option A_SIZE (view_of (root_of (bp_session p')) [''tmp'', ''x'']) = Some 3"
proof -
  let ?line = "''echo -ne '' @ quote (hex_text [CHR 0x7F, CHR 0x00, CHR 0xFF]) @ '' > /tmp/x''" and ?bs = "[CHR 0x7F, CHR 0x00, CHR 0xFF]"
  have j: "join_path ([''tmp''] @ [''x'']) = ''/tmp/x''" "join_path [''tmp''] = ''/tmp''" by (simp_all add: join_path_def)
  have "''dl/20260101-000000-t1-0-redir__tmp_x'' = redir_name demo_site demo_cenv ''/tmp/x''" by code_simp
  moreover have "\<not> list_ex (\<lambda>p. prefix p ''/tmp'') SPECIAL_PATHS" by code_simp
  ultimately have to: "redirected_to demo_site demo_shell [''tmp''] ''x'' ''/tmp/x'' ''dl/20260101-000000-t1-0-redir__tmp_x''"
    unfolding redirected_to_def Let_def j by (simp add: demo_simps demo_fs_def new_node_def plain_def demo_cenv_def)
  have "resolve_path (fs_home demo_fs) ''/tmp/x'' ''/'' = Inr ''/tmp/x''" by code_simp
  then have r: "resolv (bp_session demo_shell) ''/tmp/x'' = Inr ''/tmp/x''" by (simp add: demo_simps resolv_def)
  have l: "lex shell_cfg ?line = ([''echo'', ''-ne'', hex_text ?bs, ''>'', ''/tmp/x''], False)" by code_simp
  have w: "simple_word ''/tmp/x''" "''/tmp/x'' \<notin> {''>'', ''>>'', ''|''}" by code_simp+
  have n: "9 < (30 :: nat)" by simp
  from dropped_payload_stored [OF demo_at_prompt to r l w demo_commands(1) n] obtain p' where
    p': "shell_lineReceived demo_site 30 0 ?line demo_shell = Some (showPrompt demo_site 0 p')"
    and h: "h_read (ce_host (bp_env p')) ''dl/20260101-000000-t1-0-redir__tmp_x'' =
      (if h_isfile (ce_host (bp_env demo_shell)) ''dl/20260101-000000-t1-0-redir__tmp_x''
       then h_read (ce_host (bp_env demo_shell)) ''dl/20260101-000000-t1-0-redir__tmp_x'' else []) @ ?bs"
    and v: "view_of (root_of (bp_session p')) = put_view ([''tmp''] @ [''x''])
      (out_node (bp_env demo_shell) ''x'' (int (length ?bs)) ''dl/20260101-000000-t1-0-redir__tmp_x'') (view_of (root_of (bp_session demo_shell)))"
    by blast
  have "h_read (ce_host (bp_env p')) ''dl/20260101-000000-t1-0-redir__tmp_x'' = ?bs" using h by (simp add: demo_simps demo_cenv_def)
  moreover have "map_option A_SIZE (view_of (root_of (bp_session p')) [''tmp'', ''x'']) = Some 3"
    by (simp only: v) (simp add: put_view_def out_node_def)
  ultimately show ?thesis using p' by blast
qed

theorem substitution_takes_output_witness:
  "\<exists>p'. k_substitute (knot demo_site 30) ''x$(echo'' ([''a'', '';'', ''echo'', ''b)y'', ''z''], False) demo_shell =
       Some (p', Inr (''xa'' @ nl @ ''by'', ([''z''], False)))"
proof -
  let ?pls = "[[(''echo'', [''a''])], [(''echo'', [''b''])]]"
  have "\<forall>w \<in> set [''echo'', ''a'', ''b'']. plain_word shell_cfg w" by code_simp
  then have w: "reads shell_cfg ''echo'' ''echo''" "reads shell_cfg ''a'' ''a''" "reads shell_cfg ''b'' ''b''" by (auto intro: reads_plain)
  have p: "\<not> lc_word shell_cfg CHR '';''" "lc_punct shell_cfg CHR '';''" by code_simp+
  have "reads shell_cfg '';'' '';''" using p by (simp add: reads_def read_token.simps blank_def quote_char_def emit_def)
  with w have q: "\<forall>w \<in> set (line_words ?pls). reads shell_cfg w w \<and> quiet w" by simp
  have s: "simple_line ?pls" by code_simp
  have e: "subshell_effect demo_site (bp_env demo_shell) ?pls (bp_session demo_shell) =
      Some (bp_session demo_shell, [], ''a'' @ nl @ ''b'' @ nl)" by (simp add: stage_effect_def demo_commands demo_echo)
  have a: "\<forall>c \<in> set (''a'' @ nl @ ''b'' @ nl). code c < 128" by code_simp
  have d: "bp_environ demo_shell ''PATH'' = Some ''/bin''" "bp_stack demo_shell \<noteq> []" "fresh demo_shell"
    by (simp_all add: demo_simps fresh_def)
  have u: "quiet ''x''" "CHR ''('' \<notin> set ''x''" by simp_all
  have v: "\<not> has_substitution ''y''" by code_simp
  have n: "\<forall>pl \<in> set ?pls. line_fuel [pl] + length (pipe_words pl) + 2 < 30" by (simp add: line_fuel_def)
  from substitution_takes_output [OF s q e a d u v n, of "[''z'']" False] obtain p' where
    "k_substitute (knot demo_site 30) (''x'' @ ''$('' @ hd (close_words (line_words ?pls) ''y''))
      (tl (close_words (line_words ?pls) ''y'') @ [''z''], False) demo_shell =
      Some (p', Inr (''x'' @ rstrip_char CHR 0x0A (''a'' @ nl @ ''b'' @ nl) @ ''y'', ([''z''], False)))" by blast
  moreover have "rstrip_char CHR 0x0A (''a'' @ nl @ ''b'' @ nl) = ''a'' @ nl @ ''b''" by code_simp
  ultimately show ?thesis by auto
qed

section \<open>Where the shell is none\<close>

text \<open>Characters that are no word characters of the lexer, such as the exclamation mark and brackets, split words.\<close>

lemma lexer_splits_words: "lex shell_cfg ''echo a!b c[1]'' = ([''echo'', ''a'', ''!'', ''b'', ''c'', ''['', ''1'', '']''], False)"
  by code_simp

text \<open>\<open>sh -c\<close> without a command raises, out of the line.\<close>

lemma sh_c_raises:
  assumes "co_args (bp_cmds p ! c) = [''-c'']"
  shows "start_sh g k c p = Some (p, Inl IndexError)"
proof -
  have "strip ''-c'' = ''-c''" by code_simp
  then show ?thesis using assms by (simp add: start_sh_def sh_line_def Let_def)
qed

text \<open>\<open>printf\<close> does not catch the error of an escape that \<open>echo\<close> does.\<close>

lemma bad_escape:
  "command_printf [[backslash, CHR ''x'']] inp = Fail ValueError" "command_echo [''-e'', [backslash, CHR ''x'']] inp = Done"
proof -
  have "escape_decode [backslash, CHR ''x''] = Inl ValueError" "strip_quotes (prepare [backslash, CHR ''x'']) = [backslash, CHR ''x'']"
    "\<not> suffix [backslash, CHR ''c''] [backslash, CHR ''x'']" "str_encode [backslash, CHR ''x''] = [backslash, CHR ''x'']"
    by code_simp+
  then show "command_printf [[backslash, CHR ''x'']] inp = Fail ValueError" by (simp add: command_printf_def Let_def)
  have "escape_decode (str_encode (prepare [backslash, CHR ''x''] @ nl)) = Inl ValueError"
    "\<not> suffix [backslash, CHR ''c''] (prepare [backslash, CHR ''x''])" by code_simp+
  then show "command_echo [''-e'', [backslash, CHR ''x'']] inp = Done" by (simp add: command_echo_def Let_def)
qed

text \<open>A session that is opened for an assignment is not ended.\<close>

lemma assignment_never_ends:
  assumes "bp_shells p = []" and "bp_stack p = []"
  shows "\<exists>p'. exec_made g 5 ''X=1'' p = Some (p', Inr ()) \<and> bp_term p' = bp_term p"
proof -
  have l: "lex shell_cfg (join_on ''; '' (split_on CHR 0x0A (strip ''X=1''))) = ([''X=1''], False)" by code_simp
  have w: "simple_word ''X=1''" by code_simp
  have five: "5 = Suc (Suc (Suc (Suc (Suc 0))))" by simp
  show ?thesis
    unfolding exec_made_def shell_lineReceived_def l five knot.simps
    by (simp add: new_shell_def showPrompt_def Let_def assms line_word [OF w])
      (simp add: tie_def line_loop_def runOrPrompt_def runCommand_def showPrompt_def set_pending_def)
qed

text \<open>A directory whose name is no ASCII makes every prompt raise.\<close>

lemma prompt_raises:
  assumes "hs_interactive (shell_of p i)" and "si_prompt g = None" and "se_cwd (bp_session p) = ''/'' @ [char_of (233 :: nat)]" and "ce_home (bp_env p) = ''/root''"
  shows "showPrompt g i p = (p, Inl ValueError)"
proof -
  have "char_of (233 :: nat) \<in> set (prompt_text g p)" using assms by (simp add: prompt_text_def Let_def)
  moreover have "128 \<le> code (char_of (233 :: nat))" by (simp add: code_def)
  ultimately have "\<exists>c \<in> set (prompt_text g p). 128 \<le> code c" by blast
  with assms(1) show ?thesis by (simp add: showPrompt_def)
qed

text \<open>The output of a command is used twice, if a command behind it in the substitution is not found: what is read then is
  the process of the command before.\<close>

lemma end_of_line:
  "ws \<noteq> [] \<Longrightarrow> i < length (bp_shells p) \<Longrightarrow> hs_pending (shell_of p i) = [] \<Longrightarrow>
     k_line (tie g k) i ([], False) ws p = k_run k i (set_pending i [ws] p)"
  by (simp add: tie_def line_loop_def runOrPrompt_def)

lemma stale_output:
  assumes "lex shell_cfg w = ([w], False)" and "simple_word w" and "CHR ''='' \<notin> set w" and "w \<noteq> []" and "bp_stack p \<noteq> []"
    and "bp_window p = None" and "bp_environ p ''PATH'' = Some dirs" and "\<not> bp_exec p"
    and "\<And>p'. bp_session p' = bp_session p \<Longrightarrow> bp_env p' = bp_env p \<Longrightarrow> getCommand g p' w (split_on CHR '':'' dirs) = Inr None"
    and "bp_pp p = Some q" and "bytes_decode (pp_redirected (bp_pps p ! q)) = Inr d"
  shows "\<exists>p'. run_groups g (knot g 3) [w] acc p = Some (p', Inr (acc @ d))"
proof -
  let ?i = "length (bp_shells p)"
  let ?sh = "\<lparr>hs_interactive = False, hs_redirect = True, hs_pending = [], hs_environ = bp_environ p\<rparr>"
  let ?p1 = "push (Sh ?i) (p\<lparr>bp_shells := bp_shells p @ [?sh]\<rparr>)"
  let ?p2 = "not_found ?i w ?p1"
  have new: "new_shell g False True p = (p\<lparr>bp_shells := bp_shells p @ [?sh]\<rparr>, Inr ?i)"
    by (simp add: new_shell_def showPrompt_def Let_def assms(6))
  have get: "getCommand g ?p1 w (split_on CHR '':'' dirs) = Inr None" by (rule assms(9)) (simp_all add: push_def)
  have three: "(3 :: nat) = Suc (Suc (Suc 0))" by simp
  have same: "set_pending ?i [] (set_pending ?i [[w]] ?p1) = ?p1" by (simp add: push_def set_pending_def)
  have "stages w [] = [(w, [])]" by (simp add: stages_def)
  then have "runCommand g (knot g 0) ?i (set_pending ?i [[w]] ?p1) = runOrPrompt g (knot g 0) ?i ?p2"
    using get same assms(3,4,7) by (simp add: runCommand_def push_def Let_def)
  also have "\<dots> = Some (?p2, Inr ())" by (simp add: runOrPrompt_def showPrompt_def not_found_def push_def sent_def ended_def Let_def
      del: str_encode.simps)
  finally have "k_run (knot g (Suc 0)) ?i (set_pending ?i [[w]] ?p1) = Some (?p2, Inr ())" by (simp add: tie_def)
  then have "k_line (knot g (Suc (Suc 0))) ?i ([], False) [w] ?p1 = Some (?p2, Inr ())"
    using end_of_line [of "[w]" ?i ?p1 g "knot g (Suc 0)"] by (simp add: push_def)
  then have "k_line (knot g 3) ?i ([w], False) [] ?p1 = Some (?p2, Inr ())"
    by (simp only: three knot.simps(2) line_word [OF assms(2)] append_Nil)
  moreover have "pop_stack ?p2 = (?p2\<lparr>bp_stack := bp_stack p\<rparr>, Inr ())" using assms(8)
    by (simp add: pop_stack_def not_found_def push_def sent_def Let_def del: str_encode.simps)
  moreover have "bp_pp ?p2 = Some q" "bp_pps ?p2 = bp_pps p" using assms(8,10)
    by (simp_all add: not_found_def push_def sent_def Let_def del: str_encode.simps)
  ultimately show ?thesis using new assms(1,11) by (simp add: in_new_shell_def)
qed

end
