(* ===== verification/Iec104Frames.thy ===== *)
theory Iec104Frames
  imports PyStr Octets
begin

text \<open>
  The packets of Conpot's IEC 60870-5-104 station: \<open>conpot/protocols/IEC104/frames.py\<close> and \<open>i_frames_check.py\<close>. A class
  of packets is the list of its fields. Scapy, which reads and writes packets by these lists, is not part of the
  repository: reading is an argument of the definitions of the station, and packets that are sent are kept as values. What
  is used of a list here is how many bits its fields take, and which values they can be built with.
\<close>

section \<open>Fields\<close>

datatype field =
    XByteField string int
  | ByteField string "int option"
  | ShortField string int
  | LEShortField string int
  | X3BytesField string int
  | LEX3BytesField string int
  | LEIntField string int
  | LESignedIntField string int
  | LESignedShortField string int
  | NormValueField string int
  | FloatField string int
  | BitField string int nat
  | XBitField string int nat
  | PacketField string "field list"

primrec field_bits :: "field \<Rightarrow> nat" where
  "field_bits (XByteField _ _) = 8"
| "field_bits (ByteField _ _) = 8"
| "field_bits (ShortField _ _) = 16"
| "field_bits (LEShortField _ _) = 16"
| "field_bits (X3BytesField _ _) = 24"
| "field_bits (LEX3BytesField _ _) = 24"
| "field_bits (LEIntField _ _) = 32"
| "field_bits (LESignedIntField _ _) = 32"
| "field_bits (LESignedShortField _ _) = 16"
| "field_bits (NormValueField _ _) = 16"
| "field_bits (FloatField _ _) = 32"
| "field_bits (BitField _ _ n) = n"
| "field_bits (XBitField _ _ n) = n"
| "field_bits (PacketField _ fs) = sum_list (map field_bits fs)"

definition bits :: "field list \<Rightarrow> nat" where
  "bits fs = sum_list (map field_bits fs)"

section \<open>Packets\<close>

definition i_frame_fields :: "field list" where
  "i_frame_fields = [XByteField ''Start'' 104, ByteField ''LenAPDU'' None, LEShortField ''SendSeq'' 0,
    LEShortField ''RecvSeq'' 0]"

definition u_frame_fields :: "field list" where
  "u_frame_fields = [XByteField ''Start'' 104, ByteField ''LenAPDU'' (Some 4), XByteField ''Type'' 7,
    X3BytesField ''Default'' 0]"

definition s_frame_fields :: "field list" where
  "s_frame_fields = [XByteField ''Start'' 104, ByteField ''LenAPDU'' (Some 4), XByteField ''Type'' 1,
    XByteField ''Default'' 0, LEShortField ''RecvSeq'' 0]"

definition CP56Time :: "field list" where
  "CP56Time = [ShortField ''Ms'' 0, ByteField ''Min'' (Some 0), ByteField ''Hour'' (Some 0),
    ByteField ''Day'' (Some 1), ByteField ''Month'' (Some 1), ByteField ''Year'' (Some 91)]"

definition CP24Time :: "field list" where
  "CP24Time = [ShortField ''Ms'' 0, ByteField ''Min'' (Some 0)]"

definition CP16Time :: "field list" where
  "CP16Time = [ShortField ''Ms'' 0]"

definition IOA :: "field list" where
  "IOA = [LEX3BytesField ''IOA'' 65536]"

definition QOS :: "field list" where
  "QOS = [XBitField ''seq'' 0 1, XBitField ''QL'' 0 7]"

definition QDS :: "field list" where
  "QDS = [XBitField ''IV'' 0 1, XBitField ''NT'' 0 1, XBitField ''SB'' 0 1, XBitField ''BL'' 0 1,
    XBitField ''Padding'' 0 3, XBitField ''OV'' 0 1]"

definition QDP :: "field list" where
  "QDP = [XBitField ''IV'' 0 1, XBitField ''NT'' 0 1, XBitField ''SB'' 0 1, XBitField ''BL'' 0 1,
    XBitField ''EI'' 0 1, XBitField ''Padding'' 0 3]"

definition SIQ :: "field list" where
  "SIQ = [XBitField ''IV'' 0 1, XBitField ''NT'' 0 1, XBitField ''SB'' 0 1, XBitField ''BL'' 0 1,
    XBitField ''Padding'' 0 3, XBitField ''SPI'' 0 1]"

definition BSI :: "field list" where
  "BSI = [LEIntField ''BSI'' 0]"

definition DIQ :: "field list" where
  "DIQ = [XBitField ''IV'' 0 1, XBitField ''NT'' 0 1, XBitField ''SB'' 0 1, XBitField ''BL'' 0 1,
    XBitField ''Padding'' 0 2, XBitField ''DPI'' 0 2]"

definition VTI :: "field list" where
  "VTI = [XBitField ''T'' 0 1, XBitField ''Value'' 0 7]"

definition NVA :: "field list" where
  "NVA = [NormValueField ''NVA'' 20480]"

definition SVA :: "field list" where
  "SVA = [LESignedShortField ''SVA'' 80]"

definition BCR :: "field list" where
  "BCR = [LESignedIntField ''Value'' 0, XBitField ''IV'' 0 1, XBitField ''CA'' 0 1, XBitField ''CY'' 0 1,
    XBitField ''SeqNr'' 0 5]"

definition SEP :: "field list" where
  "SEP = [XBitField ''IV'' 0 1, XBitField ''NT'' 0 1, XBitField ''SB'' 0 1, XBitField ''BL'' 0 1,
    XBitField ''EI'' 0 1, XBitField ''Padding'' 0 1, XBitField ''ES'' 0 2]"

definition SPE :: "field list" where
  "SPE = [XBitField ''Padding'' 0 2, XBitField ''SRD'' 0 1, XBitField ''SIE'' 0 1, XBitField ''SL3'' 0 1,
    XBitField ''SL2'' 0 1, XBitField ''GS'' 0 1]"

definition OCI :: "field list" where
  "OCI = [XBitField ''Padding'' 0 4, XBitField ''CL3'' 0 1, XBitField ''CL2'' 0 1, XBitField ''CL1'' 0 1,
    XBitField ''GC'' 0 1]"

definition SCD :: "field list" where
  "SCD = [LEShortField ''Status'' 0, LEShortField ''StatChaDet'' 0]"

definition asdu_head :: "field list" where
  "asdu_head = [ByteField ''TypeID'' (Some 5), BitField ''SQ'' 0 1, BitField ''NoO'' 1 7, BitField ''T'' 0 1,
    BitField ''PN'' 0 1, BitField ''COT'' 6 6, XByteField ''OrigAddr'' 0, LEShortField ''COA'' 0]"

text \<open>\<open>asdu_infobj_n\<close> for every number \<open>n\<close>, with the name of the class.\<close>

definition monitor_infobjs :: "(int \<times> string \<times> field list) list" where
  "monitor_infobjs = [
    (1, ''M_SP_NA_1'', IOA @ [PacketField ''SIQ'' SIQ]),
    (2, ''M_SP_TA_1'', IOA @ [PacketField ''SIQ'' SIQ, PacketField ''CP24Time'' CP24Time]),
    (3, ''M_DP_NA_1'', IOA @ [PacketField ''DIQ'' DIQ]),
    (4, ''M_DP_TA_1'', IOA @ [PacketField ''DIQ'' DIQ, PacketField ''CP24Time'' CP24Time]),
    (5, ''M_ST_NA_1'', IOA @ [PacketField ''VTI'' VTI, PacketField ''QDS'' QDS]),
    (6, ''M_ST_TA_1'', IOA @ [PacketField ''VTI'' VTI, PacketField ''QDS'' QDS,
    PacketField ''CP24Time'' CP24Time]),
    (7, ''M_BO_NA_1'', IOA @ BSI @ [PacketField ''QDS'' QDS]),
    (8, ''M_BO_TA_1'', IOA @ BSI @ [PacketField ''QDS'' QDS, PacketField ''CP24Time'' CP24Time]),
    (9, ''M_ME_NA_1'', IOA @ NVA @ [PacketField ''QDS'' QDS]),
    (10, ''M_ME_TA_1'', IOA @ NVA @ [PacketField ''QDS'' QDS, PacketField ''CP24Time'' CP24Time]),
    (11, ''M_ME_NB_1'', IOA @ SVA @ [PacketField ''QDS'' QDS]),
    (12, ''M_ME_TB_1'', IOA @ SVA @ [PacketField ''QDS'' QDS, PacketField ''CP24Time'' CP24Time]),
    (13, ''M_ME_NC_1'', IOA @ [FloatField ''FPNumber'' 1, PacketField ''QDS'' QDS]),
    (14, ''M_ME_TC_1'', IOA @ [FloatField ''FPNumber'' 0, PacketField ''QDS'' QDS,
    PacketField ''CP24Time'' CP24Time]),
    (15, ''M_IT_NA_1'', IOA @ [PacketField ''BCR'' BCR]),
    (16, ''M_IT_TA_1'', IOA @ [PacketField ''BCR'' BCR, PacketField ''CP24Time'' CP24Time]),
    (17, ''M_EP_TA_1'', IOA @ [PacketField ''SEP'' SEP] @ CP16Time @ [PacketField ''CP24Time'' CP24Time]),
    (18, ''M_EP_TB_1'', IOA @ [PacketField ''SPE'' SPE, PacketField ''QDP'' QDP] @ CP16Time @
    [PacketField ''CP24Time'' CP24Time]),
    (19, ''M_EP_TC_1'', IOA @ [PacketField ''OCI'' OCI, PacketField ''QDP'' QDP] @ CP16Time @
    [PacketField ''CP24Time'' CP24Time]),
    (20, ''M_PS_NA_1'', IOA @ [PacketField ''SCD'' SCD, PacketField ''QDS'' QDS]),
    (21, ''M_ME_ND_1'', IOA @ NVA)]"

definition tagged_infobjs :: "(int \<times> string \<times> field list) list" where
  "tagged_infobjs = [
    (30, ''M_SP_TB_1'', IOA @ [PacketField ''SIQ'' SIQ, PacketField ''CP56Time'' CP56Time]),
    (31, ''M_DP_TB_1'', IOA @ [PacketField ''DIQ'' DIQ, PacketField ''CP56Time'' CP56Time]),
    (32, ''M_ST_TA_1'', IOA @ [PacketField ''VTI'' VTI, PacketField ''QDS'' QDS,
    PacketField ''CP56Time'' CP56Time]),
    (33, ''M_BO_TB_1'', IOA @ [PacketField ''BSI'' BSI, PacketField ''QDS'' QDS,
    PacketField ''CP56Time'' CP56Time]),
    (34, ''M_ME_TD_1'', IOA @ NVA @ [PacketField ''QDS'' QDS, PacketField ''CP56Time'' CP56Time]),
    (35, ''M_ME_TE_1'', IOA @ SVA @ [PacketField ''QDS'' QDS, PacketField ''CP56Time'' CP56Time]),
    (36, ''M_ME_TF_1'', IOA @ [FloatField ''FPNumber'' 0, PacketField ''QDS'' QDS,
    PacketField ''CP56Time'' CP56Time]),
    (37, ''M_IT_TB_1'', IOA @ [PacketField ''BCR'' BCR, PacketField ''CP56Time'' CP56Time]),
    (38, ''M_EP_TD_1'', IOA @ [PacketField ''SEP'' SEP] @ CP16Time @ [PacketField ''CP56Time'' CP56Time]),
    (39, ''M_EP_TE_1'', IOA @ [PacketField ''SPE'' SPE, PacketField ''QDP'' QDP] @ CP16Time @
    [PacketField ''CP56Time'' CP56Time]),
    (40, ''M_EP_TF_1'', IOA @ [PacketField ''OCI'' OCI, PacketField ''QDP'' QDP] @ CP16Time @
    [PacketField ''CP56Time'' CP56Time])]"

definition command_infobjs :: "(int \<times> string \<times> field list) list" where
  "command_infobjs = [
    (45, ''C_SC_NA_1'', IOA @ [XBitField ''QOC'' 0 6, XBitField ''Padding'' 0 1, BitField ''SCS'' 0 1]),
    (46, ''C_DC_NA_1'', IOA @ [XBitField ''QOC'' 0 6, XBitField ''DCS'' 0 2]),
    (47, ''C_RC_NA_1'', IOA @ [XBitField ''QOC'' 0 6, XBitField ''RCS'' 0 2]),
    (48, ''C_SE_NA_1'', IOA @ NVA @ [PacketField ''QOS'' QOS]),
    (49, ''C_SE_NB_1'', IOA @ SVA @ [PacketField ''QOS'' QOS]),
    (50, ''C_SE_NC_1'', IOA @ [FloatField ''FPNumber'' 0, PacketField ''QOS'' QOS]),
    (51, ''C_BO_NA_1'', IOA @ BSI)]"

definition tagged_command_infobjs :: "(int \<times> string \<times> field list) list" where
  "tagged_command_infobjs = [
    (58, ''C_SC_TA_1'', IOA @ [XBitField ''QOC'' 0 6, XBitField ''Padding'' 0 1, BitField ''SCS'' 0 1,
    PacketField ''CP56Time'' CP56Time]),
    (59, ''C_DC_TA_1'', IOA @ [XBitField ''QOC'' 0 6, XBitField ''DCS'' 0 2, PacketField ''CP56Time'' CP56Time]),
    (60, ''C_RC_TA_1'', IOA @ [XBitField ''QOC'' 0 6, XBitField ''RCS'' 0 2, PacketField ''CP56Time'' CP56Time]),
    (61, ''C_SE_TA_1'', IOA @ NVA @ [PacketField ''QOS'' QOS, PacketField ''CP56Time'' CP56Time]),
    (62, ''C_SE_TB_1'', IOA @ SVA @ [PacketField ''QOS'' QOS, PacketField ''CP56Time'' CP56Time]),
    (63, ''C_SE_TC_1'', IOA @ [FloatField ''FPNumber'' 0, PacketField ''QOS'' QOS,
    PacketField ''CP56Time'' CP56Time]),
    (64, ''C_BO_TA_1'', IOA @ BSI @ [PacketField ''QOS'' QOS, PacketField ''CP56Time'' CP56Time])]"

definition system_infobjs :: "(int \<times> string \<times> field list) list" where
  "system_infobjs = [
    (100, ''C_IC_NA_1'', [LEX3BytesField ''IOA'' 0, ByteField ''QOI'' (Some 20)]),
    (101, ''C_CI_NA_1'', [LEX3BytesField ''IOA'' 0, ByteField ''QCC'' (Some 5)]),
    (102, ''C_RD_NA_1'', [LEX3BytesField ''IOA'' 0]),
    (103, ''C_CS_NA_1'', [LEX3BytesField ''IOA'' 0, PacketField ''CP56Time'' CP56Time])]"

definition asdu_infobjs :: "(int \<times> string \<times> field list) list" where
  "asdu_infobjs = monitor_infobjs @ tagged_infobjs @ command_infobjs @ tagged_command_infobjs @ system_infobjs"

definition TypeIdentification :: "(string \<times> int) list" where
  "TypeIdentification = [
    (''M_SP_NA_1'', 1), (''M_SP_TA_1'', 2), (''M_DP_NA_1'', 3), (''M_DP_TA_1'', 4), (''M_ME_NB_1'', 11),
    (''M_ME_TB_1'', 12), (''M_ME_NC_1'', 13), (''M_ME_TC_1'', 14), (''M_SP_TB_1'', 30), (''M_DP_TB_1'', 31),
    (''M_ME_TE_1'', 35), (''M_ME_TF_1'', 36), (''C_SC_NA_1'', 45), (''C_DC_NA_1'', 46), (''C_SE_NB_1'', 49),
    (''C_SE_NC_1'', 50), (''C_IC_NA_1'', 100)]"


text \<open>The class a payload is read with; the classes that a received head of type \<open>t\<close> binds to one another for the objects
  that follow the first.\<close>

definition guess_payload_class :: "int \<Rightarrow> (string \<times> field list) option" where
  "guess_payload_class t =
     (if t \<in> {1..21} \<union> {30..40} \<union> {45..51} \<union> {58..64} \<union> {100..103} then map_of asdu_infobjs t else None)"

definition rebound :: "int \<Rightarrow> (string \<times> string) option" where
  "rebound t = map_of
     [(1, ''SIQ'', ''SIQ''), (3, ''DIQ'', ''DIQ''), (5, ''QDS'', ''VTI''), (7, ''QDS'', ''BSI''), (9, ''QDS'', ''NVA''),
      (11, ''QDS'', ''SVA''), (13, ''QDS'', ''FloatField'')] t"

definition STARTDT_act :: int where "STARTDT_act = 0x07"
definition STARTDT_con :: int where "STARTDT_con = 0x0B"
definition STOPDT_act :: int where "STOPDT_act = 0x13"
definition STOPDT_con :: int where "STOPDT_con = 0x23"
definition TESTFR_act :: int where "TESTFR_act = 0x43"
definition TESTFR_con :: int where "TESTFR_con = 0x83"

section \<open>Packets that are sent, and values of fields\<close>

text \<open>A floating point number stands for its four octets.\<close>

datatype val = Num int | Real32 "32 word"

text \<open>An object is its number with the fields that are given to its constructor; the others have their defaults.\<close>

datatype infobj = Infobj int "(string \<times> val) list"

record iframe =
  if_SendSeq :: int
  if_RecvSeq :: int
  if_SQ :: int
  if_NoO :: int
  if_PN :: int
  if_COT :: int
  if_COA :: int
  if_objs :: "infobj list"

text \<open>\<open>i_frame() / asdu_head(COT=cot)\<close>.\<close>

definition new_iframe :: "int \<Rightarrow> infobj list \<Rightarrow> iframe" where
  "new_iframe cot objs = \<lparr>if_SendSeq = 0, if_RecvSeq = 0, if_SQ = 0, if_NoO = 1, if_PN = 0, if_COT = cot, if_COA = 0, if_objs = objs\<rparr>"

datatype apdu = S_frame int | U_frame int | I_frame iframe

definition infobj_type :: "infobj \<Rightarrow> int" where
  "infobj_type x = (case x of Infobj t _ \<Rightarrow> t)"

text \<open>The type in the head is bound to the class of the first object.\<close>

definition if_TypeID :: "iframe \<Rightarrow> int" where
  "if_TypeID f = (case if_objs f of [] \<Rightarrow> 5 | x # _ \<Rightarrow> infobj_type x)"

text \<open>Octets: six of the frame's head, six of the ASDU's, and the objects.\<close>

definition object_bits :: "int \<Rightarrow> nat" where
  "object_bits t = (case map_of asdu_infobjs t of None \<Rightarrow> 0 | Some (_, fs) \<Rightarrow> bits fs)"

definition object_length :: "int \<Rightarrow> nat" where
  "object_length t = object_bits t div 8"

definition iframe_length :: "iframe \<Rightarrow> nat" where
  "iframe_length f = bits i_frame_fields div 8 + bits asdu_head div 8 + sum_list (map (\<lambda>x. object_length (infobj_type x)) (if_objs f))"

section \<open>Building a packet\<close>

text \<open>\<open>build\<close> packs the values by the formats of their fields: a field of bits takes the lowest ones of any number, the others raise
  \<open>struct.error\<close> on a number out of range. Only values that are given can fail, the defaults fit.\<close>

primrec field_name :: "field \<Rightarrow> string" where
  "field_name (XByteField k _) = k"
| "field_name (ByteField k _) = k"
| "field_name (ShortField k _) = k"
| "field_name (LEShortField k _) = k"
| "field_name (X3BytesField k _) = k"
| "field_name (LEX3BytesField k _) = k"
| "field_name (LEIntField k _) = k"
| "field_name (LESignedIntField k _) = k"
| "field_name (LESignedShortField k _) = k"
| "field_name (NormValueField k _) = k"
| "field_name (FloatField k _) = k"
| "field_name (BitField k _ _) = k"
| "field_name (XBitField k _ _) = k"
| "field_name (PacketField k _) = k"

fun leaves :: "field \<Rightarrow> field list" where
  "leaves (PacketField _ fs) = concat (map leaves fs)"
| "leaves f = [f]"

definition pack_range :: "int \<Rightarrow> int \<Rightarrow> val \<Rightarrow> unit result" where
  "pack_range lo hi v = (case v of Num n \<Rightarrow> if lo \<le> n \<and> n \<le> hi then Inr () else Inl StructError | Real32 _ \<Rightarrow> Inl StructError)"

text \<open>The numbers that are rounded to no finite single float.\<close>

abbreviation OverflowError :: py_exn where
  "OverflowError \<equiv> RuntimeError ''OverflowError''"

definition float_limit :: int where
  "float_limit = 2 ^ 128 - 2 ^ 103"

fun build_field :: "field \<Rightarrow> val \<Rightarrow> unit result" where
  "build_field (XByteField _ _) v = pack_range 0 255 v"
| "build_field (ByteField _ _) v = pack_range 0 255 v"
| "build_field (ShortField _ _) v = pack_range 0 65535 v"
| "build_field (LEShortField _ _) v = pack_range 0 65535 v"
| "build_field (X3BytesField _ _) v = pack_range 0 4294967295 v"
| "build_field (LEX3BytesField _ _) v = pack_range 0 4294967295 v"
| "build_field (LEIntField _ _) v = pack_range 0 4294967295 v"
| "build_field (LESignedIntField _ _) v = pack_range (- 2147483648) 2147483647 v"
| "build_field (LESignedShortField _ _) v = pack_range (- 32768) 32767 v"
| "build_field (NormValueField _ _) v = pack_range (- 32768) 32767 v"
| "build_field (FloatField _ _) v =
     (case v of Real32 _ \<Rightarrow> Inr () | Num n \<Rightarrow> if \<bar>n\<bar> < float_limit then Inr () else Inl OverflowError)"
| "build_field (BitField _ _ _) v = (case v of Num _ \<Rightarrow> Inr () | Real32 _ \<Rightarrow> Inl TypeError)"
| "build_field (XBitField _ _ _) v = (case v of Num _ \<Rightarrow> Inr () | Real32 _ \<Rightarrow> Inl TypeError)"
| "build_field (PacketField _ _) v = Inl TypeError"

fun build_fields :: "(string \<times> val) list \<Rightarrow> field list \<Rightarrow> unit result" where
  "build_fields given [] = Inr ()"
| "build_fields given (f # fs) =
     bindE (case map_of given (field_name f) of None \<Rightarrow> Inr () | Some v \<Rightarrow> build_field f v) (\<lambda>_. build_fields given fs)"

definition build_infobj :: "infobj \<Rightarrow> unit result" where
  "build_infobj x =
     (case x of Infobj t given \<Rightarrow>
        (case map_of asdu_infobjs t of None \<Rightarrow> Inr () | Some (_, fs) \<Rightarrow> build_fields given (concat (map leaves fs))))"

fun build_objects :: "infobj list \<Rightarrow> unit result" where
  "build_objects [] = Inr ()"
| "build_objects (x # xs) = bindE (build_infobj x) (\<lambda>_. build_objects xs)"

text \<open>The head, the ASDU with its objects, and \<open>post_build\<close>, which packs the length without the first two octets.\<close>

definition build_iframe :: "iframe \<Rightarrow> unit result" where
  "build_iframe f =
     bindE (pack_range 0 65535 (Num (if_SendSeq f))) (\<lambda>_.
     bindE (pack_range 0 65535 (Num (if_RecvSeq f))) (\<lambda>_.
     bindE (pack_range 0 255 (Num (if_TypeID f))) (\<lambda>_.
     bindE (pack_range 0 65535 (Num (if_COA f))) (\<lambda>_.
     bindE (build_objects (if_objs f)) (\<lambda>_.
     pack_range 0 255 (Num (int (iframe_length f) - 2)))))))"

section \<open>Reading the fields of a packet\<close>

text \<open>\<open>getfieldval\<close> looks through the layers of a packet and raises when none has the field.\<close>

type_synonym fields = "string \<Rightarrow> val option"

definition getfieldval :: "fields \<Rightarrow> string \<Rightarrow> val result" where
  "getfieldval c name = (case c name of None \<Rightarrow> Inl AttributeError | Some v \<Rightarrow> Inr v)"

definition int_of :: "val \<Rightarrow> int result" where
  "int_of v = (case v of Num n \<Rightarrow> Inr n | Real32 _ \<Rightarrow> Inl ValueError)"

definition num :: "fields \<Rightarrow> string \<Rightarrow> int result" where
  "num c name = bindE (getfieldval c name) int_of"

fun object_fields :: "infobj list \<Rightarrow> fields" where
  "object_fields [] name = None"
| "object_fields (Infobj t fs # xs) name =
     (case map_of fs name of
        Some v \<Rightarrow> Some v
      | None \<Rightarrow> if name = ''IOA'' then Some (Num (if 100 \<le> t then 0 else 0x010000)) else object_fields xs name)"

definition iframe_fields :: "iframe \<Rightarrow> fields" where
  "iframe_fields f name =
     (case map_of [(''SendSeq'', if_SendSeq f), (''RecvSeq'', if_RecvSeq f), (''TypeID'', if_TypeID f), (''SQ'', if_SQ f),
        (''NoO'', if_NoO f), (''PN'', if_PN f), (''COT'', if_COT f), (''COA'', if_COA f)] name of
        Some n \<Rightarrow> Some (Num n)
      | None \<Rightarrow> object_fields (if_objs f) name)"

section \<open>Checks\<close>

abbreviation InvalidFieldValue :: py_exn where
  "InvalidFieldValue \<equiv> RuntimeError ''InvalidFieldValueException''"

datatype direction = Control | Monitor

definition ensure :: "bool \<Rightarrow> unit result" where
  "ensure b = (if b then Inr () else Inl InvalidFieldValue)"

text \<open>\<open>int(x, 16)\<close> of something that is no string.\<close>

definition int_base_of_number :: "val \<Rightarrow> int result" where
  "int_base_of_number v = Inl TypeError"

definition check_information_without_time :: "fields \<Rightarrow> direction \<Rightarrow> unit result" where
  "check_information_without_time c d =
     bindE (bindE (getfieldval c ''TypeID'') int_base_of_number) (\<lambda>_.
     bindE (num c ''COT'') (\<lambda>cot. ensure (cot \<in> {2, 3, 5, 11, 12, 20})))"

definition check_with_cot :: "int set \<Rightarrow> fields \<Rightarrow> unit result" where
  "check_with_cot cots c =
     bindE (bindE (getfieldval c ''TypeID'') int_base_of_number) (\<lambda>_.
     bindE (num c ''SQ'') (\<lambda>sq. if sq \<noteq> 0 then Inl InvalidFieldValue else bindE (num c ''COT'') (\<lambda>cot. ensure (cot \<in> cots))))"

definition check_information_with_time :: "fields \<Rightarrow> direction \<Rightarrow> unit result" where
  "check_information_with_time c d = check_with_cot {3, 5, 11, 12} c"

text \<open>\<open>check_asdu_n\<close> of the types in monitor direction.\<close>

definition check_monitor_asdu :: "int \<Rightarrow> fields \<Rightarrow> direction \<Rightarrow> unit result" where
  "check_monitor_asdu t c d =
     (if t \<in> {1, 3, 11, 13} then check_information_without_time c d
      else if t \<in> {2, 4, 30, 31} then check_information_with_time c d
      else if t \<in> {12, 35} then check_with_cot {3, 5} c
      else check_with_cot {2, 3, 5, 11, 12, 20} c)"

definition cot_allowed :: "int \<Rightarrow> direction \<Rightarrow> bool" where
  "cot_allowed cot d \<longleftrightarrow> cot \<in> {6, 8} \<and> d = Control \<or> cot \<in> {7, 9, 10, 44, 45, 46, 47} \<and> d = Monitor"

definition check_command :: "fields \<Rightarrow> direction \<Rightarrow> unit result" where
  "check_command c d =
     bindE (num c ''TypeID'') (\<lambda>_.
     bindE (num c ''SQ'') (\<lambda>sq. bindE (ensure (sq = 0)) (\<lambda>_.
     bindE (num c ''COT'') (\<lambda>cot. bindE (ensure (cot_allowed cot d)) (\<lambda>_.
     bindE (num c ''NoO'') (\<lambda>n. ensure (n = 1)))))))"

definition check_asdu_45 :: "fields \<Rightarrow> direction \<Rightarrow> unit result" where
  "check_asdu_45 c d =
     bindE (check_command c d) (\<lambda>_. if d = Control then bindE (num c ''LenAPDU'') (\<lambda>n. ensure (n = 14)) else Inr ())"

text \<open>\<open>check_asdu_46\<close> to \<open>check_asdu_51\<close>.\<close>

definition check_asdu_46 :: "fields \<Rightarrow> direction \<Rightarrow> unit result" where
  "check_asdu_46 c d = check_command c d"

definition check_asdu_100 :: "fields \<Rightarrow> direction \<Rightarrow> unit result" where
  "check_asdu_100 c d =
     bindE (num c ''TypeID'') (\<lambda>_. bindE (num c ''NoO'') (\<lambda>n. bindE (num c ''COT'') (\<lambda>cot. bindE (num c ''QOI'') (\<lambda>qoi.
     bindE (num c ''SQ'') (\<lambda>sq. bindE (ensure (sq = 0)) (\<lambda>_. bindE (ensure (n = 1)) (\<lambda>_.
     bindE (ensure (cot_allowed cot d)) (\<lambda>_.
     bindE (num c ''IOA'') (\<lambda>ioa. bindE (ensure (ioa = 0)) (\<lambda>_. ensure (qoi = 0 \<or> qoi \<in> {20..36})))))))))))"

section \<open>Facts\<close>

text \<open>The names in \<open>TypeIdentification\<close> are those of the classes.\<close>

lemma type_names_agree: "list_all (\<lambda>(name, t). map_option fst (map_of asdu_infobjs t) = Some name) TypeIdentification"
  by code_simp

text \<open>All objects but the two that hold an \<open>SPE\<close>, which has seven bits, are whole octets.\<close>

lemma whole_octets: "map fst (filter (\<lambda>(_, _, fs). bits fs mod 8 \<noteq> 0) asdu_infobjs) = [18, 39]"
  by code_simp

text \<open>The checks of monitored types always raise: they convert a number as if it were a string.\<close>

lemma monitor_checks_raise: "check_monitor_asdu t c d \<in> {Inl TypeError, Inl AttributeError}"
  by (auto simp: check_monitor_asdu_def check_information_without_time_def check_information_with_time_def check_with_cot_def
      getfieldval_def int_base_of_number_def split: option.splits)

lemma pack_range_errors: "pack_range lo hi v = Inl e \<Longrightarrow> e = StructError"
  by (auto simp: pack_range_def split: val.splits if_splits)

lemma build_field_errors: "build_field f v = Inl e \<Longrightarrow> e \<in> {StructError, TypeError, OverflowError}"
  by (cases f) (auto dest: pack_range_errors split: val.splits if_splits)

lemma build_fields_errors: "build_fields given fs = Inl e \<Longrightarrow> e \<in> {StructError, TypeError, OverflowError}"
  by (induction fs) (auto simp: bindE_eq_Inl_iff dest: build_field_errors split: option.splits)

lemma build_objects_errors: "build_objects xs = Inl e \<Longrightarrow> e \<in> {StructError, TypeError, OverflowError}"
  by (induction xs) (auto simp: bindE_eq_Inl_iff build_infobj_def dest: build_fields_errors split: infobj.splits option.splits)

lemma build_iframe_errors: "build_iframe f = Inl e \<Longrightarrow> e \<in> {StructError, TypeError, OverflowError}"
  by (auto simp: build_iframe_def bindE_eq_Inl_iff dest: pack_range_errors build_objects_errors)

lemma guessed_classes: "list_all (\<lambda>(t, x). guess_payload_class t = Some x) asdu_infobjs"
  by code_simp

end
