(* ===== verification/PyHex.thy ===== *)
theory PyHex
  imports PyStr
begin

text \<open>Numbers in base sixteen: \<open>format\<close> with the type \<open>x\<close> and a width, and \<open>int(s, 16)\<close>.\<close>

definition hex_digit_of :: "nat \<Rightarrow> char" where
  "hex_digit_of n = (if n < 10 then char_of (48 + n) else char_of (87 + n))"

definition hex_digit_val :: "char \<Rightarrow> nat option" where
  "hex_digit_val c = (let n = code c in
     if 48 \<le> n \<and> n \<le> 57 then Some (n - 48)
     else if 97 \<le> n \<and> n \<le> 102 then Some (n - 87)
     else if 65 \<le> n \<and> n \<le> 70 then Some (n - 55) else None)"

fun show_hex :: "nat \<Rightarrow> string" where
  "show_hex n = (if n < 16 then [hex_digit_of n] else show_hex (n div 16) @ [hex_digit_of (n mod 16)])"

declare show_hex.simps [simp del]

definition zfill :: "nat \<Rightarrow> string \<Rightarrow> string" where
  "zfill w s = replicate (w - length s) CHR ''0'' @ s"

text \<open>\<open>"{0:0{1}x}".format(n, w)\<close> and, with the prefix counted in the width, \<open>"{0:#0{1}x}".format(n, w)\<close>.\<close>

definition format_hex :: "nat \<Rightarrow> int \<Rightarrow> string" where
  "format_hex w n = (if n < 0 then CHR ''-'' # zfill (w - 1) (show_hex (nat (- n))) else zfill w (show_hex (nat n)))"

definition format_hex_prefix :: "nat \<Rightarrow> int \<Rightarrow> string" where
  "format_hex_prefix w n = (if n < 0 then ''-0x'' @ zfill (w - 3) (show_hex (nat (- n))) else ''0x'' @ zfill (w - 2) (show_hex (nat n)))"

fun hex_value_from :: "nat \<Rightarrow> string \<Rightarrow> nat option" where
  "hex_value_from v [] = Some v"
| "hex_value_from v (c # cs) = (case hex_digit_val c of None \<Rightarrow> None | Some d \<Rightarrow> hex_value_from (16 * v + d) cs)"

definition int_base16 :: "string \<Rightarrow> int result" where
  "int_base16 s =
     (let ds = (if take 2 s = ''0x'' then drop 2 s else s)
      in if ds = [] then Inl ValueError else case hex_value_from 0 ds of None \<Rightarrow> Inl ValueError | Some v \<Rightarrow> Inr (int v))"

section \<open>Facts\<close>

lemma hex_digit_val_of [simp]: "n < 16 \<Longrightarrow> hex_digit_val (hex_digit_of n) = Some n"
  by (simp add: hex_digit_val_def hex_digit_of_def)

lemma hex_value_from_append:
  "hex_value_from v (xs @ ys) = (case hex_value_from v xs of None \<Rightarrow> None | Some w \<Rightarrow> hex_value_from w ys)"
  by (induction xs arbitrary: v) (auto split: option.splits)

lemma hex_value_from_zeros [simp]: "hex_value_from 0 (replicate k CHR ''0'' @ s) = hex_value_from 0 s"
  by (induction k) (simp_all add: hex_digit_val_def code_def)

lemma hex_value_show_hex: "hex_value_from 0 (show_hex n) = Some n"
proof (induction n rule: show_hex.induct)
  case (1 n)
  then show ?case by (subst show_hex.simps) (auto simp: hex_value_from_append)
qed

lemma hex_value_zfill [simp]: "hex_value_from 0 (zfill w (show_hex n)) = Some n"
  by (simp add: zfill_def hex_value_show_hex)

lemma length_show_hex: "0 < k \<Longrightarrow> n < 16 ^ k \<Longrightarrow> length (show_hex n) \<le> k"
proof (induction n arbitrary: k rule: show_hex.induct)
  case (1 n)
  show ?case
  proof (cases "n < 16")
    case True
    with 1 show ?thesis by (subst show_hex.simps) simp
  next
    case False
    with 1 obtain j where k: "k = Suc j" "0 < j" by (cases k; cases "k - 1") auto
    with 1(3) have "n div 16 < 16 ^ j" by (simp add: div_less_iff_less_mult mult.commute)
    with 1(1) [OF False k(2)] False k show ?thesis by (subst show_hex.simps) simp
  qed
qed

lemma length_zfill_hex: "0 < k \<Longrightarrow> n < 16 ^ k \<Longrightarrow> length (zfill k (show_hex n)) = k"
  using length_show_hex [of k n] by (simp add: zfill_def)

text \<open>A number of a known width, digit by digit.\<close>

primrec hex_digits :: "nat \<Rightarrow> nat \<Rightarrow> string" where
  "hex_digits 0 n = []"
| "hex_digits (Suc k) n = hex_digits k (n div 16) @ [hex_digit_of (n mod 16)]"

lemma length_hex_digits [simp]: "length (hex_digits k n) = k"
  by (induction k arbitrary: n) simp_all

lemma hex_digit_of_0: "hex_digit_of 0 = CHR ''0''"
  by code_simp

lemma hex_digits_0 [simp]: "hex_digits k 0 = replicate k CHR ''0''"
  by (induction k) (simp_all add: hex_digit_of_0 replicate_append_same)

lemma zfill_hex: "0 < k \<Longrightarrow> n < 16 ^ k \<Longrightarrow> zfill k (show_hex n) = hex_digits k n"
proof (induction k arbitrary: n)
  case 0
  then show ?case by simp
next
  case (Suc k)
  show ?case
  proof (cases "n < 16")
    case True
    then show ?thesis by (subst show_hex.simps) (simp add: zfill_def)
  next
    case False
    with Suc.prems have "0 < k" by (cases k) auto
    with Suc.IH [of "n div 16"] Suc.prems have "zfill k (show_hex (n div 16)) = hex_digits k (n div 16)"
      by (simp add: div_less_iff_less_mult mult.commute)
    with False show ?thesis by (subst show_hex.simps) (simp add: zfill_def)
  qed
qed

lemma hex_value_digits: "n < 16 ^ k \<Longrightarrow> hex_value_from 0 (hex_digits k n) = Some n"
  by (cases "k = 0") (simp_all flip: zfill_hex)

section \<open>Evaluation\<close>

text \<open>The same on integers, whose numerals are binary, for the evaluation of examples.\<close>

function show_hex_int :: "int \<Rightarrow> string" where
  "show_hex_int n = (if n < 16 then [hex_digit_of (nat n)] else show_hex_int (n div 16) @ [hex_digit_of (nat (n mod 16))])"
  by auto
termination by (relation "measure nat") auto

declare show_hex_int.simps [simp del]

lemma show_hex_int: "0 \<le> n \<Longrightarrow> show_hex (nat n) = show_hex_int n"
proof (induction n rule: show_hex_int.induct)
  case (1 n)
  show ?case
  proof (cases "n < 16")
    case True
    with 1(2) show ?thesis by (subst show_hex.simps, subst show_hex_int.simps) simp
  next
    case False
    with 1 show ?thesis
      by (subst show_hex.simps, subst show_hex_int.simps) (simp add: nat_div_distrib nat_mod_distrib)
  qed
qed

lemma format_hex_code [code]:
  "format_hex w n = (if n < 0 then CHR ''-'' # zfill (w - 1) (show_hex_int (- n)) else zfill w (show_hex_int n))"
  by (simp add: format_hex_def show_hex_int)

lemma format_hex_prefix_code [code]:
  "format_hex_prefix w n = (if n < 0 then ''-0x'' @ zfill (w - 3) (show_hex_int (- n)) else ''0x'' @ zfill (w - 2) (show_hex_int n))"
  by (simp add: format_hex_prefix_def show_hex_int)

fun hex_int_from :: "int \<Rightarrow> string \<Rightarrow> int option" where
  "hex_int_from v [] = Some v"
| "hex_int_from v (c # cs) = (case hex_digit_val c of None \<Rightarrow> None | Some d \<Rightarrow> hex_int_from (16 * v + int d) cs)"

lemma hex_int_from: "hex_int_from (int v) s = map_option int (hex_value_from v s)"
proof (induction s arbitrary: v)
  case (Cons c s)
  show ?case
  proof (cases "hex_digit_val c")
    case (Some d)
    then show ?thesis using Cons.IH [of "16 * v + d"] by simp
  qed simp
qed simp

lemma int_base16_code [code]:
  "int_base16 s =
     (let ds = (if take 2 s = ''0x'' then drop 2 s else s)
      in if ds = [] then Inl ValueError else case hex_int_from 0 ds of None \<Rightarrow> Inl ValueError | Some v \<Rightarrow> Inr v)"
  using hex_int_from [of 0] by (simp add: int_base16_def Let_def split: option.splits)

end
