(* ===== verification/Iec104.thy ===== *)
theory Iec104
  imports Iec104Frames PyHex
begin

text \<open>
  The station: \<open>conpot/protocols/IEC104/DeviceDataController.py\<close>, \<open>IEC104.py\<close> and \<open>IEC104_server.py\<close>. The objects of frames
  are kept in a list and referred to by number, since a frame that waits in the buffer and one that awaits its
  acknowledgement may be the same object. A generator runs to its end as soon as it is returned, and what it
  yields is sent at once. Scapy's reading of packets, the order of \<open>natsort\<close>, and what gevent raises on a call with
  nothing to call and on a closed socket are arguments.
\<close>

section \<open>Addresses\<close>

text \<open>\<open>a_b\<close> with sixteen and eight bits, and the number whose octets are those of \<open>b\<close>, then of \<open>a\<close> in little-endian order.\<close>

definition hex_in_addr :: "int \<Rightarrow> string result" where
  "hex_in_addr n =
     (let hexa = format_hex_prefix 8 n;
          a1 = take 2 (drop 2 hexa); a2 = take 2 (drop 4 hexa); a3 = take 2 (drop 6 hexa)
      in bindE (int_base16 (a3 @ a2)) (\<lambda>h. bindE (int_base16 a1) (\<lambda>l. Inr (show_nat (nat h) @ ''_'' @ show_nat (nat l)))))"

definition addr_in_hex :: "string \<Rightarrow> int result" where
  "addr_in_hex address =
     (case split_on CHR ''_'' address of
        [a1, a2] \<Rightarrow>
          bindE (py_int a1) (\<lambda>n1.
            let t = format_hex 4 n1; hex1 = take 2 (drop 2 t) @ take 2 t
            in bindE (py_int a2) (\<lambda>n2. int_base16 (format_hex_prefix 4 n2 @ hex1)))
      | _ \<Rightarrow> Inl ValueError)"

section \<open>Registers\<close>

record register =
  category_id :: int
  reg_addr :: string
  reg_val :: val
  relation :: string

type_synonym registers = "(string \<times> register) list"

text \<open>The checks of a template's entry; that of the scaled values can never fail, since it asks for a number that is at most
  -32768 and at least 32767.\<close>

definition category_ok :: "int \<Rightarrow> val \<Rightarrow> bool" where
  "category_ok categ v =
     (\<not> (categ \<in> {1, 2, 30, 45, 58} \<and> v \<notin> {Num 0, Num 1}) \<and>
      \<not> (categ \<in> {3, 4, 31, 46, 59} \<and> v \<notin> {Num 0, Num 1, Num 2, Num 3}) \<and>
      \<not> (categ \<in> {11, 12, 49, 62} \<and> (case v of Num n \<Rightarrow> - 32768 \<ge> n \<and> n \<ge> 32767 | Real32 _ \<Rightarrow> False)))"

text \<open>An entry of the template: its category, name, key in the data bus and relation. \<open>AssertionError\<close> ends the loading.\<close>

record template_entry =
  te_category :: int
  te_name :: string
  te_key :: string
  te_rel :: "string option"

abbreviation AssertionError :: py_exn where
  "AssertionError \<equiv> RuntimeError ''AssertionError''"

definition address_ok :: "string \<Rightarrow> unit result" where
  "address_ok address =
     (case split_on CHR ''_'' address of
        [a1, a2] \<Rightarrow> bindE (py_int a1) (\<lambda>n1.
          if \<not> (0 \<le> n1 \<and> n1 \<le> 65535) then Inl AssertionError
          else bindE (py_int a2) (\<lambda>n2. if 0 \<le> n2 \<and> n2 \<le> 255 then Inr () else Inl AssertionError))
      | _ \<Rightarrow> Inl ValueError)"

fun load_registers :: "(string \<Rightarrow> val option) \<Rightarrow> template_entry list \<Rightarrow> registers \<Rightarrow> registers result" where
  "load_registers databus [] regs = Inr regs"
| "load_registers databus (e # es) regs =
     bindE (address_ok (te_name e)) (\<lambda>_.
     case databus (te_key e) of
       None \<Rightarrow> Inl AssertionError
     | Some v \<Rightarrow>
         if \<not> category_ok (te_category e) v then Inl AssertionError
         else if te_name e \<in> fst ` set regs then Inl AssertionError
         else load_registers databus es
           (regs @ [(te_name e, \<lparr>category_id = te_category e, reg_addr = te_name e, reg_val = v,
              relation = (case te_rel e of None \<Rightarrow> [] | Some r \<Rightarrow> r)\<rparr>)]))"

definition check_registers :: "registers \<Rightarrow> bool" where
  "check_registers regs = list_all (\<lambda>(_, r). relation r = [] \<or> relation r \<in> fst ` set regs) regs"

definition device_data_controller :: "(string \<Rightarrow> val option) \<Rightarrow> template_entry list \<Rightarrow> registers result" where
  "device_data_controller databus es =
     bindE (load_registers databus es []) (\<lambda>regs. if check_registers regs then Inr regs else Inl AssertionError)"

definition get_object_from_reg :: "registers \<Rightarrow> int \<Rightarrow> register option result" where
  "get_object_from_reg regs n = bindE (hex_in_addr n) (\<lambda>a. Inr (map_of regs a))"

definition set_val :: "string \<Rightarrow> val \<Rightarrow> registers \<Rightarrow> registers" where
  "set_val a v regs = map (\<lambda>(k, r). if k = a then (k, r\<lparr>reg_val := v\<rparr>) else (k, r)) regs"

section \<open>The answer to an interrogation\<close>

definition python_int_div :: "int \<Rightarrow> int \<Rightarrow> int" where
  "python_int_div a b = (if 0 \<le> a then a div b else - ((- a) div b))"

definition value_field :: "int \<Rightarrow> string" where
  "value_field t =
     (if t = 1 then ''SPI'' else if t = 3 then ''DPI'' else if t = 5 then ''Value'' else if t = 7 then ''BSI''
      else if t = 9 then ''NVA'' else if t = 11 then ''SVA'' else ''FPNumber'')"

definition inro_frame :: "infobj list \<Rightarrow> iframe" where
  "inro_frame objs = (new_iframe 20 objs)\<lparr>if_NoO := (if objs = [] then 1 else int (length objs))\<rparr>"

fun inro_loop :: "int \<Rightarrow> int \<Rightarrow> registers \<Rightarrow> infobj list \<Rightarrow> iframe list result" where
  "inro_loop t limit [] objs = Inr (if objs = [] then [] else [inro_frame objs])"
| "inro_loop t limit ((k, r) # rs) objs =
     (if category_id r \<noteq> t then inro_loop t limit rs objs
      else bindE (addr_in_hex (reg_addr r)) (\<lambda>xaddr.
        let x = Infobj t [(''IOA'', Num xaddr), (value_field t, reg_val r)]
        in if int (length objs) \<ge> limit then bindE (inro_loop t limit rs [x]) (\<lambda>fs. Inr (inro_frame objs # fs))
           else inro_loop t limit rs (objs @ [x])))"

definition inro_response :: "int \<Rightarrow> registers \<Rightarrow> int \<Rightarrow> iframe list result" where
  "inro_response max_frame_size regs t =
     inro_loop t (python_int_div (max_frame_size - 12) (int (object_length t))) regs []"

section \<open>State of a connection\<close>

datatype sentmsg = Sent_i nat | Sent_u int

text \<open>The greenlet that acknowledges after \<open>T_2\<close>: none (or it has ended), waiting, or killed but not yet gone, which is
  what it is until the loop of gevent runs; in the last two states it counts as true.\<close>

datatype greenlet = No_greenlet | Waiting | Killed

record iec =
  ssn :: int
  rsn :: int
  ack :: int
  allow_DT :: bool
  t2_caller :: greenlet
  telegram_count :: int
  sentmsgs :: "sentmsg list"
  send_buffer :: "nat list"
  frame_objs :: "iframe list"
  regs :: registers
  sent :: "apdu list"
  sock_open :: bool

text \<open>\<open>cf_spawn_none\<close>: whether \<open>spawn_later\<close> raises on \<open>None\<close>; \<open>cf_closed\<close>: what a closed socket raises.\<close>

record conf =
  common_address :: int
  cf_w :: int
  MaxFrameSize :: int
  natsorted :: "registers \<Rightarrow> registers"
  cf_spawn_none :: bool
  cf_closed :: py_exn

type_synonym packet = "8 word list"

record scapy =
  sc_i_frame :: "packet \<Rightarrow> fields result"
  sc_s_frame :: "packet \<Rightarrow> fields result"
  sc_u_frame :: "packet \<Rightarrow> fields result"

definition iec_init :: "registers \<Rightarrow> iec" where
  "iec_init rs = \<lparr>ssn = 0, rsn = 0, ack = 0, allow_DT = False, t2_caller = No_greenlet, telegram_count = 0, sentmsgs = [],
     send_buffer = [], frame_objs = [], regs = rs, sent = [], sock_open = True\<rparr>"

type_synonym 'a handler = "iec \<times> 'a result"

definition bindH :: "'a handler \<Rightarrow> ('a \<Rightarrow> iec \<Rightarrow> 'b handler) \<Rightarrow> 'b handler" where
  "bindH m f = (case m of (st, Inl e) \<Rightarrow> (st, Inl e) | (st, Inr v) \<Rightarrow> f v st)"

definition liftH :: "'a result \<Rightarrow> iec \<Rightarrow> 'a handler" where
  "liftH r st = (st, r)"

lemma bindH_simps [simp]: "bindH (st, Inl e) f = (st, Inl e)" "bindH (st, Inr v) f = f v st"
  by (simp_all add: bindH_def)

section \<open>Sending\<close>

definition kill_t2 :: "iec \<Rightarrow> iec" where
  "kill_t2 st = (if t2_caller st = Waiting then st\<lparr>t2_caller := Killed\<rparr> else st)"

definition next_seq :: "int \<Rightarrow> int" where
  "next_seq n = (if n < 65534 then n + 2 else 0)"

definition increment_sendseq :: "iec \<Rightarrow> iec" where
  "increment_sendseq st = st\<lparr>ssn := next_seq (ssn st)\<rparr>"

definition recvseq_increment :: "iec \<Rightarrow> iec" where
  "recvseq_increment st = st\<lparr>rsn := next_seq (rsn st)\<rparr>"

datatype outgoing = Out_s | Out_u int | Out_i nat

text \<open>The packet that is built, or None when it is put into the buffer (or dropped, when fifty are there). A data frame is built after
  it has been numbered and noted as sent; when it cannot be built that raises.\<close>

definition send_104frame :: "conf \<Rightarrow> outgoing \<Rightarrow> iec \<Rightarrow> apdu option handler" where
  "send_104frame cf out st =
     (case out of
        Out_s \<Rightarrow> ((kill_t2 st)\<lparr>telegram_count := 0\<rparr>, Inr (Some (S_frame (rsn st))))
      | Out_i k \<Rightarrow>
          if allow_DT st then
            let f = (frame_objs st ! k)\<lparr>if_SendSeq := ssn st, if_RecvSeq := rsn st, if_COA := common_address cf\<rparr>;
                st = increment_sendseq (kill_t2 st)
            in (st\<lparr>frame_objs := (frame_objs st)[k := f], telegram_count := 0, sentmsgs := sentmsgs st @ [Sent_i k]\<rparr>,
                bindE (build_iframe f) (\<lambda>_. Inr (Some (I_frame f))))
          else (if length (send_buffer st) < 50 then st\<lparr>send_buffer := send_buffer st @ [k]\<rparr> else st, Inr None)
      | Out_u t \<Rightarrow>
          (if t = STARTDT_act \<or> t = TESTFR_act then st\<lparr>sentmsgs := sentmsgs st @ [Sent_u t]\<rparr> else st, Inr (Some (U_frame t))))"

text \<open>\<open>yield self.send_104frame(...)\<close>: the server sends what is yielded, unless it is None.\<close>

definition yields :: "conf \<Rightarrow> outgoing \<Rightarrow> iec \<Rightarrow> unit handler" where
  "yields cf out st =
     bindH (send_104frame cf out st) (\<lambda>p st. case p of None \<Rightarrow> (st, Inr ()) | Some a \<Rightarrow> (st\<lparr>sent := sent st @ [a]\<rparr>, Inr ()))"

definition yields_new :: "conf \<Rightarrow> iframe \<Rightarrow> iec \<Rightarrow> unit handler" where
  "yields_new cf f st = yields cf (Out_i (length (frame_objs st))) (st\<lparr>frame_objs := frame_objs st @ [f]\<rparr>)"

fun yields_all :: "conf \<Rightarrow> iframe list \<Rightarrow> iec \<Rightarrow> unit handler" where
  "yields_all cf [] st = (st, Inr ())"
| "yields_all cf (f # fs) st = bindH (yields_new cf f st) (\<lambda>_. yields_all cf fs)"

fun yields_buffer :: "conf \<Rightarrow> nat list \<Rightarrow> iec \<Rightarrow> unit handler" where
  "yields_buffer cf [] st = (st, Inr ())"
| "yields_buffer cf (k # ks) st = bindH (yields cf (Out_i k) st) (\<lambda>_. yields_buffer cf ks)"

text \<open>The exceptions the handlers catch and log.\<close>

definition caught :: "unit handler \<Rightarrow> unit handler" where
  "caught m = (case m of (st, Inl e) \<Rightarrow> if e = InvalidFieldValue \<or> e = AttributeError then (st, Inr ()) else (st, Inl e) | _ \<Rightarrow> m)"

definition caught_invalid :: "unit handler \<Rightarrow> unit handler" where
  "caught_invalid m = (case m of (st, Inl e) \<Rightarrow> if e = InvalidFieldValue then (st, Inr ()) else (st, Inl e) | _ \<Rightarrow> m)"

section \<open>Commands\<close>

definition checked :: "(fields \<Rightarrow> direction \<Rightarrow> unit result) \<Rightarrow> conf \<Rightarrow> iframe \<Rightarrow> iec \<Rightarrow> unit handler" where
  "checked check cf f st = bindH (liftH (check (iframe_fields f) Monitor) st) (\<lambda>_. yields_new cf f)"

text \<open>The related object gets the value of the command and is reported.\<close>

definition report_related :: "conf \<Rightarrow> (int \<Rightarrow> val \<Rightarrow> iframe) \<Rightarrow> register \<Rightarrow> val \<Rightarrow> iec \<Rightarrow> unit handler" where
  "report_related cf report obj v st =
     bindH (liftH (addr_in_hex (relation obj)) st) (\<lambda>ra st.
     bindH (liftH (get_object_from_reg (regs st) ra) st) (\<lambda>rel st.
       let st = st\<lparr>regs := set_val (reg_addr obj) v (regs st)\<rparr>
       in case rel of
            None \<Rightarrow> (st, Inl AttributeError)
          | Some rel \<Rightarrow> yields_new cf (report ra v) (st\<lparr>regs := set_val (reg_addr rel) v (regs st)\<rparr>)))"

text \<open>The four handlers of commands differ in the type, the check, the field with the value and the report.\<close>

definition handle_command ::
    "(fields \<Rightarrow> direction \<Rightarrow> unit result) \<Rightarrow> int \<Rightarrow> string \<Rightarrow> (int \<Rightarrow> val \<Rightarrow> iframe) \<Rightarrow> conf \<Rightarrow> fields \<Rightarrow> iec \<Rightarrow> unit handler" where
  "handle_command check t field report cf c st = caught (
     bindH (liftH (check c Control) st) (\<lambda>_ st.
     bindH (liftH (num c ''COT'') st) (\<lambda>cot st.
     bindH (liftH (num c ''IOA'') st) (\<lambda>ioa st.
     bindH (liftH (getfieldval c field) st) (\<lambda>v st.
       let objs = [Infobj t [(''IOA'', Num ioa), (field, v)]]
       in if cot \<noteq> 6 then (st, Inr ())
          else bindH (liftH (get_object_from_reg (regs st) ioa) st) (\<lambda>obj st.
            case obj of
              None \<Rightarrow> checked check cf (new_iframe 47 objs) st
            | Some obj \<Rightarrow>
                if category_id obj \<noteq> t then checked check cf ((new_iframe 7 objs)\<lparr>if_PN := 1\<rparr>) st
                else
                  bindH (checked check cf (new_iframe 7 objs) st) (\<lambda>_ st.
                  bindH (if relation obj = [] then (st, Inr ()) else report_related cf report obj v st) (\<lambda>_ st.
                    checked check cf (new_iframe 10 objs) st))))))))"

definition handle_single_command45 :: "conf \<Rightarrow> fields \<Rightarrow> iec \<Rightarrow> unit handler" where
  "handle_single_command45 =
     handle_command check_asdu_45 45 ''SCS'' (\<lambda>ra v. new_iframe 11 [Infobj 1 [(''IOA'', Num ra), (''SPI'', v)]])"

definition handle_double_command46 :: "conf \<Rightarrow> fields \<Rightarrow> iec \<Rightarrow> unit handler" where
  "handle_double_command46 =
     handle_command check_asdu_46 46 ''DCS'' (\<lambda>ra v. new_iframe 11 [Infobj 3 [(''IOA'', Num ra), (''DPI'', v)]])"

definition handle_setpointscaled_command49 :: "conf \<Rightarrow> fields \<Rightarrow> iec \<Rightarrow> unit handler" where
  "handle_setpointscaled_command49 =
     handle_command check_asdu_46 49 ''SVA'' (\<lambda>ra v. new_iframe 3 [Infobj 11 [(''IOA'', Num ra), (''SVA'', v)]])"

definition handle_setpointfloatpoint_command50 :: "conf \<Rightarrow> fields \<Rightarrow> iec \<Rightarrow> unit handler" where
  "handle_setpointfloatpoint_command50 =
     handle_command check_asdu_46 50 ''FPNumber'' (\<lambda>ra v. new_iframe 3 [Infobj 13 [(''IOA'', Num ra), (''FPNumber'', v)]])"

fun inro_responses :: "int \<Rightarrow> registers \<Rightarrow> int list \<Rightarrow> iframe list result" where
  "inro_responses m rs [] = Inr []"
| "inro_responses m rs (t # ts) =
     bindE (inro_response m rs t) (\<lambda>fs. bindE (inro_responses m rs ts) (\<lambda>gs. Inr (fs @ gs)))"

definition handle_inro_command100 :: "conf \<Rightarrow> fields \<Rightarrow> iec \<Rightarrow> unit handler" where
  "handle_inro_command100 cf c st = caught (
     bindH (liftH (num c ''COT'') st) (\<lambda>cot st.
     bindH (liftH (num c ''QOI'') st) (\<lambda>qoi st.
       let answer = (\<lambda>cot. new_iframe cot [Infobj 100 [(''QOI'', Num qoi)]])
       in if cot \<noteq> 6 then (st, Inr ())
          else
            bindH (checked check_asdu_100 cf (answer 7) st) (\<lambda>_ st.
            bindH (if qoi = 20
                   then bindH (liftH (inro_responses (MaxFrameSize cf) (natsorted cf (regs st)) [1, 3, 5, 7, 9, 11, 13]) st)
                          (\<lambda>fs. yields_all cf fs)
                   else (st, Inr ())) (\<lambda>_ st.
              bindH (liftH (check_asdu_100 (iframe_fields (answer 7)) Monitor) st) (\<lambda>_. yields_new cf (answer 10)))))))"

section \<open>Frames\<close>

definition disconnect :: "iec \<Rightarrow> iec" where
  "disconnect st = (kill_t2 st)\<lparr>sock_open := False, ssn := 0, rsn := 0, ack := 0, telegram_count := 0\<rparr>"

text \<open>The sent frames that an acknowledgement of everything before \<open>n\<close> leaves; the timers of the others are cancelled.\<close>

definition unacknowledged :: "iec \<Rightarrow> int \<Rightarrow> sentmsg list" where
  "unacknowledged st n =
     filter (\<lambda>x. case x of Sent_i k \<Rightarrow> n \<le> if_SendSeq (frame_objs st ! k) | Sent_u _ \<Rightarrow> True) (sentmsgs st)"

definition drop_tests :: "sentmsg list \<Rightarrow> sentmsg list" where
  "drop_tests xs = filter (\<lambda>x. x \<noteq> Sent_u 0x43) xs"

definition handle_u_frame :: "conf \<Rightarrow> scapy \<Rightarrow> packet \<Rightarrow> iec \<Rightarrow> unit handler" where
  "handle_u_frame cf sc frame st =
     bindH (liftH (sc_u_frame sc frame) st) (\<lambda>c st. caught_invalid (
       if length frame \<noteq> 6 then (st, Inl InvalidFieldValue)
       else bindH (liftH (num c ''LenAPDU'') st) (\<lambda>len st.
         if len \<noteq> 4 then (st, Inl InvalidFieldValue)
         else if \<not> (frame ! 3 = 0 \<and> frame ! 4 = 0 \<and> frame ! 5 = 0) then (st, Inl InvalidFieldValue)
         else if frame ! 2 = 0x07 then
           bindH (yields cf (Out_u STARTDT_con) (st\<lparr>allow_DT := True\<rparr>)) (\<lambda>_ st. yields_buffer cf (send_buffer st) st)
         else if frame ! 2 = 0x0B then (st, Inr ())
         else if frame ! 2 = 0x13 then
           bindH (yields cf Out_s (st\<lparr>allow_DT := False\<rparr>)) (\<lambda>_. yields cf (Out_u STOPDT_con))
         else if frame ! 2 = 0x23 then (st, Inr ())
         else if frame ! 2 = 0x43 then yields cf (Out_u TESTFR_con) (st\<lparr>sentmsgs := drop_tests (sentmsgs st)\<rparr>)
         else if frame ! 2 = 0x83 then (st\<lparr>sentmsgs := drop_tests (sentmsgs st)\<rparr>, Inr ())
         else (st, Inl InvalidFieldValue))))"

definition handle_s_frame :: "scapy \<Rightarrow> packet \<Rightarrow> iec \<Rightarrow> unit handler" where
  "handle_s_frame sc frame st =
     bindH (liftH (sc_s_frame sc frame) st) (\<lambda>c st. caught_invalid (
       if length frame \<noteq> 6 then (st, Inl InvalidFieldValue)
       else bindH (liftH (num c ''LenAPDU'') st) (\<lambda>len st.
         if len \<noteq> 4 then (st, Inl InvalidFieldValue)
         else if bit (frame ! 2) 0 \<and> frame ! 3 = 0 then
           bindH (liftH (num c ''RecvSeq'') st) (\<lambda>recv_snr st.
             let st = (if recv_snr \<le> ssn st then st\<lparr>ack := recv_snr\<rparr> else st)
             in (st\<lparr>sentmsgs := unacknowledged st (ack st)\<rparr>, Inr ()))
         else (st, Inl InvalidFieldValue))))"

text \<open>What a handler returns: nothing, a generator, or the octets of one packet.\<close>

datatype reply = No_reply | Generator "iec \<Rightarrow> unit handler" | Octets_of apdu

definition send_frame :: "conf \<Rightarrow> iec \<Rightarrow> reply handler" where
  "send_frame cf st =
     bindH (send_104frame cf Out_s st) (\<lambda>p st. case p of None \<Rightarrow> (st, Inr No_reply) | Some a \<Rightarrow> (st, Inr (Octets_of a)))"

definition sequence_error :: "conf \<Rightarrow> iec \<Rightarrow> reply handler" where
  "sequence_error cf st =
     (let st = disconnect (kill_t2 st) in if cf_spawn_none cf then (st, Inl TypeError) else send_frame cf st)"

text \<open>Counting and acknowledging; None goes on, Some returns at once.\<close>

definition receive_i_frame :: "conf \<Rightarrow> fields \<Rightarrow> nat \<Rightarrow> iec \<Rightarrow> reply option handler" where
  "receive_i_frame cf c len st =
     bindH (liftH (num c ''LenAPDU'') st) (\<lambda>n st.
       if n \<noteq> int len - 2 then (st, Inr None)
       else
         let st = st\<lparr>telegram_count := telegram_count st + 1\<rparr>
         in bindH (liftH (num c ''RecvSeq'') st) (\<lambda>recv_snr st.
            bindH (liftH (num c ''SendSeq'') st) (\<lambda>send_snr st.
              if send_snr \<noteq> rsn st then bindH (sequence_error cf st) (\<lambda>r st. (st, Inr (Some r)))
              else let st = recvseq_increment st
                   in (st\<lparr>sentmsgs := unacknowledged st recv_snr\<rparr>, Inr None))))"

definition dispatch_i_frame :: "conf \<Rightarrow> fields \<Rightarrow> iec \<Rightarrow> reply handler" where
  "dispatch_i_frame cf c st =
     bindH (liftH (num c ''TypeID'') st) (\<lambda>t st.
     bindH (liftH (num c ''COA'') st) (\<lambda>coa st.
       let own = (coa = common_address cf)
       in (st, Inr (
            if t = 45 \<and> own then Generator (handle_single_command45 cf c)
            else if t = 46 \<and> own then Generator (handle_double_command46 cf c)
            else if t = 49 \<and> own then Generator (handle_setpointscaled_command49 cf c)
            else if t = 50 \<and> own then Generator (handle_setpointfloatpoint_command50 cf c)
            else if t = 100 \<and> (own \<or> coa = 0xFFFF) then Generator (handle_inro_command100 cf c)
            else No_reply))))"

text \<open>The part after the try block: the timer, the window, and the handlers by type.\<close>

definition answer_i_frame :: "conf \<Rightarrow> fields \<Rightarrow> iec \<Rightarrow> reply handler" where
  "answer_i_frame cf c st =
     (let st = (if t2_caller st = No_greenlet then st\<lparr>t2_caller := Waiting\<rparr> else st)
      in if telegram_count st \<ge> cf_w cf then send_frame cf st else dispatch_i_frame cf c st)"

definition handle_i_frame :: "conf \<Rightarrow> scapy \<Rightarrow> packet \<Rightarrow> iec \<Rightarrow> reply handler" where
  "handle_i_frame cf sc frame st =
     bindH (liftH (sc_i_frame sc frame) st) (\<lambda>c st.
     bindH (receive_i_frame cf c (length frame) st) (\<lambda>r st.
       case r of Some reply \<Rightarrow> (st, Inr reply) | None \<Rightarrow> answer_i_frame cf c st))"

definition send_frame_imm :: "iec \<Rightarrow> iec" where
  "send_frame_imm st = st\<lparr>telegram_count := 0, sent := sent st @ [S_frame (rsn st)], t2_caller := No_greenlet\<rparr>"

section \<open>The server\<close>

text \<open>\<open>recv\<close> on the segments that arrive; no segment is empty, and nothing is read when the peer has closed.\<close>

fun recv :: "nat \<Rightarrow> packet list \<Rightarrow> packet \<times> packet list" where
  "recv n [] = ([], [])"
| "recv n (c # cs) = (take n c, if length c \<le> n then cs else drop n c # cs)"

text \<open>The first of the two loops does not test whether the peer has closed.\<close>

partial_function (option) read_head :: "packet \<Rightarrow> packet list \<Rightarrow> (packet \<times> packet list) option" where
  "read_head request cs =
     (if request \<noteq> [] \<and> length request < 2 then case recv 1 cs of (b, cs) \<Rightarrow> read_head (request @ b) cs
      else Some (request, cs))"

fun read_body :: "nat \<Rightarrow> packet \<Rightarrow> packet list \<Rightarrow> packet \<times> packet list" where
  "read_body 0 request cs = (request, cs)"
| "read_body (Suc missing) request cs =
     (case recv 1 cs of (b, cs) \<Rightarrow> if b = [] then (request, cs) else read_body missing (request @ b) cs)"

text \<open>The empty request is the end of the connection.\<close>

definition read_request :: "packet list \<Rightarrow> (packet \<times> packet list) option" where
  "read_request cs =
     (case recv 6 cs of
        (request, cs) \<Rightarrow>
          if request = [] then Some ([], cs)
          else case read_head request cs of
            None \<Rightarrow> None
          | Some (request, cs) \<Rightarrow> Some (read_body (unat (request ! 1) + 2 - length request) request cs))"

definition send_reply :: "conf \<Rightarrow> reply \<Rightarrow> iec \<Rightarrow> unit handler" where
  "send_reply cf r st =
     (case r of
        No_reply \<Rightarrow> (st, Inr ())
      | Generator g \<Rightarrow> g st
      | Octets_of a \<Rightarrow> (st, Inl (if sock_open st then TypeError else cf_closed cf)))"

definition handle_request :: "conf \<Rightarrow> scapy \<Rightarrow> packet \<Rightarrow> iec \<Rightarrow> unit handler" where
  "handle_request cf sc request st =
     (let r = dropWhile (\<lambda>x. x \<noteq> 0x68) request
      in if r = [] then (st, Inr ())
         else if length r < 3 then (st, Inl IndexError)
         else if \<not> bit (r ! 2) 0 then bindH (handle_i_frame cf sc r st) (send_reply cf)
         else if \<not> bit (r ! 2) 1 then handle_s_frame sc r st
         else handle_u_frame cf sc r st)"

datatype event = Request packet | Lost | T1 | T2 | T3 | Hub

datatype status = Open | Closed | Crashed py_exn

definition status_of :: "unit handler \<Rightarrow> iec \<times> status" where
  "status_of m = (case m of
     (st, Inr _) \<Rightarrow> (st, Open)
   | (st, Inl (OSError n)) \<Rightarrow> (disconnect st, Closed)
   | (st, Inl e) \<Rightarrow> (st, Crashed e))"

text \<open>A timer of \<open>T_1\<close> runs for every frame in \<open>sentmsgs\<close>; \<open>T_3\<close> ends a wait for data; \<open>Hub\<close> is a run of gevent's loop.\<close>

definition step :: "conf \<Rightarrow> scapy \<Rightarrow> event \<Rightarrow> iec \<Rightarrow> iec \<times> status" where
  "step cf sc e st =
     (case e of
        Request r \<Rightarrow> status_of (handle_request cf sc r st)
      | Lost \<Rightarrow> (disconnect st, Closed)
      | T1 \<Rightarrow> if sentmsgs st = [] then (st, Open) else (disconnect st, Closed)
      | T2 \<Rightarrow> if t2_caller st = Waiting then (send_frame_imm st, Open) else (st, Open)
      | T3 \<Rightarrow> status_of (yields cf (Out_u TESTFR_act) st)
      | Hub \<Rightarrow> (if t2_caller st = Killed then st\<lparr>t2_caller := No_greenlet\<rparr> else st, Open))"

fun run :: "conf \<Rightarrow> scapy \<Rightarrow> event list \<Rightarrow> iec \<Rightarrow> iec \<times> status" where
  "run cf sc [] st = (st, Open)"
| "run cf sc (e # es) st = (case step cf sc e st of (st, Open) \<Rightarrow> run cf sc es st | r \<Rightarrow> r)"

end
