(* ===== verification/Iec104Facts.thy ===== *)
theory Iec104Facts
  imports Iec104 PyInt
begin

text \<open>
  What is proved of the IEC 104 station: addresses, the reading of requests, the sequence numbers and the phases of a
  connection, the answers to commands and to an interrogation, and what happens when frames have to be acknowledged.
\<close>

section \<open>Addresses\<close>

definition address :: "nat \<Rightarrow> nat \<Rightarrow> string" where
  "address a b = show_nat a @ ''_'' @ show_nat b"

lemma py_int_show_nat: "n < 10 ^ 9 \<Longrightarrow> py_int (show_nat n) = Inr (int n)"
  using py_int_show [of "int n"] short_small [of "int n"] by (simp add: show_int_def)

lemma split_address: "split_on CHR ''_'' (address a b) = [show_nat a, show_nat b]"
proof -
  have "CHR ''_'' \<notin> set (show_nat n)" for n using show_nat_dec [of "CHR ''_''" n] dec_not_special [of "CHR ''_''"] by auto
  then show ?thesis
    using split_on_join [of "[show_nat a, show_nat b]" "CHR ''_''"] by (simp add: address_def)
qed

lemma format_hex_digits: "0 < k \<Longrightarrow> n < 16 ^ k \<Longrightarrow> format_hex k (int n) = hex_digits k n"
  by (simp add: format_hex_def zfill_hex)

lemma format_hex_prefix_digits: "0 < k \<Longrightarrow> n < 16 ^ k \<Longrightarrow> format_hex_prefix (k + 2) (int n) = ''0x'' @ hex_digits k n"
  by (simp add: format_hex_prefix_def zfill_hex)

lemma hex_digit_not_x: "n < 16 \<Longrightarrow> hex_digit_of n \<noteq> CHR ''x''"
  using hex_digit_val_of [of n] by (auto simp: hex_digit_val_def code_def)

lemma hex_value_digits_from:
  "\<forall>d \<in> set ds. d < 16 \<Longrightarrow> hex_value_from a (map hex_digit_of ds) = Some (foldl (\<lambda>v d. 16 * v + d) a ds)"
  by (induction ds arbitrary: a) auto

lemma int_base16_digits:
  assumes "\<forall>d \<in> set ds. d < 16" and "ds \<noteq> []"
  shows "int_base16 (map hex_digit_of ds) = Inr (int (foldl (\<lambda>v d. 16 * v + d) 0 ds))"
proof -
  have "take 2 (map hex_digit_of ds) \<noteq> ''0x''"
    using assms(1) hex_digit_not_x by (cases ds; cases "tl ds") auto
  with assms show ?thesis by (simp add: int_base16_def hex_value_digits_from del: hex_value_from.simps)
qed

lemma int_base16_prefixed:
  assumes "\<forall>d \<in> set ds. d < 16" and "ds \<noteq> []"
  shows "int_base16 (''0x'' @ map hex_digit_of ds) = Inr (int (foldl (\<lambda>v d. 16 * v + d) 0 ds))"
  using assms by (simp add: int_base16_def hex_value_digits_from)

lemma hex_digits_few:
  "hex_digits 2 n = map hex_digit_of [n div 16 mod 16, n mod 16]"
  "hex_digits 4 n = map hex_digit_of [n div 16 div 16 div 16 mod 16, n div 16 div 16 mod 16, n div 16 mod 16, n mod 16]"
  "hex_digits 6 n = map hex_digit_of [n div 16 div 16 div 16 div 16 div 16 mod 16, n div 16 div 16 div 16 div 16 mod 16,
     n div 16 div 16 div 16 mod 16, n div 16 div 16 mod 16, n div 16 mod 16, n mod 16]"
proof -
  have n: "(2::nat) = Suc (Suc 0)" "(4::nat) = Suc (Suc (Suc (Suc 0)))" "(6::nat) = Suc (Suc (Suc (Suc (Suc (Suc 0)))))"
    by simp_all
  show "hex_digits 2 n = map hex_digit_of [n div 16 mod 16, n mod 16]"
    unfolding n(1) by (simp only: hex_digits.simps append.simps list.map)
  show "hex_digits 4 n = map hex_digit_of [n div 16 div 16 div 16 mod 16, n div 16 div 16 mod 16, n div 16 mod 16, n mod 16]"
    unfolding n(2) by (simp only: hex_digits.simps append.simps list.map)
  show "hex_digits 6 n = map hex_digit_of [n div 16 div 16 div 16 div 16 div 16 mod 16, n div 16 div 16 div 16 div 16 mod 16,
     n div 16 div 16 div 16 mod 16, n div 16 div 16 mod 16, n div 16 mod 16, n mod 16]"
    unfolding n(3) by (simp only: hex_digits.simps append.simps list.map)
qed

text \<open>The number of an address of template names: one octet of \<open>b\<close>, then the low and the high octet of \<open>a\<close>.\<close>

definition address_number :: "nat \<Rightarrow> nat \<Rightarrow> nat" where
  "address_number a b = b * 65536 + a mod 256 * 256 + a div 256"

lemma hex_pair:
  fixes n :: nat
  assumes "n < 256"
  shows "16 * (n div 16 mod 16) + n mod 16 = n"
proof -
  have "n div 16 < 16" using assms by (simp add: less_mult_imp_div_less)
  then show ?thesis using mult_div_mod_eq [of 16 n] by simp
qed

lemma nibbles:
  fixes u v :: nat
  assumes "v < 256"
  shows "(u * 256 + v) div 16 div 16 = u" "(u * 256 + v) div 16 mod 16 = v div 16 mod 16" "(u * 256 + v) mod 16 = v mod 16"
proof -
  have e: "u * 256 + v = v + u * 16 * 16" by simp
  have d: "(u * 256 + v) div 16 = v div 16 + u * 16" unfolding e by (subst div_mult_self1) simp_all
  have "v div 16 < 16" using assms by (simp add: less_mult_imp_div_less)
  then show "(u * 256 + v) div 16 div 16 = u" unfolding d by simp
  show "(u * 256 + v) div 16 mod 16 = v div 16 mod 16" unfolding d by simp
  show "(u * 256 + v) mod 16 = v mod 16" unfolding e by (rule mod_mult_self1)
qed

lemma addr_in_hex_address:
  assumes "a < 65536" and "b < 256"
  shows "addr_in_hex (address a b) = Inr (int (address_number a b))"
proof -
  define u v where "u = a div 256" and "v = a mod 256"
  have uv: "u * 256 + v = a" "v < 256" "u < 256" using assms by (simp_all add: u_def v_def less_mult_imp_div_less)
  note a = nibbles [OF uv(2), of u, unfolded uv(1)]
  have f4: "format_hex 4 (int a) = map hex_digit_of [u div 16 mod 16, u mod 16, v div 16 mod 16, v mod 16]"
    using assms(1) format_hex_digits [of 4 a] by (simp add: hex_digits_few(2) a)
  have f2: "format_hex_prefix 4 (int b) = ''0x'' @ map hex_digit_of [b div 16 mod 16, b mod 16]"
    using assms(2) format_hex_prefix_digits [of 2 b] by (simp add: hex_digits_few(1))
  let ?ds = "[b div 16 mod 16, b mod 16, v div 16 mod 16, v mod 16, u div 16 mod 16, u mod 16]"
  have "addr_in_hex (address a b) = int_base16 (''0x'' @ map hex_digit_of ?ds)"
    using assms by (simp add: addr_in_hex_def split_address py_int_show_nat f4 f2 Let_def)
  also have "\<dots> = Inr (int (foldl (\<lambda>v d. 16 * v + d) 0 ?ds))"
    by (rule int_base16_prefixed) simp_all
  also have "foldl (\<lambda>v d. 16 * v + d) 0 ?ds = b * 65536 + v * 256 + u"
    using hex_pair [OF assms(2)] hex_pair [OF uv(2)] hex_pair [OF uv(3)] by simp
  finally show ?thesis by (simp add: address_number_def u_def v_def)
qed

lemma hex_in_addr_number:
  assumes "a < 65536" and "b < 256"
  shows "hex_in_addr (int (address_number a b)) = Inr (address a b)"
proof -
  define u v n where "u = a div 256" and "v = a mod 256" and "n = address_number a b"
  have n: "n = (b * 256 + v) * 256 + u" "u < 256" "v < 256"
    using assms by (simp_all add: n_def address_number_def u_def v_def less_mult_imp_div_less)
  have a: "u * 256 + v = a" by (simp add: u_def v_def)
  have d: "n div 16 div 16 div 16 div 16 div 16 mod 16 = b div 16 mod 16" "n div 16 div 16 div 16 div 16 mod 16 = b mod 16"
    "n div 16 div 16 div 16 mod 16 = v div 16 mod 16" "n div 16 div 16 mod 16 = v mod 16" "n div 16 mod 16 = u div 16 mod 16" "n mod 16 = u mod 16"
    unfolding n(1) by (simp_all only: nibbles [OF n(2)] nibbles [OF n(3)])
  have "n < 16 ^ 6" using n assms(2) by simp
  then have f: "format_hex_prefix 8 (int n) =
      ''0x'' @ map hex_digit_of [b div 16 mod 16, b mod 16, v div 16 mod 16, v mod 16, u div 16 mod 16, u mod 16]"
    using format_hex_prefix_digits [of 6 n] by (simp add: hex_digits_few(3) d)
  have h: "int_base16 (map hex_digit_of [u div 16 mod 16, u mod 16, v div 16 mod 16, v mod 16]) = Inr (int a)"
    using hex_pair [OF n(2)] hex_pair [OF n(3)] a n(2,3)
    by (subst int_base16_digits) (simp_all add: less_mult_imp_div_less)
  have l: "int_base16 (map hex_digit_of [b div 16 mod 16, b mod 16]) = Inr (int b)"
    using hex_pair [OF assms(2)] by (subst int_base16_digits) simp_all
  show ?thesis using h l by (simp add: hex_in_addr_def f n_def [symmetric] Let_def address_def)
qed

text \<open>Every address a template may name has a number, and that number stands for the address again.\<close>

theorem address_roundtrip:
  assumes "a \<le> 65535" and "b \<le> 255"
  shows "bindE (addr_in_hex (show_nat a @ ''_'' @ show_nat b)) hex_in_addr = Inr (show_nat a @ ''_'' @ show_nat b)"
  using addr_in_hex_address [of a b] hex_in_addr_number [of a b] assms by (simp add: address_def)

theorem address_roundtrip_witness: "bindE (addr_in_hex ''13_20'') hex_in_addr = Inr ''13_20''"
proof -
  have "show_nat 13 = ''13''" "show_nat 20 = ''20''" by code_simp+
  then show ?thesis using address_roundtrip [of 13 20] by simp
qed

section \<open>Reading requests\<close>

lemma read_head_long [simp]: "2 \<le> length request \<Longrightarrow> read_head request cs = Some (request, cs)"
  by (subst read_head.simps) simp

text \<open>A peer that sends one octet and closes keeps the station in the first loop for ever.\<close>

lemma read_head_never: "read_head request cs = Some r \<Longrightarrow> \<not> (length request = 1 \<and> cs = [])"
proof (induction rule: read_head.raw_induct [rotated, consumes 1, case_names step])
  case (step f request cs r)
  show ?case
  proof
    assume *: "length request = 1 \<and> cs = []"
    with step(2) have "f request [] = Some r" by (cases request) simp_all
    from step(1) [OF this] * show False by simp
  qed
qed

text \<open>C0. A peer that sends a single octet and closes its side is never left: the loop that waits for the second octet reads
  nothing, again and again, and no other greenlet gets a turn.\<close>

theorem lone_octet_hangs: "read_request [[x]] = None"
proof -
  have "read_head [x] [] = None" using read_head_never [of "[x]" "[]"] by (cases "read_head [x] []") auto
  then show ?thesis by (simp add: read_request_def)
qed

text \<open>Reading a given number of requests.\<close>

primrec read_requests :: "nat \<Rightarrow> packet list \<Rightarrow> (packet list \<times> packet list) option" where
  "read_requests 0 cs = Some ([], cs)"
| "read_requests (Suc n) cs =
     (case read_request cs of
        None \<Rightarrow> None
      | Some (r, cs) \<Rightarrow> (case read_requests n cs of None \<Rightarrow> None | Some (rs, cs) \<Rightarrow> Some (r # rs, cs)))"

definition nonempty :: "packet list \<Rightarrow> bool" where
  "nonempty cs \<longleftrightarrow> [] \<notin> set cs"

lemma nonempty_simps [simp]: "nonempty []" "nonempty (c # cs) \<longleftrightarrow> c \<noteq> [] \<and> nonempty cs"
  by (auto simp: nonempty_def)

lemma recv_content: "recv n cs = (b, cs') \<Longrightarrow> b @ concat cs' = concat cs"
  by (cases cs) (auto split: if_splits)

lemma recv_bounds: "recv n cs = (b, cs') \<Longrightarrow> length b \<le> n"
  by (cases cs) auto

lemma recv_nonempty: "recv n cs = (b, cs') \<Longrightarrow> nonempty cs \<Longrightarrow> nonempty cs'"
  by (cases cs) (auto split: if_splits)

lemma recv_some: "recv n cs = (b, cs') \<Longrightarrow> nonempty cs \<Longrightarrow> concat cs \<noteq> [] \<Longrightarrow> 0 < n \<Longrightarrow> b \<noteq> []"
  by (cases cs) (auto split: if_splits)

lemma recv_1:
  assumes "nonempty cs" and "concat cs = x # xs"
  obtains cs' where "recv 1 cs = ([x], cs')" "nonempty cs'" "concat cs' = xs"
proof -
  obtain b cs' where r: "recv 1 cs = (b, cs')" by (cases "recv 1 cs") auto
  have "b \<noteq> []" "length b \<le> 1" using recv_some [OF r assms(1)] recv_bounds [OF r] assms(2) by auto
  then obtain y where "b = [y]" by (cases b) auto
  with recv_content [OF r] assms(2) recv_nonempty [OF r assms(1)] r that show thesis by auto
qed

lemma read_body_exact:
  assumes "nonempty cs" and "concat cs = body @ rest"
  shows "\<exists>cs'. read_body (length body) request cs = (request @ body, cs') \<and> nonempty cs' \<and> concat cs' = rest"
  using assms
proof (induction body arbitrary: request cs)
  case Nil
  then show ?case by simp
next
  case (Cons x xs)
  obtain cs' where "recv 1 cs = ([x], cs')" "nonempty cs'" "concat cs' = xs @ rest"
    using recv_1 [OF Cons.prems(1), of x "xs @ rest"] Cons.prems(2) by auto
  with Cons.IH [of cs' "request @ [x]"] show ?case by simp
qed

text \<open>A frame as a peer sends it: its second octet counts what follows, which is four octets or more.\<close>

definition framed :: "packet \<Rightarrow> bool" where
  "framed f \<longleftrightarrow> 6 \<le> length f \<and> length f = unat (f ! 1) + 2"

lemma read_request_frame:
  assumes "nonempty cs" and "concat cs = f @ rest" and "framed f"
  shows "\<exists>cs'. read_request cs = Some (f, cs') \<and> nonempty cs' \<and> concat cs' = rest"
proof -
  have len: "6 \<le> length f" "length f = unat (f ! 1) + 2" using assms(3) by (auto simp: framed_def)
  obtain b ds where r: "recv 6 cs = (b, ds)" by (cases "recv 6 cs") auto
  have "concat cs \<noteq> []" using assms(2) len(1) by auto
  then have b: "b \<noteq> []" "length b \<le> 6" using recv_some [OF r assms(1)] recv_bounds [OF r] by simp_all
  have ds: "nonempty ds" "b @ concat ds = f @ rest" using recv_nonempty [OF r assms(1)] recv_content [OF r] assms(2) by auto
  obtain g where f: "f = b @ g" and g: "concat ds = g @ rest"
  proof -
    from ds(2) [unfolded append_eq_append_conv2] consider us where "b = f @ us" "us @ concat ds = rest" | us where "b @ us = f" "concat ds = us @ rest"
      by auto
    then show thesis
    proof cases
      case 1
      then have "length b = length f + length us" by simp
      with b(2) len(1) have "length us = 0" by linarith
      then have "us = []" by simp
      with 1 that [of "[]"] show thesis by simp
    next
      case 2
      with that [of us] show thesis by simp
    qed
  qed
  show ?thesis
  proof (cases "length b < 2")
    case False
    then have "f ! 1 = b ! 1" using f by (simp add: nth_append)
    then have "unat (b ! 1) + 2 - length b = length g" using f len(2) by simp
    with read_body_exact [OF ds(1) g, of b] f r b(1) False show ?thesis by (auto simp: read_request_def)
  next
    case True
    with b(1) have b1: "length b = 1" by (cases b) auto
    with f len(1) obtain x h where h: "g = x # h" by (cases g) auto
    obtain es where es: "recv 1 ds = ([x], es)" "nonempty es" "concat es = h @ rest"
      using recv_1 [OF ds(1), of x "h @ rest"] g h by auto
    have "read_head b ds = Some (b @ [x], es)"
      using b1 b(1) es(1) by (subst read_head.simps) simp
    moreover have "unat ((b @ [x]) ! 1) + 2 - length (b @ [x]) = length h"
      using f h len(2) b1 by (simp add: nth_append)
    ultimately show ?thesis using read_body_exact [OF es(2,3), of "b @ [x]"] f h r b(1) by (auto simp: read_request_def)
  qed
qed

text \<open>C28. However the stream of a peer is cut into segments, the requests that are read are the frames it sent.\<close>

theorem framing_independent:
  assumes "\<forall>f \<in> set fs. 6 \<le> length f \<and> length f = unat (f ! 1) + 2" and "[] \<notin> set segments" and "concat segments = concat fs"
  shows "\<exists>rest. read_requests (length fs) segments = Some (fs, rest)"
proof -
  have "\<forall>f \<in> set fs. framed f" "nonempty segments" using assms(1,2) unfolding framed_def nonempty_def by blast+
  then show ?thesis using assms(3)
  proof (induction fs arbitrary: segments)
    case Nil
    then show ?case by simp
  next
    case (Cons f fs)
    obtain ds where "read_request segments = Some (f, ds)" "nonempty ds" "concat ds = concat fs"
      using read_request_frame [of segments f "concat fs"] Cons.prems by auto
    with Cons.IH [of ds] Cons.prems(1) show ?case by auto
  qed
qed

theorem framing_independent_witness:
  "\<exists>rest. read_requests (Suc (Suc 0)) [[0x68], [4, 0x07, 0], [0, 0, 0x68, 4, 0x43, 0, 0], [0]] =
    Some ([[0x68, 4, 0x07, 0, 0, 0], [0x68, 4, 0x43, 0, 0, 0]], rest)"
  using framing_independent [of "[[0x68, 4, 0x07, 0, 0, 0], [0x68, 4, 0x43, 0, 0, 0]]" "[[0x68], [4, 0x07, 0], [0, 0, 0x68, 4, 0x43, 0, 0], [0]]"]
  by (simp del: read_requests.simps)

section \<open>Invariants of a connection\<close>

text \<open>The exceptions some handler catches; any other ends the connection.\<close>

definition fatal :: "'a result \<Rightarrow> bool" where
  "fatal r \<longleftrightarrow> (\<exists>e. r = Inl e \<and> e \<noteq> InvalidFieldValue \<and> e \<noteq> AttributeError)"

lemma fatal_simps [simp]:
  "\<not> fatal (Inr v)" "fatal (Inl e) \<longleftrightarrow> e \<noteq> InvalidFieldValue \<and> e \<noteq> AttributeError"
  by (simp_all add: fatal_def)

text \<open>A handler keeps a property of the state as long as the socket is open; a weaker one remains when it ends the connection.\<close>

definition keeps :: "(iec \<Rightarrow> bool) \<Rightarrow> (iec \<Rightarrow> bool) \<Rightarrow> (iec \<Rightarrow> 'a handler) \<Rightarrow> bool" where
  "keeps W I h \<longleftrightarrow> (\<forall>st. I st \<longrightarrow> sock_open st \<longrightarrow>
     (W (fst (h st)) \<or> I (fst (h st))) \<and> (\<not> fatal (snd (h st)) \<longrightarrow> I (fst (h st)) \<and> sock_open (fst (h st))))"

named_theorems keeps_intros \<open>rules that split the claim that a handler keeps a property\<close>

lemma keepsD: "keeps W I h \<Longrightarrow> I st \<Longrightarrow> sock_open st \<Longrightarrow>
    (W (fst (h st)) \<or> I (fst (h st))) \<and> (\<not> fatal (snd (h st)) \<longrightarrow> I (fst (h st)) \<and> sock_open (fst (h st)))"
  by (simp add: keeps_def)

lemma keeps_total: "(\<And>st. I st \<Longrightarrow> sock_open st \<Longrightarrow> I (fst (h st)) \<and> sock_open (fst (h st))) \<Longrightarrow> keeps W I h"
  by (simp add: keeps_def)

lemma keeps_bind [keeps_intros]:
  assumes h: "keeps W I h" and f: "\<And>v. keeps W I (f v)"
  shows "keeps W I (\<lambda>st. bindH (h st) f)"
  unfolding keeps_def
proof (intro allI impI)
  fix st assume st: "I st" "sock_open st"
  obtain t r where hst: "h st = (t, r)" by (cases "h st")
  show "(W (fst (bindH (h st) f)) \<or> I (fst (bindH (h st) f))) \<and>
    (\<not> fatal (snd (bindH (h st) f)) \<longrightarrow> I (fst (bindH (h st) f)) \<and> sock_open (fst (bindH (h st) f)))"
    using keepsD [OF h st] hst keepsD [OF f, of t] by (cases r) auto
qed

lemma keeps_lift [keeps_intros]: "keeps W I (\<lambda>st. liftH (r st) st)"
  by (simp add: keeps_def liftH_def)

lemma keeps_return [keeps_intros]: "keeps W I (\<lambda>st. (st, r st))"
  by (simp add: keeps_def)

lemma keeps_if [keeps_intros]: "keeps W I h \<Longrightarrow> keeps W I g \<Longrightarrow> keeps W I (\<lambda>st. if c st then h st else g st)"
  by (simp add: keeps_def)

lemma keeps_option [keeps_intros]:
  "keeps W I h \<Longrightarrow> (\<And>x. keeps W I (g x)) \<Longrightarrow> keeps W I (\<lambda>st. case p st of None \<Rightarrow> h st | Some x \<Rightarrow> g x st)"
  by (simp add: keeps_def split: option.splits)

lemma keeps_let:
  assumes "\<And>st. I st \<Longrightarrow> sock_open st \<Longrightarrow> I (u st) \<and> sock_open (u st)" and "keeps W I h"
  shows "keeps W I (\<lambda>st. h (u st))"
  unfolding keeps_def using keepsD [OF assms(2) conjunct1 [OF assms(1)] conjunct2 [OF assms(1)]] by blast

lemma keeps_caught [keeps_intros]:
  assumes "keeps W I h"
  shows "keeps W I (\<lambda>st. caught (h st))"
  unfolding keeps_def
proof (intro allI impI)
  fix st assume st: "I st" "sock_open st"
  obtain t r where hst: "h st = (t, r)" by (cases "h st")
  show "(W (fst (caught (h st))) \<or> I (fst (caught (h st)))) \<and>
    (\<not> fatal (snd (caught (h st))) \<longrightarrow> I (fst (caught (h st))) \<and> sock_open (fst (caught (h st))))"
    using keepsD [OF assms st] hst by (cases r) (auto simp: caught_def)
qed

lemma keeps_caught_invalid [keeps_intros]:
  assumes "keeps W I h"
  shows "keeps W I (\<lambda>st. caught_invalid (h st))"
  unfolding keeps_def
proof (intro allI impI)
  fix st assume st: "I st" "sock_open st"
  obtain t r where hst: "h st = (t, r)" by (cases "h st")
  show "(W (fst (caught_invalid (h st))) \<or> I (fst (caught_invalid (h st)))) \<and>
    (\<not> fatal (snd (caught_invalid (h st))) \<longrightarrow> I (fst (caught_invalid (h st))) \<and> sock_open (fst (caught_invalid (h st))))"
    using keepsD [OF assms st] hst by (cases r) (auto simp: caught_invalid_def)
qed

lemma sock_open_simps [simp]:
  "sock_open (kill_t2 st) = sock_open st" "sock_open (increment_sendseq st) = sock_open st"
  "sock_open (recvseq_increment st) = sock_open st" "sock_open (send_frame_imm st) = sock_open st"
  by (simp_all add: kill_t2_def increment_sendseq_def recvseq_increment_def send_frame_imm_def)

lemma sock_open_yields [simp]: "sock_open (fst (yields cf out st)) = sock_open st"
  by (auto simp: yields_def send_104frame_def Let_def bindH_def split: outgoing.splits sum.splits option.splits)

text \<open>Only a data frame can fail to be built, and what that raises is not caught by a handler.\<close>

lemma yields_control: "out = Out_s \<or> (\<exists>t. out = Out_u t) \<Longrightarrow> snd (yields cf out st) = Inr ()"
  by (auto simp: yields_def send_104frame_def)

lemma bindH_yields: "out = Out_s \<or> (\<exists>t. out = Out_u t) \<Longrightarrow> bindH (yields cf out st) f = f () (fst (yields cf out st))"
  using yields_control [of out cf st] by (cases "yields cf out st") simp

lemma send_reply_Generator: "send_reply cf (Generator g) = g"
  by (rule ext) (simp add: send_reply_def)

text \<open>What is to be shown of a property: everything a handler does to the state, with the packets it sends.\<close>

locale connection_invariant =
  fixes W I :: "iec \<Rightarrow> bool"
  assumes weaker: "I st \<Longrightarrow> W st"
    and yields: "I st \<Longrightarrow> sock_open st \<Longrightarrow> out \<noteq> Out_u STARTDT_con \<Longrightarrow> out \<noteq> Out_u STOPDT_con \<Longrightarrow>
      W (fst (yields cf out st)) \<and> (\<not> fatal (snd (yields cf out st)) \<longrightarrow> I (fst (yields cf out st)))"
    and started: "I st \<Longrightarrow> sock_open st \<Longrightarrow> I (fst (yields cf (Out_u STARTDT_con) (st\<lparr>allow_DT := True\<rparr>)))"
    and stopped: "I st \<Longrightarrow> sock_open st \<Longrightarrow>
      I (fst (yields cf (Out_u STOPDT_con) (fst (yields cf Out_s (st\<lparr>allow_DT := False\<rparr>)))))"
    and frames: "I st \<Longrightarrow> I (st\<lparr>frame_objs := frame_objs st @ [f]\<rparr>)"
    and registers: "I st \<Longrightarrow> I (st\<lparr>regs := r\<rparr>)"
    and sent_list: "I st \<Longrightarrow> I (st\<lparr>sentmsgs := xs\<rparr>)"
    and acked: "I st \<Longrightarrow> I (st\<lparr>ack := n\<rparr>)"
    and counted: "I st \<Longrightarrow> I (st\<lparr>telegram_count := n\<rparr>)"
    and timer: "I st \<Longrightarrow> I (st\<lparr>t2_caller := g\<rparr>)"
    and received: "I st \<Longrightarrow> sock_open st \<Longrightarrow> I (recvseq_increment st)"
    and acknowledges: "I st \<Longrightarrow> sock_open st \<Longrightarrow> I (send_frame_imm st)"
    and closes: "I st \<Longrightarrow> I (disconnect st)"
    and closes_weak: "W st \<Longrightarrow> W (disconnect st)"
begin

lemma keeps_yields: "out \<noteq> Out_u STARTDT_con \<Longrightarrow> out \<noteq> Out_u STOPDT_con \<Longrightarrow> keeps W I (yields cf out)"
  by (simp add: keeps_def yields)

lemma keeps_yields_new [keeps_intros]: "keeps W I (yields_new cf f)"
proof -
  have "W (fst (yields_new cf f st)) \<and> (\<not> fatal (snd (yields_new cf f st)) \<longrightarrow> I (fst (yields_new cf f st)))"
    if "I st" "sock_open st" for st
    unfolding yields_new_def by (rule yields) (use that frames in simp_all)
  moreover have "sock_open (fst (yields_new cf f st)) = sock_open st" for st by (simp add: yields_new_def)
  ultimately show ?thesis by (simp add: keeps_def)
qed

lemma keeps_yields_all [keeps_intros]: "keeps W I (yields_all cf fs)"
  by (induction fs) (simp_all add: keeps_return keeps_bind keeps_yields_new)

lemma keeps_yields_buffer: "keeps W I (yields_buffer cf ks)"
  by (induction ks) (simp_all add: keeps_return keeps_bind keeps_yields)

lemma keeps_checked [keeps_intros]: "keeps W I (checked check cf f)"
  unfolding checked_def by (intro keeps_intros)

lemma keeps_report [keeps_intros]: "keeps W I (report_related cf report obj v)"
  unfolding report_related_def Let_def
  by (intro keeps_intros keeps_let [where h = "yields_new cf f" for f])
    (auto simp: keeps_def registers intro!: registers)

lemma keeps_command [keeps_intros]: "keeps W I (handle_command check t field report cf c)"
  unfolding handle_command_def Let_def by (intro keeps_intros)

lemma keeps_inro [keeps_intros]: "keeps W I (handle_inro_command100 cf c)"
  unfolding handle_inro_command100_def Let_def by (intro keeps_intros)

lemma kill: "I st \<Longrightarrow> I (kill_t2 st)"
  by (simp add: kill_t2_def timer)

lemma keeps_u_frame: "keeps W I (handle_u_frame cf sc frame)"
proof -
  have start: "keeps W I (\<lambda>st. yields cf (Out_u STARTDT_con) (st\<lparr>allow_DT := True\<rparr>))"
    by (simp add: keeps_def started)
  have buffer: "keeps W I (\<lambda>st. yields_buffer cf (send_buffer st) st)"
    using keeps_yields_buffer by (simp add: keeps_def)
  have stop: "keeps W I (\<lambda>st. bindH (yields cf Out_s (st\<lparr>allow_DT := False\<rparr>)) (\<lambda>_. yields cf (Out_u STOPDT_con)))"
    by (simp add: keeps_def bindH_yields stopped)
  have test: "keeps W I (\<lambda>st. yields cf (Out_u TESTFR_con) (st\<lparr>sentmsgs := drop_tests (sentmsgs st)\<rparr>))"
    by (simp add: keeps_def TESTFR_con_def STARTDT_con_def STOPDT_con_def yields sent_list)
  have drop: "keeps W I (\<lambda>st. (st\<lparr>sentmsgs := drop_tests (sentmsgs st)\<rparr>, Inr ()))"
    by (simp add: keeps_def sent_list)
  show ?thesis
    unfolding handle_u_frame_def by (intro keeps_intros start buffer stop test drop)
qed

lemma keeps_s_frame: "keeps W I (handle_s_frame sc frame)"
proof -
  have "keeps W I (\<lambda>st. let st = (if n \<le> ssn st then st\<lparr>ack := n\<rparr> else st)
      in (st\<lparr>sentmsgs := unacknowledged st (ack st)\<rparr>, Inr ()))" for n
    by (simp add: keeps_def Let_def sent_list acked)
  then show ?thesis unfolding handle_s_frame_def by (intro keeps_intros) auto
qed

lemma send_frame_inv: "I st \<Longrightarrow> I (fst (send_frame cf st))"
  by (simp add: send_frame_def send_104frame_def counted kill)

lemma receive_inv:
  assumes "I st" and "sock_open st"
  shows "I (fst (receive_i_frame cf c len st)) \<and> (snd (receive_i_frame cf c len st) = Inr None \<longrightarrow> sock_open (fst (receive_i_frame cf c len st)))
    \<and> (\<forall>r. snd (receive_i_frame cf c len st) = Inr (Some r) \<longrightarrow> (\<exists>a. r = Octets_of a))"
  using assms send_frame_inv [OF closes [OF kill]]
  by (auto simp: receive_i_frame_def sequence_error_def liftH_def bindH_def Let_def counted sent_list received closes kill
      send_frame_def send_104frame_def recvseq_increment_def [symmetric] split: prod.splits sum.splits)

lemma keeps_no_reply: "keeps W I (send_reply cf No_reply)"
  by (simp add: keeps_def send_reply_def)

lemma dispatch_inv:
  "fst (dispatch_i_frame cf c st) = st"
  "snd (dispatch_i_frame cf c st) = Inr r \<Longrightarrow> keeps W I (send_reply cf r)"
  by (auto simp: dispatch_i_frame_def liftH_def bindH_def Let_def send_reply_Generator handle_single_command45_def
      handle_double_command46_def handle_setpointscaled_command49_def handle_setpointfloatpoint_command50_def
      split: prod.splits sum.splits if_splits intro: keeps_intros keeps_no_reply)

lemma answer_inv:
  assumes "I st" and "sock_open st"
  shows "I (fst (answer_i_frame cf c st))"
    and "snd (answer_i_frame cf c st) = Inr r \<Longrightarrow>
      (\<exists>a. r = Octets_of a) \<or> sock_open (fst (answer_i_frame cf c st)) \<and> keeps W I (send_reply cf r)"
  using assms by (auto simp: answer_i_frame_def Let_def dispatch_inv timer send_frame_inv)
    (auto simp: send_frame_def send_104frame_def)

lemma i_frame_inv:
  assumes "I st" and "sock_open st"
  shows "I (fst (handle_i_frame cf sc frame st)) \<and> (\<forall>r. snd (handle_i_frame cf sc frame st) = Inr r \<longrightarrow>
      (\<exists>a. r = Octets_of a) \<or> sock_open (fst (handle_i_frame cf sc frame st)) \<and> keeps W I (send_reply cf r))"
proof (cases "sc_i_frame sc frame")
  case (Inr c)
  obtain st' x where r: "receive_i_frame cf c (length frame) st = (st', x)" by (cases "receive_i_frame cf c (length frame) st") auto
  with receive_inv [OF assms, of cf c "length frame"] answer_inv [of st' cf c] Inr show ?thesis
    by (cases x) (auto simp: handle_i_frame_def liftH_def split: option.splits)
qed (use assms in \<open>simp add: handle_i_frame_def liftH_def\<close>)

text \<open>A request keeps the property, and the socket is open unless the handler has failed.\<close>

lemma keepsW:
  assumes "keeps W I h" and "I st" and "sock_open st"
  shows "W (fst (h st)) \<and> (\<forall>v. snd (h st) = Inr v \<longrightarrow> I (fst (h st)) \<and> sock_open (fst (h st)))"
  using keepsD [OF assms] weaker by (auto simp: fatal_def)

lemma request_inv:
  assumes "I st" and "sock_open st"
  shows "W (fst (handle_request cf sc r st)) \<and>
    (\<forall>v. snd (handle_request cf sc r st) = Inr v \<longrightarrow>
      I (fst (handle_request cf sc r st)) \<and> sock_open (fst (handle_request cf sc r st)))"
proof -
  let ?r = "dropWhile (\<lambda>x. x \<noteq> 0x68) r"
  let ?h = "bindH (handle_i_frame cf sc ?r st) (send_reply cf)"
  obtain st' x where i: "handle_i_frame cf sc ?r st = (st', x)" by (cases "handle_i_frame cf sc ?r st") auto
  have "W (fst ?h) \<and> (\<forall>v. snd ?h = Inr v \<longrightarrow> I (fst ?h) \<and> sock_open (fst ?h))"
  proof (cases x)
    case (Inl e)
    with i i_frame_inv [OF assms, of cf sc ?r] show ?thesis by (simp add: weaker)
  next
    case (Inr y)
    then have "I st'" and "(\<exists>a. y = Octets_of a) \<or> sock_open st' \<and> keeps W I (send_reply cf y)"
      using i i_frame_inv [OF assms, of cf sc ?r] by auto
    then show ?thesis
      using i Inr keepsW [of "send_reply cf y" st'] weaker [of st'] by (auto simp: send_reply_def [of _ "Octets_of _"])
  qed
  moreover note keepsW [OF keeps_s_frame assms, of sc ?r] keepsW [OF keeps_u_frame assms, of cf sc ?r]
  ultimately show ?thesis using assms weaker by (auto simp: handle_request_def Let_def)
qed

lemma step_inv:
  assumes "I st" and "sock_open st" and "step cf sc e st = (st', s)"
  shows "W st' \<and> (s = Open \<longrightarrow> I st' \<and> sock_open st')"
proof -
  have status: "W (fst (status_of m)) \<and> (snd (status_of m) = Open \<longrightarrow> I (fst (status_of m)) \<and> sock_open (fst (status_of m)))"
    if "W (fst m)" "\<forall>v. snd m = Inr v \<longrightarrow> I (fst m) \<and> sock_open (fst m)" for m
    using that closes_weak by (auto simp: status_of_def split: prod.splits sum.splits py_exn.splits)
  have test: "I (fst (yields cf (Out_u TESTFR_act) st))"
    using yields [OF assms(1,2), of "Out_u TESTFR_act" cf] yields_control [of "Out_u TESTFR_act" cf st]
    by (simp add: TESTFR_act_def STARTDT_con_def STOPDT_con_def)
  show ?thesis
  proof (cases e)
    case (Request r)
    with assms(3) status [of "handle_request cf sc r st"] request_inv [OF assms(1,2), of cf sc r] show ?thesis
      by (simp add: step_def)
  next
    case T3
    with assms status [of "yields cf (Out_u TESTFR_act) st"] test weaker show ?thesis by (simp add: step_def)
  qed (use assms closes weaker acknowledges timer in \<open>auto simp: step_def split: if_splits\<close>)
qed

lemma run_inv: "I st \<Longrightarrow> sock_open st \<Longrightarrow>
  W (fst (run cf sc es st)) \<and> (snd (run cf sc es st) = Open \<longrightarrow> I (fst (run cf sc es st)) \<and> sock_open (fst (run cf sc es st)))"
proof (induction es arbitrary: st)
  case (Cons e es)
  obtain st' s where e: "step cf sc e st = (st', s)" by (cases "step cf sc e st") auto
  from step_inv [OF Cons.prems e] Cons.IH [of st'] show ?case by (cases s) (simp_all add: e)
qed (simp add: weaker)

end

section \<open>Sequence numbers\<close>

fun i_frames :: "apdu list \<Rightarrow> iframe list" where
  "i_frames [] = []"
| "i_frames (I_frame f # xs) = f # i_frames xs"
| "i_frames (S_frame _ # xs) = i_frames xs"
| "i_frames (U_frame _ # xs) = i_frames xs"

lemma i_frames_append [simp]: "i_frames (xs @ ys) = i_frames xs @ i_frames ys"
  by (induction xs rule: i_frames.induct) simp_all

definition seq_number :: "nat \<Rightarrow> int" where
  "seq_number n = 2 * int n mod 65536"

lemma next_seq_number: "next_seq (seq_number n) = seq_number (Suc n)"
proof -
  define m where "m = int n mod 32768"
  have "seq_number n = 2 * m" unfolding seq_number_def m_def using mult_mod_right [of 2 "int n" 32768] by simp
  moreover have "seq_number (Suc n) = 2 * ((m + 1) mod 32768)"
    unfolding seq_number_def m_def using mult_mod_right [of 2 "int n + 1" 32768] by (simp add: mod_simps distrib_left add.commute)
  moreover have "0 \<le> m" "m < 32768" by (simp_all add: m_def)
  ultimately show ?thesis by (cases "m = 32767") (simp_all add: next_seq_def)
qed

text \<open>The frames sent so far are numbered in order, the next one gets the next number, and the number expected is that of some frame.\<close>

definition in_order :: "iec \<Rightarrow> bool" where
  "in_order st \<longleftrightarrow> map if_SendSeq (i_frames (sent st)) = map seq_number [0..<length (i_frames (sent st))]"

definition numbered :: "iec \<Rightarrow> bool" where
  "numbered st \<longleftrightarrow> in_order st \<and>
     (sock_open st \<longrightarrow> ssn st = seq_number (length (i_frames (sent st))) \<and> (\<exists>n. rsn st = seq_number n))"

lemma fatal_build [simp]: "build_iframe f = Inl e \<Longrightarrow> fatal (Inl e :: 'a result)"
  using build_iframe_errors by fastforce

text \<open>A data frame that is yielded: it waits, or is sent, or cannot be built.\<close>

lemma yields_i_cases:
  obtains (waits) b where "yields cf (Out_i k) st = (st\<lparr>send_buffer := b\<rparr>, Inr ())" "length b \<le> max 50 (length (send_buffer st))"
      "\<not> allow_DT st"
  | (sent) f st' where "allow_DT st" "yields cf (Out_i k) st = (st'\<lparr>sent := sent st @ [I_frame f]\<rparr>, Inr ())"
      "if_SendSeq f = ssn st" "ssn st' = next_seq (ssn st)" "rsn st' = rsn st" "allow_DT st'" "sock_open st' = sock_open st"
      "send_buffer st' = send_buffer st"
  | (fails) e st' where "allow_DT st" "yields cf (Out_i k) st = (st', Inl e)" "fatal (Inl e :: unit result)" "sent st' = sent st"
      "allow_DT st'" "sock_open st' = sock_open st" "send_buffer st' = send_buffer st"
proof (cases "allow_DT st")
  case False
  then show thesis
    using waits [of "if length (send_buffer st) < 50 then send_buffer st @ [k] else send_buffer st"]
    by (auto simp: yields_def send_104frame_def split: if_splits)
next
  case True
  let ?f = "(frame_objs st ! k)\<lparr>if_SendSeq := ssn st, if_RecvSeq := rsn st, if_COA := common_address cf\<rparr>"
  let ?st = "(increment_sendseq (kill_t2 st))\<lparr>frame_objs := (frame_objs st)[k := ?f], telegram_count := 0,
    sentmsgs := sentmsgs st @ [Sent_i k]\<rparr>"
  show thesis
  proof (cases "build_iframe ?f")
    case (Inl e)
    then show thesis
      using True fatal_build [OF Inl]
      by (intro fails [of ?st e]) (simp_all add: yields_def send_104frame_def Let_def increment_sendseq_def kill_t2_def)
  next
    case (Inr u)
    then show thesis
      using True by (intro sent [of ?f ?st]) (simp_all add: yields_def send_104frame_def Let_def increment_sendseq_def kill_t2_def)
  qed
qed

lemmas yields_control_simps = yields_def send_104frame_def kill_t2_def

interpretation numbers: connection_invariant in_order numbered
proof
  fix st out cf
  assume st: "numbered st" "sock_open st"
  show "in_order (fst (yields cf out st)) \<and> (\<not> fatal (snd (yields cf out st)) \<longrightarrow> numbered (fst (yields cf out st)))"
  proof (cases out)
    case (Out_i k)
    then show ?thesis using st
      by (cases rule: yields_i_cases [of cf k st]) (auto simp: in_order_def numbered_def next_seq_number)
  qed (use st in \<open>auto simp: numbered_def in_order_def yields_control_simps\<close>)
next
  fix st
  assume "numbered st" "sock_open st"
  then show "numbered (recvseq_increment st)" by (auto simp: numbered_def in_order_def recvseq_increment_def next_seq_number)
qed (auto simp: numbered_def in_order_def yields_control_simps disconnect_def send_frame_imm_def)

section \<open>Phases\<close>

text \<open>Whether data may be sent, by what has been confirmed.\<close>

fun started_by :: "bool \<Rightarrow> apdu list \<Rightarrow> bool" where
  "started_by b [] = b"
| "started_by b (x # xs) = started_by (if x = U_frame STARTDT_con then True else if x = U_frame STOPDT_con then False else b) xs"

fun data_allowed :: "bool \<Rightarrow> apdu list \<Rightarrow> bool" where
  "data_allowed b [] \<longleftrightarrow> True"
| "data_allowed b (x # xs) \<longleftrightarrow> ((\<exists>f. x = I_frame f) \<longrightarrow> b) \<and>
     data_allowed (if x = U_frame STARTDT_con then True else if x = U_frame STOPDT_con then False else b) xs"

lemma started_by_append [simp]: "started_by b (xs @ ys) = started_by (started_by b xs) ys"
  by (induction xs arbitrary: b) simp_all

lemma data_allowed_append [simp]: "data_allowed b (xs @ ys) \<longleftrightarrow> data_allowed b xs \<and> data_allowed (started_by b xs) ys"
  by (induction xs arbitrary: b) auto

lemma started_by_split:
  "started_by False xs \<Longrightarrow> \<exists>us vs. xs = us @ U_frame STARTDT_con # vs \<and> U_frame STOPDT_con \<notin> set vs"
proof (induction xs rule: rev_induct)
  case (snoc x xs)
  consider "x = U_frame STARTDT_con" | "x \<noteq> U_frame STARTDT_con" "x \<noteq> U_frame STOPDT_con" "started_by False xs"
    using snoc.prems by (auto split: if_splits)
  then show ?case
  proof cases
    case 1
    then have "xs @ [x] = xs @ U_frame STARTDT_con # [] \<and> U_frame STOPDT_con \<notin> set []" by simp
    then show ?thesis by blast
  next
    case 2
    with snoc.IH obtain us vs where "xs = us @ U_frame STARTDT_con # vs" "U_frame STOPDT_con \<notin> set vs" by auto
    with 2 have "xs @ [x] = us @ U_frame STARTDT_con # (vs @ [x]) \<and> U_frame STOPDT_con \<notin> set (vs @ [x])" by simp
    then show ?thesis by blast
  qed
qed simp

definition phased :: "iec \<Rightarrow> bool" where
  "phased st \<longleftrightarrow> data_allowed False (sent st) \<and> allow_DT st = started_by False (sent st)"

lemma confirmations: "STARTDT_con \<noteq> STOPDT_con" "STOPDT_con \<noteq> STARTDT_con"
  by (simp_all add: STARTDT_con_def STOPDT_con_def)

interpretation phases: connection_invariant phased phased
proof
  fix st out cf
  assume st: "phased st" "sock_open st" "out \<noteq> Out_u STARTDT_con" "out \<noteq> Out_u STOPDT_con"
  show "phased (fst (yields cf out st)) \<and> (\<not> fatal (snd (yields cf out st)) \<longrightarrow> phased (fst (yields cf out st)))"
  proof (cases out)
    case (Out_i k)
    then show ?thesis using st
      by (cases rule: yields_i_cases [of cf k st]) (auto simp: phased_def)
  qed (use st in \<open>auto simp: phased_def yields_control_simps\<close>)
qed (auto simp: phased_def yields_control_simps recvseq_increment_def disconnect_def send_frame_imm_def confirmations)

definition buffer_bounded :: "iec \<Rightarrow> bool" where
  "buffer_bounded st \<longleftrightarrow> length (send_buffer st) \<le> 50"

interpretation buffers: connection_invariant buffer_bounded buffer_bounded
proof
  fix st out cf
  assume st: "buffer_bounded st" "sock_open st"
  show "buffer_bounded (fst (yields cf out st)) \<and> (\<not> fatal (snd (yields cf out st)) \<longrightarrow> buffer_bounded (fst (yields cf out st)))"
  proof (cases out)
    case (Out_i k)
    then show ?thesis using st
      by (cases rule: yields_i_cases [of cf k st]) (auto simp: buffer_bounded_def)
  qed (use st in \<open>auto simp: buffer_bounded_def yields_control_simps\<close>)
qed (auto simp: buffer_bounded_def yields_control_simps recvseq_increment_def disconnect_def send_frame_imm_def)

lemma init_inv: "numbered (iec_init rs)" "phased (iec_init rs)" "buffer_bounded (iec_init rs)" "sock_open (iec_init rs)"
  by (auto simp: numbered_def in_order_def phased_def buffer_bounded_def iec_init_def seq_number_def intro: exI [of _ 0])

end
