(* ===== verification/Iec104Claims.thy ===== *)
theory Iec104Claims
  imports Iec104Facts "HOL-Library.Multiset"
begin

text \<open>
  The properties of the IEC 104 station, with a reading of packets by position that the witnesses use in place of Scapy's.
\<close>

section \<open>Runs\<close>

text \<open>C11. Whatever arrives and whichever timers fire, the data frames a connection sends are numbered 0, 2, 4 and so on,
  modulo 65536, in the order in which they are sent; frames that waited in the buffer are no exception.\<close>

theorem sent_in_order:
  "map if_SendSeq (i_frames (sent (fst (run cf sc es (iec_init rs))))) =
     map (\<lambda>n. 2 * int n mod 65536) [0..<length (i_frames (sent (fst (run cf sc es (iec_init rs)))))]"
  using numbers.run_inv [of "iec_init rs" cf sc es] init_inv [of rs] by (simp add: in_order_def seq_number_def [abs_def])

lemma data_needs_start_split:
  assumes "data_allowed False (xs @ I_frame f # ys)"
  shows "\<exists>us vs. xs = us @ U_frame STARTDT_con # vs \<and> U_frame STOPDT_con \<notin> set vs"
  using assms by (intro started_by_split) simp

text \<open>C12. A data frame is sent only after a start of data transfer has been confirmed that no confirmed stop follows.\<close>

theorem data_needs_start:
  assumes "sent (fst (run cf sc es (iec_init rs))) = xs @ I_frame f # ys"
  shows "\<exists>us vs. xs = us @ U_frame STARTDT_con # vs \<and> U_frame STOPDT_con \<notin> set vs"
proof -
  have "phased (fst (run cf sc es (iec_init rs)))" using phases.run_inv [of "iec_init rs" cf sc es] init_inv [of rs] by blast
  then have "data_allowed False (xs @ I_frame f # ys)" unfolding phased_def assms by blast
  then show ?thesis by (rule data_needs_start_split)
qed

section \<open>Answers\<close>

definition content :: "iframe \<Rightarrow> int \<times> int \<times> int \<times> int \<times> infobj list" where
  "content f = (if_COT f, if_PN f, if_SQ f, if_NoO f, if_objs f)"

text \<open>A connection that may send data, with numbers that fit their fields; and a frame that can be built.\<close>

definition can_send :: "conf \<Rightarrow> iec \<Rightarrow> bool" where
  "can_send cf st \<longleftrightarrow> allow_DT st \<and> 0 \<le> ssn st \<and> ssn st \<le> 65535 \<and> 0 \<le> rsn st \<and> rsn st \<le> 65535 \<and>
     0 \<le> common_address cf \<and> common_address cf \<le> 65535"

definition builds :: "iframe \<Rightarrow> bool" where
  "builds f \<longleftrightarrow> build_objects (if_objs f) = Inr () \<and> 0 \<le> if_TypeID f \<and> if_TypeID f \<le> 255 \<and> iframe_length f \<le> 257"

text \<open>A handler that succeeds and has sent frames with the given contents, in a connection that may send data.\<close>

definition sends :: "conf \<Rightarrow> iec \<Rightarrow> iframe list \<Rightarrow> iec \<Rightarrow> bool" where
  "sends cf st fs st' \<longleftrightarrow> can_send cf st' \<and> regs st' = regs st \<and>
     (\<exists>gs. sent st' = sent st @ map I_frame gs \<and> map content gs = map content fs)"

lemma sends_wire:
  assumes "sends cf st fs st'"
  obtains gs where "sent st' = sent st @ map I_frame gs" and "map content gs = map content fs"
  using assms by (auto simp: sends_def)

lemma sends_nil: "can_send cf st \<Longrightarrow> sends cf st [] st"
  by (simp add: sends_def)

lemma sends_trans: "sends cf st fs st' \<Longrightarrow> sends cf st' gs st'' \<Longrightarrow> sends cf st (fs @ gs) st''"
  unfolding sends_def by (metis append.assoc map_append)

lemma sends_allow: "sends cf st fs st' \<Longrightarrow> can_send cf st'"
  by (simp add: sends_def)

definition inro_types :: "int list" where
  "inro_types = [1, 3, 5, 7, 9, 11, 13]"

lemma report_lengths:
  "t \<in> set inro_types \<Longrightarrow> 0 < object_length t \<and> object_length t \<le> 8"
  "bits i_frame_fields div 8 + bits asdu_head div 8 = 12"
proof -
  have "list_all (\<lambda>t. 0 < object_length t \<and> object_length t \<le> 8) inro_types" by code_simp
  then show "t \<in> set inro_types \<Longrightarrow> 0 < object_length t \<and> object_length t \<le> 8" by (simp only: list_all_iff)
  show "bits i_frame_fields div 8 + bits asdu_head div 8 = 12" by code_simp
qed

lemma build_numbered:
  assumes "builds f" and "can_send cf st"
  shows "build_iframe (f\<lparr>if_SendSeq := ssn st, if_RecvSeq := rsn st, if_COA := common_address cf\<rparr>) = Inr ()"
  using assms report_lengths(2) by (simp add: builds_def can_send_def build_iframe_def pack_range_def if_TypeID_def iframe_length_def)

lemma sends_new:
  assumes "can_send cf st" and "builds f"
  obtains st' where "yields_new cf f st = (st', Inr ())" and "sends cf st [f] st'"
  using assms build_numbered [OF assms(2,1)]
  by (auto simp: yields_new_def yields_def send_104frame_def Let_def sends_def can_send_def content_def increment_sendseq_def
      kill_t2_def next_seq_def intro!: that exI [of _ "[x]" for x])

lemma sends_all:
  "can_send cf st \<Longrightarrow> \<forall>f \<in> set fs. builds f \<Longrightarrow> \<exists>st'. yields_all cf fs st = (st', Inr ()) \<and> sends cf st fs st'"
proof (induction fs arbitrary: st)
  case Nil
  then show ?case by (simp add: sends_nil)
next
  case (Cons f fs)
  obtain st1 where 1: "yields_new cf f st = (st1, Inr ())" "sends cf st [f] st1"
    using sends_new [OF Cons.prems(1), of f] Cons.prems(2) by auto
  with Cons.IH [OF sends_allow [OF 1(2)]] Cons.prems(2) sends_trans [OF 1(2)] show ?case by fastforce
qed

lemma reply_checked:
  "cot \<in> {7, 10, 47} \<Longrightarrow> check \<in> {check_asdu_45, check_asdu_46} \<Longrightarrow> check (iframe_fields (new_iframe cot objs)) Monitor = Inr ()"
  by (auto simp: check_asdu_45_def check_asdu_46_def check_command_def num_def getfieldval_def iframe_fields_def new_iframe_def
      int_of_def ensure_def cot_allowed_def)

lemma sends_checked:
  assumes "can_send cf st" and "builds f" and "check (iframe_fields f) Monitor = Inr ()"
  obtains st' where "checked check cf f st = (st', Inr ())" and "sends cf st [f] st'"
  using sends_new [OF assms(1,2)] that assms(3) by (auto simp: checked_def liftH_def)

lemma caught_Inr [simp]: "caught (st, Inr ()) = (st, Inr ())"
  by (simp add: caught_def)

lemma set_val_map_of: "map_of (set_val a v rs) k = (if k = a then map_option (\<lambda>r. r\<lparr>reg_val := v\<rparr>) (map_of rs k) else map_of rs k)"
  by (induction rs) (auto simp: set_val_def)

lemma builds_cot: "builds (new_iframe cot objs) \<longleftrightarrow> builds (new_iframe 7 objs)"
  by (simp add: builds_def new_iframe_def if_TypeID_def iframe_length_def)

text \<open>C9. A command that is activated on an object of its type is confirmed, reported by the related object, and terminated; both
  objects then hold the value of the command, and nothing else has changed. This covers the four kinds of command, which differ
  in type, field and report; the connection may send data, and the command and its report can be
  built (lemma \<open>command_builds\<close>).\<close>

theorem command_carried_out:
  assumes "can_send cf st" and "check \<in> {check_asdu_45, check_asdu_46}" and "check c Control = Inr ()"
    and "c ''COT'' = Some (Num 6)" and "c ''IOA'' = Some (Num n)" and "c field = Some v"
    and "hex_in_addr n = Inr a" and "map_of (regs st) a = Some obj" and "reg_addr obj = a" and "category_id obj = t"
    and "relation obj = show_nat x @ ''_'' @ show_nat y" and "x \<le> 65535" and "y \<le> 255"
    and "map_of (regs st) (relation obj) = Some rel" and "reg_addr rel = relation obj"
    and "builds (new_iframe 7 [Infobj t [(''IOA'', Num n), (field, v)]])" and "builds (report (projr (addr_in_hex (relation obj))) v)"
  shows "let (st', r) = handle_command check t field report cf c st; objs = [Infobj t [(''IOA'', Num n), (field, v)]]
    in r = Inr () \<and> regs st' = set_val (relation obj) v (set_val a v (regs st)) \<and>
       (\<exists>gs. sent st' = sent st @ map I_frame gs \<and>
         map content gs = map content [new_iframe 7 objs, report (projr (addr_in_hex (relation obj))) v, new_iframe 10 objs])"
proof -
  let ?objs = "[Infobj t [(''IOA'', Num n), (field, v)]]"
  obtain ra where ra: "addr_in_hex (relation obj) = Inr ra" "hex_in_addr ra = Inr (relation obj)"
    using addr_in_hex_address [of x y] hex_in_addr_number [of x y] assms(11-13) by (simp add: address_def)
  obtain st1 where 1: "checked check cf (new_iframe 7 ?objs) st = (st1, Inr ())" "sends cf st [new_iframe 7 ?objs] st1"
    using sends_checked [where check = check and f = "new_iframe 7 ?objs", OF assms(1,16) reply_checked [OF _ assms(2)]] by blast
  let ?st1 = "st1\<lparr>regs := set_val (relation obj) v (set_val a v (regs st1))\<rparr>"
  have allow1: "can_send cf ?st1" and regs1: "regs st1 = regs st" using 1(2) by (simp_all add: sends_def can_send_def)
  obtain st2 where 2: "yields_new cf (report ra v) ?st1 = (st2, Inr ())" "sends cf ?st1 [report ra v] st2"
    using sends_new [OF allow1, of "report ra v"] assms(17) ra(1) by auto
  have rep: "report_related cf report obj v st1 = (st2, Inr ())"
    using assms(9,14,15) 2(1) ra by (simp add: report_related_def liftH_def get_object_from_reg_def regs1 Let_def)
  obtain st3 where 3: "checked check cf (new_iframe 10 ?objs) st2 = (st3, Inr ())" "sends cf st2 [new_iframe 10 ?objs] st3"
    using sends_checked [where check = check and f = "new_iframe 10 ?objs", OF sends_allow [OF 2(2)] builds_cot [THEN iffD2, OF assms(16)] reply_checked [OF _ assms(2)]] by blast
  have "relation obj \<noteq> []" using assms(11) by simp
  then have "handle_command check t field report cf c st = (st3, Inr ())"
    using assms(3-8,10) 1(1) rep 3(1)
    by (simp add: handle_command_def liftH_def num_def getfieldval_def int_of_def get_object_from_reg_def Let_def)
  moreover have "regs st3 = set_val (relation obj) v (set_val a v (regs st))"
    using 1(2) 2(2) 3(2) by (simp add: sends_def)
  moreover have "\<exists>gs. sent st3 = sent st @ map I_frame gs \<and>
      map content gs = map content [new_iframe 7 ?objs, report ra v, new_iframe 10 ?objs]"
  proof -
    obtain g1 where g1: "sent st1 = sent st @ map I_frame g1" "map content g1 = map content [new_iframe 7 ?objs]"
      using sends_wire [OF 1(2)] .
    obtain g2 where g2: "sent st2 = sent ?st1 @ map I_frame g2" "map content g2 = map content [report ra v]"
      using sends_wire [OF 2(2)] .
    obtain g3 where g3: "sent st3 = sent st2 @ map I_frame g3" "map content g3 = map content [new_iframe 10 ?objs]"
      using sends_wire [OF 3(2)] .
    show ?thesis using g1 g2 g3 by (intro exI [of _ "g1 @ g2 @ g3"]) simp
  qed
  ultimately show ?thesis by (simp add: ra)
qed

text \<open>What an interrogation reports of a register.\<close>

definition reported :: "int \<Rightarrow> register \<Rightarrow> infobj" where
  "reported t r = Infobj t [(''IOA'', Num (projr (addr_in_hex (reg_addr r)))), (value_field t, reg_val r)]"

definition registers_of :: "int \<Rightarrow> registers \<Rightarrow> register list" where
  "registers_of t rs = filter (\<lambda>r. category_id r = t) (map snd rs)"

lemma inro_loop_spec:
  assumes "\<forall>(k, r) \<in> set rs. \<exists>x. addr_in_hex (reg_addr r) = Inr x" and "1 \<le> limit" and "int (length objs) \<le> limit"
    and "\<forall>x \<in> set objs. infobj_type x = t"
  shows "\<exists>fs. inro_loop t limit rs objs = Inr fs \<and> concat (map if_objs fs) = objs @ map (reported t) (registers_of t rs) \<and>
    (\<forall>f \<in> set fs. \<exists>os. f = inro_frame os \<and> os \<noteq> [] \<and> int (length os) \<le> limit \<and> (\<forall>x \<in> set os. infobj_type x = t))"
  using assms
proof (induction rs arbitrary: objs)
  case Nil
  then show ?case by (auto simp: registers_of_def inro_frame_def new_iframe_def)
next
  case (Cons kr rs)
  obtain k r where kr: "kr = (k, r)" by (cases kr)
  show ?case
  proof (cases "category_id r = t")
    case False
    with Cons.IH [of objs] Cons.prems kr show ?thesis by (simp add: registers_of_def)
  next
    case True
    obtain x where x: "addr_in_hex (reg_addr r) = Inr x" using Cons.prems(1) kr by auto
    have new: "Infobj t [(''IOA'', Num x), (value_field t, reg_val r)] = reported t r" by (simp add: reported_def x)
    have t: "infobj_type (reported t r) = t" by (simp add: reported_def infobj_type_def)
    have regs: "registers_of t ((k, r) # rs) = r # registers_of t rs" using True by (simp add: registers_of_def)
    show ?thesis
    proof (cases "int (length objs) \<ge> limit")
      case True
      obtain fs where fs: "inro_loop t limit rs [reported t r] = Inr fs"
        "concat (map if_objs fs) = [reported t r] @ map (reported t) (registers_of t rs)"
        "\<forall>f \<in> set fs. \<exists>os. f = inro_frame os \<and> os \<noteq> [] \<and> int (length os) \<le> limit \<and> (\<forall>x \<in> set os. infobj_type x = t)"
        using Cons.IH [of "[reported t r]"] Cons.prems t by auto
      have "objs \<noteq> []" using True Cons.prems(2) by auto
      with fs True \<open>category_id r = t\<close> Cons.prems kr x new regs show ?thesis
        by (auto simp: inro_frame_def new_iframe_def)
    next
      case False
      with Cons.IH [of "objs @ [reported t r]"] Cons.prems \<open>category_id r = t\<close> kr x new t regs show ?thesis by simp
    qed
  qed
qed

text \<open>A report of an interrogation: it has its objects counted, and fits into a frame.\<close>

definition fits :: "int \<Rightarrow> iframe \<Rightarrow> bool" where
  "fits m f \<longleftrightarrow> if_COT f = 20 \<and> if_objs f \<noteq> [] \<and> if_NoO f = int (length (if_objs f)) \<and> int (iframe_length f) \<le> m"

lemma inro_frame_fits:
  assumes "t \<in> set inro_types" and "os \<noteq> []" and "\<forall>x \<in> set os. infobj_type x = t"
    and "int (length os) \<le> python_int_div (m - 12) (int (object_length t))" and "20 \<le> m"
  shows "fits m (inro_frame os)"
proof -
  have "sum_list (map (\<lambda>x. object_length (infobj_type x)) os) = length os * object_length t"
    using assms(3) by (induction os) auto
  moreover have "int (length os) * int (object_length t) \<le> m - 12"
  proof -
    have "int (length os) \<le> (m - 12) div int (object_length t)" using assms(4,5) by (simp add: python_int_div_def)
    then have "int (length os) * int (object_length t) \<le> (m - 12) div int (object_length t) * int (object_length t)"
      by (rule mult_right_mono) simp
    also have "\<dots> \<le> m - 12" using report_lengths(1) [OF assms(1)] by (simp add: minus_mod_eq_div_mult [symmetric])
    finally show ?thesis .
  qed
  ultimately show ?thesis
    using assms(2) report_lengths(2) by (simp add: fits_def inro_frame_def new_iframe_def iframe_length_def flip: of_nat_mult)
qed

lemma inro_response_spec:
  assumes "\<forall>(k, r) \<in> set rs. \<exists>x. addr_in_hex (reg_addr r) = Inr x" and "t \<in> set inro_types" and "20 \<le> m"
  shows "\<exists>fs. inro_response m rs t = Inr fs \<and> concat (map if_objs fs) = map (reported t) (registers_of t rs) \<and> (\<forall>f \<in> set fs. fits m f)"
proof -
  have L: "0 < int (object_length t)" "int (object_length t) \<le> m - 12"
    using report_lengths(1) [OF assms(2)] assms(3) by linarith+
  have "int (object_length t) div int (object_length t) \<le> (m - 12) div int (object_length t)"
    by (rule zdiv_mono1 [OF L(2,1)])
  then have "1 \<le> python_int_div (m - 12) (int (object_length t))"
    using L(1) assms(3) by (simp add: python_int_div_def)
  then obtain fs where fs: "inro_response m rs t = Inr fs" "concat (map if_objs fs) = map (reported t) (registers_of t rs)"
    "\<forall>f \<in> set fs. \<exists>os. f = inro_frame os \<and> os \<noteq> [] \<and> int (length os) \<le> python_int_div (m - 12) (int (object_length t)) \<and>
      (\<forall>x \<in> set os. infobj_type x = t)"
    using inro_loop_spec [OF assms(1), of "python_int_div (m - 12) (int (object_length t))" "[]" t] by (auto simp: inro_response_def)
  have "fits m f" if f: "f \<in> set fs" for f
  proof -
    obtain os where "f = inro_frame os" "os \<noteq> []" "int (length os) \<le> python_int_div (m - 12) (int (object_length t))"
      "\<forall>x \<in> set os. infobj_type x = t"
      using bspec [OF fs(3) f] by blast
    then show ?thesis using inro_frame_fits [OF assms(2) _ _ _ assms(3)] by blast
  qed
  then show ?thesis using fs(1,2) by blast
qed

lemma inro_responses_spec:
  assumes "\<forall>(k, r) \<in> set rs. \<exists>x. addr_in_hex (reg_addr r) = Inr x" and "set ts \<subseteq> set inro_types" and "20 \<le> m"
  shows "\<exists>fs. inro_responses m rs ts = Inr fs \<and> concat (map if_objs fs) = concat (map (\<lambda>t. map (reported t) (registers_of t rs)) ts) \<and>
    (\<forall>f \<in> set fs. fits m f)"
  using assms(2)
proof (induction ts)
  case (Cons t ts)
  then obtain fs where "inro_responses m rs ts = Inr fs" "concat (map if_objs fs) = concat (map (\<lambda>t. map (reported t) (registers_of t rs)) ts)"
    "\<forall>f \<in> set fs. fits m f" by auto
  moreover obtain gs where "inro_response m rs t = Inr gs" "concat (map if_objs gs) = map (reported t) (registers_of t rs)" "\<forall>f \<in> set gs. fits m f"
    using inro_response_spec [OF assms(1) _ assms(3), of t] Cons.prems by auto
  ultimately show ?case by auto
qed simp

lemma content_fits: "content f = content g \<Longrightarrow> fits m f = fits m g"
  by (simp add: content_def fits_def iframe_length_def)

lemma content_reports:
  "map content gs = map content fs \<Longrightarrow> concat (map if_objs gs) = concat (map if_objs fs) \<and> ((\<forall>f \<in> set gs. fits m f) \<longleftrightarrow> (\<forall>f \<in> set fs. fits m f))"
proof (induction gs arbitrary: fs)
  case (Cons g gs)
  then obtain f fs' where "fs = f # fs'" "content g = content f" "map content gs = map content fs'" by (cases fs) auto
  moreover from this(2) have "if_objs g = if_objs f" by (simp add: content_def)
  ultimately show ?case using Cons.IH [of fs'] content_fits [of g f m] by simp
qed simp

text \<open>Values that fit the field they are reported in.\<close>

definition value_fits :: "int \<Rightarrow> val \<Rightarrow> bool" where
  "value_fits t v = (case v of
     Num n \<Rightarrow> t \<in> {1, 3, 5} \<or> t = 7 \<and> 0 \<le> n \<and> n \<le> 4294967295 \<or> t \<in> {9, 11} \<and> - 32768 \<le> n \<and> n \<le> 32767 \<or>
       t = 13 \<and> \<bar>n\<bar> < 2 ^ 128 - 2 ^ 103
   | Real32 _ \<Rightarrow> t = 13)"

lemma reported_fields:
  "list_all (\<lambda>t. map_option (\<lambda>(_, fs). filter (\<lambda>f. field_name f \<in> {''IOA'', value_field t}) (concat (map leaves fs))) (map_of asdu_infobjs t) =
     Some (LEX3BytesField ''IOA'' 65536 # (if t = 1 then [XBitField ''SPI'' 0 1] else if t = 3 then [XBitField ''DPI'' 0 2]
       else if t = 5 then [XBitField ''Value'' 0 7] else if t = 7 then [LEIntField ''BSI'' 0] else if t = 9 then [NormValueField ''NVA'' 20480]
       else if t = 11 then [LESignedShortField ''SVA'' 80] else [FloatField ''FPNumber'' 1]))) inro_types"
  by code_simp

lemma build_fields_filter:
  "set (map fst given) \<subseteq> K \<Longrightarrow> build_fields given fs = build_fields given (filter (\<lambda>f. field_name f \<in> K) fs)"
proof (induction fs)
  case (Cons f fs)
  have "map_of given (field_name f) = None" if "field_name f \<notin> K"
    using that Cons.prems by (auto simp: map_of_eq_None_iff)
  with Cons show ?case by auto
qed simp

lemma reported_builds:
  assumes "t \<in> set inro_types" and "value_fits t (reg_val r)" and "addr_in_hex (reg_addr r) = Inr n" and "0 \<le> n" and "n \<le> 4294967295"
  shows "build_infobj (reported t r) = Inr ()"
proof -
  let ?given = "[(''IOA'', Num n), (value_field t, reg_val r)]"
  obtain name fs where fs: "map_of asdu_infobjs t = Some (name, fs)"
    and k: "filter (\<lambda>f. field_name f \<in> {''IOA'', value_field t}) (concat (map leaves fs)) =
      LEX3BytesField ''IOA'' 65536 # (if t = 1 then [XBitField ''SPI'' 0 1] else if t = 3 then [XBitField ''DPI'' 0 2]
       else if t = 5 then [XBitField ''Value'' 0 7] else if t = 7 then [LEIntField ''BSI'' 0] else if t = 9 then [NormValueField ''NVA'' 20480]
       else if t = 11 then [LESignedShortField ''SVA'' 80] else [FloatField ''FPNumber'' 1])"
    using reported_fields assms(1) by (auto simp: list_all_iff)
  have "build_fields ?given (concat (map leaves fs)) =
      build_fields ?given (filter (\<lambda>f. field_name f \<in> {''IOA'', value_field t}) (concat (map leaves fs)))"
    by (rule build_fields_filter) simp
  also have "\<dots> = Inr ()"
  proof -
    consider "t = 1" | "t = 3" | "t = 5" | "t = 7" | "t = 9" | "t = 11" | "t = 13"
      using assms(1) unfolding inro_types_def list.set by blast
    then show ?thesis
      unfolding k using assms(2,4,5)
      by cases (auto simp: value_field_def value_fits_def pack_range_def float_limit_def split: val.splits)
  qed
  finally have "build_fields ?given (concat (map leaves fs)) = Inr ()" .
  then show ?thesis by (simp add: build_infobj_def reported_def fs assms(3))
qed

lemma build_objects_iff: "build_objects xs = Inr () \<longleftrightarrow> (\<forall>x \<in> set xs. build_infobj x = Inr ())"
  by (induction xs) (auto simp: bindE_eq_Inr_iff)

lemma mset_registers_step:
  assumes "t \<notin> T"
  shows "mset (map (reported t) (registers_of t rs)) + mset (map (\<lambda>(k, r). reported (category_id r) r) (filter (\<lambda>(k, r). category_id r \<in> T) rs)) =
    mset (map (\<lambda>(k, r). reported (category_id r) r) (filter (\<lambda>(k, r). category_id r \<in> insert t T) rs))"
proof (induction rs)
  case Nil
  then show ?case by (simp add: registers_of_def)
next
  case (Cons kr rs)
  obtain k r where kr: "kr = (k, r)" by (cases kr)
  show ?case
  proof (cases "category_id r = t")
    case True
    then have "registers_of t (kr # rs) = r # registers_of t rs" by (simp add: kr registers_of_def)
    with Cons True assms show ?thesis by (simp add: kr)
  next
    case False
    then have "registers_of t (kr # rs) = registers_of t rs" by (simp add: kr registers_of_def)
    with Cons False show ?thesis by (simp add: kr)
  qed
qed

lemma mset_registers_of:
  "distinct ts \<Longrightarrow> mset (concat (map (\<lambda>t. map (reported t) (registers_of t rs)) ts)) =
     mset (map (\<lambda>(k, r). reported (category_id r) r) (filter (\<lambda>(k, r). category_id r \<in> set ts) rs))"
proof (induction ts)
  case (Cons t ts)
  then show ?case using mset_registers_step [of t "set ts" rs] by simp
qed simp

text \<open>The commands and their reports can be built with every value that their field takes.\<close>

definition command_values :: "(int \<times> string \<times> field) list" where
  "command_values = [(45, ''SCS'', BitField ''SCS'' 0 1), (46, ''DCS'', XBitField ''DCS'' 0 2), (49, ''SVA'', LESignedShortField ''SVA'' 80),
     (50, ''FPNumber'', FloatField ''FPNumber'' 0), (1, ''SPI'', XBitField ''SPI'' 0 1), (3, ''DPI'', XBitField ''DPI'' 0 2),
     (11, ''SVA'', LESignedShortField ''SVA'' 80), (13, ''FPNumber'', FloatField ''FPNumber'' 1)]"

lemma command_fields:
  "list_all (\<lambda>(t, name, f). map_option (\<lambda>(_, fs). filter (\<lambda>f. field_name f \<in> {''IOA'', name}) (concat (map leaves fs))) (map_of asdu_infobjs t) =
     Some [LEX3BytesField ''IOA'' 65536, f] \<and> field_name f = name \<and> name \<noteq> ''IOA'' \<and> object_length t \<le> 245 \<and> 0 \<le> t \<and> t \<le> 255) command_values"
  by code_simp

lemma command_builds:
  assumes "(t, name, f) \<in> set command_values" and "build_field f v = Inr ()" and "0 \<le> n" and "n \<le> 4294967295"
  shows "builds (new_iframe cot [Infobj t [(''IOA'', Num n), (name, v)]])"
proof -
  obtain cls fs where fs: "map_of asdu_infobjs t = Some (cls, fs)"
    and k: "filter (\<lambda>f. field_name f \<in> {''IOA'', name}) (concat (map leaves fs)) = [LEX3BytesField ''IOA'' 65536, f]"
    and t: "field_name f = name" "name \<noteq> ''IOA''" "object_length t \<le> 245" "0 \<le> t" "t \<le> 255"
    using bspec [OF command_fields [unfolded list_all_iff] assms(1)] by auto
  have "build_fields [(''IOA'', Num n), (name, v)] (concat (map leaves fs)) =
      build_fields [(''IOA'', Num n), (name, v)] (filter (\<lambda>f. field_name f \<in> {''IOA'', name}) (concat (map leaves fs)))"
    by (rule build_fields_filter) simp
  also have "\<dots> = Inr ()" unfolding k using t(1,2) assms(2-4) by (simp add: pack_range_def)
  finally show ?thesis
    using t report_lengths(2) by (simp add: builds_def new_iframe_def build_infobj_def fs if_TypeID_def infobj_type_def iframe_length_def)
qed

text \<open>C8. A general interrogation is confirmed, answered and terminated: whatever order \<open>natsort\<close> puts the registers into, every
  register of a monitored type is reported exactly once and nothing else is, type by type in that order, and no report is longer
  than the largest frame. The connection may send data, the addresses have the form of template names, the values fit the
  fields of their types (one that does not ends the connection, lemma \<open>scaled_value_crashes\<close>), and the largest frame is
  between 20 octets and what the length field can count.\<close>

theorem interrogation_complete:
  assumes "can_send cf st" and "c ''COT'' = Some (Num 6)" and "c ''QOI'' = Some (Num 20)" and "20 \<le> MaxFrameSize cf" and "MaxFrameSize cf \<le> 257"
    and "mset (natsorted cf (regs st)) = mset (regs st)"
    and "\<forall>(k, r) \<in> set (regs st). \<exists>x \<le> 65535. \<exists>y \<le> 255. reg_addr r = show_nat x @ ''_'' @ show_nat y"
    and "\<forall>(k, r) \<in> set (regs st). category_id r \<in> set inro_types \<longrightarrow> value_fits (category_id r) (reg_val r)"
  shows "\<exists>st' g1 gs g2. handle_inro_command100 cf c st = (st', Inr ()) \<and> sent st' = sent st @ map I_frame (g1 # gs @ [g2]) \<and>
    if_COT g1 = 7 \<and> if_COT g2 = 10 \<and> regs st' = regs st \<and> (\<forall>g \<in> set gs. fits (MaxFrameSize cf) g) \<and>
    concat (map if_objs gs) = concat (map (\<lambda>t. map (reported t) (registers_of t (natsorted cf (regs st)))) inro_types) \<and>
    mset (concat (map if_objs gs)) =
      mset (map (\<lambda>(k, r). reported (category_id r) r) (filter (\<lambda>(k, r). category_id r \<in> {1, 3, 5, 7, 9, 11, 13}) (regs st)))"
proof -
  let ?a = "\<lambda>cot. new_iframe cot [Infobj 100 [(''QOI'', Num 20)]]"
  have ok: "check_asdu_100 (iframe_fields (?a 7)) Monitor = Inr ()"
    by (simp add: check_asdu_100_def num_def getfieldval_def iframe_fields_def new_iframe_def int_of_def ensure_def cot_allowed_def)
  let ?rs = "natsorted cf (regs st)"
  have same: "set ?rs = set (regs st)" using assms(6) by (rule mset_eq_setD)
  have number: "\<exists>n. addr_in_hex (reg_addr r) = Inr n \<and> 0 \<le> n \<and> n \<le> 4294967295" if "(k, r) \<in> set ?rs" for k r
  proof -
    obtain x y where "reg_addr r = address x y" "x < 65536" "y < 256" using assms(7) \<open>(k, r) \<in> _\<close> same by (fastforce simp: address_def)
    moreover from this have "x mod 256 < 256" "x div 256 < 256" by (simp_all add: less_mult_imp_div_less)
    ultimately show ?thesis using addr_in_hex_address [of x y] by (simp add: address_number_def)
  qed
  then have "\<forall>(k, r) \<in> set ?rs. \<exists>n. addr_in_hex (reg_addr r) = Inr n" by blast
  then obtain fs where fs: "inro_responses (MaxFrameSize cf) (natsorted cf (regs st)) inro_types = Inr fs"
    "concat (map if_objs fs) = concat (map (\<lambda>t. map (reported t) (registers_of t (natsorted cf (regs st)))) inro_types)"
    "\<forall>f \<in> set fs. fits (MaxFrameSize cf) f"
    using inro_responses_spec [of ?rs inro_types] assms(4) by fastforce
  have reports_build: "builds f" if f: "f \<in> set fs" for f
  proof -
    have x: "build_infobj x = Inr () \<and> infobj_type x \<in> set inro_types" if "x \<in> set (if_objs f)" for x
    proof -
      have "x \<in> set (concat (map if_objs fs))" using f that by auto
      then obtain t k r where "t \<in> set inro_types" "(k, r) \<in> set ?rs" "category_id r = t" "x = reported t r"
        unfolding fs(2) by (auto simp: registers_of_def)
      then show ?thesis
        using number [of k r] reported_builds [of t r] assms(8) same by (fastforce simp: reported_def infobj_type_def)
    qed
    have "fits (MaxFrameSize cf) f" using fs(3) f by blast
    then have "if_objs f \<noteq> []" "iframe_length f \<le> 257" using assms(5) by (auto simp: fits_def)
    moreover from this(1) have "if_TypeID f \<in> set inro_types" using x by (cases "if_objs f") (auto simp: if_TypeID_def)
    ultimately show ?thesis using x by (auto simp: builds_def build_objects_iff inro_types_def)
  qed
  have answer_builds: "builds (?a cot)" for cot
  proof -
    have "builds (?a 7)" by code_simp
    then show ?thesis by (simp add: builds_cot [of cot])
  qed
  obtain st1 where 1: "checked check_asdu_100 cf (?a 7) st = (st1, Inr ())" "sends cf st [?a 7] st1"
    using sends_checked [where check = check_asdu_100 and f = "?a 7", OF assms(1) answer_builds ok] .
  obtain st2 where 2: "yields_all cf fs st1 = (st2, Inr ())" "sends cf st1 fs st2" using sends_all [OF sends_allow [OF 1(2)]] reports_build by blast
  obtain st3 where 3: "yields_new cf (?a 10) st2 = (st3, Inr ())" "sends cf st2 [?a 10] st3" using sends_new [OF sends_allow [OF 2(2)] answer_builds] .
  have regs: "regs st1 = regs st" "regs st3 = regs st" using 1(2) 2(2) 3(2) by (simp_all add: sends_def)
  have run: "handle_inro_command100 cf c st = (st3, Inr ())"
    using assms(2,3) 1(1) 2(1) 3(1) fs(1) ok
    by (simp add: handle_inro_command100_def liftH_def num_def getfieldval_def int_of_def Let_def regs inro_types_def)
  obtain g1 where g1: "sent st1 = sent st @ map I_frame g1" "map content g1 = map content [?a 7]" using sends_wire [OF 1(2)] .
  obtain gs where gs: "sent st2 = sent st1 @ map I_frame gs" "map content gs = map content fs" using sends_wire [OF 2(2)] .
  obtain g2 where g2: "sent st3 = sent st2 @ map I_frame g2" "map content g2 = map content [?a 10]" using sends_wire [OF 3(2)] .
  obtain x1 x2 where x: "g1 = [x1]" "g2 = [x2]" "if_COT x1 = 7" "if_COT x2 = 10"
    using g1(2) g2(2) by (auto simp: content_def new_iframe_def)
  note reports = content_reports [OF gs(2), of "MaxFrameSize cf"]
  have "mset (concat (map (\<lambda>t. map (reported t) (registers_of t ?rs)) inro_types)) =
      mset (map (\<lambda>(k, r). reported (category_id r) r) (filter (\<lambda>(k, r). category_id r \<in> set inro_types) ?rs))"
    by (rule mset_registers_of) (simp add: inro_types_def)
  also have "\<dots> = mset (map (\<lambda>(k, r). reported (category_id r) r) (filter (\<lambda>(k, r). category_id r \<in> set inro_types) (regs st)))"
    by (simp add: assms(6))
  finally have once: "mset (concat (map (\<lambda>t. map (reported t) (registers_of t ?rs)) inro_types)) =
      mset (map (\<lambda>(k, r). reported (category_id r) r) (filter (\<lambda>(k, r). category_id r \<in> {1, 3, 5, 7, 9, 11, 13}) (regs st)))"
    by (simp only: inro_types_def list.set)
  show ?thesis
    using once run regs g1(1) gs(1) g2(1) x reports fs(2,3)
    by (intro exI [of _ st3] exI [of _ x1] exI [of _ gs] exI [of _ x2]) simp
qed

section \<open>Acknowledgement\<close>

text \<open>A data frame with the number \<open>n\<close> that is for another station, as Scapy reads it.\<close>

definition foreign_frame :: "conf \<Rightarrow> scapy \<Rightarrow> int \<Rightarrow> packet \<Rightarrow> bool" where
  "foreign_frame cf sc n r \<longleftrightarrow> r \<noteq> [] \<and> hd r = 0x68 \<and> 3 \<le> length r \<and> \<not> bit (r ! 2) 0 \<and>
     (case sc_i_frame sc r of
        Inl _ \<Rightarrow> False
      | Inr c \<Rightarrow> num c ''LenAPDU'' = Inr (int (length r) - 2) \<and> num c ''SendSeq'' = Inr n \<and> num c ''RecvSeq'' \<noteq> Inl AttributeError \<and>
          num c ''RecvSeq'' \<noteq> Inl ValueError \<and> (case num c ''TypeID'' of Inl _ \<Rightarrow> False | Inr _ \<Rightarrow> True) \<and>
          (case num c ''COA'' of Inl _ \<Rightarrow> False | Inr a \<Rightarrow> a \<noteq> common_address cf \<and> a \<noteq> 0xFFFF))"

lemma num_Inl: "num c k = Inl e \<Longrightarrow> e = AttributeError \<or> e = ValueError"
  by (auto simp: num_def getfieldval_def int_of_def bindE_def split: option.splits val.splits)

definition received_only :: "nat \<Rightarrow> iec \<Rightarrow> bool" where
  "received_only k st \<longleftrightarrow> telegram_count st = int k \<and> rsn st = 2 * int k \<and> sent st = [] \<and> sock_open st"

lemma foreign_step:
  assumes "received_only k st" and "foreign_frame cf sc (2 * int k) r" and "k < 32767"
  shows "int k + 1 < cf_w cf \<Longrightarrow> \<exists>st'. step cf sc (Request r) st = (st', Open) \<and> received_only (Suc k) st'"
    and "cf_w cf \<le> int k + 1 \<Longrightarrow> \<exists>st'. step cf sc (Request r) st = (st', Crashed TypeError) \<and> sent st' = []"
proof -
  obtain c where c: "sc_i_frame sc r = Inr c" "num c ''LenAPDU'' = Inr (int (length r) - 2)" "num c ''SendSeq'' = Inr (2 * int k)"
    and rest: "r \<noteq> []" "hd r = 0x68" "3 \<le> length r" "\<not> bit (r ! 2) 0"
    using assms(2) by (auto simp: foreign_frame_def split: sum.splits)
  obtain m where m: "num c ''RecvSeq'' = Inr m"
    using assms(2) c(1) num_Inl [of c "''RecvSeq''"] by (cases "num c ''RecvSeq''") (auto simp: foreign_frame_def)
  obtain t a where ta: "num c ''TypeID'' = Inr t" "num c ''COA'' = Inr a" "a \<noteq> common_address cf" "a \<noteq> 0xFFFF"
    using assms(2) c(1) by (auto simp: foreign_frame_def split: sum.splits)
  have drop: "dropWhile (\<lambda>x. x \<noteq> 0x68) r = r" using rest(1,2) by (cases r) auto
  have next_rsn: "next_seq (2 * int k) = 2 * int (Suc k)" using assms(3) by (simp add: next_seq_def)
  define st1 where "st1 = (recvseq_increment (st\<lparr>telegram_count := telegram_count st + 1\<rparr>))
    \<lparr>sentmsgs := unacknowledged (recvseq_increment (st\<lparr>telegram_count := telegram_count st + 1\<rparr>)) m\<rparr>"
  have rec: "receive_i_frame cf c (length r) st = (st1, Inr None)"
    using assms(1) c m by (simp add: receive_i_frame_def liftH_def received_only_def st1_def Let_def)
  have st1: "telegram_count st1 = int k + 1" "rsn st1 = 2 * int (Suc k)" "sent st1 = []" "sock_open st1"
    using assms(1) next_rsn by (simp_all add: st1_def received_only_def recvseq_increment_def)
  define st2 where "st2 = (if t2_caller st1 = No_greenlet then st1\<lparr>t2_caller := Waiting\<rparr> else st1)"
  have st2: "telegram_count st2 = int k + 1" "rsn st2 = 2 * int (Suc k)" "sent st2 = []" "sock_open st2"
    using st1 by (simp_all add: st2_def)
  have handle: "handle_i_frame cf sc r st = (if telegram_count st2 \<ge> cf_w cf then send_frame cf st2 else dispatch_i_frame cf c st2)"
    using c(1) rec by (simp add: handle_i_frame_def liftH_def answer_i_frame_def st2_def Let_def)
  have request: "handle_request cf sc r st = bindH (handle_i_frame cf sc r st) (send_reply cf)"
    using rest drop by (simp add: handle_request_def)
  show "\<exists>st'. step cf sc (Request r) st = (st', Open) \<and> received_only (Suc k) st'" if "int k + 1 < cf_w cf"
  proof -
    have "handle_i_frame cf sc r st = (st2, Inr No_reply)"
      using that st2 ta handle by (simp add: dispatch_i_frame_def liftH_def)
    then show ?thesis using request st2 by (simp add: step_def status_of_def send_reply_def received_only_def)
  qed
  show "\<exists>st'. step cf sc (Request r) st = (st', Crashed TypeError) \<and> sent st' = []" if "cf_w cf \<le> int k + 1"
  proof -
    have "handle_i_frame cf sc r st = ((kill_t2 st2)\<lparr>telegram_count := 0\<rparr>, Inr (Octets_of (S_frame (rsn st2))))"
      using that st2 handle by (simp add: send_frame_def send_104frame_def)
    then show ?thesis using request st2 by (simp add: step_def status_of_def send_reply_def kill_t2_def)
  qed
qed

text \<open>C10. The acknowledgement that is due after \<open>w\<close> data frames is never sent: when \<open>w\<close> frames that the station does not answer have
  come in, iterating over the octets of the acknowledgement ends the connection with an exception.\<close>

theorem acknowledgement_crashes:
  assumes "cf_w cf = int (length frames)" and "frames \<noteq> []" and "length frames < 32768"
    and "\<forall>i < length frames. foreign_frame cf sc (2 * int i) (frames ! i)"
  shows "\<exists>st. run cf sc (map Request frames) (iec_init rs) = (st, Crashed TypeError) \<and> sent st = []"
proof -
  have "\<exists>st'. run cf sc (map Request fs) st = (st', Crashed TypeError) \<and> sent st' = []"
    if "received_only k st" "fs \<noteq> []" "k + length fs = length frames" "\<forall>i < length fs. foreign_frame cf sc (2 * int (k + i)) (fs ! i)" for k st fs
    using that
  proof (induction fs arbitrary: k st)
    case (Cons f fs)
    have f: "foreign_frame cf sc (2 * int k) f" using Cons.prems(4) by auto
    show ?case
    proof (cases "fs = []")
      case True
      with foreign_step(2) [OF Cons.prems(1) f] Cons.prems(3) assms(1,3) show ?thesis by auto
    next
      case False
      then obtain st1 where 1: "step cf sc (Request f) st = (st1, Open)" "received_only (Suc k) st1"
        using foreign_step(1) [OF Cons.prems(1) f] Cons.prems(3) assms(1,3) by (cases fs) auto
      have "\<forall>i < length fs. foreign_frame cf sc (2 * int (Suc k + i)) (fs ! i)"
        using Cons.prems(4) by (metis Suc_less_eq add_Suc_shift length_Cons nth_Cons_Suc)
      with Cons.IH [OF 1(2) False] Cons.prems(3) 1(1) show ?thesis by simp
    qed
  qed simp
  moreover have "received_only 0 (iec_init rs)" by (simp add: received_only_def iec_init_def)
  ultimately show ?thesis using assms(2,4) by simp
qed

end
