(* ===== verification/Iec104Demo.thy ===== *)
theory Iec104Demo
  imports Iec104Claims
begin

text \<open>
  One station, with a reading of packets by position in the place of Scapy's, on which the properties are applied; and the
  cases behind the findings.
\<close>

definition le16 :: "packet \<Rightarrow> nat \<Rightarrow> val" where
  "le16 r i = Num (uint (r ! i) + 256 * uint (r ! (i + 1)))"

text \<open>The fields that commands and interrogations use; a packet of six octets has no others.\<close>

definition read_i_frame :: "packet \<Rightarrow> fields result" where
  "read_i_frame r = (if length r < 6 then Inl StructError else Inr (map_of (
     [(''LenAPDU'', Num (uint (r ! 1))), (''SendSeq'', le16 r 2), (''RecvSeq'', le16 r 4)] @
     (if length r < 16 then [] else
       [(''TypeID'', Num (uint (r ! 6))), (''SQ'', Num (uint (r ! 7) div 128)), (''NoO'', Num (uint (r ! 7) mod 128)),
        (''COT'', Num (uint (r ! 8) mod 64)), (''COA'', le16 r 10),
        (''IOA'', Num (uint (r ! 12) + 256 * uint (r ! 13) + 65536 * uint (r ! 14))),
        (''SCS'', Num (uint (r ! 15) mod 2)), (''DCS'', Num (uint (r ! 15) mod 4)), (''QOI'', Num (uint (r ! 15)))]))))"

definition read_short :: "packet \<Rightarrow> fields result" where
  "read_short r = (if length r < 6 then Inl StructError else Inr (map_of [(''LenAPDU'', Num (uint (r ! 1))), (''RecvSeq'', le16 r 4)]))"

definition by_position :: scapy where
  "by_position = \<lparr>sc_i_frame = read_i_frame, sc_s_frame = read_short, sc_u_frame = read_short\<rparr>"

definition station :: conf where
  "station = \<lparr>common_address = 30720, cf_w = 8, MaxFrameSize = 254, natsorted = id, cf_spawn_none = True, cf_closed = OSError 9\<rparr>"

definition station_regs :: registers where
  "station_regs =
     [(''13_20'', \<lparr>category_id = 1, reg_addr = ''13_20'', reg_val = Num 0, relation = []\<rparr>),
      (''22_20'', \<lparr>category_id = 45, reg_addr = ''22_20'', reg_val = Num 0, relation = ''13_20''\<rparr>)]"

text \<open>STARTDT, an interrogation, and the command that switches \<open>22_20\<close>, with the number \<open>2 n\<close>.\<close>

definition startdt :: packet where "startdt = [0x68, 4, 0x07, 0, 0, 0]"

definition interrogation :: "8 word \<Rightarrow> packet" where
  "interrogation n = [0x68, 14, 2 * n, 0, 0, 0, 100, 1, 6, 0, 0, 0x78, 0, 0, 0, 20]"

definition switch_on :: "8 word \<Rightarrow> packet" where
  "switch_on n = [0x68, 14, 2 * n, 0, 0, 0, 45, 1, 6, 0, 0, 0x78, 0, 0x16, 0x14, 1]"

definition foreign :: "8 word \<Rightarrow> packet" where
  "foreign n = [0x68, 14, 2 * n, 0, 0, 0, 45, 1, 6, 0, 0, 0x79, 0, 0x16, 0x14, 1]"

definition values_of :: "registers \<Rightarrow> (string \<times> val) list" where
  "values_of rs = map (\<lambda>(k, r). (k, reg_val r)) rs"

lemma switched_on:
  "map content (i_frames (sent (fst (run station by_position [Request startdt, Request (switch_on 0)] (iec_init station_regs))))) =
     [(7, 0, 0, 1, [Infobj 45 [(''IOA'', Num 0x141600), (''SCS'', Num 1)]]),
      (11, 0, 0, 1, [Infobj 1 [(''IOA'', Num 0x140D00), (''SPI'', Num 1)]]),
      (10, 0, 0, 1, [Infobj 45 [(''IOA'', Num 0x141600), (''SCS'', Num 1)]])]"
  by code_simp

section \<open>Witnesses\<close>

lemma interrogated:
  "sent (fst (run station by_position [Request startdt, T3, Request (interrogation 0)] (iec_init [(''13_20'', \<lparr>category_id = 45, reg_addr = ''13_20'', reg_val = Num 0, relation = []\<rparr>)]))) =
    [U_frame STARTDT_con, U_frame TESTFR_act] @
    I_frame \<lparr>if_SendSeq = 0, if_RecvSeq = 2, if_SQ = 0, if_NoO = 1, if_PN = 0, if_COT = 7, if_COA = 30720, if_objs = [Infobj 100 [(''QOI'', Num 20)]]\<rparr> #
    [I_frame \<lparr>if_SendSeq = 2, if_RecvSeq = 2, if_SQ = 0, if_NoO = 1, if_PN = 0, if_COT = 10, if_COA = 30720, if_objs = [Infobj 100 [(''QOI'', Num 20)]]\<rparr>]"
  by code_simp

theorem data_needs_start_witness:
  "\<exists>us vs. [U_frame STARTDT_con, U_frame TESTFR_act] = us @ U_frame STARTDT_con # vs \<and> U_frame STOPDT_con \<notin> set vs"
  by (rule data_needs_start [OF interrogated])

definition demo_fields :: fields where
  "demo_fields = map_of [(''LenAPDU'', Num 14), (''TypeID'', Num 45), (''SQ'', Num 0), (''NoO'', Num 1), (''COT'', Num 6),
     (''IOA'', Num 0x141600), (''SCS'', Num 1), (''QOI'', Num 20)]"

definition demo_connection :: iec where
  "demo_connection = (iec_init station_regs)\<lparr>allow_DT := True\<rparr>"

theorem command_carried_out_witness:
  "let (st', r) = handle_single_command45 station demo_fields demo_connection; objs = [Infobj 45 [(''IOA'', Num 0x141600), (''SCS'', Num 1)]]
    in r = Inr () \<and> regs st' = set_val ''13_20'' (Num 1) (set_val ''22_20'' (Num 1) station_regs) \<and>
       (\<exists>gs. sent st' = map I_frame gs \<and>
         map content gs = map content [new_iframe 7 objs, new_iframe 11 [Infobj 1 [(''IOA'', Num 0x140D00), (''SPI'', Num 1)]], new_iframe 10 objs])"
proof -
  have f: "check_asdu_45 demo_fields Control = Inr ()" "demo_fields ''COT'' = Some (Num 6)" "demo_fields ''IOA'' = Some (Num 0x141600)"
    "demo_fields ''SCS'' = Some (Num 1)"
    by (simp_all add: check_asdu_45_def check_command_def num_def getfieldval_def int_of_def ensure_def cot_allowed_def demo_fields_def)
  have a: "hex_in_addr 0x141600 = Inr ''22_20''" "addr_in_hex ''13_20'' = Inr 0x140D00" by code_simp+
  have s: "show_nat 13 @ ''_'' @ show_nat 20 = ''13_20''" by code_simp
  let ?obj = "\<lparr>category_id = 45, reg_addr = ''22_20'', reg_val = Num 0, relation = ''13_20''\<rparr>"
  let ?rel = "\<lparr>category_id = 1, reg_addr = ''13_20'', reg_val = Num 0, relation = []\<rparr>"
  have b: "builds (new_iframe 7 [Infobj 45 [(''IOA'', Num 0x141600), (''SCS'', Num 1)]])"
    "builds (new_iframe 11 [Infobj 1 [(''IOA'', Num 0x140D00), (''SPI'', Num 1)]])"
    by code_simp+
  have r: "regs demo_connection = station_regs" "can_send station demo_connection" "sent demo_connection = []"
    "map_of station_regs ''22_20'' = Some ?obj" "map_of station_regs ''13_20'' = Some ?rel"
    by (simp_all add: demo_connection_def iec_init_def station_regs_def can_send_def station_def)
  show ?thesis
    using command_carried_out [of station demo_connection check_asdu_45 demo_fields "0x141600" "''SCS''" "Num 1" "''22_20''" ?obj 45 13 20 ?rel
        "\<lambda>ra v. new_iframe 11 [Infobj 1 [(''IOA'', Num ra), (''SPI'', v)]]"] f a s r b
    by (simp add: handle_single_command45_def)
qed

theorem interrogation_complete_witness:
  "\<exists>st' g1 gs g2. handle_inro_command100 station demo_fields demo_connection = (st', Inr ()) \<and> sent st' = map I_frame (g1 # gs @ [g2]) \<and>
    if_COT g1 = 7 \<and> if_COT g2 = 10 \<and> regs st' = station_regs \<and> (\<forall>g \<in> set gs. fits 254 g) \<and>
    concat (map if_objs gs) = [Infobj 1 [(''IOA'', Num 0x140D00), (''SPI'', Num 0)]] \<and>
    mset (concat (map if_objs gs)) = {#reported 1 \<lparr>category_id = 1, reg_addr = ''13_20'', reg_val = Num 0, relation = []\<rparr>#}"
proof -
  have s: "show_nat 13 @ ''_'' @ show_nat 20 = ''13_20''" "show_nat 22 @ ''_'' @ show_nat 20 = ''22_20''" by code_simp+
  have "\<forall>(k, r) \<in> set station_regs. \<exists>x \<le> 65535. \<exists>y \<le> 255. reg_addr r = show_nat x @ ''_'' @ show_nat y"
  proof -
    have "\<exists>x \<le> 65535. \<exists>y \<le> 255. ''13_20'' = show_nat x @ ''_'' @ show_nat y"
      by (rule exI [of _ 13], rule conjI [OF _ exI [of _ 20]]) (use s in simp_all)
    moreover have "\<exists>x \<le> 65535. \<exists>y \<le> 255. ''22_20'' = show_nat x @ ''_'' @ show_nat y"
      by (rule exI [of _ 22], rule conjI [OF _ exI [of _ 20]]) (use s in simp_all)
    ultimately show ?thesis by (simp add: station_regs_def)
  qed
  moreover have "concat (map (\<lambda>t. map (reported t) (registers_of t station_regs)) inro_types) = [Infobj 1 [(''IOA'', Num 0x140D00), (''SPI'', Num 0)]]"
    by code_simp
  moreover have "mset (map (\<lambda>(k, r). reported (category_id r) r)
      (filter (\<lambda>(k, r). category_id r \<in> {1, 3, 5, 7, 9, 11, 13}) station_regs)) =
    {#reported 1 \<lparr>category_id = 1, reg_addr = ''13_20'', reg_val = Num 0, relation = []\<rparr>#}"
    by (simp add: station_regs_def)
  moreover have "\<forall>(k, r) \<in> set station_regs. category_id r \<in> set inro_types \<longrightarrow> value_fits (category_id r) (reg_val r)"
    by (simp add: station_regs_def value_fits_def inro_types_def)
  ultimately show ?thesis
    using interrogation_complete [of station demo_connection demo_fields]
    by (simp add: demo_connection_def iec_init_def demo_fields_def station_def can_send_def)
qed

theorem acknowledgement_crashes_witness:
  "\<exists>st. run (station\<lparr>cf_w := 2\<rparr>) by_position (map Request [foreign 0, foreign 1]) (iec_init station_regs) = (st, Crashed TypeError) \<and> sent st = []"
proof -
  have "foreign_frame (station\<lparr>cf_w := 2\<rparr>) by_position 0 (foreign 0)" "foreign_frame (station\<lparr>cf_w := 2\<rparr>) by_position 2 (foreign 1)"
    by code_simp+
  then show ?thesis
    by (intro acknowledgement_crashes) (auto simp: station_def less_Suc_eq)
qed

section \<open>Cases behind the findings\<close>

text \<open>What waited in the buffer is sent again at every start.\<close>

lemma buffer_sent_again:
  "map if_COT (i_frames (sent (fst (run station by_position [Request (switch_on 0), Request startdt, Request startdt] (iec_init station_regs))))) =
    [7, 11, 10, 7, 11, 10]"
  by code_simp

text \<open>A command is carried out before data transfer has been started.\<close>

lemma command_before_start:
  "values_of (regs (fst (run station by_position [Request (switch_on 0)] (iec_init station_regs)))) = [(''13_20'', Num 1), (''22_20'', Num 1)]"
  by code_simp

text \<open>A frame whose length is wrong is logged and not counted, and its interrogation is answered.\<close>

lemma wrong_length_answered:
  "let st = fst (run station by_position [Request startdt, Request ([0, 17] @ interrogation 0 @ [0])] (iec_init station_regs))
   in rsn st = 0 \<and> map if_COT (i_frames (sent st)) = [7, 20, 10]"
  by code_simp

text \<open>A data frame without an ASDU ends the connection.\<close>

lemma empty_data_frame_raises:
  "snd (run station by_position [Request [0x68, 4, 0, 0, 0, 0]] (iec_init station_regs)) = Crashed AttributeError"
  by code_simp

text \<open>After the numbers have wrapped round, an acknowledgement of everything leaves the frames from before.\<close>

lemma acknowledged_after_wrap:
  "let f = (new_iframe 7 [])\<lparr>if_SendSeq := 65534\<rparr>;
       st = (iec_init [])\<lparr>ssn := 0, frame_objs := [f], sentmsgs := [Sent_i 0]\<rparr>
   in sentmsgs (fst (step station by_position (Request [0x68, 4, 1, 0, 0, 0]) st)) = [Sent_i 0]"
  by code_simp

lemma scaled_value_unchecked: "category_ok 11 (Num 100000)"
  by code_simp

text \<open>A register with such a value ends the connection that interrogates it.\<close>

lemma scaled_value_crashes:
  "snd (run station by_position [Request startdt, Request (interrogation 0)]
    (iec_init [(''13_20'', \<lparr>category_id = 11, reg_addr = ''13_20'', reg_val = Num 100000, relation = []\<rparr>)])) = Crashed StructError"
  by code_simp

end
