(* ===== verification/S7comm.thy ===== *)
theory S7comm
  imports PyStr Octets Docs
begin

text \<open>
  Conpot's S7 server: \<open>conpot/protocols/s7comm/tpkt.py\<close>, \<open>cotp.py\<close>, \<open>s7.py\<close> and \<open>s7_server.py\<close>. The layers of a packet are
  records; what \<open>struct\<close> packs and unpacks is written out. The data bus and the lists of the template are arguments, and the
  peer is the list of the segments it sends.
\<close>

section \<open>Packing\<close>

type_synonym bytes8 = "8 word list"

abbreviation ParseException :: py_exn where
  "ParseException \<equiv> RuntimeError ''ParseException''"

abbreviation AssembleException :: py_exn where
  "AssembleException \<equiv> RuntimeError ''AssembleException''"

definition pack_B :: "int \<Rightarrow> bytes8 result" where
  "pack_B n = (if 0 \<le> n \<and> n < 256 then Inr [word_of_int n] else Inl StructError)"

definition pack_H :: "int \<Rightarrow> bytes8 result" where
  "pack_H n = (if 0 \<le> n \<and> n < 65536 then Inr [word_of_int (n div 256), word_of_int n] else Inl StructError)"

text \<open>The format \<open>ns\<close>: cut off or filled with zeros.\<close>

definition pack_s :: "nat \<Rightarrow> bytes8 \<Rightarrow> bytes8 result" where
  "pack_s n bs = Inr (take n bs @ replicate (n - length bs) 0)"

fun packs :: "bytes8 result list \<Rightarrow> bytes8 result" where
  "packs [] = Inr []"
| "packs (r # rs) = bindE r (\<lambda>b. bindE (packs rs) (\<lambda>bs. Inr (b @ bs)))"

definition word16 :: "8 word \<Rightarrow> 8 word \<Rightarrow> int" where
  "word16 a b = uint a * 256 + uint b"

definition unpack_H :: "bytes8 \<Rightarrow> int result" where
  "unpack_H bs = (case bs of [a, b] \<Rightarrow> Inr (word16 a b) | _ \<Rightarrow> Inl StructError)"

text \<open>Values that are bytes in one place and numbers or texts in another.\<close>

datatype pyval = Bytes bytes8 | Number int | Text string

definition str_to_bytes :: "pyval \<Rightarrow> bytes8 result" where
  "str_to_bytes v =
     (case v of
        Bytes bs \<Rightarrow> Inr bs
      | Number n \<Rightarrow> Inr (map (\<lambda>c. of_nat (code c)) (show_int n))
      | Text s \<Rightarrow> if \<forall>c \<in> set s. code c < 128 then Inr (map (\<lambda>c. of_nat (code c)) s) else Inl ValueError)"

definition py_len :: "pyval \<Rightarrow> int result" where
  "py_len v = (case v of Bytes bs \<Rightarrow> Inr (int (length bs)) | Text s \<Rightarrow> Inr (int (length s)) | Number _ \<Rightarrow> Inl TypeError)"

section \<open>TPKT\<close>

record tpkt =
  tp_version :: int
  tp_reserved :: int
  tp_packet_length :: int
  tp_payload :: bytes8

definition TPKT :: "int \<Rightarrow> bytes8 \<Rightarrow> tpkt" where
  "TPKT version payload = \<lparr>tp_version = version, tp_reserved = 0, tp_packet_length = int (length payload) + 4, tp_payload = payload\<rparr>"

definition tpkt_pack :: "tpkt \<Rightarrow> bytes8 result" where
  "tpkt_pack t = packs [pack_B (tp_version t), pack_B (tp_reserved t), pack_H (tp_packet_length t), Inr (tp_payload t)]"

text \<open>The payload is cut at four octets more than the packet has.\<close>

definition tpkt_parse :: "bytes8 \<Rightarrow> tpkt result" where
  "tpkt_parse packet =
     (case take 4 packet of
        [v, r, a, b] \<Rightarrow> Inr \<lparr>tp_version = uint v, tp_reserved = uint r, tp_packet_length = word16 a b,
          tp_payload = take (nat (word16 a b)) (drop 4 packet)\<rparr>
      | _ \<Rightarrow> Inl ParseException)"

section \<open>COTP\<close>

record cotp =
  co_packet_length :: int
  co_tpdu_type :: int
  co_opt_field :: int
  co_payload :: bytes8
  co_trailer :: bytes8

definition COTP :: "int \<Rightarrow> int \<Rightarrow> bytes8 \<Rightarrow> cotp" where
  "COTP tpdu_type opt_field payload =
     \<lparr>co_packet_length = (if tpdu_type = 240 then 2 else 1 + int (length payload)), co_tpdu_type = tpdu_type,
      co_opt_field = opt_field, co_payload = payload, co_trailer = []\<rparr>"

definition cotp_pack :: "cotp \<Rightarrow> bytes8 result" where
  "cotp_pack c =
     (if co_tpdu_type c = 0xF0
      then packs [pack_B (co_packet_length c), pack_B (co_tpdu_type c), pack_B (co_opt_field c), Inr (co_payload c), Inr (co_trailer c)]
      else packs [pack_B (co_packet_length c), pack_B (co_tpdu_type c), Inr (co_payload c), Inr (co_trailer c)])"

definition cotp_parse :: "bytes8 \<Rightarrow> cotp result" where
  "cotp_parse packet =
     (case take 3 packet of
        [n, t, opt] \<Rightarrow>
          let k = 1 + unat n
          in Inr (if t = 0xF0
             then \<lparr>co_packet_length = uint n, co_tpdu_type = uint t, co_opt_field = uint opt, co_payload = drop 3 (take k packet), co_trailer = drop k packet\<rparr>
             else \<lparr>co_packet_length = uint n, co_tpdu_type = uint t, co_opt_field = 0, co_payload = drop 2 (take k packet), co_trailer = drop k packet\<rparr>)
      | _ \<Rightarrow> Inl ParseException)"

record connection_packet =
  cp_dst_ref :: int
  cp_src_ref :: int
  cp_opt_field :: int
  cp_src_tsap :: int
  cp_dst_tsap :: int
  cp_tpdu_size :: int

definition COTPConnectionPacket :: connection_packet where
  "COTPConnectionPacket = \<lparr>cp_dst_ref = 0, cp_src_ref = 0, cp_opt_field = 0, cp_src_tsap = 0, cp_dst_tsap = 0, cp_tpdu_size = 0\<rparr>"

text \<open>The parameters of the packet, each with a code and a length.\<close>

function dissect_params :: "bytes8 \<Rightarrow> connection_packet \<Rightarrow> connection_packet result" where
  "dissect_params chunk p =
     (case chunk of
        [] \<Rightarrow> Inr p
      | [_] \<Rightarrow> Inl StructError
      | c # n # rest \<Rightarrow>
          bindE (if n = 1 then (case take 1 rest of [a] \<Rightarrow> Inr (uint a) | _ \<Rightarrow> Inl StructError)
                 else if n = 2 then unpack_H (take 2 rest) else Inl ParseException) (\<lambda>v.
          if c = 0xC1 then dissect_params (drop (unat n) rest) (p\<lparr>cp_src_tsap := v\<rparr>)
          else if c = 0xC2 then dissect_params (drop (unat n) rest) (p\<lparr>cp_dst_tsap := v\<rparr>)
          else if c = 0xC0 then dissect_params (drop (unat n) rest) (p\<lparr>cp_tpdu_size := v\<rparr>)
          else Inl ParseException))"
  by pat_completeness auto
termination by (relation "measure (\<lambda>(chunk, _). length chunk)") auto

definition dissect :: "bytes8 \<Rightarrow> connection_packet \<Rightarrow> connection_packet result" where
  "dissect packet p =
     (case take 5 packet of
        [a, b, c, d, opt] \<Rightarrow>
          dissect_params (drop 5 packet) (p\<lparr>cp_dst_ref := word16 a b, cp_src_ref := word16 c d, cp_opt_field := uint opt\<rparr>)
      | _ \<Rightarrow> Inl ParseException)"

text \<open>The constructors set the fields and then call the constructor of their class, which sets all of them to zero.\<close>

definition COTP_ConnectionConfirm :: "int \<Rightarrow> int \<Rightarrow> int \<Rightarrow> int \<Rightarrow> int \<Rightarrow> int \<Rightarrow> connection_packet" where
  "COTP_ConnectionConfirm dst_ref src_ref opt src_tsap dst_tsap tpdu_size =
     (let p = COTPConnectionPacket\<lparr>cp_dst_ref := dst_ref, cp_src_ref := src_ref, cp_opt_field := opt, cp_src_tsap := src_tsap,
          cp_dst_tsap := dst_tsap, cp_tpdu_size := tpdu_size\<rparr>
      in p\<lparr>cp_dst_ref := 0, cp_src_ref := 0, cp_opt_field := 0, cp_src_tsap := 0, cp_dst_tsap := 0, cp_tpdu_size := 0\<rparr>)"

definition confirm_assemble :: "connection_packet \<Rightarrow> bytes8 result" where
  "confirm_assemble p = packs
     [pack_H (cp_dst_ref p), pack_H (cp_src_ref p), pack_B (cp_opt_field p), pack_B 0xC1, pack_B 2, pack_H (cp_src_tsap p),
      pack_B 0xC2, pack_B 2, pack_H (cp_dst_tsap p)]"

definition request_assemble :: "connection_packet \<Rightarrow> bytes8 result" where
  "request_assemble p = packs
     [pack_H (cp_dst_ref p), pack_H (cp_src_ref p), pack_B (cp_opt_field p), pack_B 0xC1, pack_B 2, pack_H (cp_src_tsap p),
      pack_B 0xC2, pack_B 2, pack_H (cp_dst_tsap p), pack_B 0xC0, pack_B 1, pack_B (cp_tpdu_size p)]"

section \<open>S7\<close>

text \<open>\<open>parse\<close> stores what \<open>unpack\<close> returns, a tuple of one number, which cannot be packed again.\<close>

datatype result_info = Info int | Info_tuple int

record s7 =
  s7_magic :: int
  s7_pdu_type :: int
  s7_reserved :: int
  s7_request_id :: int
  s7_param_length :: int
  s7_data_length :: int
  s7_result_info :: result_info
  s7_parameters :: pyval
  s7_data :: pyval

definition S7 :: "int \<Rightarrow> int \<Rightarrow> int \<Rightarrow> int \<Rightarrow> pyval \<Rightarrow> pyval \<Rightarrow> s7 result" where
  "S7 pdu_type reserved request_id result_info parameters data =
     bindE (py_len data) (\<lambda>n. Inr
       \<lparr>s7_magic = 0x32, s7_pdu_type = pdu_type, s7_reserved = reserved, s7_request_id = request_id,
        s7_param_length = (case parameters of Bytes bs \<Rightarrow> int (length bs) | Number k \<Rightarrow> int (length (show_int k)) | Text s \<Rightarrow> int (length s)),
        s7_data_length = n, s7_result_info = Info result_info, s7_parameters = parameters, s7_data = data\<rparr>)"

definition s7_pack :: "s7 \<Rightarrow> bytes8 result" where
  "s7_pack s =
     (if s7_pdu_type s \<notin> {1, 2, 3, 7} then Inl AssembleException
      else packs ([pack_B (s7_magic s), pack_B (s7_pdu_type s), pack_H (s7_reserved s), pack_H (s7_request_id s),
             pack_H (s7_param_length s), pack_H (s7_data_length s)] @
           (if s7_pdu_type s \<in> {2, 3} then [case s7_result_info s of Info k \<Rightarrow> pack_H k | Info_tuple _ \<Rightarrow> Inl StructError] else []) @
           [str_to_bytes (s7_parameters s), str_to_bytes (s7_data s)]))"

text \<open>With the packet, its first parameter.\<close>

definition s7_parse :: "bytes8 \<Rightarrow> (s7 \<times> int) result" where
  "s7_parse packet =
     (case take 10 packet of
        [magic, t, r1, r2, i1, i2, p1, p2, d1, d2] \<Rightarrow>
          if magic \<noteq> 0x32 then Inl ParseException
          else
            let off = (if t \<in> {2, 3} then 12 else 10); np = nat (word16 p1 p2); nd = nat (word16 d1 d2);
                ps = take np (drop off packet); ds = take nd (drop np (drop off packet))
            in bindE (if t \<in> {2, 3} then bindE (unpack_H (take 2 (drop 10 packet))) (\<lambda>k. Inr (Info_tuple k)) else Inr (Info 0)) (\<lambda>info.
               case ps of
                 [] \<Rightarrow> Inl ParseException
               | param # _ \<Rightarrow> Inr (\<lparr>s7_magic = uint magic, s7_pdu_type = uint t, s7_reserved = word16 r1 r2, s7_request_id = word16 i1 i2,
                   s7_param_length = word16 p1 p2, s7_data_length = word16 d1 d2, s7_result_info = info, s7_parameters = Bytes ps,
                   s7_data = Bytes ds\<rparr>, uint param))
      | _ \<Rightarrow> Inl ParseException)"

section \<open>System status lists\<close>

text \<open>The lists of the template, which map items to keys of the data bus, and the data bus.\<close>

record plc =
  ssl_lists :: "string \<Rightarrow> (string \<Rightarrow> string option) option"
  data_bus :: "string \<Rightarrow> string option"

definition ssl_list :: "plc \<Rightarrow> string \<Rightarrow> (string \<Rightarrow> string option) result" where
  "ssl_list g name = (case ssl_lists g name of None \<Rightarrow> Inl KeyError | Some l \<Rightarrow> Inr l)"

definition bus_value :: "plc \<Rightarrow> (string \<Rightarrow> string option) \<Rightarrow> string \<Rightarrow> bytes8 result" where
  "bus_value g current item =
     (case current item of
        None \<Rightarrow> Inl KeyError
      | Some key \<Rightarrow> (case data_bus g key of None \<Rightarrow> Inl (RuntimeError ''AssertionError'') | Some v \<Rightarrow> str_to_bytes (Text v)))"

definition ssl_params :: bytes8 where
  "ssl_params = [0x00, 0x01, 0x12, 0x08, 0x12, 0x84, 0x01, 0x01]"

definition ssl_head :: "bytes8 \<Rightarrow> bytes8 result" where
  "ssl_head data = packs [pack_B 0xFF, pack_B 0x09, pack_H (int (length data))]"

text \<open>An index of None is the empty text that stands for a missing one. Packing \<open>"V3"\<close> as a number raises.\<close>

definition request_ssl_17 :: "plc \<Rightarrow> int option \<Rightarrow> (pyval \<times> pyval) result" where
  "request_ssl_17 g index =
     bindE (ssl_list g ''W#16#xy11'') (\<lambda>current.
     if index = Some 1 then
       bindE (bus_value g current ''W#16#0001'') (\<lambda>v.
       bindE (packs [pack_H 17, pack_H 1, pack_H 28, pack_H 1, pack_H 1, pack_s 20 v, pack_H 0, pack_H 0, pack_H 0]) (\<lambda>data.
       bindE (ssl_head data) (\<lambda>head. Inr (Bytes ssl_params, Bytes (head @ data)))))
     else if index = Some 6 then bindE (bus_value g current ''W#16#0006'') (\<lambda>v. Inl StructError)
     else if index = Some 7 then Inl StructError
     else if index = None then Inl TypeError
     else Inr (Bytes ssl_params, Text []))"

definition request_ssl_28 :: "plc \<Rightarrow> int option \<Rightarrow> (pyval \<times> pyval) result" where
  "request_ssl_28 g index =
     bindE (ssl_list g ''W#16#xy1C'') (\<lambda>current.
     case index of
       None \<Rightarrow> Inl StructError
     | Some i \<Rightarrow>
         bindE (packs
           [pack_H 28, pack_H i, pack_H 34, pack_H 8,
            pack_H 1, bindE (bus_value g current ''W#16#0001'') (pack_s 24), pack_s 8 [],
            pack_H 2, bindE (bus_value g current ''W#16#0002'') (pack_s 24), pack_s 8 [],
            pack_H 3, bindE (bus_value g current ''W#16#0003'') (pack_s 32),
            pack_H 4, bindE (bus_value g current ''W#16#0004'') (pack_s 26), pack_s 6 [],
            pack_H 5, bindE (bus_value g current ''W#16#0005'') (pack_s 24), pack_s 8 [],
            pack_H 7, bindE (bus_value g current ''W#16#0007'') (pack_s 32),
            pack_H 10, bindE (bus_value g current ''W#16#000A'') (pack_s 20), pack_s 6 [], pack_s 2 [], pack_s 4 [],
            pack_H 11, bindE (bus_value g current ''W#16#000B'') (pack_s 32)]) (\<lambda>data.
         bindE (ssl_head data) (\<lambda>head. Inr (Bytes ssl_params, Bytes (head @ data)))))"

text \<open>The first block of data that asks for a list that exists is answered; the identifiers of missing lists are skipped.\<close>

function diagnose :: "plc \<Rightarrow> bytes8 \<Rightarrow> (pyval \<times> pyval) result" where
  "diagnose g chunk =
     (if chunk = [] then Inr (Number 0, Number 0)
      else case take 4 chunk of
        [_, _, a, b] \<Rightarrow>
          let n = word16 a b
          in bindE (if n > 0 then bindE (unpack_H (take 2 (drop 4 chunk))) (\<lambda>i. Inr (Some i)) else Inr None) (\<lambda>ssl_id.
             bindE (if n > 1 then bindE (unpack_H (take 2 (drop 6 chunk))) (\<lambda>i. Inr (Some i)) else Inr None) (\<lambda>index.
             if ssl_id = Some 17 then request_ssl_17 g index
             else if ssl_id = Some 28 then request_ssl_28 g index
             else diagnose g (drop (4 + nat n) chunk)))
      | _ \<Rightarrow> Inl ParseException)"
  by pat_completeness auto
termination by (relation "measure (\<lambda>(_, chunk). length chunk)") auto

definition pyval_bytes :: "pyval \<Rightarrow> bytes8" where
  "pyval_bytes v = (case v of Bytes bs \<Rightarrow> bs | _ \<Rightarrow> [])"

definition request_diagnostics :: "plc \<Rightarrow> s7 \<Rightarrow> (pyval \<times> pyval) result" where
  "request_diagnostics g s =
     (if length (pyval_bytes (s7_parameters s)) < 8 then Inl ParseException else diagnose g (pyval_bytes (s7_data s)))"

definition plc_stop_signal :: "(pyval \<times> pyval) result" where
  "plc_stop_signal = bindE (str_to_bytes (Text ''0x00'')) (\<lambda>p. bindE (str_to_bytes (Text ''0x29'')) (\<lambda>d. Inr (Bytes p, Bytes d)))"

text \<open>None is what falling off the end of the method returns, which cannot be unpacked into two values.\<close>

definition s7_handle :: "plc \<Rightarrow> s7 \<Rightarrow> int \<Rightarrow> (pyval \<times> pyval) result" where
  "s7_handle g s param =
     (if param = 0x29 then plc_stop_signal
      else if param = 0 then request_diagnostics g s
      else if param \<in> {4, 5, 0x1A, 0x1B, 0x1C, 0x1D, 0x1E, 0x1F, 0x28} then Inl ParseException
      else Inl TypeError)"

section \<open>The server\<close>

datatype s7_event = New_connection | Connection_lost | Error string | Traffic bytes8 bytes8

text \<open>\<open>packet.decode("latin-1").replace("b", "")\<close>: every octet that is the letter b is removed.\<close>

definition cleanse_byte_string :: "bytes8 \<Rightarrow> bytes8" where
  "cleanse_byte_string packet = filter (\<lambda>x. x \<noteq> 0x62) packet"

text \<open>\<open>recv\<close> with and without \<open>MSG_WAITALL\<close>; nothing is read when the peer has closed.\<close>

fun recv_waitall :: "nat \<Rightarrow> bytes8 list \<Rightarrow> bytes8 \<times> bytes8 list" where
  "recv_waitall n [] = ([], [])"
| "recv_waitall n (c # cs) =
     (if n = 0 then ([], c # cs)
      else if length c \<le> n then (case recv_waitall (n - length c) cs of (b, ds) \<Rightarrow> (c @ b, ds))
      else (take n c, drop n c # cs))"

fun recv_some :: "nat \<Rightarrow> bytes8 list \<Rightarrow> bytes8 \<times> bytes8 list" where
  "recv_some n [] = ([], [])"
| "recv_some n (c # cs) = (take n c, if length c \<le> n then cs else drop n c # cs)"

text \<open>An S7 packet in a COTP packet in a TPKT packet, and back.\<close>

definition wrap :: "s7 \<Rightarrow> bytes8 result" where
  "wrap s = bindE (s7_pack s) (\<lambda>p. bindE (cotp_pack (COTP 0xF0 0x80 p)) (\<lambda>c. tpkt_pack (TPKT 3 c)))"

definition unwrap :: "bytes8 \<Rightarrow> cotp result" where
  "unwrap data = bindE (tpkt_parse data) (\<lambda>t. cotp_parse (tp_payload t))"

text \<open>The answer to a connection request, or the type of another packet.\<close>

definition confirm_request :: "bytes8 \<Rightarrow> (int + bytes8) result" where
  "confirm_request data =
     bindE (unwrap (cleanse_byte_string data)) (\<lambda>c.
     if co_tpdu_type c = 0xE0 then
       bindE (dissect (co_payload c) COTPConnectionPacket) (\<lambda>r.
       bindE (confirm_assemble (COTP_ConnectionConfirm (cp_src_ref r) (cp_dst_ref r) 0 (cp_src_tsap r) (cp_dst_tsap r) 0x0A)) (\<lambda>cc.
       bindE (cotp_pack (COTP 0xD0 0 cc)) (\<lambda>b. bindE (tpkt_pack (TPKT 3 b)) (\<lambda>t. Inr (Inr t)))))
     else Inr (Inl (co_tpdu_type c)))"

text \<open>The answer to what follows: None for an S7 packet that does not negotiate.\<close>

definition negotiate :: "bytes8 \<Rightarrow> (int + bytes8 option) result" where
  "negotiate data =
     bindE (unwrap data) (\<lambda>c.
     if co_tpdu_type c = 0xF0 then
       bindE (s7_parse (co_trailer c)) (\<lambda>(s, param).
       if s7_pdu_type s = 1 \<and> param = 0xF0 then
         bindE (S7 3 0 (s7_request_id s) 0 (s7_parameters s) (Text [])) (\<lambda>r. bindE (wrap r) (\<lambda>t. Inr (Inr (Some t))))
       else Inr (Inr None))
     else Inr (Inl (co_tpdu_type c)))"

definition s7_answer :: "plc \<Rightarrow> bytes8 \<Rightarrow> bytes8 option result" where
  "s7_answer g data =
     bindE (unwrap data) (\<lambda>c.
     if co_tpdu_type c = 0xF0 then
       bindE (s7_parse (co_trailer c)) (\<lambda>(s, param).
       bindE (s7_handle g s param) (\<lambda>(response_param, response_data).
       bindE (S7 7 0 (s7_request_id s) 0 response_param response_data) (\<lambda>r. bindE (wrap r) (\<lambda>t. Inr (Some t)))))
     else Inr None)"

definition total :: "bytes8 list \<Rightarrow> nat" where
  "total cs = length (concat cs)"

lemma recv_some_total: "recv_some n cs = (b, ds) \<Longrightarrow> total ds + length b = total cs"
  by (cases cs) (auto simp: total_def split: if_splits)

lemma recv_waitall_total: "recv_waitall n cs = (b, ds) \<Longrightarrow> total ds + length b = total cs"
  by (induction n cs arbitrary: b ds rule: recv_waitall.induct) (fastforce simp: total_def split: if_splits prod.splits)+

lemma recv_less:
  "recv_some n cs = (b, ds) \<Longrightarrow> b \<noteq> [] \<Longrightarrow> total ds < total cs"
  "recv_waitall n cs = (b, ds) \<Longrightarrow> b \<noteq> [] \<Longrightarrow> total ds < total cs"
  using recv_some_total [of n cs b ds] recv_waitall_total [of n cs b ds] by (cases b; simp)+

lemma recv_le:
  "recv_some n cs = (b, ds) \<Longrightarrow> total ds \<le> total cs"
  "recv_waitall n cs = (b, ds) \<Longrightarrow> total ds \<le> total cs"
  using recv_some_total [of n cs b ds] recv_waitall_total [of n cs b ds] by simp_all

text \<open>The loop after the handshake; it gives back what is left of the stream when nothing is read. What one call of \<open>recv\<close>
  returns is taken for one request: an element of the list is a segment as it arrives, of which a call takes at most 1024 octets.\<close>

function serve_requests :: "plc \<Rightarrow> bytes8 list \<Rightarrow> s7_event list \<times> bytes8 list result" where
  "serve_requests g cs =
     (case recv_some 1024 cs of (data, ds) \<Rightarrow>
        if data = [] then ([], Inr ds)
        else case s7_answer g data of
          Inl e \<Rightarrow> ([], Inl e)
        | Inr None \<Rightarrow> serve_requests g ds
        | Inr (Some t) \<Rightarrow> (case serve_requests g ds of (es, r) \<Rightarrow> (Traffic data t # es, r)))"
  by pat_completeness auto
termination
  by (relation "measure (\<lambda>(_, cs). total cs)") (auto dest!: sym [of _ "recv_some _ _"] intro: recv_less)

declare serve_requests.simps [simp del]

lemma serve_requests_total: "serve_requests g cs = (es, Inr ds) \<Longrightarrow> total ds \<le> total cs"
proof (induction g cs arbitrary: es ds rule: serve_requests.induct)
  case (1 g cs)
  obtain data rest where r: "recv_some 1024 cs = (data, rest)" by (cases "recv_some 1024 cs") auto
  note t = recv_some_total [OF r]
  show ?case
    using 1 t r by (subst (asm) (3) serve_requests.simps) (fastforce split: if_splits sum.splits option.splits prod.splits)
qed

definition unknown_tpdu :: "string \<Rightarrow> int \<Rightarrow> s7_event" where
  "unknown_tpdu w t = Error (''Received unknown COTP TPDU '' @ w @ '' handshake: '' @ show_int t)"

text \<open>A connection; an exception ends it with no event of its own.\<close>

function s7_serve :: "plc \<Rightarrow> bytes8 list \<Rightarrow> s7_event list \<times> unit result" where
  "s7_serve g cs =
     (case recv_waitall 4 cs of (head, ds) \<Rightarrow>
        if head = [] then ([Connection_lost], Inr ())
        else if length head < 4 then ([], Inl StructError)
        else if word16 (head ! 2) (head ! 3) \<le> 4 then ([Error ''S7 error: Invalid length''], Inr ())
        else case recv_waitall (nat (word16 (head ! 2) (head ! 3)) - 4) ds of (rest, es) \<Rightarrow>
          case confirm_request (head @ rest) of
            Inl e \<Rightarrow> ([], Inl e)
          | Inr (Inl t) \<Rightarrow> (case s7_serve g es of (vs, r) \<Rightarrow> (unknown_tpdu ''before'' t # vs, r))
          | Inr (Inr t) \<Rightarrow>
              (case recv_some 1024 es of (data, fs) \<Rightarrow>
                 case negotiate data of
                   Inl e \<Rightarrow> ([Traffic (head @ rest) t], Inl e)
                 | Inr (Inl k) \<Rightarrow> (case s7_serve g fs of (vs, r) \<Rightarrow> (Traffic (head @ rest) t # unknown_tpdu ''after'' k # vs, r))
                 | Inr (Inr None) \<Rightarrow> (case s7_serve g fs of (vs, r) \<Rightarrow> (Traffic (head @ rest) t # vs, r))
                 | Inr (Inr (Some u)) \<Rightarrow>
                     (case serve_requests g fs of
                        (us, Inl e) \<Rightarrow> (Traffic (head @ rest) t # Traffic data u # us, Inl e)
                      | (us, Inr gs) \<Rightarrow> (case s7_serve g gs of (vs, r) \<Rightarrow> (Traffic (head @ rest) t # Traffic data u # us @ vs, r)))))"
  by pat_completeness auto
termination
  by (relation "measure (\<lambda>(_, cs). total cs)")
    (auto dest!: sym [of _ "recv_some _ _"] sym [of _ "recv_waitall _ _"] sym [of _ "serve_requests _ _"] recv_less(2) [where n = 4],
     (auto dest!: recv_le serve_requests_total))

declare s7_serve.simps [simp del]

definition handle_s7 :: "plc \<Rightarrow> bytes8 list \<Rightarrow> s7_event list \<times> unit result" where
  "handle_s7 g cs = (case s7_serve g cs of (es, r) \<Rightarrow> (New_connection # es, r))"

end
