(* ===== verification/S7commFacts.thy ===== *)
theory S7commFacts
  imports S7comm
begin

text \<open>
  What is proved of the S7 server: the layers of a packet are read back as written, what a session answers, and what the
  confirmation of a connection says.
\<close>

section \<open>Layers\<close>

lemma packs_Cons_Inr: "packs (r # rs) = Inr out \<longleftrightarrow> (\<exists>b bs. r = Inr b \<and> packs rs = Inr bs \<and> out = b @ bs)"
  by (auto simp: bindE_eq_Inr_iff)

lemma pack_B_Inr: "pack_B n = Inr b \<Longrightarrow> \<exists>x. b = [x] \<and> uint x = n"
  by (auto simp: pack_B_def split: if_splits)

lemma pack_word_Inr: "pack_H n = Inr b \<Longrightarrow> \<exists>x y. b = [x, y] \<and> word16 x y = n"
proof -
  assume *: "pack_H n = Inr b"
  then have n: "0 \<le> n" "n < 65536" by (auto simp: pack_H_def split: if_splits)
  then have "word16 (word_of_int (n div 256)) (word_of_int n) = n" using two_bytes [of n] by (simp add: word16_def)
  with * n show ?thesis by (intro exI [of _ "word_of_int (n div 256)"] exI [of _ "word_of_int n"]) (simp add: pack_H_def)
qed

lemma uint_eq_byte: "uint (x :: 8 word) = uint y \<longleftrightarrow> x = y"
  by (rule word_uint_eq_iff [symmetric])

lemma pack_magic: "pack_B 0x32 = Inr [0x32]"
  by (simp add: pack_B_def)

lemma packs_all: "packs rs = Inr out \<Longrightarrow> r \<in> set rs \<Longrightarrow> \<exists>b. r = Inr b"
  by (induction rs arbitrary: out) auto

lemma unwrap_wrapped:
  assumes "cotp_pack (COTP 0xF0 0x80 p) = Inr c" and "tpkt_pack (TPKT 3 c) = Inr bs"
  shows "\<exists>k. unwrap bs = Inr k \<and> co_tpdu_type k = 0xF0 \<and> co_trailer k = p"
proof -
  have c: "c = [2, 0xF0, 0x80] @ p" using assms(1) by (auto simp: cotp_pack_def COTP_def pack_B_def)
  obtain x y where H: "pack_H (int (length c) + 4) = Inr [x, y]" "word16 x y = int (length c) + 4" "bs = [3, 0, x, y] @ c"
    using assms(2) pack_word_Inr [of "int (length c) + 4"]
    by (auto simp: tpkt_pack_def TPKT_def pack_B_def simp del: One_nat_def)
  then have "tpkt_parse bs = Inr \<lparr>tp_version = 3, tp_reserved = 0, tp_packet_length = int (length c) + 4, tp_payload = c\<rparr>"
    by (simp add: tpkt_parse_def)
  then show ?thesis by (simp add: unwrap_def cotp_parse_def c)
qed

lemma s7_parse_bytes:
  assumes "word16 p1 p2 = int (length (p # ps))" and "word16 d1 d2 = int (length ds)"
  shows "t \<notin> {2, 3} \<Longrightarrow> s7_parse ([0x32, t, r1, r2, i1, i2, p1, p2, d1, d2] @ (p # ps) @ ds) =
      Inr (\<lparr>s7_magic = 0x32, s7_pdu_type = uint t, s7_reserved = word16 r1 r2, s7_request_id = word16 i1 i2, s7_param_length = word16 p1 p2,
        s7_data_length = word16 d1 d2, s7_result_info = Info 0, s7_parameters = Bytes (p # ps), s7_data = Bytes ds\<rparr>, uint p)"
    and "t \<in> {2, 3} \<Longrightarrow> s7_parse ([0x32, t, r1, r2, i1, i2, p1, p2, d1, d2, f1, f2] @ (p # ps) @ ds) =
      Inr (\<lparr>s7_magic = 0x32, s7_pdu_type = uint t, s7_reserved = word16 r1 r2, s7_request_id = word16 i1 i2, s7_param_length = word16 p1 p2,
        s7_data_length = word16 d1 d2, s7_result_info = Info_tuple (word16 f1 f2), s7_parameters = Bytes (p # ps), s7_data = Bytes ds\<rparr>, uint p)"
proof -
  have n: "nat (word16 p1 p2) = length (p # ps)" "nat (word16 d1 d2) = length ds" using assms by simp_all
  show "t \<notin> {2, 3} \<Longrightarrow> s7_parse ([0x32, t, r1, r2, i1, i2, p1, p2, d1, d2] @ (p # ps) @ ds) =
      Inr (\<lparr>s7_magic = 0x32, s7_pdu_type = uint t, s7_reserved = word16 r1 r2, s7_request_id = word16 i1 i2, s7_param_length = word16 p1 p2,
        s7_data_length = word16 d1 d2, s7_result_info = Info 0, s7_parameters = Bytes (p # ps), s7_data = Bytes ds\<rparr>, uint p)"
    by (simp add: s7_parse_def Let_def n del: drop_drop)
  show "t \<in> {2, 3} \<Longrightarrow> s7_parse ([0x32, t, r1, r2, i1, i2, p1, p2, d1, d2, f1, f2] @ (p # ps) @ ds) =
      Inr (\<lparr>s7_magic = 0x32, s7_pdu_type = uint t, s7_reserved = word16 r1 r2, s7_request_id = word16 i1 i2, s7_param_length = word16 p1 p2,
        s7_data_length = word16 d1 d2, s7_result_info = Info_tuple (word16 f1 f2), s7_parameters = Bytes (p # ps), s7_data = Bytes ds\<rparr>, uint p)"
    by (auto simp: s7_parse_def Let_def n unpack_H_def simp del: drop_drop)
qed

text \<open>C29. A packet that is packed into its three layers and read back is the same packet: the S7 packet is what is found
  behind the COTP header, with its fields, its parameters and its data; only the result of a response comes back in a tuple.\<close>

theorem s7_layers_roundtrip:
  assumes "S7 t reserved request_id info (Bytes (p # ps)) (Bytes ds) = Inr s" and "wrap s = Inr bs" and "t \<in> {2, 3} \<or> info = 0"
  shows "\<exists>c. unwrap bs = Inr c \<and> co_tpdu_type c = 0xF0 \<and> s7_parse (co_trailer c) = Inr (if t \<in> {2, 3} then s\<lparr>s7_result_info := Info_tuple info\<rparr> else s, uint p)"
proof -
  obtain q c where q: "s7_pack s = Inr q" "cotp_pack (COTP 0xF0 0x80 q) = Inr c" "tpkt_pack (TPKT 3 c) = Inr bs"
    using assms(2) by (auto simp: wrap_def)
  obtain k where k: "unwrap bs = Inr k" "co_tpdu_type k = 0xF0" "co_trailer k = q"
    using unwrap_wrapped [OF q(2,3)] by blast
  have s: "s = \<lparr>s7_magic = 0x32, s7_pdu_type = t, s7_reserved = reserved, s7_request_id = request_id, s7_param_length = int (length (p # ps)),
      s7_data_length = int (length ds), s7_result_info = Info info, s7_parameters = Bytes (p # ps), s7_data = Bytes ds\<rparr>"
    using assms(1) by (simp add: S7_def py_len_def)
  have t: "t \<in> {1, 2, 3, 7}" using q(1) by (auto simp: s7_pack_def s split: if_splits)
  obtain bt r1 r2 i1 i2 p1 p2 d1 d2 where b: "pack_B t = Inr [bt]" "uint bt = t" "pack_H reserved = Inr [r1, r2]" "word16 r1 r2 = reserved"
    "pack_H request_id = Inr [i1, i2]" "word16 i1 i2 = request_id" "pack_H (int (length (p # ps))) = Inr [p1, p2]"
    "word16 p1 p2 = int (length (p # ps))" "pack_H (int (length ds)) = Inr [d1, d2]" "word16 d1 d2 = int (length ds)"
  proof -
    have "packs ([pack_B 0x32, pack_B t, pack_H reserved, pack_H request_id, pack_H (int (length (p # ps))), pack_H (int (length ds))] @
        (if t \<in> {2, 3} then [pack_H info] else []) @ [Inr (p # ps), Inr ds]) = Inr q"
      using q(1) if_not_P [of "s7_pdu_type s \<notin> {1, 2, 3, 7}"] t
      by (auto simp: s7_pack_def s str_to_bytes_def simp del: packs.simps length_Cons of_nat_Suc)
    note all = packs_all [OF this]
    obtain bt where 1: "pack_B t = Inr [bt]" "uint bt = t" using all [of "pack_B t"] pack_B_Inr [of t] by auto
    obtain r1 r2 where 2: "pack_H reserved = Inr [r1, r2]" "word16 r1 r2 = reserved" using all [of "pack_H reserved"] pack_word_Inr [of reserved] by auto
    obtain i1 i2 where 3: "pack_H request_id = Inr [i1, i2]" "word16 i1 i2 = request_id" using all [of "pack_H request_id"] pack_word_Inr [of request_id] by auto
    obtain p1 p2 where 4: "pack_H (int (length (p # ps))) = Inr [p1, p2]" "word16 p1 p2 = int (length (p # ps))"
      using all [of "pack_H (int (length (p # ps)))"] pack_word_Inr [of "int (length (p # ps))"] by (auto simp del: length_Cons of_nat_Suc)
    obtain d1 d2 where 5: "pack_H (int (length ds)) = Inr [d1, d2]" "word16 d1 d2 = int (length ds)"
      using all [of "pack_H (int (length ds))"] pack_word_Inr [of "int (length ds)"] by auto
    show thesis by (rule that [OF 1 2 3 4 5])
  qed
  have "s7_parse q = Inr (if t \<in> {2, 3} then s\<lparr>s7_result_info := Info_tuple info\<rparr> else s, uint p)"
  proof (cases "t \<in> {2, 3}")
    case True
    then have bt: "bt \<in> {2, 3}" using b(2) by (auto simp flip: uint_eq_byte)
    obtain f1 f2 where f: "pack_H info = Inr [f1, f2]" "word16 f1 f2 = info"
      using q(1) True b pack_word_Inr [of info]
      by (cases "pack_H info") (auto simp: s7_pack_def s str_to_bytes_def pack_magic simp del: length_Cons of_nat_Suc)
    have "q = [0x32, bt, r1, r2, i1, i2, p1, p2, d1, d2, f1, f2] @ (p # ps) @ ds"
      using q(1) True b f by (auto simp: s7_pack_def s str_to_bytes_def pack_magic simp del: length_Cons of_nat_Suc)
    then show ?thesis using s7_parse_bytes(2) [OF b(8,10) bt] b f True by (auto simp add: s simp del: length_Cons of_nat_Suc)
  next
    case False
    then have bt: "bt \<notin> {2, 3}" using b(2) by (auto simp flip: uint_eq_byte)
    have "q = [0x32, bt, r1, r2, i1, i2, p1, p2, d1, d2] @ (p # ps) @ ds"
      using q(1) False t b by (auto simp: s7_pack_def s str_to_bytes_def pack_magic simp del: length_Cons of_nat_Suc)
    then show ?thesis using s7_parse_bytes(1) [OF b(8,10) bt] b assms(3) False by (simp add: s del: length_Cons of_nat_Suc)
  qed
  with k show ?thesis by auto
qed

section \<open>Sessions\<close>

lemma confirm_assembled:
  "confirm_assemble (COTP_ConnectionConfirm d s opt st dt n) = Inr [0, 0, 0, 0, 0, 0xC1, 2, 0, 0, 0xC2, 2, 0, 0]"
  by (simp add: confirm_assemble_def COTP_ConnectionConfirm_def Let_def pack_B_def pack_H_def)

text \<open>Every connection request that is accepted gets the same octets as its confirmation: the references and access points
  it named are not among them, though the confirmation is built from them.\<close>

theorem confirmation_forgets:
  assumes "confirm_request data = Inr (Inr t)"
  shows "t = [3, 0, 0, 19, 14, 0xD0, 0, 0, 0, 0, 0, 0xC1, 2, 0, 0, 0xC2, 2, 0, 0]"
  using assms by (auto simp: confirm_request_def confirm_assembled cotp_pack_def COTP_def tpkt_pack_def TPKT_def pack_B_def pack_H_def
      split: if_splits)

lemma serve_requests_answers:
  assumes "list_all2 (\<lambda>q t. q \<noteq> [] \<and> length q \<le> 1024 \<and> s7_answer g q = Inr (Some t)) reqs resps"
  shows "serve_requests g reqs = (map2 Traffic reqs resps, Inr [])"
  using assms by (induction rule: list_all2_induct) (simp_all add: serve_requests.simps [of g "[]"] serve_requests.simps [of g "_ # _"])

lemma serve_end: "s7_serve g [] = ([Connection_lost], Inr ())"
  by (simp add: s7_serve.simps)

lemma waitall_exact [simp]: "c \<noteq> [] \<Longrightarrow> recv_waitall (length c) (c # cs) = (c, cs)"
  by (cases cs) simp_all

text \<open>A session whose requests are all answered is answered in order.\<close>

lemma session_answers:
  assumes "cr = v # r # a # b # body" and "body \<noteq> []" and "word16 a b = int (length cr)" and "confirm_request cr = Inr (Inr cc)"
    and "neg \<noteq> []" and "length neg \<le> 1024" and "negotiate neg = Inr (Inr (Some nr))"
    and "list_all2 (\<lambda>q t. q \<noteq> [] \<and> length q \<le> 1024 \<and> s7_answer g q = Inr (Some t)) reqs resps"
  shows "handle_s7 g (cr # neg # reqs) =
    (New_connection # Traffic cr cc # Traffic neg nr # map2 Traffic reqs resps @ [Connection_lost], Inr ())"
proof -
  have "recv_waitall 4 (cr # neg # reqs) = ([v, r, a, b], body # neg # reqs)"
    using assms(1,2) by (cases body) auto
  moreover have "nat (word16 a b) - 4 = length body" "\<not> word16 a b \<le> 4" using assms(1-3) by (auto simp: Suc_le_eq)
  moreover have "recv_waitall (length body) (body # neg # reqs) = (body, neg # reqs)" using assms(2) by simp
  moreover have "recv_some 1024 (neg # reqs) = (neg, reqs)" using assms(6) by simp
  ultimately have "s7_serve g (cr # neg # reqs) = (Traffic cr cc # Traffic neg nr # map2 Traffic reqs resps @ [Connection_lost], Inr ())"
    using assms(1,4,7) serve_requests_answers [OF assms(8)]
    by (subst s7_serve.simps) (simp add: serve_end del: recv_waitall.simps recv_some.simps)
  then show ?thesis by (simp add: handle_s7_def)
qed

section \<open>A client\<close>

text \<open>What a client of a PLC sends: the connection request, the negotiation, and requests to stop and for the two lists, each with
  a number of its own. What is free in them are octets.\<close>

definition client_connect :: "8 word \<times> 8 word \<Rightarrow> 8 word \<times> 8 word \<Rightarrow> 8 word \<times> 8 word \<Rightarrow> 8 word \<times> 8 word \<Rightarrow> 8 word \<Rightarrow> bytes8" where
  "client_connect dst src src_tsap dst_tsap tpdu =
     [3, 0, 0, 22, 17, 0xE0, fst dst, snd dst, fst src, snd src, 0, 0xC1, 2, fst src_tsap, snd src_tsap,
      0xC2, 2, fst dst_tsap, snd dst_tsap, 0xC0, 1, tpdu]"

definition client_negotiate :: "8 word \<times> 8 word \<Rightarrow> 8 word \<times> 8 word \<Rightarrow> 8 word \<times> 8 word \<Rightarrow> 8 word \<times> 8 word \<Rightarrow> bytes8" where
  "client_negotiate i calling called pdu =
     [3, 0, 0, 25, 2, 0xF0, 0x80, 0x32, 1, 0, 0, fst i, snd i, 0, 8, 0, 0,
      0xF0, 0, fst calling, snd calling, fst called, snd called, fst pdu, snd pdu]"

datatype ask =
    Stop "8 word \<times> 8 word"
  | Module_identification "8 word \<times> 8 word"
  | Component_identification "8 word \<times> 8 word" "8 word \<times> 8 word"

definition diagnostics_request :: "8 word \<times> 8 word \<Rightarrow> 8 word \<Rightarrow> 8 word \<times> 8 word \<Rightarrow> bytes8" where
  "diagnostics_request i ssl k =
     [3, 0, 0, 33, 2, 0xF0, 0x80, 0x32, 7, 0, 0, fst i, snd i, 0, 8, 0, 8,
      0, 1, 0x12, 4, 0x11, 0x44, 1, 0, 0xFF, 9, 0, 4, 0, ssl, fst k, snd k]"

fun client_request :: "ask \<Rightarrow> bytes8" where
  "client_request (Stop i) = [3, 0, 0, 18, 2, 0xF0, 0x80, 0x32, 1, 0, 0, fst i, snd i, 0, 1, 0, 0, 0x29]"
| "client_request (Module_identification i) = diagnostics_request i 17 (0, 1)"
| "client_request (Component_identification i k) = diagnostics_request i 28 k"

text \<open>The octets of an item of a list, when the template has the list and the item and its text is ASCII.\<close>

definition item_bytes :: "plc \<Rightarrow> string \<Rightarrow> string \<Rightarrow> bytes8 option" where
  "item_bytes g list item =
     (case ssl_lists g list of
        None \<Rightarrow> None
      | Some l \<Rightarrow> (case l item of
          None \<Rightarrow> None
        | Some key \<Rightarrow> (case data_bus g key of
            None \<Rightarrow> None
          | Some s \<Rightarrow> if \<forall>c \<in> set s. code c < 128 then Some (map (\<lambda>c. of_nat (code c)) s) else None)))"

definition padded :: "plc \<Rightarrow> string \<Rightarrow> string \<Rightarrow> nat \<Rightarrow> bytes8" where
  "padded g list item n = (let b = the (item_bytes g list item) in take n b @ replicate (n - length b) 0)"

definition component_items :: "string list" where
  "component_items = [''W#16#0001'', ''W#16#0002'', ''W#16#0003'', ''W#16#0004'', ''W#16#0005'', ''W#16#0007'', ''W#16#000A'', ''W#16#000B'']"

fun can_answer :: "plc \<Rightarrow> ask \<Rightarrow> bool" where
  "can_answer g (Stop i) = True"
| "can_answer g (Module_identification i) = (item_bytes g ''W#16#xy11'' ''W#16#0001'' \<noteq> None)"
| "can_answer g (Component_identification i k) = list_all (\<lambda>x. item_bytes g ''W#16#xy1C'' x \<noteq> None) component_items"

text \<open>The answers: a fixed one to a stop, and the records of the lists, filled up with zeros.\<close>

fun plc_response :: "plc \<Rightarrow> ask \<Rightarrow> bytes8" where
  "plc_response g (Stop i) =
     [3, 0, 0, 25, 2, 0xF0, 0x80, 0x32, 7, 0, 0, fst i, snd i, 0, 4, 0, 4, 0x30, 0x78, 0x30, 0x30, 0x30, 0x78, 0x32, 0x39]"
| "plc_response g (Module_identification i) =
     [3, 0, 0, 65, 2, 0xF0, 0x80, 0x32, 7, 0, 0, fst i, snd i, 0, 8, 0, 40] @ ssl_params @
     [0xFF, 9, 0, 36, 0, 17, 0, 1, 0, 28, 0, 1, 0, 1] @ padded g ''W#16#xy11'' ''W#16#0001'' 20 @ [0, 0, 0, 0, 0, 0]"
| "plc_response g (Component_identification i k) =
     [3, 0, 1, 53, 2, 0xF0, 0x80, 0x32, 7, 0, 0, fst i, snd i, 0, 8, 1, 28] @ ssl_params @
     [0xFF, 9, 1, 24, 0, 28, fst k, snd k, 0, 34, 0, 8] @
     [0, 1] @ padded g ''W#16#xy1C'' ''W#16#0001'' 24 @ replicate 8 0 @
     [0, 2] @ padded g ''W#16#xy1C'' ''W#16#0002'' 24 @ replicate 8 0 @
     [0, 3] @ padded g ''W#16#xy1C'' ''W#16#0003'' 32 @
     [0, 4] @ padded g ''W#16#xy1C'' ''W#16#0004'' 26 @ replicate 6 0 @
     [0, 5] @ padded g ''W#16#xy1C'' ''W#16#0005'' 24 @ replicate 8 0 @
     [0, 7] @ padded g ''W#16#xy1C'' ''W#16#0007'' 32 @
     [0, 10] @ padded g ''W#16#xy1C'' ''W#16#000A'' 20 @ replicate 12 0 @
     [0, 11] @ padded g ''W#16#xy1C'' ''W#16#000B'' 32"

lemma pack_H_word16 [simp]: "pack_H (word16 a b) = Inr [a, b]"
proof -
  have "0 \<le> uint a" "uint a < 256" "0 \<le> uint b" "uint b < 256" using uint_lt2p [of a] uint_lt2p [of b] by simp_all
  then have "0 \<le> word16 a b" "word16 a b < 65536" "word16 a b div 256 = uint a" "word16 a b mod 256 = uint b"
    unfolding word16_def by (linarith, linarith, linarith, simp add: mod_pos_pos_trivial)
  moreover have "word_of_int (word16 a b) = (word_of_int (word16 a b mod 256) :: 8 word)"
    by (simp add: word_of_int_eq_iff take_bit_eq_mod)
  ultimately show ?thesis by (simp add: pack_H_def)
qed

lemma item_bytes_bus:
  assumes "item_bytes g list item \<noteq> None"
  obtains l where "ssl_list g list = Inr l" "bus_value g l item = Inr (the (item_bytes g list item))"
  using assms that by (auto simp: item_bytes_def ssl_list_def bus_value_def str_to_bytes_def split: option.splits if_splits)

lemma length_padded [simp]: "length (padded g list item n) = n"
  by (simp add: padded_def Let_def)

lemma wrapped:
  assumes "length q + 7 < 65536"
  shows "bindE (cotp_pack (COTP 0xF0 0x80 q)) (\<lambda>c. tpkt_pack (TPKT 3 c)) =
    Inr ([3, 0, word_of_int (int (length q + 7) div 256), word_of_int (int (length q + 7)), 2, 0xF0, 0x80] @ q)"
  using assms by (simp add: cotp_pack_def COTP_def tpkt_pack_def TPKT_def pack_B_def pack_H_def add.commute)

lemma client_confirmed:
  assumes "0x62 \<notin> set [fst dst, snd dst, fst src, snd src, fst src_tsap, snd src_tsap, fst dst_tsap, snd dst_tsap, tpdu]"
  shows "confirm_request (client_connect dst src src_tsap dst_tsap tpdu) = Inr (Inr [3, 0, 0, 19, 14, 0xD0, 0, 0, 0, 0, 0, 0xC1, 2, 0, 0, 0xC2, 2, 0, 0])"
proof -
  have clean: "cleanse_byte_string (client_connect dst src src_tsap dst_tsap tpdu) = client_connect dst src src_tsap dst_tsap tpdu"
    using assms by (simp add: cleanse_byte_string_def client_connect_def)
  have parsed: "\<exists>c. unwrap (client_connect dst src src_tsap dst_tsap tpdu) = Inr c \<and> co_tpdu_type c = 0xE0 \<and>
      co_payload c = [fst dst, snd dst, fst src, snd src, 0, 0xC1, 2, fst src_tsap, snd src_tsap, 0xC2, 2, fst dst_tsap, snd dst_tsap, 0xC0, 1, tpdu]"
    by (simp add: unwrap_def tpkt_parse_def cotp_parse_def client_connect_def word16_def)
  then obtain c where c: "unwrap (client_connect dst src src_tsap dst_tsap tpdu) = Inr c" "co_tpdu_type c = 0xE0"
    "co_payload c = [fst dst, snd dst, fst src, snd src, 0, 0xC1, 2, fst src_tsap, snd src_tsap, 0xC2, 2, fst dst_tsap, snd dst_tsap, 0xC0, 1, tpdu]"
    by blast
  have "\<exists>r. dissect (co_payload c) COTPConnectionPacket = Inr r"
    unfolding c(3) by (simp add: dissect_def unpack_H_def)
  then obtain r where "dissect (co_payload c) COTPConnectionPacket = Inr r" by blast
  with c(1,2) show ?thesis
    by (simp add: confirm_request_def clean confirm_assembled cotp_pack_def COTP_def tpkt_pack_def TPKT_def pack_B_def pack_H_def)
qed

lemma client_unwrapped:
  "\<exists>c. unwrap (client_negotiate i a b p) = Inr c \<and> co_tpdu_type c = 0xF0 \<and> co_trailer c = drop 7 (client_negotiate i a b p)"
  "\<exists>c. unwrap (client_request k) = Inr c \<and> co_tpdu_type c = 0xF0 \<and> co_trailer c = drop 7 (client_request k)"
  by (simp add: unwrap_def tpkt_parse_def cotp_parse_def client_negotiate_def word16_def)
    (cases k; simp add: unwrap_def tpkt_parse_def cotp_parse_def diagnostics_request_def word16_def)

lemma client_negotiated:
  "negotiate (client_negotiate i a b p) = Inr (Inr (Some
     [3, 0, 0, 27, 2, 0xF0, 0x80, 0x32, 3, 0, 0, fst i, snd i, 0, 8, 0, 0, 0, 0, 0xF0, 0, fst a, snd a, fst b, snd b, fst p, snd p]))"
proof -
  obtain c where c: "unwrap (client_negotiate i a b p) = Inr c" "co_tpdu_type c = 0xF0" "co_trailer c = drop 7 (client_negotiate i a b p)"
    using client_unwrapped(1) by blast
  have "s7_parse (drop 7 (client_negotiate i a b p)) = Inr (\<lparr>s7_magic = 0x32, s7_pdu_type = 1, s7_reserved = 0, s7_request_id = word16 (fst i) (snd i),
      s7_param_length = 8, s7_data_length = 0, s7_result_info = Info 0,
      s7_parameters = Bytes [0xF0, 0, fst a, snd a, fst b, snd b, fst p, snd p], s7_data = Bytes []\<rparr>, 0xF0)"
    by (simp add: s7_parse_def client_negotiate_def word16_def)
  then show ?thesis
    using c by (simp add: negotiate_def S7_def py_len_def wrap_def s7_pack_def str_to_bytes_def wrapped pack_B_def pack_H_def [of 0] pack_H_def [of 8])
qed

lemma answered:
  assumes "unwrap d = Inr c" and "co_tpdu_type c = 0xF0" and "s7_parse (co_trailer c) = Inr (s, param)" and "s7_request_id s = word16 x y"
    and "s7_handle g s param = Inr (Bytes ps, Bytes ds)" and "length ps < 200" and "length ds < 60000"
  shows "s7_answer g d = Inr (Some ([3, 0, word_of_int (int (length ps + length ds + 17) div 256), word_of_int (int (length ps + length ds + 17)),
      2, 0xF0, 0x80, 0x32, 7, 0, 0, x, y, word_of_int (int (length ps) div 256), word_of_int (int (length ps)),
      word_of_int (int (length ds) div 256), word_of_int (int (length ds))] @ ps @ ds))"
  using assms by (simp add: s7_answer_def S7_def py_len_def wrap_def s7_pack_def str_to_bytes_def wrapped pack_B_def pack_H_def [of 0]
      pack_H_def [of "int (length _)"] add.commute add.left_commute)

lemma pad_item: "pack_s n (the (item_bytes g l x)) = Inr (padded g l x n)"
  by (simp add: pack_s_def padded_def Let_def)

lemma module_identified:
  assumes "item_bytes g ''W#16#xy11'' ''W#16#0001'' \<noteq> None"
  shows "request_ssl_17 g (Some 1) = Inr (Bytes ssl_params, Bytes ([0xFF, 9, 0, 36, 0, 17, 0, 1, 0, 28, 0, 1, 0, 1] @
    padded g ''W#16#xy11'' ''W#16#0001'' 20 @ [0, 0, 0, 0, 0, 0]))"
proof -
  obtain l where "ssl_list g ''W#16#xy11'' = Inr l"
    "bus_value g l ''W#16#0001'' = Inr (the (item_bytes g ''W#16#xy11'' ''W#16#0001''))"
    using item_bytes_bus [OF assms] .
  then show ?thesis
    by (simp add: request_ssl_17_def pad_item pack_H_def ssl_head_def pack_B_def)
qed

lemma components_identified:
  assumes "list_all (\<lambda>x. item_bytes g ''W#16#xy1C'' x \<noteq> None) component_items"
  shows "request_ssl_28 g (Some (word16 a b)) = Inr (Bytes ssl_params, Bytes ([0xFF, 9, 1, 24, 0, 28, a, b, 0, 34, 0, 8] @
     [0, 1] @ padded g ''W#16#xy1C'' ''W#16#0001'' 24 @ replicate 8 0 @
     [0, 2] @ padded g ''W#16#xy1C'' ''W#16#0002'' 24 @ replicate 8 0 @
     [0, 3] @ padded g ''W#16#xy1C'' ''W#16#0003'' 32 @
     [0, 4] @ padded g ''W#16#xy1C'' ''W#16#0004'' 26 @ replicate 6 0 @
     [0, 5] @ padded g ''W#16#xy1C'' ''W#16#0005'' 24 @ replicate 8 0 @
     [0, 7] @ padded g ''W#16#xy1C'' ''W#16#0007'' 32 @
     [0, 10] @ padded g ''W#16#xy1C'' ''W#16#000A'' 20 @ replicate 12 0 @
     [0, 11] @ padded g ''W#16#xy1C'' ''W#16#000B'' 32))"
proof -
  obtain l where l: "ssl_list g ''W#16#xy1C'' = Inr l"
    using assms item_bytes_bus [of g "''W#16#xy1C''" "''W#16#0001''"] by (auto simp: component_items_def)
  have v: "bus_value g l x = Inr (the (item_bytes g ''W#16#xy1C'' x))" if "x \<in> set component_items" for x
    using assms that item_bytes_bus [of g "''W#16#xy1C''" x] l by (auto simp: list_all_iff)
  have zeros: "replicate 12 0 = (replicate 6 0 @ replicate 2 0 @ replicate 4 0 :: bytes8)"
    by (simp add: replicate_add [symmetric])
  show ?thesis
    using l v by (simp add: request_ssl_28_def component_items_def pad_item pack_s_def [of _ "[]"] pack_H_def [of "numeral _"] pack_H_def [of 1]
        ssl_head_def pack_B_def zeros)
qed

lemma diagnostics_parsed:
  "s7_parse (drop 7 (diagnostics_request i ssl k)) = Inr (\<lparr>s7_magic = 0x32, s7_pdu_type = 7, s7_reserved = 0, s7_request_id = word16 (fst i) (snd i),
     s7_param_length = 8, s7_data_length = 8, s7_result_info = Info 0, s7_parameters = Bytes [0, 1, 0x12, 4, 0x11, 0x44, 1, 0],
     s7_data = Bytes [0xFF, 9, 0, 4, 0, ssl, fst k, snd k]\<rparr>, 0)"
  by (simp add: s7_parse_def diagnostics_request_def word16_def)

lemma stop_answer: "plc_stop_signal = Inr (Bytes [0x30, 0x78, 0x30, 0x30], Bytes [0x30, 0x78, 0x32, 0x39])"
  by code_simp

lemma client_answered:
  assumes "can_answer g a"
  shows "s7_answer g (client_request a) = Inr (Some (plc_response g a))"
proof -
  obtain c where c: "unwrap (client_request a) = Inr c" "co_tpdu_type c = 0xF0" "co_trailer c = drop 7 (client_request a)"
    using client_unwrapped(2) by blast
  show ?thesis
  proof (cases a)
    case (Stop i)
    have "s7_parse (co_trailer c) = Inr (\<lparr>s7_magic = 0x32, s7_pdu_type = 1, s7_reserved = 0, s7_request_id = word16 (fst i) (snd i),
        s7_param_length = 1, s7_data_length = 0, s7_result_info = Info 0, s7_parameters = Bytes [0x29], s7_data = Bytes []\<rparr>, 0x29)"
      unfolding c(3) Stop by (simp add: s7_parse_def word16_def)
    from answered [OF c(1,2) this, of "fst i" "snd i" g "[0x30, 0x78, 0x30, 0x30]" "[0x30, 0x78, 0x32, 0x39]"] show ?thesis
      by (simp add: Stop s7_handle_def stop_answer)
  next
    case (Module_identification i)
    let ?d = "[0xFF, 9, 0, 36, 0, 17, 0, 1, 0, 28, 0, 1, 0, 1] @ padded g ''W#16#xy11'' ''W#16#0001'' 20 @ [0, 0, 0, 0, 0, 0]"
    have "diagnose g [0xFF, 9, 0, 4, 0, 17, 0, 1] = Inr (Bytes ssl_params, Bytes ?d)"
      using module_identified [of g] assms Module_identification by (subst diagnose.simps) (simp add: word16_def unpack_H_def)
    with answered [OF c(1,2) diagnostics_parsed [of i 17 "(0, 1)", folded client_request.simps(2), folded Module_identification, folded c(3)],
        of "fst i" "snd i" g ssl_params ?d]
    show ?thesis
      by (simp add: Module_identification s7_handle_def request_diagnostics_def pyval_bytes_def ssl_params_def)
  next
    case (Component_identification i k)
    let ?d = "[0xFF, 9, 1, 24, 0, 28, fst k, snd k, 0, 34, 0, 8] @
     [0, 1] @ padded g ''W#16#xy1C'' ''W#16#0001'' 24 @ replicate 8 0 @
     [0, 2] @ padded g ''W#16#xy1C'' ''W#16#0002'' 24 @ replicate 8 0 @
     [0, 3] @ padded g ''W#16#xy1C'' ''W#16#0003'' 32 @
     [0, 4] @ padded g ''W#16#xy1C'' ''W#16#0004'' 26 @ replicate 6 0 @
     [0, 5] @ padded g ''W#16#xy1C'' ''W#16#0005'' 24 @ replicate 8 0 @
     [0, 7] @ padded g ''W#16#xy1C'' ''W#16#0007'' 32 @
     [0, 10] @ padded g ''W#16#xy1C'' ''W#16#000A'' 20 @ replicate 12 0 @
     [0, 11] @ padded g ''W#16#xy1C'' ''W#16#000B'' 32"
    have "diagnose g [0xFF, 9, 0, 4, 0, 28, fst k, snd k] = Inr (Bytes ssl_params, Bytes ?d)"
      using components_identified [of g "fst k" "snd k"] assms Component_identification
      by (subst diagnose.simps) (simp add: word16_def [of 0] unpack_H_def del: append.simps replicate.simps)
    with answered [OF c(1,2) diagnostics_parsed [of i 28 k, folded client_request.simps(3), folded Component_identification, folded c(3)],
        of "fst i" "snd i" g ssl_params ?d]
    show ?thesis
      by (simp add: Component_identification s7_handle_def request_diagnostics_def pyval_bytes_def ssl_params_def)
  qed
qed

lemma client_request_segment [simp]: "client_request a \<noteq> []" "length (client_request a) \<le> 1024"
  by (cases a; simp add: diagnostics_request_def)+

text \<open>C30. A client that connects, negotiates and then stops the controller and asks for its identification, as often and in whatever
  order it likes, each message in a segment of its own, gets one answer to each message, in order: the fixed confirmation, the
  sizes it proposed, and for every request the answer with its number, which carries the items of the template. The template
  has the items that are asked for, as ASCII text, and the octets of the connection request are not the letter b.\<close>

theorem s7_session_answers:
  assumes "0x62 \<notin> set [fst dst, snd dst, fst src, snd src, fst src_tsap, snd src_tsap, fst dst_tsap, snd dst_tsap, tpdu]"
    and "\<forall>a \<in> set asks. can_answer g a"
  shows "handle_s7 g (client_connect dst src src_tsap dst_tsap tpdu # client_negotiate i calling called pdu # map client_request asks) =
    ([New_connection,
      Traffic (client_connect dst src src_tsap dst_tsap tpdu) [3, 0, 0, 19, 14, 0xD0, 0, 0, 0, 0, 0, 0xC1, 2, 0, 0, 0xC2, 2, 0, 0],
      Traffic (client_negotiate i calling called pdu) [3, 0, 0, 27, 2, 0xF0, 0x80, 0x32, 3, 0, 0, fst i, snd i, 0, 8, 0, 0, 0, 0,
        0xF0, 0, fst calling, snd calling, fst called, snd called, fst pdu, snd pdu]] @
     map (\<lambda>a. Traffic (client_request a) (plc_response g a)) asks @ [Connection_lost], Inr ())"
proof -
  have "list_all2 (\<lambda>q t. q \<noteq> [] \<and> length q \<le> 1024 \<and> s7_answer g q = Inr (Some t)) (map client_request asks) (map (plc_response g) asks)"
    using assms(2) by (simp add: list_all2_conv_all_nth client_answered)
  moreover have "map2 Traffic (map client_request asks) (map (plc_response g) asks) = map (\<lambda>a. Traffic (client_request a) (plc_response g a)) asks"
    by (induction asks) simp_all
  moreover have "client_negotiate i calling called pdu \<noteq> []" "length (client_negotiate i calling called pdu) \<le> 1024"
    by (simp_all add: client_negotiate_def)
  ultimately show ?thesis
    using session_answers [OF client_connect_def _ _ client_confirmed [OF assms(1)] _ _ client_negotiated [of i calling called pdu],
        of g "map client_request asks" "map (plc_response g) asks"]
    by (simp add: client_connect_def word16_def)
qed

section \<open>One session\<close>

definition demo_plc :: plc where
  "demo_plc = \<lparr>ssl_lists = map_of [(''W#16#xy11'', map_of [(''W#16#0001'', ''module''), (''W#16#0006'', ''empty'')])],
     data_bus = map_of [(''empty'', []), (''module'', ''6ES7'')]\<rparr>"

definition demo_connect :: bytes8 where
  "demo_connect = client_connect (0, 0) (0, 10) (1, 0) (1, 2) 10"

definition demo_negotiate :: bytes8 where
  "demo_negotiate = client_negotiate (0, 1) (0, 1) (0, 1) (3, 0xC0)"

definition demo_list :: "8 word \<Rightarrow> 8 word \<Rightarrow> bytes8" where
  "demo_list i k = [3, 0, 0, 33, 2, 0xF0, 0x80, 0x32, 7, 0, 0, 0, 3, 0, 8, 0, 8, 0, 1, 0x12, 4, 0x11, 0x44, 1, 0, 0xFF, 9, 0, 4, 0, i, 0, k]"

lemma demo_confirmed: "confirm_request demo_connect = Inr (Inr [3, 0, 0, 19, 14, 0xD0, 0, 0, 0, 0, 0, 0xC1, 2, 0, 0, 0xC2, 2, 0, 0])"
  by code_simp

theorem confirmation_forgets_witness:
  "confirm_request demo_connect = Inr (Inr [3, 0, 0, 19, 14, 0xD0, 0, 0, 0, 0, 0, 0xC1, 2, 0, 0, 0xC2, 2, 0, 0])"
  using confirmation_forgets [of demo_connect] demo_confirmed by blast

theorem s7_session_answers_witness:
  "handle_s7 demo_plc [demo_connect, demo_negotiate, client_request (Module_identification (0, 2)), client_request (Stop (0, 3))] =
    ([New_connection, Traffic demo_connect [3, 0, 0, 19, 14, 0xD0, 0, 0, 0, 0, 0, 0xC1, 2, 0, 0, 0xC2, 2, 0, 0],
      Traffic demo_negotiate [3, 0, 0, 27, 2, 0xF0, 0x80, 0x32, 3, 0, 0, 0, 1, 0, 8, 0, 0, 0, 0, 0xF0, 0, 0, 1, 0, 1, 3, 0xC0],
      Traffic (client_request (Module_identification (0, 2)))
        [3, 0, 0, 65, 2, 0xF0, 0x80, 0x32, 7, 0, 0, 0, 2, 0, 8, 0, 40, 0, 1, 0x12, 8, 0x12, 0x84, 1, 1, 0xFF, 9, 0, 36,
         0, 17, 0, 1, 0, 28, 0, 1, 0, 1, 0x36, 0x45, 0x53, 0x37, 0, 0, 0, 0, 0, 0, 0, 0, 0, 0, 0, 0, 0, 0, 0, 0, 0, 0, 0, 0, 0, 0],
      Traffic (client_request (Stop (0, 3)))
        [3, 0, 0, 25, 2, 0xF0, 0x80, 0x32, 7, 0, 0, 0, 3, 0, 4, 0, 4, 0x30, 0x78, 0x30, 0x30, 0x30, 0x78, 0x32, 0x39],
      Connection_lost], Inr ())"
proof -
  have r: "plc_response demo_plc (Module_identification (0, 2)) =
    [3, 0, 0, 65, 2, 0xF0, 0x80, 0x32, 7, 0, 0, 0, 2, 0, 8, 0, 40, 0, 1, 0x12, 8, 0x12, 0x84, 1, 1, 0xFF, 9, 0, 36,
     0, 17, 0, 1, 0, 28, 0, 1, 0, 1, 0x36, 0x45, 0x53, 0x37, 0, 0, 0, 0, 0, 0, 0, 0, 0, 0, 0, 0, 0, 0, 0, 0, 0, 0, 0, 0, 0, 0]"
    by code_simp
  have "can_answer demo_plc (Module_identification (0, 2))" by code_simp
  then show ?thesis
    using s7_session_answers [of "(0, 0)" "(0, 10)" "(1, 0)" "(1, 2)" 10
        "[Module_identification (0, 2), Stop (0, 3)]" demo_plc "(0, 1)" "(0, 1)" "(0, 1)" "(3, 0xC0)"]
    by (simp add: demo_connect_def demo_negotiate_def r del: client_request.simps plc_response.simps(2))
qed

theorem s7_layers_roundtrip_witness:
  "\<exists>c. unwrap [3, 0, 0, 20, 2, 0xF0, 0x80, 0x32, 7, 0, 0, 0, 2, 0, 1, 0, 2, 0x29, 5, 6] = Inr c \<and> co_tpdu_type c = 0xF0 \<and>
    s7_parse (co_trailer c) = Inr (\<lparr>s7_magic = 0x32, s7_pdu_type = 7, s7_reserved = 0, s7_request_id = 2, s7_param_length = 1,
      s7_data_length = 2, s7_result_info = Info 0, s7_parameters = Bytes [0x29], s7_data = Bytes [5, 6]\<rparr>, 0x29)"
proof -
  have "S7 7 0 2 0 (Bytes (0x29 # [])) (Bytes [5, 6]) = Inr \<lparr>s7_magic = 0x32, s7_pdu_type = 7, s7_reserved = 0, s7_request_id = 2, s7_param_length = 1,
      s7_data_length = 2, s7_result_info = Info 0, s7_parameters = Bytes [0x29], s7_data = Bytes [5, 6]\<rparr>"
    "wrap \<lparr>s7_magic = 0x32, s7_pdu_type = 7, s7_reserved = 0, s7_request_id = 2, s7_param_length = 1,
      s7_data_length = 2, s7_result_info = Info 0, s7_parameters = Bytes [0x29], s7_data = Bytes [5, 6]\<rparr> =
      Inr [3, 0, 0, 20, 2, 0xF0, 0x80, 0x32, 7, 0, 0, 0, 2, 0, 1, 0, 2, 0x29, 5, 6]"
    by code_simp+
  from s7_layers_roundtrip [OF this] show ?thesis by simp
qed

section \<open>Cases behind the findings\<close>

text \<open>The identification of the hardware and of the firmware cannot be packed.\<close>

lemma ssl_17_raises: "request_ssl_17 g (Some 6) \<noteq> Inr v" "request_ssl_17 g (Some 7) \<noteq> Inr v"
  by (auto simp: request_ssl_17_def bindE_eq_Inr_iff)

text \<open>A list that does not exist, and a second negotiation, end the session.\<close>

lemma unknown_list_raises: "s7_answer demo_plc (demo_list 99 1) = Inl TypeError"
  by code_simp

lemma second_negotiation_raises: "s7_answer demo_plc demo_negotiate = Inl TypeError"
  by code_simp

text \<open>A request whose source reference has the octet of the letter b loses it and is refused.\<close>

lemma cleansed_request_refused:
  "confirm_request [3, 0, 0, 22, 17, 0xE0, 0, 0, 0, 0x62, 0, 0xC1, 2, 1, 0, 0xC2, 2, 1, 2, 0xC0, 1, 10] = Inl ParseException"
  by code_simp

text \<open>Two packets that arrive together: the payload of the first has four octets of the second.\<close>

lemma payload_too_long: "map_sum id tp_payload (tpkt_parse ([3, 0, 0, 5, 1] @ [3, 0, 0, 5, 2])) = Inr [1, 3, 0, 0, 5]"
  by code_simp

text \<open>Two requests that arrive in one segment get one answer.\<close>

definition answers :: "s7_event list \<Rightarrow> nat" where
  "answers es = length (filter (\<lambda>e. case e of Traffic _ _ \<Rightarrow> True | _ \<Rightarrow> False) es) - 2"

lemma pipelined_lost:
  "answers (fst (handle_s7 demo_plc [demo_connect, demo_negotiate, client_request (Stop (0, 2)), client_request (Stop (0, 3))])) = 2"
  "answers (fst (handle_s7 demo_plc [demo_connect, demo_negotiate, client_request (Stop (0, 2)) @ client_request (Stop (0, 3))])) = 1"
  by code_simp+

end
