(* ===== verification/Databus.thy ===== *)
theory Databus
  imports PyInt
begin

text \<open>
  Conpot's data bus, \<open>conpot/core/databus.py\<close>: a store of values and of objects that are asked for a value, shared by every
  protocol, with callbacks for keys that are set. What the stored objects answer is a field of the state; a callback that
  \<open>gevent\<close> has spawned is an entry of a list until it runs.
\<close>

section \<open>Programs over the bus\<close>

datatype item = Plain pyval | Computed nat

record databus =
  bus_data :: "string \<Rightarrow> item option"
  bus_observers :: "string \<Rightarrow> nat list"
  bus_initialized :: bool
  bus_spawned :: "string list"
  bus_sense :: "nat \<Rightarrow> pyval"

type_synonym 'a busop = "databus \<Rightarrow> databus \<times> 'a result"

definition yield :: "'a \<Rightarrow> 'a busop" where
  "yield x b = (b, Inr x)"

definition lift :: "'a result \<Rightarrow> 'a busop" where
  "lift r b = (b, r)"

text \<open>What a program that raises has set before stays set.\<close>

definition andthen :: "'a busop \<Rightarrow> ('a \<Rightarrow> 'b busop) \<Rightarrow> 'b busop" where
  "andthen m f b = (case m b of (c, Inl e) \<Rightarrow> (c, Inl e) | (c, Inr x) \<Rightarrow> f x c)"

abbreviation seq :: "unit busop \<Rightarrow> 'b busop \<Rightarrow> 'b busop" where
  "seq m n \<equiv> andthen m (\<lambda>_. n)"

definition ifp :: "bool \<Rightarrow> unit busop \<Rightarrow> unit busop" where
  "ifp c m = (if c then m else yield ())"

lemma yield_simp [simp]: "yield x b = (b, Inr x)"
  by (simp add: yield_def)

lemma lift_simp [simp]: "lift r b = (b, r)"
  by (simp add: lift_def)

lemma andthen_Inr: "m b = (c, Inr x) \<Longrightarrow> andthen m f b = f x c"
  by (simp add: andthen_def)

lemma andthen_Inl: "m b = (c, Inl e) \<Longrightarrow> andthen m f b = (c, Inl e)"
  by (simp add: andthen_def)

lemma andthen_assoc: "andthen (andthen m f) g = andthen m (\<lambda>x. andthen (f x) g)"
  by (rule ext) (simp add: andthen_def split: prod.splits sum.splits)

section \<open>Operations\<close>

abbreviation AssertionError :: py_exn where
  "AssertionError \<equiv> RuntimeError ''AssertionError''"

definition get_value :: "string \<Rightarrow> pyval busop" where
  "get_value key b =
     (case bus_data b key of
        None \<Rightarrow> (b, Inl AssertionError)
      | Some (Computed k) \<Rightarrow> (b, Inr (bus_sense b k))
      | Some (Plain v) \<Rightarrow> (b, Inr v))"

definition set_item :: "string \<Rightarrow> item \<Rightarrow> unit busop" where
  "set_item key i b =
     (b\<lparr>bus_data := (bus_data b)(key \<mapsto> i), bus_spawned := bus_spawned b @ (if bus_observers b key \<noteq> [] then [key] else [])\<rparr>, Inr ())"

definition set_value :: "string \<Rightarrow> pyval \<Rightarrow> unit busop" where
  "set_value key v = set_item key (Plain v)"

definition observe_value :: "string \<Rightarrow> nat \<Rightarrow> databus \<Rightarrow> databus" where
  "observe_value key cb b = b\<lparr>bus_observers := (bus_observers b)(key := bus_observers b key @ [cb])\<rparr>"

text \<open>The callbacks that run when the scheduler reaches the first spawned call, with the bus left.\<close>

definition notify_observers :: "databus \<Rightarrow> (string \<times> nat list) option \<times> databus" where
  "notify_observers b =
     (case bus_spawned b of
        [] \<Rightarrow> (None, b)
      | key # keys \<Rightarrow> (Some (key, bus_observers b key), b\<lparr>bus_spawned := keys\<rparr>))"

definition reset :: "databus \<Rightarrow> databus" where
  "reset b = b\<lparr>bus_data := (\<lambda>_. None), bus_observers := (\<lambda>_. []), bus_initialized := False\<rparr>"

text \<open>
  An entry of the template: its key, its text and its kind. \<open>eval\<close> reads a text as a value of Python, \<open>mk\<close> creates the
  object that a function names; either may raise.
\<close>

record template_item =
  ti_key :: string
  ti_value :: string
  ti_type :: string
  ti_param :: "string option"

fun initialize_entries :: "(string \<Rightarrow> pyval result) \<Rightarrow> (string \<Rightarrow> string option \<Rightarrow> nat result) \<Rightarrow> template_item list \<Rightarrow> unit busop" where
  "initialize_entries eval mk [] b = (b, Inr ())"
| "initialize_entries eval mk (t # ts) b =
     (if bus_data b (ti_key t) \<noteq> None then (b, Inl AssertionError)
      else if ti_type t = ''value'' then
        seq (andthen (lift (eval (strip (ti_value t)))) (set_value (ti_key t))) (initialize_entries eval mk ts) b
      else if ti_type t = ''function'' then
        seq (andthen (lift (mk (strip (ti_value t)) (ti_param t))) (\<lambda>k. set_item (ti_key t) (Computed k))) (initialize_entries eval mk ts) b
      else (b, Inl (RuntimeError (''Unknown value type: '' @ ti_type t))))"

definition initialize :: "(string \<Rightarrow> pyval result) \<Rightarrow> (string \<Rightarrow> string option \<Rightarrow> nat result) \<Rightarrow> template_item list \<Rightarrow> unit busop" where
  "initialize eval mk ts b =
     (case initialize_entries eval mk ts (reset b) of
        (c, Inl e) \<Rightarrow> (c, Inl e)
      | (c, Inr _) \<Rightarrow> (c\<lparr>bus_initialized := True\<rparr>, Inr ()))"

section \<open>Reading and writing\<close>

lemma set_value_simp [simp]:
  "set_value key v b =
    (b\<lparr>bus_data := (bus_data b)(key \<mapsto> Plain v), bus_spawned := bus_spawned b @ (if bus_observers b key \<noteq> [] then [key] else [])\<rparr>, Inr ())"
  by (simp add: set_value_def set_item_def)

lemma get_value_Plain [simp]: "bus_data b key = Some (Plain v) \<Longrightarrow> get_value key b = (b, Inr v)"
  by (simp add: get_value_def)

lemma get_after_set: "fst (set_value k v b) = c \<Longrightarrow> get_value k' c = (if k' = k then (c, Inr v) else (c, snd (get_value k' b)))"
  by (cases "k' = k") (auto simp: get_value_def split: option.splits item.splits)

text \<open>A program keeps a predicate of the bus when it holds again after it, whether it returns or raises.\<close>

definition keeps :: "(databus \<Rightarrow> bool) \<Rightarrow> 'a busop \<Rightarrow> bool" where
  "keeps P m \<longleftrightarrow> (\<forall>b. P b \<longrightarrow> P (fst (m b)))"

lemma keeps_yield [inv_intros]: "keeps P (yield x)"
  by (simp add: keeps_def)

lemma keeps_lifted [inv_intros]: "keeps P (lift r)"
  by (simp add: keeps_def)

lemma keeps_get [inv_intros]: "keeps P (get_value k)"
  by (auto simp: keeps_def get_value_def split: option.splits item.splits)

lemma keeps_andthen [inv_intros]: "keeps P m \<Longrightarrow> (\<And>x. keeps P (f x)) \<Longrightarrow> keeps P (andthen m f)"
  by (fastforce simp: keeps_def andthen_def split: prod.splits sum.splits)

lemma keeps_ifp [inv_intros]: "(c \<Longrightarrow> keeps P m) \<Longrightarrow> keeps P (ifp c m)"
  by (simp add: ifp_def keeps_yield)

lemma keeps_cond [inv_intros]: "(c \<Longrightarrow> keeps P m) \<Longrightarrow> (\<not> c \<Longrightarrow> keeps P n) \<Longrightarrow> keeps P (if c then m else n)"
  by simp

text \<open>A program fails at most with the exceptions of a set when the bus satisfies a predicate, which it keeps.\<close>

definition raises_only :: "(databus \<Rightarrow> bool) \<Rightarrow> py_exn set \<Rightarrow> 'a busop \<Rightarrow> bool" where
  "raises_only P X m \<longleftrightarrow> (\<forall>b e. P b \<longrightarrow> snd (m b) = Inl e \<longrightarrow> e \<in> X)"

lemma raises_only_yield: "raises_only P X (yield x)"
  by (simp add: raises_only_def)

lemma raises_only_lift: "(\<And>e. r = Inl e \<Longrightarrow> e \<in> X) \<Longrightarrow> raises_only P X (lift r)"
  by (simp add: raises_only_def)

lemma raises_only_set: "raises_only P X (set_value k v)"
  by (simp add: raises_only_def)

lemma raises_only_andthen:
  "keeps P m \<Longrightarrow> raises_only P X m \<Longrightarrow> (\<And>x. raises_only P X (f x)) \<Longrightarrow> raises_only P X (andthen m f)"
  by (fastforce simp: keeps_def raises_only_def andthen_def split: prod.splits sum.splits)

lemma raises_only_ifp: "(c \<Longrightarrow> raises_only P X m) \<Longrightarrow> raises_only P X (ifp c m)"
  by (simp add: ifp_def raises_only_yield)

lemma raises_only_if: "(c \<Longrightarrow> raises_only P X m) \<Longrightarrow> (\<not> c \<Longrightarrow> raises_only P X n) \<Longrightarrow> raises_only P X (if c then m else n)"
  by simp

end
