(* ===== verification/PyCase.thy ===== *)
theory PyCase
  imports PyStr
begin

text \<open>
  \<open>str.upper\<close> on the characters modelled: the sharp s becomes two letters. The micro sign and the y with diaeresis become
  letters beyond the characters modelled here, which are not letters of any command, and are kept.
\<close>

definition upper_char :: "char \<Rightarrow> string" where
  "upper_char c = (let n = code c in
     if n = 223 then ''SS''
     else if 97 \<le> n \<and> n \<le> 122 \<or> 224 \<le> n \<and> n \<le> 254 \<and> n \<noteq> 247 then [char_of (n - 32)] else [c])"

definition upper :: "string \<Rightarrow> string" where
  "upper s = concat (map upper_char s)"

text \<open>\<open>s.split(" ", 1)\<close>: the first word, and the rest when there is a blank.\<close>

definition split_once :: "string \<Rightarrow> string \<times> string option" where
  "split_once s = (let w = takeWhile (\<lambda>c. c \<noteq> CHR '' '') s in (w, if length w < length s then Some (drop (length w + 1) s) else None))"

definition crlf :: string where
  "crlf = [CHR 0x0D, CHR 0x0A]"

text \<open>\<open>ascii(s)\<close>, what \<open>%a\<close> writes: quoted, with escapes for what is not printable ASCII.\<close>

definition low_hex :: "nat \<Rightarrow> char" where
  "low_hex n = ''0123456789abcdef'' ! n"

definition ascii_repr :: "string \<Rightarrow> string" where
  "ascii_repr s =
     (let q = (if CHR 0x27 \<in> set s \<and> CHR 0x22 \<notin> set s then CHR 0x22 else CHR 0x27);
          esc = (\<lambda>c. if c = q \<or> c = CHR 0x5C then [CHR 0x5C, c]
            else if c = CHR 0x0A then [CHR 0x5C, CHR ''n''] else if c = CHR 0x0D then [CHR 0x5C, CHR ''r'']
            else if c = CHR 0x09 then [CHR 0x5C, CHR ''t'']
            else if code c < 32 \<or> 127 \<le> code c then [CHR 0x5C, CHR ''x'', low_hex (code c div 16), low_hex (code c mod 16)]
            else [c])
      in q # concat (map esc s) @ [q])"

text \<open>\<open>list.sort\<close> on texts, by code points.\<close>

fun text_le :: "string \<Rightarrow> string \<Rightarrow> bool" where
  "text_le [] t = True"
| "text_le (a # s) [] = False"
| "text_le (a # s) (b # t) = (code a < code b \<or> a = b \<and> text_le s t)"

fun insert_text :: "string \<Rightarrow> string list \<Rightarrow> string list" where
  "insert_text x [] = [x]"
| "insert_text x (y # ys) = (if text_le x y then x # y # ys else y # insert_text x ys)"

definition sort_texts :: "string list \<Rightarrow> string list" where
  "sort_texts ts = foldr insert_text ts []"

text \<open>\<open>s.replace(old, new)\<close> for a text that is not empty.\<close>

definition replace_all :: "string \<Rightarrow> string \<Rightarrow> string \<Rightarrow> string" where
  "replace_all old new s = join_on new (split_str old s)"

end
