(* ===== verification/KamstrupMgmt.thy ===== *)
theory KamstrupMgmt
  imports Databus PyCase
begin

text \<open>
  The management console of Conpot's Kamstrup meter: \<open>conpot/protocols/kamstrup_management\<close>. Each command is a program over the
  data bus that gives back the text of the answer, or None; \<open>respond\<close> chooses the command and \<open>handle_management\<close> is a connection. How a text
  is decoded is an argument, the peer is the list of the segments it sends.
\<close>

section \<open>Texts\<close>

definition text_lines :: "string list \<Rightarrow> string" where
  "text_lines ls = concat (map (\<lambda>l. l @ crlf) ls)"

definition INVALID_PARAMETER :: string where
  "INVALID_PARAMETER = text_lines
    ['''',
     ''? Invalid parameter.'',
     ''Try 'H cmd' for specific help.'',
     '' Ie: H !SC'']"

definition SERVICE_MENU :: string where
  "SERVICE_MENU = text_lines
    [''=============================================================================='',
     ''Service Menu'',
     ''=============================================================================='',
     ''H:   Help [cmd].'',
     ''Q:   Close connection.'',
     ''!AC: Access control.'',
     ''!AS: Alarm Server.'',
     ''!GC: Get Config.'',
     ''!GV: Software version.'',
     ''!SA: Set KAP Server IP and port (*1).'',
     ''!SB: Set 2nd KAP Server IP and port.'',
     ''!SC: Set Config (*1).'',
     ''!SD: Set device name (*1).'',
     ''!SH: Set KAP Server lookup (DNS or DHCP)'',
     ''!SI: Set IP (enter either valid IP or 0 to force DHCP)(*1).'',
     ''!SK: Set KAP watchdog timeout(WDT).'',
     ''!SN: Set IP for DNS Name servers to use.'',
     ''!SP: Set IP Ports'',
     ''!SS: Set Serial Settings.'',
     ''!RC: Request connect'',
     ''!RR: Request restart (*1).'',
     ''!WM: Wink module.'',
     ''=============================================================================='',
     ''(*1) Forces system restart'',
     ''=============================================================================='',
     ''Kamstrup (R)'']"

definition help_AC :: string where
  "help_AC = text_lines
    [''!AC: Access control.'',
     ''     Used for simple IP address firewall filtering.'',
     ''     If enabled only the listed IP's can assess this module.'',
     ''      Format:  !AC [En/Dis [ID IP]]'',
     ''      Example: !AC'',
     ''               Lists the setup.'',
     ''      Example: !AC 0'',
     ''               Disables the filter allowing everybody to access.'',
     ''      Example: !AC 0 1 192.168.1.211'',
     ''               !AC 0 2 10.0.0.1'',
     ''               !AC 0 3 195.215.168.45'',
     ''               !AC 1'',
     ''               Only connections from 192.168.1.211, '',
     ''               10.0.0.1 or 195.215.168.45 are possible.'']"

definition help_AS :: string where
  "help_AS = text_lines
    [''!AS: Alarm Server.'',
     ''     Used to set IP and port of server to handle alarm notifications.'',
     ''      Format:  !AS [SrvIP [SrvPort]]'',
     ''      Example: !AS 195.215.168.45 '',
     ''               Alarms are sent to 195.215.168.45.'',
     ''      Example: !AS 195.215.168.45 4000'',
     ''               Alarms are sent to to port 4000 on 195.215.168.45.'',
     ''      Example: !AS 0.0.0.0'',
     ''               Alarm reporting is disabled.'']"

definition help_GC :: string where
  "help_GC = text_lines
    [''!GC: Get Config.'',
     ''     Returns the module configuration.'']"

definition help_GV :: string where
  "help_GV = text_lines
    [''!GV: Software version.'',
     ''     Returns the software revision of the module.'']"

definition help_SA :: string where
  "help_SA = text_lines
    [''!SA: Set KAP Server IP and port (*1).'',
     ''     Used for setting the IP of the Server to receive KAP-pacakeges.'',
     ''     UDP port on server can be provided optionally.'',
     ''      Format:  !SA SrvIP [SrvPort]'',
     ''      Example: !SA 195215168045 '',
     ''               KAP packages are hereafter sent to 195.215.168.45.'',
     ''      Example: !SA 195.215.168.45 '',
     ''               Same result as \"!SA 195215168045\".'',
     ''      Example: !SA 192168001002 61000'',
     ''               KAP packages are hereafter sent to 192.168.1.2:61000'',
     ''               from module port 8000.'',
     ''      Example: !SA 0.0.0.0 '',
     ''               Disables KAP.'']"

definition help_SB :: string where
  "help_SB = text_lines
    [''!SB: Set 2nd KAP Server IP and port.'',
     ''     Used for redundancy with two KAP servers.'',
     ''     When enabled every second KAP is send to the IP defined by !SB.'',
     ''     NB: The KAP interval to each individual server is half of KAPINT'',
     ''         defined by !SK.'',
     ''     NB: !SA must be enabled (not 0.0.0.0) '',
     ''      Format:  !SB SrvIP [SrvPort]'',
     ''      Example: !SB 195.215.168.45 '',
     ''               KAP packages are hereafter also sent to 195.215.168.45.'',
     ''      Example: !SB 0.0.0.0 '',
     ''               Disabled.'',
     ''      Example: !SB 192.168.1.2 61000'',
     ''               KAP packages are hereafter sent to 192.168.1.2:61000'',
     ''               from module port 8000.'']"

definition help_SC :: string where
  "help_SC = text_lines
    [''!SC: Set Config (*1).'',
     ''     Configures the module.'',
     ''      Format:  !SC DHCP IP SUB GW DNS1 DNS2 DNS3 SRV_IP DEVICENAME SRV_DNS'',
     ''               DHCP        1 for DHCP, 0 for static IP.'',
     ''               IP..        Static IP settings.'',
     ''               SRV_IP      IP of remote server (Only if SRV_DNS is 0).'',
     ''               DEVICENAME  User label for for individual naming.'',
     ''               SRV_DNS     DNS name of remote server (0 to disable DNS lookup)'']"

definition help_SD :: string where
  "help_SD = text_lines
    [''!SD: Set device name (*1).'',
     ''     Option for individual naming of the module (0-20 chars).'']"

definition help_SH :: string where
  "help_SH = text_lines
    [''!SH: Set KAP Server lookup (DNS or DHCP)'',
     ''     Used for setting the DNS name of the Server to receive KAP-pacakeges.'',
     ''     Using the keyword \"DHCP_OPTION:xxx\" makes the module request the IP using DHCP option xxx.'',
     ''     The settings are first activated when the module is reset (using !RR).'',
     ''      Example: !SH 0 '',
     ''               Lookup Disabled.'',
     ''               The module will send KAP to the IP listed by !SA. '',
     ''      Example: !SH hosting.kamstrup_meter.dk '',
     ''               Use DNS lookup.'',
     ''               The module will send KAP to the IP listed by !SA until it resolves the DNS,'',
     ''               hereafter the KAP will be sent to hosting.kamstrup_meter.dk'',
     ''      Example: !SH DHCP_OPTION:129'',
     ''               Use DHCP Option.'',
     ''               The module will send KAP to the IP provided by DHCP (in this case option 129).'',
     ''               The module uses the IP provided by !SA if the DHCP offer dos not include option xxx data.'']"

definition help_SI :: string where
  "help_SI = text_lines
    [''!SI: Set IP (enter either valid IP or 0 to force DHCP)(*1).'',
     ''     Used for changing the module IP.'',
     ''     (Use !SC if you need to change subnet/Gateway too).'',
     ''     Entering a '0' will enable DHCP.'',
     ''      Format:  !SI IP'',
     ''      Example: !SI 0'',
     ''               The module will reboot and acuire the IP settings using DHCP.'',
     ''      Example: !SI 192168001200'',
     ''               The module will reboot using static IP addr 192.168.1.200.'',
     ''               (SUB, GW and DNS unchanged)'',
     ''      Example: !SI 192.168.1.200'',
     ''               Same as !SI 192168001200.'']"

definition help_SK :: string where
  "help_SK = text_lines
    [''!SK: Set KAP watchdog timeout(WDT).'',
     ''     Used for setting KeepAlive watchdog timing.'',
     ''      Format:  !SK [WDT] [MISSING] [KAPINT]'',
     ''      Example: !SK'',
     ''      Example: !SK 3600'',
     ''      Example: !SK 3600 60 10'',
     ''               WDT     The module reboots after WDT?KAPINT seconds'',
     ''                       without an ACK from the server.'',
     ''                       0 = disable WDT.'',
     ''               MISSING After MISSING?KAPINT seconds without an ACK,'',
     ''                       the Err LED starts blinking.'',
     ''                       (Used for indication of missing link to the server)'',
     ''               KAPINT  Interval in seconds for how often KeepAlivePackages'',
     ''                       are send to the KAP server.'',
     ''     The WDT and MISSING timeout counts are both reset by an ACK from the server.                       '']"

definition help_SN :: string where
  "help_SN = text_lines
    [''!SN: Set IP for DNS Name servers to use.'',
     ''      Format:  !SN DNS1 DNS2 DNS3'',
     ''      Example: !SN 192168001200 192168001201 000000000000'',
     ''      Example: !SN 172.16.0.83 172.16.0.84 0.0.0.0'']"

definition help_SP :: string where
  "help_SP = text_lines
    [''!SP: Set IP Ports'',
     ''      Format:  !SP [KAP CHA CHB CFG]'',
     ''      Example: !SP 333'',
     ''               KAP packages are hereafter sent to port 333 on the server.'',
     ''      Example: !SP 50 1025 1026 50100'',
     ''               KAP packages are sent to port 50.'',
     ''               Direct connections to UART channel A is on port 1025, B on 1026.'',
     ''               Config connection on port 50100.'',
     ''               (default values)'',
     ''      Example: !SP 0 0 80'',
     ''               UART channel B is on port 80 (KAP and ChA is ingored - unchanged).'']"

definition help_SS :: string where
  "help_SS = text_lines
    [''!SS: Set Serial Settings.'',
     ''     Used for setting the serial interface for channel A or B.'',
     ''      Format:  !SS [Channel Baud,DataBits,Parity,StopBits[,Ctrl]]'',
     ''      Example: !SS A Auto'',
     ''      Example: !SS A 9600,8,N,2'',
     ''      Example: !SS B 115200,8,E,1'',
     ''      Example: !SS B 115200,8,E,1,I'',
     ''      Example: !SS B 115200,8,E,1,L'',
     ''     The ctrl flag can be 'C'(check), 'I' (ignore framing errors) or 'L' (Link, ChB only).'',
     ''     Chanel A supports auto mode (Also enables load profile logger in old E-Meters).'']"

definition help_RC :: string where
  "help_RC = text_lines
    [''!RC: Request connect'',
     ''     Makes the module crate a ChA or ChB socket to a remote server.'',
     ''      Format:  !RC Action [IP [Port]]'',
     ''      Example: !RC A 195.215.168.45 200'',
     ''      Example: !RC B 195.215.168.45 201'',
     ''      Example: !RC D'',
     ''               Disconnects both A and B if open.'',
     ''      Example: !RC'',
     ''               Status only.'']"

definition help_RR :: string where
  "help_RR = text_lines
    [''!RR: Request restart (*1).'']"

definition help_WM :: string where
  "help_WM = text_lines
    [''!WM: Wink module.'',
     ''     Causes the WINK LED on the module to blink for physical identification.'']"

definition WINK_OUTPUT :: string where
  "WINK_OUTPUT = text_lines
    ['''',
     '''',
     ''OK'']"

section \<open>Reading addresses, ports and numbers\<close>

text \<open>\<open>[int(s[i:i+3]) for i in range(0, len(s), 3)]\<close>\<close>

fun int_chunks :: "string \<Rightarrow> int list result" where
  "int_chunks [] = Inr []"
| "int_chunks (a # s) = bindE (py_int (take 3 (a # s))) (\<lambda>n. bindE (int_chunks (drop 2 s)) (\<lambda>ns. Inr (n # ns)))"

fun octets_ok :: "string list \<Rightarrow> bool result" where
  "octets_ok [] = Inr True"
| "octets_ok (s # ss) = bindE (py_int s) (\<lambda>n. if n < 0 \<or> n > 255 then Inr False else octets_ok ss)"

definition no_address :: string where
  "no_address = ''0.0.0.0''"

definition parse_ip :: "string \<Rightarrow> string result" where
  "parse_ip ip_string =
     bindE (if CHR ''.'' \<in> set ip_string then Inr (split_on (CHR ''.'') ip_string)
            else bindE (int_chunks ip_string) (\<lambda>ns. Inr (map show_int ns))) (\<lambda>octets.
     if length octets \<noteq> 4 then Inr no_address
     else bindE (octets_ok octets) (\<lambda>ok. Inr (if ok then join_on ''.'' octets else no_address)))"

definition parse_port :: "string \<Rightarrow> int" where
  "parse_port port_string = (case py_int port_string of Inl _ \<Rightarrow> 0 | Inr port \<Rightarrow> if 0 < port \<and> port < 65536 then port else 0)"

definition try_parse_uint :: "string \<Rightarrow> int \<Rightarrow> int \<Rightarrow> int" where
  "try_parse_uint uint_string min_value max_value =
     (case py_int uint_string of Inl _ \<Rightarrow> 0 | Inr value \<Rightarrow> if value < min_value \<or> value > max_value then 0 else value)"

section \<open>Commands\<close>

text \<open>The parameters are None when the request has no blank; None and the empty text are both false.\<close>

definition given :: "string option \<Rightarrow> string" where
  "given params = (case params of None \<Rightarrow> [] | Some p \<Rightarrow> p)"

abbreviation words_of :: "string \<Rightarrow> string list" where
  "words_of p \<equiv> split_on (CHR '' '') p"

fun get_texts :: "string list \<Rightarrow> string list busop" where
  "get_texts [] = yield []"
| "get_texts (k # ks) = andthen (get_value k) (\<lambda>v. andthen (get_texts ks) (\<lambda>vs. yield (str_of v # vs)))"

definition set_ip :: "string \<Rightarrow> string \<Rightarrow> unit busop" where
  "set_ip key text = andthen (lift (parse_ip text)) (\<lambda>ip. set_value key (PStr ip))"

definition set_port :: "string \<Rightarrow> string \<Rightarrow> unit busop" where
  "set_port key text = ifp (parse_port text \<noteq> 0) (set_value key (PInt (parse_port text)))"

definition reboot_signal :: "unit busop" where
  "reboot_signal = set_value ''reboot_signal'' (PInt 1)"

definition set_access_ip :: "string \<Rightarrow> string \<Rightarrow> unit busop" where
  "set_access_ip number ip_string =
     ifp (count_list ip_string (CHR ''.'') = 3 \<and> (\<exists>x \<in> set ''12345''. x \<in> set number))
       (andthen (lift (py_int number)) (\<lambda>acl_number. set_ip (''access_control_'' @ show_int acl_number) ip_string))"

definition run_AC :: "string option \<Rightarrow> string option busop" where
  "run_AC params =
     (let p = given params in
      seq (if p = [] then yield ()
           else if p = ''0'' then set_value ''access_control_status'' (PStr ''DISABLED'')
           else if p = ''1'' then set_value ''access_control_status'' (PStr ''ENABLED'')
           else if length (words_of p) = 3 \<and> words_of p ! 0 = ''0'' then set_access_ip (words_of p ! 1) (words_of p ! 2)
           else yield ())
        (andthen (get_texts [''access_control_status'', ''access_control_1'', ''access_control_2'', ''access_control_3'',
            ''access_control_4'', ''access_control_5'']) (\<lambda>v.
         yield (Some ((if p = [] then [] else text_lines ['''', ''OK'']) @
           text_lines ['''', v ! 0 @ '' '', '' [1] '' @ v ! 1, '' [2] '' @ v ! 2, '' [3] '' @ v ! 3, '' [4] '' @ v ! 4, '' [5] '' @ v ! 5])))))"

definition address_text :: "string \<Rightarrow> string \<Rightarrow> string busop" where
  "address_text ip_key port_key = andthen (get_texts [ip_key, port_key]) (\<lambda>v. yield (v ! 0 @ '':'' @ v ! 1))"

definition run_AS :: "string option \<Rightarrow> string option busop" where
  "run_AS params =
     (let p = given params in
      if p = [] then
        andthen (get_value ''alarm_server_status'') (\<lambda>status.
        andthen (if status = PStr ''DISABLED'' then yield ''DISABLED'' else address_text ''alarm_server_ip'' ''alarm_server_port'') (\<lambda>out.
        yield (Some (crlf @ ''Alarm server:  '' @ out @ '' ''))))
      else
        seq (set_value ''alarm_server_status'' (PStr ''ENABLED''))
        (seq (set_ip ''alarm_server_ip'' (words_of p ! 0))
        (seq (ifp (length (words_of p) > 1) (set_port ''alarm_server_port'' (words_of p ! 1)))
        (andthen (address_text ''alarm_server_ip'' ''alarm_server_port'') (\<lambda>out.
         yield (Some (crlf @ ''OK'' @ crlf @ ''Alarm server:  '' @ out @ '' '' @ crlf)))))))"

definition run_GC :: "string option \<Rightarrow> string option busop" where
  "run_GC params =
     andthen (get_texts [''device_name'', ''nameserver_1'', ''nameserver_2'', ''nameserver_3'', ''mac_address'', ''use_dhcp'', ''ip_addr'',
         ''ip_subnet'', ''ip_gateway'', ''kap_a_server_ip'', ''kap_a_server_hostname'', ''channel_a_meternumber'',
         ''channel_b_meternumber'', ''kap_ack_server'', ''kap_a_server_port'', ''kap_local_port'']) (\<lambda>v.
     yield (Some (text_lines
       [''Device Name         : '' @ v ! 0, ''Use DHCP            : '' @ v ! 5, ''IP addr.            : '' @ v ! 6,
        ''IP Subnet           : '' @ v ! 7, ''Gateway addr.       : '' @ v ! 8, ''Service server addr.: '' @ v ! 9,
        ''Service server hostname.: '' @ v ! 10, ''DNS Server No. 1: '' @ v ! 1, ''DNS Server No. 2: '' @ v ! 2,
        ''DNS Server No. 3: '' @ v ! 3, ''MAC addr. (HEX)     : '' @ v ! 4, ''Channel A device meterno.: '' @ v ! 11,
        ''Channel B device meterno.: '' @ v ! 12, ''Keep alive timer (flash setting): ENABLED 10'',
        ''Keep alive timer (current setting): ENABLED 10'', ''Has the module received acknowledge from the server: '' @ v ! 13,
        ''KAP Server port: '' @ v ! 14, ''KAP Local port: '' @ v ! 15, ''Software watchdog: ENABLED 3600''])))"

definition run_GV :: "string option \<Rightarrow> string option busop" where
  "run_GV params = andthen (get_texts [''software_version'']) (\<lambda>v. yield (Some (text_lines ['''', ''Software Version: '' @ v ! 0])))"

definition run_SA :: "string option \<Rightarrow> string option busop" where
  "run_SA params =
     (let p = given params in
      seq (ifp (p \<noteq> [])
            (seq (set_ip ''kap_a_server_ip'' (words_of p ! 0))
            (seq (set_value ''kap_a_server_hostname'' (PStr ''0 - none''))
                 (ifp (length (words_of p) > 1) (set_port ''kap_a_server_port'' (words_of p ! 1))))))
        (andthen (address_text ''kap_a_server_ip'' ''kap_a_server_port'') (\<lambda>out.
         yield (Some (crlf @ (if p \<noteq> [] then ''OK'' else []) @ text_lines ['''', ''Service server addr.: '' @ out])))))"

definition run_SB :: "string option \<Rightarrow> string option busop" where
  "run_SB params =
     (let p = given params; cmd_ok = (if p \<noteq> [] then ''OK'' else []) in
      seq (ifp (p \<noteq> [])
            (seq (set_ip ''kap_b_server_ip'' (words_of p ! 0))
                 (ifp (length (words_of p) > 1)
                   (ifp (parse_port (words_of p ! 1) \<noteq> 0) (set_value ''kap_b_server_port'' (PStr (words_of p ! 1)))))))
        (andthen (get_value ''kap_b_server_ip'') (\<lambda>ip.
         andthen (get_texts [''kap_a_server_ip'', ''kap_a_server_port'']) (\<lambda>v.
         if ip = PStr ''0.0.0.0'' then
           yield (Some (crlf @ cmd_ok @ text_lines ['''', ''Service server addr.: '' @ v ! 0 @ '':'' @ v ! 1 @ '' (from DNS)''] @ ''No redundancy.''))
         else andthen (get_texts [''kap_b_server_ip'', ''kap_b_server_port'']) (\<lambda>w.
           yield (Some (crlf @ cmd_ok @ text_lines ['''', ''Service server addr.: '' @ v ! 0 @ '':'' @ v ! 1 @ '' (from DNS)'',
             ''and fallback KAP to:  '' @ w ! 0 @ '':'' @ w ! 1])))))))"

text \<open>No \<open>return\<close>: the answer is None.\<close>

definition run_SC :: "string option \<Rightarrow> string option busop" where
  "run_SC params =
     (let ps = words_of (given params) in
      seq (ifp (given params \<noteq> [] \<and> length ps \<ge> 10)
            (seq (if ps ! 0 = ''1'' then set_value ''use_dhcp'' (PStr ''YES'')
                  else seq (set_value ''use_dhcp'' (PStr ''NO''))
                      (seq (set_ip ''ip_addr'' (ps ! 1)) (seq (set_ip ''ip_subnet'' (ps ! 2)) (set_ip ''ip_gateway'' (ps ! 3)))))
            (seq (set_ip ''nameserver_1'' (ps ! 4))
            (seq (set_ip ''nameserver_2'' (ps ! 5))
            (seq (set_ip ''nameserver_3'' (ps ! 6))
            (seq (if ps ! 9 = ''0''
                  then seq (set_ip ''kap_a_server_ip'' (ps ! 7)) (set_value ''kap_a_server_hostname'' (PStr ''0 - none''))
                  else seq (set_value ''kap_a_server_hostname'' (PStr (ps ! 9))) (set_ip ''kap_a_server_ip'' (ps ! 7)))
                 (set_value ''device_name'' (PStr (take 20 (ps ! 8))))))))))
        (seq reboot_signal (yield None)))"

definition run_SD :: "string option \<Rightarrow> string option busop" where
  "run_SD params =
     (let p = given params in
      seq (set_value ''device_name'' (PStr (take 20 p))) (seq reboot_signal (yield (Some (if length p > 20 then [] else crlf @ ''OK'')))))"

definition run_SH :: "string option \<Rightarrow> string option busop" where
  "run_SH params =
     (let p = given params in
      seq (if length p = 1 then set_value ''kap_server_lookup'' (PStr ''0 - none'')
           else ifp (length p > 1) (set_value ''kap_server_lookup'' (PStr p)))
        (andthen (get_texts [''kap_server_lookup'']) (\<lambda>v.
         yield (Some ((if p \<noteq> [] then crlf @ ''OK'' else []) @ text_lines ['''', ''Service server hostname.: '' @ v ! 0])))))"

definition copy_value :: "string \<Rightarrow> string \<Rightarrow> unit busop" where
  "copy_value src dst = andthen (get_value src) (set_value dst)"

definition run_SI :: "string option \<Rightarrow> string option busop" where
  "run_SI params =
     (let p = given params in
      seq (ifp (p \<noteq> []) (andthen (lift (parse_ip p)) (\<lambda>ip.
            if ip = ''0.0.0.0'' then
              andthen (get_value ''use_dhcp'') (\<lambda>use.
              ifp (use = PStr ''NO'')
                (seq (set_value ''use_dhcp'' (PStr ''YES''))
                (seq (copy_value ''ip_addr_dhcp'' ''ip_addr'')
                (seq (copy_value ''ip_gateway_dhcp'' ''ip_gateway'')
                (seq (copy_value ''ip_subnet_dhcp'' ''ip_subnet'') reboot_signal)))))
            else seq (set_value ''use_dhcp'' (PStr ''NO'')) (seq (set_value ''ip_addr'' (PStr ip)) reboot_signal))))
        (andthen (get_texts [''use_dhcp'', ''ip_addr'']) (\<lambda>v.
         yield (Some (text_lines ['''', ''Use DHCP            : '' @ v ! 0, '''', ''IP addr.            : '' @ v ! 1])))))"

text \<open>A number that is not accepted is stored as zero, which disables the timer. The text is formatted a second time, which changes
  nothing as long as the values have no braces; with braces the outcome depends on them and is not modelled further.\<close>

definition enabled_text :: "pyval \<Rightarrow> string" where
  "enabled_text v = (if v = PStr ''0'' then ''DISABLED '' else ''ENABLED '') @ str_of v"

definition has_brace :: "string \<Rightarrow> bool" where
  "has_brace s \<longleftrightarrow> CHR 0x7B \<in> set s \<or> CHR 0x7D \<in> set s"

definition run_SK :: "string option \<Rightarrow> string option busop" where
  "run_SK params =
     (let ps = words_of (given params);
          set_uint = (\<lambda>key i least. ifp (length ps > i) (set_value key (PStr (show_int (try_parse_uint (ps ! i) least 4294967295))))) in
      seq (ifp (params \<noteq> None)
            (seq (set_uint ''software_watchdog'' 0 5) (seq (set_uint ''kap_missing_warning'' 1 0) (set_uint ''keep_alive_timer'' 2 0))))
        (andthen (get_value ''software_watchdog'') (\<lambda>a. andthen (get_value ''kap_missing_warning'') (\<lambda>b.
         andthen (get_value ''keep_alive_timer'') (\<lambda>c. andthen (get_value ''kap_server_lookup'') (\<lambda>_.
         let out = (if params \<noteq> None then crlf @ ''OK'' else []) @
           text_lines ['''', ''Software watchdog: '' @ enabled_text a, ''KAP Missing warning: '' @ enabled_text b,
             ''Keep alive timer (flash setting): '' @ enabled_text c]
         in if has_brace out then lift (Inl ValueError) else yield (Some out)))))))"

definition run_SN :: "string option \<Rightarrow> string option busop" where
  "run_SN params =
     (let ps = words_of (given params) in
      if params = None \<or> length ps \<noteq> 3 then yield (Some INVALID_PARAMETER)
      else seq (set_ip ''nameserver_1'' (ps ! 0)) (seq (set_ip ''nameserver_2'' (ps ! 1)) (seq (set_ip ''nameserver_3'' (ps ! 2))
        (yield (Some (crlf @ ''OK''))))))"

definition run_SP :: "string option \<Rightarrow> string option busop" where
  "run_SP params =
     (let p = given params; ps = words_of p in
      seq (ifp (p \<noteq> [])
            (seq (set_port ''kap_a_server_port'' (ps ! 0))
            (seq (ifp (length ps > 1) (set_port ''channel_a_port'' (ps ! 1)))
                 (ifp (length ps > 2) (set_port ''channel_b_port'' (ps ! 2))))))
        (andthen (get_texts [''kap_a_server_port'', ''channel_a_port'', ''channel_b_port'']) (\<lambda>v.
         yield (Some (text_lines ['''', if p \<noteq> [] then ''OK'' else [], ''KAP on server: '' @ v ! 0, ''ChA on module: '' @ v ! 1,
           ''ChB on module: '' @ v ! 2, ''Cfg on module: 50100''])))))"

definition run_SS :: "string option \<Rightarrow> string option busop" where
  "run_SS params =
     (let p = given params; ps = words_of p; invalid = text_lines ['''', ''Invalid data!'', ''''];
          answer = (\<lambda>out. andthen (get_texts [''serial_settings_a'', ''serial_settings_b'']) (\<lambda>v. yield (Some (out v)))) in
      if p = [] then answer (\<lambda>v. text_lines ['''', ''UART A setup : '' @ v ! 0, ''UART B setup : '' @ v ! 1])
      else if length ps \<noteq> 2 then yield (Some invalid)
      else if ps ! 0 = ''A'' then seq (set_value ''serial_settings_a'' (PStr (ps ! 1))) (answer (\<lambda>v. text_lines ['''', ''OK'']))
      else if ps ! 0 = ''B'' then seq (set_value ''serial_settings_b'' (PStr (ps ! 1))) (answer (\<lambda>v. text_lines ['''', ''OK'']))
      else yield (Some invalid))"

definition run_RC :: "string option \<Rightarrow> string option busop" where
  "run_RC params =
     (let p = given params; ps = words_of p; out = text_lines [''Status: 0100''] in
      if p = [] then yield (Some (crlf @ out))
      else if length ps = 1 \<and> ps ! 0 = ''D'' then yield (Some (text_lines ['''', ''OK''] @ out))
      else if length ps = 2 \<and> ps ! 0 = ''A'' then
        seq (set_value ''channel_a_connect_socket'' (PStr (ps ! 1))) (yield (Some (text_lines ['''', ''OK''] @ out)))
      else if length ps = 2 \<and> ps ! 0 = ''B'' then
        seq (set_value ''channel_b_connect_socket'' (PStr (ps ! 1))) (yield (Some (text_lines ['''', ''OK''] @ out)))
      else yield (Some INVALID_PARAMETER))"

definition run_RR :: "string option \<Rightarrow> string option busop" where
  "run_RR params = seq reboot_signal (yield None)"

definition run_WM :: "string option \<Rightarrow> string option busop" where
  "run_WM params = yield (Some WINK_OUTPUT)"

section \<open>Choosing the command\<close>

text \<open>The help and the method of each command.\<close>

definition commands :: "(string \<times> string \<times> (string option \<Rightarrow> string option busop)) list" where
  "commands =
     [(''!AC'', help_AC, run_AC), (''!AS'', help_AS, run_AS), (''!GC'', help_GC, run_GC), (''!GV'', help_GV, run_GV),
      (''!SA'', help_SA, run_SA), (''!SB'', help_SB, run_SB), (''!SC'', help_SC, run_SC), (''!SD'', help_SD, run_SD),
      (''!SH'', help_SH, run_SH), (''!SI'', help_SI, run_SI), (''!SK'', help_SK, run_SK), (''!SN'', help_SN, run_SN),
      (''!SP'', help_SP, run_SP), (''!SS'', help_SS, run_SS), (''!RC'', help_RC, run_RC), (''!RR'', help_RR, run_RR),
      (''!WM'', help_WM, run_WM)]"

definition COMMAND_NOT_FOUND :: string where
  "COMMAND_NOT_FOUND = text_lines ['''', ''? Command not found.'', ''Send 'H' for help.'']"

definition run_help :: "string option \<Rightarrow> string" where
  "run_help params =
     (case params of
        None \<Rightarrow> SERVICE_MENU
      | Some p \<Rightarrow> (case map_of commands (take 3 p) of Some (h, _) \<Rightarrow> h | None \<Rightarrow> INVALID_PARAMETER))"

definition respond_to :: "string \<Rightarrow> string option busop" where
  "respond_to request =
     (let stripped = strip request; command = upper (fst (split_once stripped)); params = snd (split_once stripped) in
      if stripped = [] then yield (Some [])
      else if length command > 3 then yield (Some COMMAND_NOT_FOUND)
      else if prefix ''Q'' command then yield None
      else if prefix ''H'' command then yield (Some (run_help params))
      else if prefix ''!'' command then
        (case map_of commands command of Some (_, run) \<Rightarrow> run params | None \<Rightarrow> yield (Some COMMAND_NOT_FOUND))
      else yield (Some COMMAND_NOT_FOUND))"

section \<open>A connection\<close>

datatype mgmt_event = New_connection | Connection_lost | Exchange string "string option" | Sent string

text \<open>A text that is not ASCII cannot be sent.\<close>

definition to_ascii :: "string \<Rightarrow> string result" where
  "to_ascii s = (if \<forall>c \<in> set s. code c < 128 then Inr s else Inl ValueError)"

definition banner :: "string \<Rightarrow> string" where
  "banner mac = text_lines ['''', ''Welcome...'', ''Connected to ['' @ mac @ '']'']"

text \<open>The events of a connection, the bus it leaves, and how it ends. An exception leaves the socket open and no event behind.\<close>

fun converse :: "('seg \<Rightarrow> string result) \<Rightarrow> 'seg list \<Rightarrow> databus \<Rightarrow> mgmt_event list \<times> databus \<times> unit result" where
  "converse decode [] b = ([Connection_lost], b, Inr ())"
| "converse decode (d # ds) b =
     (case decode d of
        Inl e \<Rightarrow> ([], b, Inl e)
      | Inr request \<Rightarrow> (case respond_to request b of
          (c, Inl e) \<Rightarrow> ([], c, Inl e)
        | (c, Inr None) \<Rightarrow> ([Exchange request None, Connection_lost], c, Inr ())
        | (c, Inr (Some response)) \<Rightarrow> (case to_ascii response of
            Inl e \<Rightarrow> ([Exchange request (Some response)], c, Inl e)
          | Inr reply \<Rightarrow> (case converse decode ds c of
              (es, r) \<Rightarrow> (Exchange request (Some response) # Sent reply # es, r)))))"

definition handle_management :: "('seg \<Rightarrow> string result) \<Rightarrow> 'seg list \<Rightarrow> databus \<Rightarrow> mgmt_event list \<times> databus \<times> unit result" where
  "handle_management decode ds b =
     (case andthen (get_texts [''mac_address'']) (\<lambda>v. lift (to_ascii (banner (v ! 0)))) b of
        (c, Inl e) \<Rightarrow> ([New_connection], c, Inl e)
      | (c, Inr hello) \<Rightarrow> (case converse decode ds c of (es, r) \<Rightarrow> (New_connection # Sent hello # es, r)))"

end
