(* ===== verification/KamstrupMgmtFacts.thy ===== *)
theory KamstrupMgmtFacts
  imports KamstrupMgmt
begin

text \<open>
  What is proved of the management console: what an address is, that the settings stay valid whatever is requested, which
  commands can raise, and that the two forms of an address are one. Programs are followed by rules for \<open>keeps\<close> and \<open>raises_only\<close>.
\<close>

section \<open>Addresses\<close>

lemma py_int_ValueError: "py_int s = Inl e \<Longrightarrow> e = ValueError"
  by (auto simp: py_int_def Let_def split: if_splits)

definition ip_text :: "string \<Rightarrow> bool" where
  "ip_text s \<longleftrightarrow> (let ps = split_on (CHR ''.'') s in length ps = 4 \<and>
     list_all (\<lambda>p. case py_int p of Inr n \<Rightarrow> 0 \<le> n \<and> n \<le> 255 | Inl _ \<Rightarrow> False) ps)"

lemma octets_ok_all:
  "octets_ok ps = Inr True \<Longrightarrow> list_all (\<lambda>p. case py_int p of Inr n \<Rightarrow> 0 \<le> n \<and> n \<le> 255 | Inl _ \<Rightarrow> False) ps"
  by (induction ps) (auto split: if_splits)

lemma octets_ok_ValueError: "octets_ok ps = Inl e \<Longrightarrow> e = ValueError"
  by (induction ps) (auto simp: bindE_def py_int_ValueError split: sum.splits if_splits)

lemma int_chunks_ValueError: "int_chunks s = Inl e \<Longrightarrow> e = ValueError"
  by (induction s rule: int_chunks.induct) (auto simp: bindE_def py_int_ValueError split: sum.splits)

lemma parse_ip_ValueError: "parse_ip s = Inl e \<Longrightarrow> e = ValueError"
  by (auto simp: parse_ip_def bindE_def octets_ok_ValueError int_chunks_ValueError split: sum.splits if_splits)

lemma show_int_no_dot: "CHR ''.'' \<notin> set (show_int n)"
  using show_nat_dec [of "CHR ''.''"] by (auto simp: show_int_def is_dec_def code_def)

lemma no_address_text: "ip_text no_address"
  by code_simp

lemma join_ip_text:
  assumes "\<forall>p \<in> set ps. CHR ''.'' \<notin> set p" and "length ps = 4" and "octets_ok ps = Inr ok"
  shows "ip_text (if ok then join_on ''.'' ps else no_address)"
  using assms octets_ok_all [of ps] split_on_join [of ps "CHR ''.''"] no_address_text by (cases ps) (auto simp: ip_text_def Let_def)

lemma parse_ip_text: "parse_ip s = Inr ip \<Longrightarrow> ip_text ip"
  using split_on_no_sep [of _ "CHR ''.''" s] show_int_no_dot join_ip_text no_address_text
  by (auto simp: parse_ip_def simp del: join_on.simps octets_ok.simps split: if_splits)

lemma parse_port_range: "parse_port s \<noteq> 0 \<Longrightarrow> 0 < parse_port s \<and> parse_port s < 65536 \<and> py_int s = Inr (parse_port s)"
  by (auto simp: parse_port_def split: sum.splits if_splits)

section \<open>Settings\<close>

text \<open>The keys the console reads, and what their values must be.\<close>

definition is_ip :: "pyval \<Rightarrow> bool" where
  "is_ip v \<longleftrightarrow> (case v of PStr s \<Rightarrow> ip_text s | _ \<Rightarrow> False)"

definition is_port :: "pyval \<Rightarrow> bool" where
  "is_port v \<longleftrightarrow> (case py_int (str_of v) of Inr p \<Rightarrow> 0 < p \<and> p < 65536 | Inl _ \<Rightarrow> False)"

definition is_count :: "pyval \<Rightarrow> bool" where
  "is_count v \<longleftrightarrow> (case v of PStr s \<Rightarrow> (case py_int s of Inr n \<Rightarrow> s = show_int n \<and> 0 \<le> n \<and> n \<le> 4294967295 | Inl _ \<Rightarrow> False) | _ \<Rightarrow> False)"

definition ip_keys :: "string list" where
  "ip_keys = [''ip_addr'', ''ip_gateway'', ''ip_subnet'', ''ip_addr_dhcp'', ''ip_gateway_dhcp'', ''ip_subnet_dhcp'', ''nameserver_1'',
     ''nameserver_2'', ''nameserver_3'', ''kap_a_server_ip'', ''kap_b_server_ip'']"

definition port_keys :: "string list" where
  "port_keys = [''kap_a_server_port'', ''kap_b_server_port'', ''channel_a_port'', ''channel_b_port'', ''alarm_server_port'']"

definition count_keys :: "string list" where
  "count_keys = [''software_watchdog'', ''kap_missing_warning'', ''keep_alive_timer'']"

definition status_keys :: "string list" where
  "status_keys = [''access_control_status'', ''alarm_server_status'']"

definition other_keys :: "string list" where
  "other_keys = [''mac_address'', ''software_version'', ''kap_a_server_hostname'', ''channel_a_meternumber'', ''channel_b_meternumber'',
     ''kap_ack_server'', ''kap_local_port'', ''kap_server_lookup'', ''serial_settings_a'', ''serial_settings_b'']"

definition access_keys :: "string list" where
  "access_keys = [''access_control_1'', ''access_control_2'', ''access_control_3'', ''access_control_4'', ''access_control_5'']"

definition config_keys :: "string list" where
  "config_keys = ip_keys @ port_keys @ count_keys @ status_keys @ other_keys @ access_keys @
     [''device_name'', ''use_dhcp'', ''alarm_server_ip'', ''reboot_signal'']"

lemmas config_defs = config_keys_def ip_keys_def port_keys_def count_keys_def status_keys_def other_keys_def access_keys_def

definition setting_ok :: "string \<Rightarrow> pyval \<Rightarrow> bool" where
  "setting_ok k v =
     (if k \<in> set ip_keys \<or> prefix ''access_control_'' k \<and> k \<noteq> ''access_control_status'' then is_ip v
      else if k \<in> set port_keys then is_port v
      else if k \<in> set count_keys then is_count v
      else if k \<in> set status_keys then v \<in> {PStr ''ENABLED'', PStr ''DISABLED''}
      else if k = ''device_name'' then (case v of PStr s \<Rightarrow> length s \<le> 20 | _ \<Rightarrow> False)
      else if k = ''use_dhcp'' then v \<in> {PStr ''YES'', PStr ''NO''}
      else if k = ''alarm_server_ip'' then v = PStr [] \<or> is_ip v
      else if k = ''reboot_signal'' then v \<in> {PInt 0, PInt 1}
      else True)"

definition config_ok :: "databus \<Rightarrow> bool" where
  "config_ok b \<longleftrightarrow> list_all (\<lambda>k. case bus_data b k of Some (Plain v) \<Rightarrow> setting_ok k v | _ \<Rightarrow> False) config_keys"

lemma config_okD: "config_ok b \<Longrightarrow> k \<in> set config_keys \<Longrightarrow> \<exists>v. bus_data b k = Some (Plain v) \<and> setting_ok k v"
  unfolding config_ok_def list_all_iff by (drule (1) bspec) (auto split: option.splits item.splits)

lemma config_ok_set: "config_ok b \<Longrightarrow> setting_ok k v \<Longrightarrow> config_ok (fst (set_value k v b))"
  by (auto simp: config_ok_def list_all_iff)

abbreviation safe :: "'a busop \<Rightarrow> bool" where
  "safe \<equiv> keeps config_ok"

abbreviation raises_none :: "'a busop \<Rightarrow> bool" where
  "raises_none \<equiv> raises_only config_ok {}"

text \<open>Rules for the programs the commands are made of.\<close>

lemma safe_set: "setting_ok k v \<Longrightarrow> safe (set_value k v)"
  by (simp add: keeps_def config_ok_set del: set_value_simp)

lemma safe_get_texts: "safe (get_texts ks)"
proof (induction ks)
  case Nil
  show ?case unfolding get_texts.simps by (rule keeps_yield)
next
  case (Cons k ks)
  then show ?case unfolding get_texts.simps by (intro keeps_andthen keeps_get keeps_yield)
qed

lemma raises_get: "k \<in> set config_keys \<Longrightarrow> raises_only config_ok X (get_value k)"
  using config_okD by (fastforce simp: raises_only_def)

lemma raises_get_texts: "set ks \<subseteq> set config_keys \<Longrightarrow> raises_only config_ok X (get_texts ks)"
proof (induction ks)
  case Nil
  show ?case unfolding get_texts.simps by (rule raises_only_yield)
next
  case (Cons k ks)
  then have "raises_only config_ok X (get_value k)" "raises_only config_ok X (get_texts ks)" by (simp_all add: raises_get)
  then show ?case unfolding get_texts.simps by (intro raises_only_andthen keeps_get safe_get_texts raises_only_yield)
qed

lemma safe_set_ip:
  assumes "\<And>ip. ip_text ip \<Longrightarrow> setting_ok k (PStr ip)"
  shows "safe (set_ip k s)"
  using assms parse_ip_text config_ok_set
  by (auto simp: set_ip_def keeps_def andthen_def simp del: set_value_simp split: prod.splits sum.splits)

lemma safe_set_port: "k \<in> set port_keys \<Longrightarrow> safe (set_port k s)"
  unfolding set_port_def
  using parse_port_range [of s] short_small [of "parse_port s"]
  by (intro keeps_ifp safe_set) (auto simp: setting_ok_def config_defs is_port_def py_int_show)

lemma raises_set_port: "raises_only config_ok X (set_port k s)"
  unfolding set_port_def by (intro raises_only_ifp raises_only_set)


lemma raises_get_bind:
  assumes "k \<in> set config_keys" and "\<And>v. setting_ok k v \<Longrightarrow> raises_only config_ok X (f v)"
  shows "raises_only config_ok X (andthen (get_value k) f)"
  using assms config_okD by (fastforce simp: raises_only_def andthen_def)

lemma keeps_parse_ip:
  assumes "\<And>ip. ip_text ip \<Longrightarrow> keeps P (f ip)"
  shows "keeps P (andthen (lift (parse_ip s)) f)"
  using assms parse_ip_text by (auto simp: keeps_def andthen_def split: sum.splits)

lemma safe_copy:
  assumes "src \<in> set config_keys" and "\<And>v. setting_ok src v \<Longrightarrow> setting_ok dst v"
  shows "safe (copy_value src dst)"
  unfolding keeps_def copy_value_def
proof (intro allI impI)
  fix b assume b: "config_ok b"
  then obtain v where "bus_data b src = Some (Plain v)" "setting_ok src v" using config_okD assms(1) by blast
  then show "config_ok (fst (andthen (get_value src) (set_value dst) b))"
    using config_ok_set [OF b assms(2)] by (simp add: andthen_def del: set_value_simp)
qed

lemma raises_copy: "src \<in> set config_keys \<Longrightarrow> raises_only config_ok X (copy_value src dst)"
  unfolding copy_value_def by (intro raises_only_andthen keeps_get raises_get raises_only_set)

lemma access_key: "''access_control_'' @ show_int n \<noteq> ''access_control_status''"
  using show_nat_dec [of "CHR ''u''"] by (auto simp: show_int_def is_dec_def code_def split: if_splits) (metis list.set_intros)+

lemma setting_access: "ip_text ip \<Longrightarrow> setting_ok (''access_control_'' @ show_int n) (PStr ip)"
  using access_key [of n] by (simp add: setting_ok_def is_ip_def)

lemma safe_access_ip: "safe (set_access_ip number ip)"
  unfolding set_access_ip_def by (intro keeps_ifp keeps_andthen keeps_lifted safe_set_ip setting_access)

lemma safe_address_text: "safe (address_text k k')"
  unfolding address_text_def by (intro keeps_andthen safe_get_texts keeps_yield)

lemma raises_address_text: "{k, k'} \<subseteq> set config_keys \<Longrightarrow> raises_only config_ok X (address_text k k')"
  unfolding address_text_def by (intro raises_only_andthen safe_get_texts raises_get_texts raises_only_yield) simp

lemma safe_reboot: "safe reboot_signal"
  unfolding reboot_signal_def by (rule safe_set) (simp add: setting_ok_def config_defs)

lemma raises_reboot: "raises_only config_ok X reboot_signal"
  unfolding reboot_signal_def by (rule raises_only_set)

lemma short_count: "0 \<le> n \<Longrightarrow> n \<le> 4294967295 \<Longrightarrow> short n"
proof -
  assume "0 \<le> n" and "n \<le> 4294967295"
  then have "nat \<bar>n\<bar> < 10 ^ 10" by simp
  moreover have "(10::nat) ^ 10 \<le> 10 ^ max_str_digits" by (rule power_increasing) (simp_all add: max_str_digits_def)
  ultimately show "short n" unfolding short_def by (rule less_le_trans)
qed

lemma setting_count: "key \<in> set count_keys \<Longrightarrow> 0 \<le> n \<Longrightarrow> n \<le> 4294967295 \<Longrightarrow> setting_ok key (PStr (show_int n))"
proof -
  assume k: "key \<in> set count_keys" and n: "0 \<le> n" "n \<le> 4294967295"
  have "is_count (PStr (show_int n))" using n py_int_show [OF short_count [OF n]] unfolding is_count_def by simp
  moreover have "setting_ok key v = is_count v" for v
  proof -
    have "key \<notin> set ip_keys \<and> \<not> prefix ''access_control_'' key \<and> key \<notin> set port_keys"
    proof -
      from k consider "key = ''software_watchdog''" | "key = ''kap_missing_warning''" | "key = ''keep_alive_timer''"
        by (auto simp: count_keys_def)
      then show ?thesis by cases (simp_all add: ip_keys_def port_keys_def)
    qed
    with k show ?thesis unfolding setting_ok_def by simp
  qed
  ultimately show ?thesis by simp
qed

lemma uint_range: "0 \<le> least \<Longrightarrow> 0 \<le> most \<Longrightarrow> 0 \<le> try_parse_uint s least most \<and> try_parse_uint s least most \<le> most"
  by (auto simp: try_parse_uint_def split: sum.splits)

lemma counted_no_brace: "is_count v \<Longrightarrow> \<not> has_brace (enabled_text v)"
  using show_nat_dec [of "CHR 0x7B"] show_nat_dec [of "CHR 0x7D"]
  by (auto simp: is_count_def has_brace_def enabled_text_def show_int_def is_dec_def code_def split: pyval.splits sum.splits)

section \<open>Commands\<close>

lemmas safe_rules = keeps_andthen keeps_ifp keeps_cond keeps_yield keeps_lifted keeps_get safe_get_texts safe_set_ip safe_set_port safe_copy
  safe_access_ip safe_address_text safe_reboot safe_set

lemmas raises_rules = raises_only_andthen raises_only_ifp raises_only_if raises_only_yield raises_get raises_get_texts
  raises_set_port raises_copy raises_address_text raises_reboot raises_only_set

lemma safe_AC: "safe (run_AC p)"
  unfolding run_AC_def Let_def by (intro safe_rules) (auto simp: setting_ok_def config_defs is_ip_def is_port_def)?

lemma safe_AS: "safe (run_AS p)"
  unfolding run_AS_def Let_def by (intro safe_rules) (auto simp: setting_ok_def config_defs is_ip_def is_port_def)?

lemma safe_GC: "safe (run_GC p)"
  unfolding run_GC_def Let_def by (intro safe_rules) (auto simp: setting_ok_def config_defs is_ip_def is_port_def)?

lemma safe_GV: "safe (run_GV p)"
  unfolding run_GV_def Let_def by (intro safe_rules) (auto simp: setting_ok_def config_defs is_ip_def is_port_def)?

lemma safe_SA: "safe (run_SA p)"
  unfolding run_SA_def Let_def by (intro safe_rules) (auto simp: setting_ok_def config_defs is_ip_def is_port_def)?

lemma safe_SB: "safe (run_SB p)"
  unfolding run_SB_def Let_def
  using parse_port_range by (intro safe_rules) (auto simp: setting_ok_def config_defs is_ip_def is_port_def)

lemma safe_SC: "safe (run_SC p)"
  unfolding run_SC_def Let_def by (intro safe_rules) (auto simp: setting_ok_def config_defs is_ip_def is_port_def)?

lemma safe_SD: "safe (run_SD p)"
  unfolding run_SD_def Let_def by (intro safe_rules) (auto simp: setting_ok_def config_defs is_ip_def is_port_def)?

lemma safe_SH: "safe (run_SH p)"
  unfolding run_SH_def Let_def by (intro safe_rules) (auto simp: setting_ok_def config_defs is_ip_def is_port_def)?

lemma safe_SI: "safe (run_SI p)"
  unfolding run_SI_def Let_def
  by (intro keeps_andthen keeps_ifp keeps_parse_ip) (intro safe_rules; auto simp: setting_ok_def config_defs is_ip_def)+

lemma safe_SN: "safe (run_SN p)"
  unfolding run_SN_def Let_def by (intro safe_rules) (auto simp: setting_ok_def config_defs is_ip_def is_port_def)?

lemma safe_SP: "safe (run_SP p)"
  unfolding run_SP_def Let_def by (intro safe_rules) (auto simp: setting_ok_def config_defs is_ip_def is_port_def)?

lemma safe_SS: "safe (run_SS p)"
  unfolding run_SS_def Let_def by (intro safe_rules) (auto simp: setting_ok_def config_defs is_ip_def is_port_def)?

lemma safe_RC: "safe (run_RC p)"
  unfolding run_RC_def Let_def by (intro safe_rules) (auto simp: setting_ok_def config_defs is_ip_def is_port_def)?

lemma safe_RR: "safe (run_RR p)"
  unfolding run_RR_def Let_def by (intro safe_rules) (auto simp: setting_ok_def config_defs is_ip_def is_port_def)?

lemma safe_WM: "safe (run_WM p)"
  unfolding run_WM_def Let_def by (intro safe_rules) (auto simp: setting_ok_def config_defs is_ip_def is_port_def)?


lemma safe_SK: "safe (run_SK p)"
  unfolding run_SK_def Let_def using uint_range
  by (intro safe_rules setting_count) (auto simp: count_keys_def)

lemma raises_GC: "raises_none (run_GC p)"
  unfolding run_GC_def Let_def by (intro raises_rules safe_rules) (auto simp: setting_ok_def config_defs is_ip_def is_port_def)?

lemma raises_GV: "raises_none (run_GV p)"
  unfolding run_GV_def Let_def by (intro raises_rules safe_rules) (auto simp: setting_ok_def config_defs is_ip_def is_port_def)?

lemma raises_SD: "raises_none (run_SD p)"
  unfolding run_SD_def Let_def by (intro raises_rules safe_rules) (auto simp: setting_ok_def config_defs is_ip_def is_port_def)?

lemma raises_SH: "raises_none (run_SH p)"
  unfolding run_SH_def Let_def by (intro raises_rules safe_rules) (auto simp: setting_ok_def config_defs is_ip_def is_port_def)?

lemma raises_SP: "raises_none (run_SP p)"
  unfolding run_SP_def Let_def by (intro raises_rules safe_rules) (auto simp: setting_ok_def config_defs is_ip_def is_port_def)?

lemma raises_SS: "raises_none (run_SS p)"
  unfolding run_SS_def Let_def by (intro raises_rules safe_rules) (auto simp: setting_ok_def config_defs is_ip_def is_port_def)?

lemma raises_RC: "raises_none (run_RC p)"
  unfolding run_RC_def Let_def by (intro raises_rules safe_rules) (auto simp: setting_ok_def config_defs is_ip_def is_port_def)?

lemma raises_RR: "raises_none (run_RR p)"
  unfolding run_RR_def Let_def by (intro raises_rules safe_rules) (auto simp: setting_ok_def config_defs is_ip_def is_port_def)?

lemma raises_WM: "raises_none (run_WM p)"
  unfolding run_WM_def Let_def by (intro raises_rules safe_rules) (auto simp: setting_ok_def config_defs is_ip_def is_port_def)?


lemma raises_SK: "raises_none (run_SK p)"
  unfolding run_SK_def Let_def
proof (rule raises_only_andthen)
  let ?set = "\<lambda>key i least. ifp (i < length (words_of (given p)))
    (set_value key (PStr (show_int (try_parse_uint (words_of (given p) ! i) least 4294967295))))"
  let ?m = "ifp (p \<noteq> None) (seq (?set ''software_watchdog'' 0 5) (seq (?set ''kap_missing_warning'' 1 0) (?set ''keep_alive_timer'' 2 0)))"
  show "safe ?m" using uint_range by (intro safe_rules setting_count) (auto simp: count_keys_def)
  show "raises_none ?m" using uint_range by (intro raises_rules safe_rules setting_count) (auto simp: count_keys_def)
  have "is_count v" if "setting_ok k v" "k \<in> {''software_watchdog'', ''kap_missing_warning'', ''keep_alive_timer''}" for k v
    using that by (auto simp: setting_ok_def config_defs)
  then have "\<not> has_brace (enabled_text v)"
    if "setting_ok k v" "k \<in> {''software_watchdog'', ''kap_missing_warning'', ''keep_alive_timer''}" for k v
    using that counted_no_brace by blast
  then show "raises_none (andthen (get_value ''software_watchdog'') (\<lambda>a. andthen (get_value ''kap_missing_warning'') (\<lambda>b.
      andthen (get_value ''keep_alive_timer'') (\<lambda>c. andthen (get_value ''kap_server_lookup'') (\<lambda>_.
      if has_brace ((if p \<noteq> None then crlf @ ''OK'' else []) @ text_lines [[], ''Software watchdog: '' @ enabled_text a,
          ''KAP Missing warning: '' @ enabled_text b, ''Keep alive timer (flash setting): '' @ enabled_text c])
      then lift (Inl ValueError)
      else yield (Some ((if p \<noteq> None then crlf @ ''OK'' else []) @ text_lines [[], ''Software watchdog: '' @ enabled_text a,
          ''KAP Missing warning: '' @ enabled_text b, ''Keep alive timer (flash setting): '' @ enabled_text c])))))))"
    by (intro raises_get_bind raises_only_if raises_only_yield) (auto simp: config_defs has_brace_def text_lines_def crlf_def)
qed


section \<open>Requests and connections\<close>

lemma commands_safe: "(k, h, run) \<in> set commands \<Longrightarrow> safe (run p)"
  unfolding commands_def
  by (auto intro: safe_AC safe_AS safe_GC safe_GV safe_SA safe_SB safe_SC safe_SD safe_SH safe_SI safe_SK safe_SN safe_SP safe_SS safe_RC
      safe_RR safe_WM)

lemma respond_safe: "safe (respond_to request)"
proof -
  have run: "safe (case map_of commands k of Some (_, run) \<Rightarrow> run params | None \<Rightarrow> yield (Some COMMAND_NOT_FOUND))" for k params
    by (auto simp del: map_of.simps split: option.split intro!: keeps_yield dest!: map_of_SomeD intro: commands_safe)
  show ?thesis unfolding respond_to_def Let_def by (intro keeps_cond keeps_yield run)
qed

lemma converse_safe: "config_ok b \<Longrightarrow> converse decode ds b = (es, c, r) \<Longrightarrow> config_ok c"
proof (induction ds arbitrary: b es c r)
  case (Cons d ds)
  show ?case
  proof (cases "decode d")
    case (Inr q)
    obtain b' x where x: "respond_to q b = (b', x)" by (cases "respond_to q b")
    then have "config_ok b'" using respond_safe [of q] Cons.prems(1) by (auto simp: keeps_def dest: spec [of _ b])
    then show ?thesis using Cons.prems(2) Inr x
      by (auto split: sum.splits option.splits prod.splits intro: Cons.IH)
  qed (use Cons.prems in simp)
qed simp

text \<open>C31. The settings of the meter stay valid whatever a peer sends and however its connection ends: addresses are four numbers
  below 256, ports are between 1 and 65535, timers fit into 32 bits, the device name has at most twenty characters.\<close>

theorem settings_stay_valid:
  assumes "config_ok b" and "handle_management decode ds b = (es, c, r)"
  shows "config_ok c"
proof -
  have "safe (andthen (get_texts [''mac_address'']) (\<lambda>v. lift (to_ascii (banner (v ! 0)))))"
    by (intro keeps_andthen safe_get_texts keeps_lifted)
  with assms(1) have "config_ok (fst (andthen (get_texts [''mac_address'']) (\<lambda>v. lift (to_ascii (banner (v ! 0)))) b))"
    by (simp add: keeps_def)
  with assms(2) show ?thesis using converse_safe
    by (fastforce simp: handle_management_def split: prod.splits sum.splits)
qed

end
