(* ===== verification/KamstrupRequests.thy ===== *)
theory KamstrupRequests
  imports KamstrupMgmtFacts
begin

text \<open>
  When a request to the management console raises: what it means that an address or a number cannot be read, and that this, in
  the arguments of the commands that read them, is exactly when.
\<close>

section \<open>When a request raises\<close>

text \<open>What cannot be read: a text that is no number; an address without dots in which one of the pieces of three characters is
  none; an address of four parts in which the first part that is no octet is no number either.\<close>

definition no_number :: "string \<Rightarrow> bool" where
  "no_number s \<longleftrightarrow> (case py_int s of Inl _ \<Rightarrow> True | Inr _ \<Rightarrow> False)"

definition is_octet :: "string \<Rightarrow> bool" where
  "is_octet s \<longleftrightarrow> (case py_int s of Inl _ \<Rightarrow> False | Inr n \<Rightarrow> 0 \<le> n \<and> n \<le> 255)"

fun threes :: "string \<Rightarrow> string list" where
  "threes [] = []"
| "threes (a # s) = take 3 (a # s) # threes (drop 2 s)"

definition unreadable :: "string \<Rightarrow> bool" where
  "unreadable s \<longleftrightarrow>
     (if CHR ''.'' \<in> set s
      then length (split_on (CHR ''.'') s) = 4 \<and>
        (case find (\<lambda>q. \<not> is_octet q) (split_on (CHR ''.'') s) of None \<Rightarrow> False | Some q \<Rightarrow> no_number q)
      else \<exists>q \<in> set (threes s). no_number q)"

text \<open>The arguments of a command that cannot be read though it reads them.\<close>

definition bad_arguments :: "string \<Rightarrow> string \<Rightarrow> bool" where
  "bad_arguments command p \<longleftrightarrow>
     (let ps = words_of p in
      if p = [] then False
      else if command \<in> {''!AS'', ''!SA'', ''!SB''} then unreadable (ps ! 0)
      else if command = ''!SI'' then unreadable p
      else if command = ''!SN'' then length ps = 3 \<and> (\<exists>a \<in> set ps. unreadable a)
      else if command = ''!SC'' then length ps \<ge> 10 \<and>
        (\<exists>i \<in> {1..7}. unreadable (ps ! i) \<and> (4 \<le> i \<or> ps ! 0 \<noteq> ''1''))
      else if command = ''!AC'' then length ps = 3 \<and> ps ! 0 = ''0'' \<and> count_list (ps ! 2) (CHR ''.'') = 3 \<and>
        (\<exists>x \<in> set ''12345''. x \<in> set (ps ! 1)) \<and> (no_number (ps ! 1) \<or> unreadable (ps ! 2))
      else False)"

definition bad_request :: "string \<Rightarrow> bool" where
  "bad_request request \<longleftrightarrow>
     bad_arguments (upper (fst (split_once (strip request)))) (given (snd (split_once (strip request))))"

lemma dec_value_from_less: "list_all is_dec s \<Longrightarrow> dec_value_from a s < (a + 1) * 10 ^ length s"
proof (induction s arbitrary: a)
  case (Cons c s)
  then have "code c - 48 \<le> 9" by (simp add: is_dec_def code_def le_diff_conv)
  with Cons have "dec_value_from (10 * a + (code c - 48)) s < (10 * a + (code c - 48) + 1) * 10 ^ length s" by simp
  also have "\<dots> \<le> (10 * (a + 1)) * 10 ^ length s"
    using \<open>code c - 48 \<le> 9\<close> by (intro mult_right_mono) simp_all
  finally show ?case by (simp add: algebra_simps)
qed simp

lemma py_int_short:
  assumes "py_int s = Inr n"
  shows "short n"
proof -
  define t where "t = strip s"
  define signed where "signed \<longleftrightarrow> t \<noteq> [] \<and> hd t \<in> {CHR ''+'', CHR ''-''}"
  define groups where "groups = split_on (CHR ''_'') (if signed then tl t else t)"
  have "list_all (\<lambda>g. g \<noteq> [] \<and> list_all is_dec g) groups \<and> length (concat groups) \<le> max_str_digits"
    and n: "n = (if signed \<and> hd t = CHR ''-'' then - 1 else 1) * int (dec_value (concat groups))"
    using assms unfolding py_int_def Let_def t_def [symmetric] signed_def [symmetric] groups_def [symmetric]
    by (auto split: if_split_asm)
  then have d: "list_all is_dec (concat groups)" "length (concat groups) \<le> max_str_digits"
    by (simp_all add: list_all_iff)
  have "dec_value (concat groups) < 10 ^ length (concat groups)"
    using dec_value_from_less [OF d(1), of 0] by (simp add: dec_value_def)
  also have "\<dots> \<le> 10 ^ max_str_digits" using d(2) by (rule power_increasing) simp
  finally show ?thesis unfolding short_def n by (auto simp: abs_mult)
qed

lemma octets_ok_raises:
  "(\<exists>e. octets_ok ps = Inl e) \<longleftrightarrow> (case find (\<lambda>q. \<not> is_octet q) ps of None \<Rightarrow> False | Some q \<Rightarrow> no_number q)"
  by (induction ps) (auto simp: is_octet_def no_number_def bindE_def split: sum.splits)

lemma int_chunks_raises: "(\<exists>e. int_chunks s = Inl e) \<longleftrightarrow> (\<exists>q \<in> set (threes s). no_number q)"
  by (induction s rule: int_chunks.induct) (auto simp: no_number_def bindE_def split: sum.splits)

lemma int_chunks_short: "int_chunks s = Inr ns \<Longrightarrow> \<forall>n \<in> set ns. short n"
  by (induction s arbitrary: ns rule: int_chunks.induct) (auto dest: py_int_short)

lemma octets_shown: "\<forall>n \<in> set ns. short n \<Longrightarrow> \<exists>ok. octets_ok (map show_int ns) = Inr ok"
  by (induction ns) (auto simp: py_int_show)

lemma parse_ip_raises: "(\<exists>e. parse_ip s = Inl e) \<longleftrightarrow> unreadable s"
proof (cases "CHR ''.'' \<in> set s")
  case True
  then show ?thesis
    using octets_ok_raises [of "split_on (CHR ''.'') s"]
    by (auto simp: parse_ip_def unreadable_def bindE_eq_Inl_iff)
next
  case False
  have "parse_ip s \<noteq> Inl e" if ns: "int_chunks s = Inr ns" for ns e
    using octets_shown [OF int_chunks_short [OF ns]] False ns by (auto simp: parse_ip_def bindE_eq_Inl_iff)
  moreover have "parse_ip s = Inl e" if "int_chunks s = Inl e" for e
    using that False by (simp add: parse_ip_def)
  ultimately show ?thesis using False int_chunks_raises [of s] by (cases "int_chunks s") (auto simp: unreadable_def)
qed

definition raises_when :: "bool \<Rightarrow> 'a busop \<Rightarrow> bool" where
  "raises_when c m \<longleftrightarrow> (\<forall>b. config_ok b \<longrightarrow> (case snd (m b) of Inl e \<Rightarrow> e = ValueError \<and> c | Inr _ \<Rightarrow> \<not> c))"

lemma raises_never: "raises_none m \<Longrightarrow> raises_when False m"
  by (auto simp: raises_when_def raises_only_def split: sum.splits)

lemma raises_when_then:
  assumes "safe m" and "raises_when c m" and "\<And>v. raises_when d (f v)"
  shows "raises_when (c \<or> d) (andthen m f)"
  using assms by (fastforce simp: raises_when_def keeps_def andthen_def split: prod.splits sum.splits)

lemma raises_when_ifp: "raises_when c m \<Longrightarrow> raises_when (p \<and> c) (ifp p m)"
  by (cases p) (simp_all add: raises_when_def ifp_def)

lemma raises_when_if: "raises_when c m \<Longrightarrow> raises_when d k \<Longrightarrow> raises_when (if p then c else d) (if p then m else k)"
  by (simp add: raises_when_def)

lemma raises_when_ip: "raises_when (unreadable s) (set_ip k s)"
  using parse_ip_raises [of s] parse_ip_ValueError [of s]
  by (cases "parse_ip s") (auto simp: raises_when_def set_ip_def andthen_def)

lemma raises_when_parse: "(\<And>ip. ip_text ip \<Longrightarrow> raises_none (f ip)) \<Longrightarrow> raises_when (unreadable s) (andthen (lift (parse_ip s)) f)"
  using parse_ip_raises [of s] parse_ip_ValueError [of s] parse_ip_text [of s]
  by (cases "parse_ip s") (auto simp: raises_when_def raises_only_def andthen_def split: sum.splits)

lemma raises_when_number: "raises_when (no_number s) (lift (py_int s))"
  by (cases "py_int s") (auto simp: raises_when_def no_number_def dest: py_int_ValueError)

lemma raises_when_cong: "raises_when c m \<Longrightarrow> c = d \<Longrightarrow> raises_when d m"
  by simp

lemmas when_rules = raises_when_then raises_when_ifp raises_when_ip

lemma texts_raise_never: "set ks \<subseteq> set config_keys \<Longrightarrow> raises_when False (andthen (get_texts ks) (\<lambda>v. yield (out v)))"
  by (intro raises_never raises_only_andthen safe_get_texts raises_get_texts raises_only_yield)

lemma when_access_ip:
  "raises_when (count_list ip (CHR ''.'') = 3 \<and> (\<exists>x \<in> set ''12345''. x \<in> set number) \<and> (no_number number \<or> unreadable ip)) (set_access_ip number ip)"
  unfolding set_access_ip_def
  by (rule raises_when_cong [OF raises_when_ifp [OF raises_when_then [OF keeps_lifted raises_when_number raises_when_ip]]]) simp

lemma bad_simps:
  "bad_arguments ''!AS'' p \<longleftrightarrow> p \<noteq> [] \<and> unreadable (words_of p ! 0)"
  "bad_arguments ''!SA'' p \<longleftrightarrow> p \<noteq> [] \<and> unreadable (words_of p ! 0)"
  "bad_arguments ''!SB'' p \<longleftrightarrow> p \<noteq> [] \<and> unreadable (words_of p ! 0)"
  "bad_arguments ''!SI'' p \<longleftrightarrow> p \<noteq> [] \<and> unreadable p"
  "bad_arguments ''!SN'' p \<longleftrightarrow> p \<noteq> [] \<and> length (words_of p) = 3 \<and> (\<exists>a \<in> set (words_of p). unreadable a)"
  "bad_arguments ''!SC'' p \<longleftrightarrow> p \<noteq> [] \<and> length (words_of p) \<ge> 10 \<and>
     (\<exists>i \<in> {1..7}. unreadable (words_of p ! i) \<and> (4 \<le> i \<or> words_of p ! 0 \<noteq> ''1''))"
  "bad_arguments ''!AC'' p \<longleftrightarrow> p \<noteq> [] \<and> length (words_of p) = 3 \<and> words_of p ! 0 = ''0'' \<and> count_list (words_of p ! 2) (CHR ''.'') = 3 \<and>
     (\<exists>x \<in> set ''12345''. x \<in> set (words_of p ! 1)) \<and> (no_number (words_of p ! 1) \<or> unreadable (words_of p ! 2))"
  by (simp_all add: bad_arguments_def Let_def)

lemma when_AC: "raises_when (bad_arguments ''!AC'' (given p)) (run_AC p)"
proof -
  have s: "raises_when False (set_value ''access_control_status'' v)" for v by (rule raises_never [OF raises_only_set])
  have y: "raises_when False (yield ())" by (rule raises_never [OF raises_only_yield])
  have last: "raises_when False (andthen (get_texts [''access_control_status'', ''access_control_1'', ''access_control_2'', ''access_control_3'',
      ''access_control_4'', ''access_control_5'']) (\<lambda>v. yield (f v)))" for f
    by (rule texts_raise_never) (simp add: config_defs)
  show ?thesis
    unfolding run_AC_def Let_def
    by (rule raises_when_cong [OF raises_when_then [OF _ raises_when_if [OF y raises_when_if [OF s raises_when_if [OF s
          raises_when_if [OF when_access_ip y]]]] last]];
      ((intro keeps_ifp keeps_parse_ip safe_rules raises_rules; (auto simp: setting_ok_def config_defs is_ip_def is_port_def)?) | (auto simp: bad_simps)))
qed

lemma when_AS: "raises_when (bad_arguments ''!AS'' (given p)) (run_AS p)"
proof -
  have status: "raises_when False (andthen (get_value ''alarm_server_status'') (\<lambda>status.
      andthen (if status = PStr ''DISABLED'' then yield ''DISABLED'' else address_text ''alarm_server_ip'' ''alarm_server_port'') (\<lambda>out. yield (f out))))" for f
    by (intro raises_never raises_rules safe_rules) (simp_all add: config_defs)
  have s: "raises_when False (set_value ''alarm_server_status'' v)" for v by (rule raises_never [OF raises_only_set])
  have rest: "raises_when False (seq (ifp c (set_port ''alarm_server_port'' q))
      (andthen (address_text ''alarm_server_ip'' ''alarm_server_port'') (\<lambda>out. yield (f out))))" for c q f
    by (intro raises_never raises_rules safe_rules) (simp_all add: setting_ok_def config_defs)
  show ?thesis
    unfolding run_AS_def Let_def
    by (rule raises_when_cong [OF raises_when_if [OF status raises_when_then [OF _ s raises_when_then [OF _ raises_when_ip rest]]]];
      ((intro keeps_ifp keeps_parse_ip safe_rules raises_rules; (auto simp: setting_ok_def config_defs is_ip_def is_port_def)?) | (auto simp: bad_simps)))
qed

lemma when_SA: "raises_when (bad_arguments ''!SA'' (given p)) (run_SA p)"
proof -
  have rest: "raises_when False (seq (set_value ''kap_a_server_hostname'' (PStr ''0 - none'')) (ifp c (set_port ''kap_a_server_port'' q)))" for c q
    by (intro raises_never raises_rules safe_rules) (simp_all add: setting_ok_def config_defs)
  have last: "raises_when False (andthen (address_text ''kap_a_server_ip'' ''kap_a_server_port'') (\<lambda>out. yield (f out)))" for f
    by (intro raises_never raises_rules safe_rules) (simp_all add: config_defs)
  show ?thesis
    unfolding run_SA_def Let_def
    by (rule raises_when_cong [OF raises_when_then [OF _ raises_when_ifp [OF raises_when_then [OF _ raises_when_ip rest]] last]];
      ((intro keeps_ifp keeps_parse_ip safe_rules raises_rules; (auto simp: setting_ok_def config_defs is_ip_def is_port_def)?) | (auto simp: bad_simps)))
qed

lemma when_SB: "raises_when (bad_arguments ''!SB'' (given p)) (run_SB p)"
proof -
  have rest: "raises_when False (ifp c (ifp (parse_port q \<noteq> 0) (set_value ''kap_b_server_port'' (PStr q))))" for c q
    by (intro raises_never raises_rules)
  have last: "raises_when False (andthen (get_value ''kap_b_server_ip'') (\<lambda>ip.
      andthen (get_texts [''kap_a_server_ip'', ''kap_a_server_port'']) (\<lambda>v.
      if ip = PStr ''0.0.0.0'' then yield (f v) else andthen (get_texts [''kap_b_server_ip'', ''kap_b_server_port'']) (\<lambda>w. yield (g v w)))))" for f g
    by (intro raises_never raises_rules safe_rules) (simp_all add: config_defs)
  show ?thesis
    unfolding run_SB_def Let_def
    using parse_port_range
    by - (rule raises_when_cong [OF raises_when_then [OF _ raises_when_ifp [OF raises_when_then [OF _ raises_when_ip rest]] last]];
      ((intro keeps_ifp keeps_parse_ip safe_rules raises_rules; (auto simp: setting_ok_def config_defs is_ip_def is_port_def)?) | (auto simp: bad_simps)))
qed

lemma when_SN: "raises_when (bad_arguments ''!SN'' (given p)) (run_SN p)"
proof -
  have y: "raises_when False (yield x)" for x :: "string option" by (rule raises_never [OF raises_only_yield])
  have three: "(\<exists>a \<in> set ps. f a) \<longleftrightarrow> f (ps ! 0) \<or> f (ps ! 1) \<or> f (ps ! 2)" if "length ps = 3" for f and ps :: "string list"
  proof -
    from that obtain a b c where "ps = [a, b, c]" by (auto simp: numeral_3_eq_3 length_Suc_conv)
    then show ?thesis by (simp add: numeral_2_eq_2)
  qed
  have none: "length (words_of (given None)) \<noteq> 3" "length (words_of []) \<noteq> 3" by (simp_all add: given_def)
  show ?thesis
    unfolding run_SN_def Let_def
    using none
    by - (rule raises_when_cong [OF raises_when_if [OF y raises_when_then [OF _ raises_when_ip raises_when_then [OF _ raises_when_ip
          raises_when_then [OF _ raises_when_ip y]]]]];
      ((intro keeps_ifp keeps_parse_ip safe_rules raises_rules; (auto simp: setting_ok_def config_defs is_ip_def is_port_def)?) | (auto simp: bad_simps three)))
qed

lemma when_SI: "raises_when (bad_arguments ''!SI'' (given p)) (run_SI p)"
proof -
  have last: "raises_when False (andthen (get_texts [''use_dhcp'', ''ip_addr'']) (\<lambda>v. yield (f v)))" for f
    by (rule texts_raise_never) (simp add: config_defs)
  show ?thesis
    unfolding run_SI_def Let_def
    by (rule raises_when_cong [OF raises_when_then [OF _ raises_when_ifp [OF raises_when_parse] last]];
      ((intro keeps_ifp keeps_parse_ip safe_rules raises_rules; (auto simp: setting_ok_def config_defs is_ip_def is_port_def)?) | (auto simp: bad_simps)))
qed

lemma eight: "(\<exists>i \<in> {1..7 :: nat}. f i) \<longleftrightarrow> f 1 \<or> f 2 \<or> f 3 \<or> f 4 \<or> f 5 \<or> f 6 \<or> f 7"
proof -
  have "{1..7} = {1 :: nat, 2, 3, 4, 5, 6, 7}" by auto
  then show ?thesis by simp
qed

lemma when_SC: "raises_when (bad_arguments ''!SC'' (given p)) (run_SC p)"
proof -
  have s: "raises_when False (set_value k v)" for k v by (rule raises_never [OF raises_only_set])
  have last: "raises_when False (seq reboot_signal (yield x))" for x :: "string option"
    by (intro raises_never raises_rules safe_rules)
  have none: "\<not> 10 \<le> length (words_of [])" by simp
  show ?thesis
    unfolding run_SC_def Let_def using none
    by - (rule raises_when_cong [OF raises_when_then [OF _ raises_when_ifp [OF
          raises_when_then [OF _ raises_when_if [OF s raises_when_then [OF _ s raises_when_then [OF _ raises_when_ip raises_when_then [OF _ raises_when_ip raises_when_ip]]]]
          raises_when_then [OF _ raises_when_ip raises_when_then [OF _ raises_when_ip raises_when_then [OF _ raises_when_ip
          raises_when_then [OF _ raises_when_if [OF raises_when_then [OF _ raises_when_ip s] raises_when_then [OF _ s raises_when_ip]] s]]]]]] last]];
      ((intro safe_rules; simp add: setting_ok_def config_defs is_ip_def) | (cases "words_of (given p) ! 0 = ''1''"; simp add: bad_simps eight del: One_nat_def)))
qed

lemma bad_arguments_command: "bad_arguments k p \<Longrightarrow> k \<in> {''!AC'', ''!AS'', ''!SA'', ''!SB'', ''!SC'', ''!SI'', ''!SN''}"
  by (auto simp: bad_arguments_def Let_def split: if_splits)

lemma commands_raise_when:
  "list_all (\<lambda>(k, h, run). \<forall>p. raises_when (bad_arguments k (given p)) (run p)) commands"
proof -
  have never: "raises_when (bad_arguments k (given p)) m" if "k \<notin> {''!AC'', ''!AS'', ''!SA'', ''!SB'', ''!SC'', ''!SI'', ''!SN''}" "raises_none m"
    for k p and m :: "string option busop"
    using raises_never [OF that(2)] bad_arguments_command [of k "given p"] that(1) by (rule_tac raises_when_cong) blast+
  show ?thesis
    unfolding commands_def list.pred_inject prod.case
    by (intro conjI allI; (rule when_AC when_AS when_SA when_SB when_SC when_SI when_SN |
        (rule never; simp add: raises_GC raises_GV raises_SD raises_SH raises_SK raises_SP raises_SS raises_RC raises_RR raises_WM))?) simp
qed

lemma split_once_empty: "fst (split_once []) = []"
  by (simp add: split_once_def)

text \<open>C32. On valid settings a request raises exactly when one of seven commands reads an address or a number that cannot be read,
  and then it raises ValueError; every other request is answered.\<close>

theorem only_bad_numbers_raise:
  assumes "config_ok b"
  shows "case snd (respond_to request b) of Inl e \<Rightarrow> e = ValueError \<and> bad_request request | Inr _ \<Rightarrow> \<not> bad_request request"
proof -
  let ?k = "upper (fst (split_once (strip request)))" and ?p = "snd (split_once (strip request))"
  have w: "raises_when (bad_arguments k (given ?p)) (run ?p)" if "map_of commands k = Some (h, run)" for k h run
    using commands_raise_when map_of_SomeD [OF that] by (auto simp: list_all_iff)
  have known: "map_of commands k \<noteq> None \<and> length k = 3 \<and> prefix ''!'' k" if "bad_arguments k (given ?p)" for k
    using bad_arguments_command [OF that] by (auto simp: commands_def)
  show ?thesis
  proof (cases "map_of commands ?k")
    case None
    with known [of ?k] show ?thesis by (auto simp: respond_to_def Let_def bad_request_def)
  next
    case (Some r)
    obtain h run where r: "r = (h, run)" by (cases r)
    have "respond_to request b = run ?p b"
      using map_of_SomeD [OF Some] by (auto simp: respond_to_def Let_def Some r commands_def upper_def split_once_empty)
    with w [of ?k h run] Some r assms show ?thesis unfolding bad_request_def by (simp add: raises_when_def)
  qed
qed

end
