(* ===== verification/KamstrupMgmtClaims.thy ===== *)
theory KamstrupMgmtClaims
  imports KamstrupRequests
begin

text \<open>
  The two forms of an address are one, and what \<open>!SA\<close> does with either; the meter of the template, on which the theorems are applied
  and the cases behind the findings are run.
\<close>

section \<open>Both forms of an address\<close>

definition three :: "nat \<Rightarrow> string" where
  "three n = [char_of (48 + n div 100), char_of (48 + n div 10 mod 10), char_of (48 + n mod 10)]"

definition dotted :: "nat list \<Rightarrow> string" where
  "dotted ns = join_on ''.'' (map show_nat ns)"

definition compact :: "nat list \<Rightarrow> string" where
  "compact ns = concat (map three ns)"

lemma three_digits: "n < 1000 \<Longrightarrow> n div 100 < 10 \<and> n div 10 mod 10 < 10 \<and> n mod 10 < (10::nat)"
  by (simp add: less_mult_imp_div_less)

lemma dec_digit: "d < (10::nat) \<Longrightarrow> is_dec (char_of (48 + d))"
  by (simp add: is_dec_def)

lemma three_dec: "n < 1000 \<Longrightarrow> list_all is_dec (three n)"
  using three_digits [of n] dec_digit by (simp add: three_def del: of_char_of)

lemma dec_value_three: "n < 1000 \<Longrightarrow> dec_value (three n) = n"
proof -
  assume "n < 1000"
  then have "dec_value (three n) = 10 * (10 * (n div 100) + n div 10 mod 10) + n mod 10"
    using three_digits [of n] by (simp add: three_def dec_value_def del: One_nat_def)
  also have "n div 100 = n div 10 div 10" by (simp flip: div_mult2_eq)
  also have "10 * (n div 10 div 10) + n div 10 mod 10 = n div 10" by simp
  finally show ?thesis by simp
qed

lemma py_int_digits:
  assumes "list_all is_dec s" and "s \<noteq> []" and "length s \<le> max_str_digits"
  shows "py_int s = Inr (int (dec_value s))"
proof -
  have d: "is_dec c \<and> \<not> is_space c \<and> c \<noteq> CHR ''_'' \<and> c \<noteq> CHR ''+'' \<and> c \<noteq> CHR ''-''" if "c \<in> set s" for c
    using assms(1) that dec_not_special by (auto simp: list_all_iff)
  have "hd s \<in> set s" "last s \<in> set s" using assms(2) by simp_all
  then have "strip s = s" using d assms(2) by (intro strip_id) blast+
  moreover have "split_on (CHR ''_'') s = [s]" using d by (intro split_on_single) blast
  moreover have "hd s \<noteq> CHR ''+'' \<and> hd s \<noteq> CHR ''-''" using d assms(2) by simp
  ultimately show ?thesis using assms by (simp add: py_int_def Let_def)
qed

lemma py_int_three: "n < 1000 \<Longrightarrow> py_int (three n) = Inr (int n)"
  using py_int_digits [OF three_dec] dec_value_three by (simp add: three_def max_str_digits_def)

lemma three_no_dot: "n < 1000 \<Longrightarrow> c \<in> set (three n) \<Longrightarrow> is_dec c"
  using three_dec by (simp add: list_all_iff)

lemma int_chunks_three: "list_all (\<lambda>n. n < 1000) ns \<Longrightarrow> int_chunks (compact ns) = Inr (map int ns)"
proof (induction ns)
  case (Cons n ns)
  then have "py_int (three n) = Inr (int n)" using py_int_three by simp
  with Cons show ?case by (simp add: compact_def three_def)
qed (simp add: compact_def)

lemma octets_ok_shown: "list_all (\<lambda>n. n < 256) ns \<Longrightarrow> octets_ok (map show_nat ns) = Inr True"
proof (induction ns)
  case (Cons n ns)
  moreover have "py_int (show_nat n) = Inr (int n)" using py_int_show [OF short_small [of "int n"]] Cons.prems by (simp add: show_int_def)
  ultimately show ?case by simp
qed simp

lemma parse_dotted:
  assumes "list_all (\<lambda>n. n < 256) ns" and "length ns = 4"
  shows "parse_ip (dotted ns) = Inr (dotted ns)"
proof -
  have "CHR ''.'' \<in> set (dotted ns)" using assms(2) by (cases ns rule: remdups_adj.cases) (auto simp: dotted_def join_Cons)
  moreover have "split_on (CHR ''.'') (dotted ns) = map show_nat ns"
    unfolding dotted_def using assms(2) show_nat_dec [of "CHR ''.''"] by (intro split_on_join) (auto simp: is_dec_def code_def)
  ultimately show ?thesis using assms octets_ok_shown by (simp add: parse_ip_def dotted_def)
qed

lemma parse_compact:
  assumes "list_all (\<lambda>n. n < 256) ns" and "length ns = 4"
  shows "parse_ip (compact ns) = Inr (dotted ns)"
proof -
  have l: "list_all (\<lambda>n. n < 1000) ns" using assms(1) by (auto simp: list_all_iff)
  then have "CHR ''.'' \<notin> set (compact ns)" using three_no_dot [of _ "CHR ''.''"] by (auto simp: compact_def list_all_iff is_dec_def code_def)
  moreover have "map show_int (map int ns) = map show_nat ns" by (simp add: show_int_def)
  ultimately show ?thesis using assms octets_ok_shown int_chunks_three [OF l] by (simp add: parse_ip_def dotted_def del: map_map)
qed

lemma address_no_blank:
  assumes "list_all (\<lambda>n. n < 256) ns" and "s \<in> {dotted ns, compact ns}"
  shows "CHR '' '' \<notin> set s"
proof -
  have "\<forall>n \<in> set ns. n < 1000" using assms(1) by (auto simp: list_all_iff)
  then have "CHR '' '' \<notin> set (compact ns)" using three_no_dot [of _ "CHR '' ''"] by (auto simp: compact_def is_dec_def code_def)
  moreover have "set (join_on ''.'' ps) \<subseteq> insert (CHR ''.'') (\<Union> (set ` set ps))" for ps
    by (induction ps rule: remdups_adj.induct) auto
  then have "CHR '' '' \<notin> set (dotted ns)" unfolding dotted_def using show_nat_dec [of "CHR '' ''"] by (force simp: is_dec_def code_def)
  ultimately show ?thesis using assms(2) by auto
qed

lemma show_int_pos: "0 < p \<Longrightarrow> show_int p \<noteq> [] \<and> (\<forall>c \<in> set (show_int p). is_dec c)"
  using show_nat_dec by (auto simp: show_int_def)

text \<open>C33. The server of the meter is set by \<open>!SA\<close> to the address and the port requested, whether the address is written with dots or as
  twelve digits; the answer names them, and nothing else but the host name changes.\<close>

theorem kap_server_set:
  assumes "list_all (\<lambda>n. n < 256) ns" and "length ns = 4" and "addr \<in> {dotted ns, compact ns}" and "0 < p" and "p < 65536"
  shows "\<exists>c. respond_to (''!SA '' @ addr @ '' '' @ show_int p) b =
      (c, Inr (Some (crlf @ ''OK'' @ text_lines ['''', ''Service server addr.: '' @ dotted ns @ '':'' @ show_int p]))) \<and>
    bus_data c = (bus_data b)(''kap_a_server_ip'' \<mapsto> Plain (PStr (dotted ns)), ''kap_a_server_hostname'' \<mapsto> Plain (PStr ''0 - none''),
      ''kap_a_server_port'' \<mapsto> Plain (PInt p))"
proof -
  let ?req = "''!SA '' @ addr @ '' '' @ show_int p"
  note ps = show_int_pos [OF assms(4)]
  have "last ?req = last (show_int p)" using ps by simp
  then have "\<not> is_space (last ?req)" using ps dec_not_special by (metis last_in_set)
  then have strip: "strip ?req = ?req" by (intro strip_id) (auto simp: is_space_def code_def)
  have once: "split_once ?req = (''!SA'', Some (addr @ '' '' @ show_int p))" by (simp add: split_once_def Let_def)
  have upper: "upper ''!SA'' = ''!SA''" by code_simp
  have words: "words_of (addr @ '' '' @ show_int p) = [addr, show_int p]"
  proof -
    have "CHR '' '' \<notin> set (show_int p)" using ps by (auto simp: is_dec_def code_def)
    then show ?thesis using split_on_join [of "[addr, show_int p]" "CHR '' ''"] address_no_blank [OF assms(1,3)] by simp
  qed
  have ip: "parse_ip addr = Inr (dotted ns)" using assms(3) parse_dotted [OF assms(1,2)] parse_compact [OF assms(1,2)] by auto
  have port: "parse_port (show_int p) = p" using assms(4,5) py_int_show [OF short_small [of p]] by (simp add: parse_port_def)
  have run: "respond_to ?req b = run_SA (Some (addr @ '' '' @ show_int p)) b"
    unfolding respond_to_def strip Let_def once fst_conv snd_conv upper by (simp add: commands_def)
  have p0: "p \<noteq> 0" "addr @ '' '' @ show_int p \<noteq> []" using assms(4) by simp_all
  show ?thesis
    unfolding run run_SA_def Let_def given_def option.case words
    by (simp add: ifp_def set_ip_def set_port_def ip port p0 andthen_def address_text_def get_value_def fun_upd_twist)
qed


section \<open>The meter of the template\<close>

definition template_values :: "(string \<times> pyval) list" where
  "template_values =
     [(''reboot_signal'', PInt 0), (''software_version'', PStr ''5.5 (E5)''), (''access_control_status'', PStr ''DISABLED''),
      (''access_control_1'', PStr ''0.0.0.0''), (''access_control_2'', PStr ''0.0.0.0''), (''access_control_3'', PStr ''0.0.0.0''),
      (''access_control_4'', PStr ''0.0.0.0''), (''access_control_5'', PStr ''0.0.0.0''), (''device_name'', PStr []),
      (''nameserver_1'', PStr ''0.0.0.0''), (''nameserver_2'', PStr ''0.0.0.0''), (''nameserver_3'', PStr ''0.0.0.0''),
      (''mac_address'', PStr ''00:13:EA:00:00:00''), (''use_dhcp'', PStr ''YES''), (''ip_addr'', PStr ''192.168.1.210''),
      (''ip_gateway'', PStr ''192.168.1.1''), (''ip_subnet'', PStr ''255.255.255.0''), (''ip_addr_dhcp'', PStr ''192.168.0.1''),
      (''ip_gateway_dhcp'', PStr ''192.168.0.254''), (''ip_subnet_dhcp'', PStr ''255.255.255.0''),
      (''kap_a_server_hostname'', PStr ''kapserver.evilpowerprovider.org''), (''kap_a_server_ip'', PStr ''202.202.202.1''),
      (''kap_a_server_port'', PStr ''50''), (''kap_b_server_ip'', PStr ''0.0.0.0''), (''kap_b_server_port'', PStr ''50''),
      (''channel_a_meternumber'', PStr ''A1 06 A1 02 B7 34 12 00 00 03''), (''channel_b_meternumber'', PStr ''A1 06 A1 02 B7 34 12 00 00 03''),
      (''channel_a_port'', PStr ''1025''), (''channel_b_port'', PStr ''1027''), (''kap_ack_server'', PStr ''NO''),
      (''kap_local_port'', PStr ''800''), (''alarm_server_status'', PStr ''DISABLED''), (''alarm_server_ip'', PStr []),
      (''alarm_server_port'', PStr ''4000''), (''kap_server_lookup'', PStr ''0 - none''), (''software_watchdog'', PStr ''3600''),
      (''kap_missing_warning'', PStr ''60''), (''keep_alive_timer'', PStr ''10''), (''serial_settings_a'', PStr ''Auto''),
      (''serial_settings_b'', PStr ''115200,8,E,1''), (''channel_a_connect_socket'', PStr ''0 - None''),
      (''channel_b_connect_socket'', PStr ''0 - None'')]"

definition meter :: databus where
  "meter = \<lparr>bus_data = map_of (map (\<lambda>(k, v). (k, Plain v)) template_values), bus_observers = (\<lambda>k. if k = ''reboot_signal'' then [1] else []),
     bus_initialized = True, bus_spawned = [], bus_sense = (\<lambda>_. PNone)\<rparr>"

lemma py_int_text: "list_all is_dec s \<Longrightarrow> s \<noteq> [] \<Longrightarrow> length s \<le> 20 \<Longrightarrow> py_int s = Inr (int (dec_value s))"
  by (rule py_int_digits) (simp_all add: max_str_digits_def)

lemma template_ips:
  "is_ip (PStr ''0.0.0.0'')" "is_ip (PStr ''192.168.1.210'')" "is_ip (PStr ''192.168.1.1'')" "is_ip (PStr ''255.255.255.0'')"
  "is_ip (PStr ''192.168.0.1'')" "is_ip (PStr ''192.168.0.254'')" "is_ip (PStr ''202.202.202.1'')"
  by code_simp+

lemma template_ports:
  "is_port (PStr ''50'')" "is_port (PStr ''1025'')" "is_port (PStr ''1027'')" "is_port (PStr ''4000'')"
  by (simp_all add: is_port_def py_int_text dec_value_def is_dec_def code_def)

lemma digit_chars:
  "char_of (48::nat) = CHR ''0''" "char_of (49::nat) = CHR ''1''" "char_of (51::nat) = CHR ''3''" "char_of (54::nat) = CHR ''6''"
  by code_simp+

lemma template_counts: "is_count (PStr ''3600'')" "is_count (PStr ''60'')" "is_count (PStr ''10'')"
  by (simp_all add: is_count_def py_int_text dec_value_def is_dec_def code_def show_int_def show_nat.simps digit_chars)

lemma meter_value: "bus_data meter k = map_option Plain (map_of template_values k)"
  by (simp add: meter_def map_of_map [where f = Plain, unfolded comp_def])

lemma meter_ok: "config_ok meter"
proof -
  have "list_all (\<lambda>k. case map_of template_values k of Some v \<Rightarrow> setting_ok k v | None \<Rightarrow> False) config_keys"
    unfolding config_defs append.simps list.pred_inject
    by (intro conjI) (simp_all add: template_values_def setting_ok_def config_defs template_ips template_ports template_counts)
  then show ?thesis by (auto simp: config_ok_def meter_value list_all_iff split: option.splits)
qed

theorem settings_stay_valid_witness:
  "config_ok (fst (snd (handle_management Inr [''!SD meter'', ''!SI 192168001002'', ''!RR''] meter)))"
  using settings_stay_valid [OF meter_ok, of Inr "[''!SD meter'', ''!SI 192168001002'', ''!RR'']"]
  by (cases "handle_management Inr [''!SD meter'', ''!SI 192168001002'', ''!RR''] meter" rule: prod_cases3) auto

theorem only_bad_numbers_raise_witness:
  "snd (respond_to ''!AS x'' meter) = Inl ValueError \<and> (\<exists>answer. snd (respond_to ''!SN 1.2.3.4 010000000001 1.2.3'' meter) = Inr answer)"
proof -
  have "bad_request ''!AS x''" "\<not> bad_request ''!SN 1.2.3.4 010000000001 1.2.3''" by code_simp+
  then show ?thesis
    using only_bad_numbers_raise [OF meter_ok, of "''!AS x''"] only_bad_numbers_raise [OF meter_ok, of "''!SN 1.2.3.4 010000000001 1.2.3''"]
    by (simp split: sum.splits)
qed

theorem kap_server_set_witness:
  "\<exists>c. respond_to ''!SA 010000000001 61000'' meter =
    (c, Inr (Some (crlf @ ''OK'' @ text_lines ['''', ''Service server addr.: 10.0.0.1:61000''])))"
proof -
  have "compact [10, 0, 0, 1] = ''010000000001''" "dotted [10, 0, 0, 1] = ''10.0.0.1''" by code_simp+
  moreover have "show_int 61000 = ''61000''" by (simp add: show_int_def show_nat.simps digit_chars)
  ultimately show ?thesis using kap_server_set [of "[10, 0, 0, 1]" "''010000000001''" 61000 meter] by auto
qed

section \<open>Cases behind the findings\<close>

text \<open>An address that is none ends the connection after the alarms have been enabled: they go to an empty address.\<close>

lemma alarms_half_set:
  "snd (respond_to ''!AS x'' meter) = Inl ValueError"
  "snd (get_value ''alarm_server_status'' (fst (respond_to ''!AS x'' meter))) = Inr (PStr ''ENABLED'')"
  "snd (respond_to ''!AS'' (fst (respond_to ''!AS x'' meter))) = Inr (Some (crlf @ ''Alarm server:  :4000 ''))"
  by code_simp+

text \<open>There are five slots, but a twelfth is filled.\<close>

lemma twelfth_slot: "snd (get_value ''access_control_12'' (fst (respond_to ''!AC 0 12 10.0.0.1'' meter))) = Inr (PStr ''10.0.0.1'')"
  by code_simp

text \<open>The parts of a dotted address are kept as they were written.\<close>

lemma address_kept_as_written: "parse_ip ''+1.0_2. 3.004'' = Inr ''+1.0_2. 3.004''"
  by code_simp

text \<open>A device name that is not ASCII ends every connection that asks for the configuration, the one that set it and later ones.\<close>

definition accented_name :: string where
  "accented_name = ''!SD '' @ [CHR 0xE9]"

lemma name_breaks_config:
  "snd (snd (converse Inr [accented_name, ''!GC'', ''!GV''] meter)) = Inl ValueError"
  "snd (snd (handle_management Inr [''!GC'', ''!GV''] (fst (respond_to accented_name meter)))) = Inl ValueError"
  by code_simp+

end
