(* ===== verification/KamstrupReboot.thy ===== *)
theory KamstrupReboot
  imports Kamstrup KamstrupMgmtClaims
begin

text \<open>
  The two servers of the Kamstrup meter together: the console of \<open>kamstrup_management\<close> sets the signal on the data bus, whose
  observer, \<open>KamstrupServer.reboot\<close>, makes the connections of \<open>kamstrup_meter/kamstrup_server.py\<close> end until a timer has run. An
  event is what the scheduler runs next, and a connection serves what it receives in one event; the numbers in the registers are read off the bus by an argument.
\<close>

section \<open>The plant\<close>

record plant =
  pl_bus :: databus
  pl_active :: bool
  pl_timers :: nat
  pl_conns :: "nat \<Rightarrow> kparser option"

datatype plant_event = Console string | Notified | Reboot_done | Connect nat | Receive nat octets

text \<open>\<open>reboot\<close> asserts that it is called for its key; \<open>spawn_later\<close> adds a timer.\<close>

definition reboot :: "string \<Rightarrow> plant \<Rightarrow> plant" where
  "reboot key p = (if key \<noteq> ''reboot_signal'' then p else p\<lparr>pl_active := False, pl_timers := pl_timers p + 1\<rparr>)"

definition set_reboot_done :: "plant \<Rightarrow> plant" where
  "set_reboot_done p = p\<lparr>pl_active := True, pl_timers := pl_timers p - 1\<rparr>"

text \<open>A turn of the loop of a connection: what it serves, and whether the loop goes on.\<close>

definition receive :: "(octets \<Rightarrow> int) \<Rightarrow> (databus \<Rightarrow> string \<Rightarrow> int) \<Rightarrow> kconfig \<Rightarrow> octets \<Rightarrow> kparser \<Rightarrow> plant \<Rightarrow> kevent list \<times> kparser option" where
  "receive crc regs cfg raw s p =
     (if raw = [] then ([ConnectionLost], None)
      else case serve crc (regs (pl_bus p)) cfg (add_bytes raw s) of
        (s', events, Inl e) \<Rightarrow> (events, None)
      | (s', events, Inr _) \<Rightarrow> (events, if pl_active p then Some s' else None))"

definition plant_step :: "(octets \<Rightarrow> int) \<Rightarrow> (databus \<Rightarrow> string \<Rightarrow> int) \<Rightarrow> kconfig \<Rightarrow> plant_event \<Rightarrow> plant \<Rightarrow> kevent list \<times> plant" where
  "plant_step crc regs cfg e p =
     (case e of
        Console request \<Rightarrow> ([], p\<lparr>pl_bus := fst (respond_to request (pl_bus p))\<rparr>)
      | Notified \<Rightarrow>
          (case notify_observers (pl_bus p) of
             (None, b) \<Rightarrow> ([], p)
           | (Some (key, callbacks), b) \<Rightarrow> ([], (if callbacks \<noteq> [] then reboot key else id) (p\<lparr>pl_bus := b\<rparr>)))
      | Reboot_done \<Rightarrow> ([], if pl_timers p = 0 then p else set_reboot_done p)
      | Connect n \<Rightarrow> ([], p\<lparr>pl_active := True, pl_conns := (pl_conns p)(n \<mapsto> kparser_init)\<rparr>)
      | Receive n raw \<Rightarrow>
          (case pl_conns p n of
             None \<Rightarrow> ([], p)
           | Some s \<Rightarrow> (case receive crc regs cfg raw s p of (events, c) \<Rightarrow> (events, p\<lparr>pl_conns := (pl_conns p)(n := c)\<rparr>))))"

definition plant_run :: "(octets \<Rightarrow> int) \<Rightarrow> (databus \<Rightarrow> string \<Rightarrow> int) \<Rightarrow> kconfig \<Rightarrow> plant_event list \<Rightarrow> plant \<Rightarrow> plant" where
  "plant_run crc regs cfg es p = fold (\<lambda>e p. snd (plant_step crc regs cfg e p)) es p"

section \<open>A restart\<close>

definition quiet :: "plant_event \<Rightarrow> bool" where
  "quiet e \<longleftrightarrow> (case e of Reboot_done \<Rightarrow> False | Connect _ \<Rightarrow> False | _ \<Rightarrow> True)"

lemma quiet_step:
  assumes "quiet e" and "\<not> pl_active p"
  shows "\<not> pl_active (snd (plant_step crc regs cfg e p))"
    and "pl_conns p n = None \<Longrightarrow> pl_conns (snd (plant_step crc regs cfg e p)) n = None"
    and "e = Receive n raw \<Longrightarrow> pl_conns (snd (plant_step crc regs cfg e p)) n = None"
  using assms
  by (auto simp: plant_step_def quiet_def reboot_def receive_def split: plant_event.splits option.splits prod.splits sum.splits)

lemma quiet_run:
  assumes "list_all quiet es" and "\<not> pl_active p" and "pl_conns p n = None \<or> (\<exists>raw. Receive n raw \<in> set es)"
  shows "pl_conns (plant_run crc regs cfg es p) n = None"
  using assms
proof (induction es arbitrary: p)
  case (Cons e es)
  then have "quiet e" "\<not> pl_active p" by simp_all
  note q = quiet_step [OF this, where crc = crc and regs = regs and cfg = cfg]
  have "pl_conns (snd (plant_step crc regs cfg e p)) n = None \<or> (\<exists>raw. Receive n raw \<in> set es)"
    using Cons.prems(3) q(2,3) by auto
  from Cons.IH [OF _ q(1) this] Cons.prems(1) show ?case by (simp add: plant_run_def)
qed (simp add: plant_run_def)

lemma restart_request: "respond_to ''!RR'' b = (fst (set_value ''reboot_signal'' (PInt 1) b), Inr None)"
proof -
  have "strip ''!RR'' = ''!RR''" "split_once ''!RR'' = (''!RR'', None)" "upper ''!RR'' = ''!RR''" by code_simp+
  then have "respond_to ''!RR'' b = run_RR None b" unfolding respond_to_def Let_def by (simp add: commands_def)
  then show ?thesis by (simp add: run_RR_def reboot_signal_def andthen_def)
qed

text \<open>C34. A restart requested at the console ends the connections of the meter: once the observer of the signal has run, every
  connection that receives something is closed, as long as no timer runs out and nobody connects.\<close>

theorem restart_closes_connections:
  assumes "bus_observers (pl_bus p) ''reboot_signal'' \<noteq> []" and "bus_spawned (pl_bus p) = []"
    and "list_all quiet es" and "Receive n raw \<in> set es"
  shows "pl_conns (plant_run crc regs cfg (Console ''!RR'' # Notified # es) p) n = None"
proof -
  have "\<not> pl_active (plant_run crc regs cfg [Console ''!RR'', Notified] p)"
    using assms(1,2) by (simp add: plant_run_def plant_step_def restart_request notify_observers_def reboot_def)
  from quiet_run [OF assms(3) this] assms(4) show ?thesis by (fastforce simp: plant_run_def)
qed

definition plant_up :: plant where
  "plant_up = \<lparr>pl_bus = meter, pl_active = True, pl_timers = 0, pl_conns = (\<lambda>n. if n \<in> {1, 2} then Some kparser_init else None)\<rparr>"

definition plant_config :: kconfig where
  "plant_config = \<lparr>kc_address = 63, kc_registers = []\<rparr>"

theorem restart_closes_connections_witness:
  "pl_conns (plant_run (\<lambda>_. 0) (\<lambda>_ _. 0) plant_config [Console ''!RR'', Notified, Receive 1 [0x80]] plant_up) 1 = None"
proof -
  have "bus_observers (pl_bus plant_up) ''reboot_signal'' \<noteq> []" "bus_spawned (pl_bus plant_up) = []"
    by (simp_all add: plant_up_def meter_def)
  from restart_closes_connections [OF this, of "[Receive 1 [0x80]]" 1 "[0x80]"] show ?thesis by (simp add: quiet_def)
qed

text \<open>Whoever connects meanwhile ends the restart: the other connections stay open.\<close>

lemma connecting_ends_restart:
  "pl_conns (plant_run (\<lambda>_. 0) (\<lambda>_ _. 0) plant_config [Console ''!RR'', Notified, Connect 3, Receive 1 [0x80]] plant_up) 1 \<noteq> None"
proof -
  have "serve (\<lambda>_. 0) (\<lambda>_. 0) plant_config (add_bytes [0x80] kparser_init) = (fst (get_request (\<lambda>_. 0) (add_bytes [0x80] kparser_init)), [ConnectionLost], Inr ())"
    by (subst serve.simps, code_simp)
  then show ?thesis
    by (simp add: plant_run_def plant_step_def restart_request notify_observers_def reboot_def receive_def plant_up_def meter_def)
qed

text \<open>The timer of a first restart ends a second one.\<close>

lemma timers_overlap:
  "pl_active (plant_run crc regs cfg [Console ''!RR'', Notified, Console ''!RR'', Notified, Reboot_done] plant_up)"
  by (simp add: plant_run_def plant_step_def restart_request notify_observers_def reboot_def set_reboot_done_def plant_up_def meter_def)

end
