(* ===== verification/Ftp.thy ===== *)
theory Ftp
  imports PyCase PyInt "HOL-Library.Word"
begin

text \<open>
  Conpot's FTP server: \<open>conpot/protocols/ftp/ftp_handler.py\<close>, \<open>ftp_base_handler.py\<close>, \<open>ftp_utils.py\<close> and the accounts of \<open>ftp_server.py\<close>.
  The virtual file system, which is built on PyFilesystem, is a record of operations on a state of any type. A round of
  the handler starts three greenlets and waits for all of them: one for the command socket, one that carries out a command
  and one for the data socket. What the peer and the network do in a round is its environment. A command that waits
  for an event which nothing will set blocks, and the round never ends. Texts have the characters below 256; how what a peer sends is
  decoded is an argument, like the library that makes a slug of a file name.
\<close>

section \<open>Exceptions\<close>

text \<open>\<open>FSError\<close> and its subclasses.\<close>

abbreviation FilesystemError :: py_exn where
  "FilesystemError \<equiv> RuntimeError ''fs.FilesystemError''"

abbreviation FSOperationNotPermitted :: py_exn where
  "FSOperationNotPermitted \<equiv> RuntimeError ''fs.FSOperationNotPermitted''"

abbreviation PermissionDenied :: py_exn where
  "PermissionDenied \<equiv> RuntimeError ''fs.PermissionDenied''"

abbreviation IllegalBackReference :: py_exn where
  "IllegalBackReference \<equiv> RuntimeError ''fs.IllegalBackReference''"

abbreviation AssertionFailed :: py_exn where
  "AssertionFailed \<equiv> RuntimeError ''AssertionError''"

definition is_fs :: "py_exn \<Rightarrow> bool" where
  "is_fs e = (case e of RuntimeError n \<Rightarrow> prefix ''fs.'' n | _ \<Rightarrow> False)"

definition is_os :: "py_exn \<Rightarrow> bool" where
  "is_os e = (case e of OSError _ \<Rightarrow> True | _ \<Rightarrow> False)"

section \<open>Configuration\<close>

type_synonym octets = "8 word list"

datatype write_mode = Overwrite | Append | Seek nat

record 'v vfs_ops =
  vf_root :: string
  vf_norm :: "string \<Rightarrow> string result"
  vf_isfile :: "string \<Rightarrow> 'v \<Rightarrow> bool result"
  vf_isdir :: "string \<Rightarrow> 'v \<Rightarrow> bool result"
  vf_check :: "string \<Rightarrow> int option \<Rightarrow> string \<Rightarrow> 'v \<Rightarrow> 'v \<times> unit result"
  vf_mtime :: "string \<Rightarrow> 'v \<Rightarrow> 'v \<times> string result"
  vf_size :: "string \<Rightarrow> 'v \<Rightarrow> int result"
  vf_listdir :: "string \<Rightarrow> 'v \<Rightarrow> 'v \<times> string list result"
  vf_format :: "string \<Rightarrow> string list \<Rightarrow> 'v \<Rightarrow> 'v \<times> string result"
  vf_makedir :: "string \<Rightarrow> 'v \<Rightarrow> 'v \<times> unit result"
  vf_removedir :: "string \<Rightarrow> 'v \<Rightarrow> 'v \<times> unit result"
  vf_remove :: "string \<Rightarrow> 'v \<Rightarrow> 'v \<times> unit result"
  vf_move :: "string \<Rightarrow> string \<Rightarrow> 'v \<Rightarrow> 'v \<times> unit result"
  vf_movedir :: "string \<Rightarrow> string \<Rightarrow> 'v \<Rightarrow> 'v \<times> unit result"
  vf_chmod :: "string \<Rightarrow> int \<Rightarrow> 'v \<Rightarrow> 'v \<times> unit result"
  vf_chown :: "string \<Rightarrow> int option \<Rightarrow> int \<Rightarrow> 'v \<Rightarrow> 'v \<times> unit result"
  vf_settimes :: "string \<Rightarrow> 'v \<Rightarrow> 'v \<times> unit result"
  vf_read :: "string \<Rightarrow> 'v \<Rightarrow> octets result"
  vf_write :: "write_mode \<Rightarrow> string \<Rightarrow> octets \<Rightarrow> 'v \<Rightarrow> 'v \<times> unit result"
  vf_data :: "string \<Rightarrow> octets \<Rightarrow> 'v \<Rightarrow> 'v \<times> unit result"

text \<open>The table of commands: needs a login, works on a path, takes an argument (True), takes none (False) or may take one, help.\<close>

type_synonym command_info = "bool \<times> bool \<times> bool option \<times> string"

definition ftp_commands :: "(string \<times> command_info) list" where
  "ftp_commands =
     [(''ABOR'', True, False, Some False, ''Syntax: ABOR (abort transfer).''),
      (''ALLO'', True, False, Some True, ''Syntax: ALLO <SP> bytes (noop; allocate storage).''),
      (''APPE'', True, True, Some True, ''Syntax: APPE <SP> file-name (append data to file).''),
      (''CDUP'', True, True, Some False, ''Syntax: CDUP (go to parent directory).''),
      (''CWD'', True, True, None, ''Syntax: CWD [<SP> dir-name] (change working directory).''),
      (''DELE'', True, True, Some True, ''Syntax: DELE <SP> file-name (delete file).''),
      (''HELP'', False, False, None, ''Syntax: HELP [<SP> cmd] (show help).''),
      (''LIST'', True, True, None, ''Syntax: LIST [<SP> path] (list files).''),
      (''MDTM'', True, True, Some True, ''Syntax: MDTM [<SP> path] (file last modification time).''),
      (''MODE'', True, False, Some True, ''Syntax: MODE <SP> mode (noop; set data transfer mode).''),
      (''MKD'', True, True, Some True, ''Syntax: MKD <SP> path (create directory).''),
      (''NLST'', True, True, None, ''Syntax: NLST [<SP> path] (list path in a compact form).''),
      (''NOOP'', False, False, Some False, ''Syntax: NOOP (just do nothing).''),
      (''PASS'', False, False, None, ''Syntax: PASS [<SP> password] (set user password).''),
      (''PASV'', True, False, Some False, ''Syntax: PASV (open passive data connection).''),
      (''PORT'', True, False, Some True, ''Syntax: PORT <sp> h,h,h,h,p,p (open active data connection).''),
      (''PWD'', True, False, Some False, ''Syntax: PWD (get current working directory).''),
      (''QUIT'', False, False, Some False, ''Syntax: QUIT (quit current session).''),
      (''REIN'', True, False, Some False, ''Syntax: REIN (flush account).''),
      (''RETR'', True, True, Some True, ''Syntax: RETR <SP> file-name (retrieve a file).''),
      (''RMD'', True, True, Some True, ''Syntax: RMD <SP> dir-name (remove directory).''),
      (''RNFR'', True, True, Some True, ''Syntax: RNFR <SP> file-name (rename (source name)).''),
      (''REST'', True, False, Some True, ''Syntax: REST <SP> offset (set file offset).''),
      (''RNTO'', True, True, Some True, ''Syntax: RNTO <SP> file-name (rename (destination name)).''),
      (''SITE'', False, False, Some True, ''Syntax: SITE <SP> site-command (execute SITE command).''),
      (''SITE HELP'', False, False, None, ''Syntax: SITE HELP [<SP> cmd] (show SITE command help).''),
      (''SITE CHMOD'', True, True, Some True, ''Syntax: SITE CHMOD <SP> mode path (change file mode).''),
      (''SIZE'', True, True, Some True, ''Syntax: SIZE <SP> file-name (get file size).''),
      (''STAT'', False, True, None, ''Syntax: STAT [<SP> path name] (server stats [list files]).''),
      (''STOR'', True, True, Some True, ''Syntax: STOR <SP> file-name (store a file).''),
      (''STOU'', True, True, None, ''Syntax: STOU [<SP> name] (store a file with a unique name).''),
      (''STRU'', True, False, Some True, ''Syntax: STRU <SP> type (noop; set file structure).''),
      (''SYST'', False, False, Some False, ''Syntax: SYST (get operating system type).''),
      (''TYPE'', True, False, Some True, ''Syntax: TYPE <SP> [A | I] (set transfer type).''),
      (''USER'', False, False, Some True, ''Syntax: USER <SP> user-name (set username).''),
      (''XCUP'', True, True, Some False, ''Syntax: XCUP (obsolete; go to parent directory).''),
      (''XCWD'', True, True, None, ''Syntax: XCWD [<SP> dir-name] (obsolete; change directory).''),
      (''XMKD'', True, True, Some True, ''Syntax: XMKD <SP> dir-name (obsolete; create directory).''),
      (''XPWD'', True, False, Some False, ''Syntax: XPWD (obsolete; get current dir).''),
      (''XRMD'', True, True, Some True, ''Syntax: XRMD <SP> dir-name (obsolete; remove directory).'')]"

definition all_commands :: "string list" where
  "all_commands = [''USER'', ''PASS'', ''HELP'', ''NOOP'', ''QUIT'', ''SITE HELP'', ''SITE'', ''SYST'', ''TYPE'', ''PASV'', ''PORT'', ''ALLO'', ''MODE'',
     ''SIZE'', ''PWD'', ''MKD'', ''RMD'', ''CWD'', ''CDUP'', ''MDTM'', ''DELE'', ''SITE CHMOD'', ''RNFR'', ''RNTO'', ''STAT'', ''LIST'', ''NLST'', ''RETR'',
     ''REIN'', ''ABOR'', ''STOR'', ''APPE'', ''REST'', ''STRU'', ''STOU'']"

record account =
  ac_uid :: int
  ac_uname :: string
  ac_password :: string

record ftp_group =
  gr_gid :: int
  gr_name :: string
  gr_users :: "int list"

record 'v ftp_config =
  c_enabled :: "string list"
  c_banner :: string
  c_motd :: "string option"
  c_max :: int
  c_user_db :: "account list"
  c_grp_db :: "ftp_group list"
  c_anon :: "int option"
  c_file_perms :: int
  c_dir_perms :: int
  c_stou_prefix :: "string list"
  c_stou_suffix :: "string list"
  c_address :: string
  c_vfs :: "'v vfs_ops"
  c_slugify :: "string \<Rightarrow> string"
  c_client :: "string \<times> int"
  c_decode :: "octets \<Rightarrow> string result"

definition COMMANDS :: "('v, 'x) ftp_config_scheme \<Rightarrow> (string \<times> command_info) list" where
  "COMMANDS cfg = filter (\<lambda>(k, _). k \<in> set (c_enabled cfg)) ftp_commands"

definition user_pass :: "('v, 'x) ftp_config_scheme \<Rightarrow> (string \<times> string) set" where
  "user_pass cfg = set (map (\<lambda>u. (ac_uname u, ac_password u)) (c_user_db cfg))"

text \<open>An account answers to its name and to its password.\<close>

definition get_uid :: "('v, 'x) ftp_config_scheme \<Rightarrow> string \<Rightarrow> int result" where
  "get_uid cfg user_name =
     (case filter (\<lambda>u. user_name = ac_uname u \<or> user_name = ac_password u) (c_user_db cfg) of
        [u] \<Rightarrow> Inr (ac_uid u)
      | _ \<Rightarrow> Inl ValueError)"

definition get_gid :: "('v, 'x) ftp_config_scheme \<Rightarrow> int option \<Rightarrow> int result" where
  "get_gid cfg uid =
     (case filter (\<lambda>g. case uid of None \<Rightarrow> False | Some u \<Rightarrow> u \<in> set (gr_users g)) (c_grp_db cfg) of
        [g] \<Rightarrow> Inr (gr_gid g)
      | _ \<Rightarrow> Inl ValueError)"

section \<open>State\<close>

datatype out_item = Raw string | File string

datatype ftp_event = New_connection | Connection_lost | Connection_terminated | Connection_timeout

text \<open>What a round meets: what the command socket does (a send that fails may do so because it would block), whether the last activity is recent, how long the connection lasts, the
  name of a temporary file, the date and time, the listening address and the peer that connects to it, whether a connection to a peer succeeds, the
  pieces the data socket yields with whether an error ends them, and whether a send succeeds.\<close>

datatype cmd_input = Segment octets | Writable | Send_fails bool | Nothing | Closed

record round_env =
  en_cmd :: cmd_input
  en_active :: bool
  en_elapsed :: string
  en_temp :: string
  en_now :: string
  en_listen :: "string \<times> int"
  en_accept :: "(string \<times> int) option"
  en_connect :: bool
  en_pieces :: "octets list"
  en_broken :: bool
  en_send :: bool

record 'v ftp =
  f_vfs :: 'v
  f_username :: "string option"
  f_uid :: "int option"
  f_authenticated :: bool
  f_attempts :: int
  f_cwd :: string
  f_disconnect :: bool
  f_restart :: int
  f_ascii :: bool
  f_mode :: "string option"
  f_channel :: bool
  f_send_set :: bool
  f_recv_set :: bool
  f_peer :: "(string \<times> int) option"
  f_sock :: "bool option"
  f_listener :: bool
  f_rnfr :: "string option"
  f_out :: "out_item list"
  f_in :: "octets list"
  f_input :: "octets list"
  f_replies :: "string list"
  f_sent :: "string list"
  f_transferred :: "out_item list"
  f_data_sent :: int
  f_data_received :: int
  f_cmd_sent :: int
  f_cmd_received :: int
  f_events :: "ftp_event list"
  f_env :: round_env
  f_turned :: bool
  f_hung :: bool

datatype 'a out = Ok 'a | Exc py_exn | Blocked

type_synonym ('v, 'a) act = "'v ftp \<Rightarrow> 'v ftp \<times> 'a out"

definition ret :: "'a \<Rightarrow> ('v, 'a) act" where
  "ret x s = (s, Ok x)"

definition raise :: "py_exn \<Rightarrow> ('v, 'a) act" where
  "raise e s = (s, Exc e)"

definition bind :: "('v, 'a) act \<Rightarrow> ('a \<Rightarrow> ('v, 'b) act) \<Rightarrow> ('v, 'b) act" where
  "bind m f s = (case m s of (t, Ok x) \<Rightarrow> f x t | (t, Exc e) \<Rightarrow> (t, Exc e) | (t, Blocked) \<Rightarrow> (t, Blocked))"

abbreviation seqa :: "('v, unit) act \<Rightarrow> ('v, 'b) act \<Rightarrow> ('v, 'b) act" where
  "seqa m n \<equiv> bind m (\<lambda>_. n)"

definition get :: "('v ftp \<Rightarrow> 'a) \<Rightarrow> ('v, 'a) act" where
  "get g s = (s, Ok (g s))"

definition modify :: "('v ftp \<Rightarrow> 'v ftp) \<Rightarrow> ('v, unit) act" where
  "modify g s = (g s, Ok ())"

definition of_result :: "'a result \<Rightarrow> ('v, 'a) act" where
  "of_result r s = (s, case r of Inl e \<Rightarrow> Exc e | Inr x \<Rightarrow> Ok x)"

text \<open>The handlers of a \<open>try\<close>: a function that is None for an exception it does not name.\<close>

definition catch :: "('v, 'a) act \<Rightarrow> (py_exn \<Rightarrow> ('v, 'a) act option) \<Rightarrow> ('v, 'a) act" where
  "catch m h s = (case m s of (t, Exc e) \<Rightarrow> (case h e of Some k \<Rightarrow> k t | None \<Rightarrow> (t, Exc e)) | r \<Rightarrow> r)"

text \<open>An operation of the file system that changes it, and one that only looks.\<close>

definition vfs_do :: "('v \<Rightarrow> 'v \<times> 'a result) \<Rightarrow> ('v, 'a) act" where
  "vfs_do f s = (case f (f_vfs s) of (v, Inl e) \<Rightarrow> (s\<lparr>f_vfs := v\<rparr>, Exc e) | (v, Inr x) \<Rightarrow> (s\<lparr>f_vfs := v\<rparr>, Ok x))"

definition vfs_ask :: "('v \<Rightarrow> 'a result) \<Rightarrow> ('v, 'a) act" where
  "vfs_ask f s = of_result (f (f_vfs s)) s"

definition terminated :: "string \<Rightarrow> string" where
  "terminated r = (if suffix crlf r then r else r @ crlf)"

definition reply :: "string \<Rightarrow> ('v, unit) act" where
  "reply r = modify (\<lambda>s. s\<lparr>f_replies := f_replies s @ [terminated r]\<rparr>)"

definition event :: "ftp_event \<Rightarrow> ('v, unit) act" where
  "event e = modify (\<lambda>s. s\<lparr>f_events := f_events s @ [e]\<rparr>)"

section \<open>The data channel\<close>

text \<open>\<open>stop_data_channel\<close> once it need not wait.\<close>

definition stop_now :: "bool \<Rightarrow> 'v ftp \<Rightarrow> 'v ftp" where
  "stop_now purge s =
     (let t = s\<lparr>f_channel := False, f_sock := map_option (\<lambda>_. False) (f_sock s), f_recv_set := True, f_send_set := True\<rparr>
      in if purge then t\<lparr>f_peer := None, f_in := [], f_out := []\<rparr> else t)"

definition answered :: "string \<Rightarrow> 'v ftp \<Rightarrow> 'v ftp" where
  "answered r s = s\<lparr>f_replies := f_replies s @ [terminated r]\<rparr>"

text \<open>An error of the socket, one of the file system, and any other, which ends the greenlet.\<close>

definition data_error :: "py_exn \<Rightarrow> 'v ftp \<Rightarrow> 'v ftp" where
  "data_error e s =
     (if is_os e then stop_now True s else if is_fs e then stop_now False (answered ''550 Transfer failed.'' s) else s)"

text \<open>The greenlet of the data socket. The number added for text is the length of a dictionary of two entries.\<close>

definition send_turn :: "('v, 'x) ftp_config_scheme \<Rightarrow> 'v ftp \<Rightarrow> 'v ftp" where
  "send_turn cfg s =
     (case f_out s of
        [] \<Rightarrow> s
      | item # items \<Rightarrow>
          (let t = s\<lparr>f_out := items\<rparr>;
               sendable = (f_sock s = Some True \<and> en_send (f_env s));
               done = (\<lambda>t. if items = [] then answered ''226 Transfer complete.'' (t\<lparr>f_send_set := True\<rparr>) else t)
           in case item of
                Raw data \<Rightarrow>
                  if sendable then done (t\<lparr>f_transferred := f_transferred s @ [item], f_data_sent := f_data_sent s + 2\<rparr>)
                  else stop_now True t
              | File name \<Rightarrow>
                  (case vf_isfile (c_vfs cfg) name (f_vfs s) of
                     Inl e \<Rightarrow> data_error e t
                   | Inr False \<Rightarrow> done t
                   | Inr True \<Rightarrow>
                       (case vf_read (c_vfs cfg) name (f_vfs s) of
                          Inl e \<Rightarrow> data_error e t
                        | Inr _ \<Rightarrow>
                            if \<not> sendable then stop_now True t
                            else case vf_size (c_vfs cfg) name (f_vfs s) of
                              Inl e \<Rightarrow> data_error e (t\<lparr>f_transferred := f_transferred s @ [item]\<rparr>)
                            | Inr n \<Rightarrow> done (t\<lparr>f_transferred := f_transferred s @ [item], f_data_sent := f_data_sent s + n\<rparr>)))))"

definition recv_turn :: "'v ftp \<Rightarrow> 'v ftp" where
  "recv_turn s =
     (let t = answered ''125 Transfer starting.'' s;
          pieces = takeWhile (\<lambda>p. p \<noteq> []) (en_pieces (f_env s));
          u = t\<lparr>f_in := f_in t @ pieces @ (if pieces = [] then [] else [[]]),
                f_data_received := f_data_received t + int (length (concat pieces))\<rparr>
      in if f_sock s \<noteq> Some True then stop_now True t
         else if en_broken (f_env s) then stop_now True u
         else answered ''226 Transfer complete.'' (u\<lparr>f_recv_set := True\<rparr>))"

definition data_turn :: "('v, 'x) ftp_config_scheme \<Rightarrow> 'v ftp \<Rightarrow> 'v ftp" where
  "data_turn cfg s =
     (let t = s\<lparr>f_turned := True\<rparr> in
      if \<not> f_channel s then t
      else if \<not> f_send_set s then send_turn cfg t
      else if \<not> f_recv_set s then recv_turn t
      else stop_now False t)"

text \<open>A wait for events: the greenlet of the data socket runs meanwhile, once in a round.\<close>

definition wait_for :: "('v, 'x) ftp_config_scheme \<Rightarrow> ('v ftp \<Rightarrow> bool) \<Rightarrow> ('v, unit) act" where
  "wait_for cfg c s =
     (if c s then (s, Ok ())
      else if f_turned s then (s, Blocked)
      else let t = data_turn cfg s in (t, if c t then Ok () else Blocked))"

definition both_set :: "'v ftp \<Rightarrow> bool" where
  "both_set s \<longleftrightarrow> f_send_set s \<and> f_recv_set s"

text \<open>\<open>send_recv="send"\<close> is True.\<close>

definition start_data_channel :: "('v, 'x) ftp_config_scheme \<Rightarrow> bool \<Rightarrow> ('v, unit) act" where
  "start_data_channel cfg send =
     bind (get (\<lambda>s. (case f_peer s of Some (_, port) \<Rightarrow> port \<noteq> 0 | None \<Rightarrow> False) \<and> f_sock s \<noteq> None)) (\<lambda>ready.
     if \<not> ready then reply ''425 Use PORT or PASV first.''
     else
       bind (get f_channel) (\<lambda>busy.
       seqa (if busy then wait_for cfg both_set else ret ())
         (modify (\<lambda>s. s\<lparr>f_send_set := \<not> send, f_recv_set := send, f_channel := True\<rparr>))))"

definition stop_data_channel :: "('v, 'x) ftp_config_scheme \<Rightarrow> bool \<Rightarrow> bool \<Rightarrow> ('v, unit) act" where
  "stop_data_channel cfg abort purge =
     bind (get (\<lambda>s. f_out s \<noteq> [] \<or> f_input s \<noteq> [])) (\<lambda>pending.
     seqa (if pending \<and> \<not> abort then wait_for cfg both_set else ret ()) (modify (stop_now purge)))"

definition push_data :: "string \<Rightarrow> ('v, unit) act" where
  "push_data data = modify (\<lambda>s. s\<lparr>f_out := f_out s @ [Raw data]\<rparr>)"

definition send_file :: "('v, 'x) ftp_config_scheme \<Rightarrow> string \<Rightarrow> ('v, unit) act" where
  "send_file cfg name =
     bind (get f_channel) (\<lambda>open.
     seqa (reply (if open then ''125 Data connection already open. Transfer starting.'' else ''150 File status okay. About to open data connection.''))
     (seqa (modify (\<lambda>s. s\<lparr>f_out := f_out s @ [File name]\<rparr>)) (start_data_channel cfg True)))"

definition sanitize_file_name :: "('v, 'x) ftp_config_scheme \<Rightarrow> string \<Rightarrow> string \<Rightarrow> string" where
  "sanitize_file_name cfg now name =
     (case c_client cfg of (host, port) \<Rightarrow> ''('' @ host @ '', '' @ show_int port @ '')-'' @ now @ ''-'' @ c_slugify cfg name)"

text \<open>What follows an upload unless one of the exceptions named has come.\<close>

definition finish_upload :: "('v, 'x) ftp_config_scheme \<Rightarrow> string \<Rightarrow> string \<Rightarrow> ('v, unit) act" where
  "finish_upload cfg name cmd =
     (let v = c_vfs cfg in
      seqa (vfs_do (vf_chmod v name (c_file_perms cfg)))
      (seqa (if cmd = ''STOR'' then
               bind (get f_uid) (\<lambda>uid. bind (of_result (get_gid cfg uid)) (\<lambda>gid. vfs_do (vf_chown v name uid gid)))
             else ret ())
      (seqa (vfs_do (vf_settimes v name)) (reply ''226 Transfer complete.''))))"

text \<open>Every piece waiting is taken; the file and its copy are written. A file is opened before the first piece is written, and a
  resumed one is read first. The \<open>finally\<close> part is run for an exception that is not named, too.\<close>

definition recv_file :: "('v, 'x) ftp_config_scheme \<Rightarrow> string \<Rightarrow> int \<Rightarrow> string \<Rightarrow> ('v, unit) act" where
  "recv_file cfg name pos cmd =
     (let v = c_vfs cfg in
      seqa (start_data_channel cfg False)
      (bind (get (\<lambda>s. sanitize_file_name cfg (en_now (f_env s)) name)) (\<lambda>copy.
      (seqa (wait_for cfg f_recv_set)
      (bind (get f_in) (\<lambda>pieces.
       if pieces = [] then (\<lambda>s. (s, Blocked))
       else
         seqa (modify (\<lambda>s. s\<lparr>f_in := []\<rparr>))
         (bind (catch
           (seqa (vfs_do (vf_data v copy []))
            (seqa (if pos = 0 \<and> cmd = ''STOR'' then
                     seqa (vfs_do (vf_write v Overwrite name (concat pieces))) (vfs_do (vf_data v copy (concat pieces)))
                   else if pos = 0 then raise AssertionFailed
                   else bind (vfs_ask (vf_read v name)) (\<lambda>old.
                     seqa (vfs_do (vf_write v (if cmd = ''APPE'' then Append else Seek (nat pos)) name (concat pieces)))
                          (vfs_do (vf_data v copy (take (nat pos) old @ concat pieces)))))
             (ret True)))
           (\<lambda>e. if e = AssertionFailed \<or> is_os e \<or> is_fs e
                then Some (seqa (stop_data_channel cfg True False) (seqa (reply (''554 '' @ cmd @ '' command failed.'')) (ret False)))
                else Some (seqa (finish_upload cfg name cmd) (raise e)))) (\<lambda>ok.
          if ok then finish_upload cfg name cmd else ret ()))))))))"

section \<open>Paths\<close>

definition join2 :: "string \<Rightarrow> string \<Rightarrow> string" where
  "join2 a b = (if prefix ''/'' b then b else if a = [] \<or> suffix ''/'' a then a @ b else a @ ''/'' @ b)"

definition split_path :: "string \<Rightarrow> string \<times> string" where
  "split_path p =
     (let tail = rev (takeWhile (\<lambda>c. c \<noteq> CHR ''/'') (rev p)); head = take (length p - length tail) p
      in (if set head \<subseteq> {CHR ''/''} then head else rstrip_char (CHR ''/'') head, tail))"

definition ftp_path :: "('v, 'x) ftp_config_scheme \<Rightarrow> string \<Rightarrow> ('v, string) act" where
  "ftp_path cfg path =
     bind (get f_cwd) (\<lambda>wd. bind (of_result (vf_norm (c_vfs cfg) (join2 wd path))) (\<lambda>p.
     ret (replace_all (vf_root (c_vfs cfg)) ''/'' p)))"

text \<open>\<open>with self.config.vfs.check_access(...)\<close>; what follows the body only writes to the log.\<close>

definition with_access :: "('v, 'x) ftp_config_scheme \<Rightarrow> string \<Rightarrow> string \<Rightarrow> ('v, 'a) act \<Rightarrow> ('v, 'a) act" where
  "with_access cfg path perms body = bind (get f_uid) (\<lambda>uid. seqa (vfs_do (vf_check (c_vfs cfg) path uid perms)) body)"

definition with_refusals :: "(py_exn \<Rightarrow> bool) \<Rightarrow> string \<Rightarrow> ('v, unit) act \<Rightarrow> ('v, unit) act" where
  "with_refusals also failure m =
     catch m (\<lambda>e. if e = FSOperationNotPermitted then Some (reply ''500 Operation not permitted.'')
                  else if also e then Some (reply failure) else None)"

section \<open>Commands without a path\<close>

definition authentication_ok :: "('v, 'x) ftp_config_scheme \<Rightarrow> string \<Rightarrow> ('v, bool) act" where
  "authentication_ok cfg password =
     bind (get f_username) (\<lambda>name.
     case c_anon cfg of
       Some anon \<Rightarrow> if name = Some ''anonymous'' then
           seqa (modify (\<lambda>s. s\<lparr>f_authenticated := True, f_uid := Some anon\<rparr>))
             (case find (\<lambda>u. ac_uid u = anon) (c_user_db cfg) of
                None \<Rightarrow> ret False
              | Some u \<Rightarrow> seqa (modify (\<lambda>s. s\<lparr>f_username := Some (ac_uname u)\<rparr>)) (ret True))
         else (case name of
             None \<Rightarrow> ret False
           | Some n \<Rightarrow> if (n, password) \<notin> user_pass cfg then ret False
               else seqa (modify (\<lambda>s. s\<lparr>f_authenticated := True\<rparr>))
                 (case get_uid cfg n of Inl _ \<Rightarrow> ret False | Inr uid \<Rightarrow> seqa (modify (\<lambda>s. s\<lparr>f_uid := Some uid\<rparr>)) (ret True)))
     | None \<Rightarrow> (case name of
             None \<Rightarrow> ret False
           | Some n \<Rightarrow> if (n, password) \<notin> user_pass cfg then ret False
               else seqa (modify (\<lambda>s. s\<lparr>f_authenticated := True\<rparr>))
                 (case get_uid cfg n of Inl _ \<Rightarrow> ret False | Inr uid \<Rightarrow> seqa (modify (\<lambda>s. s\<lparr>f_uid := Some uid\<rparr>)) (ret True))))"

definition do_USER :: "string \<Rightarrow> ('v, unit) act" where
  "do_USER arg =
     bind (get f_authenticated) (\<lambda>auth.
     if auth then reply ''530 Cannot switch to another user.''
     else seqa (modify (\<lambda>s. s\<lparr>f_username := Some arg\<rparr>)) (reply ''331 Now specify the Password.''))"

text \<open>The refusals do not return.\<close>

definition do_PASS :: "('v, 'x) ftp_config_scheme \<Rightarrow> string \<Rightarrow> ('v, unit) act" where
  "do_PASS cfg arg =
     bind (get f_authenticated) (\<lambda>auth.
     seqa (if auth then reply ''503 User already authenticated.'' else ret ())
     (bind (get f_username) (\<lambda>name.
     seqa (if name = None \<or> name = Some [] then reply ''503 Login with USER first.'' else ret ())
     (bind (authentication_ok cfg arg) (\<lambda>ok.
     if ok then (case c_motd cfg of
         None \<Rightarrow> reply ''230 Log in Successful.''
       | Some motd \<Rightarrow> if motd = [] then reply ''230 Log in Successful.''
           else seqa (reply (''220-'' @ motd @ crlf)) (reply ''220 ''))
     else seqa (modify (\<lambda>s. s\<lparr>f_attempts := f_attempts s + 1\<rparr>)) (reply ''530 Authentication Failed.''))))))"

fun chunks8 :: "string list \<Rightarrow> string list list" where
  "chunks8 [] = []"
| "chunks8 (k # ks) = take 8 (k # ks) # chunks8 (drop 7 ks)"

definition ljust :: "nat \<Rightarrow> string \<Rightarrow> string" where
  "ljust n s = s @ replicate (n - length s) (CHR '' '')"

definition formatted_help :: "('v, 'x) ftp_config_scheme \<Rightarrow> string" where
  "formatted_help cfg =
     concat (map (\<lambda>ks. concat (map (\<lambda>k. '' '' @ ljust 6 (ascii_repr k)) ks) @ crlf)
       (chunks8 (sort_texts (filter (\<lambda>k. \<not> prefix ''SITE '' k) (map fst (COMMANDS cfg))))))"

definition do_HELP :: "('v, 'x) ftp_config_scheme \<Rightarrow> string \<Rightarrow> ('v, unit) act" where
  "do_HELP cfg arg =
     (if arg \<noteq> [] then
        (case map_of (COMMANDS cfg) (upper arg) of
           Some (_, _, _, help) \<Rightarrow> reply (''214 '' @ ascii_repr help)
         | None \<Rightarrow> reply ''501 Unrecognized command.'')
      else reply (''214-The following commands are recognized:'' @ crlf @ formatted_help cfg @ ''214 Help command successful.''))"

definition do_SITE_HELP :: "('v, 'x) ftp_config_scheme \<Rightarrow> string \<Rightarrow> ('v, unit) act" where
  "do_SITE_HELP cfg line =
     (if line \<noteq> [] then
        (case map_of (COMMANDS cfg) (upper line) of
           Some (_, _, _, help) \<Rightarrow> reply (''214 '' @ ascii_repr help)
         | None \<Rightarrow> reply ''501 Unrecognized SITE command.'')
      else reply (''214-The following SITE commands are recognized:'' @ crlf @
        concat (map (\<lambda>k. '' '' @ ascii_repr (drop 5 k) @ crlf) (sort_texts (filter (prefix ''SITE '') (map fst (COMMANDS cfg))))) @
        ''214 Help SITE command successful.''))"

definition do_QUIT :: "('v, unit) act" where
  "do_QUIT = seqa (reply ''221 Bye.'') (seqa (event Connection_terminated) (modify (\<lambda>s. s\<lparr>f_disconnect := True\<rparr>)))"

definition do_MODE :: "string \<Rightarrow> ('v, unit) act" where
  "do_MODE line =
     (if upper line = ''S'' then reply ''200 Transfer mode set to: S''
      else if upper line \<in> {''B'', ''C''} then reply ''504 Unimplemented MODE type.''
      else reply ''501 Unrecognized MODE type.'')"

definition do_STRU :: "string \<Rightarrow> ('v, unit) act" where
  "do_STRU line =
     (if upper line = ''F'' then reply ''200 File transfer structure set to: F.''
      else if upper line \<in> {''P'', ''R''} then reply ''504 Unimplemented STRU type.''
      else reply ''501 Unrecognized STRU type.'')"

definition do_PWD :: "('v, unit) act" where
  "do_PWD = bind (get f_cwd) (\<lambda>wd. reply (''257 \"'' @ wd @ ''\" is the current directory.''))"

definition do_TYPE :: "string \<Rightarrow> ('v, unit) act" where
  "do_TYPE line =
     (let data_type = filter (\<lambda>c. c \<noteq> CHR '' '') (upper line) in
      if data_type \<in> {''A'', ''L7''} then seqa (reply ''200 Type set to: ASCII.'') (modify (\<lambda>s. s\<lparr>f_ascii := True\<rparr>))
      else if data_type \<in> {''I'', ''L8''} then seqa (reply ''200 Type set to: Binary.'') (modify (\<lambda>s. s\<lparr>f_ascii := False\<rparr>))
      else reply (''504 Unsupported type \"'' @ ascii_repr line @ ''\".''))"

definition do_REIN :: "('v, 'x) ftp_config_scheme \<Rightarrow> ('v, unit) act" where
  "do_REIN cfg =
     seqa (stop_data_channel cfg False False)
     (seqa (modify (\<lambda>s. s\<lparr>f_username := None, f_uid := None, f_authenticated := False\<rparr>)) (reply ''230 Ready for new user.''))"

definition status_lines :: "('v, 'x) ftp_config_scheme \<Rightarrow> 'v ftp \<Rightarrow> string list" where
  "status_lines cfg s =
     [''Connected to: '' @ c_address cfg,
      if f_authenticated s then ''Logged in as: '' @ (case f_username s of None \<Rightarrow> ''None'' | Some n \<Rightarrow> n)
      else if f_username s = None \<or> f_username s = Some [] then ''Waiting for username.'' else ''Waiting for password.'',
      ''TYPE: '' @ (if f_ascii s then ''ASCII'' else ''Binary'') @ ''; STRUcture: File; MODE: Stream''] @
     (if f_sock s \<noteq> None \<and> \<not> f_channel s then [''Passive data channel waiting for connection.'']
      else if f_channel s then
        [''Data connection open:'', ''Total bytes sent: '' @ show_int (f_data_sent s + f_cmd_sent s),
         ''Total bytes received: '' @ show_int (f_cmd_received s + f_data_received s), ''Transfer elapsed time: '' @ en_elapsed (f_env s) @ '' secs'']
      else [''Data connection closed.''])"

definition server_status :: "('v, 'x) ftp_config_scheme \<Rightarrow> ('v, unit) act" where
  "server_status cfg =
     bind (get (status_lines cfg)) (\<lambda>ls.
     seqa (reply (''211-FTP server status:'' @ crlf))
     (seqa (reply (concat (map (\<lambda>l. '' '' @ l @ crlf) ls))) (reply ''211 End of status.'')))"

section \<open>Commands on the file system\<close>

definition do_MDTM :: "('v, 'x) ftp_config_scheme \<Rightarrow> string \<Rightarrow> ('v, unit) act" where
  "do_MDTM cfg path =
     with_refusals (\<lambda>e. e = ValueError \<or> is_fs e) ''550 Can't determine file's last modification time.''
       (bind (ftp_path cfg path) (\<lambda>p.
        bind (vfs_ask (vf_isfile (c_vfs cfg) p)) (\<lambda>file.
        if \<not> file then reply (''550 '' @ p @ '' is not retrievable'')
        else with_access cfg p ''r'' (bind (vfs_do (vf_mtime (c_vfs cfg) p)) (\<lambda>t. reply (''213 '' @ t))))))"

definition do_SIZE :: "('v, 'x) ftp_config_scheme \<Rightarrow> string \<Rightarrow> ('v, unit) act" where
  "do_SIZE cfg path =
     with_refusals (\<lambda>e. is_os e \<or> is_fs e) ''550 None.''
       (bind (ftp_path cfg path) (\<lambda>p.
        bind (get f_ascii) (\<lambda>ascii.
        if ascii then reply ''550 SIZE not allowed in ASCII mode.''
        else bind (vfs_ask (vf_isfile (c_vfs cfg) p)) (\<lambda>file.
          if \<not> file then reply ''550 is not retrievable.''
          else with_access cfg p ''r'' (bind (vfs_ask (vf_size (c_vfs cfg) p)) (\<lambda>n. reply (''213 '' @ show_int n)))))))"

text \<open>The configuration has no method \<open>stat\<close>.\<close>

definition do_STAT :: "('v, 'x) ftp_config_scheme \<Rightarrow> string \<Rightarrow> ('v, unit) act" where
  "do_STAT cfg path =
     (if path = [] then server_status cfg
      else
        with_refusals (\<lambda>e. is_os e \<or> e = AssertionFailed \<or> is_fs e) ''550 STAT command failed.''
          (bind (ftp_path cfg path) (\<lambda>line.
           with_access cfg line ''r''
             (bind (vfs_ask (vf_isdir (c_vfs cfg) path)) (\<lambda>dir.
              if \<not> dir then raise AttributeError
              else bind (vfs_do (vf_listdir (c_vfs cfg) path)) (\<lambda>listing.
                bind (vfs_do (vf_format (c_vfs cfg) path (sort_texts listing))) (\<lambda>text.
                reply (''213-Status of \"'' @ line @ ''\":'' @ crlf @ text @ ''213 End of status.''))))))))"

definition do_MKD :: "('v, 'x) ftp_config_scheme \<Rightarrow> string \<Rightarrow> ('v, unit) act" where
  "do_MKD cfg path =
     with_refusals is_fs ''550 Create directory operation failed.''
       (bind (ftp_path cfg path) (\<lambda>dir.
        bind (get f_cwd) (\<lambda>wd.
        seqa (with_access cfg wd ''w'' (vfs_do (vf_makedir (c_vfs cfg) dir)))
        (seqa (reply (''257 \"'' @ dir @ ''\" directory created.''))
        (seqa (vfs_do (vf_chmod (c_vfs cfg) dir (c_dir_perms cfg)))
        (bind (get f_uid) (\<lambda>uid. bind (of_result (get_gid cfg uid)) (\<lambda>gid.
         seqa (vfs_do (vf_chown (c_vfs cfg) dir uid gid)) (vfs_do (vf_settimes (c_vfs cfg) dir))))))))))"

text \<open>The path is joined without a slash.\<close>

definition do_RMD :: "('v, 'x) ftp_config_scheme \<Rightarrow> string \<Rightarrow> ('v, unit) act" where
  "do_RMD cfg path =
     bind (ftp_path cfg path) (\<lambda>p. bind (get f_cwd) (\<lambda>wd.
     if p = wd \<or> path = ''/'' then reply ''550 Can't remove root directory.''
     else
       with_refusals is_fs ''550 Remove directory operation failed.''
         (bind (ftp_path cfg (wd @ path)) (\<lambda>target.
          bind (ftp_path cfg (join2 path ''../'')) (\<lambda>parent.
          seqa (with_access cfg parent ''w'' (vfs_do (vf_removedir (c_vfs cfg) target))) (reply ''250 Directory removed.''))))))"

definition do_CWD :: "('v, 'x) ftp_config_scheme \<Rightarrow> string \<Rightarrow> ('v, unit) act" where
  "do_CWD cfg path =
     with_refusals is_fs ''550 Failed to change directory.''
       (bind (vfs_ask (vf_isdir (c_vfs cfg) path)) (\<lambda>dir.
        if \<not> dir then raise FSOperationNotPermitted
        else
          seqa (with_access cfg path ''rwx'' (bind (ftp_path cfg path) (\<lambda>p. modify (\<lambda>s. s\<lparr>f_cwd := p\<rparr>))))
            (bind (get f_cwd) (\<lambda>wd. reply (''250 \"'' @ wd @ ''\" is the current directory.'')))))"

definition do_CDUP :: "('v, 'x) ftp_config_scheme \<Rightarrow> ('v, unit) act" where
  "do_CDUP cfg = bind (get f_cwd) (\<lambda>wd. bind (ftp_path cfg wd) (\<lambda>p. do_CWD cfg (p @ ''/'' @ ''../'')))"

definition do_DELE :: "('v, 'x) ftp_config_scheme \<Rightarrow> string \<Rightarrow> ('v, unit) act" where
  "do_DELE cfg path =
     with_refusals is_fs ''550 Failed to delete file.''
       (bind (ftp_path cfg path) (\<lambda>p.
        bind (vfs_ask (vf_isfile (c_vfs cfg) p)) (\<lambda>file.
        if \<not> file then reply ''550 Failed to delete file.''
        else with_access cfg p ''w'' (seqa (vfs_do (vf_remove (c_vfs cfg) p)) (reply ''250 File removed.'')))))"

definition do_RNFR :: "('v, 'x) ftp_config_scheme \<Rightarrow> string \<Rightarrow> ('v, unit) act" where
  "do_RNFR cfg path =
     with_refusals (\<lambda>e. e = AssertionFailed \<or> e = KeyError \<or> is_fs e) ''550 No such file or directory.''
       (bind (ftp_path cfg path) (\<lambda>p.
        bind (vfs_ask (vf_isfile (c_vfs cfg) p)) (\<lambda>file.
        bind (if file then ret True else vfs_ask (vf_isdir (c_vfs cfg) p)) (\<lambda>there.
        if \<not> there then raise AssertionFailed
        else with_access cfg p ''w''
          (if p = ''/'' then reply ''550 Can't rename home directory.''
           else seqa (modify (\<lambda>s. s\<lparr>f_rnfr := Some p\<rparr>)) (reply ''350 Ready for destination name.''))))))"

definition do_RNTO :: "('v, 'x) ftp_config_scheme \<Rightarrow> string \<Rightarrow> ('v, unit) act" where
  "do_RNTO cfg dst_path =
     with_refusals (\<lambda>e. e = ValueError \<or> is_fs e) ''550 File rename operation failed.''
       (bind (get f_rnfr) (\<lambda>rnfr.
        case rnfr of
          None \<Rightarrow> reply ''503 Bad sequence of commands: use RNFR first.''
        | Some from \<Rightarrow>
            if from = [] then reply ''503 Bad sequence of commands: use RNFR first.''
            else bind (ftp_path cfg from) (\<lambda>src.
            seqa (modify (\<lambda>s. s\<lparr>f_rnfr := None\<rparr>))
            (bind (vfs_ask (vf_isdir (c_vfs cfg) src)) (\<lambda>dir.
             bind (if dir then ret True else vfs_ask (vf_isfile (c_vfs cfg) src)) (\<lambda>there.
             if \<not> there then raise FilesystemError
             else with_access cfg src ''w''
               (let old = join2 (fst (split_path src)) (snd (split_path src)); new = join2 (fst (split_path src)) (snd (split_path dst_path)) in
                seqa (if old = new then ret ()
                      else vfs_do ((if dir then vf_movedir else vf_move) (c_vfs cfg) old new))
                  (reply ''250 Renaming ok.'')))))))) "

fun octal_digits :: "string \<Rightarrow> unit result" where
  "octal_digits [] = Inr ()"
| "octal_digits (c # cs) =
     bindE (py_int [c]) (\<lambda>n. if 0 \<le> n \<and> n \<le> 7 then octal_digits cs else Inl AssertionFailed)"

definition octal_value :: "string \<Rightarrow> int" where
  "octal_value s = foldl (\<lambda>a c. 8 * a + int (code c - 48)) 0 s"

definition do_SITE_CHMOD :: "('v, 'x) ftp_config_scheme \<Rightarrow> string \<Rightarrow> string \<Rightarrow> ('v, unit) act" where
  "do_SITE_CHMOD cfg path mode =
     catch
       (bind (ftp_path cfg path) (\<lambda>p.
        with_access cfg p ''rwx''
          (if length mode \<notin> {3, 4} then raise AssertionFailed
           else seqa (of_result (octal_digits mode))
             (seqa (vfs_do (vf_chmod (c_vfs cfg) p (octal_value mode))) (reply ''200 SITE CHMOD successful.'')))))
       (\<lambda>e. if e = FSOperationNotPermitted then Some (reply ''500 Operation not permitted.'')
            else if e = AssertionFailed \<or> e = ValueError then Some (reply ''501 Invalid SITE CHMOD format.'')
            else if is_fs e then Some (reply ''550 SITE CHMOD command failed.'') else None)"

section \<open>Commands for transfers\<close>

definition do_PASV :: "('v, 'x) ftp_config_scheme \<Rightarrow> ('v, unit) act" where
  "do_PASV cfg =
     bind (get f_channel) (\<lambda>busy.
     seqa (if busy then stop_data_channel cfg False True else ret ())
     (seqa (modify (\<lambda>s. s\<lparr>f_mode := Some ''PASV''\<rparr>))
     (bind (get f_env) (\<lambda>env.
      seqa (reply (case en_listen env of (ip, port) \<Rightarrow>
          ''227 Entering Passive Mode ('' @ join_on '','' (split_on (CHR ''.'') ip) @ '','' @ show_int (port div 256 mod 256) @ '','' @
          show_int (port mod 256) @ '').''))
      (case en_accept env of
         None \<Rightarrow> seqa (modify (\<lambda>s. s\<lparr>f_listener := True\<rparr>)) (reply ''550 PASV command failed.'')
       | Some peer \<Rightarrow> modify (\<lambda>s. s\<lparr>f_peer := Some peer, f_sock := Some True, f_listener := False\<rparr>))))))"

fun all_ints :: "string list \<Rightarrow> int list result" where
  "all_ints [] = Inr []"
| "all_ints (s # ss) = bindE (py_int s) (\<lambda>n. bindE (all_ints ss) (\<lambda>ns. Inr (n # ns)))"

definition port_address :: "string \<Rightarrow> (string \<times> int) result" where
  "port_address arg =
     bindE (all_ints (split_on (CHR '','') arg)) (\<lambda>addr.
     if length addr \<noteq> 6 \<or> \<not> list_all (\<lambda>x. 0 \<le> x \<and> x \<le> 255) (take 4 addr) then Inl ValueError
     else let port = addr ! 4 * 256 + addr ! 5 in
       if 0 \<le> port \<and> port \<le> 65535 then Inr (join_on ''.'' (map show_int (take 4 addr)), port) else Inl ValueError)"

text \<open>Nothing is answered when the connection fails: the channel has been stopped before.\<close>

definition do_PORT :: "('v, 'x) ftp_config_scheme \<Rightarrow> string \<Rightarrow> ('v, unit) act" where
  "do_PORT cfg arg =
     bind (get f_channel) (\<lambda>busy.
     seqa (if busy then stop_data_channel cfg False True else ret ())
     (seqa (modify (\<lambda>s. s\<lparr>f_mode := Some ''PORT''\<rparr>))
      (case port_address arg of
         Inl _ \<Rightarrow> reply ''501 Invalid PORT format.''
       | Inr peer \<Rightarrow>
           bind (get f_env) (\<lambda>env.
           seqa (modify (\<lambda>s. s\<lparr>f_peer := Some peer, f_sock := Some (en_connect env)\<rparr>))
             (if en_connect env then reply ''200 PORT Command Successful. Consider using PASV.'' else ret ())))))"

definition do_LIST :: "('v, 'x) ftp_config_scheme \<Rightarrow> string \<Rightarrow> ('v, unit) act" where
  "do_LIST cfg path =
     with_refusals (\<lambda>e. is_os e \<or> is_fs e) ''550 LIST command failed.''
       (bind (ftp_path cfg path) (\<lambda>p.
        with_access cfg p ''r''
          (bind (vfs_do (vf_listdir (c_vfs cfg) p)) (\<lambda>listing.
           seqa (reply ''150 Here comes the directory listing.'')
           (bind (vfs_do (vf_format (c_vfs cfg) p (sort_texts listing))) (\<lambda>text.
            seqa (push_data text) (seqa (start_data_channel cfg True) (reply ''226 Directory send OK.''))))))))"

definition do_NLST :: "('v, 'x) ftp_config_scheme \<Rightarrow> string \<Rightarrow> ('v, unit) act" where
  "do_NLST cfg path =
     with_refusals (\<lambda>e. is_os e \<or> is_fs e) ''550 NLST command failed.''
       (bind (ftp_path cfg path) (\<lambda>p.
        with_access cfg p ''r''
          (bind (vfs_do (vf_listdir (c_vfs cfg) p)) (\<lambda>listing.
           seqa (reply ''150 Here comes the directory listing.'')
           (seqa (push_data (concat (map (\<lambda>n. n @ crlf) (sort_texts listing))))
           (seqa (start_data_channel cfg True) (reply ''226 Directory send OK.'')))))))"

definition do_RETR :: "('v, 'x) ftp_config_scheme \<Rightarrow> string \<Rightarrow> ('v, unit) act" where
  "do_RETR cfg arg =
     with_refusals (\<lambda>e. is_os e \<or> is_fs e) ''550 The system cannot find the file specified.''
       (bind (ftp_path cfg arg) (\<lambda>p.
        with_access cfg p ''r''
          (bind (vfs_ask (vf_isfile (c_vfs cfg) p)) (\<lambda>file. if file then send_file cfg p else raise FilesystemError))))"

definition do_ABOR :: "('v, 'x) ftp_config_scheme \<Rightarrow> ('v, unit) act" where
  "do_ABOR cfg =
     bind (get f_mode) (\<lambda>mode.
     if mode = None then reply ''225 No transfer to abort.''
     else bind (get f_channel) (\<lambda>busy.
       seqa (stop_data_channel cfg True True)
         (if \<not> busy then reply ''225 ABOR command successful; data channel closed.''
          else seqa (reply ''426 Transfer aborted via ABOR.'') (reply ''226 ABOR command successful.''))))"

text \<open>Sizes are asked for the name as given, the file is stored under the working directory.\<close>

definition do_STOR :: "('v, 'x) ftp_config_scheme \<Rightarrow> bool \<Rightarrow> string \<Rightarrow> ('v, unit) act" where
  "do_STOR cfg appending file =
     catch
       (bind (get f_cwd) (\<lambda>wd.
        with_access cfg wd ''w''
          (bind (get f_restart) (\<lambda>rest.
           seqa (modify (\<lambda>s. s\<lparr>f_restart := 0\<rparr>))
           (bind (if rest = 0 then ret False else bind (vfs_ask (vf_size (c_vfs cfg) file)) (\<lambda>n. ret (rest > n))) (\<lambda>beyond.
            if beyond then raise ValueError
            else
              bind (if rest \<noteq> 0 then ret (''REST'', rest)
                    else if appending then bind (vfs_ask (vf_size (c_vfs cfg) file)) (\<lambda>n. ret (''APPE'', n))
                    else ret (''STOR'', 0)) (\<lambda>(cmd, pos).
              recv_file cfg (join2 wd file) pos cmd)))))))
       (\<lambda>e. if e = FSOperationNotPermitted then Some (reply ''500 Operation not permitted.'')
            else if e = ValueError then Some (reply ''550 STOR command failed. Can't seek file more than its size.'')
            else if is_os e \<or> e = AssertionFailed \<or> is_fs e then Some (reply ''550 STOR command failed. .'') else None)"

definition do_REST :: "string \<Rightarrow> ('v, unit) act" where
  "do_REST line =
     bind (get f_ascii) (\<lambda>ascii.
     if ascii then reply ''501 Resuming transfers not allowed in ASCII mode.''
     else case py_int line of
       Inl _ \<Rightarrow> reply ''501 Invalid parameter.''
     | Inr marker \<Rightarrow>
         if marker < 0 then reply ''501 Invalid parameter.''
         else seqa (reply (''350 Restarting at position '' @ show_int marker @ ''.'')) (modify (\<lambda>s. s\<lparr>f_restart := marker\<rparr>)))"

definition do_APPE :: "('v, 'x) ftp_config_scheme \<Rightarrow> string \<Rightarrow> ('v, unit) act" where
  "do_APPE cfg file =
     bind (get f_restart) (\<lambda>rest.
     if rest \<noteq> 0 then reply ''450 Can't APPE while REST request is pending.'' else do_STOR cfg True file)"

text \<open>The prefix and the suffix are lists of texts, which cannot be added to a text.\<close>

definition do_STOU :: "('v, 'x) ftp_config_scheme \<Rightarrow> string \<Rightarrow> ('v, unit) act" where
  "do_STOU cfg line =
     catch
       (bind (get f_restart) (\<lambda>rest.
        if rest \<noteq> 0 then reply ''450 Can't STOU while REST request is pending.''
        else
          bind (get (\<lambda>s. en_temp (f_env s))) (\<lambda>temp.
          bind (if line \<noteq> [] then bind (ftp_path cfg line) (\<lambda>p. ret (fst (split_path p), ''.'' @ temp))
                else bind (get f_cwd) (\<lambda>wd.
                  if c_stou_suffix cfg \<noteq> [] \<or> c_stou_prefix cfg \<noteq> [] then raise TypeError else ret (wd, temp))) (\<lambda>(basedir, name).
          with_access cfg basedir ''w'' (seqa (reply (''150 FILE: '' @ ascii_repr name)) (recv_file cfg (join2 basedir name) 0 ''STOR''))))))
       (\<lambda>e. if e = FSOperationNotPermitted then Some (reply ''500 Operation not permitted.'') else None)"

section \<open>Choosing the command\<close>

text \<open>The methods by the name of their command, the obsolete names and \<open>BYE\<close> last; the mode is given for \<open>SITE CHMOD\<close> only.\<close>

definition methods :: "('v, 'x) ftp_config_scheme \<Rightarrow> string \<Rightarrow> string \<Rightarrow> (string \<times> ('v, unit) act) list" where
  "methods cfg arg mode =
     [(''USER'', do_USER arg), (''PASS'', do_PASS cfg arg), (''HELP'', do_HELP cfg arg), (''NOOP'', reply ''200 I successfully done nothin'.''),
      (''SYST'', reply ''215 UNIX Type: L8''), (''QUIT'', do_QUIT), (''SITE HELP'', do_SITE_HELP cfg arg), (''MODE'', do_MODE arg), (''PWD'', do_PWD),
      (''TYPE'', do_TYPE arg), (''STRU'', do_STRU arg), (''ALLO'', reply ''202 No storage allocation necessary.''), (''REIN'', do_REIN cfg),
      (''MDTM'', do_MDTM cfg arg), (''SIZE'', do_SIZE cfg arg), (''STAT'', do_STAT cfg arg), (''MKD'', do_MKD cfg arg), (''RMD'', do_RMD cfg arg),
      (''CWD'', do_CWD cfg arg), (''CDUP'', do_CDUP cfg), (''DELE'', do_DELE cfg arg), (''RNFR'', do_RNFR cfg arg), (''RNTO'', do_RNTO cfg arg),
      (''SITE CHMOD'', do_SITE_CHMOD cfg arg mode), (''PASV'', do_PASV cfg), (''PORT'', do_PORT cfg arg), (''LIST'', do_LIST cfg arg),
      (''NLST'', do_NLST cfg arg), (''RETR'', do_RETR cfg arg), (''ABOR'', do_ABOR cfg), (''STOR'', do_STOR cfg False arg), (''REST'', do_REST arg),
      (''APPE'', do_APPE cfg arg), (''STOU'', do_STOU cfg arg),
      (''XCUP'', do_CDUP cfg), (''XCWD'', do_CWD cfg arg), (''XMKD'', do_MKD cfg arg), (''XPWD'', do_PWD), (''XRMD'', do_RMD cfg arg),
      (''BYE'', do_QUIT)]"

definition do_command :: "('v, 'x) ftp_config_scheme \<Rightarrow> string \<Rightarrow> string \<Rightarrow> string \<Rightarrow> ('v, unit) act" where
  "do_command cfg cmd arg mode = (case map_of (methods cfg arg mode) cmd of None \<Rightarrow> raise AttributeError | Some m \<Rightarrow> m)"

definition process_command :: "('v, 'x) ftp_config_scheme \<Rightarrow> string \<Rightarrow> string \<Rightarrow> string \<Rightarrow> ('v, unit) act" where
  "process_command cfg cmd arg mode =
     bind (get f_attempts) (\<lambda>n.
     if n \<ge> c_max cfg then
       seqa (reply ''421 Too many connections. Service temporarily unavailable.'')
       (seqa (modify (\<lambda>s. s\<lparr>f_disconnect := True\<rparr>)) (event Connection_terminated))
     else do_command cfg cmd arg mode)"

definition has_magic :: "string \<Rightarrow> bool" where
  "has_magic s \<longleftrightarrow> CHR ''*'' \<in> set s \<or> CHR ''?'' \<in> set s \<or> CHR ''['' \<in> set s"

text \<open>The argument of a command that works on a path; None when the request has been answered.\<close>

definition path_argument :: "('v, 'x) ftp_config_scheme \<Rightarrow> string \<Rightarrow> string \<Rightarrow> ('v, (string \<times> string) option) act" where
  "path_argument cfg cmd arg =
     bind (get f_cwd) (\<lambda>wd.
     if cmd \<in> {''CWD'', ''XCWD''} then ret (Some (if arg \<noteq> [] \<and> wd \<noteq> ''/'' then join2 wd arg else if arg = [] then ''/'' else arg, []))
     else if cmd \<in> {''CDUP'', ''XCUP''} then ret (Some ([], []))
     else if cmd = ''STAT'' then
       (if has_magic arg then seqa (reply ''550 Globbing not supported.'') (ret None)
        else bind (ftp_path cfg (if arg = [] then wd else arg)) (\<lambda>p. ret (Some (p, []))))
     else if cmd = ''SITE CHMOD'' then
       (case split_once arg of
          (mode, None) \<Rightarrow> seqa (reply ''501 Syntax error: command needs two arguments.'') (ret None)
        | (mode, Some rest) \<Rightarrow> bind (ftp_path cfg rest) (\<lambda>p. ret (Some (p, mode))))
     else
       let a = (if cmd = ''LIST'' \<and> (lower arg \<in> {''-a'', ''-l'', ''-al'', ''-la''} \<or> arg = []) then wd else arg) in
       if has_magic a then seqa (reply ''550 Globbing not supported.'') (ret None)
       else ret (Some (if a = [] then wd else a, [])))"

definition pre_process_cmd :: "('v, 'x) ftp_config_scheme \<Rightarrow> string \<Rightarrow> string \<Rightarrow> string \<Rightarrow> ('v, unit) act" where
  "pre_process_cmd cfg line cmd0 arg0 =
     (let site = (cmd0 = ''SITE'' \<and> arg0 \<noteq> []);
          cmd1 = (if site then ''SITE '' @ upper (hd (split_on (CHR '' '') arg0)) else cmd0);
          arg = (if site then drop (length cmd1 + 1) line else arg0);
          last4 = drop (length cmd1 - 4) cmd1;
          known = (map_of (COMMANDS cfg) cmd1 \<noteq> None);
          cmd = (if known then cmd1 else last4) in
      if \<not> known \<and> last4 \<notin> {''ABOR'', ''STAT'', ''QUIT''} then reply (''500 Command '' @ ascii_repr cmd1 @ '' not understood'')
      else case map_of (COMMANDS cfg) cmd of
        None \<Rightarrow> raise KeyError
      | Some (auth, perm, takes, _) \<Rightarrow>
          if arg = [] \<and> takes = Some True then reply ''501 Syntax error: command needs an argument''
          else if arg \<noteq> [] \<and> takes = Some False then reply ''501 Syntax error: command does not accept arguments.''
          else bind (get f_authenticated) (\<lambda>authenticated.
            if \<not> authenticated then
              (if auth \<or> cmd = ''STAT'' \<and> arg \<noteq> [] then reply ''530 Log in with USER and PASS first.''
               else process_command cfg cmd arg [])
            else if cmd = ''STAT'' \<and> arg = [] then server_status cfg
            else if perm \<and> cmd \<noteq> ''STOU'' then
              bind (path_argument cfg cmd arg) (\<lambda>a. case a of None \<Rightarrow> ret () | Some (p, mode) \<Rightarrow> process_command cfg cmd p mode)
            else process_command cfg cmd arg []))"

definition strip_crlf :: "string \<Rightarrow> string" where
  "strip_crlf line = (if suffix crlf line then take (length line - 2) line else line)"

definition first_word :: "string \<Rightarrow> string" where
  "first_word line = hd (split_on (CHR '' '') line)"

text \<open>Any other exception ends the greenlet, and the next round goes on.\<close>

definition process_line :: "('v, 'x) ftp_config_scheme \<Rightarrow> string \<Rightarrow> ('v, unit) act" where
  "process_line cfg text =
     (let line = strip_crlf text; cmd = upper (first_word line); arg = drop (length cmd + 1) line in
      if line = [] then ret ()
      else catch (pre_process_cmd cfg line cmd arg)
        (\<lambda>e. if e = PermissionDenied \<or> e = FSOperationNotPermitted then Some (reply ''500 Permission denied'')
             else if e = IllegalBackReference then
               Some (reply (''550 '' @ ascii_repr line @ '' points to a path which is outside the user's root directory.''))
             else if is_fs e then Some (seqa (modify (\<lambda>s. s\<lparr>f_disconnect := True\<rparr>)) (event Connection_terminated))
             else None))"

section \<open>Rounds\<close>

definition process_turn :: "('v, 'x) ftp_config_scheme \<Rightarrow> ('v, unit) act" where
  "process_turn cfg =
     bind (get (\<lambda>s. (f_input s, en_active (f_env s), f_channel s))) (\<lambda>(input, active, channel).
     case input of
       data # rest \<Rightarrow> if active then
           seqa (modify (\<lambda>s. s\<lparr>f_input := rest\<rparr>))
           (case c_decode cfg data of
              Inl _ \<Rightarrow> reply ''501 can't decode command.''
            | Inr text \<Rightarrow> process_line cfg text)
         else if \<not> channel then
           seqa (event Connection_timeout) (seqa (reply ''421 Timeout.'') (modify (\<lambda>s. s\<lparr>f_disconnect := True\<rparr>)))
         else ret ()
     | [] \<Rightarrow> if \<not> active \<and> \<not> channel then
           seqa (event Connection_timeout) (seqa (reply ''421 Timeout.'') (modify (\<lambda>s. s\<lparr>f_disconnect := True\<rparr>)))
         else ret ())"

text \<open>With a listener still open the data socket is closed again, and when there is none that is an error: the session is not over.\<close>

definition finish :: "'v ftp \<Rightarrow> 'v ftp" where
  "finish s =
     (if f_disconnect s then s
      else let t = stop_now True s in if f_listener t \<and> f_sock t = None then t else t\<lparr>f_disconnect := True\<rparr>)"

definition lost :: "'v ftp \<Rightarrow> 'v ftp" where
  "lost s = finish (s\<lparr>f_events := f_events s @ [Connection_lost]\<rparr>)"

definition buffer_limit :: nat where
  "buffer_limit = 2048"

definition encoded_length :: "string \<Rightarrow> int" where
  "encoded_length r = sum_list (map (\<lambda>c. if code c < 128 then 1 else 2) r)"

definition next_reply :: "'v ftp \<Rightarrow> 'v ftp" where
  "next_reply s = (case f_replies s of [] \<Rightarrow> s | r # rs \<Rightarrow> s\<lparr>f_replies := rs, f_cmd_sent := f_cmd_sent s + encoded_length r\<rparr>)"

definition cmd_turn :: "'v ftp \<Rightarrow> 'v ftp" where
  "cmd_turn s =
     (case en_cmd (f_env s) of
        Closed \<Rightarrow> lost s
      | Segment data \<Rightarrow>
          if data = [] then s
          else if length (f_input s) > buffer_limit then answered ''500 Command too long.'' s
          else s\<lparr>f_input := f_input s @ [data], f_cmd_received := f_cmd_received s + int (length data)\<rparr>
      | Writable \<Rightarrow>
          (case f_replies s of
             [] \<Rightarrow> s
           | r # _ \<Rightarrow> (next_reply s)\<lparr>f_sent := f_sent s @ [r]\<rparr>)
      | Send_fails blocks \<Rightarrow>
          (case f_replies s of
             [] \<Rightarrow> s
           | _ \<Rightarrow> if blocks then next_reply s else lost (next_reply s))
      | Nothing \<Rightarrow> s)"

definition ftp_round :: "('v, 'x) ftp_config_scheme \<Rightarrow> round_env \<Rightarrow> 'v ftp \<Rightarrow> 'v ftp" where
  "ftp_round cfg env s =
     (if f_disconnect s \<or> f_hung s then s
      else
        let t = cmd_turn (s\<lparr>f_env := env, f_turned := False\<rparr>) in
        case process_turn cfg t of (u, r) \<Rightarrow>
          let w = (if f_turned u then u else data_turn cfg u) in
          case r of Blocked \<Rightarrow> w\<lparr>f_hung := True\<rparr> | _ \<Rightarrow> w)"

definition ftp_init :: "('v, 'x) ftp_config_scheme \<Rightarrow> round_env \<Rightarrow> 'v \<Rightarrow> 'v ftp" where
  "ftp_init cfg env v =
     \<lparr>f_vfs = v, f_username = None, f_uid = None, f_authenticated = False, f_attempts = 0, f_cwd = ''/'', f_disconnect = False, f_restart = 0,
      f_ascii = True, f_mode = None, f_channel = False, f_send_set = False, f_recv_set = False, f_peer = None, f_sock = None, f_listener = False, f_rnfr = None,
      f_out = [], f_in = [], f_input = [], f_replies = [terminated (''200 '' @ c_banner cfg)], f_sent = [], f_transferred = [], f_data_sent = 0,
      f_data_received = 0, f_cmd_sent = 0, f_cmd_received = 0, f_events = [New_connection], f_env = env, f_turned = False, f_hung = False\<rparr>"

definition ftp_run :: "('v, 'x) ftp_config_scheme \<Rightarrow> round_env list \<Rightarrow> 'v ftp \<Rightarrow> 'v ftp" where
  "ftp_run cfg envs s = fold (ftp_round cfg) envs s"

end
