(* ===== verification/FtpFacts.thy ===== *)
theory FtpFacts
  imports Ftp
begin

text \<open>
  What is proved of the FTP server. Programs are followed by rules for \<open>preserves\<close>: a predicate of the session that holds before an action
  holds after it, whether it returns, raises or blocks.
\<close>

section \<open>Rules\<close>

definition preserves :: "('v ftp \<Rightarrow> bool) \<Rightarrow> ('v, 'a) act \<Rightarrow> bool" where
  "preserves P m \<longleftrightarrow> (\<forall>s. P s \<longrightarrow> P (fst (m s)))"

lemma preserves_ret: "preserves P (ret x)"
  by (simp add: preserves_def ret_def)

lemma preserves_raise: "preserves P (raise e)"
  by (simp add: preserves_def raise_def)

lemma preserves_get: "preserves P (get g)"
  by (simp add: preserves_def get_def)

lemma preserves_of_result: "preserves P (of_result r)"
  by (simp add: preserves_def of_result_def)

lemma preserves_ask: "preserves P (vfs_ask f)"
  by (simp add: preserves_def vfs_ask_def of_result_def)

lemma preserves_modify: "(\<And>s. P s \<Longrightarrow> P (g s)) \<Longrightarrow> preserves P (modify g)"
  by (simp add: preserves_def modify_def)

lemma preserves_bind: "preserves P m \<Longrightarrow> (\<And>x. preserves P (f x)) \<Longrightarrow> preserves P (bind m f)"
  by (fastforce simp: preserves_def bind_def split: prod.splits out.splits)

lemma preserves_bind_get: "(\<And>s. P s \<Longrightarrow> preserves P (f (g s))) \<Longrightarrow> preserves P (bind (get g) f)"
  by (simp add: preserves_def bind_def get_def)

lemma preserves_catch: "preserves P m \<Longrightarrow> (\<And>e k. h e = Some k \<Longrightarrow> preserves P k) \<Longrightarrow> preserves P (catch m h)"
  by (fastforce simp: preserves_def catch_def split: prod.splits out.splits option.splits)

lemma preserves_if: "(c \<Longrightarrow> preserves P m) \<Longrightarrow> (\<not> c \<Longrightarrow> preserves P n) \<Longrightarrow> preserves P (if c then m else n)"
  by simp

lemma preserves_option: "(o' = None \<Longrightarrow> preserves P m) \<Longrightarrow> (\<And>x. o' = Some x \<Longrightarrow> preserves P (n x)) \<Longrightarrow> preserves P (case o' of None \<Rightarrow> m | Some x \<Rightarrow> n x)"
  by (cases o') simp_all

lemma preserves_sum: "(\<And>e. r = Inl e \<Longrightarrow> preserves P (m e)) \<Longrightarrow> (\<And>x. r = Inr x \<Longrightarrow> preserves P (n x)) \<Longrightarrow> preserves P (case r of Inl e \<Rightarrow> m e | Inr x \<Rightarrow> n x)"
  by (cases r) simp_all

lemma preserves_pair: "(\<And>x y. p = (x, y) \<Longrightarrow> preserves P (f x y)) \<Longrightarrow> preserves P (case p of (x, y) \<Rightarrow> f x y)"
  by (cases p) simp

lemmas preserves_rules = preserves_if preserves_option preserves_sum preserves_pair preserves_ret preserves_raise preserves_get preserves_of_result preserves_ask

section \<open>The number of attempts\<close>

lemma attempts_stop [simp]: "f_attempts (stop_now purge s) = f_attempts s"
  by (simp add: stop_now_def Let_def)

lemma attempts_answered [simp]: "f_attempts (answered r s) = f_attempts s"
  by (simp add: answered_def)

lemma attempts_data_turn [simp]: "f_attempts (data_turn cfg s) = f_attempts s"
  by (auto simp: data_turn_def send_turn_def data_error_def recv_turn_def Let_def split: list.splits out_item.splits sum.splits bool.splits)

text \<open>Predicates of the number of attempts alone.\<close>

definition counts :: "(int \<Rightarrow> bool) \<Rightarrow> 'v ftp \<Rightarrow> bool" where
  "counts Q s \<longleftrightarrow> Q (f_attempts s)"

lemma counts_modify: "(\<And>s. f_attempts (g s) = f_attempts s) \<Longrightarrow> preserves (counts Q) (modify g)"
  by (rule preserves_modify) (simp add: counts_def)

lemma counts_vfs: "preserves (counts Q) (vfs_do f)"
  by (auto simp: preserves_def vfs_do_def counts_def split: prod.splits sum.splits)

lemma counts_reply: "preserves (counts Q) (reply r)"
  unfolding reply_def by (rule counts_modify) simp

lemma counts_event: "preserves (counts Q) (event e)"
  unfolding event_def by (rule counts_modify) simp

lemma counts_wait: "preserves (counts Q) (wait_for cfg c)"
  by (simp add: preserves_def wait_for_def counts_def Let_def)

lemmas counts_basic = preserves_bind preserves_rules counts_vfs counts_reply counts_event counts_wait

lemma counts_start: "preserves (counts Q) (start_data_channel cfg send)"
  unfolding start_data_channel_def by (intro counts_basic counts_modify) simp_all

lemma counts_stop: "preserves (counts Q) (stop_data_channel cfg abort purge)"
  unfolding stop_data_channel_def by (intro counts_basic counts_modify) simp_all

lemma counts_access: "preserves (counts Q) m \<Longrightarrow> preserves (counts Q) (with_access cfg path perms m)"
  unfolding with_access_def by (intro counts_basic)

lemma counts_path: "preserves (counts Q) (ftp_path cfg path)"
  unfolding ftp_path_def by (intro counts_basic)

lemma counts_refusals: "preserves (counts Q) m \<Longrightarrow> preserves (counts Q) (with_refusals also failure m)"
  unfolding with_refusals_def by (rule preserves_catch) (auto simp: counts_reply split: if_splits)

lemma counts_push: "preserves (counts Q) (push_data d)"
  unfolding push_data_def by (intro counts_modify) simp

lemma counts_send_file: "preserves (counts Q) (send_file cfg name)"
  unfolding send_file_def by (intro counts_basic counts_modify counts_start) simp_all

lemma counts_block: "preserves (counts Q) (\<lambda>s. (s, Blocked))"
  by (simp add: preserves_def)

lemma counts_stored: "preserves (counts Q) (finish_upload cfg name cmd)"
  unfolding finish_upload_def Let_def by (intro counts_basic)

lemmas counts_rules = preserves_bind preserves_rules counts_access counts_refusals counts_path counts_vfs counts_reply counts_event counts_wait counts_start counts_stop
  counts_push counts_send_file counts_modify

lemma counts_recv_file: "preserves (counts Q) (recv_file cfg name pos cmd)"
  unfolding recv_file_def Let_def
  by (intro counts_rules preserves_catch counts_block counts_stored) (auto intro!: counts_rules counts_stored split: if_splits)

lemma counts_status: "preserves (counts Q) (server_status cfg)"
  unfolding server_status_def by (intro counts_rules)

lemma counts_USER: "preserves (counts Q) (do_USER arg)"
  unfolding do_USER_def Let_def by (intro counts_rules preserves_catch counts_recv_file) (auto intro: counts_reply split: if_splits)?

lemma counts_HELP: "preserves (counts Q) (do_HELP cfg arg)"
  unfolding do_HELP_def Let_def by (intro counts_rules preserves_catch counts_recv_file) (auto intro: counts_reply split: if_splits)?

lemma counts_SITE_HELP: "preserves (counts Q) (do_SITE_HELP cfg arg)"
  unfolding do_SITE_HELP_def Let_def by (intro counts_rules preserves_catch counts_recv_file) (auto intro: counts_reply split: if_splits)?

lemma counts_QUIT: "preserves (counts Q) (do_QUIT)"
  unfolding do_QUIT_def Let_def by (intro counts_rules preserves_catch counts_recv_file) (auto intro: counts_reply split: if_splits)?

lemma counts_MODE: "preserves (counts Q) (do_MODE arg)"
  unfolding do_MODE_def Let_def by (intro counts_rules preserves_catch counts_recv_file) (auto intro: counts_reply split: if_splits)?

lemma counts_STRU: "preserves (counts Q) (do_STRU arg)"
  unfolding do_STRU_def Let_def by (intro counts_rules preserves_catch counts_recv_file) (auto intro: counts_reply split: if_splits)?

lemma counts_PWD: "preserves (counts Q) (do_PWD)"
  unfolding do_PWD_def Let_def by (intro counts_rules preserves_catch counts_recv_file) (auto intro: counts_reply split: if_splits)?

lemma counts_TYPE: "preserves (counts Q) (do_TYPE arg)"
  unfolding do_TYPE_def Let_def by (intro counts_rules preserves_catch counts_recv_file) (auto intro: counts_reply split: if_splits)?

lemma counts_REIN: "preserves (counts Q) (do_REIN cfg)"
  unfolding do_REIN_def Let_def by (intro counts_rules preserves_catch counts_recv_file) (auto intro: counts_reply split: if_splits)?

lemma counts_MDTM: "preserves (counts Q) (do_MDTM cfg arg)"
  unfolding do_MDTM_def Let_def by (intro counts_rules preserves_catch counts_recv_file) (auto intro: counts_reply split: if_splits)?

lemma counts_SIZE: "preserves (counts Q) (do_SIZE cfg arg)"
  unfolding do_SIZE_def Let_def by (intro counts_rules preserves_catch counts_recv_file) (auto intro: counts_reply split: if_splits)?

lemma counts_CWD: "preserves (counts Q) (do_CWD cfg arg)"
  unfolding do_CWD_def Let_def by (intro counts_rules preserves_catch counts_recv_file) (auto intro: counts_reply split: if_splits)?

lemma counts_DELE: "preserves (counts Q) (do_DELE cfg arg)"
  unfolding do_DELE_def Let_def by (intro counts_rules preserves_catch counts_recv_file) (auto intro: counts_reply split: if_splits)?

lemma counts_RNFR: "preserves (counts Q) (do_RNFR cfg arg)"
  unfolding do_RNFR_def Let_def by (intro counts_rules preserves_catch counts_recv_file) (auto intro: counts_reply split: if_splits)?

lemma counts_MKD: "preserves (counts Q) (do_MKD cfg arg)"
  unfolding do_MKD_def Let_def by (intro counts_rules preserves_catch counts_recv_file) (auto intro: counts_reply split: if_splits)?

lemma counts_RMD: "preserves (counts Q) (do_RMD cfg arg)"
  unfolding do_RMD_def Let_def by (intro counts_rules preserves_catch counts_recv_file) (auto intro: counts_reply split: if_splits)?

lemma counts_RNTO: "preserves (counts Q) (do_RNTO cfg arg)"
  unfolding do_RNTO_def Let_def by (intro counts_rules preserves_catch counts_recv_file) (auto intro: counts_reply split: if_splits)?

lemma counts_SITE_CHMOD: "preserves (counts Q) (do_SITE_CHMOD cfg arg mode)"
  unfolding do_SITE_CHMOD_def Let_def by (intro counts_rules preserves_catch counts_recv_file) (auto intro: counts_reply split: if_splits)?

lemma counts_PASV: "preserves (counts Q) (do_PASV cfg)"
  unfolding do_PASV_def Let_def by (intro counts_rules preserves_catch counts_recv_file) (auto intro: counts_reply split: if_splits)?

lemma counts_PORT: "preserves (counts Q) (do_PORT cfg arg)"
  unfolding do_PORT_def Let_def by (intro counts_rules preserves_catch counts_recv_file) (auto intro: counts_reply split: if_splits)?

lemma counts_LIST: "preserves (counts Q) (do_LIST cfg arg)"
  unfolding do_LIST_def Let_def by (intro counts_rules preserves_catch counts_recv_file) (auto intro: counts_reply split: if_splits)?

lemma counts_NLST: "preserves (counts Q) (do_NLST cfg arg)"
  unfolding do_NLST_def Let_def by (intro counts_rules preserves_catch counts_recv_file) (auto intro: counts_reply split: if_splits)?

lemma counts_RETR: "preserves (counts Q) (do_RETR cfg arg)"
  unfolding do_RETR_def Let_def by (intro counts_rules preserves_catch counts_recv_file) (auto intro: counts_reply split: if_splits)?

lemma counts_ABOR: "preserves (counts Q) (do_ABOR cfg)"
  unfolding do_ABOR_def Let_def by (intro counts_rules preserves_catch counts_recv_file) (auto intro: counts_reply split: if_splits)?

lemma counts_STOR: "preserves (counts Q) (do_STOR cfg appending arg)"
  unfolding do_STOR_def Let_def by (intro counts_rules preserves_catch counts_recv_file) (auto intro: counts_reply split: if_splits)?

lemma counts_REST: "preserves (counts Q) (do_REST arg)"
  unfolding do_REST_def Let_def by (intro counts_rules preserves_catch counts_recv_file) (auto intro: counts_reply split: if_splits)?

lemma counts_STOU: "preserves (counts Q) (do_STOU cfg arg)"
  unfolding do_STOU_def Let_def by (intro counts_rules preserves_catch counts_recv_file) (auto intro: counts_reply split: if_splits)?

lemma counts_STAT: "preserves (counts Q) (do_STAT cfg arg)"
  unfolding do_STAT_def by (intro counts_rules counts_status)

lemma counts_CDUP: "preserves (counts Q) (do_CDUP cfg)"
  unfolding do_CDUP_def by (intro counts_rules counts_CWD)

lemma counts_APPE: "preserves (counts Q) (do_APPE cfg arg)"
  unfolding do_APPE_def by (intro counts_rules counts_STOR)

lemma counts_authentication: "preserves (counts Q) (authentication_ok cfg pw)"
  unfolding authentication_ok_def by (intro counts_rules) simp_all

lemma attempts_authentication [simp]: "f_attempts (fst (authentication_ok cfg pw s)) = f_attempts s"
  using counts_authentication [of "\<lambda>n. n = f_attempts s" cfg pw] by (simp add: preserves_def counts_def)

definition bumps :: "('v, 'a) act \<Rightarrow> bool" where
  "bumps m \<longleftrightarrow> (\<forall>s. f_attempts (fst (m s)) \<le> f_attempts s + 1)"

lemma bumps_bind:
  assumes "\<And>Q. preserves (counts Q) m" and "\<And>x. bumps (f x)"
  shows "bumps (bind m f)"
  unfolding bumps_def
proof
  fix s
  have m: "f_attempts (fst (m s)) = f_attempts s"
    using assms(1) [of "\<lambda>n. n = f_attempts s"] by (simp add: preserves_def counts_def)
  show "f_attempts (fst (bind m f s)) \<le> f_attempts s + 1"
  proof (cases "m s")
    case (Pair t r)
    then have t: "f_attempts t = f_attempts s" using m by simp
    show ?thesis
    proof (cases r)
      case (Ok x)
      have "f_attempts (fst (f x t)) \<le> f_attempts t + 1" using assms(2) [of x] by (simp add: bumps_def)
      then show ?thesis using Pair Ok t by (simp add: bind_def)
    qed (use Pair t in \<open>simp_all add: bind_def\<close>)
  qed
qed

lemma bumps_counts:
  assumes "\<And>Q. preserves (counts Q) m"
  shows "bumps m"
  unfolding bumps_def
proof
  fix s
  show "f_attempts (fst (m s)) \<le> f_attempts s + 1"
    using assms [of "\<lambda>n. n = f_attempts s"] by (simp add: preserves_def counts_def)
qed

lemma bumps_PASS: "bumps (do_PASS cfg arg)"
proof -
  have fail: "bumps (seqa (modify (\<lambda>s. s\<lparr>f_attempts := f_attempts s + 1\<rparr>)) (reply ''530 Authentication Failed.''))"
    by (simp add: bumps_def bind_def modify_def reply_def)
  have ok: "bumps (case c_motd cfg of
         None \<Rightarrow> reply ''230 Log in Successful.''
       | Some motd \<Rightarrow> if motd = [] then reply ''230 Log in Successful.''
           else seqa (reply (''220-'' @ motd @ crlf)) (reply ''220 ''))"
    by (rule bumps_counts) (intro counts_rules)
  show ?thesis unfolding do_PASS_def
    by (intro bumps_bind counts_rules counts_authentication) (simp add: fail ok split del: option.split)
qed

lemma attempts_PASS: "f_attempts (fst (do_PASS cfg arg s)) \<le> f_attempts s + 1"
  using bumps_PASS by (auto simp: bumps_def)

abbreviation bounded :: "('v, 'x) ftp_config_scheme \<Rightarrow> 'v ftp \<Rightarrow> bool" where
  "bounded cfg \<equiv> counts (\<lambda>n. n \<le> c_max cfg)"

lemma counts_methods: "list_all (\<lambda>(k, m). k \<noteq> ''PASS'' \<longrightarrow> preserves (counts Q) m) (methods cfg arg mode)"
  unfolding methods_def list.pred_inject prod.case
  by (simp add: counts_USER counts_HELP counts_SITE_HELP counts_QUIT counts_MODE counts_STRU counts_PWD counts_TYPE counts_REIN counts_MDTM
      counts_SIZE counts_CWD counts_DELE counts_RNFR counts_MKD counts_RMD counts_RNTO counts_SITE_CHMOD counts_PASV counts_PORT counts_LIST
      counts_NLST counts_RETR counts_ABOR counts_STOR counts_REST counts_STOU counts_STAT counts_CDUP counts_APPE counts_reply)

lemma do_PASS_method: "do_command cfg ''PASS'' arg mode = do_PASS cfg arg"
  by (simp add: do_command_def methods_def)

lemma counts_command: "cmd \<noteq> ''PASS'' \<Longrightarrow> preserves (counts Q) (do_command cfg cmd arg mode)"
  using counts_methods [of Q cfg arg mode]
  by (auto simp: do_command_def preserves_raise list_all_iff split: option.split dest!: map_of_SomeD)

lemma bounded_process: "preserves (bounded cfg) (process_command cfg cmd arg mode)"
proof -
  have full: "preserves (bounded cfg) (seqa (reply ''421 Too many connections. Service temporarily unavailable.'')
      (seqa (modify (\<lambda>s. s\<lparr>f_disconnect := True\<rparr>)) (event Connection_terminated)))"
    by (intro counts_rules) simp
  show ?thesis unfolding preserves_def
  proof (intro allI impI)
    fix s :: "'a ftp" assume s: "bounded cfg s"
    show "bounded cfg (fst (process_command cfg cmd arg mode s))"
    proof (cases "f_attempts s \<ge> c_max cfg")
      case True
      with s full show ?thesis by (simp add: process_command_def bind_def get_def preserves_def)
    next
      case False
      then have run: "process_command cfg cmd arg mode s = do_command cfg cmd arg mode s" by (simp add: process_command_def bind_def get_def)
      show ?thesis
      proof (cases "cmd = ''PASS''")
        case True
        with False show ?thesis using attempts_PASS [of cfg arg s] run by (simp add: do_PASS_method counts_def)
      next
        case other: False
        have "preserves (bounded cfg) (do_command cfg cmd arg mode)" using other by (rule counts_command)
        with s show ?thesis by (simp only: run preserves_def)
      qed
    qed
  qed
qed

lemma counts_argument: "preserves (counts Q) (path_argument cfg cmd arg)"
  unfolding path_argument_def Let_def by (intro counts_rules)

lemma bounded_line: "preserves (bounded cfg) (process_line cfg text)"
proof -
  have "preserves (bounded cfg) (pre_process_cmd cfg line cmd arg)" for line cmd arg
    unfolding pre_process_cmd_def Let_def by (intro counts_rules bounded_process counts_status counts_argument)
  then show ?thesis unfolding process_line_def Let_def
    by (intro preserves_if preserves_ret preserves_catch)
      (auto intro!: counts_rules split: if_splits)
qed

lemma bounded_turn: "preserves (bounded cfg) (process_turn cfg)"
  unfolding process_turn_def
  by (intro preserves_bind preserves_get)
    (auto intro!: counts_rules bounded_line split: list.split)

lemma attempts_cmd_turn [simp]: "f_attempts (cmd_turn s) = f_attempts s"
  by (auto simp: cmd_turn_def lost_def next_reply_def finish_def answered_def stop_now_def Let_def split: cmd_input.splits list.splits)

lemma bounded_round:
  assumes "bounded cfg s"
  shows "bounded cfg (ftp_round cfg env s)"
proof -
  let ?t = "cmd_turn (s\<lparr>f_env := env, f_turned := False\<rparr>)"
  have "bounded cfg ?t" using assms by (simp add: counts_def)
  then have "bounded cfg (fst (process_turn cfg ?t))" using bounded_turn [of cfg] by (auto simp: preserves_def)
  then show ?thesis using assms
    by (cases "process_turn cfg ?t") (simp add: ftp_round_def Let_def counts_def split: out.split)
qed

lemma bounded_run: "bounded cfg s \<Longrightarrow> bounded cfg (ftp_run cfg envs s)"
  unfolding ftp_run_def by (induction envs arbitrary: s) (simp_all add: bounded_round)

text \<open>C36. Whatever a client sends, the number of failed logins counted in a session never exceeds the configured maximum.\<close>

theorem attempts_bounded:
  assumes "0 \<le> c_max cfg"
  shows "f_attempts (ftp_run cfg envs (ftp_init cfg env v)) \<le> c_max cfg"
  using bounded_run [of cfg "ftp_init cfg env v" envs] assms by (simp add: counts_def ftp_init_def)

section \<open>Without a login\<close>

text \<open>A segment that is no \<open>PASS\<close> with the password of an account.\<close>

definition harmless :: "('v, 'x) ftp_config_scheme \<Rightarrow> octets \<Rightarrow> bool" where
  "harmless cfg data \<longleftrightarrow>
     (case c_decode cfg data of
        Inl _ \<Rightarrow> True
      | Inr text \<Rightarrow> upper (first_word (strip_crlf text)) = ''PASS'' \<longrightarrow> drop 5 (strip_crlf text) \<notin> snd ` user_pass cfg)"

definition locked :: "('v, 'x) ftp_config_scheme \<Rightarrow> 'v \<Rightarrow> 'v ftp \<Rightarrow> bool" where
  "locked cfg v s \<longleftrightarrow>
     f_vfs s = v \<and> \<not> f_authenticated s \<and> f_uid s = None \<and> f_sock s = None \<and> \<not> f_channel s \<and> f_cwd s = ''/'' \<and> f_transferred s = [] \<and>
     list_all (harmless cfg) (f_input s)"

lemma locked_modify:
  "(\<And>s. f_vfs (g s) = f_vfs s \<and> f_authenticated (g s) = f_authenticated s \<and> f_uid (g s) = f_uid s \<and> f_sock (g s) = f_sock s \<and>
         f_channel (g s) = f_channel s \<and> f_cwd (g s) = f_cwd s \<and> f_transferred (g s) = f_transferred s \<and> f_input (g s) = f_input s)
   \<Longrightarrow> preserves (locked cfg v) (modify g)"
  by (rule preserves_modify) (simp add: locked_def)

lemma locked_reply: "preserves (locked cfg v) (reply r)"
  unfolding reply_def by (rule locked_modify) simp

lemma locked_event: "preserves (locked cfg v) (event e)"
  unfolding event_def by (rule locked_modify) simp

lemmas locked_rules = preserves_bind preserves_rules locked_reply locked_event locked_modify

lemma locked_status: "preserves (locked cfg v) (server_status cfg')"
  unfolding server_status_def by (intro locked_rules)

lemma locked_USER: "preserves (locked cfg v) (do_USER arg)"
  unfolding do_USER_def by (intro locked_rules) simp

lemma locked_HELP: "preserves (locked cfg v) (do_HELP cfg' arg)"
  unfolding do_HELP_def by (intro locked_rules)

lemma locked_SITE_HELP: "preserves (locked cfg v) (do_SITE_HELP cfg' arg)"
  unfolding do_SITE_HELP_def by (intro locked_rules)

lemma locked_QUIT: "preserves (locked cfg v) do_QUIT"
  unfolding do_QUIT_def by (intro locked_rules) simp

text \<open>A wrong password changes the number of attempts only.\<close>

lemma refused_password:
  assumes "c_anon cfg = None" and "arg \<notin> snd ` user_pass cfg"
  shows "authentication_ok cfg arg = ret False"
proof
  fix s
  have "(n, arg) \<notin> user_pass cfg" for n
    using assms(2) by (metis image_eqI snd_conv)
  then show "authentication_ok cfg arg s = ret False s"
    using assms(1) by (simp add: authentication_ok_def bind_def get_def ret_def split: option.split)
qed

lemma locked_PASS:
  assumes "c_anon cfg = None" and "arg \<notin> snd ` user_pass cfg"
  shows "preserves (locked cfg v) (do_PASS cfg arg)"
  unfolding do_PASS_def refused_password [OF assms] by (intro locked_rules) simp

definition open_commands :: "string list" where
  "open_commands = [''HELP'', ''NOOP'', ''PASS'', ''QUIT'', ''SITE'', ''SITE HELP'', ''STAT'', ''SYST'', ''USER'']"

lemma open_table: "list_all (\<lambda>(k, auth, _). auth \<or> k \<in> set open_commands) ftp_commands"
  by code_simp

lemma open_command: "map_of (COMMANDS cfg) cmd = Some (False, x) \<Longrightarrow> cmd \<in> set open_commands"
  using open_table by (fastforce simp: COMMANDS_def list_all_iff dest!: map_of_SomeD)

lemma locked_methods:
  "list_all (\<lambda>(k, m). k \<in> set open_commands \<longrightarrow> k \<noteq> ''PASS'' \<longrightarrow> k \<noteq> ''STAT'' \<longrightarrow> preserves (locked cfg v) m) (methods cfg' arg mode)"
  unfolding methods_def list.pred_inject prod.case
  by (simp add: open_commands_def locked_USER locked_HELP locked_SITE_HELP locked_QUIT locked_reply)

lemma do_STAT_method: "do_command cfg ''STAT'' [] mode = server_status cfg"
  by (simp add: do_command_def methods_def do_STAT_def)

lemma locked_command:
  assumes "c_anon cfg = None" and "cmd \<in> set open_commands"
    and "cmd = ''PASS'' \<longrightarrow> arg \<notin> snd ` user_pass cfg" and "cmd = ''STAT'' \<longrightarrow> arg = []"
  shows "preserves (locked cfg v) (do_command cfg cmd arg mode)"
proof -
  consider "cmd = ''PASS''" | "cmd = ''STAT''" | "cmd \<noteq> ''PASS''" "cmd \<noteq> ''STAT''" by blast
  then show ?thesis
  proof cases
    case 1
    with assms show ?thesis by (simp add: do_PASS_method locked_PASS)
  next
    case 2
    with assms show ?thesis by (simp add: do_STAT_method locked_status)
  next
    case 3
    with assms(2) locked_methods [of cfg v cfg arg mode] show ?thesis
      by (auto simp: do_command_def preserves_raise list_all_iff split: option.split dest!: map_of_SomeD)
  qed
qed

lemma locked_process:
  assumes "preserves (locked cfg v) (do_command cfg cmd arg mode)"
  shows "preserves (locked cfg v) (process_command cfg cmd arg mode)"
  unfolding process_command_def using assms by (intro locked_rules) simp_all

lemma locked_pre_process:
  assumes anon: "c_anon cfg = None" and pass: "cmd = ''PASS'' \<longrightarrow> arg \<notin> snd ` user_pass cfg"
  shows "preserves (locked cfg v) (pre_process_cmd cfg line cmd arg)"
proof -
  have unauth: "preserves (locked cfg v) (bind (get f_authenticated) (\<lambda>a. if \<not> a then m else n))"
    if "preserves (locked cfg v) m" for m n :: "('a, unit) act"
    using that by (intro preserves_bind_get) (simp add: locked_def)
  have run: "preserves (locked cfg v) (process_command cfg c a [])"
    if "map_of (COMMANDS cfg) c = Some (False, x)" and "c = ''PASS'' \<longrightarrow> a \<notin> snd ` user_pass cfg" and "c = ''STAT'' \<longrightarrow> a = []" for c a x
    using that by (intro locked_process locked_command [OF anon] open_command)
  have known: "preserves (locked cfg v)
      (case map_of (COMMANDS cfg) c of
        None \<Rightarrow> raise KeyError
      | Some (auth, perm, takes, _) \<Rightarrow>
          if a = [] \<and> takes = Some True then reply ''501 Syntax error: command needs an argument''
          else if a \<noteq> [] \<and> takes = Some False then reply ''501 Syntax error: command does not accept arguments.''
          else bind (get f_authenticated) (\<lambda>authenticated.
            if \<not> authenticated then
              (if auth \<or> c = ''STAT'' \<and> a \<noteq> [] then reply ''530 Log in with USER and PASS first.''
               else process_command cfg c a [])
            else rest perm))" if "c = ''PASS'' \<longrightarrow> a \<notin> snd ` user_pass cfg" for c a rest
  proof (cases "map_of (COMMANDS cfg) c")
    case (Some info)
    obtain auth perm takes h where info: "info = (auth, perm, takes, h)" by (cases info)
    have "preserves (locked cfg v) (if auth \<or> c = ''STAT'' \<and> a \<noteq> [] then reply ''530 Log in with USER and PASS first.'' else process_command cfg c a [])"
      using run [of c "(perm, takes, h)" a] that Some info by (auto simp: locked_reply)
    then show ?thesis unfolding Some info option.case prod.case by (intro preserves_if locked_reply unauth) simp
  qed (simp add: preserves_raise)
  show ?thesis
    unfolding pre_process_cmd_def Let_def
    by (rule preserves_if, rule locked_reply, rule known) (use pass in \<open>auto split: if_splits\<close>)
qed

lemma locked_line:
  assumes "c_anon cfg = None" and "upper (first_word (strip_crlf text)) = ''PASS'' \<longrightarrow> drop 5 (strip_crlf text) \<notin> snd ` user_pass cfg"
  shows "preserves (locked cfg v) (process_line cfg text)"
proof -
  let ?line = "strip_crlf text" and ?cmd = "upper (first_word (strip_crlf text))"
  have "preserves (locked cfg v) (pre_process_cmd cfg ?line ?cmd (drop (length ?cmd + 1) ?line))"
    using assms by (intro locked_pre_process) (simp_all add: eval_nat_numeral)
  then show ?thesis unfolding process_line_def Let_def
    by (intro preserves_if preserves_ret preserves_catch)
      (auto intro!: locked_rules split: if_splits)
qed

lemma locked_turn:
  assumes anon: "c_anon cfg = None"
  shows "preserves (locked cfg v) (process_turn cfg)"
proof -
  have timeout: "preserves (locked cfg v) (seqa (event Connection_timeout) (seqa (reply r) (modify (\<lambda>s. s\<lparr>f_disconnect := True\<rparr>))))" for r
    by (intro locked_rules) simp
  show ?thesis unfolding preserves_def
  proof (intro allI impI)
    fix s assume s: "locked cfg v s"
    show "locked cfg v (fst (process_turn cfg s))"
    proof (cases "f_input s")
      case Nil
      with s timeout [of "''421 Timeout.''"] show ?thesis
        by (simp add: process_turn_def bind_def get_def ret_def preserves_def)
    next
      case (Cons data more)
      have h: "harmless cfg data" and t: "locked cfg v (s\<lparr>f_input := more\<rparr>)" using s Cons by (simp_all add: locked_def)
      have line: "preserves (locked cfg v) (case c_decode cfg data of Inl _ \<Rightarrow> reply ''501 can't decode command.'' | Inr text \<Rightarrow> process_line cfg text)"
        using h anon by (intro preserves_sum locked_reply locked_line) (simp_all add: harmless_def)
      show ?thesis
        using s t line timeout [of "''421 Timeout.''"] Cons
        by (simp add: process_turn_def bind_def get_def ret_def modify_def preserves_def)
    qed
  qed
qed

lemma locked_data_turn: "locked cfg v s \<Longrightarrow> locked cfg v (data_turn cfg s)"
  by (simp add: data_turn_def locked_def)

lemma locked_cmd_turn:
  assumes "locked cfg v s" and "\<And>d. en_cmd (f_env s) = Segment d \<Longrightarrow> harmless cfg d"
  shows "locked cfg v (cmd_turn s)"
  using assms
  by (auto simp: cmd_turn_def lost_def next_reply_def finish_def answered_def stop_now_def Let_def locked_def split: cmd_input.splits list.splits)

lemma locked_round:
  assumes "c_anon cfg = None" and "locked cfg v s" and "\<And>d. en_cmd env = Segment d \<Longrightarrow> harmless cfg d"
  shows "locked cfg v (ftp_round cfg env s)"
proof -
  let ?t = "cmd_turn (s\<lparr>f_env := env, f_turned := False\<rparr>)"
  have "locked cfg v ?t" using assms(2, 3) by (intro locked_cmd_turn) (simp_all add: locked_def)
  then have u: "locked cfg v (fst (process_turn cfg ?t))" using locked_turn [OF assms(1)] by (auto simp: preserves_def)
  have hung: "locked cfg v (w\<lparr>f_hung := True\<rparr>) = locked cfg v w" for w by (simp add: locked_def)
  show ?thesis using assms(2) u locked_data_turn [OF u]
    by (cases "process_turn cfg ?t") (auto simp: ftp_round_def Let_def hung split: out.split)
qed

lemma locked_run:
  assumes "c_anon cfg = None" and "locked cfg v s" and "\<forall>env \<in> set envs. \<forall>d. en_cmd env = Segment d \<longrightarrow> harmless cfg d"
  shows "locked cfg v (ftp_run cfg envs s)"
  using assms(2, 3) unfolding ftp_run_def
  by (induction envs arbitrary: s) (simp_all add: locked_round [OF assms(1)])

text \<open>C35. With anonymous logins off, a client that never sends a \<open>PASS\<close> with the password of an account reaches nothing, whatever else it
  sends and in whatever order: it is not logged in, has no user number and no data connection, the file system is as it was and so is the
  working directory, and nothing has been sent as data.\<close>

theorem no_password_no_access:
  assumes "c_anon cfg = None" and "\<forall>env \<in> set envs. \<forall>d. en_cmd env = Segment d \<longrightarrow> harmless cfg d"
  shows "let s = ftp_run cfg envs (ftp_init cfg env v) in
    \<not> f_authenticated s \<and> f_uid s = None \<and> f_sock s = None \<and> f_vfs s = v \<and> f_cwd s = ''/'' \<and> f_transferred s = []"
proof -
  have "locked cfg v (ftp_init cfg env v)" by (simp add: locked_def ftp_init_def)
  from locked_run [OF assms(1) this assms(2)] show ?thesis by (simp add: locked_def Let_def)
qed

end
