(* ===== verification/FtpConfig.thy ===== *)
theory FtpConfig
  imports Ftp "HOL-Library.AList"
begin

text \<open>
  The configuration of the FTP server, \<open>FTPConfig\<close> in \<open>conpot/protocols/ftp/ftp_server.py\<close>: the commands it enables, the
  accounts and the groups, and their registration with the file system (\<open>register_user\<close>, \<open>create_group\<close> and
  \<open>add_users_to_group\<close> in \<open>conpot/core/filesystem.py\<close>). The template is given as the texts of its nodes. What is left out is
  the file tree itself: the permissions and times the template gives to files and directories.
\<close>

section \<open>Template\<close>

record user_node =
  un_uid :: string
  un_name :: string
  un_password :: string

record ftp_template =
  tp_enabled :: string
  tp_banner :: string
  tp_max :: string
  tp_timeout :: string
  tp_motd :: "string option"
  tp_prefix :: "string list"
  tp_suffix :: "string list"
  tp_group :: string
  tp_users :: "user_node list"
  tp_anon :: string
  tp_anon_uid :: string
  tp_anon_name :: string
  tp_owner :: string
  tp_perms :: string
  tp_upload :: string

definition rename_command :: "string \<Rightarrow> string \<Rightarrow> string list \<Rightarrow> string list" where
  "rename_command old new cs = (if old \<in> set cs then remove1 old cs @ [new] else cs)"

definition enabled_commands :: "string \<Rightarrow> string list result" where
  "enabled_commands text =
     (let names = map (filter (\<lambda>c. c \<noteq> CHR 0x27)) (split_on (CHR '','') (filter (\<lambda>c. \<not> is_space c) text));
          cs = rename_command ''SITECHMOD'' ''SITE CHMOD'' (rename_command ''SITEHELP'' ''SITE HELP'' names)
      in if list_all (\<lambda>c. c \<in> set all_commands) cs then Inr cs else Inl AssertionFailed)"

text \<open>\<open>int(s, 8)\<close>.\<close>

definition is_octal :: "char \<Rightarrow> bool" where
  "is_octal c \<longleftrightarrow> 48 \<le> code c \<and> code c < 56"

definition int_base8 :: "string \<Rightarrow> int result" where
  "int_base8 s =
     (let t = strip s;
          signed = (t \<noteq> [] \<and> hd t \<in> {CHR ''+'', CHR ''-''});
          u = (if signed then tl t else t);
          prefixed = (take 2 u \<in> {''0o'', ''0O''});
          v = (if prefixed then drop 2 u else u);
          groups = split_on (CHR ''_'') (if prefixed \<and> take 1 v = ''_'' then tl v else v)
      in if list_all (\<lambda>g. g \<noteq> [] \<and> list_all is_octal g) groups
         then Inr ((if signed \<and> hd t = CHR ''-'' then - 1 else 1) * octal_value (concat groups)) else Inl ValueError)"

section \<open>Accounts\<close>

text \<open>A user's name, group and password by number.\<close>

type_synonym user_db = "(int \<times> string \<times> string \<times> string) list"

fun template_users :: "string \<Rightarrow> user_node list \<Rightarrow> user_db \<Rightarrow> user_db result" where
  "template_users grp [] db = Inr db"
| "template_users grp (n # ns) db =
     bindE (py_int (un_uid n)) (\<lambda>uid. template_users grp ns (AList.update uid (un_name n, grp, un_password n) db))"

text \<open>\<open>bool\<close> of the attribute's text.\<close>

definition anonymous_user :: "ftp_template \<Rightarrow> user_db \<Rightarrow> (int option \<times> user_db) result" where
  "anonymous_user t db =
     (if tp_anon t = [] then Inr (None, db)
      else bindE (py_int (tp_anon_uid t)) (\<lambda>uid. Inr (Some uid, AList.update uid (tp_anon_name t, tp_group t, []) db)))"

definition fixed_users :: "user_db \<Rightarrow> user_db" where
  "fixed_users db =
     AList.update 22 (''anonymous'', ''45:ftp'', []) (AList.update 13 (''nobody'', ''45:ftp'', ''nobody'') db)"

definition join_group :: "int \<Rightarrow> string \<Rightarrow> int \<Rightarrow> ftp_group list \<Rightarrow> ftp_group list" where
  "join_group gid name uid gs =
     (if gid \<in> gr_gid ` set gs then map (\<lambda>g. if gr_gid g = gid then g\<lparr>gr_users := gr_users g @ [uid]\<rparr> else g) gs
      else gs @ [\<lparr>gr_gid = gid, gr_name = name, gr_users = [uid]\<rparr>])"

fun init_groups :: "user_db \<Rightarrow> ftp_group list \<Rightarrow> ftp_group list result" where
  "init_groups [] gs = Inr gs"
| "init_groups ((uid, _, grp, _) # us) gs =
     (case split_on (CHR '':'') grp of
        [g, name] \<Rightarrow> bindE (py_int g) (\<lambda>gid. init_groups us (join_group gid name uid gs))
      | _ \<Rightarrow> Inl ValueError)"

definition accounts :: "user_db \<Rightarrow> account list" where
  "accounts db = map (\<lambda>(uid, name, _, pw). \<lparr>ac_uid = uid, ac_uname = name, ac_password = pw\<rparr>) db"

section \<open>Registration\<close>

record vfs_accounts =
  va_users :: "(int \<times> string) list"
  va_grps :: "(int \<times> string) list"
  va_user_grps :: "(int \<times> int set) list"

definition initial_accounts :: vfs_accounts where
  "initial_accounts = \<lparr>va_users = [(0, ''root'')], va_grps = [(0, ''root'')], va_user_grps = [(0, {0})]\<rparr>"

text \<open>\<open>name\<close> is written before it is compared, and popped again.\<close>

definition register_name :: "int \<Rightarrow> string \<Rightarrow> (int \<times> string) list \<Rightarrow> (int \<times> string) list \<times> unit result" where
  "register_name i name names =
     (if name = [] then (names, Inl AssertionFailed)
      else let new = AList.update i name names in
        if card (snd ` set new) \<noteq> length new then (AList.delete i new, Inl FilesystemError) else (new, Inr ()))"

definition register_user :: "int \<Rightarrow> string \<Rightarrow> vfs_accounts \<Rightarrow> vfs_accounts \<times> unit result" where
  "register_user uid name a = (case register_name uid name (va_users a) of (us, r) \<Rightarrow> (a\<lparr>va_users := us\<rparr>, r))"

definition create_group :: "int \<Rightarrow> string \<Rightarrow> vfs_accounts \<Rightarrow> vfs_accounts \<times> unit result" where
  "create_group gid name a = (case register_name gid name (va_grps a) of (gs, r) \<Rightarrow> (a\<lparr>va_grps := gs\<rparr>, r))"

text \<open>A set cannot be added to a set.\<close>

definition add_users_to_group :: "int \<Rightarrow> int list \<Rightarrow> vfs_accounts \<Rightarrow> vfs_accounts \<times> unit result" where
  "add_users_to_group gid uids a =
     (if gid \<notin> fst ` set (va_grps a) \<or> \<not> list_all (\<lambda>u. u \<in> fst ` set (va_users a)) uids then (a, Inl FilesystemError)
      else if gid \<in> fst ` set (va_user_grps a) then (a, Inl TypeError)
      else (a\<lparr>va_user_grps := va_user_grps a @ [(gid, set uids)]\<rparr>, Inr ()))"

fun each :: "('b \<Rightarrow> 'a \<Rightarrow> 'a \<times> unit result) \<Rightarrow> 'b list \<Rightarrow> 'a \<Rightarrow> 'a \<times> unit result" where
  "each f [] a = (a, Inr ())"
| "each f (x # xs) a = (case f x a of (b, Inl e) \<Rightarrow> (b, Inl e) | (b, Inr _) \<Rightarrow> each f xs b)"

definition register_accounts :: "account list \<Rightarrow> ftp_group list \<Rightarrow> vfs_accounts \<Rightarrow> vfs_accounts \<times> unit result" where
  "register_accounts us gs a =
     (case each (\<lambda>u. register_user (ac_uid u) (ac_uname u)) us a of
        (b, Inl e) \<Rightarrow> (b, Inl e)
      | (b, Inr _) \<Rightarrow>
          (case each (\<lambda>g. create_group (gr_gid g) (gr_name g)) gs b of
             (c, Inl e) \<Rightarrow> (c, Inl e)
           | (c, Inr _) \<Rightarrow> each (\<lambda>g. add_users_to_group (gr_gid g) (gr_users g)) gs c))"

section \<open>Configuration\<close>

text \<open>The numbers are read in the order of the constructor; the directories get the permissions of files.\<close>

definition init_config ::
  "'v vfs_ops \<Rightarrow> (string \<Rightarrow> string) \<Rightarrow> string \<times> int \<Rightarrow> (octets \<Rightarrow> string result) \<Rightarrow> string \<Rightarrow> ftp_template \<Rightarrow> vfs_accounts
   \<Rightarrow> vfs_accounts \<times> 'v ftp_config result" where
  "init_config v slugify client decode address t a =
     (case bindE (enabled_commands (tp_enabled t)) (\<lambda>cs.
       bindE (py_int (tp_max t)) (\<lambda>most.
       bindE (py_int (tp_timeout t)) (\<lambda>timeout.
       bindE (template_users (tp_group t) (tp_users t) []) (\<lambda>users.
       bindE (anonymous_user t users) (\<lambda>(anon, db0).
       bindE (py_int (tp_owner t)) (\<lambda>owner.
       bindE (py_int (hd (split_on (CHR '':'') (tp_group t)))) (\<lambda>group.
       bindE (int_base8 (tp_perms t)) (\<lambda>perms.
       bindE (int_base8 (tp_upload t)) (\<lambda>upload.
       let db = fixed_users db0 in
       bindE (init_groups db []) (\<lambda>groups.
       Inr \<lparr>c_enabled = cs, c_banner = tp_banner t, c_motd = tp_motd t, c_max = most, c_user_db = accounts db, c_grp_db = groups, c_anon = anon,
         c_file_perms = upload, c_dir_perms = upload, c_stou_prefix = tp_prefix t, c_stou_suffix = tp_suffix t, c_address = address, c_vfs = v,
         c_slugify = slugify, c_client = client, c_decode = decode\<rparr>)))))))))) of
        Inl e \<Rightarrow> (a, Inl e)
      | Inr cfg \<Rightarrow> (case register_accounts (c_user_db cfg) (c_grp_db cfg) a of (b, r) \<Rightarrow> (b, map_sum id (\<lambda>_. cfg) r)))"

end
