(* ===== verification/FtpClaims.thy ===== *)
theory FtpClaims
  imports FtpFacts FtpConfig PoolWire
begin

text \<open>
  The remaining facts of the FTP server: what an upload leaves behind, when a session is stuck, the accounts every configuration has; and
  the configuration of the template that comes with Conpot, on which they are applied.
\<close>

section \<open>Uploads\<close>

lemma bind_Ok: "m s = (t, Ok x) \<Longrightarrow> bind m f s = f x t"
  by (simp add: bind_def)

lemma recv_ready:
  assumes "f_peer s = Some (ip, port)" "port \<noteq> 0" "f_sock s = Some True" "\<not> f_channel s"
  shows "start_data_channel cfg False s = (s\<lparr>f_send_set := True, f_recv_set := False, f_channel := True\<rparr>, Ok ())"
  using assms by (auto simp: start_data_channel_def bind_def get_def modify_def ret_def)

lemma recv_waits:
  assumes "f_channel s" "f_send_set s" "\<not> f_recv_set s" "f_sock s = Some True" "\<not> f_turned s" "\<not> en_broken (f_env s)"
    "en_pieces (f_env s) = p # ps" "p \<noteq> []"
  shows "wait_for cfg f_recv_set s =
    (s\<lparr>f_turned := True, f_recv_set := True, f_in := f_in s @ takeWhile (\<lambda>p. p \<noteq> []) (p # ps) @ [[]],
       f_data_received := f_data_received s + int (length (concat (takeWhile (\<lambda>p. p \<noteq> []) (p # ps)))),
       f_replies := f_replies s @ [terminated ''125 Transfer starting.'', terminated ''226 Transfer complete.'']\<rparr>, Ok ())"
  using assms by (simp add: wait_for_def data_turn_def recv_turn_def answered_def Let_def)

text \<open>\<open>STOR\<close> on a data connection, when the peer sends at least one octet and every operation on the file system succeeds, hands what the
  peer sends up to the end of the stream to the file system: the file under the working directory and the
  copy among the data files get exactly these octets, the file gets the permissions for uploads and the owner and group of the user, and
  both ends of the transfer are reported.\<close>

theorem upload_stored:
  fixes s :: "'v ftp" and cfg :: "'v ftp_config" and arg :: string
  defines "data \<equiv> concat (takeWhile (\<lambda>p. p \<noteq> []) (en_pieces (f_env s)))" and "name \<equiv> join2 (f_cwd s) arg" and "v \<equiv> c_vfs cfg"
    and "copy \<equiv> sanitize_file_name cfg (en_now (f_env s)) (join2 (f_cwd s) arg)"
  assumes peer: "f_peer s = Some (ip, port)" "port \<noteq> 0" "f_sock s = Some True" "\<not> f_channel s" "\<not> f_turned s" "f_in s = []" "f_restart s = 0"
    and pieces: "data \<noteq> []" "\<not> en_broken (f_env s)"
    and check: "vf_check v (f_cwd s) (f_uid s) ''w'' (f_vfs s) = (fsa, Inr ())"
    and created: "vf_data v (copy) [] fsa = (fsb, Inr ())"
    and written: "vf_write v Overwrite name data fsb = (fsc, Inr ())"
    and copied: "vf_data v (copy) data fsc = (fsd, Inr ())"
    and chmod: "vf_chmod v name (c_file_perms cfg) fsd = (fse, Inr ())"
    and gid: "get_gid cfg (f_uid s) = Inr gid"
    and chown: "vf_chown v name (f_uid s) gid fse = (fsf, Inr ())"
    and times: "vf_settimes v name fsf = (fsg, Inr ())"
  shows "\<exists>t. do_STOR cfg False arg s = (t, Ok ()) \<and> f_vfs t = fsg \<and> f_in t = [] \<and> f_data_received t = f_data_received s + int (length data) \<and>
    f_replies t = f_replies s @ map terminated [''125 Transfer starting.'', ''226 Transfer complete.'', ''226 Transfer complete.'']"
proof -
  obtain p ps where ps: "en_pieces (f_env s) = p # ps" "p \<noteq> []"
    using pieces(1) by (cases "en_pieces (f_env s)") (auto simp: data_def split: if_splits)
  let ?s1 = "s\<lparr>f_vfs := fsa, f_restart := 0\<rparr>"
  let ?s2 = "?s1\<lparr>f_send_set := True, f_recv_set := False, f_channel := True\<rparr>"
  let ?pieces = "takeWhile (\<lambda>p. p \<noteq> []) (p # ps) @ [[]]"
  have start: "start_data_channel cfg False ?s1 = (?s2, Ok ())" using peer by (simp add: recv_ready)
  have get_now: "bind (get (\<lambda>s. sanitize_file_name cfg (en_now (f_env s)) name)) g ?s2 = g copy ?s2" for g :: "string \<Rightarrow> ('v, unit) act"
    by (simp add: bind_def get_def copy_def name_def)
  have wait: "wait_for cfg f_recv_set ?s2 =
    (?s2\<lparr>f_turned := True, f_recv_set := True, f_in := ?pieces, f_data_received := f_data_received s + int (length data),
       f_replies := f_replies s @ [terminated ''125 Transfer starting.'', terminated ''226 Transfer complete.'']\<rparr>, Ok ())"
    using peer pieces ps by (subst recv_waits [of _ p ps]) (simp_all add: data_def)
  have data: "concat ?pieces = data" by (simp add: data_def ps)
  have recv: "\<exists>t. recv_file cfg name 0 ''STOR'' ?s1 = (t, Ok ()) \<and> f_vfs t = fsg \<and> f_in t = [] \<and>
      f_data_received t = f_data_received s + int (length data) \<and>
      f_replies t = f_replies s @ map terminated [''125 Transfer starting.'', ''226 Transfer complete.'', ''226 Transfer complete.'']"
    unfolding recv_file_def Let_def get_now bind_Ok [where m = "start_data_channel cfg False", OF start] bind_Ok [where m = "wait_for cfg f_recv_set", OF wait]
    using data created written copied chmod gid chown times
    by (simp add: get_def modify_def vfs_do_def ret_def catch_def finish_upload_def bind_def of_result_def reply_def Let_def v_def)
  then show ?thesis
    using check peer(7)
    by (auto simp: do_STOR_def with_access_def bind_def get_def modify_def vfs_do_def ret_def catch_def name_def v_def)
qed

section \<open>Stuck and endless sessions\<close>

text \<open>\<open>STOR\<close> before \<open>PASV\<close> and \<open>PORT\<close> says so, and waits for an event that nothing sets.\<close>

lemma stor_without_connection_hangs:
  assumes "f_peer s = None" "\<not> f_channel s" "\<not> f_recv_set s" "f_restart s = 0"
    and "vf_check (c_vfs cfg) (f_cwd s) (f_uid s) ''w'' (f_vfs s) = (w, Inr ())"
  shows "\<exists>t. do_STOR cfg False arg s = (t, Blocked) \<and> f_replies t = f_replies s @ [terminated ''425 Use PORT or PASV first.'']"
  using assms
  by (auto simp: do_STOR_def with_access_def recv_file_def start_data_channel_def wait_for_def data_turn_def reply_def bind_def get_def modify_def
      vfs_do_def ret_def catch_def Let_def)

lemma hung_stays: "f_hung s \<Longrightarrow> ftp_run cfg envs s = s"
  unfolding ftp_run_def by (induction envs) (simp_all add: ftp_round_def)

text \<open>Once a passive connection that nobody opened has failed, the loss of the peer does not end the session: the round is repeated.\<close>

lemma lost_but_not_over:
  assumes "f_listener s" "f_sock s = None" "\<not> f_disconnect s"
  shows "\<not> f_disconnect (lost s)" and "f_events (lost s) = f_events s @ [Connection_lost]" and "f_listener (lost s)" and "f_sock (lost s) = None"
  using assms by (simp_all add: lost_def finish_def stop_now_def Let_def)

section \<open>Accounts\<close>

lemma account_listed: "map_of db uid = Some (name, grp, pw) \<Longrightarrow> \<lparr>ac_uid = uid, ac_uname = name, ac_password = pw\<rparr> \<in> set (accounts db)"
  by (force simp: accounts_def dest: map_of_SomeD)

lemma map_sum_const: "map_sum id (\<lambda>_. c) r = Inr x \<Longrightarrow> x = c"
  by (cases r) simp_all

lemma init_config_users:
  assumes "init_config v slug client dec ad t a = (b, Inr cfg)"
  shows "\<exists>db. c_user_db cfg = accounts (fixed_users db)"
  using assms by (auto simp: init_config_def Let_def split: sum.splits prod.splits elim!: bindE_eq_InrE dest!: map_sum_const)

text \<open>Whatever the template says, the server has the account \<open>nobody\<close> with the password \<open>nobody\<close>, and \<open>anonymous\<close> with the empty one
  even when the template has no anonymous login.\<close>

theorem builtin_accounts:
  assumes "init_config v slug client dec ad t a = (b, Inr cfg)"
  shows "{(''nobody'', ''nobody''), (''anonymous'', [])} \<subseteq> user_pass cfg"
proof -
  obtain db where db: "c_user_db cfg = accounts (fixed_users db)" using init_config_users [OF assms] by blast
  have "map_of (fixed_users db) 13 = Some (''nobody'', ''45:ftp'', ''nobody'')" and "map_of (fixed_users db) 22 = Some (''anonymous'', ''45:ftp'', [])"
    by (simp_all add: fixed_users_def AList.update_conv')
  from account_listed [OF this(1)] account_listed [OF this(2)] show ?thesis
    unfolding user_pass_def db by force
qed

text \<open>Registering the same groups twice is an error that is no file system's.\<close>

lemma second_registration_fails:
  assumes "gid \<in> fst ` set (va_user_grps a)" "gid \<in> fst ` set (va_grps a)" "list_all (\<lambda>u. u \<in> fst ` set (va_users a)) uids"
  shows "add_users_to_group gid uids a = (a, Inl TypeError)"
  using assms by (simp add: add_users_to_group_def)

section \<open>The template that comes with Conpot\<close>

definition default_template :: ftp_template where
  "default_template =
     \<lparr>tp_enabled = join_on '','' (map (\<lambda>c. [CHR 0x27] @ c @ [CHR 0x27]) all_commands),
      tp_banner = ''FTP server ready.'', tp_max = ''3'', tp_timeout = ''40'', tp_motd = Some '' Technodrome - Mouser Factory. Authorized personnel only'',
      tp_prefix = [''conpot_test''], tp_suffix = [''conpot_test''], tp_group = ''45:ftp'',
      tp_users = [\<lparr>un_uid = ''13'', un_name = ''nobody'', un_password = ''nobody''\<rparr>, \<lparr>un_uid = ''10'', un_name = ''test_user'', un_password = ''test''\<rparr>],
      tp_anon = ''True'', tp_anon_uid = ''32'', tp_anon_name = ''ftp'', tp_owner = ''13'', tp_perms = ''0o777'', tp_upload = ''0o755''\<rparr>"

text \<open>A file system of one directory, for examples.\<close>

type_synonym demo_files = "(string \<times> octets) list"

definition demo_vfs :: "demo_files vfs_ops" where
  "demo_vfs =
     \<lparr>vf_root = ''/data/ftp/'', vf_norm = Inr, vf_isfile = (\<lambda>p v. Inr (map_of v p \<noteq> None)), vf_isdir = (\<lambda>p v. Inr (p = ''/'')),
      vf_check = (\<lambda>p u m v. (v, Inr ())), vf_mtime = (\<lambda>p v. (v, Inr ''20180801000000'')),
      vf_size = (\<lambda>p v. case map_of v p of None \<Rightarrow> Inl FilesystemError | Some d \<Rightarrow> Inr (int (length d))),
      vf_listdir = (\<lambda>p v. (v, Inr (map fst v))), vf_format = (\<lambda>p ns v. (v, Inr (concat (map (\<lambda>n. n @ crlf) ns)))),
      vf_makedir = (\<lambda>p v. (v, Inl FilesystemError)), vf_removedir = (\<lambda>p v. (v, Inl FilesystemError)),
      vf_remove = (\<lambda>p v. (AList.delete p v, Inr ())), vf_move = (\<lambda>p q v. (v, Inl FilesystemError)), vf_movedir = (\<lambda>p q v. (v, Inl FilesystemError)),
      vf_chmod = (\<lambda>p n v. (v, Inr ())), vf_chown = (\<lambda>p u g v. (v, Inr ())), vf_settimes = (\<lambda>p v. (v, Inr ())),
      vf_read = (\<lambda>p v. case map_of v p of None \<Rightarrow> Inl FilesystemError | Some d \<Rightarrow> Inr d),
      vf_write = (\<lambda>m p d v. (case m of
          Overwrite \<Rightarrow> AList.update p d v
        | Append \<Rightarrow> AList.update p ((case map_of v p of None \<Rightarrow> [] | Some x \<Rightarrow> x) @ d) v
        | Seek n \<Rightarrow> AList.update p (take n (case map_of v p of None \<Rightarrow> [] | Some x \<Rightarrow> x) @ d) v, Inr ())),
      vf_data = (\<lambda>p d v. (AList.update (''data:'' @ p) d v, Inr ()))\<rparr>"

definition demo_config :: "demo_files ftp_config" where
  "demo_config =
     \<lparr>c_enabled = all_commands, c_banner = ''FTP server ready.'', c_motd = None, c_max = 3,
      c_user_db = accounts (fixed_users []), c_grp_db = [\<lparr>gr_gid = 45, gr_name = ''ftp'', gr_users = [13, 22]\<rparr>], c_anon = None,
      c_file_perms = 493, c_dir_perms = 493, c_stou_prefix = [], c_stou_suffix = [], c_address = ''0.0.0.0:2121'', c_vfs = demo_vfs,
      c_slugify = id, c_client = (''10.0.0.9'', 9), c_decode = decode\<rparr>"

definition demo_env :: "cmd_input \<Rightarrow> round_env" where
  "demo_env c =
     \<lparr>en_cmd = c, en_active = True, en_elapsed = ''1.5'', en_temp = ''tmp0'', en_now = ''2024-01-01 00:00:00'', en_listen = (''127.0.0.1'', 40001),
      en_accept = Some (''10.0.0.9'', 40002), en_connect = True, en_pieces = [[1, 2], [3]], en_broken = False, en_send = True\<rparr>"

definition type_line :: "string \<Rightarrow> round_env" where
  "type_line l = demo_env (Segment (encode (l @ crlf)))"

lemma default_template_is_accepted:
  "case init_config demo_vfs id (''10.0.0.9'', 9) decode ''0.0.0.0:2121'' default_template initial_accounts of
     (a, Inr cfg) \<Rightarrow> va_users a = [(0, ''root''), (13, ''nobody''), (10, ''test_user''), (32, ''ftp''), (22, ''anonymous'')] \<and>
         va_grps a = [(0, ''root''), (45, ''ftp'')] \<and> va_user_grps a = [(0, {0}), (45, {13, 10, 32, 22})] \<and>
       c_max cfg = 3 \<and> c_anon cfg = Some 32 \<and> c_file_perms cfg = 493 \<and> length (c_enabled cfg) = 35
   | _ \<Rightarrow> False"
  by code_simp

section \<open>Witnesses\<close>

lemma attempts_bounded_witness:
  "0 \<le> c_max demo_config \<and> f_attempts (ftp_run demo_config [type_line ''USER x'', type_line ''PASS y''] (ftp_init demo_config (demo_env Nothing) [])) \<le> 3"
  using attempts_bounded [of demo_config "[type_line ''USER x'', type_line ''PASS y'']" "demo_env Nothing" "[]"] by (simp add: demo_config_def)

lemma demo_harmless: "list_all (\<lambda>l. harmless demo_config (encode (l @ crlf))) [''USER x'', ''PASS y'', ''PWD'']"
  by code_simp

lemma no_password_no_access_witness:
  "f_vfs (ftp_run demo_config (map type_line [''USER x'', ''PASS y'', ''PWD'']) (ftp_init demo_config (demo_env Nothing) [(''/a'', [7])])) = [(''/a'', [7])]"
  using no_password_no_access [of demo_config "map type_line [''USER x'', ''PASS y'', ''PWD'']" "demo_env Nothing" "[(''/a'', [7])]"] demo_harmless
  by (simp add: demo_config_def type_line_def demo_env_def Let_def)

lemma accepted_result: "(case x of (a, Inr c) \<Rightarrow> P a c | _ \<Rightarrow> False) \<Longrightarrow> \<exists>a c. x = (a, Inr c)"
  by (simp split: prod.splits sum.splits)

lemma builtin_accounts_witness:
  "\<exists>b cfg. init_config demo_vfs id (''10.0.0.9'', 9) decode ''0.0.0.0:2121'' default_template initial_accounts = (b, Inr cfg) \<and>
     (''anonymous'', []) \<in> user_pass cfg"
proof -
  obtain b cfg where r: "init_config demo_vfs id (''10.0.0.9'', 9) decode ''0.0.0.0:2121'' default_template initial_accounts = (b, Inr cfg)"
    by (rule exE [OF accepted_result [OF default_template_is_accepted]], erule exE, rule that)
  have "(''anonymous'', []) \<in> user_pass cfg" using builtin_accounts [OF r] by simp
  with r show ?thesis by (intro exI conjI)
qed

definition demo_state :: "demo_files ftp" where
  "demo_state = (ftp_init demo_config (demo_env Nothing) [])\<lparr>f_peer := Some (''10.0.0.9'', 40002), f_sock := Some True, f_uid := Some 13\<rparr>"

abbreviation demo_copy :: string where
  "demo_copy \<equiv> ''data:(10.0.0.9, 9)-2024-01-01 00:00:00-/a''"

lemma demo_fields:
  "c_vfs demo_config = demo_vfs" "c_file_perms demo_config = 493" "vf_check demo_vfs p u m fs = (fs, Inr ())"
  "vf_data demo_vfs p d fs = (AList.update (''data:'' @ p) d fs, Inr ())" "vf_write demo_vfs Overwrite p d fs = (AList.update p d fs, Inr ())"
  "vf_chmod demo_vfs p i fs = (fs, Inr ())" "vf_chown demo_vfs p u g fs = (fs, Inr ())" "vf_settimes demo_vfs p fs = (fs, Inr ())"
  by (simp_all add: demo_config_def demo_vfs_def)

lemma demo_state_fields:
  "f_vfs demo_state = []" "f_peer demo_state = Some (''10.0.0.9'', 40002)" "f_sock demo_state = Some True" "\<not> f_channel demo_state" "\<not> f_turned demo_state"
  "f_in demo_state = []" "f_restart demo_state = 0" "f_cwd demo_state = ''/''" "f_uid demo_state = Some 13"
  "en_pieces (f_env demo_state) = [[1, 2], [3]]" "\<not> en_broken (f_env demo_state)" "en_now (f_env demo_state) = ''2024-01-01 00:00:00''"
  by (simp_all add: demo_state_def ftp_init_def demo_env_def)

lemma upload_stored_witness:
  "\<exists>t. do_STOR demo_config False ''a'' demo_state = (t, Ok ()) \<and> f_vfs t = [(demo_copy, [1, 2, 3]), (''/a'', [1, 2, 3])]"
proof -
  have copy: "sanitize_file_name demo_config ''2024-01-01 00:00:00'' (join2 ''/'' ''a'') = ''(10.0.0.9, 9)-2024-01-01 00:00:00-/a''"
    by code_simp
  have name: "join2 ''/'' ''a'' = ''/a''" by code_simp
  have gid: "get_gid demo_config (Some 13) = Inr 45" by code_simp
  show ?thesis
    using upload_stored [where s = demo_state and cfg = demo_config and arg = "''a''" and ip = "''10.0.0.9''" and port = 40002 and gid = 45
        and fsa = "[]" and fsb = "[(demo_copy, [])]" and fsc = "[(demo_copy, []), (''/a'', [1, 2, 3])]"
        and fsd = "[(demo_copy, [1, 2, 3]), (''/a'', [1, 2, 3])]" and fse = "[(demo_copy, [1, 2, 3]), (''/a'', [1, 2, 3])]"
        and fsf = "[(demo_copy, [1, 2, 3]), (''/a'', [1, 2, 3])]" and fsg = "[(demo_copy, [1, 2, 3]), (''/a'', [1, 2, 3])]"] copy name gid
    by (simp add: demo_fields demo_state_fields) blast
qed

end
