(* ===== verification/Spec2Isabelle.thy ===== *)
theory Spec2Isabelle
  imports NormFacts NormLoopFacts RlEnvFacts PredictorFacts ActuatorFacts ControlLoop ForwarderFacts PoolNatFacts PoolFacts PoolWireFacts
    CowrieFsFacts CowrieFsLimits KamstrupFacts AuthFacts PwdFacts SftpFacts FsCommandFacts
    ShellDemo Iec104Demo S7commFacts KamstrupReboot FtpClaims
begin

text \<open>
  Adapt-Trap: a set of honeypots whose plugins a learning agent switches on and off. Attackers leave logs in
  MongoDB; \<open>Code/normalizer\<close> turns them into uniform records with tags; \<open>Code/rl_agent\<close> looks at the latest
  records and decides which plugin to enable or disable; \<open>Code/actuator\<close> carries the decision out on the honeypot
  machines by SSH. The honeypots themselves are under \<open>Honeypots/\<close>: Cowrie (SSH and Telnet), Conpot (industrial
  protocols), nodepot-lite (web uploads), and two that are only configured here.

  \<^bold>\<open>Theories and code.\<close> Every component has a theory with its definitions, in the order of the source, and one named
  \<open>...Facts\<close> (or \<open>...Limits\<close>) with what is proved of it.

  \<^item> \<open>Prelude\<close>, \<open>PyStr\<close>, \<open>PyRegex\<close>, \<open>PyGetopt\<close>, \<open>IpAddr\<close>, \<open>Docs\<close>, \<open>Octets\<close>: exceptions as values of a sum type;
    strings of Latin-1 characters; the backtracking matcher of \<open>re\<close> for the patterns used; \<open>getopt\<close>; the forms
    \<open>ipaddress\<close> accepts; documents; bytes as words.
  \<^item> \<open>NormBackfill\<close>: \<open>Code/normalizer/normalized_logs.py\<close>. \<open>NormLoop\<close>: \<open>normalizer_loop.py\<close>, whose state is the
    collections, the ids already seen and the port map. Proved: where an address and a port come from; the port map holds exactly
    the ports seen; as long as nothing raises and new documents get larger ids, every document is normalised exactly once.
  \<^item> \<open>RlEnv\<close>: \<open>Code/rl_agent/adapt_trap_env.py\<close> and the callback of \<open>train_sb3.py\<close>. \<open>Predictor\<close>: \<open>predictor_loop.py\<close>, whose state is
    the plugin states and the action log. Proved: the reward is the one described; a round applies exactly the change it logs;
    the log alternates between enabling and disabling for every plugin.
  \<^item> \<open>Actuator\<close>: \<open>Code/actuator\<close>. Proved over the locale \<open>action_queue\<close>: an action is carried out at most once, the
    newest first, and an action nobody supports blocks the queue. \<open>ControlLoop\<close> joins predictor and actuator.
  \<^item> \<open>Forwarder\<close>: \<open>Honeypots/nodepot-lite/nodepot_lite_mongo_forwarder.py\<close>. Proved over the locale \<open>upload_coll\<close>, which is
    interpreted on the model of the collection: workers that finish within the lock expiry never hold one upload together; every pass gives
    its claim back.
  \<^item> \<open>PoolNat\<close>, \<open>PoolService\<close>, \<open>PoolWire\<close>: \<open>backend_pool/nat.py\<close>, \<open>pool_service.py\<close>, \<open>pool_server.py\<close> and
    \<open>cowrie/pool_interface/client.py\<close>: guests as records in a list, operations as functions on the state of the service. Proved:
    live guests have distinct addresses; the pool stays within its size; one attacker's guest is not given to another; listeners
    are exactly the bindings; both ends of the wire protocol understand each other.
  \<^item> \<open>CowrieFs\<close>: \<open>cowrie/shell/fs.py\<close>. A node is a datatype; a reference to a node is its position in the tree. \<open>CowrieFsFacts\<close>
    proves that on a tree without links every sequence of calls refines operations on a map from canonical paths to attributes;
    \<open>CowrieFsLimits\<close> bounds what can be stored through it and treats links. On it rest \<open>Sftp\<close> (\<open>cowrie/shell/filetransfer.py\<close>: a path means the same as in the
    shell; what an upload leaves behind) and \<open>FsCommands\<close> (\<open>cowrie/commands/fs.py\<close>: what \<open>rm\<close>, \<open>cp\<close> and \<open>tail\<close> do).
  \<^item> \<open>Shlex\<close>, \<open>Shell\<close>, \<open>Echo\<close>: the lexer of Python's \<open>shlex\<close>; \<open>cowrie/shell/honeypot.py\<close>, \<open>command.py\<close>, \<open>protocol.py\<close>, \<open>cowrie/commands/bash.py\<close>;
    \<open>echo\<close> and \<open>printf\<close> of \<open>commands/base.py\<close>. A session is a record with lists of shells, emulated processes and command objects, which
    are referred to by number, the stack, and what was sent. \<open>ShellFacts\<close> proves that a line of pipelines does what \<open>run_line\<close> says, a
    specification without stack or processes, and what is lost of a pipeline; \<open>SubstFacts\<close> what a substitution becomes; \<open>RedirectFacts\<close> what a
    redirection leaves in the file system, on the host and in the record of the session; \<open>ShellDemo\<close> runs them on one session.
  \<^item> \<open>Auth\<close>, \<open>Pwd\<close>: \<open>cowrie/core/auth.py\<close>, \<open>core/checkers.py\<close>, \<open>shell/pwd.py\<close> and the users of \<open>shell/avatar.py\<close> and
    \<open>telnet/session.py\<close>. Proved: what a list of accounts decides; after how many attempts an address is let in, however
    the attempts of others are interleaved; that the files are read back as written.
  \<^item> \<open>Kamstrup\<close>: \<open>conpot/protocols/kamstrup_meter\<close>. Proved: requests and responses survive their encoding; a wrong checksum raises.

  \<^item> \<open>Iec104Frames\<close>, \<open>Iec104\<close>: \<open>conpot/protocols/IEC104\<close>. A class of packets is the list of its fields; a connection is a record with its
    sequence numbers, timers, buffer and the registers of the station; requests and timers are events of a run. A frame
    that cannot be built, because a value does not fit its field, raises. \<open>Iec104Facts\<close> proves
    invariants over the locale \<open>connection_invariant\<close>, which is interpreted for the numbers, the phases and the buffer; \<open>Iec104Claims\<close> what commands
    and interrogations change and answer, and that the acknowledgement due after \<open>w\<close> frames ends the connection; \<open>Iec104Demo\<close> runs a station.

  \<^item> \<open>S7comm\<close>: \<open>conpot/protocols/s7comm\<close>. Each layer of a packet is a record with its \<open>pack\<close> and \<open>parse\<close>; the handler of a connection is a
    function of the segments the peer sends. \<open>S7commFacts\<close> proves that the layers are read back as written and what a
    client that negotiates, stops the controller and asks for its identification is answered, octet by octet, and runs the cases in which a session
    ends with an exception.

  \<^item> \<open>Databus\<close>: \<open>conpot/core/databus.py\<close>, with programs over the bus and the rules by which they are followed. \<open>KamstrupMgmt\<close>:
    \<open>conpot/protocols/kamstrup_management\<close>, every command a program. \<open>KamstrupMgmtFacts\<close>, \<open>KamstrupRequests\<close>, \<open>KamstrupMgmtClaims\<close> prove that the settings
    stay valid whatever is requested and exactly which requests raise; \<open>KamstrupReboot\<close> puts console and meter together and proves what a restart closes.
  \<^item> \<open>Ftp\<close>, \<open>FtpConfig\<close>: \<open>conpot/protocols/ftp\<close>. A command is a program over the state of the session that returns, raises or blocks; a
    round of the handler is a function of what the peer and the network do meanwhile. The file system is a record of operations that are
    arguments: of \<open>conpot/core/filesystem.py\<close> only the accounts are modelled. \<open>PyCase\<close>:
    upper case, \<open>ascii\<close> and sorting of texts. \<open>FtpFacts\<close>, \<open>FtpClaims\<close> prove what a client without a password reaches, that failed logins
    are bounded, with which calls an upload is stored and when a session hangs.

  \<^bold>\<open>What is given.\<close> Arguments of the definitions stand for what is not under \<open>src/\<close>: the clock, the drawn numbers, the answers of
  the host, of MongoDB's driver, of SSH, HTTP and libvirt, Scapy's reading of packets, the trained model, checksums and hashes, and the patterns an administrator or an attacker writes
  (the patterns of the code itself are modelled). A hypothesis on such an argument states documented behaviour, as that a checksum has sixteen bits. When a packet cannot be
  built is decided by the formats of \<open>struct\<close> that the fields name, in \<open>frames.py\<close> or in Scapy's documentation.

  \<^bold>\<open>Bounds and fuel.\<close> Loops are recursions that end; loops that would poll for ever are runs over a list of rounds or events
  of any length. One fuel is the depth of the interpreter's stack in \<open>getfile\<close>, which the code too exhausts on a loop of links;
  \<open>getfile_stack\<close> says that more of it never changes an answer. The other is the depth of calls of the shell's mutual recursion (\<open>knot\<close>): None when
  it runs out; the theorems give a depth that is enough, from the length of the line and of its pipelines. Kamstrup's bytes are 8-bit words; numbers of Python are unbounded.

  \<^bold>\<open>Not modelled.\<close> The dashboard (\<open>Code/dashboard\<close>, tables and charts), the plots, reports and test data of \<open>Code/\<close>, the training of the network;
  of Cowrie the SSH and Telnet transports, completion and editing of a line, the commands that only print, and the output plugins; of Conpot every protocol but the Kamstrup meter and its console, IEC 104, S7 and FTP;
  Conpot's virtual file system (\<open>core/filesystem.py\<close>, \<open>fs_utils.py\<close>,
  \<open>virtual_fs.py\<close>), a cache over PyFilesystem; honeypy and honeytrap (configured here, upstream projects); CAPE, which is configuration and start scripts; documents, data and models.
  Of what is modelled: log messages, and references shared by two entries of a directory.
\<close>

end
